(* ===== verification/Prelude.thy ===== *)
theory Prelude
  imports Main "HOL-Library.Word"
begin

unbundle bit_operations_syntax

text \<open>
  Shared vocabulary of the development: names for the C integer types, the result type of
  operations that may not return normally, and the generic lemmas on words, function
  updates and lists that the component theories use.

  The C code is compiled for RV32 with the ILP32 ABI, so \<open>uint8_t\<close>, \<open>uint16_t\<close>,
  \<open>uint32_t\<close>, \<open>size_t\<close>, pointers and \<open>TickType_t\<close> are words of the width
  below. A signed type is the word of its width read through \<open>sint\<close>.
\<close>

type_synonym u8 = "8 word"
type_synonym u16 = "16 word"
type_synonym u32 = "32 word"
type_synonym u64 = "64 word"

section \<open>Collections of facts\<close>

named_theorems dev_simps \<open>device register equations\<close>

section \<open>Results that may be faults\<close>

text \<open>
  \<open>Inl\<close> is a fault: the call does not return normally. \<open>bindE\<close> runs the rest of a
  function after a call that may fault, and is what sequencing is in C.
\<close>

definition bindE :: "'e + 'a \<Rightarrow> ('a \<Rightarrow> 'e + 'b) \<Rightarrow> 'e + 'b" where
  "bindE r f = (case r of Inl e \<Rightarrow> Inl e | Inr x \<Rightarrow> f x)"

lemma bindE_simps [simp]:
  "bindE (Inl e) f = Inl e"
  "bindE (Inr x) f = f x"
  by (simp_all add: bindE_def)

lemma bindE_eq_Inr: "bindE r f = Inr y \<longleftrightarrow> (\<exists>x. r = Inr x \<and> f x = Inr y)"
  by (cases r) simp_all

lemma bindE_assoc: "bindE (bindE r f) g = bindE r (\<lambda>x. bindE (f x) g)"
  by (cases r) simp_all

section \<open>Words\<close>

lemma unat_add1_if:
  fixes n :: "'a::len word"
  assumes "n \<noteq> -1"
  shows "unat (n + 1) = unat n + 1"
proof -
  have "1 + n \<noteq> 0" using assms by (metis add.commute eq_neg_iff_add_eq_0)
  then show ?thesis using unatSuc [of n] by (simp add: add.commute)
qed

lemma word_not_max_less: "(v :: 'a::len word) \<noteq> -1 \<Longrightarrow> v < -1"
  by (simp add: order.not_eq_order_implies_strict)

lemma word_less_inc:
  fixes x y :: "'a::len word"
  assumes "x + 1 \<noteq> 0" "y < x"
  shows "y < x + 1"
proof -
  have "x \<noteq> -1" using assms(1) by auto
  then show ?thesis using unat_add1_if [of x] assms(2) by (simp add: word_less_nat_alt)
qed

section \<open>The two halves of a 64-bit word\<close>

definition lo32 :: "u64 \<Rightarrow> u32" where "lo32 x = ucast x"
definition hi32 :: "u64 \<Rightarrow> u32" where "hi32 x = ucast (drop_bit 32 x)"
definition join64 :: "u32 \<Rightarrow> u32 \<Rightarrow> u64" where "join64 h l = push_bit 32 (ucast h) OR ucast l"

lemma lo32_join64 [simp]: "lo32 (join64 h l) = l"
  by (rule bit_word_eqI) (simp add: lo32_def join64_def bit_simps)

lemma hi32_join64 [simp]: "hi32 (join64 h l) = h"
  by (rule bit_word_eqI) (auto simp: hi32_def join64_def bit_simps dest: bit_imp_le_length)

lemma join64_hi_lo [simp]: "join64 (hi32 x) (lo32 x) = x"
  by (rule bit_word_eqI) (auto simp: hi32_def lo32_def join64_def bit_simps)

lemma unat_lo32: "unat (lo32 x) = unat x mod 2 ^ 32"
  by (simp add: lo32_def unsigned_ucast_eq take_bit_eq_mod)

lemma unat_hi32: "unat (hi32 x) = unat x div 2 ^ 32"
proof -
  have "unat x < 2 ^ 64" using unsigned_less [of x] by simp
  then have "unat x div 2 ^ 32 < 2 ^ 32" by simp
  moreover have "unat (drop_bit 32 x) = unat x div 2 ^ 32"
    by (simp only: unat_drop_bit_eq) (simp add: drop_bit_eq_div)
  ultimately show ?thesis
    by (simp only: hi32_def unsigned_ucast_eq take_bit_eq_mod) simp
qed

lemma word64_eq_iff: "x = y \<longleftrightarrow> hi32 x = hi32 y \<and> lo32 x = lo32 y"
  by (metis join64_hi_lo)

lemma unat_join64: "unat (join64 h l) = unat h * 2 ^ 32 + unat l"
proof -
  have "unat (join64 h l) = unat (hi32 (join64 h l)) * 2 ^ 32 + unat (lo32 (join64 h l))"
    unfolding unat_hi32 unat_lo32 by simp
  then show ?thesis by simp
qed

lemma unat_of_nat64: "unat (of_nat c :: u64) = c mod 2 ^ 64"
  by (simp add: unat_of_nat take_bit_eq_mod)

section \<open>Lists\<close>

lemma takeWhile_sorted_le:
  fixes f :: "'a \<Rightarrow> 'b::linorder"
  assumes "sorted (map f xs)"
  shows "\<forall>x \<in> set (dropWhile (\<lambda>y. f y \<le> v) xs). v < f x"
  using assms
proof (induction xs)
  case Nil
  then show ?case by simp
next
  case (Cons a xs)
  then show ?case
    by (cases "f a \<le> v") (auto simp: not_le)
qed

text \<open>Stable insertion by key, after every element whose key is not larger.\<close>

definition insort_after :: "('a \<Rightarrow> 'b::linorder) \<Rightarrow> 'a \<Rightarrow> 'a list \<Rightarrow> 'a list" where
  "insort_after f x xs = takeWhile (\<lambda>y. f y \<le> f x) xs @ x # dropWhile (\<lambda>y. f y \<le> f x) xs"

lemma set_insort_after [simp]: "set (insort_after f x xs) = insert x (set xs)"
  unfolding insort_after_def by (metis (no_types, lifting) Un_insert_right list.simps(15)
      set_append takeWhile_dropWhile_id)

lemma length_insort_after [simp]: "length (insort_after f x xs) = Suc (length xs)"
  unfolding insort_after_def
  by (metis add_Suc_right length_Cons length_append takeWhile_dropWhile_id)

lemma sorted_insort_after:
  assumes "sorted (map f xs)"
  shows "sorted (map f (insort_after f x xs))"
proof -
  let ?t = "takeWhile (\<lambda>y. f y \<le> f x) xs" and ?d = "dropWhile (\<lambda>y. f y \<le> f x) xs"
  have t: "sorted (map f ?t)" "sorted (map f ?d)"
    using assms sorted_append [of "map f ?t" "map f ?d"] by (metis map_append takeWhile_dropWhile_id)+
  have "\<forall>y \<in> set ?t. f y \<le> f x" by (auto dest: set_takeWhileD)
  moreover have "\<forall>y \<in> set ?d. f x < f y"
    using assms by (rule takeWhile_sorted_le)
  ultimately show ?thesis
    using t unfolding insort_after_def by (fastforce simp: sorted_append)
qed

text \<open>Splitting a list at an element.\<close>

lemma takeWhile_neq_append [simp]:
  "j \<notin> set as \<Longrightarrow> takeWhile (\<lambda>x. x \<noteq> j) (as @ ys) = as @ takeWhile (\<lambda>x. x \<noteq> j) ys"
  by (induction as) auto

lemma dropWhile_neq_append [simp]:
  "j \<notin> set as \<Longrightarrow> dropWhile (\<lambda>x. x \<noteq> j) (as @ ys) = dropWhile (\<lambda>x. x \<noteq> j) ys"
  by (induction as) auto

lemma remove1_split: "x \<notin> set as \<Longrightarrow> remove1 x (as @ x # bs) = as @ bs"
  by (simp add: remove1_append)

end
