(* ===== verification/Kernel_List.thy ===== *)
theory Kernel_List
  imports Prelude
begin

text \<open>
  The FreeRTOS list module, \<^verbatim>\<open>third_party/freertos-kernel/list.c\<close> and the access macros
  of \<^verbatim>\<open>include/list.h\<close>, over an explicit store. A list is a ring of items closed by its
  embedded end marker. The store keeps every field of \<^verbatim>\<open>ListItem_t\<close> and \<^verbatim>\<open>List_t\<close> as a
  function of the address of the cell, so aliasing between lists is the aliasing of the C
  code. The type parameters are the addresses of lists, of items and of owners.

  The configuration has \<open>configUSE_MINI_LIST_ITEM = 1\<close> and
  \<open>configUSE_LIST_DATA_INTEGRITY_CHECK_BYTES = 0\<close>: the end marker has no owner and no
  container field, and there are no integrity words.
\<close>

section \<open>The store\<close>

text \<open>
  A \<^verbatim>\<open>ListItem_t *\<close> is NULL, the end marker embedded in a list, or an item.
\<close>

datatype ('l, 'i) lptr = Null | LEnd 'l | LItem 'i

record ('l, 'i, 'o) list_store =
  xItemValue :: "('l, 'i) lptr \<Rightarrow> u32"
  pxNext :: "('l, 'i) lptr \<Rightarrow> ('l, 'i) lptr"
  pxPrevious :: "('l, 'i) lptr \<Rightarrow> ('l, 'i) lptr"
  pvOwner :: "'i \<Rightarrow> 'o"
  pxContainer :: "'i \<Rightarrow> 'l option"
  pxIndex :: "'l \<Rightarrow> ('l, 'i) lptr"
  uxNumberOfItems :: "'l \<Rightarrow> u32"

text \<open>
  What can keep a kernel call from returning: following NULL, an endless loop, reading the
  owner of an end marker, a failed \<open>configASSERT\<close> (with its line in \<^verbatim>\<open>tasks.c\<close>), and
  the stack overflow hook, which ends in the platform's failure report.
\<close>

datatype kfault = NullDeref | Endless | NoOwner | AssertFail nat | StackOverflow

definition portMAX_DELAY :: u32 where "portMAX_DELAY = 0xffffffff"

lemma portMAX_DELAY_eq: "portMAX_DELAY = -1"
  by (simp add: portMAX_DELAY_def)

lemma le_portMAX_DELAY [simp]: "v \<le> portMAX_DELAY"
  by (simp add: portMAX_DELAY_eq)

definition deref :: "('l, 'i) lptr \<Rightarrow> kfault + 'a \<Rightarrow> kfault + 'a" where
  "deref p k = (if p = Null then Inl NullDeref else k)"

definition loopE :: "(kfault + 'a) option \<Rightarrow> kfault + 'a" where
  "loopE r = (case r of None \<Rightarrow> Inl Endless | Some x \<Rightarrow> x)"

abbreviation set_next where
  "set_next p q h \<equiv> h\<lparr>pxNext := (pxNext h)(p := q)\<rparr>"
abbreviation set_prev where
  "set_prev p q h \<equiv> h\<lparr>pxPrevious := (pxPrevious h)(p := q)\<rparr>"
abbreviation set_container where
  "set_container i c h \<equiv> h\<lparr>pxContainer := (pxContainer h)(i := c)\<rparr>"
abbreviation set_index where
  "set_index l p h \<equiv> h\<lparr>pxIndex := (pxIndex h)(l := p)\<rparr>"
abbreviation set_count where
  "set_count l n h \<equiv> h\<lparr>uxNumberOfItems := (uxNumberOfItems h)(l := n)\<rparr>"

section \<open>Access macros\<close>

definition listSET_LIST_ITEM_OWNER where
  "listSET_LIST_ITEM_OWNER i ow h = h\<lparr>pvOwner := (pvOwner h)(i := ow)\<rparr>"

definition listSET_LIST_ITEM_VALUE where
  "listSET_LIST_ITEM_VALUE i v h = h\<lparr>xItemValue := (xItemValue h)(LItem i := v)\<rparr>"

definition listGET_LIST_ITEM_VALUE where
  "listGET_LIST_ITEM_VALUE i h = xItemValue h (LItem i)"

definition listGET_LIST_ITEM_OWNER where
  "listGET_LIST_ITEM_OWNER p h =
     (case p of Null \<Rightarrow> Inl NullDeref | LEnd _ \<Rightarrow> Inl NoOwner | LItem i \<Rightarrow> Inr (pvOwner h i))"

definition listGET_ITEM_VALUE_OF_HEAD_ENTRY where
  "listGET_ITEM_VALUE_OF_HEAD_ENTRY l h =
     deref (pxNext h (LEnd l)) (Inr (xItemValue h (pxNext h (LEnd l))))"

definition listLIST_IS_EMPTY where
  "listLIST_IS_EMPTY l h \<longleftrightarrow> uxNumberOfItems h l = 0"

definition listCURRENT_LIST_LENGTH where
  "listCURRENT_LIST_LENGTH l h = uxNumberOfItems h l"

definition listGET_OWNER_OF_HEAD_ENTRY where
  "listGET_OWNER_OF_HEAD_ENTRY l h = listGET_LIST_ITEM_OWNER (pxNext h (LEnd l)) h"

definition listLIST_ITEM_CONTAINER where
  "listLIST_ITEM_CONTAINER i h = pxContainer h i"

definition listGET_OWNER_OF_NEXT_ENTRY where
  "listGET_OWNER_OF_NEXT_ENTRY l h =
     deref (pxIndex h l)
       (let h1 = set_index l (pxNext h (pxIndex h l)) h;
            h2 = (if pxIndex h1 l = LEnd l then set_index l (pxNext h1 (LEnd l)) h1 else h1)
        in bindE (listGET_LIST_ITEM_OWNER (pxIndex h2 l) h2) (\<lambda>ow. Inr (ow, h2)))"

section \<open>The functions of list.c\<close>

definition vListInitialise :: "'l \<Rightarrow> ('l, 'i, 'o) list_store \<Rightarrow> ('l, 'i, 'o) list_store" where
  "vListInitialise l h =
     (let h1 = set_index l (LEnd l) h;
          h2 = h1\<lparr>xItemValue := (xItemValue h1)(LEnd l := portMAX_DELAY)\<rparr>;
          h3 = set_next (LEnd l) (LEnd l) h2;
          h4 = set_prev (LEnd l) (LEnd l) h3
      in set_count l 0 h4)"

definition vListInitialiseItem :: "'i \<Rightarrow> ('l, 'i, 'o) list_store \<Rightarrow> ('l, 'i, 'o) list_store" where
  "vListInitialiseItem i h = set_container i None h"

definition vListInsertEnd ::
  "'l \<Rightarrow> 'i \<Rightarrow> ('l, 'i, 'o) list_store \<Rightarrow> kfault + ('l, 'i, 'o) list_store" where
  "vListInsertEnd l i h =
     (let ix = pxIndex h l; h1 = set_next (LItem i) ix h
      in deref ix
        (let h2 = set_prev (LItem i) (pxPrevious h1 ix) h1
         in deref (pxPrevious h2 ix)
           (let h3 = set_next (pxPrevious h2 ix) (LItem i) h2;
                h4 = set_prev ix (LItem i) h3;
                h5 = set_container i (Some l) h4
            in Inr (set_count l (uxNumberOfItems h5 l + 1) h5))))"

text \<open>
  The search loop of \<^verbatim>\<open>vListInsert\<close>. On a corrupted store it may run forever, which is the
  value \<open>None\<close> (the C comment "if you find your code stuck here").
\<close>

partial_function (option) insert_point ::
  "('l, 'i, 'o) list_store \<Rightarrow> u32 \<Rightarrow> ('l, 'i) lptr \<Rightarrow> (kfault + ('l, 'i) lptr) option" where
  "insert_point h v it =
     (if pxNext h it = Null then Some (Inl NullDeref)
      else if xItemValue h (pxNext h it) \<le> v then insert_point h v (pxNext h it)
      else Some (Inr it))"

definition vListInsert ::
  "'l \<Rightarrow> 'i \<Rightarrow> ('l, 'i, 'o) list_store \<Rightarrow> kfault + ('l, 'i, 'o) list_store" where
  "vListInsert l i h =
     (let v = xItemValue h (LItem i)
      in bindE (if v = portMAX_DELAY then Inr (pxPrevious h (LEnd l))
                else loopE (insert_point h v (LEnd l)))
        (\<lambda>it. deref it
          (let h1 = set_next (LItem i) (pxNext h it) h
           in deref (pxNext h1 (LItem i))
             (let h2 = set_prev (pxNext h1 (LItem i)) (LItem i) h1;
                  h3 = set_prev (LItem i) it h2;
                  h4 = set_next it (LItem i) h3;
                  h5 = set_container i (Some l) h4
              in Inr (set_count l (uxNumberOfItems h5 l + 1) h5)))))"

definition uxListRemove ::
  "'i \<Rightarrow> ('l, 'i, 'o) list_store \<Rightarrow> kfault + (u32 \<times> ('l, 'i, 'o) list_store)" where
  "uxListRemove i h =
     (case pxContainer h i of None \<Rightarrow> Inl NullDeref
      | Some l \<Rightarrow>
          deref (pxNext h (LItem i))
            (let h1 = set_prev (pxNext h (LItem i)) (pxPrevious h (LItem i)) h
             in deref (pxPrevious h1 (LItem i))
               (let h2 = set_next (pxPrevious h1 (LItem i)) (pxNext h1 (LItem i)) h1;
                    h3 = (if pxIndex h2 l = LItem i
                          then set_index l (pxPrevious h2 (LItem i)) h2 else h2);
                    h4 = set_container i None h3;
                    h5 = set_count l (uxNumberOfItems h4 l - 1) h4
                in Inr (uxNumberOfItems h5 l, h5))))"

section \<open>The inline versions of list.h\<close>

definition listREMOVE_ITEM ::
  "'i \<Rightarrow> ('l, 'i, 'o) list_store \<Rightarrow> kfault + ('l, 'i, 'o) list_store" where
  "listREMOVE_ITEM i h =
     (case pxContainer h i of None \<Rightarrow> Inl NullDeref
      | Some l \<Rightarrow>
          deref (pxNext h (LItem i))
            (let h1 = set_prev (pxNext h (LItem i)) (pxPrevious h (LItem i)) h
             in deref (pxPrevious h1 (LItem i))
               (let h2 = set_next (pxPrevious h1 (LItem i)) (pxNext h1 (LItem i)) h1;
                    h3 = (if pxIndex h2 l = LItem i
                          then set_index l (pxPrevious h2 (LItem i)) h2 else h2);
                    h4 = set_container i None h3
                in Inr (set_count l (uxNumberOfItems h4 l - 1) h4))))"

definition listINSERT_END ::
  "'l \<Rightarrow> 'i \<Rightarrow> ('l, 'i, 'o) list_store \<Rightarrow> kfault + ('l, 'i, 'o) list_store" where
  "listINSERT_END l i h =
     (let ix = pxIndex h l; h1 = set_next (LItem i) ix h
      in deref ix
        (let h2 = set_prev (LItem i) (pxPrevious h1 ix) h1
         in deref (pxPrevious h2 ix)
           (let h3 = set_next (pxPrevious h2 ix) (LItem i) h2;
                h4 = set_prev ix (LItem i) h3;
                h5 = set_container i (Some l) h4
            in Inr (set_count l (uxNumberOfItems h5 l + 1) h5))))"

end
