(* ===== verification/Kernel_Ring.thy ===== *)
theory Kernel_Ring
  imports Kernel_List
begin

text \<open>
  What the lists of \<^verbatim>\<open>list.c\<close> mean. \<open>ring h l xs\<close> says that in the store \<open>h\<close> the list
  \<open>l\<close> is well formed and holds the items \<open>xs\<close> in the order of the ring; the pointer
  operations are shown to refine the operations on \<open>xs\<close>, and to leave every other
  well-formed list alone. The scheduler uses the lists through the interface
  \<open>task_lists\<close> at the end of the theory, which the store implements.
\<close>

section \<open>Doubly linked paths\<close>

fun links :: "('p \<Rightarrow> 'p) \<Rightarrow> ('p \<Rightarrow> 'p) \<Rightarrow> 'p \<Rightarrow> 'p list \<Rightarrow> bool" where
  "links n m p [] = True"
| "links n m p (q # qs) = (n p = q \<and> m q = p \<and> links n m q qs)"

lemma links_append: "links n m p (xs @ ys) \<longleftrightarrow> links n m p xs \<and> links n m (last (p # xs)) ys"
  by (induction xs arbitrary: p) auto

lemma links_upd_next: "a \<notin> set (butlast (p # qs)) \<Longrightarrow> links (n(a := b)) m p qs = links n m p qs"
  by (induction qs arbitrary: p) (auto split: if_splits)

lemma links_upd_prev: "a \<notin> set qs \<Longrightarrow> links n (m(a := b)) p qs = links n m p qs"
  by (induction qs arbitrary: p) auto

lemma links_upd:
  "links n m p qs \<Longrightarrow> a \<notin> set (butlast (p # qs)) \<Longrightarrow> c \<notin> set qs \<Longrightarrow>
   links (n(a := b)) (m(c := d)) p qs"
  using links_upd_next links_upd_prev by metis

lemma links_cong:
  assumes "\<forall>q \<in> set (butlast (p # qs)). n' q = n q" "\<forall>q \<in> set qs. m' q = m q"
  shows "links n' m' p qs = links n m p qs"
  using assms by (induction qs arbitrary: p) (auto split: if_splits)

section \<open>Well-formed lists\<close>

definition ring :: "('l, 'i, 'o) list_store \<Rightarrow> 'l \<Rightarrow> 'i list \<Rightarrow> bool" where
  "ring h l xs \<longleftrightarrow>
     distinct xs \<and> length xs < 2 ^ 32 \<and>
     links (pxNext h) (pxPrevious h) (LEnd l) (map LItem xs @ [LEnd l]) \<and>
     xItemValue h (LEnd l) = portMAX_DELAY \<and>
     uxNumberOfItems h l = of_nat (length xs) \<and>
     (\<forall>i. pxContainer h i = Some l \<longleftrightarrow> i \<in> set xs) \<and>
     (pxIndex h l = LEnd l \<or> (\<exists>i \<in> set xs. pxIndex h l = LItem i))"

lemma ring_distinct: "ring h l xs \<Longrightarrow> distinct xs"
  by (simp add: ring_def)

lemma ring_container: "ring h l xs \<Longrightarrow> pxContainer h i = Some l \<longleftrightarrow> i \<in> set xs"
  by (simp add: ring_def)

lemma ring_links:
  "ring h l xs \<Longrightarrow> links (pxNext h) (pxPrevious h) (LEnd l) (map LItem xs @ [LEnd l])"
  by (simp add: ring_def)

lemma ring_count: "ring h l xs \<Longrightarrow> uxNumberOfItems h l = of_nat (length xs)"
  by (simp add: ring_def)

lemma ring_unat_count: "ring h l xs \<Longrightarrow> unat (uxNumberOfItems h l) = length xs"
  by (simp add: ring_def unat_of_nat)

lemma ring_index:
  "ring h l xs \<Longrightarrow> pxIndex h l = LEnd l \<or> (\<exists>i \<in> set xs. pxIndex h l = LItem i)"
  by (simp add: ring_def)

lemma ring_empty_iff: "ring h l xs \<Longrightarrow> listLIST_IS_EMPTY l h \<longleftrightarrow> xs = []"
  using ring_unat_count [of h l xs] by (auto simp: listLIST_IS_EMPTY_def unat_eq_0 [symmetric])

text \<open>The cells around a position of the ring.\<close>

lemma ring_split_links:
  assumes "ring h l (as @ bs)"
  shows "links (pxNext h) (pxPrevious h) (LEnd l) (map LItem as)"
    and "links (pxNext h) (pxPrevious h) (last (LEnd l # map LItem as)) (map LItem bs @ [LEnd l])"
    and "pxNext h (last (LEnd l # map LItem as)) = hd (map LItem bs @ [LEnd l])"
    and "pxPrevious h (hd (map LItem bs @ [LEnd l])) = last (LEnd l # map LItem as)"
proof -
  have l: "links (pxNext h) (pxPrevious h) (LEnd l) (map LItem as @ (map LItem bs @ [LEnd l]))"
    using ring_links [OF assms] by simp
  then show "links (pxNext h) (pxPrevious h) (LEnd l) (map LItem as)"
    and l2: "links (pxNext h) (pxPrevious h) (last (LEnd l # map LItem as)) (map LItem bs @ [LEnd l])"
    by (simp_all add: links_append del: append_assoc)
  from l2 show "pxNext h (last (LEnd l # map LItem as)) = hd (map LItem bs @ [LEnd l])"
    and "pxPrevious h (hd (map LItem bs @ [LEnd l])) = last (LEnd l # map LItem as)"
    by (cases bs; simp)+
qed

lemma ring_item_cells:
  assumes "ring h l (as @ i # bs)"
  shows "pxPrevious h (LItem i) = last (LEnd l # map LItem as)"
    and "pxNext h (LItem i) = hd (map LItem bs @ [LEnd l])"
proof -
  show "pxPrevious h (LItem i) = last (LEnd l # map LItem as)"
    using ring_split_links(4) [OF assms] by simp
  show "pxNext h (LItem i) = hd (map LItem bs @ [LEnd l])"
    using ring_split_links(3) [of h l "as @ [i]" bs] assms by simp
qed

lemma ring_first: "ring h l xs \<Longrightarrow> pxNext h (LEnd l) = hd (map LItem xs @ [LEnd l])"
  using ring_split_links(3) [of h l "[]" xs] by simp

lemma ring_last: "ring h l xs \<Longrightarrow> pxPrevious h (LEnd l) = last (LEnd l # map LItem xs)"
  using ring_split_links(4) [of h l xs "[]"] by simp

lemma cell_not_Null [simp]:
  "last (LEnd l # map LItem as) \<noteq> Null" "hd (map LItem bs @ [LEnd l]) \<noteq> Null"
  by (cases as rule: rev_cases; simp) (cases bs; simp)

lemma cell_before:
  "last (LEnd l # map LItem as) = LEnd l \<and> as = [] \<or>
   (\<exists>j \<in> set as. last (LEnd l # map LItem as) = LItem j)"
  by (cases as rule: rev_cases) auto

lemma cell_after:
  "hd (map LItem bs @ [LEnd l]) = LEnd l \<and> bs = [] \<or>
   (\<exists>j \<in> set bs. hd (map LItem bs @ [LEnd l]) = LItem j)"
  by (cases bs) auto

section \<open>Splicing and unlinking\<close>

lemma splice_links:
  assumes r: "ring h l (as @ bs)" and i: "i \<notin> set (as @ bs)"
    and it: "it = last (LEnd l # map LItem as)" and nx: "nx = hd (map LItem bs @ [LEnd l])"
  shows "links ((pxNext h)(LItem i := nx, it := LItem i)) ((pxPrevious h)(LItem i := it, nx := LItem i))
           (LEnd l) (map LItem (as @ i # bs) @ [LEnd l])"
proof -
  let ?n = "(pxNext h)(LItem i := nx, it := LItem i)"
  let ?m = "(pxPrevious h)(LItem i := it, nx := LItem i)"
  obtain rest where rest: "map LItem bs @ [LEnd l] = nx # rest"
    unfolding nx by (cases bs) auto
  have d: "distinct (as @ bs)" using r by (rule ring_distinct)
  have it': "it = LEnd l \<and> as = [] \<or> (\<exists>j \<in> set as. it = LItem j)"
    using cell_before [of l as] it by auto
  have nx': "nx = LEnd l \<and> bs = [] \<or> (\<exists>j \<in> set bs. nx = LItem j)"
    using cell_after [of bs l] nx by auto
  have neq: "it \<noteq> LItem i" "nx \<noteq> LItem i" using it' nx' i by auto
  have mem: "set (nx # rest) = LItem ` set bs \<union> {LEnd l}" "set (butlast (nx # rest)) = LItem ` set bs"
    unfolding rest [symmetric] by simp_all
  have a: "links ?n ?m (LEnd l) (map LItem as)"
  proof -
    have 1: "LItem i \<notin> set (butlast (LEnd l # map LItem as))" "LItem i \<notin> set (map LItem as)"
      using i by (auto dest: in_set_butlastD split: if_splits)
    have 2: "it \<notin> set (butlast (LEnd l # map LItem as))"
      using d it by (cases as rule: rev_cases) (auto simp: butlast_append)
    have 3: "nx \<notin> set (map LItem as)" using nx' d by auto
    show ?thesis
      using ring_split_links(1) [OF r] 1 2 3 by (intro links_upd)
  qed
  have b: "links ?n ?m nx rest"
  proof -
    have 1: "LItem i \<notin> set (butlast (nx # rest))" "LItem i \<notin> set rest"
      using i mem unfolding mem(2) by auto
    have 2: "it \<notin> set (butlast (nx # rest))"
      using it' d unfolding mem(2) by auto
    have "distinct (nx # rest)" unfolding rest [symmetric] using d by (auto simp: distinct_map inj_on_def)
    then have 3: "nx \<notin> set rest" by simp
    have "links (pxNext h) (pxPrevious h) nx rest"
      using ring_split_links(2) [OF r] by (simp add: rest)
    then show ?thesis
      using 1 2 3 by (intro links_upd)
  qed
  have "links ?n ?m it (LItem i # nx # rest)"
    using b neq by (auto simp del: fun_upd_apply) (auto simp: fun_upd_apply)
  then have "links ?n ?m (LEnd l) (map LItem as @ (LItem i # nx # rest))"
    using a by (simp only: links_append it)
  then show ?thesis by (simp add: rest)
qed

lemma unlink_links:
  assumes r: "ring h l (as @ i # bs)"
    and pv: "pv = pxPrevious h (LItem i)" and nx: "nx = pxNext h (LItem i)"
  shows "links ((pxNext h)(pv := nx)) ((pxPrevious h)(nx := pv)) (LEnd l) (map LItem (as @ bs) @ [LEnd l])"
proof -
  have pv: "pv = last (LEnd l # map LItem as)" and nx: "nx = hd (map LItem bs @ [LEnd l])"
    using ring_item_cells [OF r] pv nx by simp_all
  let ?n = "(pxNext h)(pv := nx)" and ?m = "(pxPrevious h)(nx := pv)"
  obtain rest where rest: "map LItem bs @ [LEnd l] = nx # rest"
    unfolding nx by (cases bs) auto
  have d: "distinct (as @ i # bs)" using r by (rule ring_distinct)
  have pv': "pv = LEnd l \<and> as = [] \<or> (\<exists>j \<in> set as. pv = LItem j)"
    using cell_before [of l as] pv by auto
  have nx': "nx = LEnd l \<and> bs = [] \<or> (\<exists>j \<in> set bs. nx = LItem j)"
    using cell_after [of bs l] nx by auto
  have a: "links ?n ?m (LEnd l) (map LItem as)"
  proof -
    have 2: "pv \<notin> set (butlast (LEnd l # map LItem as))"
      using d pv by (cases as rule: rev_cases) (auto simp: butlast_append)
    have 3: "nx \<notin> set (map LItem as)" using nx' d by auto
    show ?thesis
      using ring_split_links(1) [OF r] 2 3 by (intro links_upd)
  qed
  have b: "links ?n ?m nx rest"
  proof -
    have "set (butlast (nx # rest)) = LItem ` set bs" unfolding rest [symmetric] by simp
    then have 2: "pv \<notin> set (butlast (nx # rest))"
      using pv' d by auto
    have "distinct (nx # rest)" unfolding rest [symmetric] using d by (auto simp: distinct_map inj_on_def)
    then have 3: "nx \<notin> set rest" by simp
    have "links (pxNext h) (pxPrevious h) nx rest"
      using ring_split_links(2) [of h l "as @ [i]" bs] r by (simp add: rest)
    then show ?thesis
      using 2 3 by (intro links_upd)
  qed
  have "links ?n ?m (LEnd l) (map LItem as @ (nx # rest))"
    using a b by (simp only: links_append pv [symmetric] links.simps) simp
  then show ?thesis by (simp add: rest)
qed


section \<open>Effect of an insertion and of a removal on every list\<close>

lemma rings_disjoint:
  assumes "ring h l xs" "ring h l' ys" "l' \<noteq> l"
  shows "set ys \<inter> set xs = {}"
proof (rule equals0I)
  fix i assume "i \<in> set ys \<inter> set xs"
  then have "pxContainer h i = Some l" "pxContainer h i = Some l'"
    using ring_container [OF assms(1)] ring_container [OF assms(2)] by auto
  with assms(3) show False by simp
qed

definition ring_cells :: "'l \<Rightarrow> 'i list \<Rightarrow> ('l, 'i) lptr set" where
  "ring_cells l xs = insert (LEnd l) (LItem ` set xs)"

lemma ring_cells_disjoint:
  "ring h l xs \<Longrightarrow> ring h l' ys \<Longrightarrow> l' \<noteq> l \<Longrightarrow> ring_cells l' ys \<inter> ring_cells l xs = {}"
  using rings_disjoint [of h l xs l' ys] by (auto simp: ring_cells_def)

lemma ring_frame:
  assumes "ring h l ys"
    and "\<forall>q \<in> ring_cells l ys. pxNext h' q = pxNext h q \<and> pxPrevious h' q = pxPrevious h q"
    and "xItemValue h' (LEnd l) = xItemValue h (LEnd l)"
    and "uxNumberOfItems h' l = uxNumberOfItems h l"
    and "pxIndex h' l = pxIndex h l"
    and "\<forall>j. pxContainer h' j = Some l \<longleftrightarrow> pxContainer h j = Some l"
  shows "ring h' l ys"
proof -
  have "links (pxNext h') (pxPrevious h') (LEnd l) (map LItem ys @ [LEnd l]) =
        links (pxNext h) (pxPrevious h) (LEnd l) (map LItem ys @ [LEnd l])"
    using assms(2) by (intro links_cong) (auto simp: butlast_append ring_cells_def)
  then show ?thesis using assms by (simp add: ring_def)
qed

definition spliced where
  "spliced h l i it nx =
     h\<lparr>pxNext := (pxNext h)(LItem i := nx, it := LItem i),
       pxPrevious := (pxPrevious h)(LItem i := it, nx := LItem i),
       pxContainer := (pxContainer h)(i := Some l),
       uxNumberOfItems := (uxNumberOfItems h)(l := uxNumberOfItems h l + 1)\<rparr>"

lemma spliced_sel [simp]:
  "xItemValue (spliced h l i it nx) = xItemValue h"
  "pvOwner (spliced h l i it nx) = pvOwner h"
  "pxContainer (spliced h l i it nx) = (pxContainer h)(i := Some l)"
  "pxIndex (spliced h l i it nx) = pxIndex h"
  by (simp_all add: spliced_def)

lemma cell_of_ring:
  assumes "ring h l (as @ bs)"
  shows "last (LEnd l # map LItem as) \<in> insert (LEnd l) (LItem ` set (as @ bs))"
    and "hd (map LItem bs @ [LEnd l]) \<in> insert (LEnd l) (LItem ` set (as @ bs))"
  using cell_before [of l as] cell_after [of bs l] by auto

lemma spliced_ring:
  assumes r: "ring h l (as @ bs)" and i: "pxContainer h i = None"
    and len: "Suc (length (as @ bs)) < 2 ^ 32"
    and it: "it = last (LEnd l # map LItem as)" and nx: "nx = hd (map LItem bs @ [LEnd l])"
  shows "ring (spliced h l i it nx) l (as @ i # bs)"
proof -
  have ni: "i \<notin> set (as @ bs)" using ring_container [OF r, of i] i by simp
  have d: "distinct (as @ i # bs)" using ring_distinct [OF r] ni by auto
  have "links (pxNext (spliced h l i it nx)) (pxPrevious (spliced h l i it nx)) (LEnd l)
          (map LItem (as @ i # bs) @ [LEnd l])"
    using splice_links [OF r ni it nx] by (simp add: spliced_def)
  moreover have "\<forall>j. pxContainer (spliced h l i it nx) j = Some l \<longleftrightarrow> j \<in> set (as @ i # bs)"
    using ring_container [OF r] by auto
  moreover have "uxNumberOfItems (spliced h l i it nx) l = of_nat (length (as @ i # bs))"
    using ring_count [OF r] by (simp add: spliced_def)
  ultimately show ?thesis
    using r d len by (auto simp: ring_def)
qed

lemma spliced_other:
  assumes r: "ring h l (as @ bs)" and i: "pxContainer h i = None"
    and it: "it = last (LEnd l # map LItem as)" and nx: "nx = hd (map LItem bs @ [LEnd l])"
    and l': "l' \<noteq> l" and r': "ring h l' ys"
  shows "ring (spliced h l i it nx) l' ys"
proof (rule ring_frame [OF r'])
  have i': "LItem i \<notin> ring_cells l' ys" using ring_container [OF r', of i] i by (simp add: ring_cells_def image_iff)
  have d: "ring_cells l' ys \<inter> ring_cells l (as @ bs) = {}"
    using ring_cells_disjoint [OF r r' l'] .
  have "it \<in> ring_cells l (as @ bs)" "nx \<in> ring_cells l (as @ bs)"
    using cell_of_ring [OF r] it nx by (simp_all add: ring_cells_def)
  then have "it \<notin> ring_cells l' ys" "nx \<notin> ring_cells l' ys" using d by blast+
  with i' have "q \<noteq> LItem i \<and> q \<noteq> it \<and> q \<noteq> nx" if "q \<in> ring_cells l' ys" for q
    using that by blast
  then show "\<forall>q \<in> ring_cells l' ys.
      pxNext (spliced h l i it nx) q = pxNext h q \<and> pxPrevious (spliced h l i it nx) q = pxPrevious h q"
    by (simp add: spliced_def)
qed (use l' i in \<open>simp_all add: spliced_def\<close>)

definition unlinked where
  "unlinked h l i =
     (let pv = pxPrevious h (LItem i); nx = pxNext h (LItem i)
      in h\<lparr>pxNext := (pxNext h)(pv := nx), pxPrevious := (pxPrevious h)(nx := pv),
           pxIndex := (if pxIndex h l = LItem i then (pxIndex h)(l := pv) else pxIndex h),
           pxContainer := (pxContainer h)(i := None),
           uxNumberOfItems := (uxNumberOfItems h)(l := uxNumberOfItems h l - 1)\<rparr>)"

lemma unlinked_sel [simp]:
  "xItemValue (unlinked h l i) = xItemValue h"
  "pvOwner (unlinked h l i) = pvOwner h"
  "pxContainer (unlinked h l i) = (pxContainer h)(i := None)"
  "pxIndex (unlinked h l i) =
     (if pxIndex h l = LItem i then (pxIndex h)(l := pxPrevious h (LItem i)) else pxIndex h)"
  by (simp_all add: unlinked_def Let_def)

lemma unlinked_ring:
  assumes r: "ring h l (as @ i # bs)"
  shows "ring (unlinked h l i) l (as @ bs)"
proof -
  have d: "distinct (as @ i # bs)" using r by (rule ring_distinct)
  have "links (pxNext (unlinked h l i)) (pxPrevious (unlinked h l i)) (LEnd l)
          (map LItem (as @ bs) @ [LEnd l])"
    using unlink_links [OF r refl refl] by (simp add: unlinked_def Let_def)
  moreover have "\<forall>j. pxContainer (unlinked h l i) j = Some l \<longleftrightarrow> j \<in> set (as @ bs)"
    using ring_container [OF r] d by auto
  moreover have "uxNumberOfItems (unlinked h l i) l = of_nat (length (as @ bs))"
    using ring_count [OF r] by (simp add: unlinked_def Let_def)
  moreover have "pxIndex (unlinked h l i) l = LEnd l \<or>
      (\<exists>j \<in> set (as @ bs). pxIndex (unlinked h l i) l = LItem j)"
    using ring_index [OF r] ring_item_cells(1) [OF r] cell_before [of l as] by auto
  ultimately show ?thesis
    using r d by (simp add: ring_def)
qed

lemma unlinked_other:
  assumes r: "ring h l (as @ i # bs)" and l': "l' \<noteq> l" and r': "ring h l' ys"
  shows "ring (unlinked h l i) l' ys"
proof (rule ring_frame [OF r'])
  have d: "ring_cells l' ys \<inter> ring_cells l (as @ i # bs) = {}"
    using ring_cells_disjoint [OF r r' l'] .
  have "pxPrevious h (LItem i) \<in> ring_cells l (as @ i # bs)"
    "pxNext h (LItem i) \<in> ring_cells l (as @ i # bs)"
    using ring_item_cells [OF r] cell_before [of l as] cell_after [of bs l] by (auto simp: ring_cells_def)
  then have "pxPrevious h (LItem i) \<notin> ring_cells l' ys" "pxNext h (LItem i) \<notin> ring_cells l' ys"
    using d by blast+
  then have "q \<noteq> pxPrevious h (LItem i) \<and> q \<noteq> pxNext h (LItem i)" if "q \<in> ring_cells l' ys" for q
    using that by blast
  then show "\<forall>q \<in> ring_cells l' ys.
      pxNext (unlinked h l i) q = pxNext h q \<and> pxPrevious (unlinked h l i) q = pxPrevious h q"
    by (simp add: unlinked_def Let_def)
next
  show "\<forall>j. pxContainer (unlinked h l i) j = Some l' \<longleftrightarrow> pxContainer h j = Some l'"
    using ring_container [OF r, of i] l' by auto
qed (use l' in \<open>simp_all add: unlinked_def Let_def\<close>)


section \<open>The operations on a well-formed list\<close>

definition cursor :: "('l, 'i, 'o) list_store \<Rightarrow> 'l \<Rightarrow> 'i option" where
  "cursor h l = (case pxIndex h l of LItem i \<Rightarrow> Some i | _ \<Rightarrow> None)"

text \<open>
  Where \<open>vListInsertEnd\<close> puts an item: just before the cursor, at the end when the cursor
  is the end marker.
\<close>

fun ins_before :: "'i option \<Rightarrow> 'i \<Rightarrow> 'i list \<Rightarrow> 'i list" where
  "ins_before None i xs = xs @ [i]"
| "ins_before (Some j) i xs = takeWhile (\<lambda>x. x \<noteq> j) xs @ i # dropWhile (\<lambda>x. x \<noteq> j) xs"

lemma set_ins_before [simp]: "set (ins_before c i xs) = insert i (set xs)"
  by (cases c) (simp_all, metis Un_insert_right set_append takeWhile_dropWhile_id)

lemma length_ins_before [simp]: "length (ins_before c i xs) = Suc (length xs)"
  by (cases c) (simp_all, metis length_append takeWhile_dropWhile_id)

lemma ring_cursor_mem: "ring h l xs \<Longrightarrow> cursor h l = Some j \<Longrightarrow> j \<in> set xs"
  by (auto simp: cursor_def ring_def split: lptr.splits)

lemma ring_index_cursor:
  "ring h l xs \<Longrightarrow> pxIndex h l = (case cursor h l of None \<Rightarrow> LEnd l | Some j \<Rightarrow> LItem j)"
  by (auto simp: cursor_def ring_def)

lemma vListInitialise_ring:
  assumes "\<forall>i. pxContainer h i \<noteq> Some l"
  shows "ring (vListInitialise l h) l []" and "cursor (vListInitialise l h) l = None"
  using assms by (simp_all add: vListInitialise_def ring_def cursor_def Let_def)

lemma vListInitialise_other:
  assumes "ring h l' ys" and "l' \<noteq> l"
  shows "ring (vListInitialise l h) l' ys"
  by (rule ring_frame [OF assms(1)]) (use assms(2) in \<open>auto simp: vListInitialise_def ring_cells_def Let_def\<close>)

lemma vListInsertEnd_spliced:
  assumes r: "ring h l (as @ bs)" and i: "pxContainer h i = None"
    and ix: "pxIndex h l = hd (map LItem bs @ [LEnd l])"
  shows "vListInsertEnd l i h =
     Inr (spliced h l i (last (LEnd l # map LItem as)) (hd (map LItem bs @ [LEnd l])))"
proof -
  let ?it = "last (LEnd l # map LItem as)" and ?nx = "hd (map LItem bs @ [LEnd l])"
  have ni: "i \<notin> set (as @ bs)" using ring_container [OF r, of i] i by simp
  have "?nx \<noteq> LItem i" "?it \<noteq> LItem i"
    using cell_before [of l as] cell_after [of bs l] ni by auto
  moreover have "pxPrevious h ?nx = ?it" by (rule ring_split_links(4) [OF r])
  ultimately show ?thesis
    using ix cell_not_Null(1) [of l as] cell_not_Null(2) [of bs l]
    by (simp add: vListInsertEnd_def deref_def Let_def spliced_def del: last.simps)
qed

text \<open>The split of a list at its cursor.\<close>

lemma ring_cursor_split:
  assumes "ring h l xs"
  obtains as bs where "xs = as @ bs" "pxIndex h l = hd (map LItem bs @ [LEnd l])"
    "ins_before (cursor h l) i xs = as @ i # bs"
proof (cases "cursor h l")
  case None
  then have "pxIndex h l = LEnd l" using ring_index_cursor [OF assms] by simp
  then show ?thesis using None that [of xs "[]"] by simp
next
  case (Some j)
  then have "pxIndex h l = LItem j" using ring_index_cursor [OF assms] by simp
  moreover have "j \<in> set xs" using ring_cursor_mem [OF assms Some] .
  then obtain zs where "dropWhile (\<lambda>x. x \<noteq> j) xs = j # zs"
    by (metis (mono_tags, lifting) dropWhile_eq_Nil_conv hd_dropWhile list.collapse)
  moreover from this have "xs = takeWhile (\<lambda>x. x \<noteq> j) xs @ j # zs"
    by (metis takeWhile_dropWhile_id)
  ultimately show ?thesis
    using Some that [of "takeWhile (\<lambda>x. x \<noteq> j) xs" "j # zs"] by simp
qed

lemma vListInsertEnd_spec:
  assumes r: "ring h l xs" and i: "pxContainer h i = None" and len: "Suc (length xs) < 2 ^ 32"
  shows "\<exists>h'. vListInsertEnd l i h = Inr h' \<and> ring h' l (ins_before (cursor h l) i xs) \<and>
    (\<forall>l' ys. l' \<noteq> l \<longrightarrow> ring h l' ys \<longrightarrow> ring h' l' ys) \<and> xItemValue h' = xItemValue h \<and>
    pvOwner h' = pvOwner h \<and> pxContainer h' = (pxContainer h)(i := Some l) \<and> cursor h' = cursor h"
proof -
  obtain as bs where ab: "xs = as @ bs" and ix: "pxIndex h l = hd (map LItem bs @ [LEnd l])"
    and ins: "ins_before (cursor h l) i xs = as @ i # bs"
    using ring_cursor_split [OF r] .
  let ?h = "spliced h l i (last (LEnd l # map LItem as)) (hd (map LItem bs @ [LEnd l]))"
  have r': "ring h l (as @ bs)" using r ab by simp
  have "vListInsertEnd l i h = Inr ?h" by (rule vListInsertEnd_spliced [OF r' i ix])
  moreover have "ring ?h l (as @ i # bs)"
    using spliced_ring [OF r' i _ refl refl] len ab by simp
  moreover have "\<forall>l' ys. l' \<noteq> l \<longrightarrow> ring h l' ys \<longrightarrow> ring ?h l' ys"
    using spliced_other [OF r' i refl refl] by blast
  moreover have "cursor ?h = cursor h" by (simp add: cursor_def fun_eq_iff)
  ultimately show ?thesis by (intro exI [of _ ?h]) (simp add: ins del: last.simps)
qed

text \<open>The search loop of \<open>vListInsert\<close> stops, behind every item that is not larger.\<close>

lemma insert_point_ring:
  assumes "ring h l (as @ bs)" and "v < portMAX_DELAY"
  shows "insert_point h v (last (LEnd l # map LItem as)) =
    Some (Inr (last (LEnd l # map LItem (as @ takeWhile (\<lambda>y. xItemValue h (LItem y) \<le> v) bs))))"
  using assms(1)
proof (induction bs arbitrary: as)
  case Nil
  have "pxNext h (last (LEnd l # map LItem as)) = LEnd l"
    using ring_split_links(3) [OF Nil] by simp
  moreover have "xItemValue h (LEnd l) = portMAX_DELAY" using Nil by (simp add: ring_def)
  moreover have "\<not> portMAX_DELAY \<le> v" using assms(2) by simp
  ultimately show ?case
    by (subst insert_point.simps) (simp del: last.simps)
next
  case (Cons b bs)
  have n: "pxNext h (last (LEnd l # map LItem as)) = LItem b"
    using ring_split_links(3) [OF Cons.prems] by simp
  show ?case
  proof (cases "xItemValue h (LItem b) \<le> v")
    case True
    have "insert_point h v (last (LEnd l # map LItem (as @ [b]))) =
      Some (Inr (last (LEnd l # map LItem ((as @ [b]) @ takeWhile (\<lambda>y. xItemValue h (LItem y) \<le> v) bs))))"
      by (rule Cons.IH) (use Cons.prems in simp)
    then show ?thesis
      using n True by (subst insert_point.simps) simp
  next
    case False
    then show ?thesis using n by (subst insert_point.simps) (simp del: last.simps)
  qed
qed

lemma vListInsert_spliced:
  assumes r: "ring h l (as @ bs)" and i: "pxContainer h i = None"
    and ab: "as = takeWhile (\<lambda>y. xItemValue h (LItem y) \<le> xItemValue h (LItem i)) (as @ bs)"
  shows "vListInsert l i h =
     Inr (spliced h l i (last (LEnd l # map LItem as)) (hd (map LItem bs @ [LEnd l])))"
proof -
  let ?v = "xItemValue h (LItem i)"
  let ?it = "last (LEnd l # map LItem as)" and ?nx = "hd (map LItem bs @ [LEnd l])"
  have it: "(if ?v = portMAX_DELAY then Inr (pxPrevious h (LEnd l))
             else loopE (insert_point h ?v (LEnd l))) = Inr ?it"
  proof (cases "?v = portMAX_DELAY")
    case True
    then have "\<forall>y. xItemValue h (LItem y) \<le> ?v"
      using le_portMAX_DELAY by simp
    then have "as @ bs = as" using ab by (metis takeWhile_eq_all_conv)
    then show ?thesis using True ring_last [OF r] by simp
  next
    case False
    then have "?v < portMAX_DELAY"
      using word_not_max_less [of ?v] by (simp add: portMAX_DELAY_eq)
    then show ?thesis
      using False insert_point_ring [of h l "[]" "as @ bs" ?v] r ab [symmetric] by (simp add: loopE_def)
  qed
  have ni: "i \<notin> set (as @ bs)" using ring_container [OF r, of i] i by simp
  have "?nx \<noteq> LItem i" "?it \<noteq> LItem i"
    using cell_before [of l as] cell_after [of bs l] ni by auto
  moreover have "pxNext h ?it = ?nx" by (rule ring_split_links(3) [OF r])
  ultimately show ?thesis
    using it cell_not_Null(1) [of l as] cell_not_Null(2) [of bs l]
    by (simp add: vListInsert_def deref_def Let_def spliced_def fun_upd_twist del: last.simps)
qed

abbreviation val_of where "val_of h \<equiv> \<lambda>i. xItemValue h (LItem i)"

lemma vListInsert_spec:
  assumes r: "ring h l xs" and i: "pxContainer h i = None" and len: "Suc (length xs) < 2 ^ 32"
  shows "\<exists>h'. vListInsert l i h = Inr h' \<and> ring h' l (insort_after (val_of h) i xs) \<and>
    (\<forall>l' ys. l' \<noteq> l \<longrightarrow> ring h l' ys \<longrightarrow> ring h' l' ys) \<and> xItemValue h' = xItemValue h \<and>
    pvOwner h' = pvOwner h \<and> pxContainer h' = (pxContainer h)(i := Some l) \<and> cursor h' = cursor h"
proof -
  let ?P = "\<lambda>y. xItemValue h (LItem y) \<le> xItemValue h (LItem i)"
  let ?as = "takeWhile ?P xs" and ?bs = "dropWhile ?P xs"
  let ?h = "spliced h l i (last (LEnd l # map LItem ?as)) (hd (map LItem ?bs @ [LEnd l]))"
  have r': "ring h l (?as @ ?bs)" using r by simp
  have "vListInsert l i h = Inr ?h" by (rule vListInsert_spliced [OF r' i]) simp
  moreover have "ring ?h l (?as @ i # ?bs)"
    using spliced_ring [OF r' i _ refl refl] len by simp
  moreover have "\<forall>l' ys. l' \<noteq> l \<longrightarrow> ring h l' ys \<longrightarrow> ring ?h l' ys"
    using spliced_other [OF r' i refl refl] by blast
  moreover have "cursor ?h = cursor h" by (simp add: cursor_def fun_eq_iff)
  ultimately show ?thesis by (intro exI [of _ ?h]) (simp add: insort_after_def del: last.simps)
qed


text \<open>
  The predecessor of an item, where the cursor goes when its item is removed.
\<close>

definition pred_of :: "'i \<Rightarrow> 'i list \<Rightarrow> 'i option" where
  "pred_of i xs = (let as = takeWhile (\<lambda>x. x \<noteq> i) xs in if as = [] then None else Some (last as))"

lemma pred_of_split: "i \<notin> set as \<Longrightarrow> pred_of i (as @ i # bs) = (if as = [] then None else Some (last as))"
  by (simp add: pred_of_def)

lemma uxListRemove_unlinked:
  assumes r: "ring h l (as @ i # bs)"
  shows "uxListRemove i h = Inr (of_nat (length (as @ bs)), unlinked h l i)"
proof -
  have d: "i \<notin> set as" "i \<notin> set bs" using ring_distinct [OF r] by auto
  have c: "pxContainer h i = Some l" using ring_container [OF r] by simp
  have pn: "pxPrevious h (LItem i) = last (LEnd l # map LItem as)"
    "pxNext h (LItem i) = hd (map LItem bs @ [LEnd l])" by (rule ring_item_cells [OF r])+
  have nn: "pxPrevious h (LItem i) \<noteq> Null" "pxNext h (LItem i) \<noteq> Null"
    "pxPrevious h (LItem i) \<noteq> LItem i" "pxNext h (LItem i) \<noteq> LItem i"
    using cell_before [of l as] cell_after [of bs l] d unfolding pn by auto
  have n: "uxNumberOfItems h l - 1 = of_nat (length (as @ bs))"
    using ring_count [OF r] by simp
  show ?thesis
    using c nn n by (simp add: uxListRemove_def deref_def Let_def unlinked_def)
qed

lemma uxListRemove_spec:
  assumes r: "ring h l xs" and i: "pxContainer h i = Some l"
  shows "\<exists>h'. uxListRemove i h = Inr (of_nat (length xs - 1), h') \<and> ring h' l (remove1 i xs) \<and>
    (\<forall>l' ys. l' \<noteq> l \<longrightarrow> ring h l' ys \<longrightarrow> ring h' l' ys) \<and> xItemValue h' = xItemValue h \<and>
    pvOwner h' = pvOwner h \<and> pxContainer h' = (pxContainer h)(i := None) \<and>
    cursor h' = (if cursor h l = Some i then (cursor h)(l := pred_of i xs) else cursor h)"
proof -
  obtain as bs where ab: "xs = as @ i # bs"
    using i ring_container [OF r, of i] by (metis in_set_conv_decomp)
  have r': "ring h l (as @ i # bs)" using r ab by simp
  have ni: "i \<notin> set as" using ring_distinct [OF r'] by auto
  have "cursor (unlinked h l i) =
      (if cursor h l = Some i then (cursor h)(l := pred_of i xs) else cursor h)"
    using ring_item_cells(1) [OF r'] ring_index_cursor [OF r] ab ni
    by (cases as rule: rev_cases) (auto simp: cursor_def fun_eq_iff pred_of_def split: lptr.splits)
  moreover have "ring (unlinked h l i) l (remove1 i xs)"
    using unlinked_ring [OF r'] ab ni by (simp add: remove1_append)
  moreover have "\<forall>l' ys. l' \<noteq> l \<longrightarrow> ring h l' ys \<longrightarrow> ring (unlinked h l i) l' ys"
    using unlinked_other [OF r'] by blast
  ultimately show ?thesis
    using uxListRemove_unlinked [OF r'] ab by (intro exI [of _ "unlinked h l i"]) simp
qed

lemma listREMOVE_ITEM_eq: "listREMOVE_ITEM i h = bindE (uxListRemove i h) (\<lambda>(_, h'). Inr h')"
  by (simp add: listREMOVE_ITEM_def uxListRemove_def deref_def Let_def split: option.splits)

lemma listINSERT_END_eq: "listINSERT_END = vListInsertEnd"
  by (intro ext) (simp add: listINSERT_END_def vListInsertEnd_def)

section \<open>Taking turns\<close>

text \<open>
  The order in which \<open>listGET_OWNER_OF_NEXT_ENTRY\<close> visits a list: after the cursor to the
  end, then from the head up to and including the cursor.
\<close>

fun turns :: "'i option \<Rightarrow> 'i list \<Rightarrow> 'i list" where
  "turns None xs = xs"
| "turns (Some j) xs = tl (dropWhile (\<lambda>x. x \<noteq> j) xs) @ takeWhile (\<lambda>x. x \<noteq> j) xs @ [j]"

lemma turns_split: "j \<notin> set as \<Longrightarrow> turns (Some j) (as @ j # bs) = bs @ as @ [j]"
  by simp

lemma mset_turns:
  "(\<And>j. c = Some j \<Longrightarrow> j \<in> set xs) \<Longrightarrow> distinct xs \<Longrightarrow>
   set (turns c xs) = set xs \<and> length (turns c xs) = length xs \<and> distinct (turns c xs)"
proof (cases c)
  case (Some j)
  assume "\<And>j. c = Some j \<Longrightarrow> j \<in> set xs" and d: "distinct xs"
  then obtain as bs where ab: "xs = as @ j # bs" using Some by (metis in_set_conv_decomp)
  with d have "j \<notin> set as" by auto
  then show ?thesis using ab d Some by (auto simp: turns_split simp del: turns.simps)
qed simp

lemma turns_ins_before:
  assumes "i \<notin> set xs" and "\<And>j. c = Some j \<Longrightarrow> j \<in> set xs" and "distinct xs"
  shows "turns c (ins_before c i xs) =
    (case c of None \<Rightarrow> turns c xs @ [i] | Some j \<Rightarrow> butlast (turns c xs) @ [i, j])"
proof (cases c)
  case (Some j)
  with assms obtain as bs where ab: "xs = as @ j # bs" by (metis in_set_conv_decomp)
  with assms have "j \<notin> set as" "i \<noteq> j" by auto
  then show ?thesis using Some ab by (simp add: butlast_append)
qed simp

lemma turns_remove:
  assumes "i \<in> set xs" and "\<And>j. c = Some j \<Longrightarrow> j \<in> set xs" and d: "distinct xs"
  shows "turns (if c = Some i then pred_of i xs else c) (remove1 i xs) = remove1 i (turns c xs)"
proof (cases c)
  case (Some j)
  with assms obtain as bs where ab: "xs = as @ j # bs" by (metis in_set_conv_decomp)
  with d have dd: "j \<notin> set as" "j \<notin> set bs" "set as \<inter> set bs = {}" "distinct as" by auto
  show ?thesis
  proof (cases "i = j")
    case True
    show ?thesis
    proof (cases as rule: rev_cases)
      case Nil
      then show ?thesis using True Some ab dd by (simp add: pred_of_def remove1_append)
    next
      case (snoc as' p)
      then have "p \<notin> set as'" "p \<noteq> j" "j \<noteq> p" using dd by auto
      then show ?thesis using True Some ab dd snoc by (simp add: pred_of_def remove1_append)
    qed
  next
    case False
    then have "i \<in> set as \<or> i \<in> set bs" using assms(1) ab by auto
    then show ?thesis
      using False Some ab dd by (auto simp: remove1_append dest: notin_set_remove1)
  qed
qed simp

lemma listGET_OWNER_OF_NEXT_ENTRY_spec:
  assumes r: "ring h l xs" and ne: "xs \<noteq> []"
  shows "\<exists>h' j. listGET_OWNER_OF_NEXT_ENTRY l h = Inr (pvOwner h j, h') \<and>
    j = hd (turns (cursor h l) xs) \<and> j \<in> set xs \<and>
    turns (cursor h' l) xs = rotate1 (turns (cursor h l) xs) \<and>
    ring h' l xs \<and> (\<forall>l' ys. l' \<noteq> l \<longrightarrow> ring h l' ys \<longrightarrow> ring h' l' ys) \<and>
    h' = set_index l (LItem j) h"
proof -
  let ?j = "hd (turns (cursor h l) xs)"
  let ?h = "set_index l (LItem ?j) h"
  have d: "distinct xs" using r by (rule ring_distinct)
  have mem: "?j \<in> set xs"
    using mset_turns [of "cursor h l" xs] ring_cursor_mem [OF r] d ne
    by (metis hd_in_set length_0_conv)
  have first: "pxNext h (LEnd l) = LItem (hd xs)"
    using ring_first [OF r] ne by (simp add: hd_map hd_append)
  have run: "listGET_OWNER_OF_NEXT_ENTRY l h = Inr (pvOwner h ?j, ?h) \<and>
      turns (Some ?j) xs = rotate1 (turns (cursor h l) xs)"
  proof (cases "cursor h l")
    case None
    then have "pxIndex h l = LEnd l" using ring_index_cursor [OF r] by simp
    moreover have "turns (Some (hd xs)) xs = rotate1 xs"
      using ne by (cases xs) auto
    ultimately show ?thesis
      using None first
      by (simp add: listGET_OWNER_OF_NEXT_ENTRY_def deref_def Let_def listGET_LIST_ITEM_OWNER_def)
  next
    case (Some c)
    then have ix: "pxIndex h l = LItem c" using ring_index_cursor [OF r] by simp
    obtain as bs where ab: "xs = as @ c # bs"
      using ring_cursor_mem [OF r Some] by (metis in_set_conv_decomp)
    have dd: "c \<notin> set as" "c \<notin> set bs" "set as \<inter> set bs = {}" using d ab by auto
    have nx: "pxNext h (LItem c) = hd (map LItem bs @ [LEnd l])"
      using ring_item_cells(2) [of h l as c bs] r ab by simp
    show ?thesis
    proof (cases bs)
      case Nil
      then show ?thesis
        using Some ix nx first ab dd
        by (cases as) (auto simp: listGET_OWNER_OF_NEXT_ENTRY_def deref_def Let_def
            listGET_LIST_ITEM_OWNER_def)
    next
      case (Cons b bs')
      then show ?thesis
        using Some ix nx first ab dd
        by (auto simp: listGET_OWNER_OF_NEXT_ENTRY_def deref_def Let_def
            listGET_LIST_ITEM_OWNER_def takeWhile_append)
    qed
  qed
  moreover have "ring ?h l xs" using r mem by (simp add: ring_def)
  moreover have "\<forall>l' ys. l' \<noteq> l \<longrightarrow> ring h l' ys \<longrightarrow> ring ?h l' ys" by (simp add: ring_def)
  moreover have "cursor ?h l = Some ?j" by (simp add: cursor_def)
  ultimately show ?thesis using mem by (intro exI [of _ ?h] exI [of _ ?j]) simp
qed


text \<open>The items of a list, read off the store by following the links.\<close>

fun walk :: "('l, 'i, 'o) list_store \<Rightarrow> nat \<Rightarrow> ('l, 'i) lptr \<Rightarrow> 'i list" where
  "walk h 0 q = []"
| "walk h (Suc n) q = (case q of LItem i \<Rightarrow> i # walk h n (pxNext h q) | _ \<Rightarrow> [])"

definition list_items :: "('l, 'i, 'o) list_store \<Rightarrow> 'l \<Rightarrow> 'i list" where
  "list_items h l = walk h (unat (uxNumberOfItems h l)) (pxNext h (LEnd l))"

lemma walk_links:
  "links (pxNext h) m p (map LItem xs @ [LEnd l]) \<Longrightarrow> walk h (length xs) (pxNext h p) = xs"
  by (induction xs arbitrary: p) auto

lemma list_items_ring: "ring h l xs \<Longrightarrow> list_items h l = xs"
  by (simp add: list_items_def ring_unat_count walk_links [OF ring_links])

section \<open>The interface the scheduler uses\<close>

text \<open>
  What a client of the list module relies on: \<open>rep h l xs\<close> is the abstraction, \<open>val\<close> the
  sort key of an item, \<open>home\<close> the list an item is in, \<open>cur\<close> the cursor of a list. The laws
  say what each operation does to the list it works on and that it leaves the others alone.
\<close>

locale task_lists =
  fixes rep :: "'h \<Rightarrow> 'l \<Rightarrow> 'i list \<Rightarrow> bool"
    and val :: "'h \<Rightarrow> 'i \<Rightarrow> u32"
    and home :: "'h \<Rightarrow> 'i \<Rightarrow> 'l option"
    and cur :: "'h \<Rightarrow> 'l \<Rightarrow> 'i option"
    and own :: "'h \<Rightarrow> 'i \<Rightarrow> 'o"
    and put_end :: "'l \<Rightarrow> 'i \<Rightarrow> 'h \<Rightarrow> kfault + 'h"
    and put_sorted :: "'l \<Rightarrow> 'i \<Rightarrow> 'h \<Rightarrow> kfault + 'h"
    and take_out :: "'i \<Rightarrow> 'h \<Rightarrow> kfault + (u32 \<times> 'h)"
    and set_val :: "'i \<Rightarrow> u32 \<Rightarrow> 'h \<Rightarrow> 'h"
  assumes rep_distinct: "rep h l xs \<Longrightarrow> distinct xs"
    and rep_home: "rep h l xs \<Longrightarrow> home h i = Some l \<longleftrightarrow> i \<in> set xs"
    and rep_cur: "rep h l xs \<Longrightarrow> cur h l = Some i \<Longrightarrow> i \<in> set xs"
    and put_end: "rep h l xs \<Longrightarrow> home h i = None \<Longrightarrow> Suc (length xs) < 2 ^ 32 \<Longrightarrow>
      \<exists>h'. put_end l i h = Inr h' \<and> rep h' l (ins_before (cur h l) i xs) \<and>
        (\<forall>l' ys. l' \<noteq> l \<longrightarrow> rep h l' ys \<longrightarrow> rep h' l' ys) \<and> val h' = val h \<and> own h' = own h \<and>
        home h' = (home h)(i := Some l) \<and> cur h' = cur h"
    and put_sorted: "rep h l xs \<Longrightarrow> home h i = None \<Longrightarrow> Suc (length xs) < 2 ^ 32 \<Longrightarrow>
      \<exists>h'. put_sorted l i h = Inr h' \<and> rep h' l (insort_after (val h) i xs) \<and>
        (\<forall>l' ys. l' \<noteq> l \<longrightarrow> rep h l' ys \<longrightarrow> rep h' l' ys) \<and> val h' = val h \<and> own h' = own h \<and>
        home h' = (home h)(i := Some l) \<and> cur h' = cur h"
    and take_out: "rep h l xs \<Longrightarrow> home h i = Some l \<Longrightarrow>
      \<exists>h'. take_out i h = Inr (of_nat (length xs - 1), h') \<and> rep h' l (remove1 i xs) \<and>
        (\<forall>l' ys. l' \<noteq> l \<longrightarrow> rep h l' ys \<longrightarrow> rep h' l' ys) \<and> val h' = val h \<and> own h' = own h \<and>
        home h' = (home h)(i := None) \<and>
        cur h' = (if cur h l = Some i then (cur h)(l := pred_of i xs) else cur h)"
    and set_val: "rep h l xs \<Longrightarrow> rep (set_val i v h) l xs"
      "val (set_val i v h) = (val h)(i := v)" "own (set_val i v h) = own h"
      "home (set_val i v h) = home h" "cur (set_val i v h) = cur h"
begin

text \<open>Several lists at once: the store represents the list map \<open>Q\<close> on the lists \<open>S\<close>.\<close>

definition reps :: "'l set \<Rightarrow> 'h \<Rightarrow> ('l \<Rightarrow> 'i list) \<Rightarrow> bool" where
  "reps S h Q \<longleftrightarrow> (\<forall>l \<in> S. rep h l (Q l))"

lemma reps_home: "reps S h Q \<Longrightarrow> l \<in> S \<Longrightarrow> home h i = Some l \<longleftrightarrow> i \<in> set (Q l)"
  unfolding reps_def using rep_home by blast

lemma reps_distinct: "reps S h Q \<Longrightarrow> l \<in> S \<Longrightarrow> distinct (Q l)"
  unfolding reps_def using rep_distinct by blast

lemma reps_put_end:
  assumes "reps S h Q" "l \<in> S" "home h i = None" "Suc (length (Q l)) < 2 ^ 32"
  shows "\<exists>h'. put_end l i h = Inr h' \<and> reps S h' (Q(l := ins_before (cur h l) i (Q l))) \<and>
    val h' = val h \<and> own h' = own h \<and> home h' = (home h)(i := Some l) \<and> cur h' = cur h"
proof -
  have "rep h l (Q l)" using assms by (simp add: reps_def)
  from put_end [OF this assms(3,4)] obtain h' where
    "put_end l i h = Inr h'" "rep h' l (ins_before (cur h l) i (Q l))"
    "\<forall>l' ys. l' \<noteq> l \<longrightarrow> rep h l' ys \<longrightarrow> rep h' l' ys" "val h' = val h" "own h' = own h"
    "home h' = (home h)(i := Some l)" "cur h' = cur h" by blast
  then show ?thesis using assms(1) by (intro exI [of _ h']) (simp add: reps_def)
qed

lemma reps_put_sorted:
  assumes "reps S h Q" "l \<in> S" "home h i = None" "Suc (length (Q l)) < 2 ^ 32"
  shows "\<exists>h'. put_sorted l i h = Inr h' \<and> reps S h' (Q(l := insort_after (val h) i (Q l))) \<and>
    val h' = val h \<and> own h' = own h \<and> home h' = (home h)(i := Some l) \<and> cur h' = cur h"
proof -
  have "rep h l (Q l)" using assms by (simp add: reps_def)
  from put_sorted [OF this assms(3,4)] obtain h' where
    "put_sorted l i h = Inr h'" "rep h' l (insort_after (val h) i (Q l))"
    "\<forall>l' ys. l' \<noteq> l \<longrightarrow> rep h l' ys \<longrightarrow> rep h' l' ys" "val h' = val h" "own h' = own h"
    "home h' = (home h)(i := Some l)" "cur h' = cur h" by blast
  then show ?thesis using assms(1) by (intro exI [of _ h']) (simp add: reps_def)
qed

lemma reps_take_out:
  assumes "reps S h Q" "l \<in> S" "home h i = Some l"
  shows "\<exists>h'. take_out i h = Inr (of_nat (length (Q l) - 1), h') \<and> reps S h' (Q(l := remove1 i (Q l))) \<and>
    val h' = val h \<and> own h' = own h \<and> home h' = (home h)(i := None) \<and>
    cur h' = (if cur h l = Some i then (cur h)(l := pred_of i (Q l)) else cur h)"
proof -
  have "rep h l (Q l)" using assms by (simp add: reps_def)
  from take_out [OF this assms(3)] obtain h' where
    "take_out i h = Inr (of_nat (length (Q l) - 1), h')" "rep h' l (remove1 i (Q l))"
    "\<forall>l' ys. l' \<noteq> l \<longrightarrow> rep h l' ys \<longrightarrow> rep h' l' ys" "val h' = val h" "own h' = own h"
    "home h' = (home h)(i := None)"
    "cur h' = (if cur h l = Some i then (cur h)(l := pred_of i (Q l)) else cur h)" by blast
  then show ?thesis using assms(1) by (intro exI [of _ h']) (simp add: reps_def)
qed

lemma reps_set_val: "reps S h Q \<Longrightarrow> reps S (set_val i v h) Q"
  by (simp add: reps_def set_val(1))

text \<open>
  Moving an item: out of the list it is in, with a new key, and into the sorted list \<open>b\<close>
  (a task that blocks), or out of its list and to the end of \<open>b\<close> (a task that wakes).
\<close>

lemma move_sorted:
  assumes "reps S h Q" "a \<in> S" "b \<in> S" "a \<noteq> b" "home h i = Some a" "Suc (length (Q b)) < 2 ^ 32"
  shows "\<exists>h1 h2. take_out i h = Inr (of_nat (length (Q a) - 1), h1) \<and>
    put_sorted b i (set_val i v h1) = Inr h2 \<and>
    reps S h2 (Q(a := remove1 i (Q a), b := insort_after ((val h)(i := v)) i (Q b))) \<and>
    val h2 = (val h)(i := v) \<and> own h2 = own h \<and> home h2 = (home h)(i := Some b) \<and>
    cur h2 = (if cur h a = Some i then (cur h)(a := pred_of i (Q a)) else cur h)"
proof -
  from reps_take_out [OF assms(1,2,5)] obtain h1 where h1:
    "take_out i h = Inr (of_nat (length (Q a) - 1), h1)" "reps S h1 (Q(a := remove1 i (Q a)))"
    "val h1 = val h" "own h1 = own h" "home h1 = (home h)(i := None)"
    "cur h1 = (if cur h a = Some i then (cur h)(a := pred_of i (Q a)) else cur h)" by blast
  let ?Q = "Q(a := remove1 i (Q a))" and ?g = "set_val i v h1"
  have "\<exists>h2. put_sorted b i ?g = Inr h2 \<and> reps S h2 (?Q(b := insort_after (val ?g) i (?Q b))) \<and>
    val h2 = val ?g \<and> own h2 = own ?g \<and> home h2 = (home ?g)(i := Some b) \<and> cur h2 = cur ?g"
    by (rule reps_put_sorted) (use h1 assms in \<open>simp_all add: reps_set_val set_val\<close>)
  then show ?thesis using h1 assms(4) by (auto simp: set_val)
qed

lemma move_end:
  assumes "reps S h Q" "a \<in> S" "b \<in> S" "a \<noteq> b" "home h i = Some a" "Suc (length (Q b)) < 2 ^ 32"
  shows "\<exists>h1 h2. take_out i h = Inr (of_nat (length (Q a) - 1), h1) \<and> put_end b i h1 = Inr h2 \<and>
    reps S h2 (Q(a := remove1 i (Q a), b := ins_before (cur h b) i (Q b))) \<and>
    val h2 = val h \<and> own h2 = own h \<and> home h2 = (home h)(i := Some b) \<and>
    cur h2 = (if cur h a = Some i then (cur h)(a := pred_of i (Q a)) else cur h)"
proof -
  from reps_take_out [OF assms(1,2,5)] obtain h1 where h1:
    "take_out i h = Inr (of_nat (length (Q a) - 1), h1)" "reps S h1 (Q(a := remove1 i (Q a)))"
    "val h1 = val h" "own h1 = own h" "home h1 = (home h)(i := None)"
    "cur h1 = (if cur h a = Some i then (cur h)(a := pred_of i (Q a)) else cur h)" by blast
  let ?Q = "Q(a := remove1 i (Q a))"
  have "\<exists>h2. put_end b i h1 = Inr h2 \<and> reps S h2 (?Q(b := ins_before (cur h1 b) i (?Q b))) \<and>
    val h2 = val h1 \<and> own h2 = own h1 \<and> home h2 = (home h1)(i := Some b) \<and> cur h2 = cur h1"
    by (rule reps_put_end) (use h1 assms in simp_all)
  then show ?thesis using h1 assms(4) by auto
qed

end

section \<open>The store implements the interface\<close>

lemma ring_set_value: "ring h l xs \<Longrightarrow> ring (listSET_LIST_ITEM_VALUE i v h) l xs"
  by (simp add: ring_def listSET_LIST_ITEM_VALUE_def)

interpretation kl: task_lists ring val_of pxContainer cursor pvOwner
  vListInsertEnd vListInsert uxListRemove listSET_LIST_ITEM_VALUE
proof (unfold_locales, goal_cases)
  case (4 h l xs i)
  then show ?case by (rule vListInsertEnd_spec [THEN ex_forward]) auto
next
  case (5 h l xs i)
  then show ?case by (rule vListInsert_spec [THEN ex_forward]) auto
next
  case (6 h l xs i)
  then show ?case by (rule uxListRemove_spec [THEN ex_forward]) auto
next
  case (7 h l xs i v)
  then show ?case by (rule ring_set_value)
qed (auto simp: ring_distinct ring_container listSET_LIST_ITEM_VALUE_def cursor_def
      dest: ring_cursor_mem [unfolded cursor_def] split: lptr.splits)

end
