(* ===== verification/Runtime.thy ===== *)
theory Runtime
  imports Prelude
begin

text \<open>
  The freestanding C runtime: the memory functions and the exit protocol of
  \<^verbatim>\<open>sw/runtime/runtime.c\<close>, and the second copy of the memory functions, with \<open>strlen\<close>,
  that \<^verbatim>\<open>sw/freertos/platform.c\<close> links into the FreeRTOS image. Memory is a function from
  32-bit addresses to bytes; addresses wrap as \<^verbatim>\<open>uint8_t *\<close> arithmetic does on RV32.
\<close>

type_synonym mem = "u32 \<Rightarrow> u8"

section \<open>Words in memory, little-endian\<close>

definition load32 :: "mem \<Rightarrow> u32 \<Rightarrow> u32" where
  "load32 m a = ucast (m a) OR push_bit 8 (ucast (m (a + 1))) OR push_bit 16 (ucast (m (a + 2)))
     OR push_bit 24 (ucast (m (a + 3)))"

definition store32 :: "u32 \<Rightarrow> u32 \<Rightarrow> mem \<Rightarrow> mem" where
  "store32 a v m = m(a := ucast v, a + 1 := ucast (drop_bit 8 v), a + 2 := ucast (drop_bit 16 v),
     a + 3 := ucast (drop_bit 24 v))"

lemma bytes_of_word:
  fixes v :: u32
  shows "ucast (ucast v :: u8) OR push_bit 8 (ucast (ucast (drop_bit 8 v) :: u8)) OR
    push_bit 16 (ucast (ucast (drop_bit 16 v) :: u8)) OR
    push_bit 24 (ucast (ucast (drop_bit 24 v) :: u8)) = v" (is "?l = v")
proof (rule bit_word_eqI)
  fix n :: nat
  assume "n < LENGTH(32)"
  then consider "n < 8" | "8 \<le> n" "n < 16" | "16 \<le> n" "n < 24" | "24 \<le> n" "n < 32"
    by fastforce
  then show "bit ?l n = bit v n"
    by cases (auto simp: bit_simps)
qed

lemma load32_store32: "load32 (store32 a v m) a = v"
proof -
  have "a + 1 \<noteq> a" "a + 2 \<noteq> a" "a + 3 \<noteq> a" "a + 2 \<noteq> a + 1" "a + 3 \<noteq> a + 1" "a + 3 \<noteq> a + 2"
    by simp_all
  then show ?thesis by (simp add: load32_def store32_def bytes_of_word)
qed

lemma load32_store32_apart:
  assumes "\<And>i j. i < 4 \<Longrightarrow> j < 4 \<Longrightarrow> b + of_nat i \<noteq> a + of_nat j"
  shows "load32 (store32 a v m) b = load32 m b"
proof -
  have "store32 a v m (b + of_nat i) = m (b + of_nat i)" if "i < 4" for i
    using assms [OF that, of 0] assms [OF that, of 1] assms [OF that, of 2] assms [OF that, of 3]
    by (simp add: store32_def)
  from this [of 0] this [of 1] this [of 2] this [of 3] show ?thesis by (simp add: load32_def)
qed

lemma words_apart:
  fixes a :: u32
  assumes "4 \<le> unat (b - a)" "unat (b - a) \<le> 2 ^ 32 - 4"
  shows "load32 (store32 a v m) b = load32 m b"
proof (rule load32_store32_apart)
  fix i j :: nat assume ij: "i < 4" "j < 4"
  show "b + of_nat i \<noteq> a + of_nat j"
  proof
    assume "b + of_nat i = a + of_nat j"
    then have "b - a + of_nat i = of_nat j" by (simp add: algebra_simps)
    then have "unat (b - a + of_nat i) = j" using ij by (simp add: unat_of_nat)
    moreover have "unat (of_nat i :: u32) = i" using ij by (simp add: unat_of_nat)
    ultimately have "(unat (b - a) + i) mod 2 ^ 32 = j" by (simp add: unat_word_ariths)
    then show False using assms ij by (cases "unat (b - a) + i < 2 ^ 32") (simp_all add: mod_if)
  qed
qed

section \<open>Memory functions\<close>

function memcpy_loop :: "u32 \<Rightarrow> u32 \<Rightarrow> u32 \<Rightarrow> mem \<Rightarrow> mem" where
  "memcpy_loop dst src len m =
     (if len \<noteq> 0 then memcpy_loop (dst + 1) (src + 1) (len - 1) (m(dst := m src)) else m)"
  by pat_completeness auto
termination
  by (relation "measure (\<lambda>(_, _, n, _). unat n)") (auto simp: unat_minus_one unat_gt_0)

definition memcpy :: "u32 \<Rightarrow> u32 \<Rightarrow> u32 \<Rightarrow> mem \<Rightarrow> u32 \<times> mem" where
  "memcpy destination source len m = (destination, memcpy_loop destination source len m)"

function memset_loop :: "u32 \<Rightarrow> u8 \<Rightarrow> u32 \<Rightarrow> mem \<Rightarrow> mem" where
  "memset_loop dst b len m =
     (if len \<noteq> 0 then memset_loop (dst + 1) b (len - 1) (m(dst := b)) else m)"
  by pat_completeness auto
termination
  by (relation "measure (\<lambda>(_, _, n, _). unat n)") (auto simp: unat_minus_one unat_gt_0)

text \<open>The \<^verbatim>\<open>int\<close> value is converted to \<^verbatim>\<open>uint8_t\<close>.\<close>

definition memset :: "u32 \<Rightarrow> u32 \<Rightarrow> u32 \<Rightarrow> mem \<Rightarrow> u32 \<times> mem" where
  "memset destination v len m = (destination, memset_loop destination (ucast v) len m)"

function memcmp :: "u32 \<Rightarrow> u32 \<Rightarrow> u32 \<Rightarrow> mem \<Rightarrow> int" where
  "memcmp left right len m =
     (if len \<noteq> 0
      then if m left \<noteq> m right then (if m left < m right then -1 else 1)
           else memcmp (left + 1) (right + 1) (len - 1) m
      else 0)"
  by pat_completeness auto
termination
  by (relation "measure (\<lambda>(_, _, n, _). unat n)") (auto simp: unat_minus_one unat_gt_0)

declare memcpy_loop.simps [simp del] memset_loop.simps [simp del] memcmp.simps [simp del]


section \<open>What the memory functions do\<close>

lemma unat_sub_Suc:
  fixes a d :: u32
  assumes "a \<noteq> d"
  shows "unat (a - d) = Suc (unat (a - (d + 1)))"
proof -
  have "a - d \<noteq> 0" using assms by simp
  then have "unat (a - d - 1) = unat (a - d) - 1" "0 < unat (a - d)"
    by (simp_all add: unat_minus_one unat_gt_0)
  then show ?thesis by (simp add: diff_diff_eq)
qed

lemma unat_dist_self:
  fixes d n :: u32
  shows "\<not> unat (d - (d + 1)) < unat (n - 1)"
proof -
  have "d - (d + 1) = -1" by simp
  then show ?thesis
    using word_n1_ge [of "n - 1"] by (simp add: word_le_nat_alt not_less)
qed

lemma memset_loop_at:
  "memset_loop d b n m a = (if unat (a - d) < unat n then b else m a)"
proof (induction d b n m rule: memset_loop.induct)
  case (1 d b n m)
  show ?case
  proof (cases "n = 0")
    case True
    then show ?thesis by (simp add: memset_loop.simps)
  next
    case False
    then have n: "unat (n - 1) = unat n - 1" "0 < unat n"
      by (simp_all add: unat_minus_one unat_gt_0)
    have "memset_loop d b n m a = memset_loop (d + 1) b (n - 1) (m(d := b)) a"
      using False by (simp add: memset_loop.simps [of d b n m])
    also have "\<dots> = (if unat (a - (d + 1)) < unat (n - 1) then b else (m(d := b)) a)"
      by (rule "1.IH" [OF False])
    also have "\<dots> = (if unat (a - d) < unat n then b else m a)"
      using n unat_sub_Suc [of a d] unat_dist_self [of d n] by (cases "a = d") auto
    finally show ?thesis .
  qed
qed

text \<open>
  A forward copy is right unless the destination starts strictly inside the source. The
  distance is taken modulo \<open>2 ^ 32\<close>, so a destination below the source may overlap it.
\<close>

lemma memcpy_loop_at:
  "d = s \<or> unat n \<le> unat (d - s) \<Longrightarrow>
   memcpy_loop d s n m a = (if unat (a - d) < unat n then m (s + (a - d)) else m a)"
proof (induction d s n m rule: memcpy_loop.induct)
  case (1 d s n m)
  show ?case
  proof (cases "n = 0")
    case True
    then show ?thesis by (simp add: memcpy_loop.simps)
  next
    case False
    then have n: "unat (n - 1) = unat n - 1" "0 < unat n"
      by (simp_all add: unat_minus_one unat_gt_0)
    let ?m = "m(d := m s)"
    have "memcpy_loop d s n m a = memcpy_loop (d + 1) (s + 1) (n - 1) ?m a"
      using False by (simp add: memcpy_loop.simps [of d s n m])
    also have "\<dots> = (if unat (a - (d + 1)) < unat (n - 1) then ?m (s + 1 + (a - (d + 1))) else ?m a)"
      by (rule "1.IH" [OF False]) (use "1.prems" n in auto)
    also have "s + 1 + (a - (d + 1)) = s + (a - d)" by simp
    also have "(if unat (a - (d + 1)) < unat (n - 1) then ?m (s + (a - d)) else ?m a) =
        (if unat (a - d) < unat n then m (s + (a - d)) else m a)"
    proof (cases "a = d")
      case True
      then show ?thesis using n unat_dist_self [of d n] by simp
    next
      case ad: False
      have "s + (a - d) = d \<Longrightarrow> a - d = d - s" by (simp add: algebra_simps)
      then have "unat (a - d) < unat n \<Longrightarrow> d \<noteq> s \<Longrightarrow> s + (a - d) \<noteq> d"
        using "1.prems" by auto
      then show ?thesis
        using ad n unat_sub_Suc [OF ad] by (cases "d = s") auto
    qed
    finally show ?thesis .
  qed
qed

text \<open>\<open>memcmp\<close> compares the two byte strings lexicographically.\<close>

definition bytes_at :: "mem \<Rightarrow> u32 \<Rightarrow> nat \<Rightarrow> u8 list" where
  "bytes_at m a n = map (\<lambda>k. m (a + of_nat k)) [0..<n]"

lemma bytes_at_0 [simp]: "bytes_at m a 0 = []"
  by (simp add: bytes_at_def)

lemma bytes_at_Suc [simp]: "bytes_at m a (Suc n) = m a # bytes_at m (a + 1) n"
  by (simp add: bytes_at_def upt_conv_Cons map_Suc_upt [symmetric] o_def add.assoc
      del: upt_Suc flip: of_nat_Suc)

fun lex_cmp :: "u8 list \<Rightarrow> u8 list \<Rightarrow> int" where
  "lex_cmp (x # xs) (y # ys) = (if x < y then -1 else if y < x then 1 else lex_cmp xs ys)"
| "lex_cmp _ _ = 0"

lemma lex_cmp_zero: "length xs = length ys \<Longrightarrow> lex_cmp xs ys = 0 \<longleftrightarrow> xs = ys"
  by (induction xs ys rule: lex_cmp.induct) auto

lemma lex_cmp_swap: "lex_cmp ys xs = - lex_cmp xs ys"
  by (induction xs ys rule: lex_cmp.induct) (auto simp: not_less)

lemma memcmp_lex: "memcmp l r n m = lex_cmp (bytes_at m l (unat n)) (bytes_at m r (unat n))"
proof (induction l r n m rule: memcmp.induct)
  case (1 l r n m)
  show ?case
  proof (cases "n = 0")
    case True
    then show ?thesis by (simp add: memcmp.simps)
  next
    case False
    then obtain k where k: "unat n = Suc k" by (metis not0_implies_Suc unat_eq_0)
    with False have "unat (n - 1) = k" by (simp add: unat_minus_one)
    with "1.IH" False k show ?thesis
      by (auto simp: memcmp.simps [of l r n m] neq_iff)
  qed
qed

section \<open>The exit protocol\<close>

text \<open>
  The program reports through the word \<open>tohost\<close>, which the linker script places at
  \<^verbatim>\<open>BM_TOHOST_ADDR\<close>, and then spins in a \<^verbatim>\<open>nop\<close> loop. The functions below do not return:
  their value is the memory in which the processor spins.
\<close>

definition BM_TOHOST_ADDR :: u32 where "BM_TOHOST_ADDR = 0x0000fffc"
definition BM_PASS_STATUS :: u32 where "BM_PASS_STATUS = 1"

definition bm_pass :: "mem \<Rightarrow> mem" where
  "bm_pass m = store32 BM_TOHOST_ADDR BM_PASS_STATUS m"

definition bm_fail_status :: "u32 \<Rightarrow> u32" where
  "bm_fail_status code =
     (let status = push_bit 1 code OR 1 in if status = BM_PASS_STATUS then 3 else status)"

definition bm_fail :: "u32 \<Rightarrow> mem \<Rightarrow> mem" where
  "bm_fail code m = store32 BM_TOHOST_ADDR (bm_fail_status code) m"

definition bm_exit :: "u32 \<Rightarrow> mem \<Rightarrow> mem" where
  "bm_exit status m = (if status = 0 then bm_pass m else bm_fail status m)"

definition bm_trap_handler :: "u32 \<Rightarrow> u32 \<Rightarrow> u32 \<Rightarrow> mem \<Rightarrow> mem" where
  "bm_trap_handler cause epc tval m = bm_fail (0x100 OR (cause AND 0x1f)) m"

lemma bm_fail_status_not_pass: "bm_fail_status code \<noteq> BM_PASS_STATUS"
  by (simp add: bm_fail_status_def BM_PASS_STATUS_def Let_def)

lemma push_bit_1_or_1: "drop_bit 1 (push_bit 1 c OR 1) = c AND mask 31" for c :: u32
  by (rule bit_word_eqI) (auto simp: bit_simps bit_double_iff mult.commute [of c 2])

lemma bm_fail_status_code:
  assumes "c AND mask 31 \<noteq> 0"
  shows "drop_bit 1 (bm_fail_status c) = c AND mask 31"
proof -
  have "push_bit 1 c OR 1 \<noteq> (1 :: u32)"
  proof
    assume "push_bit 1 c OR 1 = (1 :: u32)"
    then have "drop_bit 1 (push_bit 1 c OR 1) = drop_bit 1 (1 :: u32)" by (simp only:)
    then show False using assms push_bit_1_or_1 [of c] by simp
  qed
  then show ?thesis
    using push_bit_1_or_1 [of c] by (simp add: bm_fail_status_def BM_PASS_STATUS_def Let_def)
qed

lemma bm_exit_tohost:
  "load32 (bm_exit status m) BM_TOHOST_ADDR = (if status = 0 then BM_PASS_STATUS else bm_fail_status status)"
  by (simp add: bm_exit_def bm_pass_def bm_fail_def load32_store32)

section \<open>strlen\<close>

partial_function (option) strlen_loop :: "mem \<Rightarrow> u32 \<Rightarrow> u32 \<Rightarrow> u32 option" where
  "strlen_loop m text len = (if m (text + len) \<noteq> 0 then strlen_loop m text (len + 1) else Some len)"

definition strlen :: "u32 \<Rightarrow> mem \<Rightarrow> u32 option" where
  "strlen text m = strlen_loop m text 0"

lemma strlen_loop_finds:
  "\<forall>j < k. m (text + len + of_nat j) \<noteq> 0 \<Longrightarrow> m (text + len + of_nat k) = 0 \<Longrightarrow>
   strlen_loop m text len = Some (len + of_nat k)"
proof (induction k arbitrary: len)
  case 0
  then show ?case by (simp add: strlen_loop.simps)
next
  case (Suc k)
  have "m (text + len) \<noteq> 0" using Suc.prems(1) by fastforce
  moreover have "strlen_loop m text (len + 1) = Some (len + 1 + of_nat k)"
  proof (rule Suc.IH)
    show "\<forall>j<k. m (text + (len + 1) + of_nat j) \<noteq> 0"
    proof (intro allI impI)
      fix j assume "j < k"
      then have "m (text + len + of_nat (Suc j)) \<noteq> 0" using Suc.prems(1) by blast
      then show "m (text + (len + 1) + of_nat j) \<noteq> 0" by (simp add: algebra_simps)
    qed
    show "m (text + (len + 1) + of_nat k) = 0" using Suc.prems(2) by (simp add: algebra_simps)
  qed
  ultimately show ?case by (subst strlen_loop.simps) (simp add: algebra_simps)
qed

end
