(* ===== verification/Kernel_Tasks.thy ===== *)
theory Kernel_Tasks
  imports Kernel_Ring Runtime
begin

text \<open>
  The FreeRTOS scheduler, \<^verbatim>\<open>third_party/freertos-kernel/tasks.c\<close>, as the configuration
  \<^verbatim>\<open>sw/freertos/FreeRTOSConfig.h\<close> compiles it: one core, preemption and time slicing, static
  allocation, 4 priorities, a tick hook, stack checking method 2, no idle hook, no task
  suspension or deletion, no notifications and no tickless idle. The state is the module's
  static variables, the control blocks, the list store and the memory of the stacks.

  A task is the address of its control block; 0 is NULL. \<^verbatim>\<open>portYIELD()\<close> is an \<^verbatim>\<open>ecall\<close>, whose
  handler in \<^verbatim>\<open>portASM.S\<close> saves the context of the running task, calls
  \<open>vTaskSwitchContext\<close> and restores the context of the task then current. The critical
  nesting count and the interrupt enable bit are part of the saved context, so the model keeps
  them per context (0 is the context of \<^verbatim>\<open>main\<close> before the scheduler runs): what a function
  does to them after a yield concerns the context that called it.
\<close>

section \<open>State\<close>

datatype list_id = ReadyList nat | DelayedList1 | DelayedList2 | PendingReadyList | EventList nat

datatype item_id = StateItem u32 | EventItem u32

record tcb_t =
  pxTopOfStack :: u32
  uxPriority :: u32
  pxStack :: u32
  pcTaskName :: "u8 list"

record kernel =
  heap :: "(list_id, item_id, u32) list_store"
  tcb :: "u32 \<Rightarrow> tcb_t"
  memory :: mem
  pxCurrentTCB :: u32
  pxDelayedTaskList :: "list_id option"
  pxOverflowDelayedTaskList :: "list_id option"
  uxCurrentNumberOfTasks :: u32
  xTickCount :: u32
  uxTopReadyPriority :: u32
  xSchedulerRunning :: bool
  xPendedTicks :: u32
  xYieldPending :: bool
  xNumOfOverflows :: u32
  uxTaskNumber :: u32
  xNextTaskUnblockTime :: u32
  xIdleTaskHandle :: u32
  uxSchedulerSuspended :: u32
  xCriticalNesting :: "u32 \<Rightarrow> u32"
  irq_enabled :: "u32 \<Rightarrow> bool"
  saved_sp :: u32
  csr_mstatus :: u32
  freertos_tick_hook_count :: u32
  freertos_context_switch_count :: u32

definition configMAX_PRIORITIES :: u32 where "configMAX_PRIORITIES = 4"
definition configMAX_TASK_NAME_LEN :: nat where "configMAX_TASK_NAME_LEN = 12"
definition tskSTACK_FILL_BYTE :: u32 where "tskSTACK_FILL_BYTE = 0xa5"

definition configASSERT :: "nat \<Rightarrow> bool \<Rightarrow> kfault + 'a \<Rightarrow> kfault + 'a" where
  "configASSERT line condition k = (if condition then k else Inl (AssertFail line))"

definition on_heap :: "((list_id, item_id, u32) list_store \<Rightarrow> kfault + (list_id, item_id, u32) list_store)
    \<Rightarrow> kernel \<Rightarrow> kfault + kernel" where
  "on_heap f s = bindE (f (heap s)) (\<lambda>h. Inr (s\<lparr>heap := h\<rparr>))"

definition listp :: "list_id option \<Rightarrow> (list_id \<Rightarrow> kfault + 'a) \<Rightarrow> kfault + 'a" where
  "listp p k = (case p of None \<Rightarrow> Inl NullDeref | Some l \<Rightarrow> k l)"

definition this_context :: "kernel \<Rightarrow> u32" where
  "this_context s = (if xSchedulerRunning s then pxCurrentTCB s else 0)"

section \<open>Critical sections (portmacro.h)\<close>

definition portDISABLE_INTERRUPTS :: "u32 \<Rightarrow> kernel \<Rightarrow> kernel" where
  "portDISABLE_INTERRUPTS c s = s\<lparr>irq_enabled := (irq_enabled s)(c := False)\<rparr>"

definition portENABLE_INTERRUPTS :: "u32 \<Rightarrow> kernel \<Rightarrow> kernel" where
  "portENABLE_INTERRUPTS c s = s\<lparr>irq_enabled := (irq_enabled s)(c := True)\<rparr>"

definition portENTER_CRITICAL :: "u32 \<Rightarrow> kernel \<Rightarrow> kernel" where
  "portENTER_CRITICAL c s =
     (let s1 = portDISABLE_INTERRUPTS c s
      in s1\<lparr>xCriticalNesting := (xCriticalNesting s1)(c := xCriticalNesting s1 c + 1)\<rparr>)"

definition portEXIT_CRITICAL :: "u32 \<Rightarrow> kernel \<Rightarrow> kernel" where
  "portEXIT_CRITICAL c s =
     (let s1 = s\<lparr>xCriticalNesting := (xCriticalNesting s)(c := xCriticalNesting s c - 1)\<rparr>
      in if xCriticalNesting s1 c = 0 then portENABLE_INTERRUPTS c s1 else s1)"

section \<open>Hooks and traces of the platform (platform.c)\<close>

definition freertos_trace_task_switched_in :: "kernel \<Rightarrow> kernel" where
  "freertos_trace_task_switched_in s =
     s\<lparr>freertos_context_switch_count := freertos_context_switch_count s + 1\<rparr>"

definition vApplicationTickHook :: "kernel \<Rightarrow> kernel" where
  "vApplicationTickHook s = s\<lparr>freertos_tick_hook_count := freertos_tick_hook_count s + 1\<rparr>"

section \<open>Ready lists and task selection\<close>

definition prvInitialiseTaskLists :: "kernel \<Rightarrow> kernel" where
  "prvInitialiseTaskLists s =
     (let h1 = fold (\<lambda>p h. vListInitialise (ReadyList p) h) [0..<unat configMAX_PRIORITIES] (heap s);
          h2 = vListInitialise DelayedList1 h1;
          h3 = vListInitialise DelayedList2 h2;
          h4 = vListInitialise PendingReadyList h3
      in s\<lparr>heap := h4, pxDelayedTaskList := Some DelayedList1,
           pxOverflowDelayedTaskList := Some DelayedList2\<rparr>)"

definition taskRECORD_READY_PRIORITY :: "u32 \<Rightarrow> kernel \<Rightarrow> kernel" where
  "taskRECORD_READY_PRIORITY p s =
     (if uxTopReadyPriority s < p then s\<lparr>uxTopReadyPriority := p\<rparr> else s)"

definition prvAddTaskToReadyList :: "u32 \<Rightarrow> kernel \<Rightarrow> kfault + kernel" where
  "prvAddTaskToReadyList t s =
     (let s1 = taskRECORD_READY_PRIORITY (uxPriority (tcb s t)) s
      in on_heap (listINSERT_END (ReadyList (unat (uxPriority (tcb s1 t)))) (StateItem t)) s1)"

text \<open>The search of \<open>taskSELECT_HIGHEST_PRIORITY_TASK\<close>; its assertion is expanded in
  \<open>vTaskSwitchContext\<close>, line 5178.\<close>

fun select_top :: "(list_id, item_id, u32) list_store \<Rightarrow> nat \<Rightarrow> kfault + nat" where
  "select_top h 0 = (if listLIST_IS_EMPTY (ReadyList 0) h then Inl (AssertFail 5178) else Inr 0)"
| "select_top h (Suc p) =
     (if listLIST_IS_EMPTY (ReadyList (Suc p)) h then select_top h p else Inr (Suc p))"

definition taskSELECT_HIGHEST_PRIORITY_TASK :: "kernel \<Rightarrow> kfault + kernel" where
  "taskSELECT_HIGHEST_PRIORITY_TASK s =
     bindE (select_top (heap s) (unat (uxTopReadyPriority s))) (\<lambda>p.
     bindE (listGET_OWNER_OF_NEXT_ENTRY (ReadyList p) (heap s)) (\<lambda>(t, h).
     Inr (s\<lparr>heap := h, pxCurrentTCB := t, uxTopReadyPriority := of_nat p\<rparr>)))"

text \<open>Method 2 of \<^verbatim>\<open>stack_macros.h\<close>: the saved stack pointer and the last four words.\<close>

definition stack_overflowed :: "kernel \<Rightarrow> bool" where
  "stack_overflowed s =
     (let t = tcb s (pxCurrentTCB s); st = pxStack t
      in pxTopOfStack t \<le> st \<or>
         load32 (memory s) st \<noteq> 0xa5a5a5a5 \<or> load32 (memory s) (st + 4) \<noteq> 0xa5a5a5a5 \<or>
         load32 (memory s) (st + 8) \<noteq> 0xa5a5a5a5 \<or> load32 (memory s) (st + 12) \<noteq> 0xa5a5a5a5)"

definition taskCHECK_FOR_STACK_OVERFLOW :: "kernel \<Rightarrow> kfault + kernel" where
  "taskCHECK_FOR_STACK_OVERFLOW s = (if stack_overflowed s then Inl StackOverflow else Inr s)"

definition vTaskSwitchContext :: "kernel \<Rightarrow> kfault + kernel" where
  "vTaskSwitchContext s =
     (if uxSchedulerSuspended s \<noteq> 0 then Inr (s\<lparr>xYieldPending := True\<rparr>)
      else
        let s1 = s\<lparr>xYieldPending := False\<rparr>
        in bindE (taskCHECK_FOR_STACK_OVERFLOW s1) (\<lambda>s2.
           bindE (taskSELECT_HIGHEST_PRIORITY_TASK s2) (\<lambda>s3.
           Inr (freertos_trace_task_switched_in s3))))"

text \<open>
  The trap entry stores the stack pointer of the interrupted context in its control block;
  \<open>saved_sp\<close> is that register, an input of the model.
\<close>

definition save_context :: "kernel \<Rightarrow> kernel" where
  "save_context s = s\<lparr>tcb := (tcb s)(pxCurrentTCB s := (tcb s (pxCurrentTCB s))\<lparr>pxTopOfStack := saved_sp s\<rparr>)\<rparr>"

definition portYIELD :: "kernel \<Rightarrow> kfault + kernel" where
  "portYIELD s = vTaskSwitchContext (save_context s)"

section \<open>Ticks\<close>

definition prvResetNextTaskUnblockTime :: "kernel \<Rightarrow> kfault + kernel" where
  "prvResetNextTaskUnblockTime s =
     listp (pxDelayedTaskList s) (\<lambda>d.
       if listLIST_IS_EMPTY d (heap s) then Inr (s\<lparr>xNextTaskUnblockTime := portMAX_DELAY\<rparr>)
       else bindE (listGET_ITEM_VALUE_OF_HEAD_ENTRY d (heap s)) (\<lambda>v.
            Inr (s\<lparr>xNextTaskUnblockTime := v\<rparr>)))"

definition taskSWITCH_DELAYED_LISTS :: "kernel \<Rightarrow> kfault + kernel" where
  "taskSWITCH_DELAYED_LISTS s =
     listp (pxDelayedTaskList s) (\<lambda>d.
       configASSERT 4765 (listLIST_IS_EMPTY d (heap s))
         (prvResetNextTaskUnblockTime
            (s\<lparr>pxDelayedTaskList := pxOverflowDelayedTaskList s, pxOverflowDelayedTaskList := Some d,
               xNumOfOverflows := xNumOfOverflows s + 1\<rparr>)))"

text \<open>One round of the loop of \<open>xTaskIncrementTick\<close>: unblock the task \<open>t\<close>.\<close>

definition unblock_task :: "u32 \<Rightarrow> kernel \<Rightarrow> kfault + kernel" where
  "unblock_task t s =
     bindE (on_heap (listREMOVE_ITEM (StateItem t)) s) (\<lambda>s1.
     bindE (if listLIST_ITEM_CONTAINER (EventItem t) (heap s1) \<noteq> None
            then on_heap (listREMOVE_ITEM (EventItem t)) s1 else Inr s1) (\<lambda>s2.
     prvAddTaskToReadyList t s2))"

partial_function (option) unblock_expired ::
  "u32 \<Rightarrow> bool \<Rightarrow> kernel \<Rightarrow> (kfault + (bool \<times> kernel)) option" where
  "unblock_expired now switch s =
     (case pxDelayedTaskList s of None \<Rightarrow> Some (Inl NullDeref)
      | Some d \<Rightarrow>
         if listLIST_IS_EMPTY d (heap s)
         then Some (Inr (switch, s\<lparr>xNextTaskUnblockTime := portMAX_DELAY\<rparr>))
         else case listGET_OWNER_OF_HEAD_ENTRY d (heap s) of Inl e \<Rightarrow> Some (Inl e)
           | Inr t \<Rightarrow>
               if now < listGET_LIST_ITEM_VALUE (StateItem t) (heap s)
               then Some (Inr (switch,
                      s\<lparr>xNextTaskUnblockTime := listGET_LIST_ITEM_VALUE (StateItem t) (heap s)\<rparr>))
               else case unblock_task t s of Inl e \<Rightarrow> Some (Inl e)
                 | Inr s' \<Rightarrow>
                     unblock_expired now
                       (switch \<or> uxPriority (tcb s' t) > uxPriority (tcb s' (pxCurrentTCB s'))) s')"

definition xTaskIncrementTick :: "kernel \<Rightarrow> kfault + (bool \<times> kernel)" where
  "xTaskIncrementTick s =
     (if uxSchedulerSuspended s = 0
      then
        let now = xTickCount s + 1; s1 = s\<lparr>xTickCount := now\<rparr>
        in bindE (if now = 0 then taskSWITCH_DELAYED_LISTS s1 else Inr s1) (\<lambda>s2.
           bindE (if now \<ge> xNextTaskUnblockTime s2
                  then loopE (unblock_expired now False s2) else Inr (False, s2)) (\<lambda>(switch, s3).
           let slice = listCURRENT_LIST_LENGTH
                         (ReadyList (unat (uxPriority (tcb s3 (pxCurrentTCB s3))))) (heap s3) > 1;
               s4 = (if xPendedTicks s3 = 0 then vApplicationTickHook s3 else s3)
           in Inr (switch \<or> slice \<or> xYieldPending s4, s4)))
      else Inr (False, vApplicationTickHook (s\<lparr>xPendedTicks := xPendedTicks s + 1\<rparr>)))"

section \<open>Suspending and resuming the scheduler\<close>

definition vTaskSuspendAll :: "kernel \<Rightarrow> kernel" where
  "vTaskSuspendAll s = s\<lparr>uxSchedulerSuspended := uxSchedulerSuspended s + 1\<rparr>"

text \<open>
  The loop over \<open>xPendingReadyList\<close>; \<open>last\<close> is the local \<open>pxTCB\<close>, NULL before the first round.
\<close>

partial_function (option) drain_pending :: "u32 \<Rightarrow> kernel \<Rightarrow> (kfault + (u32 \<times> kernel)) option" where
  "drain_pending last_tcb s =
     (if listLIST_IS_EMPTY PendingReadyList (heap s) then Some (Inr (last_tcb, s))
      else case listGET_OWNER_OF_HEAD_ENTRY PendingReadyList (heap s) of Inl e \<Rightarrow> Some (Inl e)
        | Inr t \<Rightarrow>
           case bindE (on_heap (listREMOVE_ITEM (EventItem t)) s) (\<lambda>s1.
                bindE (on_heap (listREMOVE_ITEM (StateItem t)) s1) (\<lambda>s2.
                prvAddTaskToReadyList t s2)) of
             Inl e \<Rightarrow> Some (Inl e)
           | Inr s3 \<Rightarrow>
               drain_pending t
                 (if uxPriority (tcb s3 t) > uxPriority (tcb s3 (pxCurrentTCB s3))
                  then s3\<lparr>xYieldPending := True\<rparr> else s3))"

text \<open>The loop that runs the ticks counted while the scheduler was suspended.\<close>

fun replay_ticks :: "nat \<Rightarrow> kernel \<Rightarrow> kfault + kernel" where
  "replay_ticks 0 s = Inr s"
| "replay_ticks (Suc n) s =
     bindE (xTaskIncrementTick s) (\<lambda>(switch, s1).
     replay_ticks n (if switch then s1\<lparr>xYieldPending := True\<rparr> else s1))"

definition resume_body :: "kernel \<Rightarrow> kfault + (bool \<times> kernel)" where
  "resume_body s =
     bindE (loopE (drain_pending 0 s)) (\<lambda>(t, s1).
     bindE (if t \<noteq> 0 then prvResetNextTaskUnblockTime s1 else Inr s1) (\<lambda>s2.
     bindE (if xPendedTicks s2 > 0
            then bindE (replay_ticks (unat (xPendedTicks s2)) s2) (\<lambda>s3. Inr (s3\<lparr>xPendedTicks := 0\<rparr>))
            else Inr s2) (\<lambda>s4.
     if xYieldPending s4 then bindE (portYIELD s4) (\<lambda>s5. Inr (True, s5)) else Inr (False, s4))))"

definition xTaskResumeAll :: "kernel \<Rightarrow> kfault + (bool \<times> kernel)" where
  "xTaskResumeAll s =
     (let c = this_context s; s1 = portENTER_CRITICAL c s
      in configASSERT 4044 (uxSchedulerSuspended s1 \<noteq> 0)
        (let s2 = s1\<lparr>uxSchedulerSuspended := uxSchedulerSuspended s1 - 1\<rparr>
         in bindE (if uxSchedulerSuspended s2 = 0 \<and> uxCurrentNumberOfTasks s2 > 0
                   then resume_body s2 else Inr (False, s2)) (\<lambda>(yielded, s3).
            Inr (yielded, portEXIT_CRITICAL c s3))))"

definition xTaskCatchUpTicks :: "u32 \<Rightarrow> kernel \<Rightarrow> kfault + (bool \<times> kernel)" where
  "xTaskCatchUpTicks n s =
     configASSERT 4620 (uxSchedulerSuspended s = 0)
       (let c = this_context s; s1 = vTaskSuspendAll s; s2 = portENTER_CRITICAL c s1;
            s3 = s2\<lparr>xPendedTicks := xPendedTicks s2 + n\<rparr>; s4 = portEXIT_CRITICAL c s3
        in xTaskResumeAll s4)"

section \<open>Delays\<close>

text \<open>
  \<open>portRESET_READY_PRIORITY\<close> is defined away, and with \<open>INCLUDE_vTaskSuspend = 0\<close> the flag
  \<open>xCanBlockIndefinitely\<close> is not used.
\<close>

definition prvAddCurrentTaskToDelayedList :: "u32 \<Rightarrow> bool \<Rightarrow> kernel \<Rightarrow> kfault + kernel" where
  "prvAddCurrentTaskToDelayedList xTicksToWait xCanBlockIndefinitely s =
     (let now = xTickCount s; cur = pxCurrentTCB s
      in bindE (uxListRemove (StateItem cur) (heap s)) (\<lambda>(_, h1).
         let xTimeToWake = now + xTicksToWait;
             s1 = s\<lparr>heap := listSET_LIST_ITEM_VALUE (StateItem cur) xTimeToWake h1\<rparr>
         in if xTimeToWake < now
            then listp (pxOverflowDelayedTaskList s1) (\<lambda>l. on_heap (vListInsert l (StateItem cur)) s1)
            else bindE (listp (pxDelayedTaskList s1) (\<lambda>l. on_heap (vListInsert l (StateItem cur)) s1)) (\<lambda>s2.
                 Inr (if xTimeToWake < xNextTaskUnblockTime s2
                      then s2\<lparr>xNextTaskUnblockTime := xTimeToWake\<rparr> else s2))))"

definition vTaskDelay :: "u32 \<Rightarrow> kernel \<Rightarrow> kfault + kernel" where
  "vTaskDelay xTicksToDelay s =
     bindE (if xTicksToDelay > 0
            then let s1 = vTaskSuspendAll s
                 in configASSERT 2480 (uxSchedulerSuspended s1 = 1)
                   (bindE (prvAddCurrentTaskToDelayedList xTicksToDelay False s1) xTaskResumeAll)
            else Inr (False, s)) (\<lambda>(yielded, s2).
     if \<not> yielded then portYIELD s2 else Inr s2)"

text \<open>
  \<open>prev\<close> is \<^verbatim>\<open>*pxPreviousWakeTime\<close>, \<open>None\<close> for a NULL pointer; the result is the returned
  flag, the new \<^verbatim>\<open>*pxPreviousWakeTime\<close> and the state.
\<close>

definition should_delay :: "u32 \<Rightarrow> u32 \<Rightarrow> u32 \<Rightarrow> bool" where
  "should_delay prev wake now =
     (if now < prev then wake < prev \<and> wake > now else wake < prev \<or> wake > now)"

definition xTaskDelayUntil :: "u32 option \<Rightarrow> u32 \<Rightarrow> kernel \<Rightarrow> kfault + (bool \<times> u32 \<times> kernel)" where
  "xTaskDelayUntil pxPreviousWakeTime xTimeIncrement s =
     (case pxPreviousWakeTime of None \<Rightarrow> Inl (AssertFail 2385)
      | Some prev \<Rightarrow>
         configASSERT 2386 (xTimeIncrement > 0)
           (let s1 = vTaskSuspendAll s; now = xTickCount s1
            in configASSERT 2394 (uxSchedulerSuspended s1 = 1)
              (let wake = prev + xTimeIncrement; delay = should_delay prev wake now
               in bindE (if delay then prvAddCurrentTaskToDelayedList (wake - now) False s1 else Inr s1) (\<lambda>s2.
                  bindE (xTaskResumeAll s2) (\<lambda>(yielded, s3).
                  bindE (if \<not> yielded then portYIELD s3 else Inr s3) (\<lambda>s4.
                  Inr (delay, wake, s4)))))))"

end
