(* ===== verification/Kernel_Create.thy ===== *)
theory Kernel_Create
  imports Kernel_Tasks
begin

text \<open>
  The rest of \<^verbatim>\<open>tasks.c\<close>: the creation of tasks, the queries, event lists and time-outs. A
  new control block is cleared byte by byte in C; its list items are cells of the list store
  here, so clearing it clears those cells. The initial stack frame is the one
  \<^verbatim>\<open>pxPortInitialiseStack\<close> of \<^verbatim>\<open>portASM.S\<close> writes.
\<close>

section \<open>Creating a task\<close>

definition zero_tcb :: tcb_t where
  "zero_tcb = \<lparr>pxTopOfStack = 0, uxPriority = 0, pxStack = 0,
     pcTaskName = replicate configMAX_TASK_NAME_LEN 0\<rparr>"

definition clear_item :: "item_id \<Rightarrow> (list_id, item_id, u32) list_store \<Rightarrow> (list_id, item_id, u32) list_store" where
  "clear_item i h =
     h\<lparr>xItemValue := (xItemValue h)(LItem i := 0), pxNext := (pxNext h)(LItem i := Null),
       pxPrevious := (pxPrevious h)(LItem i := Null), pvOwner := (pvOwner h)(i := 0),
       pxContainer := (pxContainer h)(i := None)\<rparr>"

definition clear_tcb :: "u32 \<Rightarrow> kernel \<Rightarrow> kernel" where
  "clear_tcb t s =
     s\<lparr>tcb := (tcb s)(t := zero_tcb), heap := clear_item (EventItem t) (clear_item (StateItem t) (heap s))\<rparr>"

text \<open>
  The loop that copies the name: up to twelve characters, stopping after a NUL. A name is
  the sequence of its bytes; \<open>None\<close> is a NULL pointer.
\<close>

fun copy_name :: "nat \<Rightarrow> nat \<Rightarrow> (nat \<Rightarrow> u8) \<Rightarrow> u8 list \<Rightarrow> u8 list" where
  "copy_name x 0 name buf = buf"
| "copy_name x (Suc n) name buf =
     (let buf' = buf[x := name x] in if name x = 0 then buf' else copy_name (Suc x) n name buf')"

text \<open>
  \<^verbatim>\<open>portASM.S\<close>: the frame is 31 words. Word 30 is the critical nesting count, word 8 the
  argument register \<open>a0\<close>, word 2 the return address, word 1 \<open>mstatus\<close> and word 0 the start
  address; the other words keep what the stack held.
\<close>

definition xTaskReturnAddress :: u32 where "xTaskReturnAddress = 0"

definition pxPortInitialiseStack :: "u32 \<Rightarrow> u32 \<Rightarrow> u32 \<Rightarrow> u32 \<Rightarrow> mem \<Rightarrow> u32 \<times> mem" where
  "pxPortInitialiseStack mstatus pxTop pxCode pvParameters m =
     (let a = pxTop - 4; m1 = store32 a 0 m;
          a = a - 22 * 4; m2 = store32 a pvParameters m1;
          a = a - 6 * 4; m3 = store32 a xTaskReturnAddress m2;
          a = a - 4; m4 = store32 a ((mstatus AND NOT 8) OR 0x1880) m3;
          a = a - 4; m5 = store32 a pxCode m4
      in (a, m5))"

definition prvInitialiseNewTask ::
  "u32 \<Rightarrow> (nat \<Rightarrow> u8) option \<Rightarrow> u32 \<Rightarrow> u32 \<Rightarrow> u32 \<Rightarrow> u32 \<Rightarrow> kernel \<Rightarrow> kfault + kernel" where
  "prvInitialiseNewTask pxTaskCode pcName uxStackDepth pvParameters prio t s =
     (let base = pxStack (tcb s t);
          s1 = s\<lparr>memory := snd (memset base tskSTACK_FILL_BYTE (uxStackDepth * 4) (memory s))\<rparr>;
          pxTop = (base + 4 * (uxStackDepth - 1)) AND NOT 15
      in configASSERT 1861 (pxTop AND 15 = 0)
        (let name = (case pcName of None \<Rightarrow> pcTaskName (tcb s1 t)
               | Some nm \<Rightarrow> (copy_name 0 configMAX_TASK_NAME_LEN nm (pcTaskName (tcb s1 t)))
                            [configMAX_TASK_NAME_LEN - 1 := 0])
         in configASSERT 1915 (prio < configMAX_PRIORITIES)
           (let p = (if prio \<ge> configMAX_PRIORITIES then configMAX_PRIORITIES - 1 else prio);
                h1 = vListInitialiseItem (StateItem t) (heap s1);
                h2 = vListInitialiseItem (EventItem t) h1;
                h3 = listSET_LIST_ITEM_OWNER (StateItem t) t h2;
                h4 = listSET_LIST_ITEM_VALUE (EventItem t) (configMAX_PRIORITIES - p) h3;
                h5 = listSET_LIST_ITEM_OWNER (EventItem t) t h4;
                (sp, m) = pxPortInitialiseStack (csr_mstatus s1) pxTop pxTaskCode pvParameters (memory s1);
                s2 = s1\<lparr>heap := h5, memory := m,
                        tcb := (tcb s1)(t := (tcb s1 t)\<lparr>pcTaskName := name, uxPriority := p, pxTopOfStack := sp\<rparr>)\<rparr>
            in configASSERT 2014 (signed_drop_bit 2 (pxTop - sp) < uxStackDepth) (Inr s2))))"

definition prvCreateStaticTask ::
  "u32 \<Rightarrow> (nat \<Rightarrow> u8) option \<Rightarrow> u32 \<Rightarrow> u32 \<Rightarrow> u32 \<Rightarrow> u32 \<Rightarrow> u32 \<Rightarrow> kernel \<Rightarrow> kfault + (u32 \<times> kernel)" where
  "prvCreateStaticTask pxTaskCode pcName uxStackDepth pvParameters prio puxStackBuffer pxTaskBuffer s =
     configASSERT 1288 (puxStackBuffer \<noteq> 0)
       (configASSERT 1289 (pxTaskBuffer \<noteq> 0)
         (if pxTaskBuffer \<noteq> 0 \<and> puxStackBuffer \<noteq> 0
          then let t = pxTaskBuffer; s1 = clear_tcb t s;
                   s2 = s1\<lparr>tcb := (tcb s1)(t := (tcb s1 t)\<lparr>pxStack := puxStackBuffer\<rparr>)\<rparr>
               in bindE (prvInitialiseNewTask pxTaskCode pcName uxStackDepth pvParameters prio t s2)
                    (\<lambda>s3. Inr (t, s3))
          else Inr (0, s)))"

definition taskYIELD_ANY_CORE_IF_USING_PREEMPTION :: "u32 \<Rightarrow> kernel \<Rightarrow> kfault + kernel" where
  "taskYIELD_ANY_CORE_IF_USING_PREEMPTION t s =
     (if uxPriority (tcb s (pxCurrentTCB s)) < uxPriority (tcb s t) then portYIELD s else Inr s)"

definition prvAddNewTaskToReadyList :: "u32 \<Rightarrow> kernel \<Rightarrow> kfault + kernel" where
  "prvAddNewTaskToReadyList t s =
     (let c = this_context s;
          s1 = portENTER_CRITICAL c s;
          s2 = s1\<lparr>uxCurrentNumberOfTasks := uxCurrentNumberOfTasks s1 + 1\<rparr>;
          s3 = (if pxCurrentTCB s2 = 0
                then let s' = s2\<lparr>pxCurrentTCB := t\<rparr>
                     in if uxCurrentNumberOfTasks s' = 1 then prvInitialiseTaskLists s' else s'
                else if \<not> xSchedulerRunning s2
                     then if uxPriority (tcb s2 (pxCurrentTCB s2)) \<le> uxPriority (tcb s2 t)
                          then s2\<lparr>pxCurrentTCB := t\<rparr> else s2
                     else s2);
          s4 = s3\<lparr>uxTaskNumber := uxTaskNumber s3 + 1\<rparr>
      in bindE (prvAddTaskToReadyList t s4) (\<lambda>s5.
         let s6 = portEXIT_CRITICAL c s5
         in if xSchedulerRunning s6 then taskYIELD_ANY_CORE_IF_USING_PREEMPTION t s6 else Inr s6))"

definition xTaskCreateStatic ::
  "u32 \<Rightarrow> (nat \<Rightarrow> u8) option \<Rightarrow> u32 \<Rightarrow> u32 \<Rightarrow> u32 \<Rightarrow> u32 \<Rightarrow> u32 \<Rightarrow> kernel \<Rightarrow> kfault + (u32 \<times> kernel)" where
  "xTaskCreateStatic pxTaskCode pcName uxStackDepth pvParameters prio puxStackBuffer pxTaskBuffer s =
     bindE (prvCreateStaticTask pxTaskCode pcName uxStackDepth pvParameters prio puxStackBuffer pxTaskBuffer s)
       (\<lambda>(t, s1). if t \<noteq> 0 then bindE (prvAddNewTaskToReadyList t s1) (\<lambda>s2. Inr (t, s2)) else Inr (t, s1))"

section \<open>The idle task\<close>

text \<open>
  \<open>idle_code\<close>, \<open>idle_tcb\<close> and \<open>idle_stack\<close> are the link-time addresses of \<^verbatim>\<open>prvIdleTask\<close>
  and of the static buffers of \<^verbatim>\<open>vApplicationGetIdleTaskMemory\<close>.
\<close>

record idle_layout =
  idle_code :: u32
  idle_tcb :: u32
  idle_stack :: u32

definition configMINIMAL_STACK_SIZE :: u32 where "configMINIMAL_STACK_SIZE = 128"

definition vApplicationGetIdleTaskMemory :: "idle_layout \<Rightarrow> u32 \<times> u32 \<times> u32" where
  "vApplicationGetIdleTaskMemory L = (idle_tcb L, idle_stack L, configMINIMAL_STACK_SIZE)"

text \<open>"IDLE", as the bytes of the C string literal.\<close>

definition configIDLE_TASK_NAME :: "nat \<Rightarrow> u8" where
  "configIDLE_TASK_NAME x = (if x < 4 then [0x49, 0x44, 0x4C, 0x45] ! x else 0)"

text \<open>
  The copy into the local \<^verbatim>\<open>cIdleName\<close>, which leaves \<open>x\<close> at the NUL or at the last place.
\<close>

fun idle_name_loop :: "nat \<Rightarrow> nat \<Rightarrow> u8 list \<Rightarrow> nat \<times> u8 list" where
  "idle_name_loop x 0 buf = (x, buf)"
| "idle_name_loop x (Suc n) buf =
     (let buf' = buf[x := configIDLE_TASK_NAME x]
      in if configIDLE_TASK_NAME x = 0 then (x, buf') else idle_name_loop (Suc x) n buf')"

definition cIdleName :: "u8 list" where
  "cIdleName =
     (let (x, buf) = idle_name_loop 0 (configMAX_TASK_NAME_LEN - 1) (replicate configMAX_TASK_NAME_LEN 0)
      in buf[x := 0])"

definition prvCreateIdleTasks :: "idle_layout \<Rightarrow> kernel \<Rightarrow> kfault + (bool \<times> kernel)" where
  "prvCreateIdleTasks L s =
     (let (tcb_buffer, stack_buffer, depth) = vApplicationGetIdleTaskMemory L
      in bindE (xTaskCreateStatic (idle_code L) (Some (\<lambda>x. cIdleName ! x)) depth 0 0 stack_buffer tcb_buffer s)
           (\<lambda>(t, s1). Inr (t \<noteq> 0, s1\<lparr>xIdleTaskHandle := t\<rparr>)))"

text \<open>
  \<^verbatim>\<open>vTaskStartScheduler\<close> up to its call of \<^verbatim>\<open>xPortStartScheduler\<close>, which the theory of
  the port adds; the flag says that the scheduler was started. \<^verbatim>\<open>xPortStartFirstTask\<close> of
  \<^verbatim>\<open>portASM.S\<close> restores the context of the first task: its critical nesting count from
  word 30 of the frame, and \<open>mstatus\<close> from word 1, with the interrupt enable bit added in.
\<close>

definition start_kernel :: "idle_layout \<Rightarrow> kernel \<Rightarrow> kfault + (bool \<times> kernel)" where
  "start_kernel L s =
     bindE (prvCreateIdleTasks L s) (\<lambda>(pass, s1).
       if pass
       then let s2 = portDISABLE_INTERRUPTS (this_context s1) s1;
                s3 = s2\<lparr>xNextTaskUnblockTime := portMAX_DELAY, xSchedulerRunning := True, xTickCount := 0\<rparr>
            in Inr (True, freertos_trace_task_switched_in s3)
       else Inr (False, s1))"

definition xPortStartFirstTask :: "kernel \<Rightarrow> kernel" where
  "xPortStartFirstTask s =
     (let t = pxCurrentTCB s; sp = pxTopOfStack (tcb s t)
      in s\<lparr>xCriticalNesting := (xCriticalNesting s)(t := load32 (memory s) (sp + 30 * 4)),
           irq_enabled := (irq_enabled s)(t := bit (load32 (memory s) (sp + 4) + 8) 3)\<rparr>)"

definition vTaskEndScheduler :: "kernel \<Rightarrow> kernel" where
  "vTaskEndScheduler s = (portDISABLE_INTERRUPTS (this_context s) s)\<lparr>xSchedulerRunning := False\<rparr>"

text \<open>One round of the endless loop of \<^verbatim>\<open>prvIdleTask\<close>: yield when another task has priority 0.\<close>

definition prvCheckTasksWaitingTermination :: "kernel \<Rightarrow> kernel" where
  "prvCheckTasksWaitingTermination s = s"

definition prvIdleTask_round :: "kernel \<Rightarrow> kfault + kernel" where
  "prvIdleTask_round s =
     (let s1 = prvCheckTasksWaitingTermination s
      in if listCURRENT_LIST_LENGTH (ReadyList 0) (heap s1) > 1 then portYIELD s1 else Inr s1)"

section \<open>Queries\<close>

definition xTaskGetTickCount :: "kernel \<Rightarrow> u32" where "xTaskGetTickCount s = xTickCount s"
definition xTaskGetTickCountFromISR :: "kernel \<Rightarrow> u32" where "xTaskGetTickCountFromISR s = xTickCount s"
definition uxTaskGetNumberOfTasks :: "kernel \<Rightarrow> u32" where
  "uxTaskGetNumberOfTasks s = uxCurrentNumberOfTasks s"

definition prvGetTCBFromHandle :: "u32 \<Rightarrow> kernel \<Rightarrow> u32" where
  "prvGetTCBFromHandle xHandle s = (if xHandle = 0 then pxCurrentTCB s else xHandle)"

definition pcTaskGetName :: "u32 \<Rightarrow> kernel \<Rightarrow> kfault + u8 list" where
  "pcTaskGetName xTaskToQuery s =
     (let t = prvGetTCBFromHandle xTaskToQuery s in configASSERT 4246 (t \<noteq> 0) (Inr (pcTaskName (tcb s t))))"

definition xTaskGetStaticBuffers :: "u32 \<Rightarrow> bool \<Rightarrow> bool \<Rightarrow> kernel \<Rightarrow> kfault + (u32 \<times> u32)" where
  "xTaskGetStaticBuffers xTask stack_out_given task_out_given s =
     configASSERT 4405 stack_out_given (configASSERT 4406 task_out_given
       (let t = prvGetTCBFromHandle xTask s in configASSERT 4409 (t \<noteq> 0) (Inr (pxStack (tcb s t), t))))"

section \<open>Event lists\<close>

definition taskEVENT_LIST_ITEM_VALUE_IN_USE :: u32 where
  "taskEVENT_LIST_ITEM_VALUE_IN_USE = 0x80000000"

definition vTaskPlaceOnEventList :: "list_id option \<Rightarrow> u32 \<Rightarrow> kernel \<Rightarrow> kfault + kernel" where
  "vTaskPlaceOnEventList pxEventList xTicksToWait s =
     configASSERT 5312 (pxEventList \<noteq> None)
       (listp pxEventList (\<lambda>l.
         bindE (on_heap (vListInsert l (EventItem (pxCurrentTCB s))) s) (prvAddCurrentTaskToDelayedList xTicksToWait True)))"

definition vTaskPlaceOnUnorderedEventList :: "list_id option \<Rightarrow> u32 \<Rightarrow> u32 \<Rightarrow> kernel \<Rightarrow> kfault + kernel" where
  "vTaskPlaceOnUnorderedEventList pxEventList item_value xTicksToWait s =
     configASSERT 5342 (pxEventList \<noteq> None) (configASSERT 5346 (uxSchedulerSuspended s \<noteq> 0)
       (listp pxEventList (\<lambda>l.
         let s1 = s\<lparr>heap := listSET_LIST_ITEM_VALUE (EventItem (pxCurrentTCB s))
                              (item_value OR taskEVENT_LIST_ITEM_VALUE_IN_USE) (heap s)\<rparr>
         in bindE (on_heap (listINSERT_END l (EventItem (pxCurrentTCB s1))) s1)
              (prvAddCurrentTaskToDelayedList xTicksToWait True))))"

definition xTaskRemoveFromEventList :: "list_id \<Rightarrow> kernel \<Rightarrow> kfault + (bool \<times> kernel)" where
  "xTaskRemoveFromEventList l s =
     bindE (listGET_OWNER_OF_HEAD_ENTRY l (heap s)) (\<lambda>t.
     configASSERT 5429 (t \<noteq> 0)
       (bindE (on_heap (listREMOVE_ITEM (EventItem t)) s) (\<lambda>s1.
        bindE (if uxSchedulerSuspended s1 = 0
               then bindE (on_heap (listREMOVE_ITEM (StateItem t)) s1) (prvAddTaskToReadyList t)
               else on_heap (listINSERT_END PendingReadyList (EventItem t)) s1) (\<lambda>s2.
        Inr (if uxPriority (tcb s2 t) > uxPriority (tcb s2 (pxCurrentTCB s2))
             then (True, s2\<lparr>xYieldPending := True\<rparr>) else (False, s2))))))"

definition vTaskRemoveFromUnorderedEventList :: "item_id \<Rightarrow> u32 \<Rightarrow> kernel \<Rightarrow> kfault + kernel" where
  "vTaskRemoveFromUnorderedEventList pxEventListItem item_value s =
     configASSERT 5507 (uxSchedulerSuspended s \<noteq> 0)
       (let s1 = s\<lparr>heap := listSET_LIST_ITEM_VALUE pxEventListItem
                             (item_value OR taskEVENT_LIST_ITEM_VALUE_IN_USE) (heap s)\<rparr>
        in bindE (listGET_LIST_ITEM_OWNER (LItem pxEventListItem) (heap s1)) (\<lambda>t.
           configASSERT 5518 (t \<noteq> 0)
             (bindE (on_heap (listREMOVE_ITEM pxEventListItem) s1) (\<lambda>s2.
              bindE (on_heap (listREMOVE_ITEM (StateItem t)) s2) (\<lambda>s3.
              bindE (prvAddTaskToReadyList t s3) (\<lambda>s4.
              Inr (if uxPriority (tcb s4 t) > uxPriority (tcb s4 (pxCurrentTCB s4))
                   then s4\<lparr>xYieldPending := True\<rparr> else s4)))))))"

definition uxTaskResetEventItemValue :: "kernel \<Rightarrow> u32 \<times> kernel" where
  "uxTaskResetEventItemValue s =
     (let i = EventItem (pxCurrentTCB s)
      in (listGET_LIST_ITEM_VALUE i (heap s),
          s\<lparr>heap := listSET_LIST_ITEM_VALUE i
                      (configMAX_PRIORITIES - uxPriority (tcb s (pxCurrentTCB s))) (heap s)\<rparr>))"

definition vTaskMissedYield :: "kernel \<Rightarrow> kernel" where
  "vTaskMissedYield s = s\<lparr>xYieldPending := True\<rparr>"

section \<open>Time-outs\<close>

record TimeOut_t =
  xOverflowCount :: u32
  xTimeOnEntering :: u32

definition vTaskInternalSetTimeOutState :: "kernel \<Rightarrow> TimeOut_t" where
  "vTaskInternalSetTimeOutState s = \<lparr>xOverflowCount = xNumOfOverflows s, xTimeOnEntering = xTickCount s\<rparr>"

text \<open>A pointer argument is \<open>None\<close> when it is NULL; the result holds what it points to.\<close>

definition vTaskSetTimeOutState :: "TimeOut_t option \<Rightarrow> kernel \<Rightarrow> kfault + (TimeOut_t \<times> kernel)" where
  "vTaskSetTimeOutState pxTimeOut s =
     configASSERT 5574 (pxTimeOut \<noteq> None)
       (let c = this_context s; s1 = portENTER_CRITICAL c s
        in Inr (\<lparr>xOverflowCount = xNumOfOverflows s1, xTimeOnEntering = xTickCount s1\<rparr>, portEXIT_CRITICAL c s1))"

definition xTaskCheckForTimeOut ::
  "TimeOut_t option \<Rightarrow> u32 option \<Rightarrow> kernel \<Rightarrow> kfault + (bool \<times> TimeOut_t \<times> u32 \<times> kernel)" where
  "xTaskCheckForTimeOut pxTimeOut pxTicksToWait s =
     (case pxTimeOut of None \<Rightarrow> Inl (AssertFail 5605)
      | Some tmo \<Rightarrow> (case pxTicksToWait of None \<Rightarrow> Inl (AssertFail 5606)
          | Some wait \<Rightarrow>
             let c = this_context s; s1 = portENTER_CRITICAL c s;
                 now = xTickCount s1; elapsed = now - xTimeOnEntering tmo;
                 (r, tmo', wait') =
                   (if xNumOfOverflows s1 \<noteq> xOverflowCount tmo \<and> now \<ge> xTimeOnEntering tmo then (True, tmo, 0)
                    else if elapsed < wait then (False, vTaskInternalSetTimeOutState s1, wait - elapsed)
                    else (True, tmo, 0))
             in Inr (r, tmo', wait', portEXIT_CRITICAL c s1)))"

section \<open>Reset\<close>

definition vTaskResetState :: "kernel \<Rightarrow> kernel" where
  "vTaskResetState s =
     s\<lparr>pxCurrentTCB := 0, uxCurrentNumberOfTasks := 0, xTickCount := 0, uxTopReadyPriority := 0,
       xSchedulerRunning := False, xPendedTicks := 0, xYieldPending := False, xNumOfOverflows := 0,
       uxTaskNumber := 0, xNextTaskUnblockTime := 0, uxSchedulerSuspended := 0\<rparr>"

end
