(* ===== verification/Kernel_Inv.thy ===== *)
theory Kernel_Inv
  imports Kernel_Create
begin

text \<open>
  The invariant of the scheduler and the effect of the kernel's list operations on it. The
  invariant speaks of where each list item is (\<open>home\<close>, the \<^verbatim>\<open>pxContainer\<close> field), of
  the sort keys of the delayed lists, and of the static variables that summarise the lists:
  \<open>uxTopReadyPriority\<close>, \<open>xNextTaskUnblockTime\<close> and \<open>uxCurrentNumberOfTasks\<close>. The set \<open>E\<close>
  holds the event lists that other parts of a program initialised.
\<close>

section \<open>The invariant\<close>

abbreviation home :: "kernel \<Rightarrow> item_id \<Rightarrow> list_id option" where
  "home s \<equiv> pxContainer (heap s)"

abbreviation wake :: "kernel \<Rightarrow> u32 \<Rightarrow> u32" where
  "wake s t \<equiv> xItemValue (heap s) (LItem (StateItem t))"

abbreviation prio :: "kernel \<Rightarrow> u32 \<Rightarrow> nat" where
  "prio s t \<equiv> unat (uxPriority (tcb s t))"

definition klists :: "nat set \<Rightarrow> list_id set" where
  "klists E = ReadyList ` {..<4} \<union> {DelayedList1, DelayedList2, PendingReadyList} \<union> EventList ` E"

definition lists_ok :: "nat set \<Rightarrow> (list_id \<Rightarrow> item_id list) \<Rightarrow> (list_id, item_id, u32) list_store \<Rightarrow> bool" where
  "lists_ok E Q h \<longleftrightarrow> kl.reps (klists E) h Q \<and>
     sorted (map (val_of h) (Q DelayedList1)) \<and> sorted (map (val_of h) (Q DelayedList2))"

definition task_ok :: "kernel \<Rightarrow> u32 \<Rightarrow> bool" where
  "task_ok s t \<longleftrightarrow> t \<noteq> 0 \<and> prio s t < 4 \<and>
     pvOwner (heap s) (StateItem t) = t \<and> pvOwner (heap s) (EventItem t) = t"

fun item_ok :: "kernel \<Rightarrow> list_id \<Rightarrow> item_id \<Rightarrow> bool" where
  "item_ok s l (StateItem t) \<longleftrightarrow> task_ok s t \<and> l \<in> {ReadyList (prio s t), DelayedList1, DelayedList2}"
| "item_ok s l (EventItem t) \<longleftrightarrow> task_ok s t \<and> l \<in> insert PendingReadyList (range EventList)"

definition homes_ok :: "nat set \<Rightarrow> kernel \<Rightarrow> bool" where
  "homes_ok E s \<longleftrightarrow> (\<forall>i l. home s i = Some l \<longrightarrow> l \<in> klists E \<and> item_ok s l i)"

definition tops_ok :: "kernel \<Rightarrow> bool" where
  "tops_ok s \<longleftrightarrow> unat (uxTopReadyPriority s) < 4 \<and>
     (\<forall>t p. home s (StateItem t) = Some (ReadyList p) \<longrightarrow> p \<le> unat (uxTopReadyPriority s))"

definition delayed_ok :: "kernel \<Rightarrow> bool" where
  "delayed_ok s \<longleftrightarrow> (pxDelayedTaskList s, pxOverflowDelayedTaskList s) \<in>
     {(Some DelayedList1, Some DelayedList2), (Some DelayedList2, Some DelayedList1)}"

text \<open>
  A wake time in the current delayed list is ahead of the tick count, one in the overflow
  list is behind it, that is, ahead by way of the wrap-around.
\<close>

definition timely :: "kernel \<Rightarrow> bool" where
  "timely s \<longleftrightarrow> (\<forall>t.
     (home s (StateItem t) = pxDelayedTaskList s \<longrightarrow> xTickCount s < wake s t \<and> xNextTaskUnblockTime s \<le> wake s t) \<and>
     (home s (StateItem t) = pxOverflowDelayedTaskList s \<longrightarrow> wake s t < xTickCount s))"

definition blocked :: "kernel \<Rightarrow> u32 \<Rightarrow> bool" where
  "blocked s t \<longleftrightarrow> home s (StateItem t) \<in> {Some DelayedList1, Some DelayedList2}"

definition events_ok :: "kernel \<Rightarrow> bool" where
  "events_ok s \<longleftrightarrow> (\<forall>t. home s (EventItem t) \<noteq> None \<longrightarrow> blocked s t)"

definition pending_ok :: "kernel \<Rightarrow> bool" where
  "pending_ok s \<longleftrightarrow> (\<forall>t. home s (EventItem t) \<noteq> Some PendingReadyList)"

definition idle_ok :: "kernel \<Rightarrow> bool" where
  "idle_ok s \<longleftrightarrow> home s (StateItem (xIdleTaskHandle s)) = Some (ReadyList 0)"

definition known :: "kernel \<Rightarrow> u32 set" where
  "known s = {t. home s (StateItem t) \<noteq> None}"

definition count_ok :: "kernel \<Rightarrow> bool" where
  "count_ok s \<longleftrightarrow> uxCurrentNumberOfTasks s = of_nat (card (known s))"

definition kernel_core :: "nat set \<Rightarrow> kernel \<Rightarrow> bool" where
  "kernel_core E s \<longleftrightarrow> (\<exists>Q. lists_ok E Q (heap s)) \<and> homes_ok E s \<and> tops_ok s \<and> delayed_ok s \<and>
     timely s \<and> events_ok s \<and> count_ok s"

definition kernel_ok :: "nat set \<Rightarrow> kernel \<Rightarrow> bool" where
  "kernel_ok E s \<longleftrightarrow> kernel_core E s \<and> idle_ok s \<and> (uxSchedulerSuspended s = 0 \<longrightarrow> pending_ok s \<and> xPendedTicks s = 0)"

lemmas inv_defs = homes_ok_def tops_ok_def delayed_ok_def timely_def events_ok_def count_ok_def known_def

section \<open>The abstract state of a task\<close>

text \<open>
  What the scheduler promises its clients: a task is ready at its priority, blocked for a
  number of ticks, or not a task of the scheduler. \<open>abs\<close> reads this off the lists.
\<close>

datatype task_state = Ready nat | Blocked nat | Absent

definition abs_state :: "kernel \<Rightarrow> u32 \<Rightarrow> task_state" where
  "abs_state s t = (case home s (StateItem t) of
      Some (ReadyList p) \<Rightarrow> Ready p
    | Some DelayedList1 \<Rightarrow> Blocked (unat (wake s t - xTickCount s))
    | Some DelayedList2 \<Rightarrow> Blocked (unat (wake s t - xTickCount s))
    | _ \<Rightarrow> Absent)"

text \<open>One tick: a task blocked for one more tick becomes ready, the others wait one less.\<close>

definition tick_spec :: "(u32 \<Rightarrow> nat) \<Rightarrow> (u32 \<Rightarrow> task_state) \<Rightarrow> u32 \<Rightarrow> task_state" where
  "tick_spec pr A t = (case A t of Blocked n \<Rightarrow> if n = 1 then Ready (pr t) else Blocked (n - 1) | a \<Rightarrow> a)"

section \<open>Basic facts\<close>

lemma klists_simps [simp]:
  "ReadyList p \<in> klists E \<longleftrightarrow> p < 4" "DelayedList1 \<in> klists E" "DelayedList2 \<in> klists E"
  "PendingReadyList \<in> klists E" "EventList n \<in> klists E \<longleftrightarrow> n \<in> E"
  by (auto simp: klists_def)

lemma room:
  assumes "distinct xs" "\<forall>i \<in> set xs. \<exists>t. i = f t \<and> t \<noteq> (0 :: u32)" "f t \<notin> set xs" "t \<noteq> 0"
  shows "Suc (length xs) < 2 ^ 32"
proof -
  have "set (f t # xs) \<subseteq> f ` (UNIV - {0})" using assms(2,4) by auto
  then have "card (set (f t # xs)) \<le> card (f ` (UNIV - {0 :: u32}))"
    by (intro card_mono) simp_all
  also have "\<dots> \<le> card (UNIV - {0 :: u32})" by (rule card_image_le) simp
  also have "\<dots> = 2 ^ 32 - 1" by (simp add: card_Diff_singleton card_word)
  finally show ?thesis using assms(1,3) by (simp add: distinct_card)
qed

lemma lists_ok_ring: "lists_ok E Q h \<Longrightarrow> l \<in> klists E \<Longrightarrow> ring h l (Q l)"
  by (simp add: lists_ok_def kl.reps_def)

lemma lists_ok_home: "lists_ok E Q h \<Longrightarrow> l \<in> klists E \<Longrightarrow> pxContainer h i = Some l \<longleftrightarrow> i \<in> set (Q l)"
  using ring_container lists_ok_ring by metis

lemma lists_ok_distinct: "lists_ok E Q h \<Longrightarrow> l \<in> klists E \<Longrightarrow> distinct (Q l)"
  using ring_distinct lists_ok_ring by metis

lemma lists_ok_room:
  assumes Q: "lists_ok E Q (heap s)" and h: "homes_ok E s" and l: "l \<in> klists E"
    and i: "i \<notin> set (Q l)" and ok: "item_ok s l i"
  shows "Suc (length (Q l)) < 2 ^ 32"
proof (cases i)
  case (StateItem t)
  have "\<exists>u. j = StateItem u \<and> u \<noteq> 0" if "j \<in> set (Q l)" for j
  proof -
    have "item_ok s l j" using h lists_ok_home [OF Q l] that by (auto simp: homes_ok_def)
    then show ?thesis using ok StateItem by (cases j) (auto simp: task_ok_def)
  qed
  then show ?thesis
    using room [of "Q l" StateItem t] lists_ok_distinct [OF Q l] i ok StateItem by (auto simp: task_ok_def)
next
  case (EventItem t)
  have "\<exists>u. j = EventItem u \<and> u \<noteq> 0" if "j \<in> set (Q l)" for j
  proof -
    have "item_ok s l j" using h lists_ok_home [OF Q l] that by (auto simp: homes_ok_def)
    then show ?thesis using ok EventItem by (cases j) (auto simp: task_ok_def)
  qed
  then show ?thesis
    using room [of "Q l" EventItem t] lists_ok_distinct [OF Q l] i ok EventItem by (auto simp: task_ok_def)
qed

section \<open>List operations under the invariant\<close>

lemma remove_item:
  assumes Q: "lists_ok E Q h" and l: "l \<in> klists E" and i: "pxContainer h i = Some l"
  shows "\<exists>h'. uxListRemove i h = Inr (of_nat (length (Q l) - 1), h') \<and> listREMOVE_ITEM i h = Inr h' \<and>
    lists_ok E (Q(l := remove1 i (Q l))) h' \<and>
    val_of h' = val_of h \<and> pvOwner h' = pvOwner h \<and> pxContainer h' = (pxContainer h)(i := None)"
proof -
  have r: "kl.reps (klists E) h Q" using Q by (simp add: lists_ok_def)
  from kl.reps_take_out [OF r l i] obtain h' where h':
    "uxListRemove i h = Inr (of_nat (length (Q l) - 1), h')"
    "kl.reps (klists E) h' (Q(l := remove1 i (Q l)))" "val_of h' = val_of h" "pvOwner h' = pvOwner h"
    "pxContainer h' = (pxContainer h)(i := None)" by blast
  have "sorted (map (val_of h') ((Q(l := remove1 i (Q l))) m))" if "m \<in> {DelayedList1, DelayedList2}" for m
    unfolding h'(3) using Q that by (auto simp: lists_ok_def sorted_map_remove1)
  then show ?thesis
    using h' by (intro exI [of _ h']) (simp add: lists_ok_def listREMOVE_ITEM_eq)
qed

lemma insert_end_item:
  assumes Q: "lists_ok E Q h" and l: "l \<in> klists E" "l \<noteq> DelayedList1" "l \<noteq> DelayedList2"
    and i: "pxContainer h i = None" and room: "Suc (length (Q l)) < 2 ^ 32"
  shows "\<exists>h'. listINSERT_END l i h = Inr h' \<and> lists_ok E (Q(l := ins_before (cursor h l) i (Q l))) h' \<and>
    val_of h' = val_of h \<and> pvOwner h' = pvOwner h \<and> pxContainer h' = (pxContainer h)(i := Some l) \<and>
    cursor h' = cursor h"
proof -
  have r: "kl.reps (klists E) h Q" using Q by (simp add: lists_ok_def)
  from kl.reps_put_end [OF r l(1) i room] obtain h' where h':
    "vListInsertEnd l i h = Inr h'"
    "kl.reps (klists E) h' (Q(l := ins_before (cursor h l) i (Q l)))" "val_of h' = val_of h"
    "pvOwner h' = pvOwner h" "pxContainer h' = (pxContainer h)(i := Some l)" "cursor h' = cursor h" by blast
  have "sorted (map (val_of h') ((Q(l := ins_before (cursor h l) i (Q l))) m))"
    if "m \<in> {DelayedList1, DelayedList2}" for m
    unfolding h'(3) using Q that l by (auto simp: lists_ok_def)
  then show ?thesis
    using h' by (intro exI [of _ h']) (simp add: lists_ok_def listINSERT_END_eq)
qed

lemma insert_sorted_item:
  assumes Q: "lists_ok E Q h" and l: "l \<in> klists E"
    and i: "pxContainer h i = None" and room: "Suc (length (Q l)) < 2 ^ 32"
  shows "\<exists>h'. vListInsert l i h = Inr h' \<and> lists_ok E (Q(l := insort_after (val_of h) i (Q l))) h' \<and>
    val_of h' = val_of h \<and> pvOwner h' = pvOwner h \<and> pxContainer h' = (pxContainer h)(i := Some l)"
proof -
  have r: "kl.reps (klists E) h Q" using Q by (simp add: lists_ok_def)
  from kl.reps_put_sorted [OF r l i room] obtain h' where h':
    "vListInsert l i h = Inr h'"
    "kl.reps (klists E) h' (Q(l := insort_after (val_of h) i (Q l)))" "val_of h' = val_of h"
    "pvOwner h' = pvOwner h" "pxContainer h' = (pxContainer h)(i := Some l)" by blast
  have "sorted (map (val_of h') ((Q(l := insort_after (val_of h) i (Q l))) m))"
    if "m \<in> {DelayedList1, DelayedList2}" for m
    unfolding h'(3) using Q that by (auto simp: lists_ok_def sorted_insort_after)
  then show ?thesis
    using h' by (intro exI [of _ h']) (simp add: lists_ok_def)
qed

lemma set_value_item:
  assumes Q: "lists_ok E Q h" and i: "pxContainer h i \<notin> {Some DelayedList1, Some DelayedList2}"
  shows "lists_ok E Q (listSET_LIST_ITEM_VALUE i v h)"
proof -
  have "i \<notin> set (Q DelayedList1)" "i \<notin> set (Q DelayedList2)"
    using lists_ok_home [OF Q] i by simp_all
  then have "map (val_of (listSET_LIST_ITEM_VALUE i v h)) (Q l) = map (val_of h) (Q l)"
    if "l \<in> {DelayedList1, DelayedList2}" for l
    using that by (auto simp: listSET_LIST_ITEM_VALUE_def)
  from this [of DelayedList1] this [of DelayedList2] show ?thesis
    using Q kl.reps_set_val [of "klists E" h Q i v] by (simp add: lists_ok_def del: map_eq_conv)
qed

lemma list_empty: "lists_ok E Q h \<Longrightarrow> l \<in> klists E \<Longrightarrow> listLIST_IS_EMPTY l h \<longleftrightarrow> Q l = []"
  by (rule ring_empty_iff [OF lists_ok_ring])

lemma list_head:
  "lists_ok E Q h \<Longrightarrow> l \<in> klists E \<Longrightarrow> Q l = i # is \<Longrightarrow> listGET_OWNER_OF_HEAD_ENTRY l h = Inr (pvOwner h i)"
  using ring_first [OF lists_ok_ring] by (simp add: listGET_OWNER_OF_HEAD_ENTRY_def listGET_LIST_ITEM_OWNER_def)

lemma list_head_value:
  "lists_ok E Q h \<Longrightarrow> l \<in> klists E \<Longrightarrow> Q l = i # is \<Longrightarrow>
   listGET_ITEM_VALUE_OF_HEAD_ENTRY l h = Inr (xItemValue h (LItem i))"
  using ring_first [OF lists_ok_ring] by (simp add: listGET_ITEM_VALUE_OF_HEAD_ENTRY_def deref_def)

end
