(* ===== verification/Kernel_Tick.thy ===== *)
theory Kernel_Tick
  imports Kernel_Inv
begin

text \<open>
  Waking tasks and the tick. \<open>woken s W s'\<close> is the effect of moving the blocked tasks \<open>W\<close>
  to their ready lists; the loop of \<^verbatim>\<open>xTaskIncrementTick\<close> has this effect for the tasks
  whose time has come, and the whole tick refines \<open>tick_spec\<close> on the abstract states.
\<close>

section \<open>Moving a task to its ready list\<close>

definition woken :: "kernel \<Rightarrow> u32 set \<Rightarrow> kernel \<Rightarrow> bool" where
  "woken s W s' \<longleftrightarrow>
     s' = s\<lparr>heap := heap s', uxTopReadyPriority := uxTopReadyPriority s',
            xNextTaskUnblockTime := xNextTaskUnblockTime s'\<rparr> \<and>
     val_of (heap s') = val_of (heap s) \<and> pvOwner (heap s') = pvOwner (heap s) \<and>
     (\<forall>t. home s' (StateItem t) = (if t \<in> W then Some (ReadyList (prio s t)) else home s (StateItem t))) \<and>
     (\<forall>t. home s' (EventItem t) = (if t \<in> W then None else home s (EventItem t)))"

lemma wokenD:
  assumes "woken s W s'"
  shows "tcb s' = tcb s" "memory s' = memory s" "pxCurrentTCB s' = pxCurrentTCB s"
    "pxDelayedTaskList s' = pxDelayedTaskList s" "pxOverflowDelayedTaskList s' = pxOverflowDelayedTaskList s"
    "uxCurrentNumberOfTasks s' = uxCurrentNumberOfTasks s" "xTickCount s' = xTickCount s"
    "xSchedulerRunning s' = xSchedulerRunning s" "xPendedTicks s' = xPendedTicks s"
    "xYieldPending s' = xYieldPending s" "xNumOfOverflows s' = xNumOfOverflows s"
    "xIdleTaskHandle s' = xIdleTaskHandle s" "uxSchedulerSuspended s' = uxSchedulerSuspended s"
    "xCriticalNesting s' = xCriticalNesting s" "irq_enabled s' = irq_enabled s" "saved_sp s' = saved_sp s"
    "val_of (heap s') = val_of (heap s)" "wake s' t = wake s t" "pvOwner (heap s') = pvOwner (heap s)"
    "home s' (StateItem t) = (if t \<in> W then Some (ReadyList (prio s t)) else home s (StateItem t))"
    "home s' (EventItem t) = (if t \<in> W then None else home s (EventItem t))"
    "freertos_tick_hook_count s' = freertos_tick_hook_count s"
proof -
  have e: "s' = s\<lparr>heap := heap s', uxTopReadyPriority := uxTopReadyPriority s',
            xNextTaskUnblockTime := xNextTaskUnblockTime s'\<rparr>"
    and v: "val_of (heap s') = val_of (heap s)" and ow: "pvOwner (heap s') = pvOwner (heap s)"
    using assms by (simp_all add: woken_def)
  show "tcb s' = tcb s" using arg_cong [OF e, of tcb] by simp
  show "memory s' = memory s" using arg_cong [OF e, of memory] by simp
  show "pxCurrentTCB s' = pxCurrentTCB s" using arg_cong [OF e, of pxCurrentTCB] by simp
  show "pxDelayedTaskList s' = pxDelayedTaskList s" using arg_cong [OF e, of pxDelayedTaskList] by simp
  show "pxOverflowDelayedTaskList s' = pxOverflowDelayedTaskList s" using arg_cong [OF e, of pxOverflowDelayedTaskList] by simp
  show "uxCurrentNumberOfTasks s' = uxCurrentNumberOfTasks s" using arg_cong [OF e, of uxCurrentNumberOfTasks] by simp
  show "xTickCount s' = xTickCount s" using arg_cong [OF e, of xTickCount] by simp
  show "xSchedulerRunning s' = xSchedulerRunning s" using arg_cong [OF e, of xSchedulerRunning] by simp
  show "xPendedTicks s' = xPendedTicks s" using arg_cong [OF e, of xPendedTicks] by simp
  show "xYieldPending s' = xYieldPending s" using arg_cong [OF e, of xYieldPending] by simp
  show "xNumOfOverflows s' = xNumOfOverflows s" using arg_cong [OF e, of xNumOfOverflows] by simp
  show "xIdleTaskHandle s' = xIdleTaskHandle s" using arg_cong [OF e, of xIdleTaskHandle] by simp
  show "uxSchedulerSuspended s' = uxSchedulerSuspended s" using arg_cong [OF e, of uxSchedulerSuspended] by simp
  show "xCriticalNesting s' = xCriticalNesting s" using arg_cong [OF e, of xCriticalNesting] by simp
  show "irq_enabled s' = irq_enabled s" using arg_cong [OF e, of irq_enabled] by simp
  show "saved_sp s' = saved_sp s" using arg_cong [OF e, of saved_sp] by simp
  show "freertos_tick_hook_count s' = freertos_tick_hook_count s"
    using arg_cong [OF e, of freertos_tick_hook_count] by simp
  show "val_of (heap s') = val_of (heap s)" "pvOwner (heap s') = pvOwner (heap s)" using v ow by simp_all
  show "wake s' t = wake s t" by (rule fun_cong [OF v])
  show "home s' (StateItem t) = (if t \<in> W then Some (ReadyList (prio s t)) else home s (StateItem t))"
    "home s' (EventItem t) = (if t \<in> W then None else home s (EventItem t))"
    using assms unfolding woken_def by blast+
qed

lemma woken_trans:
  assumes "woken s W s'" "woken s' V s''"
  shows "woken s (W \<union> V) s''"
proof -
  have "s'' = s'\<lparr>heap := heap s'', uxTopReadyPriority := uxTopReadyPriority s'',
            xNextTaskUnblockTime := xNextTaskUnblockTime s''\<rparr>"
    "s' = s\<lparr>heap := heap s', uxTopReadyPriority := uxTopReadyPriority s',
            xNextTaskUnblockTime := xNextTaskUnblockTime s'\<rparr>"
    using assms by (simp_all add: woken_def)
  then have "s'' = s\<lparr>heap := heap s'', uxTopReadyPriority := uxTopReadyPriority s'',
            xNextTaskUnblockTime := xNextTaskUnblockTime s''\<rparr>"
    by (cases s; cases s'; cases s''; simp)
  then show ?thesis
    using wokenD [OF assms(1)] wokenD [OF assms(2)] by (simp add: woken_def)
qed

lemma woken_empty: "woken s {} s"
  by (simp add: woken_def)

lemma woken_next: "woken s W s' \<Longrightarrow> woken s W (s'\<lparr>xNextTaskUnblockTime := v\<rparr>)"
  unfolding woken_def by (cases s; cases s'; simp)

lemma item_ok_cong:
  "pvOwner (heap s') = pvOwner (heap s) \<Longrightarrow> tcb s' = tcb s \<Longrightarrow> item_ok s' l i = item_ok s l i"
  by (cases i) (simp_all add: task_ok_def)

lemma homes_ok_upd:
  assumes "homes_ok E s" "pvOwner (heap s') = pvOwner (heap s)" "tcb s' = tcb s"
    and "\<And>i l. home s' i = Some l \<Longrightarrow> home s i = Some l \<or> l \<in> klists E \<and> item_ok s l i"
  shows "homes_ok E s'"
  using assms(1) assms(4) item_ok_cong [OF assms(2,3)] by (auto simp: homes_ok_def)

lemma homes_ok_task: "homes_ok E s \<Longrightarrow> home s (StateItem t) = Some l \<Longrightarrow> task_ok s t"
  unfolding homes_ok_def by (metis item_ok.simps(1))

lemma homes_okD: "homes_ok E s \<Longrightarrow> home s i = Some l \<Longrightarrow> l \<in> klists E \<and> item_ok s l i"
  by (simp add: homes_ok_def)

lemma woken_homes_ok:
  assumes w: "woken s W s'" and h: "homes_ok E s" and W: "\<And>t. t \<in> W \<Longrightarrow> blocked s t"
  shows "homes_ok E s'"
proof (rule homes_ok_upd [OF h wokenD(19,1) [OF w]])
  have ready: "ReadyList (prio s t) \<in> klists E \<and> item_ok s (ReadyList (prio s t)) (StateItem t)" if "t \<in> W" for t
    using W [OF that] homes_ok_task [OF h, of t] by (auto simp: blocked_def task_ok_def)
  fix i l assume "home s' i = Some l"
  then show "home s i = Some l \<or> l \<in> klists E \<and> item_ok s l i"
    using wokenD(20,21) [OF w] ready
    by (cases i) (auto simp del: item_ok.simps split: if_splits)
qed

lemma add_ready:
  assumes Q: "lists_ok E Q (heap s)" and h: "homes_ok E s" and t: "task_ok s t"
    and n: "home s (StateItem t) = None"
  shows "\<exists>h'. prvAddTaskToReadyList t s =
      Inr (s\<lparr>heap := h', uxTopReadyPriority := max (uxTopReadyPriority s) (uxPriority (tcb s t))\<rparr>) \<and>
    lists_ok E (Q(ReadyList (prio s t) := ins_before (cursor (heap s) (ReadyList (prio s t))) (StateItem t)
        (Q (ReadyList (prio s t))))) h' \<and>
    val_of h' = val_of (heap s) \<and> pvOwner h' = pvOwner (heap s) \<and>
    pxContainer h' = (home s)(StateItem t := Some (ReadyList (prio s t))) \<and> cursor h' = cursor (heap s)"
proof -
  let ?R = "ReadyList (prio s t)"
  have R: "?R \<in> klists E" "item_ok s ?R (StateItem t)" using t by (simp_all add: task_ok_def)
  have "StateItem t \<notin> set (Q ?R)" using lists_ok_home [OF Q R(1)] n by (metis option.distinct(1))
  then have "Suc (length (Q ?R)) < 2 ^ 32" by (rule lists_ok_room [OF Q h R(1) _ R(2)])
  from insert_end_item [OF Q R(1) _ _ n this] obtain h' where h':
    "listINSERT_END ?R (StateItem t) (heap s) = Inr h'"
    "lists_ok E (Q(?R := ins_before (cursor (heap s) ?R) (StateItem t) (Q ?R))) h'"
    "val_of h' = val_of (heap s)" "pvOwner h' = pvOwner (heap s)"
    "pxContainer h' = (home s)(StateItem t := Some ?R)" "cursor h' = cursor (heap s)" by blast
  have s: "s\<lparr>uxTopReadyPriority := uxTopReadyPriority s\<rparr> = s" for s :: kernel by simp
  have "prvAddTaskToReadyList t s =
      Inr (s\<lparr>heap := h', uxTopReadyPriority := max (uxTopReadyPriority s) (uxPriority (tcb s t))\<rparr>)"
    using h'(1) s [of "s\<lparr>heap := h'\<rparr>"]
    by (simp add: prvAddTaskToReadyList_def taskRECORD_READY_PRIORITY_def on_heap_def max_def not_le)
  then show ?thesis using h' by blast
qed

lemma tops_add_ready:
  assumes "tops_ok s" "task_ok s t" and h': "pxContainer h' = (home s)(StateItem t := Some (ReadyList (prio s t)))"
  shows "tops_ok (s\<lparr>heap := h', uxTopReadyPriority := max (uxTopReadyPriority s) (uxPriority (tcb s t))\<rparr>)"
  using assms(1,2) by (auto simp: tops_ok_def task_ok_def h' max_def word_le_nat_alt intro: order_trans)

text \<open>One round of the loop.\<close>

lemma unblock_task_spec:
  assumes Q: "lists_ok E Q (heap s)" and h: "homes_ok E s" and tp: "tops_ok s"
    and l: "l \<in> {DelayedList1, DelayedList2}" and t: "home s (StateItem t) = Some l"
  shows "\<exists>s' Q'. unblock_task t s = Inr s' \<and> woken s {t} s' \<and> tops_ok s' \<and> lists_ok E Q' (heap s') \<and>
    (\<forall>m \<in> {DelayedList1, DelayedList2}. Q' m = (Q(l := remove1 (StateItem t) (Q l))) m)"
proof -
  have tok: "task_ok s t" by (rule homes_ok_task [OF h t])
  have lE: "l \<in> klists E" using l by auto
  from remove_item [OF Q lE t] obtain h1 where h1:
    "listREMOVE_ITEM (StateItem t) (heap s) = Inr h1"
    "lists_ok E (Q(l := remove1 (StateItem t) (Q l))) h1" (is "lists_ok E ?Q1 h1")
    "val_of h1 = val_of (heap s)" "pvOwner h1 = pvOwner (heap s)"
    "pxContainer h1 = (home s)(StateItem t := None)" by blast
  have "\<exists>h2 Q2. (if listLIST_ITEM_CONTAINER (EventItem t) h1 \<noteq> None
            then on_heap (listREMOVE_ITEM (EventItem t)) (s\<lparr>heap := h1\<rparr>) else Inr (s\<lparr>heap := h1\<rparr>)) =
        Inr (s\<lparr>heap := h2\<rparr>) \<and> lists_ok E Q2 h2 \<and> val_of h2 = val_of (heap s) \<and>
        pvOwner h2 = pvOwner (heap s) \<and> pxContainer h2 = (home s)(StateItem t := None, EventItem t := None) \<and>
        (\<forall>m \<in> {DelayedList1, DelayedList2}. Q2 m = ?Q1 m)"
  proof (cases "home s (EventItem t)")
    case None
    then have "pxContainer h1 = (home s)(StateItem t := None, EventItem t := None)"
      using h1(5) by (auto simp: fun_eq_iff)
    then show ?thesis
      using h1 None by (intro exI [of _ h1] exI [of _ ?Q1]) (simp add: listLIST_ITEM_CONTAINER_def)
  next
    case (Some e)
    then have e: "e \<in> klists E" "item_ok s e (EventItem t)" using homes_okD [OF h Some] by blast+
    have "pxContainer h1 (EventItem t) = Some e" using h1(5) Some by simp
    from remove_item [OF h1(2) e(1) this] obtain h2 where
      "listREMOVE_ITEM (EventItem t) h1 = Inr h2"
      "lists_ok E (?Q1(e := remove1 (EventItem t) (?Q1 e))) h2"
      "val_of h2 = val_of h1" "pvOwner h2 = pvOwner h1"
      "pxContainer h2 = (pxContainer h1)(EventItem t := None)" by blast
    then show ?thesis
      using h1 Some e(2)
      by (intro exI [of _ h2] exI [of _ "?Q1(e := remove1 (EventItem t) (?Q1 e))"])
        (auto simp: listLIST_ITEM_CONTAINER_def on_heap_def)
  qed
  then obtain h2 Q2 where h2: "(if listLIST_ITEM_CONTAINER (EventItem t) h1 \<noteq> None
            then on_heap (listREMOVE_ITEM (EventItem t)) (s\<lparr>heap := h1\<rparr>) else Inr (s\<lparr>heap := h1\<rparr>)) =
        Inr (s\<lparr>heap := h2\<rparr>)" "lists_ok E Q2 h2" "val_of h2 = val_of (heap s)"
        "pvOwner h2 = pvOwner (heap s)" "pxContainer h2 = (home s)(StateItem t := None, EventItem t := None)"
        "\<forall>m \<in> {DelayedList1, DelayedList2}. Q2 m = ?Q1 m" by blast
  let ?s2 = "s\<lparr>heap := h2\<rparr>"
  have hs2: "homes_ok E ?s2"
    by (rule homes_ok_upd [OF h]) (use h2 in \<open>auto split: if_splits\<close>)
  have ts2: "task_ok ?s2 t" "home ?s2 (StateItem t) = None"
    using tok h2 by (simp_all add: task_ok_def)
  have Q2s: "lists_ok E Q2 (heap ?s2)" using h2 by simp
  from add_ready [OF Q2s hs2 ts2] obtain h3 where h3:
    "prvAddTaskToReadyList t ?s2 = Inr (?s2\<lparr>heap := h3, uxTopReadyPriority := max (uxTopReadyPriority ?s2) (uxPriority (tcb ?s2 t))\<rparr>)"
    "lists_ok E (Q2(ReadyList (prio ?s2 t) := ins_before (cursor (heap ?s2) (ReadyList (prio ?s2 t))) (StateItem t)
        (Q2 (ReadyList (prio ?s2 t))))) h3"
    "val_of h3 = val_of (heap ?s2)" "pvOwner h3 = pvOwner (heap ?s2)"
    "pxContainer h3 = (home ?s2)(StateItem t := Some (ReadyList (prio ?s2 t)))" by blast
  let ?s3 = "?s2\<lparr>heap := h3, uxTopReadyPriority := max (uxTopReadyPriority ?s2) (uxPriority (tcb ?s2 t))\<rparr>"
  have "unblock_task t s = Inr ?s3"
    using h1(1) h2(1) h3(1) by (simp add: unblock_task_def on_heap_def)
  moreover have "woken s {t} ?s3"
    using h2 h3 by (simp add: woken_def)
  moreover have "tops_ok ?s3"
  proof (rule tops_add_ready)
    show "tops_ok ?s2" using tp h2(5) by (auto simp: tops_ok_def split: if_splits)
    show "task_ok ?s2 t" using ts2 by simp
    show "pxContainer h3 = (home ?s2)(StateItem t := Some (ReadyList (prio ?s2 t)))" by (rule h3(5))
  qed
  ultimately show ?thesis
    using h3(2) h2(6)
    by (intro exI [of _ ?s3] exI [of _ "Q2(ReadyList (prio ?s2 t) :=
        ins_before (cursor (heap ?s2) (ReadyList (prio ?s2 t))) (StateItem t) (Q2 (ReadyList (prio ?s2 t))))"]) simp
qed

text \<open>The tasks of a delayed list whose time has come by \<open>now\<close>.\<close>

definition expired :: "u32 \<Rightarrow> kernel \<Rightarrow> u32 set" where
  "expired now s = {t. home s (StateItem t) = pxDelayedTaskList s \<and> wake s t \<le> now}"

lemma unblock_expired_spec:
  assumes "lists_ok E Q (heap s)" "homes_ok E s" "tops_ok s"
    and d: "pxDelayedTaskList s = Some d" "d \<in> {DelayedList1, DelayedList2}"
  shows "\<exists>s' Q'. unblock_expired now switch s =
      Some (Inr (switch \<or> (\<exists>t \<in> expired now s. uxPriority (tcb s t) > uxPriority (tcb s (pxCurrentTCB s))), s')) \<and>
    woken s (expired now s) s' \<and> tops_ok s' \<and> lists_ok E Q' (heap s') \<and>
    (\<forall>t. home s' (StateItem t) = Some d \<longrightarrow> xNextTaskUnblockTime s' \<le> wake s' t)"
  using assms
proof (induction "Q d" arbitrary: s Q switch)
  case Nil
  have dE: "d \<in> klists E" using Nil.prems by auto
  have e: "listLIST_IS_EMPTY d (heap s)" using list_empty [OF Nil.prems(1) dE] Nil.hyps by simp
  have none: "home s i \<noteq> Some d" for i
    using lists_ok_home [OF Nil.prems(1) dE, of i] Nil.hyps [symmetric] by simp
  let ?s = "s\<lparr>xNextTaskUnblockTime := portMAX_DELAY\<rparr>"
  have W: "expired now s = {}" using none Nil.prems(4) by (auto simp: expired_def)
  have "unblock_expired now switch s = Some (Inr (switch, ?s))"
    using e Nil.prems(4) by (subst unblock_expired.simps) simp
  moreover have "woken s {} ?s" by (rule woken_next [OF woken_empty])
  moreover have "tops_ok ?s" using Nil.prems(3) by (simp add: tops_ok_def)
  ultimately show ?case
    using W none Nil.prems(1) by (intro exI [of _ ?s] exI [of _ Q]) simp
next
  case (Cons i js)
  have dE: "d \<in> klists E" using Cons.prems by auto
  have hd: "Q d = i # js" using Cons.hyps(2) by simp
  have ihome: "home s j = Some d \<longleftrightarrow> j \<in> set (i # js)" for j
    using lists_ok_home [OF Cons.prems(1) dE, of j] hd by simp
  have "item_ok s d i" using ihome [of i] homes_okD [OF Cons.prems(2)] by simp
  then obtain t where t: "i = StateItem t" "task_ok s t" using Cons.prems(5) by (cases i) auto
  have ne: "\<not> listLIST_IS_EMPTY d (heap s)" using list_empty [OF Cons.prems(1) dE] hd by simp
  have owner: "listGET_OWNER_OF_HEAD_ENTRY d (heap s) = Inr t"
    using list_head [OF Cons.prems(1) dE hd] t by (simp add: task_ok_def)
  have "sorted (map (val_of (heap s)) (Q d))" using Cons.prems(1,5) by (auto simp: lists_ok_def)
  then have least: "\<forall>j \<in> set js. wake s t \<le> val_of (heap s) j" using hd t by simp
  show ?case
  proof (cases "now < wake s t")
    case True
    let ?s = "s\<lparr>xNextTaskUnblockTime := wake s t\<rparr>"
    have late: "wake s t \<le> wake s u" if "home s (StateItem u) = Some d" for u
      using ihome [of "StateItem u"] that least t by auto
    then have W: "expired now s = {}"
      using Cons.prems(4) True by (force simp: expired_def)
    have "unblock_expired now switch s = Some (Inr (switch, ?s))"
      using ne owner True Cons.prems(4)
      by (subst unblock_expired.simps) (simp add: listGET_LIST_ITEM_VALUE_def)
    moreover have "woken s {} ?s" by (rule woken_next [OF woken_empty])
    moreover have "tops_ok ?s" using Cons.prems(3) by (simp add: tops_ok_def)
    ultimately show ?thesis
      using W late Cons.prems(1) by (intro exI [of _ ?s] exI [of _ Q]) simp
  next
    case False
    have th: "home s (StateItem t) = Some d" using ihome [of i] t by simp
    from unblock_task_spec [OF Cons.prems(1,2,3,5) th] obtain s1 Q1 where s1:
      "unblock_task t s = Inr s1" "woken s {t} s1" "tops_ok s1" "lists_ok E Q1 (heap s1)"
      "\<forall>m \<in> {DelayedList1, DelayedList2}. Q1 m = (Q(d := remove1 (StateItem t) (Q d))) m" by blast
    note w1 = wokenD [OF s1(2)]
    have "js = Q1 d" using s1(5) Cons.prems(5) hd t by auto
    moreover have "homes_ok E s1"
      by (rule woken_homes_ok [OF s1(2) Cons.prems(2)]) (use th Cons.prems(5) in \<open>auto simp: blocked_def\<close>)
    moreover have "pxDelayedTaskList s1 = Some d" using w1 Cons.prems(4) by simp
    ultimately have "\<exists>s' Q'. unblock_expired now
          (switch \<or> uxPriority (tcb s1 t) > uxPriority (tcb s1 (pxCurrentTCB s1))) s1 =
        Some (Inr ((switch \<or> uxPriority (tcb s1 t) > uxPriority (tcb s1 (pxCurrentTCB s1))) \<or>
          (\<exists>u \<in> expired now s1. uxPriority (tcb s1 u) > uxPriority (tcb s1 (pxCurrentTCB s1))), s')) \<and>
      woken s1 (expired now s1) s' \<and> tops_ok s' \<and> lists_ok E Q' (heap s') \<and>
      (\<forall>t. home s' (StateItem t) = Some d \<longrightarrow> xNextTaskUnblockTime s' \<le> wake s' t)"
      using s1(3,4) Cons.prems(5) by (intro Cons.hyps(1)) auto
    then obtain s' Q' where s': "unblock_expired now
          (switch \<or> uxPriority (tcb s1 t) > uxPriority (tcb s1 (pxCurrentTCB s1))) s1 =
        Some (Inr ((switch \<or> uxPriority (tcb s1 t) > uxPriority (tcb s1 (pxCurrentTCB s1))) \<or>
          (\<exists>u \<in> expired now s1. uxPriority (tcb s1 u) > uxPriority (tcb s1 (pxCurrentTCB s1))), s'))"
      "woken s1 (expired now s1) s'" "tops_ok s'" "lists_ok E Q' (heap s')"
      "\<forall>t. home s' (StateItem t) = Some d \<longrightarrow> xNextTaskUnblockTime s' \<le> wake s' t" by blast
    have W: "expired now s = insert t (expired now s1)"
      using w1 th Cons.prems(4,5) False by (auto simp: expired_def)
    have "unblock_expired now switch s = unblock_expired now
          (switch \<or> uxPriority (tcb s1 t) > uxPriority (tcb s1 (pxCurrentTCB s1))) s1"
      using ne owner False Cons.prems(4) s1(1)
      by (subst unblock_expired.simps) (simp add: listGET_LIST_ITEM_VALUE_def)
    moreover have "woken s (expired now s) s'"
      using woken_trans [OF s1(2) s'(2)] W by simp
    ultimately show ?thesis
      using s' W w1 by (intro exI [of _ s'] exI [of _ Q']) auto
  qed
qed


section \<open>The tick\<close>

text \<open>What a tick leaves alone.\<close>

definition same_frame :: "kernel \<Rightarrow> kernel \<Rightarrow> bool" where
  "same_frame s s' \<longleftrightarrow> tcb s' = tcb s \<and> memory s' = memory s \<and> pxCurrentTCB s' = pxCurrentTCB s \<and>
     uxCurrentNumberOfTasks s' = uxCurrentNumberOfTasks s \<and> xSchedulerRunning s' = xSchedulerRunning s \<and>
     xIdleTaskHandle s' = xIdleTaskHandle s \<and> xCriticalNesting s' = xCriticalNesting s \<and>
     irq_enabled s' = irq_enabled s \<and> saved_sp s' = saved_sp s \<and>
     uxSchedulerSuspended s' = uxSchedulerSuspended s \<and> xPendedTicks s' = xPendedTicks s \<and>
     val_of (heap s') = val_of (heap s) \<and> pvOwner (heap s') = pvOwner (heap s)"

definition wakes_to :: "kernel \<Rightarrow> u32 set \<Rightarrow> kernel \<Rightarrow> bool" where
  "wakes_to s W s' \<longleftrightarrow>
     (\<forall>t. home s' (StateItem t) = (if t \<in> W then Some (ReadyList (prio s t)) else home s (StateItem t)) \<and>
          home s' (EventItem t) = (if t \<in> W then None else home s (EventItem t)))"

lemma woken_frame: "woken s W s' \<Longrightarrow> same_frame s s' \<and> wakes_to s W s'"
  by (simp add: same_frame_def wakes_to_def wokenD)

lemma wakes_known:
  assumes "wakes_to s W s'" "\<And>t. t \<in> W \<Longrightarrow> blocked s t"
  shows "known s' = known s"
  using assms by (auto simp: wakes_to_def known_def blocked_def)

lemma wakes_events:
  assumes "wakes_to s W s'" "events_ok s"
  shows "events_ok s'"
  using assms by (auto simp: wakes_to_def events_ok_def blocked_def)

lemma wakes_pending:
  "wakes_to s W s' \<Longrightarrow> pending_ok s \<Longrightarrow> pending_ok s'"
  by (auto simp: wakes_to_def pending_ok_def split: if_splits)

lemma wakes_idle:
  "wakes_to s W s' \<Longrightarrow> same_frame s s' \<Longrightarrow> (\<And>t. t \<in> W \<Longrightarrow> blocked s t) \<Longrightarrow> idle_ok s \<Longrightarrow> idle_ok s'"
  by (force simp: wakes_to_def same_frame_def idle_ok_def blocked_def)

text \<open>
  After the tick count is advanced, and the delayed lists switched when it wrapped, no wake
  time of the current delayed list is in the past.
\<close>

definition due :: "kernel \<Rightarrow> bool" where
  "due s \<longleftrightarrow> (\<forall>t.
     (home s (StateItem t) = pxDelayedTaskList s \<longrightarrow> xTickCount s \<le> wake s t \<and> xNextTaskUnblockTime s \<le> wake s t) \<and>
     (home s (StateItem t) = pxOverflowDelayedTaskList s \<longrightarrow> wake s t < xTickCount s))"

definition expiring :: "kernel \<Rightarrow> u32 set" where
  "expiring s = {t. blocked s t \<and> wake s t = xTickCount s + 1}"

lemma prvResetNextTaskUnblockTime_spec:
  assumes Q: "lists_ok E Q (heap s)" and h: "homes_ok E s" and d: "delayed_ok s"
  shows "\<exists>v. prvResetNextTaskUnblockTime s = Inr (s\<lparr>xNextTaskUnblockTime := v\<rparr>) \<and>
    (\<forall>t. home s (StateItem t) = pxDelayedTaskList s \<longrightarrow> v \<le> wake s t)"
proof -
  from d obtain l where l: "pxDelayedTaskList s = Some l" "l \<in> {DelayedList1, DelayedList2}"
    by (auto simp: delayed_ok_def)
  then have lE: "l \<in> klists E" by auto
  have mem: "home s j = Some l \<longleftrightarrow> j \<in> set (Q l)" for j by (rule lists_ok_home [OF Q lE])
  show ?thesis
  proof (cases "Q l")
    case Nil
    then show ?thesis
      using l mem list_empty [OF Q lE]
      by (intro exI [of _ portMAX_DELAY]) (simp add: prvResetNextTaskUnblockTime_def listp_def)
  next
    case (Cons i js)
    have "sorted (map (val_of (heap s)) (Q l))" using Q l(2) by (auto simp: lists_ok_def)
    then have "\<forall>j \<in> set (Q l). val_of (heap s) i \<le> val_of (heap s) j" using Cons by simp
    then show ?thesis
      using l mem list_empty [OF Q lE] list_head_value [OF Q lE Cons] Cons
      by (intro exI [of _ "val_of (heap s) i"]) (simp add: prvResetNextTaskUnblockTime_def listp_def)
  qed
qed

lemma start_tick:
  assumes c: "kernel_core E s"
  shows "\<exists>s2 n x. (if xTickCount s + 1 = 0 then taskSWITCH_DELAYED_LISTS (s\<lparr>xTickCount := xTickCount s + 1\<rparr>)
        else Inr (s\<lparr>xTickCount := xTickCount s + 1\<rparr>)) = Inr s2 \<and>
    due s2 \<and> delayed_ok s2 \<and> s2 = s\<lparr>xTickCount := xTickCount s + 1, pxDelayedTaskList := pxDelayedTaskList s2,
      pxOverflowDelayedTaskList := pxOverflowDelayedTaskList s2, xNumOfOverflows := n, xNextTaskUnblockTime := x\<rparr> \<and>
    n = xNumOfOverflows s + (if xTickCount s + 1 = 0 then 1 else 0)"
proof -
  from c obtain Q where Q: "lists_ok E Q (heap s)" by (auto simp: kernel_core_def)
  have h: "homes_ok E s" and d: "delayed_ok s" and tm: "timely s" using c by (auto simp: kernel_core_def)
  show ?thesis
  proof (cases "xTickCount s + 1 = 0")
    case False
    let ?s = "s\<lparr>xTickCount := xTickCount s + 1\<rparr>"
    have "due ?s" using tm inc_le word_less_inc [OF False] by (auto simp: due_def timely_def)
    then show ?thesis
      using False d
      by (intro exI [of _ ?s] exI [of _ "xNumOfOverflows s"] exI [of _ "xNextTaskUnblockTime s"])
        (simp add: delayed_ok_def)
  next
    case True
    then have top: "xTickCount s = -1" by (metis add_eq_0_iff2)
    from d obtain l m where lm: "pxDelayedTaskList s = Some l" "pxOverflowDelayedTaskList s = Some m"
      "(l, m) \<in> {(DelayedList1, DelayedList2), (DelayedList2, DelayedList1)}" by (auto simp: delayed_ok_def)
    then have lE: "l \<in> klists E" by auto
    have no: "home s (StateItem t) \<noteq> Some l" for t
      using tm lm(1) top word_order.not_eq_extremum by (auto simp: timely_def dest: leD)
    have "home s i \<noteq> Some l" for i
      using no homes_okD [OF h, of i l] lm(3) by (cases i) auto
    then have e: "listLIST_IS_EMPTY l (heap s)"
      using lists_ok_home [OF Q lE] list_empty [OF Q lE] by (metis list.set_intros(1) neq_Nil_conv)
    let ?s1 = "s\<lparr>xTickCount := 0, pxDelayedTaskList := Some m, pxOverflowDelayedTaskList := Some l,
        xNumOfOverflows := xNumOfOverflows s + 1\<rparr>"
    have "homes_ok E ?s1" by (rule homes_ok_upd [OF h]) simp_all
    moreover have "delayed_ok ?s1" using lm(3) by (auto simp: delayed_ok_def)
    ultimately obtain v where v: "prvResetNextTaskUnblockTime ?s1 = Inr (?s1\<lparr>xNextTaskUnblockTime := v\<rparr>)"
      "\<forall>t. home ?s1 (StateItem t) = pxDelayedTaskList ?s1 \<longrightarrow> v \<le> wake ?s1 t"
      using prvResetNextTaskUnblockTime_spec [of E Q ?s1] Q by auto
    let ?s2 = "?s1\<lparr>xNextTaskUnblockTime := v\<rparr>"
    have "due ?s2" using no v(2) by (auto simp: due_def)
    moreover have "taskSWITCH_DELAYED_LISTS (s\<lparr>xTickCount := 0\<rparr>) = Inr ?s2"
      using e lm v(1) by (simp add: taskSWITCH_DELAYED_LISTS_def listp_def configASSERT_def)
    moreover have "delayed_ok ?s2" using \<open>delayed_ok ?s1\<close> by (simp add: delayed_ok_def)
    ultimately show ?thesis
      using True by (intro exI [of _ ?s2] exI [of _ "xNumOfOverflows s + 1"] exI [of _ v]) simp
  qed
qed


lemma expired_due:
  assumes "due s" "delayed_ok s"
  shows "expired (xTickCount s) s = {t. blocked s t \<and> wake s t = xTickCount s}"
  using assms by (auto simp: due_def delayed_ok_def expired_def blocked_def)

text \<open>The loop, and the test that avoids it when the next wake time is not reached.\<close>

lemma wake_expired:
  assumes Q: "lists_ok E Q (heap s)" and h: "homes_ok E s" and tp: "tops_ok s"
    and du: "due s" and d: "delayed_ok s"
  shows "\<exists>s' Q'. (if xTickCount s \<ge> xNextTaskUnblockTime s
        then loopE (unblock_expired (xTickCount s) False s) else Inr (False, s)) =
      Inr (\<exists>t \<in> expired (xTickCount s) s. uxPriority (tcb s t) > uxPriority (tcb s (pxCurrentTCB s)), s') \<and>
    woken s (expired (xTickCount s) s) s' \<and> tops_ok s' \<and> lists_ok E Q' (heap s') \<and> timely s'"
proof -
  from d obtain l where l: "pxDelayedTaskList s = Some l" "l \<in> {DelayedList1, DelayedList2}"
    by (auto simp: delayed_ok_def)
  show ?thesis
  proof (cases "xTickCount s \<ge> xNextTaskUnblockTime s")
    case True
    from unblock_expired_spec [OF Q h tp l, of "xTickCount s" False] obtain s' Q' where s':
      "unblock_expired (xTickCount s) False s =
        Some (Inr (\<exists>t \<in> expired (xTickCount s) s. uxPriority (tcb s t) > uxPriority (tcb s (pxCurrentTCB s)), s'))"
      "woken s (expired (xTickCount s) s) s'" "tops_ok s'" "lists_ok E Q' (heap s')"
      "\<forall>t. home s' (StateItem t) = Some l \<longrightarrow> xNextTaskUnblockTime s' \<le> wake s' t" by auto
    have "timely s'"
      using du s'(5) l d unfolding timely_def wokenD [OF s'(2)]
      by (force simp: due_def expired_def delayed_ok_def)
    then show ?thesis using s' True by (auto simp: loopE_def)
  next
    case False
    then have W: "expired (xTickCount s) s = {}"
      using du by (force simp: expired_def due_def)
    have "timely s" using du False by (force simp: due_def timely_def)
    then show ?thesis using False W Q tp woken_empty by auto
  qed
qed

lemma same_frame_core:
  assumes c: "kernel_core E s" and f: "same_frame s s'" and w: "wakes_to s W s'"
    and W: "\<And>t. t \<in> W \<Longrightarrow> blocked s t"
    and h: "lists_ok E Q (heap s')" "homes_ok E s'" "tops_ok s'" "delayed_ok s'" "timely s'"
  shows "kernel_core E s'"
proof -
  have "events_ok s'" using wakes_events [OF w] c by (simp add: kernel_core_def)
  moreover have "count_ok s'"
    using wakes_known [OF w W] f c by (simp add: kernel_core_def count_ok_def same_frame_def)
  ultimately show ?thesis using h by (auto simp: kernel_core_def)
qed

lemma xTaskIncrementTick_run:
  assumes c: "kernel_core E s" and sus: "uxSchedulerSuspended s = 0"
  shows "\<exists>s'. xTaskIncrementTick s =
      Inr ((\<exists>t \<in> expiring s. uxPriority (tcb s t) > uxPriority (tcb s (pxCurrentTCB s))) \<or>
           uxNumberOfItems (heap s') (ReadyList (prio s (pxCurrentTCB s))) > 1 \<or> xYieldPending s, s') \<and>
    kernel_core E s' \<and> same_frame s s' \<and> wakes_to s (expiring s) s' \<and> xTickCount s' = xTickCount s + 1 \<and>
    xNumOfOverflows s' = xNumOfOverflows s + (if xTickCount s + 1 = 0 then 1 else 0) \<and>
    xYieldPending s' = xYieldPending s \<and>
    freertos_tick_hook_count s' = freertos_tick_hook_count s + (if xPendedTicks s = 0 then 1 else 0)"
proof -
  from c obtain Q where Q: "lists_ok E Q (heap s)" by (auto simp: kernel_core_def)
  have h: "homes_ok E s" and tp: "tops_ok s" using c by (auto simp: kernel_core_def)
  from start_tick [OF c] obtain s2 n x where s2: "(if xTickCount s + 1 = 0
        then taskSWITCH_DELAYED_LISTS (s\<lparr>xTickCount := xTickCount s + 1\<rparr>)
        else Inr (s\<lparr>xTickCount := xTickCount s + 1\<rparr>)) = Inr s2" "due s2" "delayed_ok s2"
    and eq: "s2 = s\<lparr>xTickCount := xTickCount s + 1, pxDelayedTaskList := pxDelayedTaskList s2,
      pxOverflowDelayedTaskList := pxOverflowDelayedTaskList s2, xNumOfOverflows := n, xNextTaskUnblockTime := x\<rparr>"
    and n: "n = xNumOfOverflows s + (if xTickCount s + 1 = 0 then 1 else 0)" by blast
  have sel: "heap s2 = heap s" "tcb s2 = tcb s" "uxTopReadyPriority s2 = uxTopReadyPriority s"
    "xTickCount s2 = xTickCount s + 1" "pxCurrentTCB s2 = pxCurrentTCB s" "xYieldPending s2 = xYieldPending s"
    "xPendedTicks s2 = xPendedTicks s" "xNumOfOverflows s2 = n" "freertos_tick_hook_count s2 = freertos_tick_hook_count s"
    "same_frame s s2"
    using arg_cong [OF eq, of heap] arg_cong [OF eq, of tcb] arg_cong [OF eq, of uxTopReadyPriority]
      arg_cong [OF eq, of xTickCount] arg_cong [OF eq, of pxCurrentTCB] arg_cong [OF eq, of xYieldPending]
      arg_cong [OF eq, of xPendedTicks] arg_cong [OF eq, of xNumOfOverflows]
      arg_cong [OF eq, of freertos_tick_hook_count] arg_cong [OF eq, of "same_frame s"]
    by (simp_all add: same_frame_def)
  have E: "expired (xTickCount s + 1) s2 = expiring s"
    using expired_due [OF s2(2,3)] sel by (simp add: expiring_def blocked_def)
  have "lists_ok E Q (heap s2)" "tops_ok s2" using Q tp sel by (simp_all add: tops_ok_def)
  moreover have h2: "homes_ok E s2" by (rule homes_ok_upd [OF h]) (simp_all add: sel)
  ultimately obtain s3 Q3 where s3: "(if xTickCount s2 \<ge> xNextTaskUnblockTime s2
        then loopE (unblock_expired (xTickCount s2) False s2) else Inr (False, s2)) =
      Inr (\<exists>t \<in> expired (xTickCount s2) s2. uxPriority (tcb s2 t) > uxPriority (tcb s2 (pxCurrentTCB s2)), s3)"
    "woken s2 (expired (xTickCount s2) s2) s3" "tops_ok s3" "lists_ok E Q3 (heap s3)" "timely s3"
    using wake_expired [of E Q s2] s2(2,3) by blast
  note w3 = wokenD [OF s3(2)]
  have W: "\<And>t. t \<in> expiring s \<Longrightarrow> blocked s2 t" by (simp add: expiring_def blocked_def sel)
  have h3: "homes_ok E s3" by (rule woken_homes_ok [OF s3(2) h2]) (use W sel E in simp)
  let ?s4 = "if xPendedTicks s3 = 0 then vApplicationTickHook s3 else s3"
  have s4: "heap ?s4 = heap s3" "xTickCount ?s4 = xTickCount s3" "xNumOfOverflows ?s4 = xNumOfOverflows s3"
    "xYieldPending ?s4 = xYieldPending s3" "same_frame s3 ?s4" "tops_ok ?s4 = tops_ok s3"
    "delayed_ok ?s4 = delayed_ok s3" "timely ?s4 = timely s3" "tcb ?s4 = tcb s3"
    by (simp_all add: vApplicationTickHook_def same_frame_def tops_ok_def delayed_ok_def timely_def)
  have fr: "same_frame s s3" "same_frame s ?s4"
    using sel(10) woken_frame [OF s3(2)] s4(5) by (auto simp: same_frame_def)
  have wk: "wakes_to s (expiring s) ?s4"
    using woken_frame [OF s3(2)] E sel by (simp add: wakes_to_def s4(1))
  have "homes_ok E ?s4" by (rule homes_ok_upd [OF h3]) (simp_all add: s4)
  moreover have "delayed_ok s3" using s2(3) w3 by (simp add: delayed_ok_def)
  ultimately have core: "kernel_core E ?s4"
    using W sel(1) s3(3-5)
    by (intro same_frame_core [OF c fr(2) wk, of Q3]) (simp_all add: s4 blocked_def)
  have loop: "(if xTickCount s + 1 \<ge> xNextTaskUnblockTime s2
        then loopE (unblock_expired (xTickCount s + 1) False s2) else Inr (False, s2)) =
      Inr (\<exists>t \<in> expiring s. uxPriority (tcb s t) > uxPriority (tcb s (pxCurrentTCB s)), s3)"
    using s3(1) unfolding sel E .
  have cur: "pxCurrentTCB s3 = pxCurrentTCB s" "tcb s3 = tcb s" "xPendedTicks s3 = xPendedTicks s"
    using w3 sel by simp_all
  have "xTaskIncrementTick s = Inr ((\<exists>t \<in> expiring s. uxPriority (tcb s t) > uxPriority (tcb s (pxCurrentTCB s))) \<or>
      uxNumberOfItems (heap ?s4) (ReadyList (prio s (pxCurrentTCB s))) > 1 \<or> xYieldPending s, ?s4)"
    unfolding xTaskIncrementTick_def Let_def s2(1) bindE_simps loop
    using sus s4(1,4) w3 sel by (simp add: listCURRENT_LIST_LENGTH_def cur)
  moreover have "freertos_tick_hook_count ?s4 = freertos_tick_hook_count s + (if xPendedTicks s = 0 then 1 else 0)"
    using w3 sel cur by (simp add: vApplicationTickHook_def)
  moreover have "xTickCount ?s4 = xTickCount s + 1"
    "xNumOfOverflows ?s4 = xNumOfOverflows s + (if xTickCount s + 1 = 0 then 1 else 0)"
    using w3 sel s4 n by simp_all
  moreover have "xYieldPending ?s4 = xYieldPending s" using w3 sel s4 by simp
  ultimately show ?thesis
    using core fr(2) wk by blast
qed

section \<open>The tick refines its specification\<close>

lemma timely_ahead:
  assumes "timely s" "delayed_ok s" "blocked s t"
  shows "wake s t \<noteq> xTickCount s"
  using assms by (auto simp: timely_def delayed_ok_def blocked_def)

lemma wait_less:
  fixes w k :: u32
  assumes "w \<noteq> k"
  shows "unat (w - (k + 1)) = unat (w - k) - 1"
proof -
  have "w - (k + 1) = (w - k) - 1" by simp
  moreover have "w - k \<noteq> 0" using assms by simp
  ultimately show ?thesis by (metis unat_minus_one)
qed

lemma wait_one:
  fixes w k :: u32
  shows "unat (w - k) = 1 \<longleftrightarrow> w = k + 1"
proof
  assume "unat (w - k) = 1"
  then have "w - k = 1" by (simp add: word_unat_eq_iff)
  then show "w = k + 1" by (metis add.commute diff_eq_eq)
qed simp

lemma abs_tick:
  assumes c: "kernel_core E s" and f: "same_frame s s'" and w: "wakes_to s (expiring s) s'"
    and t: "xTickCount s' = xTickCount s + 1"
  shows "abs_state s' = tick_spec (prio s) (abs_state s)"
proof
  fix u
  have wk: "wake s' u = wake s u" using f fun_cong [of "val_of (heap s')" "val_of (heap s)" "StateItem u"]
    by (simp add: same_frame_def)
  have hm: "home s' (StateItem u) = (if u \<in> expiring s then Some (ReadyList (prio s u)) else home s (StateItem u))"
    using w by (simp add: wakes_to_def)
  show "abs_state s' u = tick_spec (prio s) (abs_state s) u"
  proof (cases "blocked s u")
    case True
    have "wake s u \<noteq> xTickCount s" using timely_ahead True c by (simp add: kernel_core_def)
    moreover have "abs_state s u = Blocked (unat (wake s u - xTickCount s))"
      using True by (auto simp: blocked_def abs_state_def)
    moreover have "abs_state s' u = (if u \<in> expiring s then Ready (prio s u)
        else Blocked (unat (wake s u - (xTickCount s + 1))))"
      using True hm wk t by (auto simp: blocked_def abs_state_def)
    ultimately show ?thesis
      using wait_less wait_one True by (auto simp: tick_spec_def expiring_def)
  next
    case False
    then have "home s' (StateItem u) = home s (StateItem u)" using hm by (simp add: expiring_def)
    then show ?thesis
      using False by (auto simp: abs_state_def tick_spec_def blocked_def split: option.splits list_id.splits)
  qed
qed

end
