(* ===== verification/Kernel_Sched.thy ===== *)
theory Kernel_Sched
  imports Kernel_Tick
begin

text \<open>
  Selecting the task to run, blocking the running task, and suspending and resuming the
  scheduler: each keeps the invariant and has the stated effect on the abstract states.
\<close>

section \<open>Carrying the invariant over\<close>

lemma item_ok_prio:
  "pvOwner (heap s') = pvOwner (heap s) \<Longrightarrow> (\<And>t. uxPriority (tcb s' t) = uxPriority (tcb s t)) \<Longrightarrow>
   item_ok s' l i = item_ok s l i"
  by (cases i) (simp_all add: task_ok_def)

lemma core_carry:
  assumes c: "kernel_core E s" and Q: "lists_ok E Q (heap s')" and tp: "tops_ok s'"
    and same: "home s' = home s" "val_of (heap s') = val_of (heap s)" "pvOwner (heap s') = pvOwner (heap s)"
      "\<And>t. uxPriority (tcb s' t) = uxPriority (tcb s t)"
      "pxDelayedTaskList s' = pxDelayedTaskList s" "pxOverflowDelayedTaskList s' = pxOverflowDelayedTaskList s"
      "xTickCount s' = xTickCount s" "uxCurrentNumberOfTasks s' = uxCurrentNumberOfTasks s"
    and nx: "\<forall>t. home s (StateItem t) = pxDelayedTaskList s \<longrightarrow> xNextTaskUnblockTime s' \<le> wake s t"
  shows "kernel_core E s'"
proof -
  have w: "wake s' t = wake s t" for t by (rule fun_cong [OF same(2)])
  have "homes_ok E s'"
    using c item_ok_prio [OF same(3,4)] by (simp add: kernel_core_def homes_ok_def same(1))
  moreover have "timely s'"
    using c nx by (simp add: kernel_core_def timely_def same w)
  moreover have "delayed_ok s'" "events_ok s'" "count_ok s'"
    using c by (simp_all add: kernel_core_def delayed_ok_def events_ok_def count_ok_def blocked_def known_def same)
  ultimately show ?thesis using Q tp by (auto simp: kernel_core_def)
qed

lemma core_next: "kernel_core E s \<Longrightarrow> home s (StateItem t) = pxDelayedTaskList s \<Longrightarrow> xNextTaskUnblockTime s \<le> wake s t"
  by (simp add: kernel_core_def timely_def)

lemma core_lists: "kernel_core E s \<Longrightarrow> \<exists>Q. lists_ok E Q (heap s)"
  by (simp add: kernel_core_def)

lemma save_context_sel [simp]:
  "heap (save_context s) = heap s" "uxPriority (tcb (save_context s) t) = uxPriority (tcb s t)"
  "pxCurrentTCB (save_context s) = pxCurrentTCB s" "xTickCount (save_context s) = xTickCount s"
  "uxSchedulerSuspended (save_context s) = uxSchedulerSuspended s" "xPendedTicks (save_context s) = xPendedTicks s"
  "xIdleTaskHandle (save_context s) = xIdleTaskHandle s" "xYieldPending (save_context s) = xYieldPending s"
  "xCriticalNesting (save_context s) = xCriticalNesting s" "irq_enabled (save_context s) = irq_enabled s"
  "uxTopReadyPriority (save_context s) = uxTopReadyPriority s"
  "pxDelayedTaskList (save_context s) = pxDelayedTaskList s"
  "pxOverflowDelayedTaskList (save_context s) = pxOverflowDelayedTaskList s"
  "uxCurrentNumberOfTasks (save_context s) = uxCurrentNumberOfTasks s"
  "xNextTaskUnblockTime (save_context s) = xNextTaskUnblockTime s"
  "xSchedulerRunning (save_context s) = xSchedulerRunning s"
  "memory (save_context s) = memory s" "saved_sp (save_context s) = saved_sp s"
  "pxStack (tcb (save_context s) t) = pxStack (tcb s t)"
  by (simp_all add: save_context_def)

lemma save_context_core: "kernel_core E s \<Longrightarrow> kernel_core E (save_context s)"
  using core_lists [of E s]
  by (auto intro!: core_carry [of E s] simp: core_next) (simp add: kernel_core_def tops_ok_def)

section \<open>Stacks that have not overflowed\<close>

text \<open>
  What the stack check of the kernel is to find out: the saved stack pointer \<open>sp\<close> of the task \<open>t\<close> is
  above the base of its stack, and the sixteen bytes at the base still hold the fill byte. A task
  is healthy when this holds of the pointer that the trap entry is about to save.
\<close>

definition stack_intact :: "kernel \<Rightarrow> u32 \<Rightarrow> u32 \<Rightarrow> bool" where
  "stack_intact s t sp \<longleftrightarrow> unat (pxStack (tcb s t)) < unat sp \<and>
     (\<forall>k < 16. memory s (pxStack (tcb s t) + of_nat k) = 0xa5)"

definition healthy :: "kernel \<Rightarrow> bool" where
  "healthy s \<longleftrightarrow> stack_intact s (pxCurrentTCB s) (saved_sp s)"

lemma bytes_of_load32:
  "ucast (load32 m a) = m a" "ucast (drop_bit 8 (load32 m a)) = m (a + 1)"
  "ucast (drop_bit 16 (load32 m a)) = m (a + 2)" "ucast (drop_bit 24 (load32 m a)) = m (a + 3)"
  unfolding load32_def by (rule bit_word_eqI; auto simp: bit_simps dest: bit_imp_le_length)+

lemma load32_filled:
  "load32 m a = 0xa5a5a5a5 \<longleftrightarrow> m a = 0xa5 \<and> m (a + 1) = 0xa5 \<and> m (a + 2) = 0xa5 \<and> m (a + 3) = 0xa5"
proof
  assume e: "load32 m a = 0xa5a5a5a5"
  show "m a = 0xa5 \<and> m (a + 1) = 0xa5 \<and> m (a + 2) = 0xa5 \<and> m (a + 3) = 0xa5"
    using bytes_of_load32 [of m a] unfolding e by simp
qed (simp add: load32_def)

lemma all_below_16:
  "(\<forall>k < (16 :: nat). P k) \<longleftrightarrow> (P 0 \<and> P 1 \<and> P 2 \<and> P 3) \<and> (P 4 \<and> P 5 \<and> P 6 \<and> P 7) \<and>
     (P 8 \<and> P 9 \<and> P 10 \<and> P 11) \<and> (P 12 \<and> P 13 \<and> P 14 \<and> P 15)"
proof -
  have "(\<forall>k < 16. P k) \<longleftrightarrow> (\<forall>k \<in> set [0..<16]. P k)" by (simp add: Ball_def)
  also have "[0..<16] = [0, 1, 2, 3, 4, 5, 6, 7, 8, 9, 10, 11, 12, 13, 14, 15]" by (simp add: upt_rec)
  finally show ?thesis by simp
qed

lemma guard_filled:
  "(\<forall>k < 16. m (b + of_nat k) = 0xa5) \<longleftrightarrow> load32 m b = 0xa5a5a5a5 \<and> load32 m (b + 4) = 0xa5a5a5a5 \<and>
     load32 m (b + 8) = 0xa5a5a5a5 \<and> load32 m (b + 12) = 0xa5a5a5a5"
  by (simp only: load32_filled all_below_16 conj_assoc) (simp add: add.assoc)

lemma stack_overflowed_iff:
  "stack_overflowed s \<longleftrightarrow> \<not> stack_intact s (pxCurrentTCB s) (pxTopOfStack (tcb s (pxCurrentTCB s)))"
  unfolding stack_overflowed_def stack_intact_def Let_def guard_filled word_le_nat_alt by auto

lemma save_context_overflowed: "stack_overflowed (save_context s) \<longleftrightarrow> \<not> healthy s"
  by (simp add: stack_overflowed_iff healthy_def stack_intact_def save_context_def)

text \<open>What decides whether a task is healthy.\<close>

lemma healthy_same:
  "tcb s' = tcb s \<Longrightarrow> memory s' = memory s \<Longrightarrow> pxCurrentTCB s' = pxCurrentTCB s \<Longrightarrow> saved_sp s' = saved_sp s \<Longrightarrow>
   healthy s' = healthy s"
  by (simp add: healthy_def stack_intact_def)

lemma overflowed_same:
  "tcb s' = tcb s \<Longrightarrow> memory s' = memory s \<Longrightarrow> pxCurrentTCB s' = pxCurrentTCB s \<Longrightarrow>
   stack_overflowed s' = stack_overflowed s"
  by (simp add: stack_overflowed_def)

lemma switch_overflowed:
  "uxSchedulerSuspended s = 0 \<Longrightarrow> stack_overflowed s \<Longrightarrow> vTaskSwitchContext s = Inl StackOverflow"
  by (simp add: vTaskSwitchContext_def taskCHECK_FOR_STACK_OVERFLOW_def stack_overflowed_def)

section \<open>Selecting the highest priority\<close>

lemma select_top_spec:
  assumes Q: "lists_ok E Q h" and "n < 4"
    and "\<forall>p < 4. Q (ReadyList p) \<noteq> [] \<longrightarrow> p \<le> n" and "\<exists>p < 4. Q (ReadyList p) \<noteq> []"
  shows "\<exists>p < 4. select_top h n = Inr p \<and> Q (ReadyList p) \<noteq> [] \<and> (\<forall>q < 4. Q (ReadyList q) \<noteq> [] \<longrightarrow> q \<le> p)"
  using assms(2-4)
proof (induction n)
  case 0
  then show ?case using list_empty [OF Q, of "ReadyList 0"] by auto
next
  case (Suc n)
  show ?case
  proof (cases "Q (ReadyList (Suc n)) = []")
    case True
    have "\<forall>p < 4. Q (ReadyList p) \<noteq> [] \<longrightarrow> p \<le> n"
      using Suc.prems(2) True by (metis le_SucE)
    then show ?thesis
      using Suc.IH Suc.prems True list_empty [OF Q, of "ReadyList (Suc n)"] by auto
  next
    case False
    then show ?thesis using Suc.prems list_empty [OF Q, of "ReadyList (Suc n)"] by auto
  qed
qed

text \<open>The effect of a switch to \<open>t\<close>, in the ready list \<open>p\<close>.\<close>

definition switched :: "kernel \<Rightarrow> u32 \<Rightarrow> kernel" where
  "switched s t = s\<lparr>heap := set_index (ReadyList (prio s t)) (LItem (StateItem t)) (heap s),
     pxCurrentTCB := t, uxTopReadyPriority := uxPriority (tcb s t), xYieldPending := False,
     freertos_context_switch_count := freertos_context_switch_count s + 1\<rparr>"

text \<open>\<open>t\<close> is ready, no ready task has a higher priority, and \<open>t\<close> is next in its list.\<close>

definition next_up :: "kernel \<Rightarrow> u32 \<Rightarrow> bool" where
  "next_up s t \<longleftrightarrow> home s (StateItem t) = Some (ReadyList (prio s t)) \<and>
     (\<forall>u q. home s (StateItem u) = Some (ReadyList q) \<longrightarrow> q \<le> prio s t)"

lemma taskSELECT_spec:
  assumes Q: "lists_ok E Q (heap s)" and h: "homes_ok E s" and tp: "tops_ok s" and i: "idle_ok s"
  shows "\<exists>t. taskSELECT_HIGHEST_PRIORITY_TASK s =
      Inr (s\<lparr>heap := set_index (ReadyList (prio s t)) (LItem (StateItem t)) (heap s),
             pxCurrentTCB := t, uxTopReadyPriority := uxPriority (tcb s t)\<rparr>) \<and>
    next_up s t \<and>
    StateItem t = hd (turns (cursor (heap s) (ReadyList (prio s t))) (Q (ReadyList (prio s t)))) \<and>
    lists_ok E Q (set_index (ReadyList (prio s t)) (LItem (StateItem t)) (heap s)) \<and>
    turns (Some (StateItem t)) (Q (ReadyList (prio s t))) =
      rotate1 (turns (cursor (heap s) (ReadyList (prio s t))) (Q (ReadyList (prio s t))))"
proof -
  have mem: "p < 4 \<Longrightarrow> home s j = Some (ReadyList p) \<longleftrightarrow> j \<in> set (Q (ReadyList p))" for p j
    using lists_ok_home [OF Q] by simp
  have tsk: "\<exists>t. j = StateItem t \<and> task_ok s t \<and> p = prio s t" if "j \<in> set (Q (ReadyList p))" "p < 4" for p j
    using homes_okD [OF h, of j "ReadyList p"] mem [OF that(2)] that(1) by (cases j) auto
  have "\<forall>p < 4. Q (ReadyList p) \<noteq> [] \<longrightarrow> p \<le> unat (uxTopReadyPriority s)"
  proof (intro allI impI)
    fix p assume p: "p < 4" "Q (ReadyList p) \<noteq> []"
    then have m: "hd (Q (ReadyList p)) \<in> set (Q (ReadyList p))" by simp
    from tsk [OF m p(1)] obtain t where "hd (Q (ReadyList p)) = StateItem t" by blast
    then have "home s (StateItem t) = Some (ReadyList p)" using mem [OF p(1)] m by simp
    then show "p \<le> unat (uxTopReadyPriority s)" using tp by (simp add: tops_ok_def)
  qed
  moreover have "Q (ReadyList 0) \<noteq> []" using mem [of 0] i by (auto simp: idle_ok_def)
  moreover have "unat (uxTopReadyPriority s) < 4" using tp by (simp add: tops_ok_def)
  moreover from \<open>Q (ReadyList 0) \<noteq> []\<close> have "\<exists>p < 4. Q (ReadyList p) \<noteq> []"
    by (intro exI [of _ 0]) simp
  ultimately obtain p where p: "p < 4" "select_top (heap s) (unat (uxTopReadyPriority s)) = Inr p"
    "Q (ReadyList p) \<noteq> []" "\<forall>q < 4. Q (ReadyList q) \<noteq> [] \<longrightarrow> q \<le> p"
    using select_top_spec [OF Q] by blast
  have r: "ring (heap s) (ReadyList p) (Q (ReadyList p))" using lists_ok_ring [OF Q] p(1) by simp
  from listGET_OWNER_OF_NEXT_ENTRY_spec [OF r p(3)] obtain h' j where j:
    "listGET_OWNER_OF_NEXT_ENTRY (ReadyList p) (heap s) = Inr (pvOwner (heap s) j, h')"
    "j = hd (turns (cursor (heap s) (ReadyList p)) (Q (ReadyList p)))" "j \<in> set (Q (ReadyList p))"
    "turns (cursor h' (ReadyList p)) (Q (ReadyList p)) = rotate1 (turns (cursor (heap s) (ReadyList p)) (Q (ReadyList p)))"
    "ring h' (ReadyList p) (Q (ReadyList p))"
    "\<forall>l' ys. l' \<noteq> ReadyList p \<longrightarrow> ring (heap s) l' ys \<longrightarrow> ring h' l' ys"
    "h' = set_index (ReadyList p) (LItem j) (heap s)" by blast
  from tsk [OF j(3) p(1)] obtain t where t: "j = StateItem t" "task_ok s t" "p = prio s t" by blast
  have "ring h' l (Q l)" if "l \<in> klists E" for l
    using lists_ok_ring [OF Q that] j(5,6) by (cases "l = ReadyList p") auto
  then have "lists_ok E Q h'"
    using Q by (simp add: lists_ok_def kl.reps_def j(7))
  moreover have "next_up s t"
  proof -
    have "q \<le> p" if u: "home s (StateItem u) = Some (ReadyList q)" for u q
    proof -
      have "q < 4" using homes_okD [OF h u] by simp
      then have "StateItem u \<in> set (Q (ReadyList q))" using mem u by simp
      then have "Q (ReadyList q) \<noteq> []" by auto
      then show ?thesis using \<open>q < 4\<close> p(4) by simp
    qed
    then show ?thesis using mem [OF p(1)] j(3) t by (auto simp: next_up_def)
  qed
  moreover have "cursor h' (ReadyList p) = Some j" by (simp add: j(7) cursor_def)
  moreover have "of_nat p = uxPriority (tcb s t)" using t by simp
  ultimately show ?thesis
    using p(2) j t by (intro exI [of _ t]) (simp add: taskSELECT_HIGHEST_PRIORITY_TASK_def task_ok_def)
qed

lemma switched_core:
  assumes c: "kernel_core E s" and n: "next_up s t"
    and Q: "lists_ok E Q (set_index (ReadyList (prio s t)) (LItem (StateItem t)) (heap s))"
  shows "kernel_core E (switched s t)"
proof (rule core_carry [OF c, of Q])
  have "task_ok s t" using n c homes_ok_task by (auto simp: next_up_def kernel_core_def)
  then show "tops_ok (switched s t)"
    using n by (auto simp: tops_ok_def switched_def next_up_def task_ok_def)
qed (use Q core_next [OF c] in \<open>simp_all add: switched_def\<close>)

lemma vTaskSwitchContext_run:
  assumes c: "kernel_core E s" and i: "idle_ok s" and sus: "uxSchedulerSuspended s = 0"
    and Q: "lists_ok E Q (heap s)" and ok: "\<not> stack_overflowed s"
  shows "\<exists>t. vTaskSwitchContext s = Inr (switched s t) \<and> next_up s t \<and> kernel_core E (switched s t) \<and>
    lists_ok E Q (heap (switched s t)) \<and>
    StateItem t = hd (turns (cursor (heap s) (ReadyList (prio s t))) (Q (ReadyList (prio s t)))) \<and>
    turns (cursor (heap (switched s t)) (ReadyList (prio s t))) (Q (ReadyList (prio s t))) =
      rotate1 (turns (cursor (heap s) (ReadyList (prio s t))) (Q (ReadyList (prio s t))))"
proof -
  let ?s = "s\<lparr>xYieldPending := False\<rparr>"
  have h: "homes_ok E ?s" "tops_ok ?s" "idle_ok ?s" "lists_ok E Q (heap ?s)"
    using c i Q homes_ok_upd [of E s ?s] by (auto simp: kernel_core_def tops_ok_def idle_ok_def)
  from taskSELECT_spec [OF h(4,1,2,3)] obtain t where t:
    "taskSELECT_HIGHEST_PRIORITY_TASK ?s =
      Inr (?s\<lparr>heap := set_index (ReadyList (prio ?s t)) (LItem (StateItem t)) (heap ?s),
             pxCurrentTCB := t, uxTopReadyPriority := uxPriority (tcb ?s t)\<rparr>)" "next_up ?s t"
    "StateItem t = hd (turns (cursor (heap ?s) (ReadyList (prio ?s t))) (Q (ReadyList (prio ?s t))))"
    "lists_ok E Q (set_index (ReadyList (prio ?s t)) (LItem (StateItem t)) (heap ?s))"
    "turns (Some (StateItem t)) (Q (ReadyList (prio ?s t))) =
      rotate1 (turns (cursor (heap ?s) (ReadyList (prio ?s t))) (Q (ReadyList (prio ?s t))))" by blast
  have n: "next_up s t" using t(2) by (simp add: next_up_def)
  have "\<not> stack_overflowed ?s" using ok by (simp add: stack_overflowed_def)
  then have "vTaskSwitchContext s = Inr (switched s t)"
    using t(1) sus by (simp add: vTaskSwitchContext_def taskCHECK_FOR_STACK_OVERFLOW_def
        freertos_trace_task_switched_in_def switched_def Let_def)
  moreover have "cursor (heap (switched s t)) (ReadyList (prio s t)) = Some (StateItem t)"
    by (simp add: switched_def cursor_def)
  ultimately show ?thesis
    using n t switched_core [OF c n] by (intro exI [of _ t]) (simp add: switched_def)
qed


section \<open>Turns\<close>

text \<open>
  The order in which the tasks of one priority get the processor, the next one first.
\<close>

definition turn_order :: "kernel \<Rightarrow> nat \<Rightarrow> u32 list" where
  "turn_order s p = map (pvOwner (heap s)) (turns (cursor (heap s) (ReadyList p)) (list_items (heap s) (ReadyList p)))"

text \<open>The tasks that \<open>n\<close> context switches in a row select.\<close>

fun switches :: "nat \<Rightarrow> kernel \<Rightarrow> kfault + (u32 list \<times> kernel)" where
  "switches 0 s = Inr ([], s)"
| "switches (Suc n) s = bindE (vTaskSwitchContext s) (\<lambda>s1.
     bindE (switches n s1) (\<lambda>(ts, s2). Inr (pxCurrentTCB s1 # ts, s2)))"

lemma vTaskSwitchContext_turn:
  assumes c: "kernel_core E s" and i: "idle_ok s" and sus: "uxSchedulerSuspended s = 0"
    and ok: "\<not> stack_overflowed s"
  shows "\<exists>t. vTaskSwitchContext s = Inr (switched s t) \<and> next_up s t \<and> kernel_core E (switched s t) \<and>
    t = hd (turn_order s (prio s t)) \<and> turn_order (switched s t) (prio s t) = rotate1 (turn_order s (prio s t)) \<and>
    t \<in> set (turn_order s (prio s t))"
proof -
  from core_lists [OF c] obtain Q where Q: "lists_ok E Q (heap s)" by blast
  from vTaskSwitchContext_run [OF c i sus Q ok] obtain t where t:
    "vTaskSwitchContext s = Inr (switched s t)" "next_up s t" "kernel_core E (switched s t)"
    "lists_ok E Q (heap (switched s t))"
    "StateItem t = hd (turns (cursor (heap s) (ReadyList (prio s t))) (Q (ReadyList (prio s t))))"
    "turns (cursor (heap (switched s t)) (ReadyList (prio s t))) (Q (ReadyList (prio s t))) =
      rotate1 (turns (cursor (heap s) (ReadyList (prio s t))) (Q (ReadyList (prio s t))))" by blast
  let ?R = "ReadyList (prio s t)" and ?xs = "turns (cursor (heap s) (ReadyList (prio s t))) (Q (ReadyList (prio s t)))"
  have h: "homes_ok E s" using c by (simp add: kernel_core_def)
  have tok: "task_ok s t" using homes_ok_task [OF h] t(2) by (simp add: next_up_def)
  then have R: "?R \<in> klists E" by (simp add: task_ok_def)
  have l1: "list_items (heap s) ?R = Q ?R" using list_items_ring lists_ok_ring [OF Q R] .
  have l2: "list_items (heap (switched s t)) ?R = Q ?R" using list_items_ring lists_ok_ring [OF t(4) R] .
  have mem: "StateItem t \<in> set (Q ?R)" using lists_ok_home [OF Q R] t(2) by (simp add: next_up_def)
  have "set ?xs = set (Q ?R)"
    using mset_turns [of "cursor (heap s) ?R" "Q ?R"] ring_cursor_mem [OF lists_ok_ring [OF Q R]]
      lists_ok_distinct [OF Q R] by blast
  then have ne: "?xs \<noteq> []" "StateItem t \<in> set ?xs" using mem by auto
  have own: "pvOwner (heap s) (StateItem t) = t" using tok by (simp add: task_ok_def)
  have "t = hd (turn_order s (prio s t))"
    using own ne(1) by (simp add: turn_order_def l1 hd_map t(5) [symmetric])
  moreover have "t \<in> set (turn_order s (prio s t))"
    using own ne(2) unfolding turn_order_def l1 set_map by (metis imageI)
  moreover have "turn_order (switched s t) (prio s t) = rotate1 (turn_order s (prio s t))"
    unfolding turn_order_def l1 l2 t(6) by (simp add: switched_def rotate1_map)
  ultimately show ?thesis using t(1-3) by blast
qed

text \<open>The turn order of a priority lists exactly its ready tasks, each once.\<close>

lemma turn_order_tasks:
  assumes c: "kernel_core E s" and u: "home s (StateItem u) = Some (ReadyList p)"
  shows "distinct (turn_order s p) \<and> set (turn_order s p) = {t. home s (StateItem t) = Some (ReadyList p)}"
proof -
  from core_lists [OF c] obtain Q where Q: "lists_ok E Q (heap s)" by blast
  have h: "homes_ok E s" using c by (simp add: kernel_core_def)
  have R: "ReadyList p \<in> klists E" using homes_okD [OF h u] by blast
  let ?xs = "turns (cursor (heap s) (ReadyList p)) (Q (ReadyList p))"
  have l: "list_items (heap s) (ReadyList p) = Q (ReadyList p)" using list_items_ring lists_ok_ring [OF Q R] .
  have xs: "set ?xs = set (Q (ReadyList p))" "distinct ?xs"
    using mset_turns [of "cursor (heap s) (ReadyList p)" "Q (ReadyList p)"]
      ring_cursor_mem [OF lists_ok_ring [OF Q R]] lists_ok_distinct [OF Q R] by blast+
  have mem: "home s j = Some (ReadyList p) \<longleftrightarrow> j \<in> set (Q (ReadyList p))" for j by (rule lists_ok_home [OF Q R])
  have item: "j = StateItem (pvOwner (heap s) j)" if "j \<in> set ?xs" for j
    using homes_okD [OF h, of j "ReadyList p"] that mem xs(1) by (cases j) (auto simp: task_ok_def)
  have "inj_on (pvOwner (heap s)) (set ?xs)" by (rule inj_onI) (metis item)
  then have "distinct (turn_order s p)" using xs(2) by (simp add: turn_order_def l distinct_map)
  moreover have "set (turn_order s p) = {t. home s (StateItem t) = Some (ReadyList p)}"
  proof (intro set_eqI iffI)
    fix t assume "t \<in> set (turn_order s p)"
    then obtain j where "j \<in> set ?xs" "t = pvOwner (heap s) j" unfolding turn_order_def l by auto
    then show "t \<in> {t. home s (StateItem t) = Some (ReadyList p)}" using item [of j] mem [of j] xs(1) by simp
  next
    fix t assume "t \<in> {t. home s (StateItem t) = Some (ReadyList p)}"
    then have "StateItem t \<in> set ?xs" using mem xs(1) by simp
    moreover from this have "pvOwner (heap s) (StateItem t) = t" using item by (metis item_id.inject(1))
    ultimately show "t \<in> set (turn_order s p)" unfolding turn_order_def l set_map by (metis imageI)
  qed
  ultimately show ?thesis by blast
qed

lemma take_rotate: "Suc n \<le> length xs \<Longrightarrow> hd xs # take n (rotate1 xs) = take (Suc n) xs"
  by (cases xs) simp_all

lemma switches_turns:
  assumes "kernel_core E s" "idle_ok s" "uxSchedulerSuspended s = 0"
    and "home s (StateItem u) = Some (ReadyList p)" "\<forall>v q. home s (StateItem v) = Some (ReadyList q) \<longrightarrow> q \<le> p"
    and "n \<le> length (turn_order s p)"
    and "\<forall>t \<in> insert (pxCurrentTCB s) (set (turn_order s p)). stack_intact s t (pxTopOfStack (tcb s t))"
  shows "\<exists>s'. switches n s = Inr (take n (turn_order s p), s')"
  using assms
proof (induction n arbitrary: s)
  case 0
  then show ?case by simp
next
  case (Suc n)
  have "\<not> stack_overflowed s" using Suc.prems(7) by (simp add: stack_overflowed_iff)
  from vTaskSwitchContext_turn [OF Suc.prems(1-3) this] obtain t where t:
    "vTaskSwitchContext s = Inr (switched s t)" "next_up s t" "kernel_core E (switched s t)"
    "t = hd (turn_order s (prio s t))" "turn_order (switched s t) (prio s t) = rotate1 (turn_order s (prio s t))"
    "t \<in> set (turn_order s (prio s t))" by blast
  have p: "prio s t = p" using t(2) Suc.prems(4,5) by (auto simp: next_up_def order.eq_iff)
  have "\<exists>s'. switches n (switched s t) = Inr (take n (turn_order (switched s t) p), s')"
    using Suc.prems t(3,5,6) p
    by (intro Suc.IH) (simp_all add: switched_def idle_ok_def stack_intact_def)
  then show ?case
    using t(1,4,5) p take_rotate [OF Suc.prems(6)] by (auto simp: switched_def)
qed

end
