(* ===== verification/Kernel_Delay.thy ===== *)
theory Kernel_Delay
  imports Kernel_Sched
begin

text \<open>
  Blocking the running task for a time, resuming the scheduler with the ticks that were
  counted meanwhile, and the two delay functions built from these.
\<close>

section \<open>Blocking the running task\<close>

text \<open>The list a wake time goes to: the overflow list when the time has wrapped.\<close>

definition delay_list :: "u32 \<Rightarrow> kernel \<Rightarrow> list_id option" where
  "delay_list n s = (if xTickCount s + n < xTickCount s then pxOverflowDelayedTaskList s else pxDelayedTaskList s)"

lemma delay_list_cases:
  assumes "delayed_ok s"
  obtains l where "delay_list n s = Some l" "l \<in> {DelayedList1, DelayedList2}"
proof (cases "xTickCount s + n < xTickCount s")
  case True
  then show thesis using assms that by (auto simp: delayed_ok_def delay_list_def)
next
  case False
  then show thesis using assms that by (auto simp: delayed_ok_def delay_list_def)
qed

lemma abs_state_cong:
  "home s' (StateItem t) = home s (StateItem t) \<Longrightarrow> wake s' t = wake s t \<Longrightarrow> xTickCount s' = xTickCount s \<Longrightarrow>
   abs_state s' t = abs_state s t"
  by (simp add: abs_state_def split: option.split list_id.split)

lemma abs_state_blocked:
  "home s (StateItem t) = Some l \<Longrightarrow> l \<in> {DelayedList1, DelayedList2} \<Longrightarrow>
   abs_state s t = Blocked (unat (wake s t - xTickCount s))"
  by (auto simp: abs_state_def)

lemma block_lists:
  assumes Q: "lists_ok E Q (heap s)" and h: "homes_ok E s" and d: "delayed_ok s"
    and cur: "home s (StateItem (pxCurrentTCB s)) = Some (ReadyList p)"
  shows "\<exists>h' Q'. prvAddCurrentTaskToDelayedList n b s = Inr (s\<lparr>heap := h',
        xNextTaskUnblockTime := (if xTickCount s + n < xTickCount s then xNextTaskUnblockTime s
                                 else min (xNextTaskUnblockTime s) (xTickCount s + n))\<rparr>) \<and>
    lists_ok E Q' h' \<and> val_of h' = (val_of (heap s))(StateItem (pxCurrentTCB s) := xTickCount s + n) \<and>
    pvOwner h' = pvOwner (heap s) \<and> pxContainer h' = (home s)(StateItem (pxCurrentTCB s) := delay_list n s)"
proof -
  let ?c = "StateItem (pxCurrentTCB s)" and ?w = "xTickCount s + n"
  have R: "ReadyList p \<in> klists E" and c: "item_ok s (ReadyList p) ?c" using homes_okD [OF h cur] by blast+
  from remove_item [OF Q R cur] obtain h1 where h1:
    "uxListRemove ?c (heap s) = Inr (of_nat (length (Q (ReadyList p)) - 1), h1)"
    "lists_ok E (Q(ReadyList p := remove1 ?c (Q (ReadyList p)))) h1" (is "lists_ok E ?Q1 h1")
    "val_of h1 = val_of (heap s)" "pvOwner h1 = pvOwner (heap s)"
    "pxContainer h1 = (home s)(?c := None)" by blast
  let ?h2 = "listSET_LIST_ITEM_VALUE ?c ?w h1"
  have h2: "lists_ok E ?Q1 ?h2" "val_of ?h2 = (val_of (heap s))(?c := ?w)" "pvOwner ?h2 = pvOwner (heap s)"
    "pxContainer ?h2 = (home s)(?c := None)"
    using set_value_item [OF h1(2), of ?c ?w] fun_cong [OF h1(3)] h1(4,5)
    by (auto simp: listSET_LIST_ITEM_VALUE_def fun_eq_iff)
  obtain l where l: "delay_list n s = Some l" "l \<in> {DelayedList1, DelayedList2}"
    using delay_list_cases [OF d] .
  then have lE: "l \<in> klists E" by auto
  have n2: "pxContainer ?h2 ?c = None" using h2(4) by simp
  have hs: "homes_ok E (s\<lparr>heap := ?h2\<rparr>)"
    by (rule homes_ok_upd [OF h]) (use h2 in \<open>auto split: if_splits\<close>)
  have "Suc (length (?Q1 l)) < 2 ^ 32"
  proof (rule lists_ok_room [of E ?Q1 "s\<lparr>heap := ?h2\<rparr>" l ?c])
    show "?c \<notin> set (?Q1 l)" using lists_ok_home [OF h2(1) lE] n2 by (metis option.distinct(1))
    show "item_ok (s\<lparr>heap := ?h2\<rparr>) l ?c" using c l(2) h2(3) by (auto simp: task_ok_def)
  qed (use hs h2(1) lE in simp_all)
  from insert_sorted_item [OF h2(1) lE n2 this] obtain h3 where h3:
    "vListInsert l ?c ?h2 = Inr h3" "lists_ok E (?Q1(l := insort_after (val_of ?h2) ?c (?Q1 l))) h3"
    "val_of h3 = val_of ?h2" "pvOwner h3 = pvOwner ?h2" "pxContainer h3 = (pxContainer ?h2)(?c := Some l)" by blast
  have "prvAddCurrentTaskToDelayedList n b s = Inr (s\<lparr>heap := h3,
        xNextTaskUnblockTime := (if ?w < xTickCount s then xNextTaskUnblockTime s
                                 else min (xNextTaskUnblockTime s) ?w)\<rparr>)"
    using h1(1) h3(1) l(1)
    by (auto simp: prvAddCurrentTaskToDelayedList_def delay_list_def listp_def on_heap_def Let_def min_def)
  then show ?thesis using h3 h2 l(1) by auto
qed

lemma wrap_less: "(n :: u32) \<noteq> 0 \<Longrightarrow> \<not> k + n < k \<Longrightarrow> k < k + n"
  by (metis add.right_neutral add_left_cancel not_less_iff_gr_or_eq)

lemma block_current:
  assumes c: "kernel_core E s" and n: "n \<noteq> 0"
    and cur: "home s (StateItem (pxCurrentTCB s)) = Some (ReadyList p)"
  shows "\<exists>s'. prvAddCurrentTaskToDelayedList n b s = Inr s' \<and> kernel_core E s' \<and>
    s' = s\<lparr>heap := heap s', xNextTaskUnblockTime := xNextTaskUnblockTime s'\<rparr> \<and>
    home s' = (home s)(StateItem (pxCurrentTCB s) := delay_list n s) \<and>
    wake s' (pxCurrentTCB s) = xTickCount s + n \<and>
    (\<forall>t. t \<noteq> pxCurrentTCB s \<longrightarrow> wake s' t = wake s t)"
proof -
  let ?c = "pxCurrentTCB s"
  from c obtain Q where Q: "lists_ok E Q (heap s)" by (auto simp: kernel_core_def)
  have h: "homes_ok E s" and d: "delayed_ok s" and tp: "tops_ok s" and tm: "timely s"
    and ev: "events_ok s" and cn: "count_ok s" using c by (auto simp: kernel_core_def)
  from block_lists [OF Q h d cur, of n b] obtain h' Q' where h': "prvAddCurrentTaskToDelayedList n b s =
      Inr (s\<lparr>heap := h', xNextTaskUnblockTime := (if xTickCount s + n < xTickCount s then xNextTaskUnblockTime s
                                 else min (xNextTaskUnblockTime s) (xTickCount s + n))\<rparr>)" (is "_ = Inr ?s")
    "lists_ok E Q' h'" "val_of h' = (val_of (heap s))(StateItem ?c := xTickCount s + n)"
    "pvOwner h' = pvOwner (heap s)" "pxContainer h' = (home s)(StateItem ?c := delay_list n s)" by blast
  have w: "wake ?s t = (if t = ?c then xTickCount s + n else wake s t)" for t
    using fun_cong [OF h'(3), of "StateItem t"] by simp
  have dl: "delay_list n s \<in> {Some DelayedList1, Some DelayedList2}"
    using d by (auto simp: delay_list_def delayed_ok_def)
  have "homes_ok E ?s"
    by (rule homes_ok_upd [OF h]) (use h'(4,5) dl homes_ok_task [OF h cur] in \<open>auto split: if_splits\<close>)
  moreover have "tops_ok ?s" using tp dl by (auto simp: tops_ok_def h'(5))
  moreover have "delayed_ok ?s" using d by (simp add: delayed_ok_def)
  moreover have "timely ?s"
    using tm d wrap_less [OF n, of "xTickCount s"]
    unfolding timely_def w by (auto simp: h'(5) delay_list_def delayed_ok_def min_le_iff_disj)
  moreover have "events_ok ?s" using ev dl by (auto simp: events_ok_def blocked_def h'(5))
  moreover have "known ?s = known s" using cur dl by (auto simp: known_def h'(5))
  then have "count_ok ?s" using cn by (simp add: count_ok_def)
  ultimately have "kernel_core E ?s" using h'(2) by (auto simp: kernel_core_def)
  then show ?thesis
    using h'(1,5) w by (intro exI [of _ ?s]) simp
qed

lemma abs_block:
  assumes n: "n \<noteq> 0" and d: "delayed_ok s"
    and h: "home s' = (home s)(StateItem t := delay_list n s)" and t: "wake s' t = xTickCount s + n"
    and w: "\<forall>u. u \<noteq> t \<longrightarrow> wake s' u = wake s u" and k: "xTickCount s' = xTickCount s"
  shows "abs_state s' = (abs_state s)(t := Blocked (unat n))"
proof
  fix u
  obtain l where l: "delay_list n s = Some l" "l \<in> {DelayedList1, DelayedList2}"
    using delay_list_cases [OF d] .
  show "abs_state s' u = ((abs_state s)(t := Blocked (unat n))) u"
  proof (cases "u = t")
    case True
    then show ?thesis using abs_state_blocked [of s' t l] l h t k by simp
  next
    case False
    then show ?thesis using abs_state_cong [of s' u s] h w k by simp
  qed
qed

section \<open>The tasks that became ready while the scheduler was suspended\<close>

definition pending :: "kernel \<Rightarrow> u32 set" where
  "pending s = {t. home s (EventItem t) = Some PendingReadyList}"

lemma woken_yield:
  assumes "woken (s\<lparr>xYieldPending := y\<rparr>) W s'"
  shows "woken s W (s'\<lparr>xYieldPending := xYieldPending s\<rparr>)"
proof -
  have "s' = s\<lparr>xYieldPending := y, heap := heap s', uxTopReadyPriority := uxTopReadyPriority s',
            xNextTaskUnblockTime := xNextTaskUnblockTime s'\<rparr>"
    using assms by (simp add: woken_def)
  then have "s'\<lparr>xYieldPending := xYieldPending s\<rparr> = s\<lparr>heap := heap s', uxTopReadyPriority := uxTopReadyPriority s',
            xNextTaskUnblockTime := xNextTaskUnblockTime s'\<rparr>"
    by (cases s; cases s'; simp)
  then show ?thesis using assms by (simp add: woken_def)
qed

text \<open>One round: out of the pending list, out of the delayed list, into the ready list.\<close>

lemma drain_one:
  assumes Q: "lists_ok E Q (heap s)" and h: "homes_ok E s" and tp: "tops_ok s" and ev: "events_ok s"
    and t: "home s (EventItem t) = Some PendingReadyList"
  shows "\<exists>s' Q'. bindE (on_heap (listREMOVE_ITEM (EventItem t)) s) (\<lambda>s1.
                bindE (on_heap (listREMOVE_ITEM (StateItem t)) s1) (\<lambda>s2.
                prvAddTaskToReadyList t s2)) = Inr s' \<and>
    woken s {t} s' \<and> tops_ok s' \<and> lists_ok E Q' (heap s') \<and>
    xNextTaskUnblockTime s' = xNextTaskUnblockTime s \<and>
    Q' PendingReadyList = remove1 (EventItem t) (Q PendingReadyList)"
proof -
  have P: "PendingReadyList \<in> klists E" by simp
  have tok: "task_ok s t" using homes_okD [OF h t] by simp
  from ev t obtain l where l: "home s (StateItem t) = Some l" "l \<in> {DelayedList1, DelayedList2}"
    by (fastforce simp: events_ok_def blocked_def)
  then have lE: "l \<in> klists E" by auto
  from remove_item [OF Q P t] obtain h1 where h1:
    "listREMOVE_ITEM (EventItem t) (heap s) = Inr h1"
    "lists_ok E (Q(PendingReadyList := remove1 (EventItem t) (Q PendingReadyList))) h1" (is "lists_ok E ?Q1 h1")
    "val_of h1 = val_of (heap s)" "pvOwner h1 = pvOwner (heap s)"
    "pxContainer h1 = (home s)(EventItem t := None)" by blast
  have "pxContainer h1 (StateItem t) = Some l" using h1(5) l(1) by simp
  from remove_item [OF h1(2) lE this] obtain h2 where h2:
    "listREMOVE_ITEM (StateItem t) h1 = Inr h2"
    "lists_ok E (?Q1(l := remove1 (StateItem t) (?Q1 l))) h2" (is "lists_ok E ?Q2 h2")
    "val_of h2 = val_of h1" "pvOwner h2 = pvOwner h1"
    "pxContainer h2 = (pxContainer h1)(StateItem t := None)" by blast
  let ?s2 = "s\<lparr>heap := h2\<rparr>"
  have hs2: "homes_ok E ?s2"
    by (rule homes_ok_upd [OF h]) (use h1 h2 in \<open>auto split: if_splits\<close>)
  have ts2: "task_ok ?s2 t" "home ?s2 (StateItem t) = None"
    using tok h1 h2 by (simp_all add: task_ok_def)
  have Q2s: "lists_ok E ?Q2 (heap ?s2)" using h2 by simp
  from add_ready [OF Q2s hs2 ts2] obtain h3 where h3:
    "prvAddTaskToReadyList t ?s2 = Inr (?s2\<lparr>heap := h3, uxTopReadyPriority := max (uxTopReadyPriority ?s2) (uxPriority (tcb ?s2 t))\<rparr>)"
    "lists_ok E (?Q2(ReadyList (prio ?s2 t) := ins_before (cursor (heap ?s2) (ReadyList (prio ?s2 t))) (StateItem t)
        (?Q2 (ReadyList (prio ?s2 t))))) h3" (is "lists_ok E ?Q3 h3")
    "val_of h3 = val_of (heap ?s2)" "pvOwner h3 = pvOwner (heap ?s2)"
    "pxContainer h3 = (home ?s2)(StateItem t := Some (ReadyList (prio ?s2 t)))" by blast
  let ?s3 = "?s2\<lparr>heap := h3, uxTopReadyPriority := max (uxTopReadyPriority ?s2) (uxPriority (tcb ?s2 t))\<rparr>"
  have "woken s {t} ?s3"
    using h1 h2 h3 by (simp add: woken_def)
  moreover have "tops_ok ?s3"
  proof (rule tops_add_ready)
    show "tops_ok ?s2" using tp h1(5) h2(5) by (auto simp: tops_ok_def split: if_splits)
    show "task_ok ?s2 t" using ts2 by simp
    show "pxContainer h3 = (home ?s2)(StateItem t := Some (ReadyList (prio ?s2 t)))" by (rule h3(5))
  qed
  moreover have "?Q3 PendingReadyList = remove1 (EventItem t) (Q PendingReadyList)" using l(2) by auto
  ultimately show ?thesis
    using h1(1) h2(1) h3(1,2) by (intro exI [of _ ?s3] exI [of _ ?Q3]) (simp add: on_heap_def)
qed


lemma drain_pending_spec:
  assumes "lists_ok E Q (heap s)" "homes_ok E s" "tops_ok s" "events_ok s"
  shows "\<exists>last' s' Q'. drain_pending last_tcb s = Some (Inr (last', s'\<lparr>xYieldPending := xYieldPending s \<or>
      (\<exists>t \<in> pending s. uxPriority (tcb s t) > uxPriority (tcb s (pxCurrentTCB s)))\<rparr>)) \<and>
    woken s (pending s) s' \<and> tops_ok s' \<and> lists_ok E Q' (heap s') \<and>
    xNextTaskUnblockTime s' = xNextTaskUnblockTime s \<and> (last' \<noteq> 0 \<longleftrightarrow> last_tcb \<noteq> 0 \<or> pending s \<noteq> {})"
  using assms
proof (induction "Q PendingReadyList" arbitrary: s Q last_tcb)
  case Nil
  have mem: "home s i = Some PendingReadyList \<longleftrightarrow> i \<in> set (Q PendingReadyList)" for i
    using lists_ok_home [OF Nil.prems(1)] by simp
  have "pending s = {}" using mem Nil.hyps by (simp add: pending_def)
  moreover have "drain_pending last_tcb s = Some (Inr (last_tcb, s))"
    using list_empty [OF Nil.prems(1), of PendingReadyList] Nil.hyps by (subst drain_pending.simps) simp
  ultimately show ?case
    using Nil.prems woken_empty by (intro exI [of _ last_tcb] exI [of _ s] exI [of _ Q]) simp
next
  case (Cons i js)
  have Q0: "Q PendingReadyList = i # js" using Cons.hyps(2) by simp
  have mem: "home s j = Some PendingReadyList \<longleftrightarrow> j \<in> set (i # js)" for j
    using lists_ok_home [OF Cons.prems(1), of PendingReadyList j] Q0 by simp
  have "item_ok s PendingReadyList i" using mem [of i] homes_okD [OF Cons.prems(2)] by simp
  then obtain t where t: "i = EventItem t" "task_ok s t" by (cases i) auto
  have th: "home s (EventItem t) = Some PendingReadyList" using mem [of i] t by simp
  have ne: "\<not> listLIST_IS_EMPTY PendingReadyList (heap s)"
    using list_empty [OF Cons.prems(1), of PendingReadyList] Q0 by simp
  have owner: "listGET_OWNER_OF_HEAD_ENTRY PendingReadyList (heap s) = Inr t"
    using list_head [OF Cons.prems(1) _ Q0] t by (simp add: task_ok_def)
  from drain_one [OF Cons.prems th] obtain s1 Q1 where s1:
    "bindE (on_heap (listREMOVE_ITEM (EventItem t)) s) (\<lambda>s1.
                bindE (on_heap (listREMOVE_ITEM (StateItem t)) s1) (\<lambda>s2.
                prvAddTaskToReadyList t s2)) = Inr s1"
    "woken s {t} s1" "tops_ok s1" "lists_ok E Q1 (heap s1)" "xNextTaskUnblockTime s1 = xNextTaskUnblockTime s"
    "Q1 PendingReadyList = remove1 (EventItem t) (Q PendingReadyList)" by blast
  note w1 = wokenD [OF s1(2)]
  let ?y = "uxPriority (tcb s1 t) > uxPriority (tcb s1 (pxCurrentTCB s1))"
  let ?s1 = "if ?y then s1\<lparr>xYieldPending := True\<rparr> else s1"
  have s1y: "?s1 = s1\<lparr>xYieldPending := xYieldPending s \<or> ?y\<rparr>" using w1 by simp
  have tb: "blocked s t" using Cons.prems(4) th by (simp add: events_ok_def)
  have h1: "homes_ok E s1"
    by (rule woken_homes_ok [OF s1(2) Cons.prems(2)]) (use tb in simp)
  have e1: "events_ok s1" using wakes_events [of s "{t}" s1] woken_frame [OF s1(2)] Cons.prems(4) by simp
  have "js = Q1 PendingReadyList" using s1(6) Q0 t by simp
  moreover have "lists_ok E Q1 (heap ?s1)" "tops_ok ?s1" "events_ok ?s1"
    using s1(3,4) e1 by (simp_all add: tops_ok_def events_ok_def blocked_def)
  moreover have "homes_ok E ?s1" by (rule homes_ok_upd [OF h1]) (auto split: if_splits)
  ultimately obtain last' s' Q' where s': "drain_pending t ?s1 =
      Some (Inr (last', s'\<lparr>xYieldPending := xYieldPending ?s1 \<or>
        (\<exists>u \<in> pending ?s1. uxPriority (tcb ?s1 u) > uxPriority (tcb ?s1 (pxCurrentTCB ?s1)))\<rparr>))"
    "woken ?s1 (pending ?s1) s'" "tops_ok s'" "lists_ok E Q' (heap s')"
    "xNextTaskUnblockTime s' = xNextTaskUnblockTime ?s1" "last' \<noteq> 0 \<longleftrightarrow> t \<noteq> 0 \<or> pending ?s1 \<noteq> {}"
    using Cons.hyps(1) [of Q1 ?s1 t] by blast
  have W: "pending s = insert t (pending ?s1)" "pending ?s1 = pending s1"
    using w1 th by (auto simp: pending_def)
  have run: "drain_pending last_tcb s = drain_pending t ?s1"
    using ne owner s1(1) by (subst drain_pending.simps) simp
  let ?r = "s'\<lparr>xYieldPending := xYieldPending s1\<rparr>"
  have "woken s1 (pending ?s1) ?r"
    using woken_yield [of "xYieldPending s \<or> ?y" s1] s'(2) unfolding s1y by blast
  then have "woken s (pending s) ?r" using woken_trans [OF s1(2)] W(1) by simp
  moreover have "tops_ok ?r" using s'(3) by (simp add: tops_ok_def)
  moreover have "drain_pending last_tcb s = Some (Inr (last', ?r\<lparr>xYieldPending := xYieldPending s \<or>
      (\<exists>t \<in> pending s. uxPriority (tcb s t) > uxPriority (tcb s (pxCurrentTCB s)))\<rparr>))"
    using run s'(1) W w1 by (auto simp: s1y)
  moreover have "last' \<noteq> 0" using s'(6) t(2) by (simp add: task_ok_def)
  ultimately show ?case
    using s'(4,5) s1(5) W(1) by (intro exI [of _ last'] exI [of _ ?r] exI [of _ Q']) simp
qed

section \<open>Replaying the ticks\<close>

lemma tick_spec_pow_Suc: "(tick_spec pr ^^ Suc n) A = (tick_spec pr ^^ n) (tick_spec pr A)"
  by (simp add: funpow_swap1)

lemma replay_ticks_spec:
  assumes "kernel_core E s" "pending_ok s" "idle_ok s" "uxSchedulerSuspended s = 0"
  shows "\<exists>s'. replay_ticks n s = Inr s' \<and> kernel_core E s' \<and> pending_ok s' \<and> idle_ok s' \<and>
    tcb s' = tcb s \<and> memory s' = memory s \<and> pxCurrentTCB s' = pxCurrentTCB s \<and>
    xSchedulerRunning s' = xSchedulerRunning s \<and> xCriticalNesting s' = xCriticalNesting s \<and>
    irq_enabled s' = irq_enabled s \<and> saved_sp s' = saved_sp s \<and>
    uxSchedulerSuspended s' = 0 \<and> xIdleTaskHandle s' = xIdleTaskHandle s \<and> xPendedTicks s' = xPendedTicks s \<and>
    xTickCount s' = xTickCount s + of_nat n \<and> abs_state s' = (tick_spec (prio s) ^^ n) (abs_state s)"
  using assms
proof (induction n arbitrary: s)
  case 0
  then show ?case by simp
next
  case (Suc n)
  from xTaskIncrementTick_run [OF Suc.prems(1,4)] obtain sw s1 where s1:
    "xTaskIncrementTick s = Inr (sw, s1)" "kernel_core E s1" "same_frame s s1" "wakes_to s (expiring s) s1"
    "xTickCount s1 = xTickCount s + 1" by blast
  have W: "t \<in> expiring s \<Longrightarrow> blocked s t" for t by (simp add: expiring_def)
  let ?s1 = "if sw then s1\<lparr>xYieldPending := True\<rparr> else s1"
  have sel: "heap ?s1 = heap s1" "tcb ?s1 = tcb s1" "xTickCount ?s1 = xTickCount s1"
    by simp_all
  then have abs1: "abs_state ?s1 = abs_state s1" by (intro ext abs_state_cong) simp_all
  have f1: "same_frame s ?s1" using s1(3) by (simp add: same_frame_def)
  have i1: "idle_ok s1" by (rule wakes_idle [OF s1(4,3) W Suc.prems(3)])
  have p1: "pending_ok s1" by (rule wakes_pending [OF s1(4) Suc.prems(2)])
  from core_lists [OF s1(2)] obtain Q1 where "lists_ok E Q1 (heap s1)" by blast
  then have c1: "kernel_core E (s1\<lparr>xYieldPending := True\<rparr>)"
    using s1(2) core_next [OF s1(2)]
    by (intro core_carry [OF s1(2), of Q1]) (simp_all add: kernel_core_def tops_ok_def)
  have "kernel_core E ?s1" "pending_ok ?s1" "idle_ok ?s1" "uxSchedulerSuspended ?s1 = 0"
    using c1 s1(2,3) i1 p1 Suc.prems(4)
    by (cases sw; simp add: pending_ok_def idle_ok_def same_frame_def)+
  from Suc.IH [OF this] obtain s' where s': "replay_ticks n ?s1 = Inr s'" "kernel_core E s'" "pending_ok s'"
    "idle_ok s'" "tcb s' = tcb ?s1" "memory s' = memory ?s1" "pxCurrentTCB s' = pxCurrentTCB ?s1"
    "xSchedulerRunning s' = xSchedulerRunning ?s1" "xCriticalNesting s' = xCriticalNesting ?s1"
    "irq_enabled s' = irq_enabled ?s1" "saved_sp s' = saved_sp ?s1"
    "uxSchedulerSuspended s' = 0" "xIdleTaskHandle s' = xIdleTaskHandle ?s1" "xPendedTicks s' = xPendedTicks ?s1"
    "xTickCount s' = xTickCount ?s1 + of_nat n"
    "abs_state s' = (tick_spec (prio ?s1) ^^ n) (abs_state ?s1)" by blast
  have "prio ?s1 = prio s" using f1 by (simp add: same_frame_def)
  then have "abs_state s' = (tick_spec (prio s) ^^ Suc n) (abs_state s)"
    using s'(16) abs_tick [OF Suc.prems(1) s1(3,4,5)] by (simp only: abs1 tick_spec_pow_Suc)
  moreover have "replay_ticks (Suc n) s = Inr s'" using s1(1) s'(1) by simp
  moreover have "xTickCount s' = xTickCount s + of_nat (Suc n)"
    using s'(15) s1(5) by (simp add: sel algebra_simps)
  ultimately show ?case
    using s'(2-14) f1 by (intro exI [of _ s']) (simp add: same_frame_def)
qed

end
