(* ===== verification/Kernel_Resume.thy ===== *)
theory Kernel_Resume
  imports Kernel_Delay
begin

text \<open>
  \<open>xTaskResumeAll\<close>, the delay functions and \<open>xTaskCatchUpTicks\<close>: what each call does to the
  abstract states, under the invariant. The only way not to return is the stack overflow hook,
  and it is taken only when the stack of the running task has overflowed.
\<close>

section \<open>Yielding\<close>

lemma portYIELD_run:
  assumes c: "kernel_core E s" and i: "idle_ok s" and sus: "uxSchedulerSuspended s = 0"
  shows "if healthy s
    then \<exists>t. portYIELD s = Inr (switched (save_context s) t) \<and> next_up s t \<and>
      kernel_core E (switched (save_context s) t)
    else portYIELD s = Inl StackOverflow"
proof -
  let ?s = "save_context s"
  from core_lists [OF save_context_core [OF c]] obtain Q where Q: "lists_ok E Q (heap ?s)" by blast
  have i': "idle_ok ?s" "uxSchedulerSuspended ?s = 0" using i sus by (simp_all add: idle_ok_def)
  show ?thesis
  proof (cases "healthy s")
    case False
    then show ?thesis
      using switch_overflowed [OF i'(2)] by (simp add: portYIELD_def save_context_overflowed)
  next
    case True
    then have "\<not> stack_overflowed ?s" by (simp add: save_context_overflowed)
    from vTaskSwitchContext_run [OF save_context_core [OF c] i' Q this] obtain t where
      "vTaskSwitchContext ?s = Inr (switched ?s t)" "next_up ?s t" "kernel_core E (switched ?s t)" by blast
    then show ?thesis using True by (auto simp: portYIELD_def next_up_def)
  qed
qed

lemma switched_sel [simp]:
  "home (switched s t) = home s" "val_of (heap (switched s t)) = val_of (heap s)"
  "tcb (switched s t) = tcb s" "pxCurrentTCB (switched s t) = t"
  "xTickCount (switched s t) = xTickCount s" "xIdleTaskHandle (switched s t) = xIdleTaskHandle s"
  "uxSchedulerSuspended (switched s t) = uxSchedulerSuspended s" "xPendedTicks (switched s t) = xPendedTicks s"
  "xCriticalNesting (switched s t) = xCriticalNesting s" "irq_enabled (switched s t) = irq_enabled s"
  "xYieldPending (switched s t) = False" "xSchedulerRunning (switched s t) = xSchedulerRunning s"
  by (simp_all add: switched_def)

lemma switched_preserves [simp]:
  "idle_ok (switched s t) = idle_ok s" "pending_ok (switched s t) = pending_ok s"
  "abs_state (switched s t) = abs_state s" "next_up (switched s t) u = next_up s u"
  by (simp_all add: idle_ok_def pending_ok_def next_up_def)
    (intro ext abs_state_cong; simp add: switched_def)

lemma save_context_preserves [simp]:
  "idle_ok (save_context s) = idle_ok s" "pending_ok (save_context s) = pending_ok s"
  "abs_state (save_context s) = abs_state s" "next_up (save_context s) u = next_up s u"
  by (simp_all add: idle_ok_def pending_ok_def next_up_def) (intro ext abs_state_cong; simp)

text \<open>
  What a call that may switch the context leaves: the invariant and the unsuspended
  scheduler, the critical sections as they were, and, when the context was switched, the
  ready task of the highest priority as the current one.
\<close>

definition settled :: "nat set \<Rightarrow> kernel \<Rightarrow> kernel \<Rightarrow> bool" where
  "settled E s s' \<longleftrightarrow> kernel_ok E s' \<and> uxSchedulerSuspended s' = 0 \<and> prio s' = prio s \<and>
     xIdleTaskHandle s' = xIdleTaskHandle s \<and> xSchedulerRunning s' = xSchedulerRunning s"

lemma portYIELD_settled:
  assumes k: "kernel_ok E s" and sus: "uxSchedulerSuspended s = 0"
  shows "if healthy s
    then \<exists>s'. portYIELD s = Inr s' \<and> settled E s s' \<and> next_up s' (pxCurrentTCB s') \<and>
      abs_state s' = abs_state s \<and> xTickCount s' = xTickCount s \<and>
      xCriticalNesting s' = xCriticalNesting s \<and> irq_enabled s' = irq_enabled s
    else portYIELD s = Inl StackOverflow"
proof -
  have c: "kernel_core E s" "idle_ok s" using k by (simp_all add: kernel_ok_def)
  show ?thesis
    using portYIELD_run [OF c sus] k sus by (auto simp: settled_def kernel_ok_def)
qed

text \<open>The same by the value the call returned.\<close>

lemma portYIELD_done:
  assumes "kernel_ok E s" "uxSchedulerSuspended s = 0" "portYIELD s = Inr s'"
  shows "settled E s s' \<and> next_up s' (pxCurrentTCB s') \<and> abs_state s' = abs_state s \<and> healthy s"
  using portYIELD_settled [OF assms(1,2)] assms(3) by (cases "healthy s") auto

lemma portYIELD_fault:
  assumes "kernel_ok E s" "uxSchedulerSuspended s = 0" "portYIELD s = Inl e"
  shows "e = StackOverflow \<and> \<not> healthy s"
  using portYIELD_settled [OF assms(1,2)] assms(3) by (cases "healthy s") auto

section \<open>Resuming the scheduler\<close>

definition wake_spec :: "u32 set \<Rightarrow> (u32 \<Rightarrow> nat) \<Rightarrow> (u32 \<Rightarrow> task_state) \<Rightarrow> u32 \<Rightarrow> task_state" where
  "wake_spec W pr A t = (if t \<in> W then Ready (pr t) else A t)"

lemma wake_spec_none [simp]: "wake_spec {} pr A = A"
  by (simp add: wake_spec_def fun_eq_iff)

lemma abs_woken: "woken s W s' \<Longrightarrow> abs_state s' = wake_spec W (prio s) (abs_state s)"
  using wokenD [of s W s'] abs_state_cong [of s' _ s] by (auto simp: wake_spec_def abs_state_def)

lemma known_bound: "homes_ok E s \<Longrightarrow> card (known s) < 2 ^ 32"
proof -
  assume h: "homes_ok E s"
  have "known s \<subseteq> UNIV - {0}"
  proof
    fix t assume "t \<in> known s"
    then obtain l where "home s (StateItem t) = Some l" by (auto simp: known_def)
    then show "t \<in> UNIV - {0}" using homes_ok_task [OF h] by (simp add: task_ok_def)
  qed
  then have "card (known s) \<le> card (UNIV - {0 :: u32})" by (intro card_mono) simp_all
  then show ?thesis by (simp add: card_Diff_singleton card_word)
qed

lemma count_pos:
  assumes "kernel_core E s" "idle_ok s"
  shows "uxCurrentNumberOfTasks s > 0"
proof -
  have "xIdleTaskHandle s \<in> known s" using assms(2) by (simp add: idle_ok_def known_def)
  then have "card (known s) > 0" by (auto simp: card_gt_0_iff)
  moreover have "card (known s) < 2 ^ 32" using assms(1) known_bound [of E s] by (simp add: kernel_core_def)
  ultimately have "unat (uxCurrentNumberOfTasks s) > 0"
    using assms(1) by (simp add: kernel_core_def count_ok_def unat_of_nat)
  then show ?thesis by (simp add: unat_gt_0 word_gt_0)
qed

text \<open>The first part of \<open>resume_body\<close>: the pending tasks become ready.\<close>

lemma resume_drain:
  assumes c: "kernel_core E s" and i: "idle_ok s"
  shows "\<exists>t s1 s2. loopE (drain_pending 0 s) = Inr (t, s1) \<and>
      (if t \<noteq> 0 then prvResetNextTaskUnblockTime s1 else Inr s1) = Inr s2 \<and>
      kernel_core E s2 \<and> pending_ok s2 \<and> idle_ok s2 \<and> same_frame s s2 \<and>
      xTickCount s2 = xTickCount s \<and> abs_state s2 = wake_spec (pending s) (prio s) (abs_state s)"
proof -
  from c obtain Q where Q: "lists_ok E Q (heap s)" by (auto simp: kernel_core_def)
  have h: "homes_ok E s" "tops_ok s" "events_ok s" "delayed_ok s" "timely s" using c by (auto simp: kernel_core_def)
  from drain_pending_spec [OF Q h(1-3), of 0] obtain t s' Q' where s': "drain_pending 0 s = Some (Inr (t, s'\<lparr>xYieldPending :=
      xYieldPending s \<or> (\<exists>t \<in> pending s. uxPriority (tcb s t) > uxPriority (tcb s (pxCurrentTCB s)))\<rparr>))"
    "woken s (pending s) s'" "tops_ok s'" "lists_ok E Q' (heap s')"
    "xNextTaskUnblockTime s' = xNextTaskUnblockTime s" by blast
  note w = wokenD [OF s'(2)]
  let ?y = "xYieldPending s \<or> (\<exists>t \<in> pending s. uxPriority (tcb s t) > uxPriority (tcb s (pxCurrentTCB s)))"
  let ?s1 = "s'\<lparr>xYieldPending := ?y\<rparr>"
  have P: "t \<in> pending s \<Longrightarrow> blocked s t" for t using h(3) by (simp add: pending_def events_ok_def)
  have f: "same_frame s s'" "wakes_to s (pending s) s'" using woken_frame [OF s'(2)] by blast+
  have hs': "homes_ok E s'" by (rule woken_homes_ok [OF s'(2) h(1) P])
  have d': "delayed_ok s'" using h(4) w by (simp add: delayed_ok_def)
  have t': "timely s'" using h(4,5) s'(5) unfolding timely_def w by (auto simp: delayed_ok_def)
  have c': "kernel_core E s'" by (rule same_frame_core [OF c f P s'(4) hs' s'(3) d' t'])
  have p': "pending_ok s'" using w(21) by (auto simp: pending_ok_def pending_def)
  have i': "idle_ok s'" by (rule wakes_idle [OF f(2,1) P i])
  have c1: "kernel_core E ?s1"
    using c' s'(3,4) core_next [OF c'] by (intro core_carry [OF c', of Q']) (simp_all add: tops_ok_def)
  have h1: "homes_ok E ?s1" "delayed_ok ?s1" "lists_ok E Q' (heap ?s1)"
    using c1 s'(4) by (simp_all add: kernel_core_def)
  have step: "\<exists>s2 v. (if t \<noteq> 0 then prvResetNextTaskUnblockTime ?s1 else Inr ?s1) = Inr s2 \<and>
      s2 = ?s1\<lparr>xNextTaskUnblockTime := v\<rparr> \<and> kernel_core E s2"
  proof (cases "t = 0")
    case True
    then show ?thesis using c1 by (intro exI [of _ ?s1] exI [of _ "xNextTaskUnblockTime s'"]) simp
  next
    case False
    from prvResetNextTaskUnblockTime_spec [OF h1(3,1,2)] obtain v where v:
      "prvResetNextTaskUnblockTime ?s1 = Inr (?s1\<lparr>xNextTaskUnblockTime := v\<rparr>)"
      "\<forall>t. home ?s1 (StateItem t) = pxDelayedTaskList ?s1 \<longrightarrow> v \<le> wake ?s1 t" by blast
    have "kernel_core E (?s1\<lparr>xNextTaskUnblockTime := v\<rparr>)"
      using s'(3,4) v(2) by (intro core_carry [OF c1, of Q']) (simp_all add: tops_ok_def)
    then show ?thesis using v(1) False by (intro exI [of _ "?s1\<lparr>xNextTaskUnblockTime := v\<rparr>"] exI [of _ v]) simp
  qed
  then obtain s2 v where s2: "(if t \<noteq> 0 then prvResetNextTaskUnblockTime ?s1 else Inr ?s1) = Inr s2"
    "s2 = ?s1\<lparr>xNextTaskUnblockTime := v\<rparr>" "kernel_core E s2" by blast
  have "abs_state s2 = abs_state s'" unfolding s2(2) by (intro ext abs_state_cong) simp_all
  then have "abs_state s2 = wake_spec (pending s) (prio s) (abs_state s)" using abs_woken [OF s'(2)] by simp
  moreover have "pending_ok s2" "idle_ok s2" "same_frame s s2" "xTickCount s2 = xTickCount s"
    using p' i' f(1) w unfolding s2(2) by (simp_all add: pending_ok_def idle_ok_def same_frame_def)
  ultimately show ?thesis
    using s'(1) s2(1,3) by (intro exI [of _ t] exI [of _ ?s1] exI [of _ s2]) (simp add: loopE_def)
qed


text \<open>What resuming does to the abstract states: the pending tasks wake, then the ticks run.\<close>

definition resume_spec :: "kernel \<Rightarrow> u32 \<Rightarrow> task_state" where
  "resume_spec s = (tick_spec (prio s) ^^ unat (xPendedTicks s)) (wake_spec (pending s) (prio s) (abs_state s))"

text \<open>
  How resuming ends: either it switched the context, from a healthy task to a ready one of the
  highest priority, or the same task still runs, no yield is pending and its stack is as before.
\<close>

definition resumed :: "bool \<Rightarrow> kernel \<Rightarrow> kernel \<Rightarrow> bool" where
  "resumed y s s' \<longleftrightarrow> (if y then healthy s \<and> next_up s' (pxCurrentTCB s')
     else pxCurrentTCB s' = pxCurrentTCB s \<and> \<not> xYieldPending s' \<and> healthy s' = healthy s)"

lemma resumed_same: "healthy s1 = healthy s \<Longrightarrow> pxCurrentTCB s1 = pxCurrentTCB s \<Longrightarrow> resumed y s1 s' = resumed y s s'"
  by (simp add: resumed_def)

lemma resume_body_spec:
  assumes c: "kernel_core E s" and i: "idle_ok s" and sus: "uxSchedulerSuspended s = 0"
  shows "\<not> healthy s \<and> resume_body s = Inl StackOverflow \<or>
    (\<exists>y s'. resume_body s = Inr (y, s') \<and> settled E s s' \<and> abs_state s' = resume_spec s \<and>
      xTickCount s' = xTickCount s + xPendedTicks s \<and>
      xCriticalNesting s' = xCriticalNesting s \<and> irq_enabled s' = irq_enabled s \<and> resumed y s s')"
proof -
  from resume_drain [OF c i] obtain t s1 s2 where s2: "loopE (drain_pending 0 s) = Inr (t, s1)"
    "(if t \<noteq> 0 then prvResetNextTaskUnblockTime s1 else Inr s1) = Inr s2"
    "kernel_core E s2" "pending_ok s2" "idle_ok s2" "same_frame s s2" "xTickCount s2 = xTickCount s"
    "abs_state s2 = wake_spec (pending s) (prio s) (abs_state s)" by blast
  have f2: "tcb s2 = tcb s" "uxSchedulerSuspended s2 = 0" "xPendedTicks s2 = xPendedTicks s"
    "pxCurrentTCB s2 = pxCurrentTCB s" "xCriticalNesting s2 = xCriticalNesting s" "irq_enabled s2 = irq_enabled s"
    "xIdleTaskHandle s2 = xIdleTaskHandle s" "xSchedulerRunning s2 = xSchedulerRunning s"
    "memory s2 = memory s" "saved_sp s2 = saved_sp s"
    using s2(6) sus by (simp_all add: same_frame_def)
  have "\<exists>s3. (if xPendedTicks s2 > 0
            then bindE (replay_ticks (unat (xPendedTicks s2)) s2) (\<lambda>s3. Inr (s3\<lparr>xPendedTicks := 0\<rparr>))
            else Inr s2) = Inr s3 \<and> kernel_ok E s3 \<and> uxSchedulerSuspended s3 = 0 \<and> tcb s3 = tcb s \<and>
      pxCurrentTCB s3 = pxCurrentTCB s \<and> xCriticalNesting s3 = xCriticalNesting s \<and>
      irq_enabled s3 = irq_enabled s \<and> xTickCount s3 = xTickCount s + xPendedTicks s \<and>
      xIdleTaskHandle s3 = xIdleTaskHandle s \<and> xSchedulerRunning s3 = xSchedulerRunning s \<and>
      abs_state s3 = resume_spec s \<and> healthy s3 = healthy s"
  proof (cases "xPendedTicks s2 > 0")
    case False
    then have "xPendedTicks s = 0" using f2 by (simp add: word_gt_0)
    then show ?thesis
      using False s2 f2 healthy_same [of s2 s] by (intro exI [of _ s2]) (simp add: kernel_ok_def resume_spec_def)
  next
    case True
    from replay_ticks_spec [OF s2(3,4,5) f2(2), of "unat (xPendedTicks s2)"] obtain s3 where s3:
      "replay_ticks (unat (xPendedTicks s2)) s2 = Inr s3" "kernel_core E s3" "pending_ok s3" "idle_ok s3"
      "tcb s3 = tcb s2" "pxCurrentTCB s3 = pxCurrentTCB s2" "xSchedulerRunning s3 = xSchedulerRunning s2"
      "xCriticalNesting s3 = xCriticalNesting s2" "irq_enabled s3 = irq_enabled s2"
      "uxSchedulerSuspended s3 = 0" "xIdleTaskHandle s3 = xIdleTaskHandle s2"
      "xTickCount s3 = xTickCount s2 + of_nat (unat (xPendedTicks s2))"
      "abs_state s3 = (tick_spec (prio s2) ^^ unat (xPendedTicks s2)) (abs_state s2)"
      "memory s3 = memory s2" "saved_sp s3 = saved_sp s2" by blast
    let ?s3 = "s3\<lparr>xPendedTicks := 0\<rparr>"
    from core_lists [OF s3(2)] obtain Q where Q: "lists_ok E Q (heap s3)" by blast
    have "kernel_core E ?s3"
      using s3(2) Q core_next [OF s3(2)]
      by (intro core_carry [OF s3(2), of Q]) (simp_all add: tops_ok_def kernel_core_def)
    then have "kernel_ok E ?s3"
      using s3(3,4) by (simp add: kernel_ok_def pending_ok_def idle_ok_def)
    moreover have "abs_state ?s3 = resume_spec s"
    proof -
      have "abs_state ?s3 = abs_state s3" by (intro ext abs_state_cong) simp_all
      then show ?thesis using s3(13) f2(1,3) s2(8) by (simp add: resume_spec_def)
    qed
    ultimately show ?thesis
      using True s3 f2 s2(7) healthy_same [of ?s3 s] by (intro exI [of _ ?s3]) simp
  qed
  then obtain s3 where s3: "(if xPendedTicks s2 > 0
            then bindE (replay_ticks (unat (xPendedTicks s2)) s2) (\<lambda>s3. Inr (s3\<lparr>xPendedTicks := 0\<rparr>))
            else Inr s2) = Inr s3" "kernel_ok E s3" "uxSchedulerSuspended s3 = 0" "tcb s3 = tcb s"
      "pxCurrentTCB s3 = pxCurrentTCB s" "xCriticalNesting s3 = xCriticalNesting s"
      "irq_enabled s3 = irq_enabled s" "xTickCount s3 = xTickCount s + xPendedTicks s"
      "xIdleTaskHandle s3 = xIdleTaskHandle s" "xSchedulerRunning s3 = xSchedulerRunning s"
      "abs_state s3 = resume_spec s" "healthy s3 = healthy s" by blast
  have run: "resume_body s = (if xYieldPending s3 then bindE (portYIELD s3) (\<lambda>s5. Inr (True, s5)) else Inr (False, s3))"
    unfolding resume_body_def s2(1) bindE_simps prod.case s2(2) s3(1) ..
  show ?thesis
  proof (cases "xYieldPending s3")
    case False
    then show ?thesis
      using run s3(2-12) by (intro disjI2 exI [of _ False] exI [of _ s3]) (simp add: settled_def resumed_def)
  next
    case True
    show ?thesis
    proof (cases "healthy s")
      case False
      then show ?thesis using portYIELD_settled [OF s3(2,3)] run True s3(12) by simp
    next
      case h: True
      then obtain s' where "portYIELD s3 = Inr s'" "settled E s3 s'" "next_up s' (pxCurrentTCB s')"
        "abs_state s' = abs_state s3" "xTickCount s' = xTickCount s3"
        "xCriticalNesting s' = xCriticalNesting s3" "irq_enabled s' = irq_enabled s3"
        using portYIELD_settled [OF s3(2,3)] s3(12) by auto
      then show ?thesis
        using h run True s3(4-11)
        by (intro disjI2 exI [of _ True] exI [of _ s']) (simp add: settled_def resumed_def)
    qed
  qed
qed


section \<open>Critical sections\<close>

lemma critical_sel [simp]:
  "heap (portENTER_CRITICAL c s) = heap s" "heap (portEXIT_CRITICAL c s) = heap s"
  "tcb (portENTER_CRITICAL c s) = tcb s" "tcb (portEXIT_CRITICAL c s) = tcb s"
  "pxCurrentTCB (portENTER_CRITICAL c s) = pxCurrentTCB s" "pxCurrentTCB (portEXIT_CRITICAL c s) = pxCurrentTCB s"
  "xTickCount (portENTER_CRITICAL c s) = xTickCount s" "xTickCount (portEXIT_CRITICAL c s) = xTickCount s"
  "xPendedTicks (portENTER_CRITICAL c s) = xPendedTicks s" "xPendedTicks (portEXIT_CRITICAL c s) = xPendedTicks s"
  "uxSchedulerSuspended (portENTER_CRITICAL c s) = uxSchedulerSuspended s"
  "uxSchedulerSuspended (portEXIT_CRITICAL c s) = uxSchedulerSuspended s"
  "xIdleTaskHandle (portENTER_CRITICAL c s) = xIdleTaskHandle s" "xIdleTaskHandle (portEXIT_CRITICAL c s) = xIdleTaskHandle s"
  "xSchedulerRunning (portENTER_CRITICAL c s) = xSchedulerRunning s"
  "xSchedulerRunning (portEXIT_CRITICAL c s) = xSchedulerRunning s"
  "uxTopReadyPriority (portENTER_CRITICAL c s) = uxTopReadyPriority s"
  "uxTopReadyPriority (portEXIT_CRITICAL c s) = uxTopReadyPriority s"
  "pxDelayedTaskList (portENTER_CRITICAL c s) = pxDelayedTaskList s"
  "pxDelayedTaskList (portEXIT_CRITICAL c s) = pxDelayedTaskList s"
  "pxOverflowDelayedTaskList (portENTER_CRITICAL c s) = pxOverflowDelayedTaskList s"
  "pxOverflowDelayedTaskList (portEXIT_CRITICAL c s) = pxOverflowDelayedTaskList s"
  "uxCurrentNumberOfTasks (portENTER_CRITICAL c s) = uxCurrentNumberOfTasks s"
  "uxCurrentNumberOfTasks (portEXIT_CRITICAL c s) = uxCurrentNumberOfTasks s"
  "xNextTaskUnblockTime (portENTER_CRITICAL c s) = xNextTaskUnblockTime s"
  "xNextTaskUnblockTime (portEXIT_CRITICAL c s) = xNextTaskUnblockTime s"
  "xNumOfOverflows (portENTER_CRITICAL c s) = xNumOfOverflows s" "xNumOfOverflows (portEXIT_CRITICAL c s) = xNumOfOverflows s"
  "uxTaskNumber (portENTER_CRITICAL c s) = uxTaskNumber s" "uxTaskNumber (portEXIT_CRITICAL c s) = uxTaskNumber s"
  "memory (portENTER_CRITICAL c s) = memory s" "memory (portEXIT_CRITICAL c s) = memory s"
  "saved_sp (portENTER_CRITICAL c s) = saved_sp s" "saved_sp (portEXIT_CRITICAL c s) = saved_sp s"
  "xYieldPending (portENTER_CRITICAL c s) = xYieldPending s" "xYieldPending (portEXIT_CRITICAL c s) = xYieldPending s"
  "xCriticalNesting (portENTER_CRITICAL c s) = (xCriticalNesting s)(c := xCriticalNesting s c + 1)"
  "xCriticalNesting (portEXIT_CRITICAL c s) = (xCriticalNesting s)(c := xCriticalNesting s c - 1)"
  "irq_enabled (portENTER_CRITICAL c s) = (irq_enabled s)(c := False)"
  "irq_enabled (portEXIT_CRITICAL c s) = (if xCriticalNesting s c = 1 then (irq_enabled s)(c := True) else irq_enabled s)"
  by (simp_all add: portENTER_CRITICAL_def portEXIT_CRITICAL_def portDISABLE_INTERRUPTS_def
      portENABLE_INTERRUPTS_def Let_def)

text \<open>The invariant does not look at the fields that only critical sections change.\<close>

lemma kernel_core_same:
  assumes "kernel_core E s" "heap s' = heap s" "tcb s' = tcb s" "uxTopReadyPriority s' = uxTopReadyPriority s"
    "pxDelayedTaskList s' = pxDelayedTaskList s" "pxOverflowDelayedTaskList s' = pxOverflowDelayedTaskList s"
    "xTickCount s' = xTickCount s" "uxCurrentNumberOfTasks s' = uxCurrentNumberOfTasks s"
    "xNextTaskUnblockTime s' = xNextTaskUnblockTime s"
  shows "kernel_core E s'"
proof -
  from core_lists [OF assms(1)] obtain Q where "lists_ok E Q (heap s)" by blast
  then show ?thesis
    using assms core_next [OF assms(1)]
    by (intro core_carry [OF assms(1), of Q]) (simp_all add: kernel_core_def tops_ok_def)
qed

lemma abs_state_same: "heap s' = heap s \<Longrightarrow> xTickCount s' = xTickCount s \<Longrightarrow> abs_state s' = abs_state s"
  by (intro ext abs_state_cong) simp_all

lemma pending_same: "heap s' = heap s \<Longrightarrow> pending s' = pending s"
  by (simp add: pending_def)

text \<open>Interrupts after a critical section: on unless the section is nested in another.\<close>

definition irq_after :: "u32 \<Rightarrow> kernel \<Rightarrow> u32 \<Rightarrow> bool" where
  "irq_after c s = (irq_enabled s)(c := (xCriticalNesting s c = 0))"

lemma xTaskResumeAll_run:
  assumes k: "kernel_ok E s" and sus: "uxSchedulerSuspended s = 1"
  shows "\<not> healthy s \<and> xTaskResumeAll s = Inl StackOverflow \<or>
    (\<exists>y s'. xTaskResumeAll s = Inr (y, s') \<and> settled E s s' \<and> abs_state s' = resume_spec s \<and>
      xTickCount s' = xTickCount s + xPendedTicks s \<and>
      xCriticalNesting s' = xCriticalNesting s \<and> irq_enabled s' = irq_after (this_context s) s \<and>
      resumed y s s')"
proof -
  let ?c = "this_context s"
  let ?s = "portENTER_CRITICAL ?c s\<lparr>uxSchedulerSuspended := 0\<rparr>"
  have c: "kernel_core E ?s"
    by (rule kernel_core_same [of E s]) (use k in \<open>simp_all add: kernel_ok_def\<close>)
  have i: "idle_ok ?s" using k by (simp add: kernel_ok_def idle_ok_def)
  have r: "resume_spec ?s = resume_spec s"
    using abs_state_same [of ?s s] pending_same [of ?s s] by (simp add: resume_spec_def)
  have "uxCurrentNumberOfTasks s > 0" using count_pos k by (auto simp: kernel_ok_def)
  then have run: "xTaskResumeAll s = bindE (resume_body ?s) (\<lambda>(y, s3). Inr (y, portEXIT_CRITICAL ?c s3))"
    using sus by (simp add: xTaskResumeAll_def Let_def configASSERT_def)
  have h: "healthy ?s = healthy s" by (rule healthy_same) simp_all
  have "uxSchedulerSuspended ?s = 0" by simp
  from resume_body_spec [OF c i this] show ?thesis
  proof (elim disjE exE conjE)
    fix y s' assume s': "resume_body ?s = Inr (y, s')" "settled E ?s s'" "abs_state s' = resume_spec ?s"
      "xTickCount s' = xTickCount ?s + xPendedTicks ?s" "xCriticalNesting s' = xCriticalNesting ?s"
      "irq_enabled s' = irq_enabled ?s" "resumed y ?s s'"
    let ?r = "portEXIT_CRITICAL ?c s'"
    have "kernel_core E ?r"
      by (rule kernel_core_same [of E s']) (use s'(2) in \<open>simp_all add: settled_def kernel_ok_def\<close>)
    then have "settled E s ?r"
      using s'(2) by (auto simp: settled_def kernel_ok_def pending_ok_def idle_ok_def)
    moreover have "abs_state ?r = resume_spec s" using abs_state_same [of ?r s'] s'(3) r by simp
    moreover have "xCriticalNesting ?r = xCriticalNesting s" "irq_enabled ?r = irq_after ?c s"
      using s'(5,6) by (simp_all add: irq_after_def fun_eq_iff)
    moreover have "resumed y s ?r"
      using s'(7) h healthy_same [of ?r s'] by (cases y) (simp_all add: next_up_def resumed_def)
    ultimately show ?thesis
      using run s'(1,4) by (intro disjI2 exI [of _ y] exI [of _ ?r]) simp
  qed (simp add: run h)
qed


lemma xTaskResumeAll_fault:
  assumes "kernel_ok E s" "uxSchedulerSuspended s = 1" "xTaskResumeAll s = Inl e"
  shows "e = StackOverflow \<and> \<not> healthy s"
  using xTaskResumeAll_run [OF assms(1,2)] assms(3) by auto

section \<open>The delay functions\<close>

text \<open>
  Blocking inside a suspended scheduler and resuming it: the common part of both delay
  functions, for \<open>n > 0\<close> ticks. No tick is pending, so the abstract state only gains the block.
\<close>

lemma suspend_block_resume:
  assumes k: "kernel_ok E s" and sus: "uxSchedulerSuspended s = 0" and n: "n \<noteq> 0"
    and cur: "home s (StateItem (pxCurrentTCB s)) = Some (ReadyList p)"
    and idle: "pxCurrentTCB s \<noteq> xIdleTaskHandle s"
  shows "\<not> healthy s \<and> bindE (prvAddCurrentTaskToDelayedList n b (vTaskSuspendAll s)) xTaskResumeAll = Inl StackOverflow \<or>
    (\<exists>y s'. bindE (prvAddCurrentTaskToDelayedList n b (vTaskSuspendAll s)) xTaskResumeAll = Inr (y, s') \<and>
      settled E s s' \<and> abs_state s' = (abs_state s)(pxCurrentTCB s := Blocked (unat n)) \<and>
      xTickCount s' = xTickCount s \<and>
      xCriticalNesting s' = xCriticalNesting s \<and> irq_enabled s' = irq_after (this_context s) s \<and>
      resumed y s s')"
proof -
  let ?s = "vTaskSuspendAll s"
  have sel: "heap ?s = heap s" "tcb ?s = tcb s" "xTickCount ?s = xTickCount s" "pxCurrentTCB ?s = pxCurrentTCB s"
    "xPendedTicks ?s = 0" "uxSchedulerSuspended ?s = 1" "xIdleTaskHandle ?s = xIdleTaskHandle s"
    "delay_list n ?s = delay_list n s" "this_context ?s = this_context s" "xCriticalNesting ?s = xCriticalNesting s"
    "irq_enabled ?s = irq_enabled s" "xSchedulerRunning ?s = xSchedulerRunning s" "memory ?s = memory s"
    "saved_sp ?s = saved_sp s"
    using k sus by (simp_all add: vTaskSuspendAll_def delay_list_def this_context_def kernel_ok_def)
  have c: "kernel_core E ?s"
    by (rule kernel_core_same [of E s]) (use k in \<open>simp_all add: kernel_ok_def vTaskSuspendAll_def\<close>)
  have "home ?s (StateItem (pxCurrentTCB ?s)) = Some (ReadyList p)" using cur by (simp add: sel)
  from block_current [OF c n this, of b] obtain s1 where s1:
    "prvAddCurrentTaskToDelayedList n b ?s = Inr s1" "kernel_core E s1"
    "s1 = ?s\<lparr>heap := heap s1, xNextTaskUnblockTime := xNextTaskUnblockTime s1\<rparr>"
    "home s1 = (home ?s)(StateItem (pxCurrentTCB ?s) := delay_list n ?s)"
    "wake s1 (pxCurrentTCB ?s) = xTickCount ?s + n"
    "\<forall>t. t \<noteq> pxCurrentTCB ?s \<longrightarrow> wake s1 t = wake ?s t" by blast
  have f1: "tcb s1 = tcb s" "xTickCount s1 = xTickCount s" "pxCurrentTCB s1 = pxCurrentTCB s" "xPendedTicks s1 = 0"
    "uxSchedulerSuspended s1 = 1" "xIdleTaskHandle s1 = xIdleTaskHandle s" "xCriticalNesting s1 = xCriticalNesting s"
    "irq_enabled s1 = irq_enabled s" "xSchedulerRunning s1 = xSchedulerRunning s" "memory s1 = memory s"
    "saved_sp s1 = saved_sp s"
    using arg_cong [OF s1(3), of tcb] arg_cong [OF s1(3), of xTickCount] arg_cong [OF s1(3), of pxCurrentTCB]
      arg_cong [OF s1(3), of xPendedTicks] arg_cong [OF s1(3), of uxSchedulerSuspended]
      arg_cong [OF s1(3), of xIdleTaskHandle] arg_cong [OF s1(3), of xCriticalNesting]
      arg_cong [OF s1(3), of irq_enabled] arg_cong [OF s1(3), of xSchedulerRunning]
      arg_cong [OF s1(3), of memory] arg_cong [OF s1(3), of saved_sp]
    by (simp_all add: sel)
  have d: "delayed_ok ?s" using c by (simp add: kernel_core_def)
  have a1: "abs_state s1 = (abs_state s)(pxCurrentTCB s := Blocked (unat n))"
    using abs_block [OF n d s1(4-6)] abs_state_same [of ?s s] by (simp add: sel f1)
  have "idle_ok s1"
    using k idle by (simp add: idle_ok_def kernel_ok_def f1 s1(4) sel)
  then have k1: "kernel_ok E s1" using s1(2) by (simp add: kernel_ok_def f1)
  have P: "pending s1 = {}"
    using k sus by (auto simp: pending_def s1(4) sel kernel_ok_def pending_ok_def split: if_splits)
  have r: "resume_spec s1 = (abs_state s)(pxCurrentTCB s := Blocked (unat n))"
    using P a1 by (simp add: resume_spec_def f1 wake_spec_def fun_eq_iff)
  have t1: "this_context s1 = this_context s" by (simp add: this_context_def f1)
  have run: "bindE (prvAddCurrentTaskToDelayedList n b ?s) xTaskResumeAll = xTaskResumeAll s1"
    by (simp add: s1(1))
  have h: "healthy s1 = healthy s" by (rule healthy_same) (simp_all add: f1)
  from xTaskResumeAll_run [OF k1 f1(5)] show ?thesis
  proof (elim disjE exE conjE)
    fix y s' assume "xTaskResumeAll s1 = Inr (y, s')" "settled E s1 s'" "abs_state s' = resume_spec s1"
      "xTickCount s' = xTickCount s1 + xPendedTicks s1" "xCriticalNesting s' = xCriticalNesting s1"
      "irq_enabled s' = irq_after (this_context s1) s1" "resumed y s1 s'"
    then show ?thesis
      unfolding run
      by (intro disjI2 exI [of _ y] exI [of _ s'])
        (simp add: f1 t1 r resumed_same [OF h f1(3)] settled_def irq_after_def)
  qed (simp add: run h)
qed

text \<open>The yield that ends both functions when resuming did not already yield.\<close>

lemma finish_yield:
  assumes "settled E s s1" and "resumed y s s1"
  shows "if healthy s
    then \<exists>s'. (if \<not> y then portYIELD s1 else Inr s1) = Inr s' \<and> settled E s s' \<and>
      next_up s' (pxCurrentTCB s') \<and> abs_state s' = abs_state s1 \<and> xTickCount s' = xTickCount s1 \<and>
      xCriticalNesting s' = xCriticalNesting s1 \<and> irq_enabled s' = irq_enabled s1
    else (if \<not> y then portYIELD s1 else Inr s1) = Inl StackOverflow"
proof (cases y)
  case True
  then show ?thesis using assms by (auto simp: resumed_def)
next
  case False
  have "kernel_ok E s1" "uxSchedulerSuspended s1 = 0" using assms(1) by (simp_all add: settled_def)
  from portYIELD_settled [OF this] show ?thesis
    using False assms by (auto simp: settled_def resumed_def split: if_splits)
qed

text \<open>What the running task gets from a delay of \<open>n\<close> ticks: it blocks, or just yields.\<close>

definition delay_spec :: "u32 \<Rightarrow> kernel \<Rightarrow> u32 \<Rightarrow> task_state" where
  "delay_spec n s = (if n = 0 then abs_state s else (abs_state s)(pxCurrentTCB s := Blocked (unat n)))"

lemma vTaskDelay_run:
  assumes k: "kernel_ok E s" and sus: "uxSchedulerSuspended s = 0"
    and cur: "home s (StateItem (pxCurrentTCB s)) = Some (ReadyList p)"
    and idle: "pxCurrentTCB s \<noteq> xIdleTaskHandle s"
  shows "if healthy s
    then \<exists>s'. vTaskDelay n s = Inr s' \<and> settled E s s' \<and> next_up s' (pxCurrentTCB s') \<and>
      abs_state s' = delay_spec n s \<and> xTickCount s' = xTickCount s \<and>
      xCriticalNesting s' = xCriticalNesting s \<and>
      irq_enabled s' = (if n = 0 then irq_enabled s else irq_after (this_context s) s)
    else vTaskDelay n s = Inl StackOverflow"
proof (cases "n = 0")
  case True
  have "settled E s s" using k sus by (simp add: settled_def)
  then show ?thesis
    using portYIELD_settled [OF k sus] True by (simp add: vTaskDelay_def delay_spec_def)
next
  case False
  let ?r = "bindE (prvAddCurrentTaskToDelayedList n False (vTaskSuspendAll s)) xTaskResumeAll"
  have run: "vTaskDelay n s = bindE ?r (\<lambda>(y, s2). if \<not> y then portYIELD s2 else Inr s2)"
    using False sus by (simp add: vTaskDelay_def Let_def configASSERT_def vTaskSuspendAll_def word_gt_0)
  from suspend_block_resume [OF k sus False cur idle, of False] show ?thesis
  proof (elim disjE exE conjE)
    fix y s1 assume s1: "?r = Inr (y, s1)" "settled E s s1"
      "abs_state s1 = (abs_state s)(pxCurrentTCB s := Blocked (unat n))" "xTickCount s1 = xTickCount s"
      "xCriticalNesting s1 = xCriticalNesting s" "irq_enabled s1 = irq_after (this_context s) s"
      "resumed y s s1"
    from finish_yield [OF s1(2,7)] show ?thesis
      using s1(3-6) False unfolding run s1(1) by (auto simp: delay_spec_def split: if_splits)
  qed (simp add: run)
qed


text \<open>
  \<open>xTaskDelayUntil\<close> decides by comparing wrapped tick counts. With \<open>elapsed\<close> the ticks since
  the previous wake time, modulo \<open>2 ^ 32\<close>, it delays exactly when the period is longer, and
  then for the rest of the period.
\<close>

lemma should_delay_iff: "should_delay prev (prev + inc) now \<longleftrightarrow> now - prev < inc"
proof -
  have add: "unat (prev + inc) = (unat prev + unat inc) mod 2 ^ 32" by (simp add: unat_word_ariths)
  have sub: "unat (now - prev) = (if prev \<le> now then unat now - unat prev else 2 ^ 32 + unat now - unat prev)"
    by (simp add: unat_sub_if' word_le_nat_alt not_le) (simp add: add.commute)
  have b: "unat prev < 2 ^ 32" "unat inc < 2 ^ 32" "unat now < 2 ^ 32"
    using unsigned_less [of prev] unsigned_less [of inc] unsigned_less [of now] by simp_all
  show ?thesis
  proof (cases "unat prev + unat inc < 2 ^ 32")
    case True
    then show ?thesis
      using b by (auto simp: should_delay_def word_less_nat_alt word_le_nat_alt add sub not_less not_le)
  next
    case False
    then have "unat (prev + inc) = unat prev + unat inc - 2 ^ 32"
      using b unfolding add by (simp add: mod_if)
    then show ?thesis
      using b False by (auto simp: should_delay_def word_less_nat_alt word_le_nat_alt sub not_less not_le)
  qed
qed

lemma xTaskDelayUntil_run:
  assumes k: "kernel_ok E s" and sus: "uxSchedulerSuspended s = 0"
    and cur: "home s (StateItem (pxCurrentTCB s)) = Some (ReadyList p)"
    and idle: "pxCurrentTCB s \<noteq> xIdleTaskHandle s" and inc: "inc \<noteq> 0"
  shows "if healthy s
    then \<exists>s'. xTaskDelayUntil (Some prev) inc s = Inr (xTickCount s - prev < inc, prev + inc, s') \<and>
      settled E s s' \<and> next_up s' (pxCurrentTCB s') \<and> xTickCount s' = xTickCount s \<and>
      abs_state s' = (if xTickCount s - prev < inc then delay_spec (inc - (xTickCount s - prev)) s else abs_state s)
    else xTaskDelayUntil (Some prev) inc s = Inl StackOverflow"
proof -
  let ?late = "xTickCount s - prev < inc" and ?n = "(prev + inc) - xTickCount s"
  let ?block = "if ?late then prvAddCurrentTaskToDelayedList ?n False (vTaskSuspendAll s) else Inr (vTaskSuspendAll s)"
  have run: "xTaskDelayUntil (Some prev) inc s =
      bindE (bindE ?block xTaskResumeAll) (\<lambda>(y, s3).
        bindE (if \<not> y then portYIELD s3 else Inr s3) (\<lambda>s4. Inr (?late, prev + inc, s4)))"
    using inc sus should_delay_iff [of prev inc "xTickCount s"]
    by (simp add: xTaskDelayUntil_def Let_def configASSERT_def vTaskSuspendAll_def word_gt_0 bindE_assoc)
  have n: "?n = inc - (xTickCount s - prev)" by simp
  have "\<not> healthy s \<and> bindE ?block xTaskResumeAll = Inl StackOverflow \<or>
    (\<exists>y s1. bindE ?block xTaskResumeAll = Inr (y, s1) \<and> settled E s s1 \<and>
      abs_state s1 = (if ?late then delay_spec ?n s else abs_state s) \<and>
      xTickCount s1 = xTickCount s \<and> resumed y s s1)"
  proof (cases ?late)
    case True
    then have "?n \<noteq> 0" by (metis add_diff_cancel_left' diff_add_eq_diff_diff_swap eq_iff_diff_eq_0 order.irrefl n)
    from suspend_block_resume [OF k sus this cur idle, of False] True \<open>?n \<noteq> 0\<close> show ?thesis
      unfolding delay_spec_def by (simp only: if_True if_False) blast
  next
    case False
    let ?s = "vTaskSuspendAll s"
    have sel: "heap ?s = heap s" "tcb ?s = tcb s" "xTickCount ?s = xTickCount s" "xPendedTicks ?s = 0"
      "uxSchedulerSuspended ?s = 1" "xIdleTaskHandle ?s = xIdleTaskHandle s" "xSchedulerRunning ?s = xSchedulerRunning s"
      "memory ?s = memory s" "saved_sp ?s = saved_sp s" "pxCurrentTCB ?s = pxCurrentTCB s"
      using k sus by (simp_all add: vTaskSuspendAll_def kernel_ok_def)
    have c: "kernel_core E ?s"
      by (rule kernel_core_same [of E s]) (use k in \<open>simp_all add: kernel_ok_def vTaskSuspendAll_def\<close>)
    have k1: "kernel_ok E ?s" using c k by (simp add: kernel_ok_def sel idle_ok_def)
    have P: "pending ?s = {}" using k sus by (simp add: kernel_ok_def pending_ok_def pending_def sel)
    have r: "resume_spec ?s = abs_state s"
      using P abs_state_same [of ?s s] by (simp add: resume_spec_def sel wake_spec_def fun_eq_iff)
    have h: "healthy ?s = healthy s" by (rule healthy_same) (simp_all add: sel)
    from xTaskResumeAll_run [OF k1 sel(5)] show ?thesis
    proof (elim disjE exE conjE)
      fix y s' assume "xTaskResumeAll ?s = Inr (y, s')" "settled E ?s s'" "abs_state s' = resume_spec ?s"
        "xTickCount s' = xTickCount ?s + xPendedTicks ?s" "resumed y ?s s'"
      then show ?thesis
        using False by (intro disjI2 exI [of _ y] exI [of _ s']) (simp add: r settled_def sel(1-9) resumed_same [OF h sel(10)])
    qed (simp add: False h)
  qed
  then show ?thesis
  proof (elim disjE exE conjE)
    fix y s1 assume s1: "bindE ?block xTaskResumeAll = Inr (y, s1)" "settled E s s1"
      "abs_state s1 = (if ?late then delay_spec ?n s else abs_state s)" "xTickCount s1 = xTickCount s"
      "resumed y s s1"
    have run1: "xTaskDelayUntil (Some prev) inc s =
        bindE (if \<not> y then portYIELD s1 else Inr s1) (\<lambda>s4. Inr (?late, prev + inc, s4))"
      unfolding run s1(1) by simp
    from finish_yield [OF s1(2,5)] show ?thesis
      using s1(3,4) unfolding run1 n by (auto split: if_splits)
  qed (simp add: run)
qed

end
