(* ===== verification/Kernel_Boot.thy ===== *)
theory Kernel_Boot
  imports Kernel_Resume
begin

text \<open>
  From the zeroed static memory to the running scheduler: the first task initialises the
  lists, every further task keeps the invariant, and starting the scheduler adds the idle
  task. This is where the invariant of the other theories comes from.
\<close>

section \<open>A new control block\<close>

definition init_items :: "u32 \<Rightarrow> u32 \<Rightarrow> (list_id, item_id, u32) list_store \<Rightarrow> (list_id, item_id, u32) list_store" where
  "init_items t v h =
     listSET_LIST_ITEM_OWNER (EventItem t) t
       (listSET_LIST_ITEM_VALUE (EventItem t) v
         (listSET_LIST_ITEM_OWNER (StateItem t) t
           (vListInitialiseItem (EventItem t) (vListInitialiseItem (StateItem t)
             (clear_item (EventItem t) (clear_item (StateItem t) h))))))"

lemma prvCreateStaticTask_run:
  assumes "stack \<noteq> 0" "t \<noteq> 0" "p < 4" "31 < depth"
  shows "\<exists>s'. prvCreateStaticTask code name depth param p stack t s = Inr (t, s') \<and>
    s' = s\<lparr>heap := init_items t (4 - p) (heap s), tcb := tcb s', memory := memory s'\<rparr> \<and>
    uxPriority (tcb s' t) = p \<and> (\<forall>u. u \<noteq> t \<longrightarrow> tcb s' u = tcb s u)"
proof -
  have "(x AND NOT 15) AND 15 = 0" for x :: u32 by (simp add: bit_eq_iff bit_simps)
  then have a: "(x AND - 16) AND 15 = 0" for x :: u32 by simp
  have d: "signed_drop_bit 2 (124 :: u32) = 31" by simp
  show ?thesis
    using assms not_le [of 4 p] by (simp add: prvCreateStaticTask_def prvInitialiseNewTask_def configASSERT_def Let_def
        configMAX_PRIORITIES_def pxPortInitialiseStack_def a d init_items_def clear_tcb_def)
qed


text \<open>
  A new task starts with a stack that has not overflowed, when its stack of at least forty words
  does not wrap around the address space: the frame starts more than sixteen bytes above the base,
  and the bytes below it keep the fill byte.
\<close>

lemma store32_below:
  assumes "unat x < unat sp" "unat sp + 124 < 2 ^ 32" "n \<le> 120"
  shows "store32 (sp + of_nat n) v m x = m x"
proof -
  have "x \<noteq> sp + of_nat n + of_nat j" if "j < 4" for j
  proof -
    have "unat (sp + of_nat (n + j) :: u32) = unat sp + (n + j)"
      using assms(2,3) that by (simp add: unat_word_ariths unat_of_nat mod_less)
    then show ?thesis using assms(1) by (auto simp: add.assoc)
  qed
  from this [of 0] this [of 1] this [of 2] this [of 3] show ?thesis by (simp add: store32_def)
qed

lemma aligned_top:
  fixes x :: u32
  shows "unat (x AND NOT 15) \<le> unat x" "unat x \<le> unat (x AND NOT 15) + 15"
proof -
  have "(x AND NOT 15) + (x AND 15) = (x AND NOT 15) OR (x AND 15)"
    by (rule disjunctive_add) (simp add: bit_simps)
  also have "\<dots> = x" by (rule bit_word_eqI) (auto simp: bit_simps)
  finally have "x = (x AND NOT 15) + (x AND 15)" ..
  moreover have le: "x AND NOT 15 \<le> x" by (rule word_and_le2)
  ultimately have "unat (x AND 15) = unat x - unat (x AND NOT 15)"
    by (metis add_diff_cancel_left' unat_sub)
  moreover have "unat (x AND 15) \<le> 15" using word_and_le1 [of x 15] by (simp add: word_le_nat_alt)
  ultimately show "unat (x AND NOT 15) \<le> unat x" "unat x \<le> unat (x AND NOT 15) + 15"
    using le by (simp_all add: word_le_nat_alt)
qed

lemma new_stack_intact:
  assumes "prvCreateStaticTask code name depth param p stack t s = Inr (t, s')" "stack \<noteq> 0" "t \<noteq> 0" "p < 4"
    and d: "40 \<le> unat depth" "unat stack + 4 * unat depth < 2 ^ 32"
  shows "stack_intact s' t (pxTopOfStack (tcb s' t))"
proof -
  let ?top = "(stack + 4 * (depth - 1)) AND NOT 15"
  let ?sp = "?top - 124" and ?m = "snd (memset stack tskSTACK_FILL_BYTE (depth * 4) (memory s))"
  have "(x AND NOT 15) AND 15 = 0" for x :: u32 by (simp add: bit_eq_iff bit_simps)
  then have a: "(x AND - 16) AND 15 = 0" for x :: u32 by simp
  have c: "signed_drop_bit 2 (124 :: u32) < depth" using d(1) by (simp add: word_less_nat_alt)
  have s': "pxStack (tcb s' t) = stack" "pxTopOfStack (tcb s' t) = ?sp"
    "memory s' = snd (pxPortInitialiseStack (csr_mstatus s) ?top code param ?m)"
    using assms(1-4) not_le [of 4 p] c
    by (auto simp: prvCreateStaticTask_def prvInitialiseNewTask_def configASSERT_def Let_def clear_tcb_def
        configMAX_PRIORITIES_def pxPortInitialiseStack_def a bindE_def split: if_splits)
  have n: "unat (4 * depth) = 4 * unat depth" using d by (simp add: unat_word_ariths mod_less)
  then have "unat (4 * depth - 4) = 4 * unat depth - 4" using d(1) by (simp add: unat_sub word_le_nat_alt)
  then have u: "unat (stack + 4 * (depth - 1)) = unat stack + 4 * (unat depth - 1)"
    using d by (auto simp: unat_plus_if' right_diff_distrib split: if_splits)
  note al = aligned_top [of "stack + 4 * (depth - 1)"]
  have sp: "unat ?sp = unat ?top - 124" 
    using al d u by (simp add: unat_sub word_le_nat_alt)
  have sp2: "unat stack + 16 < unat ?sp" "unat ?sp + 124 < 2 ^ 32"
    using al d u sp by simp_all
  have "memory s' (stack + of_nat k) = 0xa5" if k: "k < 16" for k
  proof -
    have "unat (of_nat k :: u32) = k" using k by (simp add: unat_of_nat mod_less)
    then have o: "unat (stack + of_nat k) = unat stack + k" using d k by (simp add: unat_word_ariths mod_less)
    then have x: "unat (stack + of_nat k) < unat ?sp" using sp2(1) k by simp
    have "memory s' (stack + of_nat k) = ?m (stack + of_nat k)"
      using store32_below [OF x sp2(2), of 0] store32_below [OF x sp2(2), of 4] store32_below [OF x sp2(2), of 8]
        store32_below [OF x sp2(2), of 32] store32_below [OF x sp2(2), of 120]
      by (simp add: s'(3) pxPortInitialiseStack_def Let_def)
    moreover have "k < unat (depth * 4)" using d k by (simp add: unat_word_ariths mod_less)
    then have "?m (stack + of_nat k) = 0xa5"
      using k by (simp add: memset_def memset_loop_at tskSTACK_FILL_BYTE_def unat_of_nat mod_less)
    ultimately show ?thesis by simp
  qed
  then show ?thesis using s'(1,2) sp2 by (simp add: stack_intact_def)
qed

lemma init_items_sel [simp]:
  "pxContainer (init_items t v h) = (pxContainer h)(StateItem t := None, EventItem t := None)"
  "pvOwner (init_items t v h) = (pvOwner h)(StateItem t := t, EventItem t := t)"
  "pxIndex (init_items t v h) = pxIndex h" "uxNumberOfItems (init_items t v h) = uxNumberOfItems h"
  "xItemValue (init_items t v h) = (xItemValue h)(LItem (StateItem t) := 0, LItem (EventItem t) := v)"
  "pxNext (init_items t v h) = (pxNext h)(LItem (StateItem t) := Null, LItem (EventItem t) := Null)"
  "pxPrevious (init_items t v h) = (pxPrevious h)(LItem (StateItem t) := Null, LItem (EventItem t) := Null)"
  by (simp_all add: init_items_def listSET_LIST_ITEM_OWNER_def listSET_LIST_ITEM_VALUE_def
      vListInitialiseItem_def clear_item_def fun_eq_iff)

lemma init_items_ring:
  assumes r: "ring h l xs" and n: "pxContainer h (StateItem t) = None" "pxContainer h (EventItem t) = None"
  shows "ring (init_items t v h) l xs"
proof (rule ring_frame [OF r])
  have "StateItem t \<notin> set xs" "EventItem t \<notin> set xs"
    using ring_container [OF r] n by (metis option.distinct(1))+
  then show "\<forall>q \<in> ring_cells l xs. pxNext (init_items t v h) q = pxNext h q \<and>
      pxPrevious (init_items t v h) q = pxPrevious h q"
    by (auto simp: ring_cells_def)
qed (use n in auto)

lemma init_items_lists:
  assumes Q: "lists_ok E Q h" and n: "pxContainer h (StateItem t) = None" "pxContainer h (EventItem t) = None"
  shows "lists_ok E Q (init_items t v h)"
proof -
  have "StateItem t \<notin> set (Q l)" "EventItem t \<notin> set (Q l)" if "l \<in> klists E" for l
    using lists_ok_home [OF Q that] n by (metis option.distinct(1))+
  then have "map (val_of (init_items t v h)) (Q l) = map (val_of h) (Q l)" if "l \<in> klists E" for l
    using that by auto
  from this [of DelayedList1] this [of DelayedList2] show ?thesis
    using Q init_items_ring [OF _ n] by (simp add: lists_ok_def kl.reps_def del: map_eq_conv init_items_sel)
qed

section \<open>The invariant before the scheduler runs\<close>

definition unknown :: "kernel \<Rightarrow> u32 \<Rightarrow> bool" where
  "unknown s t \<longleftrightarrow> home s (StateItem t) = None \<and> home s (EventItem t) = None"

definition boot_ok :: "nat set \<Rightarrow> kernel \<Rightarrow> bool" where
  "boot_ok E s \<longleftrightarrow> kernel_core E s \<and> (\<forall>t. home s (EventItem t) = None) \<and> (\<forall>t. \<not> blocked s t) \<and>
     uxSchedulerSuspended s = 0 \<and> xPendedTicks s = 0 \<and> \<not> xSchedulerRunning s \<and>
     pxCurrentTCB s \<noteq> 0 \<and> next_up s (pxCurrentTCB s)"

text \<open>The state of the kernel's static variables at reset, and the event lists \<open>E\<close> set up.\<close>

definition fresh :: "nat set \<Rightarrow> kernel \<Rightarrow> bool" where
  "fresh E s \<longleftrightarrow> (\<forall>i. home s i = None) \<and> (\<forall>n \<in> E. ring (heap s) (EventList n) []) \<and>
     pxCurrentTCB s = 0 \<and> uxCurrentNumberOfTasks s = 0 \<and> uxTopReadyPriority s = 0 \<and>
     xTickCount s = 0 \<and> \<not> xSchedulerRunning s \<and> uxSchedulerSuspended s = 0 \<and> xPendedTicks s = 0"

lemma prvInitialiseTaskLists_spec:
  assumes n: "\<forall>i. home s i = None" and ev: "\<forall>n \<in> E. ring (heap s) (EventList n) []"
  shows "\<exists>h. prvInitialiseTaskLists s = s\<lparr>heap := h, pxDelayedTaskList := Some DelayedList1,
      pxOverflowDelayedTaskList := Some DelayedList2\<rparr> \<and> lists_ok E (\<lambda>_. []) h \<and>
    pxContainer h = home s \<and> pvOwner h = pvOwner (heap s) \<and> val_of h = val_of (heap s)"
proof -
  let ?i = "\<lambda>l h. vListInitialise l (h :: (list_id, item_id, u32) list_store)"
  let ?h = "?i PendingReadyList (?i DelayedList2 (?i DelayedList1
      (?i (ReadyList 3) (?i (ReadyList 2) (?i (ReadyList 1) (?i (ReadyList 0) (heap s)))))))"
  have sel: "pxContainer (?i l h) = pxContainer h" "pvOwner (?i l h) = pvOwner h" "val_of (?i l h) = val_of h" for l h
    by (simp_all add: vListInitialise_def Let_def)
  have u: "[0..<unat configMAX_PRIORITIES] = [0, 1, 2, 3]"
    by (simp add: configMAX_PRIORITIES_def upt_rec)
  have new: "ring (?i l h) l []" if "pxContainer h = home s" for l h
    by (rule vListInitialise_ring) (simp add: that n)
  have old: "ring h m [] \<Longrightarrow> m \<noteq> l \<Longrightarrow> ring (?i l h) m []" for h l m
    by (rule vListInitialise_other)
  have "ring ?h (ReadyList p) []" if p: "p < 4" for p
  proof -
    consider "p = 0" | "p = 1" | "p = 2" | "p = 3" using p by (auto simp: numeral_eq_Suc less_Suc_eq)
    then show ?thesis by cases (auto intro!: old new simp: sel)
  qed
  moreover have "ring ?h DelayedList1 []" "ring ?h DelayedList2 []" "ring ?h PendingReadyList []"
    by (auto intro!: old new simp: sel)
  moreover have "ring ?h (EventList n) []" if "n \<in> E" for n
    using ev that by (auto intro!: old)
  ultimately have "lists_ok E (\<lambda>_. []) ?h"
    by (auto simp: lists_ok_def kl.reps_def klists_def)
  moreover have "prvInitialiseTaskLists s = s\<lparr>heap := ?h, pxDelayedTaskList := Some DelayedList1,
      pxOverflowDelayedTaskList := Some DelayedList2\<rparr>"
    by (simp add: prvInitialiseTaskLists_def u Let_def)
  ultimately show ?thesis by (intro exI [of _ ?h]) (simp add: sel)
qed


section \<open>Creating tasks keeps the invariant\<close>

text \<open>Initialising the control block of a task that is in no list is invisible to the invariant.\<close>

lemma new_tcb_core:
  assumes c: "kernel_core E s" and u: "unknown s t" and T: "\<forall>u. u \<noteq> t \<longrightarrow> tcb s' u = tcb s u"
    and eq: "s' = s\<lparr>heap := init_items t v (heap s), tcb := tcb s', memory := memory s'\<rparr>"
  shows "kernel_core E s'" "home s' = home s" "abs_state s' = abs_state s"
proof -
  have f: "heap s' = init_items t v (heap s)" "uxTopReadyPriority s' = uxTopReadyPriority s"
    "pxDelayedTaskList s' = pxDelayedTaskList s" "pxOverflowDelayedTaskList s' = pxOverflowDelayedTaskList s"
    "xTickCount s' = xTickCount s" "xNextTaskUnblockTime s' = xNextTaskUnblockTime s"
    "uxCurrentNumberOfTasks s' = uxCurrentNumberOfTasks s"
    using arg_cong [OF eq, of heap] arg_cong [OF eq, of uxTopReadyPriority] arg_cong [OF eq, of pxDelayedTaskList]
      arg_cong [OF eq, of pxOverflowDelayedTaskList] arg_cong [OF eq, of xTickCount]
      arg_cong [OF eq, of xNextTaskUnblockTime] arg_cong [OF eq, of uxCurrentNumberOfTasks] by simp_all
  show h: "home s' = home s" using u by (simp add: f unknown_def fun_eq_iff)
  have w: "wake s' a = wake s a" if "a \<noteq> t" for a using that by (simp add: f)
  have nt: "home s (StateItem a) \<noteq> None \<Longrightarrow> a \<noteq> t" "home s (EventItem a) \<noteq> None \<Longrightarrow> a \<noteq> t" for a
    using u by (auto simp: unknown_def)
  have tk: "task_ok s' a = task_ok s a" if "a \<noteq> t" for a using T that by (simp add: task_ok_def f)
  have "item_ok s' l i = item_ok s l i" if "home s i = Some l" for l i
    using that nt T tk by (cases i) auto
  then have "homes_ok E s'" using c by (simp add: kernel_core_def homes_ok_def h)
  moreover from c obtain Q where "lists_ok E Q (heap s)" by (auto simp: kernel_core_def)
  then have "lists_ok E Q (heap s')" using init_items_lists u by (simp add: f unknown_def)
  moreover have "timely s'"
  proof -
    have "delayed_ok s" "timely s" using c by (simp_all add: kernel_core_def)
    then show ?thesis using nt(1) w by (auto simp: timely_def h f(3-6) delayed_ok_def)
  qed
  moreover have "tops_ok s'" "delayed_ok s'" "events_ok s'" "count_ok s'"
    using c by (simp_all add: kernel_core_def tops_ok_def delayed_ok_def events_ok_def blocked_def
        count_ok_def known_def h f(2-7))
  ultimately show "kernel_core E s'" by (auto simp: kernel_core_def)
  show "abs_state s' = abs_state s"
  proof
    fix a show "abs_state s' a = abs_state s a"
      using u w [of a] by (cases "a = t") (auto simp: abs_state_def h f unknown_def split: option.split list_id.split)
  qed
qed

text \<open>The new task goes to the end of the turn order of its ready list.\<close>

lemma add_new_ready:
  assumes Q: "lists_ok E Q (heap s)" and h: "homes_ok E s" and tp: "tops_ok s" and d: "delayed_ok s"
    and tm: "timely s" and ev: "events_ok s" and cn: "uxCurrentNumberOfTasks s = of_nat (card (known s)) + 1"
    and t: "task_ok s t" "home s (StateItem t) = None"
  shows "\<exists>h'. prvAddTaskToReadyList t s =
      Inr (s\<lparr>heap := h', uxTopReadyPriority := max (uxTopReadyPriority s) (uxPriority (tcb s t))\<rparr>) \<and>
    pxContainer h' = (home s)(StateItem t := Some (ReadyList (prio s t))) \<and> val_of h' = val_of (heap s) \<and>
    kernel_core E (s\<lparr>heap := h', uxTopReadyPriority := max (uxTopReadyPriority s) (uxPriority (tcb s t))\<rparr>)"
proof -
  from add_ready [OF Q h t] obtain h' Q' where h': "prvAddTaskToReadyList t s =
      Inr (s\<lparr>heap := h', uxTopReadyPriority := max (uxTopReadyPriority s) (uxPriority (tcb s t))\<rparr>)" (is "_ = Inr ?s")
    "lists_ok E Q' h'" "val_of h' = val_of (heap s)" "pvOwner h' = pvOwner (heap s)"
    "pxContainer h' = (home s)(StateItem t := Some (ReadyList (prio s t)))" by blast
  have "homes_ok E ?s"
    by (rule homes_ok_upd [OF h]) (use h'(4,5) t in \<open>auto simp: task_ok_def split: if_splits\<close>)
  moreover have "tops_ok ?s" by (rule tops_add_ready [OF tp t(1) h'(5)])
  moreover have "delayed_ok ?s" using d by (simp add: delayed_ok_def)
  moreover have "timely ?s"
    using tm d fun_cong [OF h'(3)] by (auto simp: timely_def delayed_ok_def h'(5))
  moreover have "events_ok ?s" using ev t(2) by (auto simp: events_ok_def blocked_def h'(5))
  moreover have "count_ok ?s"
  proof -
    have "known ?s = insert t (known s)" "t \<notin> known s" using t(2) by (auto simp: known_def h'(5))
    then show ?thesis using cn by (simp add: count_ok_def)
  qed
  ultimately have "kernel_core E ?s" using h'(2) by (auto simp: kernel_core_def)
  then show ?thesis using h' by blast
qed

lemma abs_new:
  assumes "pxContainer (heap s') = (home s)(StateItem t := Some (ReadyList p))"
    and "val_of (heap s') = val_of (heap s)" and "xTickCount s' = xTickCount s"
  shows "abs_state s' = (abs_state s)(t := Ready p)"
proof
  fix u show "abs_state s' u = ((abs_state s)(t := Ready p)) u"
    using assms(1,3) fun_cong [OF assms(2)] by (cases "u = t") (auto simp: abs_state_def split: option.split list_id.split)
qed


lemma create_first:
  assumes f: "fresh E s" and a: "stack \<noteq> 0" "t \<noteq> 0" "p < 4" "31 < depth"
  shows "\<exists>s'. xTaskCreateStatic code name depth param p stack t s = Inr (t, s') \<and> boot_ok E s' \<and>
    pxCurrentTCB s' = t \<and> uxPriority (tcb s' t) = p \<and> abs_state s' = (\<lambda>_. Absent)(t := Ready (unat p)) \<and> home s' = (\<lambda>_. None)(StateItem t := Some (ReadyList (unat p)))"
proof -
  from prvCreateStaticTask_run [OF a] obtain s1 where s1:
    "prvCreateStaticTask code name depth param p stack t s = Inr (t, s1)"
    "s1 = s\<lparr>heap := init_items t (4 - p) (heap s), tcb := tcb s1, memory := memory s1\<rparr>"
    "uxPriority (tcb s1 t) = p" "\<forall>u. u \<noteq> t \<longrightarrow> tcb s1 u = tcb s u" by blast
  have f1: "heap s1 = init_items t (4 - p) (heap s)" "pxCurrentTCB s1 = 0" "uxCurrentNumberOfTasks s1 = 0"
    "uxTopReadyPriority s1 = 0" "\<not> xSchedulerRunning s1" "uxSchedulerSuspended s1 = 0" "xPendedTicks s1 = 0"
    using arg_cong [OF s1(2), of heap] arg_cong [OF s1(2), of pxCurrentTCB]
      arg_cong [OF s1(2), of uxCurrentNumberOfTasks] arg_cong [OF s1(2), of uxTopReadyPriority]
      arg_cong [OF s1(2), of xSchedulerRunning] arg_cong [OF s1(2), of uxSchedulerSuspended]
      arg_cong [OF s1(2), of xPendedTicks] f
    by (simp_all add: fresh_def)
  have n: "home s i = None" for i using f by (simp add: fresh_def)
  let ?c = "this_context s1"
  let ?s2 = "portENTER_CRITICAL ?c s1\<lparr>uxCurrentNumberOfTasks := 1, pxCurrentTCB := t\<rparr>"
  have n2: "\<forall>i. home ?s2 i = None" using n by (simp add: f1)
  have "\<forall>m \<in> E. ring (heap ?s2) (EventList m) []"
    using f n init_items_ring by (simp add: f1 fresh_def)
  from prvInitialiseTaskLists_spec [OF n2 this] obtain h where h:
    "prvInitialiseTaskLists ?s2 = ?s2\<lparr>heap := h, pxDelayedTaskList := Some DelayedList1,
      pxOverflowDelayedTaskList := Some DelayedList2\<rparr>" "lists_ok E (\<lambda>_. []) h"
    "pxContainer h = home ?s2" "pvOwner h = pvOwner (heap ?s2)" "val_of h = val_of (heap ?s2)" by blast
  let ?s4 = "(prvInitialiseTaskLists ?s2)\<lparr>uxTaskNumber := uxTaskNumber s1 + 1\<rparr>"
  have hm: "home ?s4 i = None" for i using h(3) n2 by (simp add: h(1))
  have s4: "lists_ok E (\<lambda>_. []) (heap ?s4)" "homes_ok E ?s4" "tops_ok ?s4" "delayed_ok ?s4" "timely ?s4"
    "events_ok ?s4" "uxCurrentNumberOfTasks ?s4 = of_nat (card (known ?s4)) + 1" "task_ok ?s4 t"
    "home ?s4 (StateItem t) = None"
  proof -
    show "lists_ok E (\<lambda>_. []) (heap ?s4)" using h(2) by (simp add: h(1))
    show "homes_ok E ?s4" "events_ok ?s4" "home ?s4 (StateItem t) = None"
      using hm by (simp_all add: homes_ok_def events_ok_def)
    show "tops_ok ?s4" using hm by (simp add: tops_ok_def) (simp add: h(1) f1)
    show "delayed_ok ?s4" by (simp add: delayed_ok_def h(1))
    show "timely ?s4" using hm by (simp add: timely_def h(1))
    show "uxCurrentNumberOfTasks ?s4 = of_nat (card (known ?s4)) + 1" using hm by (simp add: known_def) (simp add: h(1))
    have "prio ?s4 t < 4" using a(3) by (simp add: h(1) s1(3) word_less_nat_alt)
    then show "task_ok ?s4 t" using a(2) h(4) by (simp add: task_ok_def h(1) f1)
  qed
  from add_new_ready [OF s4] obtain h' where h': "prvAddTaskToReadyList t ?s4 =
      Inr (?s4\<lparr>heap := h', uxTopReadyPriority := max (uxTopReadyPriority ?s4) (uxPriority (tcb ?s4 t))\<rparr>)"
    "pxContainer h' = (home ?s4)(StateItem t := Some (ReadyList (prio ?s4 t)))" "val_of h' = val_of (heap ?s4)"
    "kernel_core E (?s4\<lparr>heap := h', uxTopReadyPriority := max (uxTopReadyPriority ?s4) (uxPriority (tcb ?s4 t))\<rparr>)"
    by blast
  let ?s5 = "?s4\<lparr>heap := h', uxTopReadyPriority := max (uxTopReadyPriority ?s4) (uxPriority (tcb ?s4 t))\<rparr>"
  let ?s6 = "portEXIT_CRITICAL ?c ?s5"
  have pr: "prio ?s4 t = unat p" by (simp add: h(1) s1(3))
  have home6: "home ?s6 = (\<lambda>_. None)(StateItem t := Some (ReadyList (unat p)))"
    using h'(2) hm pr by (simp add: fun_eq_iff)
  have run: "xTaskCreateStatic code name depth param p stack t s = Inr (t, ?s6)"
    using s1(1) h'(1) a(2)
    by (simp add: xTaskCreateStatic_def prvAddNewTaskToReadyList_def Let_def f1 h(1))
  have cur: "pxCurrentTCB ?s6 = t" by (simp add: h(1))
  have "kernel_core E ?s6" by (rule kernel_core_same [OF h'(4)]) simp_all
  moreover have "next_up ?s6 t"
    using home6 pr unfolding next_up_def home6 by (auto simp: h(1) s1(3))
  moreover have "uxSchedulerSuspended ?s6 = 0" "xPendedTicks ?s6 = 0" "\<not> xSchedulerRunning ?s6"
    by (simp_all add: h(1) f1)
  ultimately have "boot_ok E ?s6"
    using a(2) unfolding boot_ok_def blocked_def home6 cur by simp
  moreover have "abs_state ?s6 = (\<lambda>_. Absent)(t := Ready (unat p))"
    unfolding abs_state_def home6 by (auto simp: fun_eq_iff)
  moreover have "uxPriority (tcb ?s6 t) = p" by (simp add: h(1) s1(3))
  ultimately show ?thesis
    using run cur home6 by (intro exI [of _ ?s6] conjI) assumption+
qed


lemma create_next:
  assumes k: "boot_ok E s" and u: "unknown s t" and a: "stack \<noteq> 0" "t \<noteq> 0" "p < 4" "31 < depth"
  shows "\<exists>s'. xTaskCreateStatic code name depth param p stack t s = Inr (t, s') \<and> boot_ok E s' \<and>
    pxCurrentTCB s' = (if uxPriority (tcb s (pxCurrentTCB s)) \<le> p then t else pxCurrentTCB s) \<and>
    uxPriority (tcb s' t) = p \<and> (\<forall>v. v \<noteq> t \<longrightarrow> tcb s' v = tcb s v) \<and>
    abs_state s' = (abs_state s)(t := Ready (unat p)) \<and>
    home s' = (home s)(StateItem t := Some (ReadyList (unat p)))"
proof -
  have c: "kernel_core E s" using k by (simp add: boot_ok_def)
  from prvCreateStaticTask_run [OF a] obtain s1 where s1:
    "prvCreateStaticTask code name depth param p stack t s = Inr (t, s1)"
    "s1 = s\<lparr>heap := init_items t (4 - p) (heap s), tcb := tcb s1, memory := memory s1\<rparr>"
    "uxPriority (tcb s1 t) = p" "\<forall>v. v \<noteq> t \<longrightarrow> tcb s1 v = tcb s v" by blast
  have f1: "heap s1 = init_items t (4 - p) (heap s)" "pxCurrentTCB s1 = pxCurrentTCB s"
    "\<not> xSchedulerRunning s1" "uxSchedulerSuspended s1 = 0" "xPendedTicks s1 = 0"
    using arg_cong [OF s1(2), of heap] arg_cong [OF s1(2), of pxCurrentTCB]
      arg_cong [OF s1(2), of xSchedulerRunning] arg_cong [OF s1(2), of uxSchedulerSuspended]
      arg_cong [OF s1(2), of xPendedTicks] k
    by (simp_all add: boot_ok_def)
  note core1 = new_tcb_core [OF c u s1(4,2)]
  have cur: "pxCurrentTCB s \<noteq> 0" "next_up s (pxCurrentTCB s)" "pxCurrentTCB s \<noteq> t"
    using k u by (auto simp: boot_ok_def next_up_def unknown_def)
  let ?c = "this_context s1"
  let ?cur = "if uxPriority (tcb s (pxCurrentTCB s)) \<le> p then t else pxCurrentTCB s"
  let ?s4 = "portENTER_CRITICAL ?c s1\<lparr>uxCurrentNumberOfTasks := uxCurrentNumberOfTasks s1 + 1,
    pxCurrentTCB := ?cur, uxTaskNumber := uxTaskNumber s1 + 1\<rparr>"
  from core_lists [OF core1(1)] obtain Q where Q: "lists_ok E Q (heap s1)" by blast
  have "homes_ok E s1" using core1(1) by (simp add: kernel_core_def)
  then have "homes_ok E ?s4" by (rule homes_ok_upd) simp_all
  moreover have "lists_ok E Q (heap ?s4)" "tops_ok ?s4" "delayed_ok ?s4" "timely ?s4" "events_ok ?s4"
    "uxCurrentNumberOfTasks ?s4 = of_nat (card (known ?s4)) + 1"
    using Q core1(1) by (simp_all add: kernel_core_def tops_ok_def delayed_ok_def timely_def events_ok_def
        blocked_def count_ok_def known_def)
  moreover have "task_ok ?s4 t" "home ?s4 (StateItem t) = None"
    using a u s1(3) core1(2) by (simp_all add: task_ok_def f1(1) word_less_nat_alt unknown_def)
  ultimately obtain h' where h': "prvAddTaskToReadyList t ?s4 =
      Inr (?s4\<lparr>heap := h', uxTopReadyPriority := max (uxTopReadyPriority ?s4) (uxPriority (tcb ?s4 t))\<rparr>)"
    "pxContainer h' = (home ?s4)(StateItem t := Some (ReadyList (prio ?s4 t)))" "val_of h' = val_of (heap ?s4)"
    "kernel_core E (?s4\<lparr>heap := h', uxTopReadyPriority := max (uxTopReadyPriority ?s4) (uxPriority (tcb ?s4 t))\<rparr>)"
    using add_new_ready [of E Q ?s4 t] by blast
  let ?s5 = "?s4\<lparr>heap := h', uxTopReadyPriority := max (uxTopReadyPriority ?s4) (uxPriority (tcb ?s4 t))\<rparr>"
  let ?s6 = "portEXIT_CRITICAL ?c ?s5"
  have home6: "home ?s6 = (home s)(StateItem t := Some (ReadyList (unat p)))"
    using h'(2) core1(2) s1(3) by (simp add: fun_eq_iff)
  have tc: "tcb s1 (pxCurrentTCB s) = tcb s (pxCurrentTCB s)" using s1(4) cur(3) by simp
  have s4: "?s4 = portENTER_CRITICAL ?c s1\<lparr>uxCurrentNumberOfTasks := uxCurrentNumberOfTasks s1 + 1,
      uxTaskNumber := uxTaskNumber s1 + 1\<rparr>" if "\<not> uxPriority (tcb s (pxCurrentTCB s)) \<le> p"
    by (rule kernel.equality) (use that in \<open>simp_all add: f1\<close>)
  have new: "prvAddNewTaskToReadyList t s1 = Inr ?s6"
  proof (cases "uxPriority (tcb s (pxCurrentTCB s)) \<le> p")
    case True
    then show ?thesis
      using s1(3) h'(1) cur(1) tc by (simp add: prvAddNewTaskToReadyList_def Let_def f1)
  next
    case False
    have "prvAddTaskToReadyList t (portENTER_CRITICAL ?c s1\<lparr>uxCurrentNumberOfTasks := uxCurrentNumberOfTasks s1 + 1,
      uxTaskNumber := uxTaskNumber s1 + 1\<rparr>) = Inr ?s5"
      using h'(1) by (simp only: s4 [OF False])
    then show ?thesis
      using False cur(1) tc s1(3) by (simp add: prvAddNewTaskToReadyList_def Let_def f1)
  qed
  have run: "xTaskCreateStatic code name depth param p stack t s = Inr (t, ?s6)"
    using s1(1) a(2) new by (simp add: xTaskCreateStatic_def)
  have "kernel_core E ?s6" by (rule kernel_core_same [OF h'(4)]) simp_all
  moreover have "uxSchedulerSuspended ?s6 = 0" "xPendedTicks ?s6 = 0" "\<not> xSchedulerRunning ?s6"
    by (simp_all add: f1)
  moreover have "next_up ?s6 (pxCurrentTCB ?s6)"
    using cur s1(3) tc unfolding next_up_def home6
    by (auto simp: word_le_nat_alt intro: order_trans)
  ultimately have "boot_ok E ?s6"
    using k a(2) unfolding boot_ok_def home6 blocked_def by simp
  moreover have "abs_state ?s6 = (abs_state s)(t := Ready (unat p))"
  proof -
    have "abs_state ?s6 = abs_state ?s5" by (rule abs_state_same) simp_all
    also have "\<dots> = (abs_state ?s4)(t := Ready (prio ?s4 t))" using h'(2,3) by (intro abs_new) simp_all
    also have "abs_state ?s4 = abs_state s1" by (rule abs_state_same) simp_all
    finally show ?thesis using core1(3) s1(3) by (simp add: fun_upd_def)
  qed
  moreover have "\<forall>v. v \<noteq> t \<longrightarrow> tcb ?s6 v = tcb s v" using s1(4) by simp
  ultimately show ?thesis
    using run home6 s1(3) by (intro exI [of _ ?s6]) simp
qed

section \<open>Starting the scheduler\<close>

lemma start_kernel_run:
  assumes k: "boot_ok E s" and u: "unknown s (idle_tcb L)" and L: "idle_tcb L \<noteq> 0" "idle_stack L \<noteq> 0"
  shows "\<exists>s'. start_kernel L s = Inr (True, s') \<and> kernel_ok E s' \<and> uxSchedulerSuspended s' = 0 \<and>
    xSchedulerRunning s' \<and> xIdleTaskHandle s' = idle_tcb L \<and> xTickCount s' = 0 \<and>
    next_up s' (pxCurrentTCB s') \<and> (\<forall>t. \<not> blocked s' t) \<and>
    pxCurrentTCB s' = (if uxPriority (tcb s (pxCurrentTCB s)) = 0 then idle_tcb L else pxCurrentTCB s) \<and>
    (\<forall>v. v \<noteq> idle_tcb L \<longrightarrow> tcb s' v = tcb s v) \<and>
    abs_state s' = (abs_state s)(idle_tcb L := Ready 0)"
proof -
  have d: "31 < configMINIMAL_STACK_SIZE" by (simp add: configMINIMAL_STACK_SIZE_def)
  have "(0 :: u32) < 4" by simp
  from create_next [OF k u L(2,1) this d, of "idle_code L" "Some (\<lambda>x. cIdleName ! x)" 0] obtain s1 where s1:
    "xTaskCreateStatic (idle_code L) (Some (\<lambda>x. cIdleName ! x)) configMINIMAL_STACK_SIZE 0 0 (idle_stack L) (idle_tcb L) s = Inr (idle_tcb L, s1)"
    "boot_ok E s1" "pxCurrentTCB s1 = (if uxPriority (tcb s (pxCurrentTCB s)) \<le> 0 then idle_tcb L else pxCurrentTCB s)"
    "\<forall>v. v \<noteq> idle_tcb L \<longrightarrow> tcb s1 v = tcb s v"
    "abs_state s1 = (abs_state s)(idle_tcb L := Ready (unat (0 :: u32)))"
    "home s1 = (home s)(StateItem (idle_tcb L) := Some (ReadyList (unat (0 :: u32))))" by blast
  let ?s2 = "portDISABLE_INTERRUPTS (this_context (s1\<lparr>xIdleTaskHandle := idle_tcb L\<rparr>)) (s1\<lparr>xIdleTaskHandle := idle_tcb L\<rparr>)"
  let ?s' = "freertos_trace_task_switched_in
      (?s2\<lparr>xNextTaskUnblockTime := portMAX_DELAY, xSchedulerRunning := True, xTickCount := 0\<rparr>)"
  have run: "start_kernel L s = Inr (True, ?s')"
    using s1(1) L(1) by (simp add: start_kernel_def prvCreateIdleTasks_def vApplicationGetIdleTaskMemory_def Let_def)
  have sel: "heap ?s' = heap s1" "tcb ?s' = tcb s1" "uxTopReadyPriority ?s' = uxTopReadyPriority s1"
    "pxDelayedTaskList ?s' = pxDelayedTaskList s1" "pxOverflowDelayedTaskList ?s' = pxOverflowDelayedTaskList s1"
    "uxCurrentNumberOfTasks ?s' = uxCurrentNumberOfTasks s1" "pxCurrentTCB ?s' = pxCurrentTCB s1"
    "uxSchedulerSuspended ?s' = 0" "xPendedTicks ?s' = 0" "xSchedulerRunning ?s'"
    "xIdleTaskHandle ?s' = idle_tcb L" "xTickCount ?s' = 0"
    using s1(2) by (simp_all add: portDISABLE_INTERRUPTS_def freertos_trace_task_switched_in_def boot_ok_def)
  have b: "\<not> blocked s1 t" "home s1 (EventItem t) = None" for t using s1(2) by (simp_all add: boot_ok_def)
  have c1: "kernel_core E s1" using s1(2) by (simp add: boot_ok_def)
  from core_lists [OF c1] obtain Q where Q: "lists_ok E Q (heap s1)" by blast
  have "homes_ok E s1" using c1 by (simp add: kernel_core_def)
  then have "homes_ok E ?s'" by (rule homes_ok_upd) (simp_all add: sel)
  moreover have "timely ?s'"
  proof -
    have "delayed_ok s1" using c1 by (simp add: kernel_core_def)
    then have "home s1 (StateItem t) \<noteq> pxDelayedTaskList s1" "home s1 (StateItem t) \<noteq> pxOverflowDelayedTaskList s1" for t
      using b(1) [of t] by (auto simp: delayed_ok_def blocked_def)
    then show ?thesis by (simp add: timely_def sel)
  qed
  moreover have "tops_ok ?s'" "delayed_ok ?s'" "events_ok ?s'" "count_ok ?s'"
    using c1 by (simp_all add: kernel_core_def tops_ok_def delayed_ok_def events_ok_def blocked_def
        count_ok_def known_def sel)
  ultimately have "kernel_core E ?s'" using Q by (auto simp: kernel_core_def sel)
  moreover have "idle_ok ?s'" using s1(6) by (simp add: idle_ok_def sel)
  ultimately have "kernel_ok E ?s'" using b(2) by (simp add: kernel_ok_def pending_ok_def sel)
  moreover have "next_up ?s' (pxCurrentTCB ?s')"
    using s1(2) by (simp add: boot_ok_def next_up_def sel)
  moreover have "\<forall>t. \<not> blocked ?s' t" using b(1) by (simp add: blocked_def sel)
  moreover have "abs_state ?s' = (abs_state s)(idle_tcb L := Ready 0)"
  proof
    fix t
    have "abs_state ?s' t = abs_state s1 t"
      using b(1) [of t] by (auto simp: abs_state_def blocked_def sel split: option.split list_id.split)
    then show "abs_state ?s' t = ((abs_state s)(idle_tcb L := Ready 0)) t" using s1(5) by simp
  qed
  moreover have "pxCurrentTCB ?s' = (if uxPriority (tcb s (pxCurrentTCB s)) = 0 then idle_tcb L else pxCurrentTCB s)"
    "\<forall>v. v \<noteq> idle_tcb L \<longrightarrow> tcb ?s' v = tcb s v"
    using s1(3,4) sel by simp_all
  ultimately show ?thesis
    using run sel(8,10-12) by (intro exI [of _ ?s'] conjI) assumption+
qed

end
