(* ===== verification/Kernel_Steps.thy ===== *)
theory Kernel_Steps
  imports Kernel_Boot
begin

text \<open>
  The scheduler as a transition system. Every task runs a program of which only the calls
  into the kernel matter; \<open>pc\<close> says where in such a call it is. \<open>vTaskDelay\<close> is taken apart
  at the points where a timer interrupt can come in: after the scheduler is suspended, after
  the task is blocked, and between resuming and the final yield. A tick can come between any
  two steps, whether or not the scheduler is suspended.
\<close>

section \<open>The timer interrupt\<close>

text \<open>
  The handler of \<^verbatim>\<open>portASM.S\<close> for the machine timer: save the context, count the tick, and
  switch the context when \<^verbatim>\<open>xTaskIncrementTick\<close> asks for it. The update of the timer's
  compare register is in the theory of the port.
\<close>

definition freertos_risc_v_mtimer_interrupt_handler :: "kernel \<Rightarrow> kfault + kernel" where
  "freertos_risc_v_mtimer_interrupt_handler s =
     bindE (xTaskIncrementTick (save_context s)) (\<lambda>(switch, s1). if switch then vTaskSwitchContext s1 else Inr s1)"

section \<open>Steps\<close>

datatype pc = User | Delaying u32 | Resuming | Yielding

datatype action = Call u32 | Block | Resume | Yield | Tick

type_synonym system = "kernel \<times> (u32 \<Rightarrow> pc)"

inductive step :: "system \<Rightarrow> action \<Rightarrow> system \<Rightarrow> bool" where
  step_call: "pc (pxCurrentTCB s) = User \<Longrightarrow> pxCurrentTCB s \<noteq> xIdleTaskHandle s \<Longrightarrow> n \<noteq> 0 \<Longrightarrow>
    step (s, pc) (Call n) (vTaskSuspendAll s, pc(pxCurrentTCB s := Delaying n))"
| step_block: "pc (pxCurrentTCB s) = Delaying n \<Longrightarrow> prvAddCurrentTaskToDelayedList n False s = Inr s' \<Longrightarrow>
    step (s, pc) Block (s', pc(pxCurrentTCB s := Resuming))"
| step_resume: "pc (pxCurrentTCB s) = Resuming \<Longrightarrow> xTaskResumeAll s = Inr (y, s') \<Longrightarrow>
    step (s, pc) Resume (s', pc(pxCurrentTCB s := (if y then User else Yielding)))"
| step_yield: "pc (pxCurrentTCB s) \<in> {User, Yielding} \<Longrightarrow> portYIELD s = Inr s' \<Longrightarrow>
    step (s, pc) Yield (s', pc(pxCurrentTCB s := User))"
| step_tick: "freertos_risc_v_mtimer_interrupt_handler s = Inr s' \<Longrightarrow> step (s, pc) Tick (s', pc)"

inductive_cases step_callE: "step (s, pc) (Call n) t"
inductive_cases step_blockE: "step (s, pc) Block t"
inductive_cases step_resumeE: "step (s, pc) Resume t"
inductive_cases step_yieldE: "step (s, pc) Yield t"
inductive_cases step_tickE: "step (s, pc) Tick t"

inductive run :: "system \<Rightarrow> action list \<Rightarrow> system \<Rightarrow> bool" where
  run_nil: "run x [] x"
| run_snoc: "run x as y \<Longrightarrow> step y a z \<Longrightarrow> run x (as @ [a]) z"

section \<open>The invariant of the system\<close>

text \<open>
  Where the running task can be in a call, and what that says of the scheduler. A task in its
  own program is ready, and no ready task has a higher priority.
\<close>

fun running_ok :: "kernel \<Rightarrow> pc \<Rightarrow> bool" where
  "running_ok s User \<longleftrightarrow> uxSchedulerSuspended s = 0 \<and> next_up s (pxCurrentTCB s)"
| "running_ok s (Delaying n) \<longleftrightarrow> uxSchedulerSuspended s = 1 \<and> n \<noteq> 0 \<and> pxCurrentTCB s \<noteq> xIdleTaskHandle s \<and>
     home s (StateItem (pxCurrentTCB s)) = Some (ReadyList (prio s (pxCurrentTCB s)))"
| "running_ok s Resuming \<longleftrightarrow> uxSchedulerSuspended s = 1"
| "running_ok s Yielding \<longleftrightarrow> uxSchedulerSuspended s = 0"

definition sys_ok :: "nat set \<Rightarrow> system \<Rightarrow> bool" where
  "sys_ok E x \<longleftrightarrow> (case x of (s, pc) \<Rightarrow> kernel_ok E s \<and> pending_ok s \<and> running_ok s (pc (pxCurrentTCB s)) \<and>
     (\<forall>t. t \<noteq> pxCurrentTCB s \<longrightarrow> pc t \<in> {User, Yielding}))"

section \<open>The virtual state\<close>

text \<open>The abstract states as they will be once the ticks counted so far are replayed.\<close>

definition virtual :: "kernel \<Rightarrow> u32 \<Rightarrow> task_state" where
  "virtual s = (tick_spec (prio s) ^^ unat (xPendedTicks s)) (abs_state s)"

lemma tick_pow_Ready: "A t = Ready q \<Longrightarrow> (tick_spec pr ^^ k) A t = Ready q"
  by (induction k) (simp_all add: tick_spec_def)

lemma tick_pow_Absent: "A t = Absent \<Longrightarrow> (tick_spec pr ^^ k) A t = Absent"
  by (induction k) (simp_all add: tick_spec_def)

lemma tick_pow_Blocked:
  "A t = Blocked n \<Longrightarrow> n > 0 \<Longrightarrow> (tick_spec pr ^^ k) A t = (if k < n then Blocked (n - k) else Ready (pr t))"
  by (induction k) (auto simp: tick_spec_def)

lemma tick_pow_other:
  "(\<And>u. u \<noteq> t \<Longrightarrow> B u = A u) \<Longrightarrow> u \<noteq> t \<Longrightarrow> (tick_spec pr ^^ k) B u = (tick_spec pr ^^ k) A u"
  by (induction k) (simp_all add: tick_spec_def)

lemma settled_virtual: "settled E s s' \<Longrightarrow> virtual s' = abs_state s'"
  by (simp add: settled_def kernel_ok_def virtual_def)

section \<open>Each step\<close>

lemma call_step:
  assumes "sys_ok E (s, pc)" "step (s, pc) (Call n) (s', pc')"
  shows "sys_ok E (s', pc') \<and> virtual s' = virtual s \<and> prio s' = prio s \<and> xIdleTaskHandle s' = xIdleTaskHandle s"
proof -
  from assms(2) have st: "pc (pxCurrentTCB s) = User" "pxCurrentTCB s \<noteq> xIdleTaskHandle s" "n \<noteq> 0"
    "s' = vTaskSuspendAll s" "pc' = pc(pxCurrentTCB s := Delaying n)" by (auto elim: step_callE)
  have i: "kernel_ok E s" "pending_ok s" "uxSchedulerSuspended s = 0" "next_up s (pxCurrentTCB s)"
    "\<forall>t. t \<noteq> pxCurrentTCB s \<longrightarrow> pc t \<in> {User, Yielding}"
    using assms(1) st(1) by (simp_all add: sys_ok_def)
  have "kernel_core E s'"
    by (rule kernel_core_same [of E s]) (use i(1) in \<open>simp_all add: kernel_ok_def st(4) vTaskSuspendAll_def\<close>)
  then have "kernel_ok E s'" using i by (simp add: kernel_ok_def st(4) vTaskSuspendAll_def idle_ok_def)
  moreover have "abs_state s' = abs_state s" by (rule abs_state_same) (simp_all add: st(4) vTaskSuspendAll_def)
  ultimately show ?thesis
    using i st(2,3) by (simp add: sys_ok_def virtual_def st(4,5) vTaskSuspendAll_def pending_ok_def next_up_def)
qed

lemma block_step:
  assumes "sys_ok E (s, pc)" "step (s, pc) Block (s', pc')"
  shows "sys_ok E (s', pc') \<and> prio s' = prio s \<and> xIdleTaskHandle s' = xIdleTaskHandle s \<and>
    (\<forall>t m. virtual s t = Blocked m \<longrightarrow> virtual s' t = Blocked m)"
proof -
  from assms(2) obtain n where st: "pc (pxCurrentTCB s) = Delaying n"
    "prvAddCurrentTaskToDelayedList n False s = Inr s'" "pc' = pc(pxCurrentTCB s := Resuming)"
    by (auto elim: step_blockE)
  have i: "kernel_ok E s" "pending_ok s" "uxSchedulerSuspended s = 1" "n \<noteq> 0" "pxCurrentTCB s \<noteq> xIdleTaskHandle s"
    "home s (StateItem (pxCurrentTCB s)) = Some (ReadyList (prio s (pxCurrentTCB s)))"
    "\<forall>t. t \<noteq> pxCurrentTCB s \<longrightarrow> pc t \<in> {User, Yielding}"
    using assms(1) st(1) by (simp_all add: sys_ok_def)
  have c: "kernel_core E s" using i(1) by (simp add: kernel_ok_def)
  from block_current [OF c i(4,6), of False] st(2) have b: "kernel_core E s'"
    "s' = s\<lparr>heap := heap s', xNextTaskUnblockTime := xNextTaskUnblockTime s'\<rparr>"
    "home s' = (home s)(StateItem (pxCurrentTCB s) := delay_list n s)"
    "wake s' (pxCurrentTCB s) = xTickCount s + n" "\<forall>t. t \<noteq> pxCurrentTCB s \<longrightarrow> wake s' t = wake s t" by auto
  have f: "tcb s' = tcb s" "pxCurrentTCB s' = pxCurrentTCB s" "uxSchedulerSuspended s' = 1"
    "xIdleTaskHandle s' = xIdleTaskHandle s" "xPendedTicks s' = xPendedTicks s" "xTickCount s' = xTickCount s"
    using arg_cong [OF b(2), of tcb] arg_cong [OF b(2), of pxCurrentTCB] arg_cong [OF b(2), of uxSchedulerSuspended]
      arg_cong [OF b(2), of xIdleTaskHandle] arg_cong [OF b(2), of xPendedTicks] arg_cong [OF b(2), of xTickCount] i(3)
    by simp_all
  have "delayed_ok s" using c by (simp add: kernel_core_def)
  then have a: "abs_state s' = (abs_state s)(pxCurrentTCB s := Blocked (unat n))"
    using b f i(4) by (intro abs_block) simp_all
  have "virtual s' t = Blocked m" if v: "virtual s t = Blocked m" for t m
  proof -
    have "abs_state s (pxCurrentTCB s) = Ready (prio s (pxCurrentTCB s))" by (simp add: abs_state_def i(6))
    then have "t \<noteq> pxCurrentTCB s" using v tick_pow_Ready by (force simp: virtual_def)
    then have "virtual s' t = virtual s t"
      unfolding virtual_def f by (intro tick_pow_other [of "pxCurrentTCB s"]) (simp_all add: a)
    then show ?thesis using v by simp
  qed
  moreover have "kernel_ok E s'" using b(1) i(1,5) by (simp add: kernel_ok_def idle_ok_def b(3) f)
  moreover have "pending_ok s'" using i(2) by (simp add: pending_ok_def b(3))
  ultimately show ?thesis using i(7) f by (simp add: sys_ok_def st(3))
qed

lemma resume_step:
  assumes "sys_ok E (s, pc)" "step (s, pc) Resume (s', pc')"
  shows "sys_ok E (s', pc') \<and> virtual s' = virtual s \<and> prio s' = prio s \<and> xIdleTaskHandle s' = xIdleTaskHandle s"
proof -
  from assms(2) obtain y where st: "pc (pxCurrentTCB s) = Resuming" "xTaskResumeAll s = Inr (y, s')"
    "pc' = pc(pxCurrentTCB s := (if y then User else Yielding))" by (auto elim: step_resumeE)
  have i: "kernel_ok E s" "pending_ok s" "uxSchedulerSuspended s = 1"
    "\<forall>t. t \<noteq> pxCurrentTCB s \<longrightarrow> pc t \<in> {User, Yielding}"
    using assms(1) st(1) by (simp_all add: sys_ok_def)
  from xTaskResumeAll_run [OF i(1,3)] st(2) have r: "settled E s s'" "abs_state s' = resume_spec s"
    "if y then next_up s' (pxCurrentTCB s') else pxCurrentTCB s' = pxCurrentTCB s"
    by (auto simp: resumed_def split: if_splits)
  have P: "pending s = {}" using i(2) by (simp add: pending_def pending_ok_def)
  have "resume_spec s = virtual s" by (simp add: resume_spec_def virtual_def P)
  then have v: "virtual s' = virtual s" using settled_virtual [OF r(1)] r(2) by simp
  have s': "kernel_ok E s'" "uxSchedulerSuspended s' = 0" "pending_ok s'"
    using r(1) by (simp_all add: settled_def kernel_ok_def)
  have "pc' t \<in> {User, Yielding}" for t using i(4) by (simp add: st(3))
  moreover have "running_ok s' (pc' (pxCurrentTCB s'))"
  proof (cases y)
    case True
    then show ?thesis using r(3) s' calculation [of "pxCurrentTCB s'"] by auto
  next
    case False
    then show ?thesis using r(3) s' by (simp add: st(3))
  qed
  ultimately show ?thesis using v r(1) s' by (simp add: sys_ok_def settled_def)
qed

lemma yield_step:
  assumes "sys_ok E (s, pc)" "step (s, pc) Yield (s', pc')"
  shows "sys_ok E (s', pc') \<and> virtual s' = virtual s \<and> prio s' = prio s \<and> xIdleTaskHandle s' = xIdleTaskHandle s"
proof -
  from assms(2) have st: "pc (pxCurrentTCB s) \<in> {User, Yielding}" "portYIELD s = Inr s'"
    "pc' = pc(pxCurrentTCB s := User)" by (auto elim: step_yieldE)
  have i: "kernel_ok E s" "uxSchedulerSuspended s = 0" "\<forall>t. t \<noteq> pxCurrentTCB s \<longrightarrow> pc t \<in> {User, Yielding}"
    using assms(1) st(1) by (auto simp: sys_ok_def)
  from portYIELD_done [OF i(1,2) st(2)] have r: "settled E s s'" "next_up s' (pxCurrentTCB s')"
    "abs_state s' = abs_state s" by auto
  have "virtual s = abs_state s" using i by (simp add: virtual_def kernel_ok_def)
  then have v: "virtual s' = virtual s" using settled_virtual [OF r(1)] r(3) by simp
  have s': "kernel_ok E s'" "uxSchedulerSuspended s' = 0" "pending_ok s'"
    using r(1) by (simp_all add: settled_def kernel_ok_def)
  have "pc' t \<in> {User, Yielding}" for t using i(3) by (simp add: st(3))
  moreover from this [of "pxCurrentTCB s'"] have "running_ok s' (pc' (pxCurrentTCB s'))"
    using r(2) s' by auto
  ultimately show ?thesis using v r(1) s' by (simp add: sys_ok_def settled_def)
qed


abbreviation counted :: "kernel \<Rightarrow> kernel" where
  "counted s \<equiv> vApplicationTickHook ((save_context s)\<lparr>xPendedTicks := xPendedTicks s + 1\<rparr>)"

lemma tick_suspended:
  assumes k: "kernel_ok E s" and sus: "uxSchedulerSuspended s \<noteq> 0"
  shows "freertos_risc_v_mtimer_interrupt_handler s = Inr (counted s)"
    and "kernel_ok E (counted s)" and "abs_state (counted s) = abs_state s"
proof -
  show "freertos_risc_v_mtimer_interrupt_handler s = Inr (counted s)"
    using sus by (simp add: freertos_risc_v_mtimer_interrupt_handler_def xTaskIncrementTick_def)
  have "kernel_core E (save_context s)" using k save_context_core by (simp add: kernel_ok_def)
  then have "kernel_core E (counted s)" by (rule kernel_core_same) (simp_all add: vApplicationTickHook_def)
  then show "kernel_ok E (counted s)" using k sus by (simp add: kernel_ok_def idle_ok_def vApplicationTickHook_def)
  show "abs_state (counted s) = abs_state s" by (rule abs_state_same) (simp_all add: vApplicationTickHook_def)
qed

text \<open>A tick while the scheduler is not suspended: it counts, and switches when it has to.\<close>

lemma tick_unsuspended:
  assumes k: "kernel_ok E s" and sus: "uxSchedulerSuspended s = 0"
  shows "\<not> healthy s \<and> freertos_risc_v_mtimer_interrupt_handler s = Inl StackOverflow \<or>
    (\<exists>s'. freertos_risc_v_mtimer_interrupt_handler s = Inr s' \<and> settled E s s' \<and>
      abs_state s' = tick_spec (prio s) (abs_state s) \<and> xTickCount s' = xTickCount s + 1 \<and>
      (next_up s' (pxCurrentTCB s') \<or>
       pxCurrentTCB s' = pxCurrentTCB s \<and> (next_up s (pxCurrentTCB s) \<longrightarrow> next_up s' (pxCurrentTCB s))))"
proof -
  let ?s = "save_context s"
  have c: "kernel_core E ?s" using k save_context_core by (simp add: kernel_ok_def)
  have z: "uxSchedulerSuspended ?s = 0" using sus by simp
  from xTaskIncrementTick_run [OF c z] obtain sw s1 where s1:
    "xTaskIncrementTick ?s = Inr (sw, s1)"
    "sw = ((\<exists>t \<in> expiring ?s. uxPriority (tcb ?s t) > uxPriority (tcb ?s (pxCurrentTCB ?s))) \<or>
           uxNumberOfItems (heap s1) (ReadyList (prio ?s (pxCurrentTCB ?s))) > 1 \<or> xYieldPending ?s)"
    "kernel_core E s1" "same_frame ?s s1" "wakes_to ?s (expiring ?s) s1" "xTickCount s1 = xTickCount ?s + 1" by blast
  have W: "t \<in> expiring ?s \<Longrightarrow> blocked ?s t" for t by (simp add: expiring_def)
  have i1: "idle_ok s1" by (rule wakes_idle [OF s1(5,4) W]) (use k in \<open>simp_all add: kernel_ok_def\<close>)
  have p1: "pending_ok s1" by (rule wakes_pending [OF s1(5)]) (use k sus in \<open>simp add: kernel_ok_def\<close>)
  have f1: "tcb s1 = tcb ?s" "pxCurrentTCB s1 = pxCurrentTCB s" "uxSchedulerSuspended s1 = 0" "xPendedTicks s1 = 0"
    "xIdleTaskHandle s1 = xIdleTaskHandle s" "xSchedulerRunning s1 = xSchedulerRunning s"
    "memory s1 = memory ?s" "pxCurrentTCB s1 = pxCurrentTCB ?s"
    using s1(4) k sus by (simp_all add: same_frame_def kernel_ok_def)
  have pr: "prio s1 = prio s" by (simp add: f1)
  have a1: "abs_state s1 = tick_spec (prio s) (abs_state s)" using abs_tick [OF c s1(4,5,6)] by simp
  have k1: "kernel_ok E s1" using s1(3) i1 p1 f1 by (simp add: kernel_ok_def)
  show ?thesis
  proof (cases sw)
    case True
    from core_lists [OF s1(3)] obtain Q where Q: "lists_ok E Q (heap s1)" by blast
    have run: "freertos_risc_v_mtimer_interrupt_handler s = vTaskSwitchContext s1"
      using s1(1) True by (simp add: freertos_risc_v_mtimer_interrupt_handler_def)
    show ?thesis
    proof (cases "stack_overflowed s1")
      case True
      then have "\<not> healthy s" using overflowed_same [OF f1(1,7,8)] by (simp add: save_context_overflowed)
      then show ?thesis using run switch_overflowed [OF f1(3) True] by simp
    next
      case False
      from vTaskSwitchContext_run [OF s1(3) i1 f1(3) Q False] obtain t where t:
        "vTaskSwitchContext s1 = Inr (switched s1 t)" "next_up s1 t" "kernel_core E (switched s1 t)" by blast
      have "kernel_ok E (switched s1 t)" using t(3) k1 by (simp add: kernel_ok_def)
      then show ?thesis
        using run t a1 f1 s1(6) pr by (intro disjI2 exI [of _ "switched s1 t"]) (simp add: settled_def)
    qed
  next
    case False
    have run: "freertos_risc_v_mtimer_interrupt_handler s = Inr s1"
      using s1(1) False by (simp add: freertos_risc_v_mtimer_interrupt_handler_def)
    have "next_up s1 (pxCurrentTCB s)" if n: "next_up s (pxCurrentTCB s)"
    proof -
      have low: "prio s t \<le> prio s (pxCurrentTCB s)" if "t \<in> expiring ?s" for t
        using False s1(2) that by (auto simp: not_less word_le_nat_alt)
      have "home s1 (StateItem u) = (if u \<in> expiring ?s then Some (ReadyList (prio s u)) else home s (StateItem u))" for u
        using s1(5) by (simp add: wakes_to_def)
      then show ?thesis
        using n low W unfolding next_up_def by (auto simp: f1 blocked_def split: if_splits)
    qed
    then show ?thesis
      using run k1 a1 f1 s1(6) pr by (intro disjI2 exI [of _ s1]) (simp add: settled_def)
  qed
qed

lemma tick_fault:
  assumes "kernel_ok E s" "freertos_risc_v_mtimer_interrupt_handler s = Inl e"
  shows "e = StackOverflow \<and> \<not> healthy s"
  using tick_suspended(1) [OF assms(1)] tick_unsuspended [OF assms(1)] assms(2)
  by (cases "uxSchedulerSuspended s = 0") auto

lemma tick_step:
  assumes "sys_ok E (s, pc)" "step (s, pc) Tick (s', pc')"
  shows "sys_ok E (s', pc') \<and> prio s' = prio s \<and> xIdleTaskHandle s' = xIdleTaskHandle s \<and>
    unat (xPendedTicks s') \<le> unat (xPendedTicks s) + 1 \<and>
    (xPendedTicks s \<noteq> -1 \<longrightarrow> virtual s' = tick_spec (prio s) (virtual s))"
proof -
  from assms(2) have st: "freertos_risc_v_mtimer_interrupt_handler s = Inr s'" "pc' = pc" by (auto elim: step_tickE)
  have i: "kernel_ok E s" "pending_ok s" "running_ok s (pc (pxCurrentTCB s))"
    "\<forall>t. t \<noteq> pxCurrentTCB s \<longrightarrow> pc t \<in> {User, Yielding}"
    using assms(1) by (simp_all add: sys_ok_def)
  show ?thesis
  proof (cases "uxSchedulerSuspended s = 0")
    case True
    from tick_unsuspended [OF i(1) True] st(1) have r: "settled E s s'"
      "abs_state s' = tick_spec (prio s) (abs_state s)"
      "next_up s' (pxCurrentTCB s') \<or>
       pxCurrentTCB s' = pxCurrentTCB s \<and> (next_up s (pxCurrentTCB s) \<longrightarrow> next_up s' (pxCurrentTCB s))" by auto
    have s': "kernel_ok E s'" "uxSchedulerSuspended s' = 0" "pending_ok s'" "xPendedTicks s' = 0" "prio s' = prio s"
      "xIdleTaskHandle s' = xIdleTaskHandle s"
      using r(1) by (simp_all add: settled_def kernel_ok_def)
    have cur: "pc (pxCurrentTCB s) \<in> {User, Yielding}" using i(3) True by (cases "pc (pxCurrentTCB s)") auto
    then have all: "pc t \<in> {User, Yielding}" for t using i(4) by (cases "t = pxCurrentTCB s") auto
    have "running_ok s' (pc (pxCurrentTCB s'))"
    proof (cases "next_up s' (pxCurrentTCB s')")
      case True
      then show ?thesis using all [of "pxCurrentTCB s'"] s'(2) by auto
    next
      case False
      then show ?thesis using r(3) i(3) cur s'(2) by auto
    qed
    moreover have "virtual s = abs_state s" using i(1) True by (simp add: virtual_def kernel_ok_def)
    ultimately show ?thesis
      using s' all st(2) r(2) settled_virtual [OF r(1)] by (simp add: sys_ok_def)
  next
    case False
    note t = tick_suspended [OF i(1) False]
    let ?s = "counted s"
    have s': "s' = ?s" using t(1) st(1) by simp
    have sel: "heap ?s = heap s" "prio ?s = prio s" "pxCurrentTCB ?s = pxCurrentTCB s"
      "xIdleTaskHandle ?s = xIdleTaskHandle s" "uxSchedulerSuspended ?s = uxSchedulerSuspended s"
      "xPendedTicks ?s = xPendedTicks s + 1"
      by (simp_all add: vApplicationTickHook_def)
    have "running_ok ?s (pc (pxCurrentTCB s))"
      using i(3) sel False fun_cong [OF sel(2)] by (cases "pc (pxCurrentTCB s)") (simp_all del: save_context_sel)
    then have "sys_ok E (?s, pc)"
      using i t(2) by (simp add: sys_ok_def sel pending_ok_def)
    moreover have "unat (xPendedTicks s + 1) \<le> unat (xPendedTicks s) + 1"
      using unat_add1_if [of "xPendedTicks s"] by (cases "xPendedTicks s = -1") simp_all
    moreover have "virtual ?s = tick_spec (prio s) (virtual s)" if "xPendedTicks s \<noteq> -1"
      unfolding virtual_def sel t(3) using unat_add1_if [OF that] by simp
    ultimately show ?thesis using s' st(2) sel by simp
  qed
qed


section \<open>Runs\<close>

lemma step_ok:
  assumes "sys_ok E (s, pc)" "step (s, pc) a (s', pc')"
  shows "sys_ok E (s', pc') \<and> prio s' = prio s \<and> xIdleTaskHandle s' = xIdleTaskHandle s"
  using assms call_step [of E s pc] block_step [of E s pc] resume_step [of E s pc]
    yield_step [of E s pc] tick_step [of E s pc] by (cases a) blast+

lemma run_ok: "run x as y \<Longrightarrow> sys_ok E x \<Longrightarrow> sys_ok E y \<and> prio (fst y) = prio (fst x)"
proof (induction rule: run.induct)
  case (run_snoc x as y a z)
  then have "sys_ok E y" "prio (fst y) = prio (fst x)" by blast+
  then show ?case using step_ok [of E "fst y" "snd y" a "fst z" "snd z"] run_snoc.hyps(2) by simp
qed simp

definition ticks :: "action list \<Rightarrow> nat" where
  "ticks as = length (filter (\<lambda>a. a = Tick) as)"

lemma ticks_simps [simp]: "ticks [] = 0" "ticks (as @ [a]) = ticks as + (if a = Tick then 1 else 0)"
  by (simp_all add: ticks_def)

lemma step_pended:
  assumes "sys_ok E (s, pc)" "step (s, pc) a (s', pc')"
  shows "unat (xPendedTicks s') \<le> unat (xPendedTicks s) + (if a = Tick then 1 else 0)"
proof (cases a)
  case Tick
  then show ?thesis using tick_step [OF assms(1)] assms(2) by simp
next
  case (Call n)
  then show ?thesis using assms(2) by (auto elim: step_callE simp: vTaskSuspendAll_def)
next
  case Block
  then obtain n where b: "pc (pxCurrentTCB s) = Delaying n" "prvAddCurrentTaskToDelayedList n False s = Inr s'"
    using assms(2) by (auto elim: step_blockE)
  then have i: "kernel_core E s" "n \<noteq> 0"
    "home s (StateItem (pxCurrentTCB s)) = Some (ReadyList (prio s (pxCurrentTCB s)))"
    using assms(1) by (simp_all add: sys_ok_def kernel_ok_def)
  from block_current [OF i, of False] b(2)
  have e: "s' = s\<lparr>heap := heap s', xNextTaskUnblockTime := xNextTaskUnblockTime s'\<rparr>" by simp
  show ?thesis using arg_cong [OF e, of xPendedTicks] by simp
next
  case Resume
  then obtain y where r: "pc (pxCurrentTCB s) = Resuming" "xTaskResumeAll s = Inr (y, s')"
    using assms(2) by (auto elim: step_resumeE)
  then have "kernel_ok E s" "uxSchedulerSuspended s = 1" using assms(1) by (simp_all add: sys_ok_def)
  from xTaskResumeAll_run [OF this] r(2) have "settled E s s'" by simp
  then show ?thesis by (simp add: settled_def kernel_ok_def)
next
  case Yield
  then have y: "pc (pxCurrentTCB s) \<in> {User, Yielding}" "portYIELD s = Inr s'"
    using assms(2) by (auto elim: step_yieldE)
  then have "kernel_ok E s" "uxSchedulerSuspended s = 0" using assms(1) by (auto simp: sys_ok_def)
  from portYIELD_done [OF this y(2)] have "settled E s s'" by blast
  then show ?thesis by (simp add: settled_def kernel_ok_def)
qed

lemma step_blocked:
  assumes "sys_ok E (s, pc)" "step (s, pc) a (s', pc')" "a \<noteq> Tick" "virtual s t = Blocked m"
  shows "virtual s' t = Blocked m"
  using assms call_step [of E s pc] block_step [of E s pc] resume_step [of E s pc] yield_step [of E s pc]
  by (cases a) (metis | blast)+

text \<open>
  A task blocked for \<open>n\<close> ticks stays blocked, for one tick less after each, whatever the
  other tasks do meanwhile.
\<close>

lemma run_blocked:
  assumes "run x as y" "sys_ok E x" "virtual (fst x) t = Blocked n"
    and "ticks as < n" "unat (xPendedTicks (fst x)) + ticks as < 2 ^ 32"
  shows "virtual (fst y) t = Blocked (n - ticks as) \<and> unat (xPendedTicks (fst y)) \<le> unat (xPendedTicks (fst x)) + ticks as"
  using assms
proof (induction rule: run.induct)
  case (run_nil x)
  then show ?case by simp
next
  case (run_snoc x as y a z)
  obtain s pc s' pc' where yz: "y = (s, pc)" "z = (s', pc')" by (cases y; cases z)
  have le: "ticks as \<le> ticks (as @ [a])" by simp
  have IH: "virtual s t = Blocked (n - ticks as)" "unat (xPendedTicks s) \<le> unat (xPendedTicks (fst x)) + ticks as"
    using run_snoc.IH run_snoc.prems le yz by (simp_all split: if_splits)
  have ok: "sys_ok E (s, pc)" using run_ok [OF run_snoc.hyps(1) run_snoc.prems(1)] yz by simp
  have st: "step (s, pc) a (s', pc')" using run_snoc.hyps(2) yz by simp
  have p: "unat (xPendedTicks s') \<le> unat (xPendedTicks (fst x)) + ticks (as @ [a])"
    using step_pended [OF ok st] IH(2) by simp
  show ?case
  proof (cases "a = Tick")
    case False
    then show ?thesis using step_blocked [OF ok st False IH(1)] p yz by simp
  next
    case True
    have "unat (xPendedTicks s) < 2 ^ 32 - 1" using IH(2) run_snoc.prems(4) True by simp
    then have "xPendedTicks s \<noteq> -1" by (auto simp: unsigned_minus_1_eq_mask mask_eq_exp_minus_1)
    then have "virtual s' t = tick_spec (prio s) (virtual s) t"
      using tick_step [OF ok] st True by simp
    then show ?thesis
      using IH(1) run_snoc.prems(3) True p yz by (simp add: tick_spec_def)
  qed
qed

end
