(* ===== verification/Kernel_Demo.thy ===== *)
theory Kernel_Demo
  imports Kernel_Steps
begin

text \<open>
  A concrete system for the witnesses: the kernel at reset, two tasks created as an
  application creates them (priorities 2 and 1), and the scheduler started.
\<close>

definition reset_store :: "(list_id, item_id, u32) list_store" where
  "reset_store = \<lparr>xItemValue = \<lambda>_. 0, pxNext = \<lambda>_. Null, pxPrevious = \<lambda>_. Null, pvOwner = \<lambda>_. 0,
     pxContainer = \<lambda>_. None, pxIndex = \<lambda>_. Null, uxNumberOfItems = \<lambda>_. 0\<rparr>"

definition reset_kernel :: kernel where
  "reset_kernel = \<lparr>heap = reset_store, tcb = \<lambda>_. zero_tcb, memory = \<lambda>_. 0, pxCurrentTCB = 0,
     pxDelayedTaskList = None, pxOverflowDelayedTaskList = None, uxCurrentNumberOfTasks = 0, xTickCount = 0,
     uxTopReadyPriority = 0, xSchedulerRunning = False, xPendedTicks = 0, xYieldPending = False,
     xNumOfOverflows = 0, uxTaskNumber = 0, xNextTaskUnblockTime = 0, xIdleTaskHandle = 0,
     uxSchedulerSuspended = 0, xCriticalNesting = (\<lambda>_. 0)(0 := 0xaaaaaaaa), irq_enabled = \<lambda>_. False,
     saved_sp = 0, csr_mstatus = 0, freertos_tick_hook_count = 0, freertos_context_switch_count = 0\<rparr>"

definition result :: "'e + 'a \<times> 'b \<Rightarrow> 'b" where
  "result r = snd (projr r)"

definition demo_one :: kernel where
  "demo_one = result (xTaskCreateStatic 0x100 None 128 7 2 0x1000 0x2000 reset_kernel)"

definition demo_two :: kernel where
  "demo_two = result (xTaskCreateStatic 0x200 None 128 8 1 0x3000 0x4000 demo_one)"

definition demo_layout :: idle_layout where
  "demo_layout = \<lparr>idle_code = 0x300, idle_tcb = 0x6000, idle_stack = 0x5000\<rparr>"

definition demo :: kernel where
  "demo = result (start_kernel demo_layout demo_two)"

lemma result_Inr [simp]: "result (Inr (x, y)) = y"
  by (simp add: result_def)

lemma fresh_reset: "fresh {} reset_kernel"
  by (simp add: fresh_def reset_kernel_def reset_store_def)

lemma demo_one_facts:
  "boot_ok {} demo_one" "pxCurrentTCB demo_one = 0x2000" "uxPriority (tcb demo_one 0x2000) = 2"
  "home demo_one = (\<lambda>_. None)(StateItem 0x2000 := Some (ReadyList 2))"
  using create_first [OF fresh_reset, where code = "0x100" and name = None and depth = 128 and param = 7 and
      p = 2 and stack = "0x1000" and t = "0x2000"] by (auto simp: demo_one_def)

lemma demo_two_facts:
  "boot_ok {} demo_two" "pxCurrentTCB demo_two = 0x2000" "uxPriority (tcb demo_two 0x2000) = 2"
  "uxPriority (tcb demo_two 0x4000) = 1"
  "home demo_two = (\<lambda>_. None)(StateItem 0x2000 := Some (ReadyList 2), StateItem 0x4000 := Some (ReadyList 1))"
  using create_next [OF demo_one_facts(1), where code = "0x200" and name = None and depth = 128 and param = 8 and
      p = 1 and stack = "0x3000" and t = "0x4000"] demo_one_facts
  by (auto simp: demo_two_def unknown_def word_le_nat_alt)

lemma demo_facts:
  "kernel_ok {} demo" "uxSchedulerSuspended demo = 0" "pxCurrentTCB demo = 0x2000"
  "uxPriority (tcb demo 0x2000) = 2" "uxPriority (tcb demo 0x4000) = 1" "xIdleTaskHandle demo = 0x6000"
  "next_up demo 0x2000" "xTickCount demo = 0" "xPendedTicks demo = 0"
  "abs_state demo = (abs_state demo_two)(0x6000 := Ready 0)"
proof -
  have "unknown demo_two (idle_tcb demo_layout)" "idle_tcb demo_layout \<noteq> 0" "idle_stack demo_layout \<noteq> 0"
    using demo_two_facts(5) by (simp_all add: unknown_def demo_layout_def)
  from start_kernel_run [OF demo_two_facts(1) this] demo_two_facts(2,3) show
    "kernel_ok {} demo" "uxSchedulerSuspended demo = 0" "pxCurrentTCB demo = 0x2000"
    "uxPriority (tcb demo 0x2000) = 2" "uxPriority (tcb demo 0x4000) = 1" "xIdleTaskHandle demo = 0x6000"
    "next_up demo 0x2000" "xTickCount demo = 0" "abs_state demo = (abs_state demo_two)(0x6000 := Ready 0)"
    "xPendedTicks demo = 0"
    using demo_two_facts(4) by (auto simp: demo_def demo_layout_def kernel_ok_def)
qed

lemma demo_home: "home demo (StateItem 0x2000) = Some (ReadyList 2)"
  using demo_facts(4,7) by (simp add: next_up_def)

lemma demo_only: "home demo (StateItem t) = Some (ReadyList 2) \<Longrightarrow> t = 0x2000"
proof -
  assume "home demo (StateItem t) = Some (ReadyList 2)"
  then have "abs_state demo t = Ready 2" by (simp add: abs_state_def)
  then show "t = 0x2000"
    using demo_facts(10) demo_two_facts(5) by (auto simp: abs_state_def fun_upd_def split: if_splits)
qed

lemma singleton_list: "set xs = {a} \<Longrightarrow> distinct xs \<Longrightarrow> xs = [a]"
  by (metis distinct_card card_1_singleton_iff length_Suc_conv length_0_conv One_nat_def is_singletonI is_singleton_altdef
      list.set_intros(1) singletonD)

lemma demo_sys_ok: "sys_ok {} (demo, \<lambda>_. User)"
  using demo_facts by (simp add: sys_ok_def kernel_ok_def)

text \<open>The first task has called \<open>vTaskDelay(3)\<close> and is blocked.\<close>

definition demo_called :: kernel where
  "demo_called = vTaskSuspendAll demo"

definition demo_blocked :: kernel where
  "demo_blocked = projr (prvAddCurrentTaskToDelayedList 3 False demo_called)"

lemma demo_call: "step (demo, \<lambda>_. User) (Call 3) (demo_called, (\<lambda>_. User)(0x2000 := Delaying 3))"
  using step_call [of "\<lambda>_. User" demo 3] demo_facts by (simp add: demo_called_def)

lemma demo_block:
  "prvAddCurrentTaskToDelayedList 3 False demo_called = Inr demo_blocked"
  "step (demo_called, (\<lambda>_. User)(0x2000 := Delaying 3)) Block (demo_blocked, (\<lambda>_. User)(0x2000 := Resuming))"
  "abs_state demo_blocked 0x2000 = Blocked 3" "xPendedTicks demo_blocked = 0"
  "kernel_ok {} demo_blocked" "uxSchedulerSuspended demo_blocked = 1"
proof -
  have sel: "pxCurrentTCB demo_called = 0x2000" "home demo_called = home demo" "xTickCount demo_called = 0"
    "xPendedTicks demo_called = 0"
    using demo_facts by (simp_all add: demo_called_def vTaskSuspendAll_def)
  have k: "sys_ok {} (demo_called, (\<lambda>_. User)(0x2000 := Delaying 3))"
    using call_step [OF demo_sys_ok demo_call] by blast
  then have c: "kernel_core {} demo_called" by (simp add: sys_ok_def kernel_ok_def)
  have "home demo_called (StateItem (pxCurrentTCB demo_called)) = Some (ReadyList 2)"
    using demo_home by (simp add: sel)
  from block_current [OF c _ this, of 3 False] show b:
    "prvAddCurrentTaskToDelayedList 3 False demo_called = Inr demo_blocked"
    by (auto simp: demo_blocked_def)
  show st: "step (demo_called, (\<lambda>_. User)(0x2000 := Delaying 3)) Block (demo_blocked, (\<lambda>_. User)(0x2000 := Resuming))"
    using step_block [of "(\<lambda>_. User)(0x2000 := Delaying 3)" demo_called 3 demo_blocked] b by (simp add: sel)
  have ok: "sys_ok {} (demo_blocked, (\<lambda>_. User)(0x2000 := Resuming))" using block_step [OF k st] by blast
  have d: "delayed_ok demo_called" using c by (simp add: kernel_core_def)
  from block_current [OF c _ \<open>home demo_called (StateItem (pxCurrentTCB demo_called)) = Some (ReadyList 2)\<close>, of 3 False] b
  have e: "demo_blocked = demo_called\<lparr>heap := heap demo_blocked, xNextTaskUnblockTime := xNextTaskUnblockTime demo_blocked\<rparr>"
    and h: "home demo_blocked = (home demo_called)(StateItem 0x2000 := delay_list 3 demo_called)"
      "wake demo_blocked 0x2000 = 3" "\<forall>t. t \<noteq> 0x2000 \<longrightarrow> wake demo_blocked t = wake demo_called t"
    by (auto simp: sel)
  have f: "xTickCount demo_blocked = 0" "pxCurrentTCB demo_blocked = 0x2000" "xPendedTicks demo_blocked = 0"
    using arg_cong [OF e, of xTickCount] arg_cong [OF e, of pxCurrentTCB] arg_cong [OF e, of xPendedTicks]
    by (simp_all add: sel)
  then show "xPendedTicks demo_blocked = 0" "kernel_ok {} demo_blocked" "uxSchedulerSuspended demo_blocked = 1"
    using ok by (simp_all add: sys_ok_def)
  have "abs_state demo_blocked = (abs_state demo_called)(0x2000 := Blocked (unat (3 :: u32)))"
    by (rule abs_block [OF _ d h(1)]) (use h f sel in simp_all)
  then show "abs_state demo_blocked 0x2000 = Blocked 3" by simp
qed

definition demo_sleeping :: system where
  "demo_sleeping = (demo_blocked, (\<lambda>_. User)(0x2000 := Resuming))"

text \<open>
  The same systems with stacks that have not overflowed: every saved stack pointer is 0x100 above
  the base of its stack, and the memory holds the fill byte.
\<close>

definition rested :: "kernel \<Rightarrow> kernel" where
  "rested s = s\<lparr>memory := \<lambda>_. 0xa5, saved_sp := 0x1100,
     tcb := \<lambda>t. (tcb s t)\<lparr>pxStack := 0x1000, pxTopOfStack := 0x1100\<rparr>\<rparr>"

lemma rested_sel [simp]:
  "heap (rested s) = heap s" "uxPriority (tcb (rested s) t) = uxPriority (tcb s t)"
  "pxCurrentTCB (rested s) = pxCurrentTCB s" "xTickCount (rested s) = xTickCount s"
  "uxSchedulerSuspended (rested s) = uxSchedulerSuspended s" "xPendedTicks (rested s) = xPendedTicks s"
  "xIdleTaskHandle (rested s) = xIdleTaskHandle s" "xYieldPending (rested s) = xYieldPending s"
  by (simp_all add: rested_def)

lemma rested_healthy: "stack_intact (rested s) t (pxTopOfStack (tcb (rested s) t))" "healthy (rested s)"
  by (simp_all add: rested_def healthy_def stack_intact_def)

lemma rested_abs [simp]: "abs_state (rested s) = abs_state s"
  by (rule abs_state_same) simp_all

lemma rested_ok: "kernel_ok E s \<Longrightarrow> kernel_ok E (rested s)"
proof -
  assume k: "kernel_ok E s"
  then have c: "kernel_core E s" by (simp add: kernel_ok_def)
  from core_lists [OF c] obtain Q where "lists_ok E Q (heap s)" by blast
  then have "kernel_core E (rested s)"
    using c core_next [OF c]
    by (intro core_carry [OF c, of Q]) (simp_all add: kernel_core_def tops_ok_def, simp_all add: rested_def)
  then show ?thesis using k by (simp add: kernel_ok_def idle_ok_def pending_ok_def)
qed

lemma demo_sleeping_ok: "sys_ok {} demo_sleeping"
  using block_step [OF _ demo_block(2)] call_step [OF demo_sys_ok demo_call] by (auto simp: demo_sleeping_def)

end
