(* ===== verification/Kernel_Claims.thy ===== *)
theory Kernel_Claims
  imports Kernel_Demo
begin

text \<open>
  The properties of the scheduler: what holds in every reachable state, what each call does
  to the abstract states of the tasks, the order of turns, and the construction of a system.
\<close>

section \<open>Reachable states\<close>

text \<open>C2. In every state a run can reach, the scheduler's invariant holds (well-formed lists, sorted
  delayed lists, summaries that agree with the lists), and whenever a task executes its own
  program that task is ready and no ready task has a higher priority.\<close>

theorem running_task_is_highest:
  assumes "sys_ok E x" and "run x as (s, pc)"
  shows "kernel_ok E s \<and> (pc (pxCurrentTCB s) = User \<longrightarrow>
    uxSchedulerSuspended s = 0 \<and>
    home s (StateItem (pxCurrentTCB s)) = Some (ReadyList (prio s (pxCurrentTCB s))) \<and>
    (\<forall>u q. home s (StateItem u) = Some (ReadyList q) \<longrightarrow> q \<le> prio s (pxCurrentTCB s)))"
  using run_ok [OF assms(2,1)] by (auto simp: sys_ok_def next_up_def)

theorem running_task_is_highest_witness:
  "run (demo, \<lambda>_. User) [] (demo, \<lambda>_. User) \<and> kernel_ok {} demo \<and>
   home demo (StateItem (pxCurrentTCB demo)) = Some (ReadyList (prio demo (pxCurrentTCB demo)))"
  using running_task_is_highest [OF demo_sys_ok run_nil] run_nil by blast

text \<open>C5. No call into the kernel that a reachable state can make faults: no list pointer is NULL, no
  search runs forever, no assertion of \<^verbatim>\<open>tasks.c\<close> fails. The only way not to return is the
  stack overflow hook, when the stack of the running task has overflowed. This covers the timer interrupt in any state, blocking the running
  task, resuming the scheduler and yielding.\<close>

theorem kernel_calls_never_fault:
  assumes "sys_ok E x" and "run x as (s, pc)"
  shows "(\<forall>e. freertos_risc_v_mtimer_interrupt_handler s = Inl e \<longrightarrow> e = StackOverflow \<and> \<not> healthy s) \<and>
    (\<forall>n e. pc (pxCurrentTCB s) = Delaying n \<longrightarrow> prvAddCurrentTaskToDelayedList n False s \<noteq> Inl e) \<and>
    (\<forall>e. pc (pxCurrentTCB s) = Resuming \<longrightarrow> xTaskResumeAll s = Inl e \<longrightarrow> e = StackOverflow \<and> \<not> healthy s) \<and>
    (\<forall>e. pc (pxCurrentTCB s) \<in> {User, Yielding} \<longrightarrow> portYIELD s = Inl e \<longrightarrow> e = StackOverflow \<and> \<not> healthy s)"
proof (intro conjI allI impI)
  have ok: "kernel_ok E s" "running_ok s (pc (pxCurrentTCB s))"
    using run_ok [OF assms(2,1)] by (simp_all add: sys_ok_def)
  fix e
  show "freertos_risc_v_mtimer_interrupt_handler s = Inl e \<Longrightarrow> e = StackOverflow"
    "freertos_risc_v_mtimer_interrupt_handler s = Inl e \<Longrightarrow> \<not> healthy s"
    using tick_fault [OF ok(1)] by blast+
  show "pc (pxCurrentTCB s) = Delaying n \<Longrightarrow> prvAddCurrentTaskToDelayedList n False s \<noteq> Inl e" for n
  proof -
    assume "pc (pxCurrentTCB s) = Delaying n"
    then have "kernel_core E s" "n \<noteq> 0" "home s (StateItem (pxCurrentTCB s)) = Some (ReadyList (prio s (pxCurrentTCB s)))"
      using ok by (simp_all add: kernel_ok_def)
    from block_current [OF this, of False] show "prvAddCurrentTaskToDelayedList n False s \<noteq> Inl e" by auto
  qed
  show "pc (pxCurrentTCB s) = Resuming \<Longrightarrow> xTaskResumeAll s = Inl e \<Longrightarrow> e = StackOverflow"
    "pc (pxCurrentTCB s) = Resuming \<Longrightarrow> xTaskResumeAll s = Inl e \<Longrightarrow> \<not> healthy s"
    using ok xTaskResumeAll_fault [of E s e] by auto
  show "pc (pxCurrentTCB s) \<in> {User, Yielding} \<Longrightarrow> portYIELD s = Inl e \<Longrightarrow> e = StackOverflow"
    "pc (pxCurrentTCB s) \<in> {User, Yielding} \<Longrightarrow> portYIELD s = Inl e \<Longrightarrow> \<not> healthy s"
    using ok portYIELD_fault [of E s e] by auto
qed

theorem kernel_calls_never_fault_witness:
  "prvAddCurrentTaskToDelayedList 3 False demo_called \<noteq> Inl NullDeref"
  using kernel_calls_never_fault [OF demo_sys_ok run_snoc [OF run_nil demo_call]] demo_facts(3)
  by (simp add: demo_called_def vTaskSuspendAll_def)

text \<open>C3. A task that is blocked for \<open>n\<close> ticks wakes after exactly \<open>n\<close> ticks, in every interleaving
  with the other tasks, context switches and suspensions of the scheduler, and also when the
  32-bit tick count wraps meanwhile: before the \<open>n\<close>-th tick it is blocked for the remaining
  ticks, and the \<open>n\<close>-th tick makes it ready at its priority.\<close>

theorem sleep_is_exact:
  assumes "sys_ok E x" and "abs_state (fst x) t = Blocked n" and "xPendedTicks (fst x) = 0"
    and "run x as y"
  shows "(ticks as < n \<longrightarrow> virtual (fst y) t = Blocked (n - ticks as)) \<and>
    (\<forall>z. Suc (ticks as) = n \<longrightarrow> step y Tick z \<longrightarrow> virtual (fst z) t = Ready (prio (fst x) t))"
proof -
  have v: "virtual (fst x) t = Blocked n" using assms(2,3) by (simp add: virtual_def)
  have "n < 2 ^ 32"
    using assms(2) unsigned_less [of "wake (fst x) t - xTickCount (fst x)"]
    by (auto simp: abs_state_def split: option.splits list_id.splits)
  then have b: "virtual (fst y) t = Blocked (n - ticks as) \<and> unat (xPendedTicks (fst y)) \<le> ticks as" if "ticks as < n"
    using run_blocked [OF assms(4,1) v that] assms(3) that by simp
  moreover have "virtual (fst z) t = Ready (prio (fst x) t)" if "Suc (ticks as) = n" "step y Tick z" for z
  proof -
    obtain s pc s' pc' where yz: "y = (s, pc)" "z = (s', pc')" by (cases y; cases z)
    have ok: "sys_ok E (s, pc)" "prio s = prio (fst x)" using run_ok [OF assms(4,1)] yz by simp_all
    have "unat (xPendedTicks s) < 2 ^ 32 - 1" "virtual s t = Blocked 1" using b that \<open>n < 2 ^ 32\<close> yz by auto
    moreover from this have "xPendedTicks s \<noteq> -1" by (auto simp: unsigned_minus_1_eq_mask mask_eq_exp_minus_1)
    ultimately show ?thesis
      using tick_step [OF ok(1)] that(2) ok(2) yz by (simp add: tick_spec_def)
  qed
  ultimately show ?thesis by blast
qed

theorem sleep_is_exact_witness: "virtual demo_blocked 0x2000 = Blocked 3"
  using sleep_is_exact [OF demo_sleeping_ok, of "0x2000" 3 "[]" demo_sleeping] demo_block(3,4) run_nil [of demo_sleeping]
  by (simp add: demo_sleeping_def)

section \<open>What the calls do\<close>

text \<open>C6. \<open>xTaskIncrementTick\<close> refines the abstract tick: every blocked task waits one tick less, the
  tasks with one tick left become ready, nothing else changes; the tick and overflow counters
  advance; and a switch is requested exactly when a woken task has a higher priority than the
  running one, another ready task shares its priority, or a yield is pending.\<close>

theorem xTaskIncrementTick_refines:
  assumes "kernel_ok E s" and "uxSchedulerSuspended s = 0"
  shows "\<exists>s'. xTaskIncrementTick s =
      Inr ((\<exists>t. abs_state s t = Blocked 1 \<and> uxPriority (tcb s t) > uxPriority (tcb s (pxCurrentTCB s))) \<or>
           uxNumberOfItems (heap s') (ReadyList (prio s (pxCurrentTCB s))) > 1 \<or> xYieldPending s, s') \<and>
    kernel_ok E s' \<and> abs_state s' = tick_spec (prio s) (abs_state s) \<and> xTickCount s' = xTickCount s + 1 \<and>
    xNumOfOverflows s' = xNumOfOverflows s + (if xTickCount s + 1 = 0 then 1 else 0) \<and>
    freertos_tick_hook_count s' = freertos_tick_hook_count s + 1 \<and> pxCurrentTCB s' = pxCurrentTCB s"
proof -
  have c: "kernel_core E s" "idle_ok s" "pending_ok s" "xPendedTicks s = 0" using assms by (simp_all add: kernel_ok_def)
  from xTaskIncrementTick_run [OF c(1) assms(2)] obtain s' where s': "xTaskIncrementTick s =
      Inr ((\<exists>t \<in> expiring s. uxPriority (tcb s t) > uxPriority (tcb s (pxCurrentTCB s))) \<or>
           uxNumberOfItems (heap s') (ReadyList (prio s (pxCurrentTCB s))) > 1 \<or> xYieldPending s, s')"
    "kernel_core E s'" "same_frame s s'" "wakes_to s (expiring s) s'" "xTickCount s' = xTickCount s + 1"
    "xNumOfOverflows s' = xNumOfOverflows s + (if xTickCount s + 1 = 0 then 1 else 0)"
    "freertos_tick_hook_count s' = freertos_tick_hook_count s + (if xPendedTicks s = 0 then 1 else 0)" by blast
  have W: "t \<in> expiring s \<Longrightarrow> blocked s t" for t by (simp add: expiring_def)
  have "abs_state s t = Blocked 1 \<longleftrightarrow> t \<in> expiring s" for t
    using wait_one by (auto simp: abs_state_def expiring_def blocked_def split: option.splits list_id.splits)
  moreover have "kernel_ok E s'"
    using s'(2) wakes_idle [OF s'(4,3) W c(2)] wakes_pending [OF s'(4) c(3)] s'(3) c(4)
    by (simp add: kernel_ok_def same_frame_def)
  ultimately show ?thesis
    using s' abs_tick [OF c(1) s'(3,4,5)] c(4) by (intro exI [of _ s']) (auto simp: same_frame_def)
qed

theorem xTaskIncrementTick_refines_witness:
  "\<exists>s'. abs_state s' = tick_spec (prio demo) (abs_state demo) \<and> xTickCount s' = 1"
  using xTaskIncrementTick_refines [OF demo_facts(1,2)] demo_facts(8) by auto

text \<open>C7. \<open>xTaskResumeAll\<close> makes up for the suspension: the tasks parked in the pending list become
  ready, then exactly the counted ticks run, and the tick count ends where uninterrupted ticks
  would have taken it. Afterwards no tick is pending, the critical nesting is as before, and if
  the call switched the context the current task is a ready task of the highest priority, otherwise
  the same task runs on and no yield is left pending. A call by a task whose stack has not
  overflowed always returns; a switch away from a task whose stack has overflowed, that is whose
  saved stack pointer is not above the base or one of whose sixteen guard bytes has changed, goes
  to the stack overflow hook instead.\<close>

theorem xTaskResumeAll_refines:
  assumes "kernel_ok E s" and "uxSchedulerSuspended s = 1"
  shows "\<not> healthy s \<and> xTaskResumeAll s = Inl StackOverflow \<or>
    (\<exists>y s'. xTaskResumeAll s = Inr (y, s') \<and> kernel_ok E s' \<and> uxSchedulerSuspended s' = 0 \<and> xPendedTicks s' = 0 \<and>
      abs_state s' = (tick_spec (prio s) ^^ unat (xPendedTicks s))
        (\<lambda>t. if home s (EventItem t) = Some PendingReadyList then Ready (prio s t) else abs_state s t) \<and>
      xTickCount s' = xTickCount s + xPendedTicks s \<and> xCriticalNesting s' = xCriticalNesting s \<and>
      (if y then healthy s \<and> next_up s' (pxCurrentTCB s') else pxCurrentTCB s' = pxCurrentTCB s \<and> \<not> xYieldPending s'))"
proof -
  have r: "resume_spec s = (tick_spec (prio s) ^^ unat (xPendedTicks s))
      (\<lambda>t. if home s (EventItem t) = Some PendingReadyList then Ready (prio s t) else abs_state s t)"
    by (simp add: resume_spec_def wake_spec_def [abs_def] pending_def)
  have "settled E s s' \<Longrightarrow> kernel_ok E s' \<and> uxSchedulerSuspended s' = 0 \<and> xPendedTicks s' = 0" for s'
    by (simp add: settled_def kernel_ok_def)
  moreover have "resumed y s s' \<Longrightarrow> if y then healthy s \<and> next_up s' (pxCurrentTCB s')
      else pxCurrentTCB s' = pxCurrentTCB s \<and> \<not> xYieldPending s'" for y s'
    by (simp add: resumed_def split: if_splits)
  ultimately show ?thesis using xTaskResumeAll_run [OF assms] unfolding r by blast
qed

theorem xTaskResumeAll_refines_witness:
  "\<exists>y s'. xTaskResumeAll (rested demo_blocked) = Inr (y, s') \<and> xPendedTicks s' = 0 \<and> uxSchedulerSuspended s' = 0"
  using xTaskResumeAll_refines [OF rested_ok [OF demo_block(5)]] demo_block(6) rested_healthy(2) [of demo_blocked]
  by auto

text \<open>C8. \<open>vTaskDelay n\<close> blocks the calling task for \<open>n\<close> ticks and leaves every other task alone; the
  processor goes to a ready task of the highest priority. With \<open>n = 0\<close> it only yields. The
  critical nesting of every context is as before, and its interrupts are as a critical section
  leaves them. The call does this whenever the stack of the
  calling task has not overflowed, and goes to the stack overflow hook exactly when it has: the
  stack pointer it saves is not above the base, or one of the sixteen guard bytes has changed.\<close>

theorem vTaskDelay_blocks:
  assumes "kernel_ok E s" and "uxSchedulerSuspended s = 0"
    and "home s (StateItem (pxCurrentTCB s)) = Some (ReadyList p)" and "pxCurrentTCB s \<noteq> xIdleTaskHandle s"
  shows "if healthy s
    then \<exists>s'. vTaskDelay n s = Inr s' \<and> kernel_ok E s' \<and> uxSchedulerSuspended s' = 0 \<and>
      next_up s' (pxCurrentTCB s') \<and> xTickCount s' = xTickCount s \<and>
      abs_state s' = (if n = 0 then abs_state s else (abs_state s)(pxCurrentTCB s := Blocked (unat n))) \<and>
      xCriticalNesting s' = xCriticalNesting s \<and>
      irq_enabled s' = (if n = 0 then irq_enabled s
        else (irq_enabled s)(this_context s := (xCriticalNesting s (this_context s) = 0)))
    else vTaskDelay n s = Inl StackOverflow"
  using vTaskDelay_run [OF assms, of n] by (auto simp: settled_def delay_spec_def irq_after_def split: if_splits)

theorem vTaskDelay_blocks_witness:
  "\<exists>s'. vTaskDelay 5 (rested demo) = Inr s' \<and> abs_state s' = (abs_state demo)(0x2000 := Blocked 5)"
proof -
  have "home (rested demo) (StateItem (pxCurrentTCB (rested demo))) = Some (ReadyList 2)"
    "pxCurrentTCB (rested demo) \<noteq> xIdleTaskHandle (rested demo)" "uxSchedulerSuspended (rested demo) = 0"
    using demo_home demo_facts by simp_all
  from vTaskDelay_blocks [OF rested_ok [OF demo_facts(1)] this(3,1,2), of 5] show ?thesis
    using demo_facts(3) by (auto simp: rested_healthy(2))
qed

text \<open>C18. \<open>xTaskDelayUntil\<close> keeps a period: the returned wake time is the previous one plus the period,
  modulo \<open>2 ^ 32\<close>. If less than a period has passed since the previous wake time, the task is
  blocked for exactly the rest of it and the call says so; otherwise it does not block. This holds
  of every call by a task whose stack has not overflowed; a task whose stack has is stopped by the
  stack overflow hook.\<close>

theorem xTaskDelayUntil_keeps_period:
  assumes "kernel_ok E s" and "uxSchedulerSuspended s = 0"
    and "home s (StateItem (pxCurrentTCB s)) = Some (ReadyList p)" and "pxCurrentTCB s \<noteq> xIdleTaskHandle s"
    and "period \<noteq> 0"
  shows "if healthy s
    then \<exists>s'. xTaskDelayUntil (Some prev) period s = Inr (xTickCount s - prev < period, prev + period, s') \<and>
      kernel_ok E s' \<and> next_up s' (pxCurrentTCB s') \<and>
      abs_state s' = (if xTickCount s - prev < period
        then (abs_state s)(pxCurrentTCB s := Blocked (unat period - unat (xTickCount s - prev))) else abs_state s)
    else xTaskDelayUntil (Some prev) period s = Inl StackOverflow"
proof -
  have "delay_spec (period - e) s = (abs_state s)(pxCurrentTCB s := Blocked (unat period - unat e))" if "e < period" for e
  proof -
    have "period - e \<noteq> 0" using that by auto
    moreover have "unat (period - e) = unat period - unat e"
      using that by (simp add: unat_sub order.strict_implies_order)
    ultimately show ?thesis by (simp add: delay_spec_def)
  qed
  then show ?thesis
    using xTaskDelayUntil_run [OF assms, of prev] by (auto simp: settled_def split: if_splits)
qed

theorem xTaskDelayUntil_keeps_period_witness:
  "\<exists>s'. xTaskDelayUntil (Some 0xfffffffe) 5 (rested demo) = Inr (True, 3, s') \<and>
     abs_state s' = (abs_state demo)(0x2000 := Blocked 3)"
proof -
  have "home (rested demo) (StateItem (pxCurrentTCB (rested demo))) = Some (ReadyList 2)"
    "pxCurrentTCB (rested demo) \<noteq> xIdleTaskHandle (rested demo)" "uxSchedulerSuspended (rested demo) = 0"
    using demo_home demo_facts by simp_all
  from xTaskDelayUntil_keeps_period [OF rested_ok [OF demo_facts(1)] this(3,1,2), of 5 "0xfffffffe"] show ?thesis
    using demo_facts(3,8) by (auto simp: word_less_nat_alt rested_healthy(2))
qed

end
