(* ===== verification/Kernel_Time.thy ===== *)
theory Kernel_Time
  imports Kernel_Demo
begin

text \<open>
  Time as the kernel counts it, turns, and the construction of a system. The true time is a
  natural number of ticks; the kernel keeps it modulo \<open>2 ^ 32\<close> in \<open>xTickCount\<close> and counts the
  wraps in \<open>xNumOfOverflows\<close>.
\<close>

definition kernel_time :: "nat \<Rightarrow> kernel \<Rightarrow> bool" where
  "kernel_time T s \<longleftrightarrow> xTickCount s = of_nat T \<and> xNumOfOverflows s = of_nat (T div 2 ^ 32)"

definition timeout_set_at :: "nat \<Rightarrow> TimeOut_t \<Rightarrow> bool" where
  "timeout_set_at T tmo \<longleftrightarrow> xTimeOnEntering tmo = of_nat T \<and> xOverflowCount tmo = of_nat (T div 2 ^ 32)"

lemma of_nat_less32: "(of_nat a :: u32) < of_nat b \<longleftrightarrow> a mod 2 ^ 32 < b mod 2 ^ 32"
  by (simp add: word_less_nat_alt unat_of_nat take_bit_eq_mod)

lemma of_nat_eq32: "(of_nat a :: u32) = of_nat b \<longleftrightarrow> a mod 2 ^ 32 = b mod 2 ^ 32"
  by (simp add: word_unat_eq_iff unat_of_nat take_bit_eq_mod)

lemma of_nat_diff32: "a \<le> b \<Longrightarrow> (of_nat b :: u32) - of_nat a = of_nat (b - a)"
  by (simp add: of_nat_diff)

lemma wrap_next: "(of_nat T :: u32) + 1 = 0 \<longleftrightarrow> Suc T mod 2 ^ 32 = 0"
  using of_nat_eq32 [of "Suc T" 0] by (simp add: add.commute)

lemma div_Suc32: "Suc T div 2 ^ 32 = T div 2 ^ 32 + (if Suc T mod 2 ^ 32 = 0 then 1 else 0)"
  by (simp add: div_Suc)

lemma div_gap:
  fixes T M :: nat
  assumes "T0 div M < T div M" "T0 mod M \<le> T mod M"
  shows "T0 + M \<le> T"
proof -
  have "T0 + M = (T0 div M + 1) * M + T0 mod M" by simp
  also have "\<dots> \<le> (T div M) * M + T mod M" using assms by (intro add_mono mult_right_mono) simp_all
  finally show ?thesis by simp
qed

text \<open>The elapsed time the kernel computes is exact as long as it is below \<open>2 ^ 32\<close>.\<close>

lemma timeout_cases:
  assumes "T0 \<le> T" and "T - T0 < 2 ^ 32"
  shows "(of_nat (T div 2 ^ 32) \<noteq> (of_nat (T0 div 2 ^ 32) :: u32) \<and> (of_nat T :: u32) \<ge> of_nat T0) = False"
proof -
  have "T div 2 ^ 32 = T0 div 2 ^ 32 \<or> T mod 2 ^ 32 < T0 mod 2 ^ 32"
  proof (rule disjCI)
    assume a: "\<not> T mod 2 ^ 32 < T0 mod 2 ^ 32"
    have "T div 2 ^ 32 \<ge> T0 div 2 ^ 32" using assms(1) by (rule div_le_mono)
    moreover have "T div 2 ^ 32 < T0 div 2 ^ 32 + 1"
    proof (rule ccontr)
      assume "\<not> T div 2 ^ 32 < T0 div 2 ^ 32 + 1"
      then have "T0 div 2 ^ 32 < T div 2 ^ 32" by simp
      then have "T0 + 2 ^ 32 \<le> T" using a by (intro div_gap) (simp_all add: not_less)
      then show False using assms(2) by simp
    qed
    ultimately show "T div 2 ^ 32 = T0 div 2 ^ 32" by simp
  qed
  moreover have "(of_nat T :: u32) \<ge> of_nat T0 \<longleftrightarrow> \<not> T mod 2 ^ 32 < T0 mod 2 ^ 32"
    unfolding of_nat_less32 [symmetric] not_less ..
  ultimately show ?thesis by metis
qed


text \<open>The kernel counts true time: if the tick count and the overflow count stand for \<open>T\<close> ticks
  since the start, then after the next tick they stand for \<open>T + 1\<close>, across every wrap.\<close>

lemma tick_counts_time:
  assumes "kernel_ok E s" and "uxSchedulerSuspended s = 0" and "kernel_time T s"
  shows "\<exists>y s'. xTaskIncrementTick s = Inr (y, s') \<and> kernel_time (Suc T) s'"
proof -
  have c: "kernel_core E s" using assms by (simp add: kernel_ok_def)
  have eq: "xTickCount s = of_nat T" "xNumOfOverflows s = of_nat (T div 2 ^ 32)"
    using assms(3) unfolding kernel_time_def by blast+
  from xTaskIncrementTick_run [OF c assms(2)] obtain y s' where s': "xTaskIncrementTick s = Inr (y, s')"
    "xTickCount s' = xTickCount s + 1"
    "xNumOfOverflows s' = xNumOfOverflows s + (if xTickCount s + 1 = 0 then 1 else 0)" by blast
  have "kernel_time (Suc T) s'"
    unfolding kernel_time_def s'(2,3) div_Suc32 eq wrap_next by simp
  then show ?thesis using s'(1) by blast
qed

text \<open>\<open>xTaskCheckForTimeOut\<close> is exact for times below \<open>2 ^ 32\<close> ticks: with the time-out started at
  true time \<open>T0\<close> and asked at \<open>T\<close>, it reports a time-out if and only if the wait is over, and
  otherwise stores the remaining wait and restarts the time-out at \<open>T\<close>. The critical nesting of
  the caller is as before.\<close>

lemma xTaskCheckForTimeOut_exact:
  assumes "kernel_time T s" and "timeout_set_at T0 tmo" and "T0 \<le> T" and "T - T0 < 2 ^ 32"
  shows "\<exists>tmo' wait' s'. xTaskCheckForTimeOut (Some tmo) (Some wait) s =
      Inr (unat wait \<le> T - T0, tmo', wait', s') \<and> unat wait' = unat wait - (T - T0) \<and>
    (T - T0 < unat wait \<longrightarrow> timeout_set_at T tmo') \<and> xCriticalNesting s' = xCriticalNesting s"
proof -
  have eq: "xTickCount s = of_nat T" "xNumOfOverflows s = of_nat (T div 2 ^ 32)"
    "xTimeOnEntering tmo = of_nat T0" "xOverflowCount tmo = of_nat (T0 div 2 ^ 32)"
    using assms(1,2) unfolding kernel_time_def timeout_set_at_def by blast+
  have e: "xTickCount s - xTimeOnEntering tmo = of_nat (T - T0)"
    unfolding eq by (rule of_nat_diff32 [OF assms(3)])
  have ue: "unat (of_nat (T - T0) :: u32) = T - T0" using assms(4) by (simp add: unat_of_nat)
  have n: "(xNumOfOverflows s \<noteq> xOverflowCount tmo \<and> xTickCount s \<ge> xTimeOnEntering tmo) = False"
    unfolding eq by (rule timeout_cases [OF assms(3,4)])
  have l: "(of_nat (T - T0) :: u32) < wait \<longleftrightarrow> T - T0 < unat wait" by (simp add: word_less_nat_alt ue)
  let ?c = "this_context s"
  let ?s1 = "portENTER_CRITICAL ?c s"
  have x: "xCriticalNesting (portEXIT_CRITICAL ?c ?s1) = xCriticalNesting s" by (simp add: fun_eq_iff)
  show ?thesis
  proof (cases "T - T0 < unat wait")
    case True
    have "unat (wait - of_nat (T - T0)) = unat wait - (T - T0)"
      using True l by (simp add: unat_sub ue order.strict_implies_order)
    moreover have "timeout_set_at T (vTaskInternalSetTimeOutState ?s1)"
      using assms(1) by (simp add: timeout_set_at_def vTaskInternalSetTimeOutState_def kernel_time_def)
    moreover have "xTaskCheckForTimeOut (Some tmo) (Some wait) s =
        Inr (False, vTaskInternalSetTimeOutState ?s1, wait - of_nat (T - T0), portEXIT_CRITICAL ?c ?s1)"
      using n l True e by (simp add: xTaskCheckForTimeOut_def Let_def)
    ultimately show ?thesis using True x by auto
  next
    case False
    have "xTaskCheckForTimeOut (Some tmo) (Some wait) s = Inr (True, tmo, 0, portEXIT_CRITICAL ?c ?s1)"
      using n l False e by (simp add: xTaskCheckForTimeOut_def Let_def)
    then show ?thesis using False x by auto
  qed
qed

section \<open>Turns\<close>

text \<open>C35. Time slicing is a round robin: as long as the ready tasks do not change, successive context
  switches give the processor to the tasks of the highest ready priority one after the other,
  each of them once before any of them runs again. The stacks of these tasks and of the running
  one have not overflowed: the saved stack pointers are above the bases and the guard bytes hold
  the fill byte. Then every switch succeeds.\<close>

theorem switches_are_round_robin:
  assumes "kernel_ok E s" and "uxSchedulerSuspended s = 0"
    and "home s (StateItem u) = Some (ReadyList p)"
    and "\<forall>v q. home s (StateItem v) = Some (ReadyList q) \<longrightarrow> q \<le> p"
    and "n \<le> length (turn_order s p)"
    and "\<forall>t \<in> insert (pxCurrentTCB s) (set (turn_order s p)). stack_intact s t (pxTopOfStack (tcb s t))"
  shows "\<exists>s'. switches n s = Inr (take n (turn_order s p), s') \<and> distinct (turn_order s p) \<and>
      set (turn_order s p) = {t. home s (StateItem t) = Some (ReadyList p)}"
proof -
  have c: "kernel_core E s" "idle_ok s" using assms(1) by (simp_all add: kernel_ok_def)
  have "distinct (turn_order s p) \<and> set (turn_order s p) = {t. home s (StateItem t) = Some (ReadyList p)}"
    by (rule turn_order_tasks [OF c(1) assms(3)])
  then show ?thesis using switches_turns [OF c assms(2-6)] by auto
qed

theorem switches_are_round_robin_witness:
  "\<exists>s'. switches 1 (rested demo) = Inr ([0x2000], s')"
proof -
  have o: "set (turn_order demo 2) = {t. home demo (StateItem t) = Some (ReadyList 2)}"
    using turn_order_tasks [of "{}" demo "0x2000" 2] demo_facts(1) demo_home by (simp add: kernel_ok_def)
  have "set (turn_order demo 2) = {0x2000}" unfolding o using demo_only demo_home by blast
  moreover have "distinct (turn_order demo 2)"
    using turn_order_tasks [of "{}" demo "0x2000" 2] demo_facts(1) demo_home by (simp add: kernel_ok_def)
  ultimately have t: "turn_order demo 2 = [0x2000]" by (rule singleton_list)
  then have r: "turn_order (rested demo) 2 = [0x2000]" by (simp add: turn_order_def)
  have "\<forall>v q. home (rested demo) (StateItem v) = Some (ReadyList q) \<longrightarrow> q \<le> 2"
    "home (rested demo) (StateItem 0x2000) = Some (ReadyList 2)" "uxSchedulerSuspended (rested demo) = 0"
    using demo_facts(2,4,7) demo_home by (simp_all add: next_up_def)
  from switches_are_round_robin [OF rested_ok [OF demo_facts(1)] this(3,2,1), of 1] show ?thesis
    by (auto simp: r rested_healthy(1))
qed

section \<open>Building a system\<close>

text \<open>The first \<open>xTaskCreateStatic\<close> after reset sets up the scheduler: the lists are initialised, the new
  task is ready at its priority and current, and the invariant of the construction phase holds.\<close>

lemma first_task_initialises:
  assumes "fresh E s" and "stack \<noteq> 0" and "t \<noteq> 0" and "p < 4" and "31 < depth"
  shows "\<exists>s'. xTaskCreateStatic code name depth param p stack t s = Inr (t, s') \<and> boot_ok E s' \<and>
    pxCurrentTCB s' = t \<and> abs_state s' = (\<lambda>_. Absent)(t := Ready (unat p))"
  using create_first [OF assms] by blast

text \<open>Every further task created before the scheduler runs becomes ready at its priority, at the end of
  the turn order, nothing else changes, and the current task stays the last created one of the
  highest priority.\<close>

lemma further_tasks_become_ready:
  assumes "boot_ok E s" and "unknown s t" and "stack \<noteq> 0" and "t \<noteq> 0" and "p < 4" and "31 < depth"
  shows "\<exists>s'. xTaskCreateStatic code name depth param p stack t s = Inr (t, s') \<and> boot_ok E s' \<and>
    pxCurrentTCB s' = (if uxPriority (tcb s (pxCurrentTCB s)) \<le> p then t else pxCurrentTCB s) \<and>
    abs_state s' = (abs_state s)(t := Ready (unat p))"
  using create_next [OF assms] by blast

text \<open>C36. \<^verbatim>\<open>vTaskStartScheduler\<close> turns a constructed system into a running one: the idle task is added at
  priority 0, the scheduler's invariant holds, and the system invariant of the step relation
  holds with every task at the start of its program. So every property of the reachable states
  holds of every system an application builds.\<close>

theorem start_establishes_invariant:
  assumes "boot_ok E s" and "unknown s (idle_tcb L)" and "idle_tcb L \<noteq> 0" and "idle_stack L \<noteq> 0"
  shows "\<exists>s'. start_kernel L s = Inr (True, s') \<and> sys_ok E (s', \<lambda>_. User) \<and> xSchedulerRunning s' \<and>
    xTickCount s' = 0 \<and> xIdleTaskHandle s' = idle_tcb L \<and> abs_state s' = (abs_state s)(idle_tcb L := Ready 0)"
  using start_kernel_run [OF assms] by (fastforce simp: sys_ok_def kernel_ok_def)

theorem start_establishes_invariant_witness:
  "\<exists>s'. start_kernel demo_layout demo_two = Inr (True, s') \<and> sys_ok {} (s', \<lambda>_. User)"
  using start_establishes_invariant [OF demo_two_facts(1), of demo_layout] demo_two_facts(5)
  by (auto simp: unknown_def demo_layout_def)

end
