(* ===== verification/Kernel_Frame.thy ===== *)
theory Kernel_Frame
  imports Kernel_Demo
begin

text \<open>
  The properties of the list module, of the initial stack frame and of critical sections.
\<close>

section \<open>Lists\<close>

definition empty_store :: "(nat, nat, nat) list_store" where
  "empty_store = vListInitialise 0 \<lparr>xItemValue = (\<lambda>p. case p of LItem i \<Rightarrow> of_nat i | _ \<Rightarrow> 0), pxNext = \<lambda>_. Null,
     pxPrevious = \<lambda>_. Null, pvOwner = \<lambda>i. i, pxContainer = \<lambda>_. None, pxIndex = \<lambda>_. Null,
     uxNumberOfItems = \<lambda>_. 0\<rparr>"

lemma empty_store_ring: "ring empty_store 0 []" "pxContainer empty_store i = None"
  unfolding empty_store_def
  by (rule vListInitialise_ring) (simp_all add: vListInitialise_def Let_def)

text \<open>C37. \<open>vListInsert\<close> on a well-formed list terminates without a fault and is stable insertion by value:
  the item comes after every item whose value is not larger, a sorted list stays sorted, and
  every other list of the store keeps its items.\<close>

theorem vListInsert_is_insertion:
  assumes "ring h l xs" and "pxContainer h i = None" and "Suc (length xs) < 2 ^ 32"
  shows "\<exists>h'. vListInsert l i h = Inr h' \<and> list_items h' l = insort_after (val_of h) i xs \<and>
    (sorted (map (val_of h) xs) \<longrightarrow> sorted (map (val_of h') (list_items h' l))) \<and>
    (\<forall>m ys. m \<noteq> l \<longrightarrow> ring h m ys \<longrightarrow> list_items h' m = ys)"
proof -
  from vListInsert_spec [OF assms] obtain h' where h': "vListInsert l i h = Inr h'"
    "ring h' l (insort_after (val_of h) i xs)" "\<forall>m ys. m \<noteq> l \<longrightarrow> ring h m ys \<longrightarrow> ring h' m ys"
    "xItemValue h' = xItemValue h" by blast
  have "list_items h' l = insort_after (val_of h) i xs" by (rule list_items_ring [OF h'(2)])
  moreover have "\<forall>m ys. m \<noteq> l \<longrightarrow> ring h m ys \<longrightarrow> list_items h' m = ys"
    using h'(3) by (intro allI impI list_items_ring) simp
  ultimately show ?thesis
    using h'(1,4) sorted_insort_after [of "val_of h" xs i] by (intro exI [of _ h']) simp
qed

theorem vListInsert_is_insertion_witness:
  "\<exists>h'. vListInsert 0 7 empty_store = Inr h' \<and> list_items h' 0 = [7]"
  using vListInsert_is_insertion [OF empty_store_ring, of 7] by (auto simp: insort_after_def)

text \<open>\<open>uxListRemove\<close> takes an item out of the list it is in, returns the number of items left, and
  does not disturb the order in which the others take their turns, wherever the cursor was.\<close>

lemma uxListRemove_keeps_turns:
  assumes "ring h l xs" and "pxContainer h i = Some l"
  shows "\<exists>h'. uxListRemove i h = Inr (of_nat (length xs - 1), h') \<and> list_items h' l = remove1 i xs \<and>
    turns (cursor h' l) (list_items h' l) = remove1 i (turns (cursor h l) xs) \<and> pxContainer h' i = None \<and>
    (\<forall>m ys. m \<noteq> l \<longrightarrow> ring h m ys \<longrightarrow> list_items h' m = ys)"
proof -
  from uxListRemove_spec [OF assms] obtain h' where h': "uxListRemove i h = Inr (of_nat (length xs - 1), h')"
    "ring h' l (remove1 i xs)" "\<forall>m ys. m \<noteq> l \<longrightarrow> ring h m ys \<longrightarrow> ring h' m ys"
    "pxContainer h' = (pxContainer h)(i := None)"
    "cursor h' = (if cursor h l = Some i then (cursor h)(l := pred_of i xs) else cursor h)" by blast
  have "i \<in> set xs" using ring_container [OF assms(1), of i] assms(2) by simp
  then have "turns (if cursor h l = Some i then pred_of i xs else cursor h l) (remove1 i xs) = remove1 i (turns (cursor h l) xs)"
    using turns_remove [of i xs "cursor h l"] ring_cursor_mem [OF assms(1)] ring_distinct [OF assms(1)] by simp
  then have "turns (cursor h' l) (list_items h' l) = remove1 i (turns (cursor h l) xs)"
    using list_items_ring [OF h'(2)] h'(5) by (auto split: if_splits)
  moreover have "list_items h' l = remove1 i xs" by (rule list_items_ring [OF h'(2)])
  moreover have "\<forall>m ys. m \<noteq> l \<longrightarrow> ring h m ys \<longrightarrow> list_items h' m = ys"
    using h'(3) by (intro allI impI list_items_ring) simp
  ultimately show ?thesis using h'(1,4) by (intro exI [of _ h']) simp
qed

definition one_item :: "(nat, nat, nat) list_store" where
  "one_item = projr (vListInsertEnd 0 7 empty_store)"

lemma one_item_ring: "ring one_item 0 [7]" "pxContainer one_item 7 = Some 0"
proof -
  have "cursor empty_store 0 = None"
    unfolding empty_store_def by (rule vListInitialise_ring) simp
  with vListInsertEnd_spec [OF empty_store_ring, of 7] show "ring one_item 0 [7]" "pxContainer one_item 7 = Some 0"
    by (auto simp: one_item_def)
qed

text \<open>\<open>vListInsertEnd\<close> gives the new item the last turn but for the item whose turn it is now: every
  item already waiting comes first. \<open>listGET_OWNER_OF_NEXT_ENTRY\<close> then serves the item whose
  turn it is and puts it last.\<close>

lemma vListInsertEnd_queues:
  assumes "ring h l xs" and "pxContainer h i = None" and "Suc (length xs) < 2 ^ 32"
  shows "\<exists>h'. vListInsertEnd l i h = Inr h' \<and> set (list_items h' l) = insert i (set xs) \<and>
    turns (cursor h' l) (list_items h' l) =
      (case cursor h l of None \<Rightarrow> xs @ [i] | Some j \<Rightarrow> butlast (turns (cursor h l) xs) @ [i, j]) \<and>
    (\<exists>h''. listGET_OWNER_OF_NEXT_ENTRY l h' = Inr (pvOwner h (hd (turns (cursor h' l) (list_items h' l))), h'') \<and>
      turns (cursor h'' l) (list_items h'' l) = rotate1 (turns (cursor h' l) (list_items h' l)))"
proof -
  from vListInsertEnd_spec [OF assms] obtain h' where h': "vListInsertEnd l i h = Inr h'"
    "ring h' l (ins_before (cursor h l) i xs)" "pvOwner h' = pvOwner h" "cursor h' = cursor h" by blast
  have ne: "ins_before (cursor h l) i xs \<noteq> []" by (metis empty_iff insertI1 list.set(1) set_ins_before)
  from listGET_OWNER_OF_NEXT_ENTRY_spec [OF h'(2) ne] obtain h'' where h'':
    "listGET_OWNER_OF_NEXT_ENTRY l h' =
       Inr (pvOwner h' (hd (turns (cursor h' l) (ins_before (cursor h l) i xs))), h'')"
    "turns (cursor h'' l) (ins_before (cursor h l) i xs) = rotate1 (turns (cursor h' l) (ins_before (cursor h l) i xs))"
    "ring h'' l (ins_before (cursor h l) i xs)" by blast
  have ni: "i \<notin> set xs" using ring_container [OF assms(1)] assms(2) by (metis option.distinct(1))
  note t = turns_ins_before [OF ni ring_cursor_mem [OF assms(1)] ring_distinct [OF assms(1)]]
  have "(case cursor h l of None \<Rightarrow> turns (cursor h l) xs @ [i] | Some j \<Rightarrow> butlast (turns (cursor h l) xs) @ [i, j]) =
      (case cursor h l of None \<Rightarrow> xs @ [i] | Some j \<Rightarrow> butlast (turns (cursor h l) xs) @ [i, j])"
    by (cases "cursor h l") simp_all
  then have "turns (cursor h' l) (list_items h' l) =
      (case cursor h l of None \<Rightarrow> xs @ [i] | Some j \<Rightarrow> butlast (turns (cursor h l) xs) @ [i, j])"
    using t list_items_ring [OF h'(2)] h'(4) by simp
  moreover have "set (list_items h' l) = insert i (set xs)" by (simp add: list_items_ring [OF h'(2)])
  moreover have "listGET_OWNER_OF_NEXT_ENTRY l h' = Inr (pvOwner h (hd (turns (cursor h' l) (list_items h' l))), h'')"
    "turns (cursor h'' l) (list_items h'' l) = rotate1 (turns (cursor h' l) (list_items h' l))"
    using h''(1,2) h'(3) by (simp_all add: list_items_ring [OF h'(2)] list_items_ring [OF h''(3)])
  ultimately show ?thesis using h'(1) by blast
qed

text \<open>Inserting an item into a list and removing it again restores the items of every list.\<close>

lemma insert_remove_roundtrip:
  assumes "ring h l xs" and "pxContainer h i = None" and "Suc (length xs) < 2 ^ 32"
  shows "\<exists>h' h''. vListInsert l i h = Inr h' \<and> uxListRemove i h' = Inr (of_nat (length xs), h'') \<and>
    list_items h'' l = xs \<and> pxContainer h'' = pxContainer h \<and> (\<forall>m ys. m \<noteq> l \<longrightarrow> ring h m ys \<longrightarrow> list_items h'' m = ys)"
proof -
  from vListInsert_spec [OF assms] obtain h' where h': "vListInsert l i h = Inr h'"
    "ring h' l (insort_after (val_of h) i xs)" "\<forall>m ys. m \<noteq> l \<longrightarrow> ring h m ys \<longrightarrow> ring h' m ys"
    "pxContainer h' = (pxContainer h)(i := Some l)" by blast
  then have "pxContainer h' i = Some l" by simp
  from uxListRemove_spec [OF h'(2) this] obtain h'' where h'':
    "uxListRemove i h' = Inr (of_nat (length xs), h'')" "ring h'' l (remove1 i (insort_after (val_of h) i xs))"
    "\<forall>m ys. m \<noteq> l \<longrightarrow> ring h' m ys \<longrightarrow> ring h'' m ys" "pxContainer h'' = (pxContainer h')(i := None)" by auto
  have ni: "i \<notin> set xs" using ring_container [OF assms(1)] assms(2) by (metis option.distinct(1))
  then have "i \<notin> set (takeWhile (\<lambda>y. val_of h y \<le> val_of h i) xs)" by (auto dest: set_takeWhileD)
  then have rem: "remove1 i (insort_after (val_of h) i xs) = xs"
    unfolding insort_after_def by (simp add: remove1_split)
  have "pxContainer h'' = pxContainer h" using h'(4) h''(4) assms(2) by (auto simp: fun_eq_iff)
  moreover have "list_items h'' l = xs" using list_items_ring [OF h''(2)] rem by simp
  moreover have "\<forall>m ys. m \<noteq> l \<longrightarrow> ring h m ys \<longrightarrow> list_items h'' m = ys"
    using h'(3) h''(3) by (intro allI impI list_items_ring) simp
  ultimately show ?thesis using h'(1) h''(1) by blast
qed

section \<open>The initial stack frame\<close>

lemma pxPortInitialiseStack_words:
  "fst (pxPortInitialiseStack mstatus stk code param m) = stk - 124"
  "load32 (snd (pxPortInitialiseStack mstatus stk code param m)) (stk - 124) = code"
  "load32 (snd (pxPortInitialiseStack mstatus stk code param m)) (stk - 120) = (mstatus AND NOT 8) OR 0x1880"
  "load32 (snd (pxPortInitialiseStack mstatus stk code param m)) (stk - 116) = xTaskReturnAddress"
  "load32 (snd (pxPortInitialiseStack mstatus stk code param m)) (stk - 92) = param"
  "load32 (snd (pxPortInitialiseStack mstatus stk code param m)) (stk - 4) = 0"
  by (simp_all add: pxPortInitialiseStack_def Let_def words_apart load32_store32)

text \<open>The frame \<^verbatim>\<open>pxPortInitialiseStack\<close> builds is the one the context restore code of \<^verbatim>\<open>portASM.S\<close>
  reads: 31 words below the top of the stack, with the start address in word 0, \<open>mstatus\<close> with
  the previous-interrupt and machine-mode bits set and interrupts off in word 1, the return
  address in word 2, the task's parameter in the place of register \<open>a0\<close> and a critical nesting
  count of zero.\<close>

lemma initial_frame:
  "let (sp, m') = pxPortInitialiseStack mstatus stk code param m
   in sp = stk - 124 \<and>
    load32 m' sp = code \<and> load32 m' (sp + 4) = (mstatus AND NOT 8) OR 0x1880 \<and>
    load32 m' (sp + 2 * 4) = xTaskReturnAddress \<and> load32 m' (sp + 8 * 4) = param \<and>
    load32 m' (sp + 30 * 4) = 0"
  using pxPortInitialiseStack_words [of mstatus stk code param m] by (cases "pxPortInitialiseStack mstatus stk code param m") auto

text \<open>The first task starts with interrupts enabled and outside every critical section: restoring the
  frame that its creation left gives a nesting count of zero and sets the interrupt enable bit.\<close>

lemma first_task_starts_enabled:
  assumes "pxTopOfStack (tcb s (pxCurrentTCB s)) = stk - 124"
    and "memory s = snd (pxPortInitialiseStack mstatus stk code param m)"
  shows "xCriticalNesting (xPortStartFirstTask s) (pxCurrentTCB s) = 0 \<and>
    irq_enabled (xPortStartFirstTask s) (pxCurrentTCB s)"
proof -
  have "load32 (memory s) (stk - 120) = (mstatus AND NOT 8) OR 0x1880" "load32 (memory s) (stk - 4) = 0"
    using pxPortInitialiseStack_words [of mstatus stk code param m] assms(2) by auto
  moreover have "bit (((mstatus AND NOT 8) OR 0x1880) + 8) 3"
  proof -
    have "((mstatus AND NOT 8) OR 0x1880) AND 8 = (0 :: u32)"
      by (simp add: bit.conj_disj_distrib2 and.assoc)
    then have "((mstatus AND NOT 8) OR 0x1880) + 8 = ((mstatus AND NOT 8) OR 0x1880) OR (8 :: u32)"
      by (rule disjunctive_add_eq_or)
    then show ?thesis by (simp add: bit_simps)
  qed
  ultimately show ?thesis using assms(1) by (simp add: xPortStartFirstTask_def Let_def)
qed


section \<open>Critical sections\<close>

lemma enter_pow:
  "xCriticalNesting ((portENTER_CRITICAL c ^^ k) s) = (xCriticalNesting s)(c := xCriticalNesting s c + of_nat k)"
  "irq_enabled ((portENTER_CRITICAL c ^^ k) s) c = (if k = 0 then irq_enabled s c else False)"
  by (induction k) (simp_all add: fun_eq_iff algebra_simps)

lemma exit_pow:
  "xCriticalNesting ((portEXIT_CRITICAL c ^^ k) s) = (xCriticalNesting s)(c := xCriticalNesting s c - of_nat k)"
  by (induction k) (simp_all add: fun_eq_iff algebra_simps)

lemma exit_irq:
  assumes "xCriticalNesting s c = of_nat m" "m < 2 ^ 32" "0 < m" "\<not> irq_enabled s c"
  shows "j \<le> m \<Longrightarrow> irq_enabled ((portEXIT_CRITICAL c ^^ j) s) c \<longleftrightarrow> j = m"
proof (induction j)
  case 0
  then show ?case using assms(3,4) by simp
next
  case (Suc j)
  have "(of_nat m :: u32) - of_nat j = of_nat (m - j)" using Suc.prems by (simp add: of_nat_diff)
  moreover have "(of_nat (m - j) :: u32) = 1 \<longleftrightarrow> m - j = 1"
    using assms(2) by (simp add: word_unat_eq_iff unat_of_nat)
  ultimately show ?case using Suc assms(1) by (auto simp: exit_pow)
qed

text \<open>Critical sections nest: however deep, interrupts are off inside, and leaving as often as entering
  restores the nesting count, with interrupts on again exactly when the outermost section is
  left, that is, when the count was zero. The count wraps at \<open>2 ^ 32\<close> in C and here.\<close>

lemma critical_sections_nest:
  "let inner = (portENTER_CRITICAL c ^^ Suc n) s; outer = (portEXIT_CRITICAL c ^^ Suc n) inner
   in \<not> irq_enabled inner c \<and> xCriticalNesting inner c = xCriticalNesting s c + of_nat (Suc n) \<and>
     xCriticalNesting outer = xCriticalNesting s \<and>
     (n < 2 ^ 32 - 1 \<longrightarrow> xCriticalNesting s c = 0 \<longrightarrow> irq_enabled outer c \<and>
       \<not> irq_enabled ((portEXIT_CRITICAL c ^^ n) inner) c)"
proof -
  let ?inner = "(portENTER_CRITICAL c ^^ Suc n) s"
  have "irq_enabled ((portEXIT_CRITICAL c ^^ j) ?inner) c \<longleftrightarrow> j = Suc n"
    if "n < 2 ^ 32 - 1" "xCriticalNesting s c = 0" "j \<le> Suc n" for j
    using that by (intro exit_irq) (simp_all add: enter_pow del: funpow.simps)
  from this [of "Suc n"] this [of n] show ?thesis
    unfolding Let_def by (simp add: enter_pow exit_pow fun_eq_iff del: funpow.simps)
qed

end
