(* ===== verification/Soc_Devices.thy ===== *)
theory Soc_Devices
  imports Runtime
begin

text \<open>
  The devices the C drivers talk to, clock by clock, as the RTL under \<^verbatim>\<open>rtl/soc\<close> has them:
  the machine timer (\<^verbatim>\<open>rv32_mtimer.sv\<close>), the GPIO block (\<^verbatim>\<open>rv32_gpio.sv\<close>), the UART
  (\<^verbatim>\<open>rv32_uart.sv\<close>), the data port of the memory (\<^verbatim>\<open>rv32_tcm.sv\<close>) and the address decoder
  (\<^verbatim>\<open>rv32_mem_demux.sv\<close>), out of reset. A register of the RTL is a field; the function of a
  device maps the request offered in a clock cycle to the response, \<open>None\<close> if the device does not
  take the request in this cycle, and to the registers after the clock edge. The RTL registers the
  response and shows it one cycle later; the processor waits for it, so the model hands it over
  with the acceptance.

  The parameters have the values of \<^verbatim>\<open>soc_tcm_top.sv\<close>; the clocks per serial bit of the UART
  depend on the board and are a field of the system.
\<close>

section \<open>Requests\<close>

record request =
  req_write :: bool
  req_addr :: u32
  req_wdata :: u32
  req_wstrb :: "4 word"

record response =
  rsp_rdata :: u32
  rsp_err :: bool

definition aligned :: "request \<Rightarrow> bool" where
  "aligned q \<longleftrightarrow> req_addr q AND 3 = 0"

definition ok_response :: "u32 \<Rightarrow> response" where
  "ok_response v = \<lparr>rsp_rdata = v, rsp_err = False\<rparr>"

definition err_response :: response where
  "err_response = \<lparr>rsp_rdata = 0, rsp_err = True\<rparr>"

definition write_byte_mask :: "request \<Rightarrow> u32" where
  "write_byte_mask q =
     (if bit (req_wstrb q) 0 then 0xff else 0) OR (if bit (req_wstrb q) 1 then 0xff00 else 0) OR
     (if bit (req_wstrb q) 2 then 0xff0000 else 0) OR (if bit (req_wstrb q) 3 then 0xff000000 else 0)"

section \<open>The machine timer\<close>

record mtimer =
  mtime_q :: u64
  mtimecmp_q :: u64

definition MTIMECMP_LO_ADDR :: u32 where "MTIMECMP_LO_ADDR = 0x02004000"
definition MTIMECMP_HI_ADDR :: u32 where "MTIMECMP_HI_ADDR = 0x02004004"
definition MTIME_LO_ADDR :: u32 where "MTIME_LO_ADDR = 0x0200bff8"
definition MTIME_HI_ADDR :: u32 where "MTIME_HI_ADDR = 0x0200bffc"

definition mtip :: "mtimer \<Rightarrow> bool" where
  "mtip d \<longleftrightarrow> mtimecmp_q d \<le> mtime_q d"

definition mtimer_read :: "u32 \<Rightarrow> mtimer \<Rightarrow> u32 option" where
  "mtimer_read a d =
     (if a = MTIMECMP_LO_ADDR then Some (lo32 (mtimecmp_q d))
      else if a = MTIMECMP_HI_ADDR then Some (hi32 (mtimecmp_q d))
      else if a = MTIME_LO_ADDR then Some (lo32 (mtime_q d))
      else if a = MTIME_HI_ADDR then Some (hi32 (mtime_q d)) else None)"

definition mtimer_valid :: "request \<Rightarrow> mtimer \<Rightarrow> bool" where
  "mtimer_valid q d \<longleftrightarrow> aligned q \<and> mtimer_read (req_addr q) d \<noteq> None \<and>
     (if req_write q then req_wstrb q = 0xf else req_wstrb q = 0)"

text \<open>A write to a half of \<open>mtime\<close> suppresses the tick of its cycle.\<close>

definition mtimer_write :: "u32 \<Rightarrow> u32 \<Rightarrow> mtimer \<Rightarrow> mtimer" where
  "mtimer_write a w d =
     (if a = MTIMECMP_LO_ADDR
      then d\<lparr>mtime_q := mtime_q d + 1, mtimecmp_q := join64 (hi32 (mtimecmp_q d)) w\<rparr>
      else if a = MTIMECMP_HI_ADDR
      then d\<lparr>mtime_q := mtime_q d + 1, mtimecmp_q := join64 w (lo32 (mtimecmp_q d))\<rparr>
      else if a = MTIME_LO_ADDR then d\<lparr>mtime_q := join64 (hi32 (mtime_q d)) w\<rparr>
      else d\<lparr>mtime_q := join64 w (lo32 (mtime_q d))\<rparr>)"

definition mtimer_clock :: "request option \<Rightarrow> mtimer \<Rightarrow> response option \<times> mtimer" where
  "mtimer_clock r d =
     (case r of None \<Rightarrow> (None, d\<lparr>mtime_q := mtime_q d + 1\<rparr>)
      | Some q \<Rightarrow>
          if mtimer_valid q d
          then if req_write q then (Some (ok_response 0), mtimer_write (req_addr q) (req_wdata q) d)
               else (Some (ok_response (the (mtimer_read (req_addr q) d))), d\<lparr>mtime_q := mtime_q d + 1\<rparr>)
          else (Some err_response, d\<lparr>mtime_q := mtime_q d + 1\<rparr>))"

section \<open>General-purpose input and output\<close>

record gpio =
  input_meta_q :: u32
  input_sync_q :: u32
  output_q :: u32
  output_enable_q :: u32

definition GPIO_INPUT_ADDR :: u32 where "GPIO_INPUT_ADDR = 0x10010000"
definition GPIO_OUTPUT_ADDR :: u32 where "GPIO_OUTPUT_ADDR = 0x10010004"
definition GPIO_OUTPUT_ENABLE_ADDR :: u32 where "GPIO_OUTPUT_ENABLE_ADDR = 0x10010008"
definition GPIO_OUTPUT_SET_ADDR :: u32 where "GPIO_OUTPUT_SET_ADDR = 0x1001000c"
definition GPIO_OUTPUT_CLEAR_ADDR :: u32 where "GPIO_OUTPUT_CLEAR_ADDR = 0x10010010"
definition GPIO_OUTPUT_TOGGLE_ADDR :: u32 where "GPIO_OUTPUT_TOGGLE_ADDR = 0x10010014"

definition gpio_valid :: "request \<Rightarrow> bool" where
  "gpio_valid q \<longleftrightarrow> aligned q \<and>
     (if req_write q
      then req_wstrb q \<noteq> 0 \<and> req_addr q \<in> {GPIO_OUTPUT_ADDR, GPIO_OUTPUT_ENABLE_ADDR, GPIO_OUTPUT_SET_ADDR,
             GPIO_OUTPUT_CLEAR_ADDR, GPIO_OUTPUT_TOGGLE_ADDR}
      else req_wstrb q = 0 \<and> req_addr q \<in> {GPIO_INPUT_ADDR, GPIO_OUTPUT_ADDR, GPIO_OUTPUT_ENABLE_ADDR})"

definition gpio_read :: "u32 \<Rightarrow> gpio \<Rightarrow> u32" where
  "gpio_read a d =
     (if a = GPIO_INPUT_ADDR then input_sync_q d
      else if a = GPIO_OUTPUT_ADDR then output_q d else output_enable_q d)"

definition gpio_write :: "request \<Rightarrow> gpio \<Rightarrow> gpio" where
  "gpio_write q d =
     (let mask = write_byte_mask q; w = req_wdata q AND mask
      in if req_addr q = GPIO_OUTPUT_ADDR then d\<lparr>output_q := (output_q d AND NOT mask) OR w\<rparr>
         else if req_addr q = GPIO_OUTPUT_ENABLE_ADDR
         then d\<lparr>output_enable_q := (output_enable_q d AND NOT mask) OR w\<rparr>
         else if req_addr q = GPIO_OUTPUT_SET_ADDR then d\<lparr>output_q := output_q d OR w\<rparr>
         else if req_addr q = GPIO_OUTPUT_CLEAR_ADDR then d\<lparr>output_q := output_q d AND NOT w\<rparr>
         else d\<lparr>output_q := output_q d XOR w\<rparr>)"

definition gpio_clock :: "u32 \<Rightarrow> request option \<Rightarrow> gpio \<Rightarrow> response option \<times> gpio" where
  "gpio_clock gpio_in r d =
     (let d1 = (case r of Some q \<Rightarrow> if gpio_valid q \<and> req_write q then gpio_write q d else d | None \<Rightarrow> d);
          d2 = d1\<lparr>input_meta_q := gpio_in, input_sync_q := input_meta_q d\<rparr>
      in case r of None \<Rightarrow> (None, d2)
         | Some q \<Rightarrow>
             (Some (if \<not> gpio_valid q then err_response
                    else ok_response (if req_write q then 0 else gpio_read (req_addr q) d)), d2))"

section \<open>The UART\<close>

datatype rx_state = RX_IDLE | RX_START | RX_DATA | RX_STOP

record uart =
  tx_shift_q :: "10 word"
  tx_bit_q :: "4 word"
  tx_count_q :: nat
  tx_busy_q :: bool
  rx_meta_q :: bool
  rx_sync_q :: bool
  rx_state_q :: rx_state
  rx_count_q :: nat
  rx_bit_q :: "3 word"
  rx_shift_q :: u8
  rx_data_q :: u8
  rx_valid_q :: bool
  rx_overrun_q :: bool
  rx_frame_error_q :: bool

definition UART_TXDATA_ADDR :: u32 where "UART_TXDATA_ADDR = 0x10000000"
definition UART_RXDATA_ADDR :: u32 where "UART_RXDATA_ADDR = 0x10000004"
definition UART_STATUS_ADDR :: u32 where "UART_STATUS_ADDR = 0x10000008"
definition UART_BAUDDIV_ADDR :: u32 where "UART_BAUDDIV_ADDR = 0x1000000c"

definition uart_write_shape :: "request \<Rightarrow> bool" where
  "uart_write_shape q \<longleftrightarrow> req_write q \<and> req_wstrb q \<in> {1, 3, 0xf}"

definition uart_valid :: "request \<Rightarrow> bool" where
  "uart_valid q \<longleftrightarrow> aligned q \<and>
     (uart_write_shape q \<and> req_addr q \<in> {UART_TXDATA_ADDR, UART_STATUS_ADDR} \<or>
      \<not> req_write q \<and> req_wstrb q = 0 \<and>
        req_addr q \<in> {UART_TXDATA_ADDR, UART_RXDATA_ADDR, UART_STATUS_ADDR, UART_BAUDDIV_ADDR})"

definition of_flag :: "nat \<Rightarrow> bool \<Rightarrow> u32" where
  "of_flag n b = (if b then push_bit n 1 else 0)"

definition uart_read :: "nat \<Rightarrow> u32 \<Rightarrow> uart \<Rightarrow> u32" where
  "uart_read clks a d =
     (if a = UART_TXDATA_ADDR then of_flag 31 (tx_busy_q d)
      else if a = UART_RXDATA_ADDR then of_flag 31 (\<not> rx_valid_q d) OR ucast (rx_data_q d)
      else if a = UART_STATUS_ADDR
      then of_flag 0 (\<not> tx_busy_q d) OR of_flag 1 (tx_busy_q d) OR of_flag 2 (rx_valid_q d) OR
           of_flag 3 (rx_overrun_q d) OR of_flag 4 (rx_frame_error_q d)
      else of_nat clks)"

text \<open>Only a legal store to \<^verbatim>\<open>TXDATA\<close> waits for the transmitter.\<close>

definition uart_ready :: "request \<Rightarrow> uart \<Rightarrow> bool" where
  "uart_ready q d \<longleftrightarrow>
     \<not> (req_addr q = UART_TXDATA_ADDR \<and> uart_write_shape q \<and> aligned q) \<or> \<not> tx_busy_q d"

definition tx_frame :: "u8 \<Rightarrow> 10 word" where
  "tx_frame b = 0x200 OR push_bit 1 (ucast b)"

definition uart_tx :: "nat \<Rightarrow> u8 option \<Rightarrow> uart \<Rightarrow> uart" where
  "uart_tx clks load d =
     (case load of
        Some b \<Rightarrow> d\<lparr>tx_shift_q := tx_frame b, tx_bit_q := 0, tx_count_q := clks - 1, tx_busy_q := True\<rparr>
      | None \<Rightarrow>
          if tx_busy_q d
          then if tx_count_q d = 0
               then if tx_bit_q d = 9
                    then d\<lparr>tx_count_q := clks - 1, tx_busy_q := False, tx_shift_q := 0x3ff, tx_bit_q := 0\<rparr>
                    else d\<lparr>tx_count_q := clks - 1, tx_shift_q := 0x200 OR drop_bit 1 (tx_shift_q d),
                           tx_bit_q := tx_bit_q d + 1\<rparr>
               else d\<lparr>tx_count_q := tx_count_q d - 1\<rparr>
          else d)"

definition uart_half_bit :: "nat \<Rightarrow> nat" where
  "uart_half_bit clks = (if clks \<ge> 2 then clks div 2 else 1)"

text \<open>
  The receiver. \<open>clear\<close> are the bits a store to \<^verbatim>\<open>STATUS\<close> clears; an error in the same cycle
  wins. \<open>pop\<close> is an accepted load from \<^verbatim>\<open>RXDATA\<close> while a byte is held.
\<close>

definition uart_rx :: "nat \<Rightarrow> u32 \<Rightarrow> bool \<Rightarrow> uart \<Rightarrow> uart" where
  "uart_rx clks clear pop d0 =
     (let d = d0\<lparr>rx_overrun_q := rx_overrun_q d0 \<and> \<not> bit clear 3,
                rx_frame_error_q := rx_frame_error_q d0 \<and> \<not> bit clear 4,
                rx_valid_q := rx_valid_q d0 \<and> \<not> pop\<rparr>;
          line = rx_sync_q d0; wait = d\<lparr>rx_count_q := rx_count_q d0 - 1\<rparr>
      in case rx_state_q d0 of
           RX_IDLE \<Rightarrow> if \<not> line then d\<lparr>rx_state_q := RX_START, rx_count_q := uart_half_bit clks - 1\<rparr> else d
         | RX_START \<Rightarrow>
             if rx_count_q d0 = 0
             then if \<not> line then d\<lparr>rx_state_q := RX_DATA, rx_count_q := clks - 1, rx_bit_q := 0\<rparr>
                  else d\<lparr>rx_state_q := RX_IDLE\<rparr>
             else wait
         | RX_DATA \<Rightarrow>
             if rx_count_q d0 = 0
             then let d1 = d\<lparr>rx_shift_q := (if line then set_bit (unat (rx_bit_q d0)) (rx_shift_q d0)
                                            else unset_bit (unat (rx_bit_q d0)) (rx_shift_q d0)),
                             rx_count_q := clks - 1\<rparr>
                  in if rx_bit_q d0 = 7 then d1\<lparr>rx_state_q := RX_STOP\<rparr>
                     else d1\<lparr>rx_bit_q := rx_bit_q d0 + 1\<rparr>
             else wait
         | RX_STOP \<Rightarrow>
             if rx_count_q d0 = 0
             then let d1 = (if \<not> rx_valid_q d0 \<or> pop
                            then d\<lparr>rx_data_q := rx_shift_q d0, rx_valid_q := True\<rparr>
                            else d\<lparr>rx_overrun_q := True\<rparr>);
                      d2 = (if \<not> line then d1\<lparr>rx_frame_error_q := True\<rparr> else d1)
                  in d2\<lparr>rx_state_q := RX_IDLE, rx_count_q := 0, rx_bit_q := 0\<rparr>
             else wait)"

definition uart_line :: "uart \<Rightarrow> bool" where
  "uart_line d \<longleftrightarrow> (tx_busy_q d \<longrightarrow> bit (tx_shift_q d) 0)"

definition uart_clock :: "nat \<Rightarrow> bool \<Rightarrow> request option \<Rightarrow> uart \<Rightarrow> response option \<times> uart" where
  "uart_clock clks rx_line r d =
     (let taken = (case r of Some q \<Rightarrow> if uart_ready q d \<and> uart_valid q then Some q else None | None \<Rightarrow> None);
          load = (case taken of Some q \<Rightarrow> if req_write q \<and> req_addr q = UART_TXDATA_ADDR
                    then Some (ucast (req_wdata q)) else None | None \<Rightarrow> None);
          clear = (case taken of Some q \<Rightarrow> if req_write q \<and> req_addr q = UART_STATUS_ADDR
                    then req_wdata q else 0 | None \<Rightarrow> 0);
          pop = (case taken of Some q \<Rightarrow> \<not> req_write q \<and> req_addr q = UART_RXDATA_ADDR \<and> rx_valid_q d
                 | None \<Rightarrow> False);
          d1 = uart_rx clks clear pop (uart_tx clks load d);
          d2 = d1\<lparr>rx_meta_q := rx_line, rx_sync_q := rx_meta_q d\<rparr>
      in case r of None \<Rightarrow> (None, d2)
         | Some q \<Rightarrow>
             if uart_ready q d
             then (Some (if \<not> uart_valid q then err_response
                         else ok_response (if req_write q then 0 else uart_read clks (req_addr q) d)), d2)
             else (None, d2))"

section \<open>Reset\<close>

definition mtimer_reset :: mtimer where
  "mtimer_reset = \<lparr>mtime_q = 0, mtimecmp_q = 0xffffffffffffffff\<rparr>"

definition gpio_reset :: gpio where
  "gpio_reset = \<lparr>input_meta_q = 0, input_sync_q = 0, output_q = 0, output_enable_q = 0\<rparr>"

definition uart_reset :: uart where
  "uart_reset = \<lparr>tx_shift_q = 0x3ff, tx_bit_q = 0, tx_count_q = 0, tx_busy_q = False, rx_meta_q = True,
     rx_sync_q = True, rx_state_q = RX_IDLE, rx_count_q = 0, rx_bit_q = 0, rx_shift_q = 0, rx_data_q = 0,
     rx_valid_q = False, rx_overrun_q = False, rx_frame_error_q = False\<rparr>"

end
