(* ===== verification/Soc_Bus.thy ===== *)
theory Soc_Bus
  imports Soc_Devices
begin

text \<open>
  The data bus of the SoC as the processor sees it, and time. A machine is the state of the
  system with the environment it runs in: the values of the input pins in every clock cycle, and
  the number of idle cycles before every bus access, in which the processor does something else
  (executes instructions, serves interrupts). \<open>clock\<close> is one cycle, with the request the
  processor offers in it; \<open>mmio_access\<close> idles, then offers a request until it is accepted.
  \<open>trace\<close> is an observer that keeps, newest first, the request accepted in every cycle and the
  state of the system before it.
\<close>

section \<open>The system\<close>

record soc =
  timer :: mtimer
  gpio_dev :: gpio
  uart_dev :: uart
  tcm :: mem
  clks_per_bit :: nat

record pins =
  gpio_in_i :: u32
  uart_rx_i :: bool

datatype target = TARGET_TCM | TARGET_TIMER | TARGET_UART | TARGET_GPIO

definition request_target :: "u32 \<Rightarrow> target" where
  "request_target a =
     (if (a XOR 0x02000000) AND 0xffff0000 = 0 then TARGET_TIMER
      else if (a XOR 0x10000000) AND 0xffff0000 = 0 then TARGET_UART
      else if (a XOR 0x10010000) AND 0xffff0000 = 0 then TARGET_GPIO else TARGET_TCM)"

definition tcm_in_range :: "request \<Rightarrow> bool" where
  "tcm_in_range q \<longleftrightarrow> req_addr q < 0x10000 \<and> aligned q"

definition tcm_write :: "request \<Rightarrow> mem \<Rightarrow> mem" where
  "tcm_write q m =
     fold (\<lambda>k m. if bit (req_wstrb q) k then m(req_addr q + of_nat k := ucast (drop_bit (8 * k) (req_wdata q))) else m)
       [0, 1, 2, 3] m"

definition tcm_clock :: "request option \<Rightarrow> mem \<Rightarrow> response option \<times> mem" where
  "tcm_clock r m =
     (case r of None \<Rightarrow> (None, m)
      | Some q \<Rightarrow>
          if tcm_in_range q
          then (Some (ok_response (load32 m (req_addr q))), if req_write q then tcm_write q m else m)
          else (Some err_response, m))"

text \<open>Only the target the decoder selects sees the request.\<close>

definition soc_clock :: "pins \<Rightarrow> request option \<Rightarrow> soc \<Rightarrow> response option \<times> soc" where
  "soc_clock p r s =
     (let sel = (\<lambda>t. case r of Some q \<Rightarrow> if request_target (req_addr q) = t then Some q else None | None \<Rightarrow> None);
          (rt, t') = mtimer_clock (sel TARGET_TIMER) (timer s);
          (ru, u') = uart_clock (clks_per_bit s) (uart_rx_i p) (sel TARGET_UART) (uart_dev s);
          (rg, g') = gpio_clock (gpio_in_i p) (sel TARGET_GPIO) (gpio_dev s);
          (rm, m') = tcm_clock (sel TARGET_TCM) (tcm s)
      in (case r of None \<Rightarrow> None
          | Some q \<Rightarrow> (case request_target (req_addr q) of
              TARGET_TIMER \<Rightarrow> rt | TARGET_UART \<Rightarrow> ru | TARGET_GPIO \<Rightarrow> rg | TARGET_TCM \<Rightarrow> rm),
          s\<lparr>timer := t', uart_dev := u', gpio_dev := g', tcm := m'\<rparr>))"

section \<open>The machine\<close>

record machine =
  soc :: soc
  cycle :: nat
  pins_at :: "nat \<Rightarrow> pins"
  gap :: "nat \<Rightarrow> nat"
  accesses :: nat
  trace :: "(request option \<times> soc) list"

definition clock :: "request option \<Rightarrow> machine \<Rightarrow> response option \<times> machine" where
  "clock r m =
     (let (a, s') = soc_clock (pins_at m (cycle m)) r (soc m)
      in (a, m\<lparr>soc := s', cycle := cycle m + 1,
               trace := (if a = None then None else r, soc m) # trace m\<rparr>))"

definition idle :: "nat \<Rightarrow> machine \<Rightarrow> machine" where
  "idle n m = ((\<lambda>m. snd (clock None m)) ^^ n) m"

text \<open>The number of cycles until the transmitter is free; a bit takes at least one.\<close>

definition tx_left :: "nat \<Rightarrow> uart \<Rightarrow> nat" where
  "tx_left clks d = (if tx_busy_q d then unat (9 - tx_bit_q d) * max 1 clks + tx_count_q d + 1 else 0)"

lemma uart_tx_None_left:
  assumes "tx_busy_q d"
  shows "tx_left clks (uart_tx clks None d) < tx_left clks d"
proof (cases "tx_count_q d = 0 \<and> tx_bit_q d \<noteq> 9")
  case True
  then have ne: "9 - tx_bit_q d \<noteq> 0" by simp
  have e: "9 - tx_bit_q d - 1 = 8 - tx_bit_q d" "9 - (tx_bit_q d + 1) = 8 - tx_bit_q d" by simp_all
  have "unat (9 - tx_bit_q d) = Suc (unat (8 - tx_bit_q d))"
    using unat_minus_one [OF ne, unfolded e] ne by (simp add: unat_gt_0)
  then show ?thesis using assms True by (cases clks) (simp_all add: uart_tx_def tx_left_def e max_def)
next
  case False
  then show ?thesis using assms by (auto simp: uart_tx_def tx_left_def)
qed

text \<open>
  Offering a request until it is accepted. Only the UART makes it wait, for as long as it
  transmits, so the wait ends.
\<close>

lemma uart_rx_keeps_tx [simp]:
  "tx_shift_q (uart_rx clks c p d) = tx_shift_q d" "tx_bit_q (uart_rx clks c p d) = tx_bit_q d"
  "tx_count_q (uart_rx clks c p d) = tx_count_q d" "tx_busy_q (uart_rx clks c p d) = tx_busy_q d"
  by (cases "rx_state_q d"; simp add: uart_rx_def Let_def)+

lemma uart_waits:
  assumes "uart_clock clks l (Some q) d = (None, d')"
  shows "tx_busy_q d" "tx_left clks d' < tx_left clks d"
proof -
  have nr: "\<not> uart_ready q d" using assms by (auto simp: uart_clock_def Let_def split: if_splits)
  then show b: "tx_busy_q d" by (simp add: uart_ready_def)
  have "tx_left clks d' = tx_left clks (uart_tx clks None d)"
    using assms nr by (auto simp: uart_clock_def Let_def tx_left_def)
  then show "tx_left clks d' < tx_left clks d" using uart_tx_None_left [OF b] by simp
qed

lemma soc_waits:
  assumes "soc_clock p (Some q) s = (None, s')"
  shows "tx_busy_q (uart_dev s) \<and> tx_left (clks_per_bit s') (uart_dev s') < tx_left (clks_per_bit s) (uart_dev s)"
proof (cases "request_target (req_addr q)")
  case TARGET_UART
  then show ?thesis
    using assms uart_waits [of "clks_per_bit s" "uart_rx_i p" q "uart_dev s"]
    by (auto simp: soc_clock_def Let_def split: prod.splits)
qed (use assms in \<open>auto simp: soc_clock_def Let_def mtimer_clock_def gpio_clock_def tcm_clock_def
       split: prod.splits if_splits\<close>)

function issue :: "request \<Rightarrow> machine \<Rightarrow> response \<times> machine" where
  "issue q m = (case clock (Some q) m of (Some a, m') \<Rightarrow> (a, m') | (None, m') \<Rightarrow> issue q m')"
  by pat_completeness auto
termination
proof (relation "measure (\<lambda>(_, m). tx_left (clks_per_bit (soc m)) (uart_dev (soc m)))")
  fix q m r m'
  assume "(r, m') = clock (Some q) m" "r = None"
  then show "((q, m'), q, m) \<in> measure (\<lambda>(_, m). tx_left (clks_per_bit (soc m)) (uart_dev (soc m)))"
    using soc_waits [of "pins_at m (cycle m)" q "soc m"] by (auto simp: clock_def split: prod.splits)
qed simp

declare issue.simps [simp del]

definition mmio_access :: "request \<Rightarrow> machine \<Rightarrow> response \<times> machine" where
  "mmio_access q m = issue q (idle (gap m (accesses m)) (m\<lparr>accesses := accesses m + 1\<rparr>))"

end
