(* ===== verification/Soc_Quiet.thy ===== *)
theory Soc_Quiet
  imports Soc_Bus
begin

text \<open>
  What happens between bus accesses. A machine is quiet from one state to another when no
  request is accepted in between: time passes, the receiver and the transmitter of the UART work
  and the input pins are sampled, but the registers that software writes keep their values. Every
  access is a quiet stretch and then one clock that accepts the request.
\<close>

inductive quiet :: "machine \<Rightarrow> machine \<Rightarrow> bool" where
  quiet_refl: "quiet m m"
| quiet_step: "quiet m m1 \<Longrightarrow> clock r m1 = (None, m2) \<Longrightarrow> quiet m m2"

lemma quiet_trans: "quiet m1 m2 \<Longrightarrow> quiet m0 m1 \<Longrightarrow> quiet m0 m2"
  by (induction rule: quiet.induct) (auto intro: quiet_step)

lemma clock_None: "fst (clock None m) = None"
  by (simp add: clock_def soc_clock_def split_beta Let_def)

lemma quiet_idle: "quiet m (idle n m)"
proof (induction n)
  case 0
  show ?case by (simp add: idle_def quiet_refl)
next
  case (Suc n)
  have "clock None (idle n m) = (None, snd (clock None (idle n m)))"
    using clock_None [of "idle n m"] by (metis prod.collapse)
  from quiet_step [OF Suc this] show ?case by (simp add: idle_def)
qed

lemma issue_quiet: "issue q m = (a, m') \<Longrightarrow> \<exists>m1. quiet m m1 \<and> clock (Some q) m1 = (Some a, m')"
proof (induction q m rule: issue.induct)
  case (1 q m)
  show ?case
  proof (cases "clock (Some q) m")
    case (Pair r m2)
    show ?thesis
    proof (cases r)
      case None
      then have "issue q m2 = (a, m')" using "1.prems" Pair by (simp add: issue.simps [of q m])
      moreover have "quiet m m2" using quiet_step [OF quiet_refl] Pair None by blast
      ultimately show ?thesis using "1.IH" [OF Pair [symmetric] None] quiet_trans by blast
    next
      case (Some b)
      then show ?thesis using "1.prems" Pair quiet_refl by (auto simp: issue.simps [of q m])
    qed
  qed
qed

text \<open>The state of the rest of the machine after a clock.\<close>

lemma clock_fields:
  assumes "clock r m = (a, m')"
  shows "soc m' = snd (soc_clock (pins_at m (cycle m)) r (soc m))" "a = fst (soc_clock (pins_at m (cycle m)) r (soc m))"
    "cycle m' = cycle m + 1" "pins_at m' = pins_at m" "gap m' = gap m" "accesses m' = accesses m"
    "trace m' = (if a = None then None else r, soc m) # trace m"
  using assms by (auto simp: clock_def split: prod.splits)

lemma uart_rx_keeps_byte:
  "\<not> pop \<Longrightarrow> rx_valid_q d \<Longrightarrow> rx_valid_q (uart_rx clks c pop d) \<and> rx_data_q (uart_rx clks c pop d) = rx_data_q d"
  by (cases "rx_state_q d") (simp_all add: uart_rx_def Let_def)

lemma uart_tx_keeps_rx [simp]:
  "rx_meta_q (uart_tx clks l d) = rx_meta_q d" "rx_sync_q (uart_tx clks l d) = rx_sync_q d"
  "rx_state_q (uart_tx clks l d) = rx_state_q d" "rx_count_q (uart_tx clks l d) = rx_count_q d"
  "rx_bit_q (uart_tx clks l d) = rx_bit_q d" "rx_shift_q (uart_tx clks l d) = rx_shift_q d"
  "rx_data_q (uart_tx clks l d) = rx_data_q d" "rx_valid_q (uart_tx clks l d) = rx_valid_q d"
  "rx_overrun_q (uart_tx clks l d) = rx_overrun_q d" "rx_frame_error_q (uart_tx clks l d) = rx_frame_error_q d"
  by (auto simp: uart_tx_def split: option.splits)

text \<open>One clock in which nothing is accepted.\<close>

lemma uart_clock_refused:
  assumes "uart_clock clks l r d = (None, d')"
  shows "d' = (uart_rx clks 0 False (uart_tx clks None d))\<lparr>rx_meta_q := l, rx_sync_q := rx_meta_q d\<rparr>"
  using assms by (auto simp: uart_clock_def Let_def split: option.splits if_splits)

lemma refused:
  assumes "soc_clock p r s = (None, s')"
  shows "mtime_q (timer s') = mtime_q (timer s) + 1" "mtimecmp_q (timer s') = mtimecmp_q (timer s)"
    "output_q (gpio_dev s') = output_q (gpio_dev s)" "output_enable_q (gpio_dev s') = output_enable_q (gpio_dev s)"
    "tcm s' = tcm s" "clks_per_bit s' = clks_per_bit s"
    "uart_dev s' = (uart_rx (clks_per_bit s) 0 False (uart_tx (clks_per_bit s) None (uart_dev s)))
        \<lparr>rx_meta_q := uart_rx_i p, rx_sync_q := rx_meta_q (uart_dev s)\<rparr>"
proof -
  have "mtime_q (timer s') = mtime_q (timer s) + 1 \<and> mtimecmp_q (timer s') = mtimecmp_q (timer s) \<and>
    output_q (gpio_dev s') = output_q (gpio_dev s) \<and> output_enable_q (gpio_dev s') = output_enable_q (gpio_dev s) \<and>
    tcm s' = tcm s \<and> clks_per_bit s' = clks_per_bit s \<and>
    uart_dev s' = (uart_rx (clks_per_bit s) 0 False (uart_tx (clks_per_bit s) None (uart_dev s)))
        \<lparr>rx_meta_q := uart_rx_i p, rx_sync_q := rx_meta_q (uart_dev s)\<rparr>"
  proof (cases r)
    case None
    then show ?thesis using assms
      by (auto simp: soc_clock_def Let_def mtimer_clock_def gpio_clock_def tcm_clock_def uart_clock_def)
  next
    case (Some q)
    show ?thesis
    proof (cases "request_target (req_addr q)")
      case TARGET_UART
      then have "fst (uart_clock (clks_per_bit s) (uart_rx_i p) (Some q) (uart_dev s)) = None"
        "uart_dev s' = snd (uart_clock (clks_per_bit s) (uart_rx_i p) (Some q) (uart_dev s))"
        using assms Some by (auto simp: soc_clock_def Let_def split: prod.splits)
      then have "uart_clock (clks_per_bit s) (uart_rx_i p) (Some q) (uart_dev s) = (None, uart_dev s')"
        by (metis prod.collapse)
      from uart_clock_refused [OF this] show ?thesis
        using assms Some TARGET_UART
        by (auto simp: soc_clock_def Let_def mtimer_clock_def gpio_clock_def tcm_clock_def split: prod.splits)
    qed (use assms Some in \<open>auto simp: soc_clock_def Let_def mtimer_clock_def gpio_clock_def tcm_clock_def
       split: prod.splits if_splits\<close>)
  qed
  then show "mtime_q (timer s') = mtime_q (timer s) + 1" "mtimecmp_q (timer s') = mtimecmp_q (timer s)"
    "output_q (gpio_dev s') = output_q (gpio_dev s)" "output_enable_q (gpio_dev s') = output_enable_q (gpio_dev s)"
    "tcm s' = tcm s" "clks_per_bit s' = clks_per_bit s"
    "uart_dev s' = (uart_rx (clks_per_bit s) 0 False (uart_tx (clks_per_bit s) None (uart_dev s)))
        \<lparr>rx_meta_q := uart_rx_i p, rx_sync_q := rx_meta_q (uart_dev s)\<rparr>" by blast+
qed

text \<open>Facts that hold of every quiet stretch.\<close>

lemma quiet_clock_soc:
  "clock r m = (None, m') \<Longrightarrow> soc_clock (pins_at m (cycle m)) r (soc m) = (None, soc m')"
  by (auto simp: clock_def split: prod.splits)

lemma quiet_env:
  "quiet m m' \<Longrightarrow> pins_at m' = pins_at m \<and> gap m' = gap m \<and> accesses m' = accesses m \<and> cycle m \<le> cycle m'"
  by (induction rule: quiet.induct) (auto dest: clock_fields)

lemma quiet_timer:
  "quiet m m' \<Longrightarrow> mtime_q (timer (soc m')) = mtime_q (timer (soc m)) + of_nat (cycle m' - cycle m) \<and>
    mtimecmp_q (timer (soc m')) = mtimecmp_q (timer (soc m))"
proof (induction rule: quiet.induct)
  case (quiet_step m m1 r m2)
  have "cycle m2 - cycle m = Suc (cycle m1 - cycle m)"
    using quiet_env [OF quiet_step.hyps(1)] clock_fields(3) [OF quiet_step.hyps(2)]
    by (simp add: Suc_diff_le)
  then show ?case
    using quiet_step.IH refused(1,2) [OF quiet_clock_soc [OF quiet_step.hyps(2)]] by (simp add: algebra_simps)
qed simp

lemma quiet_kept:
  "quiet m m' \<Longrightarrow> output_q (gpio_dev (soc m')) = output_q (gpio_dev (soc m)) \<and>
    output_enable_q (gpio_dev (soc m')) = output_enable_q (gpio_dev (soc m)) \<and> tcm (soc m') = tcm (soc m) \<and>
    clks_per_bit (soc m') = clks_per_bit (soc m)"
  by (induction rule: quiet.induct) (auto dest!: quiet_clock_soc simp: refused)

lemma quiet_byte:
  "quiet m m' \<Longrightarrow> rx_valid_q (uart_dev (soc m)) \<Longrightarrow>
   rx_valid_q (uart_dev (soc m')) \<and> rx_data_q (uart_dev (soc m')) = rx_data_q (uart_dev (soc m))"
proof (induction rule: quiet.induct)
  case (quiet_step m m1 r m2)
  let ?d = "uart_tx (clks_per_bit (soc m1)) None (uart_dev (soc m1))"
  have "rx_valid_q ?d" using quiet_step by simp
  from uart_rx_keeps_byte [OF _ this, of False "clks_per_bit (soc m1)" 0] show ?case
    using quiet_step refused(7) [OF quiet_clock_soc [OF quiet_step.hyps(2)]] by simp
qed simp

lemma quiet_trace:
  "quiet m m' \<Longrightarrow> \<exists>ss. trace m' = map (\<lambda>s. (None, s)) ss @ trace m \<and> (\<forall>s \<in> set ss. \<exists>mi. quiet m mi \<and> s = soc mi)"
proof (induction rule: quiet.induct)
  case (quiet_refl m)
  show ?case by (intro exI [of _ "[]"]) simp
next
  case (quiet_step m m1 r m2)
  then obtain ss where "trace m1 = map (\<lambda>s. (None, s)) ss @ trace m" "\<forall>s \<in> set ss. \<exists>mi. quiet m mi \<and> s = soc mi" by blast
  then show ?case
    using clock_fields(7) [OF quiet_step.hyps(2)] quiet_step.hyps(1) by (intro exI [of _ "soc m1 # ss"]) auto
qed

text \<open>The clocks spent: idling, and waiting only for the transmitter.\<close>

lemma idle_cycle: "cycle (idle n m) = cycle m + n"
proof (induction n)
  case (Suc n)
  have "idle (Suc n) m = snd (clock None (idle n m))" by (simp add: idle_def)
  then show ?case using Suc clock_fields(3) [of None "idle n m"] by (metis add_Suc_right add_Suc_shift add.commute plus_1_eq_Suc prod.collapse)
qed (simp add: idle_def)

lemma uart_only_waits:
  assumes "clock (Some q) m = (None, m')"
  shows "request_target (req_addr q) = TARGET_UART \<and> uart_write_shape q \<and> req_addr q = UART_TXDATA_ADDR"
proof -
  have s: "soc_clock (pins_at m (cycle m)) (Some q) (soc m) = (None, soc m')" using quiet_clock_soc [OF assms] .
  have u: "request_target (req_addr q) = TARGET_UART"
    by (rule ccontr, cases "request_target (req_addr q)")
      (use s in \<open>auto simp: soc_clock_def Let_def mtimer_clock_def gpio_clock_def tcm_clock_def split: prod.splits if_splits\<close>)
  then have "fst (uart_clock (clks_per_bit (soc m)) (uart_rx_i (pins_at m (cycle m))) (Some q) (uart_dev (soc m))) = None"
    using s by (auto simp: soc_clock_def Let_def split: prod.splits)
  then have "\<not> uart_ready q (uart_dev (soc m))" by (auto simp: uart_clock_def Let_def split: if_splits)
  then show ?thesis using u by (simp add: uart_ready_def)
qed

lemma issue_cycle: "issue q m = (a, m') \<Longrightarrow> cycle m' \<le> cycle m + tx_left (clks_per_bit (soc m)) (uart_dev (soc m)) + 1"
proof (induction q m rule: issue.induct)
  case (1 q m)
  show ?case
  proof (cases "clock (Some q) m")
    case (Pair r m2)
    show ?thesis
    proof (cases r)
      case None
      then have "issue q m2 = (a, m')" using "1.prems" Pair by (simp add: issue.simps [of q m])
      from "1.IH" [OF Pair [symmetric] None this]
        soc_waits [OF quiet_clock_soc [of "Some q" m m2]] clock_fields(3) [OF Pair] show ?thesis
        using Pair None by simp
    next
      case (Some b)
      then show ?thesis using "1.prems" Pair clock_fields(3) [OF Pair] by (simp add: issue.simps [of q m])
    qed
  qed
qed

lemma issue_at_once:
  assumes "req_addr q \<noteq> UART_TXDATA_ADDR \<or> \<not> req_write q"
  shows "\<exists>a m'. issue q m = (a, m') \<and> clock (Some q) m = (Some a, m')"
proof (cases "clock (Some q) m")
  case (Pair r m2)
  then have "r \<noteq> None" using uart_only_waits [of q m m2] assms by (auto simp: uart_write_shape_def)
  then show ?thesis using Pair by (auto simp: issue.simps [of q m])
qed

lemma mmio_access_quiet:
  assumes "mmio_access q m = (a, m')"
  shows "\<exists>m1. quiet (m\<lparr>accesses := accesses m + 1\<rparr>) m1 \<and> clock (Some q) m1 = (Some a, m')"
proof -
  let ?m = "m\<lparr>accesses := accesses m + 1\<rparr>"
  from issue_quiet [of q "idle (gap m (accesses m)) ?m" a m'] obtain m1 where
    "quiet (idle (gap m (accesses m)) ?m) m1" "clock (Some q) m1 = (Some a, m')"
    using assms by (auto simp: mmio_access_def)
  then show ?thesis using quiet_trans [OF _ quiet_idle] by blast
qed

text \<open>Accesses that do not wait take the gap and one clock.\<close>

lemma mmio_access_at_once:
  assumes "req_addr q \<noteq> UART_TXDATA_ADDR \<or> \<not> req_write q"
  shows "\<exists>a m1 m'. mmio_access q m = (a, m') \<and> quiet (m\<lparr>accesses := accesses m + 1\<rparr>) m1 \<and>
    cycle m1 = cycle m + gap m (accesses m) \<and> clock (Some q) m1 = (Some a, m')"
proof -
  let ?m = "idle (gap m (accesses m)) (m\<lparr>accesses := accesses m + 1\<rparr>)"
  from issue_at_once [OF assms, of ?m] obtain a m' where "issue q ?m = (a, m')" "clock (Some q) ?m = (Some a, m')"
    by blast
  moreover have "cycle ?m = cycle m + gap m (accesses m)" by (simp add: idle_cycle)
  ultimately show ?thesis
    using quiet_idle [of "m\<lparr>accesses := accesses m + 1\<rparr>" "gap m (accesses m)"] unfolding mmio_access_def by blast
qed

end
