(* ===== verification/Split_Counter.thy ===== *)
theory Split_Counter
  imports Prelude
begin

text \<open>
  Reading a running 64-bit counter through two 32-bit registers: high, low, high again, and once
  more if the high half changed. The loop occurs three times in the C code, for \<^verbatim>\<open>mtime\<close> in
  \<^verbatim>\<open>rv32_soc_mtime_read\<close> and \<^verbatim>\<open>vPortSetupTimerInterrupt\<close> and for the cycle and instruction
  counters in \<^verbatim>\<open>read_counter\<close>. The interface \<open>split_counter\<close> says what the loop needs of the
  two reads: they return the halves of the count at some moment during the read, and a read takes
  less than \<open>2 ^ 29\<close> counts.
\<close>

partial_function (option) split_read ::
  "('s \<Rightarrow> 'e + (u32 \<times> 's)) \<Rightarrow> ('s \<Rightarrow> 'e + (u32 \<times> 's)) \<Rightarrow> 's \<Rightarrow> ('e + (u32 \<times> u32 \<times> u32 \<times> 's)) option" where
  "split_read rd_hi rd_lo s =
     (case rd_hi s of Inl e \<Rightarrow> Some (Inl e)
      | Inr (high_before, s1) \<Rightarrow>
          (case rd_lo s1 of Inl e \<Rightarrow> Some (Inl e)
           | Inr (low, s2) \<Rightarrow>
               (case rd_hi s2 of Inl e \<Rightarrow> Some (Inl e)
                | Inr (high_after, s3) \<Rightarrow>
                    if high_before \<noteq> high_after then split_read rd_hi rd_lo s3
                    else Some (Inr (high_before, low, high_after, s3)))))"

lemma hi32_of_nat: "hi32 (of_nat c) = of_nat (c div 2 ^ 32)"
proof -
  have "unat (hi32 (of_nat c)) = c mod 2 ^ (32 + 32) div 2 ^ 32"
    unfolding unat_hi32 unat_of_nat64 by simp
  also have "\<dots> = unat (of_nat (c div 2 ^ 32) :: u32)"
    unfolding div_exp_mod_exp_eq [symmetric] by (simp add: unat_of_nat take_bit_eq_mod)
  finally show ?thesis by (simp add: word_unat_eq_iff)
qed
lemma same_high:
  assumes "c \<le> d" "d < c + 2 ^ 32"
  shows "hi32 (of_nat c) = hi32 (of_nat d) \<longleftrightarrow> c div 2 ^ 32 = d div 2 ^ 32"
proof -
  have "d div 2 ^ 32 \<le> (c + 2 ^ 32) div 2 ^ 32" using assms by (intro div_le_mono) simp
  then have "d div 2 ^ 32 = c div 2 ^ 32 \<or> d div 2 ^ 32 = Suc (c div 2 ^ 32)"
    using div_le_mono [OF assms(1), of "2 ^ 32"] by auto
  moreover have "(of_nat n :: u32) \<noteq> of_nat (Suc n)" for n by simp
  ultimately show ?thesis by (auto simp: hi32_of_nat)
qed

text \<open>Within one wrap of the low half, at most one of two successive rounds sees it wrap.\<close>

lemma one_wrap:
  fixes a b c d :: nat
  assumes "a \<le> b" "b \<le> c" "c \<le> d" "d < a + 2 ^ 32" "a div 2 ^ 32 \<noteq> b div 2 ^ 32"
  shows "c div 2 ^ 32 = d div 2 ^ 32"
proof -
  let ?B = "b div 2 ^ 32 * 2 ^ 32"
  have "a < ?B"
  proof (rule ccontr)
    assume "\<not> a < ?B"
    then have "b div 2 ^ 32 \<le> a div 2 ^ 32" by (simp add: not_less less_eq_div_iff_mult_less_eq)
    then show False using assms(1,5) div_le_mono [OF assms(1), of "2 ^ 32"] by simp
  qed
  then have "d < ?B + 2 ^ 32" using assms(4) by simp
  moreover have "?B \<le> c" using assms(2) div_times_less_eq_dividend [of b "2 ^ 32"] by linarith
  ultimately have "c div 2 ^ 32 = b div 2 ^ 32" "d div 2 ^ 32 = b div 2 ^ 32"
    using assms(3) by (auto intro!: div_nat_eqI)
  then show ?thesis by simp
qed

locale split_counter =
  fixes rd_hi rd_lo :: "'s \<Rightarrow> 'e + (u32 \<times> 's)"
    and ok :: "'s \<Rightarrow> bool"
    and now :: "'s \<Rightarrow> nat"
  assumes hi: "ok s \<Longrightarrow> \<exists>c s'. rd_hi s = Inr (hi32 (of_nat c), s') \<and> ok s' \<and>
      now s \<le> c \<and> c \<le> now s' \<and> now s' \<le> now s + 2 ^ 29"
    and lo: "ok s \<Longrightarrow> \<exists>c s'. rd_lo s = Inr (lo32 (of_nat c), s') \<and> ok s' \<and>
      now s \<le> c \<and> c \<le> now s' \<and> now s' \<le> now s + 2 ^ 29"
begin

lemma round:
  assumes "ok s"
  obtains a b c s' where
    "split_read rd_hi rd_lo s = (if hi32 (of_nat a) \<noteq> hi32 (of_nat c) then split_read rd_hi rd_lo s'
       else Some (Inr (hi32 (of_nat a), lo32 (of_nat b), hi32 (of_nat c), s')))"
    "ok s'" "now s \<le> a" "a \<le> b" "b \<le> c" "c \<le> now s'" "now s' \<le> now s + 3 * 2 ^ 29"
proof -
  from hi [OF assms] obtain a s1 where a: "rd_hi s = Inr (hi32 (of_nat a), s1)" "ok s1" "now s \<le> a" "a \<le> now s1"
    "now s1 \<le> now s + 2 ^ 29" by blast
  from lo [OF a(2)] obtain b s2 where b: "rd_lo s1 = Inr (lo32 (of_nat b), s2)" "ok s2" "now s1 \<le> b" "b \<le> now s2"
    "now s2 \<le> now s1 + 2 ^ 29" by blast
  from hi [OF b(2)] obtain c s3 where c: "rd_hi s2 = Inr (hi32 (of_nat c), s3)" "ok s3" "now s2 \<le> c" "c \<le> now s3"
    "now s3 \<le> now s2 + 2 ^ 29" by blast
  show thesis
  proof (rule that)
    show "split_read rd_hi rd_lo s = (if hi32 (of_nat a) \<noteq> hi32 (of_nat c) then split_read rd_hi rd_lo s3
       else Some (Inr (hi32 (of_nat a), lo32 (of_nat b), hi32 (of_nat c), s3)))"
      by (simp add: split_read.simps [of rd_hi rd_lo s] a(1) b(1) c(1))
  qed (use a b c in simp_all)
qed

text \<open>
  The loop ends after at most two rounds, and what it read is the count at a moment during
  the call.
\<close>

theorem read_is_now:
  assumes "ok s"
  shows "\<exists>b s'. split_read rd_hi rd_lo s = Some (Inr (hi32 (of_nat b), lo32 (of_nat b), hi32 (of_nat b), s')) \<and>
    ok s' \<and> now s \<le> b \<and> b \<le> now s' \<and> now s' \<le> now s + 6 * 2 ^ 29"
proof -
  have mid: "hi32 (of_nat x) = hi32 (of_nat z) \<Longrightarrow> x \<le> y \<Longrightarrow> y \<le> z \<Longrightarrow> z < x + 2 ^ 32 \<Longrightarrow>
      hi32 (of_nat y) = hi32 (of_nat x)" for x y z :: nat
    using same_high [of x z] same_high [of x y] div_le_mono [of x y "2 ^ 32"] div_le_mono [of y z "2 ^ 32"] by auto
  obtain a b c s1 where r1:
    "split_read rd_hi rd_lo s = (if hi32 (of_nat a) \<noteq> hi32 (of_nat c) then split_read rd_hi rd_lo s1
       else Some (Inr (hi32 (of_nat a), lo32 (of_nat b), hi32 (of_nat c), s1)))"
    "ok s1" "now s \<le> a" "a \<le> b" "b \<le> c" "c \<le> now s1" "now s1 \<le> now s + 3 * 2 ^ 29"
    by (rule round [OF assms])
  show ?thesis
  proof (cases "hi32 (of_nat a) = hi32 (of_nat c)")
    case True
    then have "hi32 (of_nat b) = hi32 (of_nat a)" using mid [of a c b] r1 by simp
    then show ?thesis using True r1 by (intro exI [of _ b] exI [of _ s1]) simp
  next
    case False
    obtain a' b' c' s2 where r2:
      "split_read rd_hi rd_lo s1 = (if hi32 (of_nat a') \<noteq> hi32 (of_nat c') then split_read rd_hi rd_lo s2
         else Some (Inr (hi32 (of_nat a'), lo32 (of_nat b'), hi32 (of_nat c'), s2)))"
      "ok s2" "now s1 \<le> a'" "a' \<le> b'" "b' \<le> c'" "c' \<le> now s2" "now s2 \<le> now s1 + 3 * 2 ^ 29"
      by (rule round [OF r1(2)])
    have "a div 2 ^ 32 \<noteq> c div 2 ^ 32" using False same_high [of a c] r1 by auto
    then have "a' div 2 ^ 32 = c' div 2 ^ 32"
      using one_wrap [of a c a' c'] r1 r2 by simp
    then have e: "hi32 (of_nat a') = hi32 (of_nat c')" using same_high [of a' c'] r2 by simp
    then have "hi32 (of_nat b') = hi32 (of_nat a')" using mid [of a' c' b'] r2 by simp
    then show ?thesis using e False r1 r2 by (intro exI [of _ b'] exI [of _ s2]) simp
  qed
qed

end

end
