(* ===== verification/Soc_Bsp.thy ===== *)
theory Soc_Bsp
  imports Soc_Quiet Split_Counter
begin

text \<open>
  The board support package, \<^verbatim>\<open>sw/bsp/rv32_soc.c\<close> with \<^verbatim>\<open>sw/include/rv32_soc.h\<close>. A driver is
  a function of the machine; a volatile word access is one access of the bus, and an access the
  bus answers with an error is an access fault, which the program does not survive.
\<close>

section \<open>The register map of rv32\_soc.h\<close>

definition RV32_SOC_TIMER_BASE :: u32 where "RV32_SOC_TIMER_BASE = 0x02000000"
definition RV32_SOC_UART_BASE :: u32 where "RV32_SOC_UART_BASE = 0x10000000"
definition RV32_SOC_GPIO_BASE :: u32 where "RV32_SOC_GPIO_BASE = 0x10010000"

definition RV32_SOC_MTIMECMP_LO :: u32 where "RV32_SOC_MTIMECMP_LO = RV32_SOC_TIMER_BASE + 0x4000"
definition RV32_SOC_MTIMECMP_HI :: u32 where "RV32_SOC_MTIMECMP_HI = RV32_SOC_TIMER_BASE + 0x4004"
definition RV32_SOC_MTIME_LO :: u32 where "RV32_SOC_MTIME_LO = RV32_SOC_TIMER_BASE + 0xbff8"
definition RV32_SOC_MTIME_HI :: u32 where "RV32_SOC_MTIME_HI = RV32_SOC_TIMER_BASE + 0xbffc"

definition RV32_SOC_UART_TXDATA :: u32 where "RV32_SOC_UART_TXDATA = RV32_SOC_UART_BASE + 0x00"
definition RV32_SOC_UART_RXDATA :: u32 where "RV32_SOC_UART_RXDATA = RV32_SOC_UART_BASE + 0x04"
definition RV32_SOC_UART_STATUS :: u32 where "RV32_SOC_UART_STATUS = RV32_SOC_UART_BASE + 0x08"
definition RV32_SOC_UART_BAUDDIV :: u32 where "RV32_SOC_UART_BAUDDIV = RV32_SOC_UART_BASE + 0x0c"

definition RV32_SOC_UART_STATUS_TX_READY :: u32 where "RV32_SOC_UART_STATUS_TX_READY = push_bit 0 1"
definition RV32_SOC_UART_STATUS_TX_BUSY :: u32 where "RV32_SOC_UART_STATUS_TX_BUSY = push_bit 1 1"
definition RV32_SOC_UART_STATUS_RX_VALID :: u32 where "RV32_SOC_UART_STATUS_RX_VALID = push_bit 2 1"
definition RV32_SOC_UART_STATUS_RX_OVERRUN :: u32 where "RV32_SOC_UART_STATUS_RX_OVERRUN = push_bit 3 1"
definition RV32_SOC_UART_STATUS_RX_FRAME :: u32 where "RV32_SOC_UART_STATUS_RX_FRAME = push_bit 4 1"
definition RV32_SOC_UART_RX_EMPTY :: u32 where "RV32_SOC_UART_RX_EMPTY = push_bit 31 1"

definition RV32_SOC_GPIO_INPUT :: u32 where "RV32_SOC_GPIO_INPUT = RV32_SOC_GPIO_BASE + 0x00"
definition RV32_SOC_GPIO_OUTPUT :: u32 where "RV32_SOC_GPIO_OUTPUT = RV32_SOC_GPIO_BASE + 0x04"
definition RV32_SOC_GPIO_OE :: u32 where "RV32_SOC_GPIO_OE = RV32_SOC_GPIO_BASE + 0x08"
definition RV32_SOC_GPIO_SET :: u32 where "RV32_SOC_GPIO_SET = RV32_SOC_GPIO_BASE + 0x0c"
definition RV32_SOC_GPIO_CLEAR :: u32 where "RV32_SOC_GPIO_CLEAR = RV32_SOC_GPIO_BASE + 0x10"
definition RV32_SOC_GPIO_TOGGLE :: u32 where "RV32_SOC_GPIO_TOGGLE = RV32_SOC_GPIO_BASE + 0x14"

definition RV32_SOC_TOHOST_ADDR :: u32 where "RV32_SOC_TOHOST_ADDR = 0x0000fffc"
definition RV32_SOC_PASS_STATUS :: u32 where "RV32_SOC_PASS_STATUS = 1"

lemmas soc_addrs [dev_simps] =
  RV32_SOC_TIMER_BASE_def RV32_SOC_UART_BASE_def RV32_SOC_GPIO_BASE_def
  RV32_SOC_MTIMECMP_LO_def RV32_SOC_MTIMECMP_HI_def RV32_SOC_MTIME_LO_def RV32_SOC_MTIME_HI_def
  RV32_SOC_UART_TXDATA_def RV32_SOC_UART_RXDATA_def RV32_SOC_UART_STATUS_def RV32_SOC_UART_BAUDDIV_def
  RV32_SOC_GPIO_INPUT_def RV32_SOC_GPIO_OUTPUT_def RV32_SOC_GPIO_OE_def RV32_SOC_GPIO_SET_def
  RV32_SOC_GPIO_CLEAR_def RV32_SOC_GPIO_TOGGLE_def RV32_SOC_TOHOST_ADDR_def

section \<open>Volatile accesses\<close>

datatype bus_fault = AccessFault u32 | NoReturn

definition read_request :: "u32 \<Rightarrow> request" where
  "read_request a = \<lparr>req_write = False, req_addr = a, req_wdata = 0, req_wstrb = 0\<rparr>"

definition write_request :: "u32 \<Rightarrow> u32 \<Rightarrow> request" where
  "write_request a v = \<lparr>req_write = True, req_addr = a, req_wdata = v, req_wstrb = 0xf\<rparr>"

definition rv32_soc_mmio_read32 :: "u32 \<Rightarrow> machine \<Rightarrow> bus_fault + (u32 \<times> machine)" where
  "rv32_soc_mmio_read32 address m =
     (let (r, m') = mmio_access (read_request address) m
      in if rsp_err r then Inl (AccessFault address) else Inr (rsp_rdata r, m'))"

definition rv32_soc_mmio_write32 :: "u32 \<Rightarrow> u32 \<Rightarrow> machine \<Rightarrow> bus_fault + machine" where
  "rv32_soc_mmio_write32 address v m =
     (let (r, m') = mmio_access (write_request address v) m
      in if rsp_err r then Inl (AccessFault address) else Inr m')"

section \<open>The drivers\<close>

text \<open>A loop that does not end is \<open>NoReturn\<close>.\<close>

definition rv32_soc_mtime_read :: "machine \<Rightarrow> bus_fault + (u64 \<times> machine)" where
  "rv32_soc_mtime_read m =
     (case split_read (rv32_soc_mmio_read32 RV32_SOC_MTIME_HI) (rv32_soc_mmio_read32 RV32_SOC_MTIME_LO) m of
        None \<Rightarrow> Inl NoReturn
      | Some r \<Rightarrow> bindE r (\<lambda>(high_before, low, high_after, m').
          Inr (push_bit 32 (ucast high_before) OR ucast low, m')))"

definition rv32_soc_mtimecmp_write :: "u64 \<Rightarrow> machine \<Rightarrow> bus_fault + machine" where
  "rv32_soc_mtimecmp_write compare_value m =
     bindE (rv32_soc_mmio_write32 RV32_SOC_MTIMECMP_LO 0xffffffff m) (\<lambda>m1.
     bindE (rv32_soc_mmio_write32 RV32_SOC_MTIMECMP_HI (ucast (drop_bit 32 compare_value)) m1) (\<lambda>m2.
     rv32_soc_mmio_write32 RV32_SOC_MTIMECMP_LO (ucast compare_value) m2))"

definition rv32_soc_uart_status :: "machine \<Rightarrow> bus_fault + (u32 \<times> machine)" where
  "rv32_soc_uart_status m = rv32_soc_mmio_read32 RV32_SOC_UART_STATUS m"

definition rv32_soc_uart_clear_errors :: "machine \<Rightarrow> bus_fault + machine" where
  "rv32_soc_uart_clear_errors m =
     rv32_soc_mmio_write32 RV32_SOC_UART_STATUS
       (RV32_SOC_UART_STATUS_RX_OVERRUN OR RV32_SOC_UART_STATUS_RX_FRAME) m"

definition rv32_soc_uart_putc :: "u8 \<Rightarrow> machine \<Rightarrow> bus_fault + machine" where
  "rv32_soc_uart_putc byte m = rv32_soc_mmio_write32 RV32_SOC_UART_TXDATA (ucast byte) m"

definition rv32_soc_uart_try_getc :: "machine \<Rightarrow> bus_fault + (int \<times> machine)" where
  "rv32_soc_uart_try_getc m =
     bindE (rv32_soc_uart_status m) (\<lambda>(status, m1).
       if status AND RV32_SOC_UART_STATUS_RX_VALID = 0 then Inr (-1, m1)
       else bindE (rv32_soc_mmio_read32 RV32_SOC_UART_RXDATA m1) (\<lambda>(v, m2).
         if v AND RV32_SOC_UART_RX_EMPTY \<noteq> 0 then Inr (-1, m2) else Inr (sint (v AND 0xff), m2)))"

definition rv32_soc_gpio_read :: "machine \<Rightarrow> bus_fault + (u32 \<times> machine)" where
  "rv32_soc_gpio_read m = rv32_soc_mmio_read32 RV32_SOC_GPIO_INPUT m"

definition rv32_soc_gpio_write :: "u32 \<Rightarrow> machine \<Rightarrow> bus_fault + machine" where
  "rv32_soc_gpio_write v m = rv32_soc_mmio_write32 RV32_SOC_GPIO_OUTPUT v m"

definition rv32_soc_gpio_set_output_enable :: "u32 \<Rightarrow> machine \<Rightarrow> bus_fault + machine" where
  "rv32_soc_gpio_set_output_enable msk m = rv32_soc_mmio_write32 RV32_SOC_GPIO_OE msk m"

definition rv32_soc_gpio_set :: "u32 \<Rightarrow> machine \<Rightarrow> bus_fault + machine" where
  "rv32_soc_gpio_set msk m = rv32_soc_mmio_write32 RV32_SOC_GPIO_SET msk m"

definition rv32_soc_gpio_clear :: "u32 \<Rightarrow> machine \<Rightarrow> bus_fault + machine" where
  "rv32_soc_gpio_clear msk m = rv32_soc_mmio_write32 RV32_SOC_GPIO_CLEAR msk m"

definition rv32_soc_gpio_toggle :: "u32 \<Rightarrow> machine \<Rightarrow> bus_fault + machine" where
  "rv32_soc_gpio_toggle msk m = rv32_soc_mmio_write32 RV32_SOC_GPIO_TOGGLE msk m"

text \<open>After the store the processor spins; the result is the machine it spins in.\<close>

definition rv32_soc_finish :: "u32 \<Rightarrow> machine \<Rightarrow> bus_fault + machine" where
  "rv32_soc_finish status m = rv32_soc_mmio_write32 RV32_SOC_TOHOST_ADDR status m"

section \<open>Accepted requests\<close>

lemma request_fields [simp]:
  "req_write (read_request a) = False" "req_addr (read_request a) = a" "req_wstrb (read_request a) = 0"
  "req_write (write_request a v) = True" "req_addr (write_request a v) = a" "req_wdata (write_request a v) = v"
  "req_wstrb (write_request a v) = 0xf"
  by (simp_all add: read_request_def write_request_def)

lemma word_mask [simp]: "write_byte_mask (write_request a v) = -1"
  by (simp add: write_byte_mask_def)

lemmas dev_addrs [dev_simps] =
  MTIMECMP_LO_ADDR_def MTIMECMP_HI_ADDR_def MTIME_LO_ADDR_def MTIME_HI_ADDR_def
  UART_TXDATA_ADDR_def UART_RXDATA_ADDR_def UART_STATUS_ADDR_def UART_BAUDDIV_ADDR_def
  GPIO_INPUT_ADDR_def GPIO_OUTPUT_ADDR_def GPIO_OUTPUT_ENABLE_ADDR_def GPIO_OUTPUT_SET_ADDR_def
  GPIO_OUTPUT_CLEAR_ADDR_def GPIO_OUTPUT_TOGGLE_ADDR_def

lemma targets [dev_simps]:
  "request_target 0x02004000 = TARGET_TIMER" "request_target 0x02004004 = TARGET_TIMER"
  "request_target 0x0200bff8 = TARGET_TIMER" "request_target 0x0200bffc = TARGET_TIMER"
  "request_target 0x10000000 = TARGET_UART" "request_target 0x10000004 = TARGET_UART"
  "request_target 0x10000008 = TARGET_UART" "request_target 0x1000000c = TARGET_UART"
  "request_target 0x10010000 = TARGET_GPIO" "request_target 0x10010004 = TARGET_GPIO"
  "request_target 0x10010008 = TARGET_GPIO" "request_target 0x1001000c = TARGET_GPIO"
  "request_target 0x10010010 = TARGET_GPIO" "request_target 0x10010014 = TARGET_GPIO"
  "request_target 0xfffc = TARGET_TCM"
  by (simp_all add: request_target_def)


text \<open>What an accepted request does to the devices: its target takes it, the others see a quiet clock.\<close>

abbreviation uart_quiet :: "nat \<Rightarrow> bool \<Rightarrow> uart \<Rightarrow> uart" where
  "uart_quiet clks l d \<equiv> (uart_rx clks 0 False (uart_tx clks None d))\<lparr>rx_meta_q := l, rx_sync_q := rx_meta_q d\<rparr>"

lemma uart_clock_None: "uart_clock clks l None d = (None, uart_quiet clks l d)"
  by (simp add: uart_clock_def Let_def)

lemma gpio_clock_None: "gpio_clock i None d = (None, d\<lparr>input_meta_q := i, input_sync_q := input_meta_q d\<rparr>)"
  by (simp add: gpio_clock_def Let_def)

lemma accepted:
  assumes "clock (Some q) m = (Some a, m')"
  defines "s \<equiv> soc m" and "p \<equiv> pins_at m (cycle m)" and "s' \<equiv> soc m'"
  shows "request_target (req_addr q) = TARGET_TIMER \<Longrightarrow> mtimer_clock (Some q) (timer s) = (Some a, timer s')"
    "request_target (req_addr q) \<noteq> TARGET_TIMER \<Longrightarrow> timer s' = (timer s)\<lparr>mtime_q := mtime_q (timer s) + 1\<rparr>"
    "request_target (req_addr q) = TARGET_GPIO \<Longrightarrow> gpio_clock (gpio_in_i p) (Some q) (gpio_dev s) = (Some a, gpio_dev s')"
    "request_target (req_addr q) \<noteq> TARGET_GPIO \<Longrightarrow>
       gpio_dev s' = (gpio_dev s)\<lparr>input_meta_q := gpio_in_i p, input_sync_q := input_meta_q (gpio_dev s)\<rparr>"
    "request_target (req_addr q) = TARGET_TCM \<Longrightarrow> tcm_clock (Some q) (tcm s) = (Some a, tcm s')"
    "request_target (req_addr q) \<noteq> TARGET_TCM \<Longrightarrow> tcm s' = tcm s"
    "request_target (req_addr q) = TARGET_UART \<Longrightarrow>
       uart_clock (clks_per_bit s) (uart_rx_i p) (Some q) (uart_dev s) = (Some a, uart_dev s')"
    "request_target (req_addr q) \<noteq> TARGET_UART \<Longrightarrow> uart_dev s' = uart_quiet (clks_per_bit s) (uart_rx_i p) (uart_dev s)"
    "clks_per_bit s' = clks_per_bit s"
proof -
  have c: "soc_clock p (Some q) s = (Some a, s')"
    using assms by (auto simp: clock_def split: prod.splits)
  show "request_target (req_addr q) = TARGET_TIMER \<Longrightarrow> mtimer_clock (Some q) (timer s) = (Some a, timer s')"
    "request_target (req_addr q) \<noteq> TARGET_TIMER \<Longrightarrow> timer s' = (timer s)\<lparr>mtime_q := mtime_q (timer s) + 1\<rparr>"
    "request_target (req_addr q) = TARGET_GPIO \<Longrightarrow> gpio_clock (gpio_in_i p) (Some q) (gpio_dev s) = (Some a, gpio_dev s')"
    "request_target (req_addr q) \<noteq> TARGET_GPIO \<Longrightarrow>
       gpio_dev s' = (gpio_dev s)\<lparr>input_meta_q := gpio_in_i p, input_sync_q := input_meta_q (gpio_dev s)\<rparr>"
    "request_target (req_addr q) = TARGET_TCM \<Longrightarrow> tcm_clock (Some q) (tcm s) = (Some a, tcm s')"
    "request_target (req_addr q) \<noteq> TARGET_TCM \<Longrightarrow> tcm s' = tcm s"
    "request_target (req_addr q) = TARGET_UART \<Longrightarrow>
       uart_clock (clks_per_bit s) (uart_rx_i p) (Some q) (uart_dev s) = (Some a, uart_dev s')"
    "request_target (req_addr q) \<noteq> TARGET_UART \<Longrightarrow> uart_dev s' = uart_quiet (clks_per_bit s) (uart_rx_i p) (uart_dev s)"
    "clks_per_bit s' = clks_per_bit s"
    using c by (auto simp: soc_clock_def Let_def uart_clock_None gpio_clock_None tcm_clock_def [of None]
      mtimer_clock_def [of None] split: prod.splits)
qed

text \<open>An access that does not wait, in one step: the quiet stretch \<open>m\<close> to \<open>m1\<close>, then the clock.\<close>

lemma access_at_once:
  assumes "req_addr q \<noteq> UART_TXDATA_ADDR \<or> \<not> req_write q"
  obtains a m1 m' where "mmio_access q m = (a, m')" "quiet (m\<lparr>accesses := accesses m + 1\<rparr>) m1"
    "cycle m1 = cycle m + gap m (accesses m)" "clock (Some q) m1 = (Some a, m')"
  using mmio_access_at_once [OF assms, of m] by blast

lemma after_access:
  assumes "quiet (m\<lparr>accesses := accesses m + 1\<rparr>) m1" "clock (Some q) m1 = (Some a, m')"
  shows "gap m' = gap m" "pins_at m' = pins_at m" "accesses m' = accesses m + 1" "cycle m' = cycle m1 + 1"
    "clks_per_bit (soc m') = clks_per_bit (soc m)" "cycle m \<le> cycle m1"
  using quiet_env [OF assms(1)] clock_fields [OF assms(2)] quiet_kept [OF assms(1)] accepted(9) [OF assms(2)]
  by auto

section \<open>Reading mtime\<close>

text \<open>
  The timer agrees with the clock: \<open>k\<close> is the value \<open>mtime\<close> would have had at cycle 0. No gap
  between accesses reaches \<open>2 ^ 28\<close> cycles.
\<close>

definition mt_ok :: "nat \<Rightarrow> machine \<Rightarrow> bool" where
  "mt_ok k m \<longleftrightarrow> mtime_q (timer (soc m)) = of_nat (k + cycle m) \<and> (\<forall>n. gap m n < 2 ^ 28)"

lemma mt_ok_quiet:
  assumes "mt_ok k m" "quiet (m\<lparr>accesses := accesses m + 1\<rparr>) m1"
  shows "mtime_q (timer (soc m1)) = of_nat (k + cycle m1)"
proof -
  have "cycle m \<le> cycle m1" using quiet_env [OF assms(2)] by simp
  then have "(of_nat (k + cycle m1) :: u64) = of_nat (k + cycle m) + of_nat (cycle m1 - cycle m)"
    by (simp add: of_nat_diff)
  then show ?thesis using quiet_timer [OF assms(2)] assms(1) by (simp add: mt_ok_def)
qed

lemma mmio_read_mtime:
  assumes "mt_ok k m" "ad \<in> {MTIME_HI_ADDR, MTIME_LO_ADDR}"
  shows "\<exists>c m'. rv32_soc_mmio_read32 ad m =
      Inr (if ad = MTIME_HI_ADDR then hi32 (of_nat (k + c)) else lo32 (of_nat (k + c)), m') \<and>
    mt_ok k m' \<and> cycle m \<le> c \<and> c < cycle m' \<and> cycle m' \<le> cycle m + 2 ^ 29"
proof -
  have "req_addr (read_request ad) \<noteq> UART_TXDATA_ADDR \<or> \<not> req_write (read_request ad)" by simp
  from access_at_once [OF this, of m] obtain a m1 m' where m:
    "mmio_access (read_request ad) m = (a, m')" "quiet (m\<lparr>accesses := accesses m + 1\<rparr>) m1"
    "cycle m1 = cycle m + gap m (accesses m)" "clock (Some (read_request ad)) m1 = (Some a, m')" .
  have t: "request_target (req_addr (read_request ad)) = TARGET_TIMER"
    using assms(2) by (auto simp: dev_simps)
  have q: "mtime_q (timer (soc m1)) = of_nat (k + cycle m1)" by (rule mt_ok_quiet [OF assms(1) m(2)])
  have "a = ok_response (if ad = MTIME_HI_ADDR then hi32 (of_nat (k + cycle m1)) else lo32 (of_nat (k + cycle m1)))"
    "mtime_q (timer (soc m')) = of_nat (k + cycle m1) + 1"
    using accepted(1) [OF m(4) t, symmetric] assms(2) q
    by (auto simp: mtimer_clock_def mtimer_valid_def mtimer_read_def aligned_def dev_simps split: if_splits)
  then have "rv32_soc_mmio_read32 ad m =
      Inr (if ad = MTIME_HI_ADDR then hi32 (of_nat (k + cycle m1)) else lo32 (of_nat (k + cycle m1)), m')"
    "mt_ok k m'"
    using m(1) after_access [OF m(2,4)] assms(1)
    by (auto simp: rv32_soc_mmio_read32_def ok_response_def mt_ok_def algebra_simps)
  moreover have "gap m (accesses m) < 2 ^ 28" using assms(1) by (simp add: mt_ok_def)
  ultimately show ?thesis
    using after_access [OF m(2,4)] m(3) by (intro exI [of _ "cycle m1"] exI [of _ m']) auto
qed

interpretation mt: split_counter "rv32_soc_mmio_read32 RV32_SOC_MTIME_HI" "rv32_soc_mmio_read32 RV32_SOC_MTIME_LO"
  "mt_ok k" "\<lambda>m. k + cycle m" for k
proof
  fix s assume "mt_ok k s"
  from mmio_read_mtime [OF this, of MTIME_HI_ADDR] obtain c s' where
    "rv32_soc_mmio_read32 MTIME_HI_ADDR s = Inr (hi32 (of_nat (k + c)), s')"
    "mt_ok k s'" "cycle s \<le> c" "c < cycle s'" "cycle s' \<le> cycle s + 2 ^ 29" by auto
  then show "\<exists>c s'. rv32_soc_mmio_read32 RV32_SOC_MTIME_HI s = Inr (hi32 (of_nat c), s') \<and> mt_ok k s' \<and>
      k + cycle s \<le> c \<and> c \<le> k + cycle s' \<and> k + cycle s' \<le> k + cycle s + 2 ^ 29"
    by (intro exI [of _ "k + c"] exI [of _ s']) (simp add: dev_simps)
next
  fix s assume "mt_ok k s"
  from mmio_read_mtime [OF this, of MTIME_LO_ADDR] obtain c s' where
    "rv32_soc_mmio_read32 MTIME_LO_ADDR s = Inr (lo32 (of_nat (k + c)), s')"
    "mt_ok k s'" "cycle s \<le> c" "c < cycle s'" "cycle s' \<le> cycle s + 2 ^ 29"
    by (auto simp: MTIME_HI_ADDR_def MTIME_LO_ADDR_def)
  then show "\<exists>c s'. rv32_soc_mmio_read32 RV32_SOC_MTIME_LO s = Inr (lo32 (of_nat c), s') \<and> mt_ok k s' \<and>
      k + cycle s \<le> c \<and> c \<le> k + cycle s' \<and> k + cycle s' \<le> k + cycle s + 2 ^ 29"
    by (intro exI [of _ "k + c"] exI [of _ s']) (simp add: dev_simps)
qed

end
