(* ===== verification/Soc_Access.thy ===== *)
theory Soc_Access
  imports Soc_Bsp
begin

text \<open>
  The effect of each access the drivers make: on the device it addresses, on the others, and on
  the trace of the machine.
\<close>

section \<open>What an access leaves alone\<close>

text \<open>The requests the bus accepted, oldest first.\<close>

definition bus_log :: "machine \<Rightarrow> request list" where
  "bus_log m = rev (List.map_filter fst (trace m))"

text \<open>
  \<open>passes q m m'\<close>: from \<open>m\<close> to \<open>m'\<close> the request \<open>q\<close> was accepted, last, and nothing else.
\<close>

definition passes :: "request \<Rightarrow> machine \<Rightarrow> machine \<Rightarrow> bool" where
  "passes q m m' \<longleftrightarrow> (\<exists>m1 a. quiet (m\<lparr>accesses := accesses m + 1\<rparr>) m1 \<and> clock (Some q) m1 = (Some a, m'))"

lemma access_passes: "mmio_access q m = (a, m') \<Longrightarrow> passes q m m'"
  using mmio_access_quiet unfolding passes_def by blast

lemma passes_trace:
  assumes "passes q m m'"
  shows "\<exists>ss m1. trace m' = (Some q, soc m1) # map (\<lambda>s. (None, s)) ss @ trace m \<and>
    quiet (m\<lparr>accesses := accesses m + 1\<rparr>) m1 \<and>
    (\<forall>s \<in> set ss. \<exists>mi. quiet (m\<lparr>accesses := accesses m + 1\<rparr>) mi \<and> s = soc mi)"
proof -
  from assms obtain m1 a where m1: "quiet (m\<lparr>accesses := accesses m + 1\<rparr>) m1" "clock (Some q) m1 = (Some a, m')"
    by (auto simp: passes_def)
  show ?thesis using quiet_trace [OF m1(1)] clock_fields(7) [OF m1(2)] m1(1) by auto
qed

lemma passes_log: "passes q m m' \<Longrightarrow> bus_log m' = bus_log m @ [q]"
proof -
  assume "passes q m m'"
  from passes_trace [OF this] obtain ss and m1 :: machine where
    "trace m' = (Some q, soc m1) # map (\<lambda>s. (None, s)) ss @ trace m" by blast
  moreover have "List.map_filter fst (map (\<lambda>s. (None, s)) ss @ tr) = List.map_filter fst tr"
    for tr :: "(request option \<times> soc) list"
    by (induction ss) (simp_all add: map_filter_simps)
  ultimately show ?thesis by (simp add: bus_log_def map_filter_simps)
qed

lemma passes_env:
  assumes "passes q m m'"
  shows "gap m' = gap m" "pins_at m' = pins_at m" "accesses m' = accesses m + 1"
    "clks_per_bit (soc m') = clks_per_bit (soc m)" "cycle m < cycle m'"
  using assms after_access unfolding passes_def by fastforce+

lemma passes_timer:
  assumes "passes q m m'" "request_target (req_addr q) \<noteq> TARGET_TIMER"
  shows "mtime_q (timer (soc m')) = mtime_q (timer (soc m)) + of_nat (cycle m' - cycle m)"
    "mtimecmp_q (timer (soc m')) = mtimecmp_q (timer (soc m))"
proof -
  from assms(1) obtain m1 a where m1: "quiet (m\<lparr>accesses := accesses m + 1\<rparr>) m1" "clock (Some q) m1 = (Some a, m')"
    by (auto simp: passes_def)
  have "cycle m' - cycle m = Suc (cycle m1 - cycle m)"
    using after_access [OF m1] by (simp add: Suc_diff_le)
  then show "mtime_q (timer (soc m')) = mtime_q (timer (soc m)) + of_nat (cycle m' - cycle m)"
    "mtimecmp_q (timer (soc m')) = mtimecmp_q (timer (soc m))"
    using quiet_timer [OF m1(1)] accepted(2) [OF m1(2) assms(2)] by (simp_all add: algebra_simps)
qed

lemma passes_gpio:
  assumes "passes q m m'" "request_target (req_addr q) \<noteq> TARGET_GPIO"
  shows "output_q (gpio_dev (soc m')) = output_q (gpio_dev (soc m))"
    "output_enable_q (gpio_dev (soc m')) = output_enable_q (gpio_dev (soc m))"
proof -
  from assms(1) obtain m1 a where m1: "quiet (m\<lparr>accesses := accesses m + 1\<rparr>) m1" "clock (Some q) m1 = (Some a, m')"
    by (auto simp: passes_def)
  show "output_q (gpio_dev (soc m')) = output_q (gpio_dev (soc m))"
    "output_enable_q (gpio_dev (soc m')) = output_enable_q (gpio_dev (soc m))"
    using quiet_kept [OF m1(1)] accepted(4) [OF m1(2) assms(2)] by simp_all
qed

lemma passes_tcm:
  assumes "passes q m m'" "request_target (req_addr q) \<noteq> TARGET_TCM"
  shows "tcm (soc m') = tcm (soc m)"
proof -
  from assms(1) obtain m1 a where m1: "quiet (m\<lparr>accesses := accesses m + 1\<rparr>) m1" "clock (Some q) m1 = (Some a, m')"
    by (auto simp: passes_def)
  show ?thesis using quiet_kept [OF m1(1)] accepted(6) [OF m1(2) assms(2)] by simp
qed

lemma passes_states:
  assumes "passes q m m'" "\<And>mi. quiet (m\<lparr>accesses := accesses m + 1\<rparr>) mi \<Longrightarrow> P (soc mi)"
  shows "\<exists>ts. trace m' = ts @ trace m \<and> (\<forall>(r, s) \<in> set ts. P s)"
proof -
  from passes_trace [OF assms(1)] obtain ss m1 where t:
    "trace m' = (Some q, soc m1) # map (\<lambda>s. (None, s)) ss @ trace m"
    "quiet (m\<lparr>accesses := accesses m + 1\<rparr>) m1"
    "\<forall>s \<in> set ss. \<exists>mi. quiet (m\<lparr>accesses := accesses m + 1\<rparr>) mi \<and> s = soc mi" by blast
  have "\<forall>(r, s) \<in> set ((Some q, soc m1) # map (\<lambda>s. (None, s)) ss). P s"
    using t(2,3) assms(2) by auto
  then show ?thesis using t(1) by (intro exI [of _ "(Some q, soc m1) # map (\<lambda>s. (None, s)) ss"]) simp
qed

section \<open>Stores to mtimecmp\<close>

lemma write_mtimecmp:
  assumes "ad \<in> {MTIMECMP_LO_ADDR, MTIMECMP_HI_ADDR}"
  shows "\<exists>m'. rv32_soc_mmio_write32 ad w m = Inr m' \<and> passes (write_request ad w) m m' \<and>
    mtimecmp_q (timer (soc m')) =
      (if ad = MTIMECMP_LO_ADDR then join64 (hi32 (mtimecmp_q (timer (soc m)))) w
       else join64 w (lo32 (mtimecmp_q (timer (soc m))))) \<and>
    mtime_q (timer (soc m')) = mtime_q (timer (soc m)) + of_nat (cycle m' - cycle m) \<and>
    (\<exists>ts. trace m' = ts @ trace m \<and> (\<forall>(r, s) \<in> set ts. mtimecmp_q (timer s) = mtimecmp_q (timer (soc m))))"
proof -
  let ?q = "write_request ad w"
  have "req_addr ?q \<noteq> UART_TXDATA_ADDR \<or> \<not> req_write ?q" using assms by (auto simp: dev_simps)
  from access_at_once [OF this, of m] obtain a m1 m' where m: "mmio_access ?q m = (a, m')"
    "quiet (m\<lparr>accesses := accesses m + 1\<rparr>) m1" "clock (Some ?q) m1 = (Some a, m')" .
  have t: "request_target (req_addr ?q) = TARGET_TIMER" using assms by (auto simp: dev_simps)
  have a: "a = ok_response 0 \<and> timer (soc m') = mtimer_write ad w (timer (soc m1))"
    using accepted(1) [OF m(3) t, symmetric] assms
    by (auto simp: mtimer_clock_def mtimer_valid_def mtimer_read_def aligned_def dev_simps split: if_splits)
  have c: "cycle m' - cycle m = Suc (cycle m1 - cycle m)"
    using after_access [OF m(2,3)] by (simp add: Suc_diff_le)
  have p: "passes ?q m m'" by (rule access_passes [OF m(1)])
  have "\<exists>ts. trace m' = ts @ trace m \<and> (\<forall>(r, s) \<in> set ts. mtimecmp_q (timer s) = mtimecmp_q (timer (soc m)))"
    by (rule passes_states [OF p]) (drule quiet_timer, simp)
  then show ?thesis
    using a m(1) p quiet_timer [OF m(2)] assms c
    by (intro exI [of _ m'])
       (auto simp: rv32_soc_mmio_write32_def ok_response_def mtimer_write_def dev_simps algebra_simps)
qed

text \<open>
  The three stores of \<open>rv32_soc_mtimecmp_write\<close>: between them the compare value is never below both
  the old and the new one.
\<close>

lemma mtimecmp_write_run:
  "\<exists>m' ts. rv32_soc_mtimecmp_write v m = Inr m' \<and> mtimecmp_q (timer (soc m')) = v \<and> trace m' = ts @ trace m \<and>
    (\<forall>(r, s) \<in> set ts. mtip (timer s) \<longrightarrow>
       min (mtimecmp_q (timer (soc m))) v \<le> mtime_q (timer s)) \<and>
    mtime_q (timer (soc m')) = mtime_q (timer (soc m)) + of_nat (cycle m' - cycle m) \<and>
    gap m' = gap m \<and> cycle m \<le> cycle m' \<and> pins_at m' = pins_at m \<and> clks_per_bit (soc m') = clks_per_bit (soc m)"
proof -
  let ?old = "mtimecmp_q (timer (soc m))"
  have v: "ucast (drop_bit 32 v) = hi32 v" "ucast v = lo32 v" by (simp_all add: hi32_def lo32_def)
  have up: "x \<le> join64 (hi32 x) 0xffffffff" for x
  proof -
    have "unat x mod 2 ^ 32 \<le> 2 ^ 32 - 1" by simp
    then have "unat x div 2 ^ 32 * 2 ^ 32 + unat x mod 2 ^ 32 \<le> unat x div 2 ^ 32 * 2 ^ 32 + (2 ^ 32 - 1)" by linarith
    then show ?thesis by (simp add: word_le_nat_alt unat_join64 unat_hi32 del: mod_less_divisor)
  qed
  from write_mtimecmp [of MTIMECMP_LO_ADDR "0xffffffff" m] obtain m1 ts1 where 1:
    "rv32_soc_mmio_write32 MTIMECMP_LO_ADDR 0xffffffff m = Inr m1" "passes (write_request MTIMECMP_LO_ADDR 0xffffffff) m m1"
    "mtimecmp_q (timer (soc m1)) = join64 (hi32 ?old) 0xffffffff"
    "mtime_q (timer (soc m1)) = mtime_q (timer (soc m)) + of_nat (cycle m1 - cycle m)"
    "trace m1 = ts1 @ trace m" "\<forall>(r, s) \<in> set ts1. mtimecmp_q (timer s) = ?old" by auto
  from write_mtimecmp [of MTIMECMP_HI_ADDR "hi32 v" m1] 1(3) obtain m2 ts2 where 2:
    "rv32_soc_mmio_write32 MTIMECMP_HI_ADDR (hi32 v) m1 = Inr m2" "passes (write_request MTIMECMP_HI_ADDR (hi32 v)) m1 m2"
    "mtimecmp_q (timer (soc m2)) = join64 (hi32 v) 0xffffffff"
    "mtime_q (timer (soc m2)) = mtime_q (timer (soc m1)) + of_nat (cycle m2 - cycle m1)"
    "trace m2 = ts2 @ trace m1" "\<forall>(r, s) \<in> set ts2. mtimecmp_q (timer s) = join64 (hi32 ?old) 0xffffffff"
    by (auto simp: MTIMECMP_LO_ADDR_def MTIMECMP_HI_ADDR_def)
  from write_mtimecmp [of MTIMECMP_LO_ADDR "lo32 v" m2] 2(3) obtain m3 ts3 where 3:
    "rv32_soc_mmio_write32 MTIMECMP_LO_ADDR (lo32 v) m2 = Inr m3" "passes (write_request MTIMECMP_LO_ADDR (lo32 v)) m2 m3"
    "mtimecmp_q (timer (soc m3)) = v"
    "mtime_q (timer (soc m3)) = mtime_q (timer (soc m2)) + of_nat (cycle m3 - cycle m2)"
    "trace m3 = ts3 @ trace m2" "\<forall>(r, s) \<in> set ts3. mtimecmp_q (timer s) = join64 (hi32 v) 0xffffffff" by auto
  have run: "rv32_soc_mtimecmp_write v m = Inr m3"
    using 1(1) 2(1) 3(1) by (simp add: rv32_soc_mtimecmp_write_def v dev_simps)
  have "cycle m3 - cycle m = (cycle m1 - cycle m) + (cycle m2 - cycle m1) + (cycle m3 - cycle m2)"
    using passes_env(5) [OF 1(2)] passes_env(5) [OF 2(2)] passes_env(5) [OF 3(2)] by simp
  then have t: "mtime_q (timer (soc m3)) = mtime_q (timer (soc m)) + of_nat (cycle m3 - cycle m)"
    using 1(4) 2(4) 3(4) by (simp add: algebra_simps)
  have "\<forall>(r, s) \<in> set (ts3 @ ts2 @ ts1). min ?old v \<le> mtimecmp_q (timer s)"
    using 1(6) 2(6) 3(6) up [of ?old] up [of v] by (auto simp: min_def intro: order_trans)
  then have "\<forall>(r, s) \<in> set (ts3 @ ts2 @ ts1). mtip (timer s) \<longrightarrow> min ?old v \<le> mtime_q (timer s)"
    unfolding mtip_def by (blast intro: order_trans)
  then show ?thesis
    using run 3(3) t 1(5) 2(5) 3(5) passes_env [OF 1(2)] passes_env [OF 2(2)] passes_env [OF 3(2)] by (intro exI [of _ m3] exI [of _ "ts3 @ ts2 @ ts1"]) simp
qed

section \<open>Stores to the GPIO block\<close>

lemma write_gpio:
  assumes "ad \<in> {GPIO_OUTPUT_ADDR, GPIO_OUTPUT_ENABLE_ADDR, GPIO_OUTPUT_SET_ADDR, GPIO_OUTPUT_CLEAR_ADDR,
      GPIO_OUTPUT_TOGGLE_ADDR}"
  shows "\<exists>m'. rv32_soc_mmio_write32 ad w m = Inr m' \<and> passes (write_request ad w) m m' \<and>
    output_q (gpio_dev (soc m')) =
      (let out = output_q (gpio_dev (soc m)) in
       if ad = GPIO_OUTPUT_ADDR then w else if ad = GPIO_OUTPUT_SET_ADDR then out OR w
       else if ad = GPIO_OUTPUT_CLEAR_ADDR then out AND NOT w
       else if ad = GPIO_OUTPUT_TOGGLE_ADDR then out XOR w else out) \<and>
    output_enable_q (gpio_dev (soc m')) =
      (if ad = GPIO_OUTPUT_ENABLE_ADDR then w else output_enable_q (gpio_dev (soc m)))"
proof -
  let ?q = "write_request ad w"
  have "req_addr ?q \<noteq> UART_TXDATA_ADDR \<or> \<not> req_write ?q" using assms by (auto simp: dev_simps)
  from access_at_once [OF this, of m] obtain a m1 m' where m: "mmio_access ?q m = (a, m')"
    "quiet (m\<lparr>accesses := accesses m + 1\<rparr>) m1" "clock (Some ?q) m1 = (Some a, m')" .
  have t: "request_target (req_addr ?q) = TARGET_GPIO" using assms by (auto simp: dev_simps)
  have v: "gpio_valid ?q" using assms by (auto simp: gpio_valid_def aligned_def dev_simps)
  have a: "a = ok_response 0"
    "output_q (gpio_dev (soc m')) = output_q (gpio_write ?q (gpio_dev (soc m1)))"
    "output_enable_q (gpio_dev (soc m')) = output_enable_q (gpio_write ?q (gpio_dev (soc m1)))"
    using accepted(3) [OF m(3) t, symmetric] v by (auto simp: gpio_clock_def Let_def)
  have "rv32_soc_mmio_write32 ad w m = Inr m'"
    using m(1) a(1) by (simp add: rv32_soc_mmio_write32_def ok_response_def)
  moreover have "passes ?q m m'" by (rule access_passes [OF m(1)])
  ultimately show ?thesis
    using a(2,3) quiet_kept [OF m(2)] assms
    by (intro exI [of _ m'] conjI) (auto simp: gpio_write_def Let_def dev_simps)
qed


lemma read_gpio_output:
  "\<exists>m'. rv32_soc_mmio_read32 GPIO_OUTPUT_ADDR m = Inr (output_q (gpio_dev (soc m)), m') \<and>
    passes (read_request GPIO_OUTPUT_ADDR) m m' \<and>
    output_q (gpio_dev (soc m')) = output_q (gpio_dev (soc m)) \<and>
    output_enable_q (gpio_dev (soc m')) = output_enable_q (gpio_dev (soc m))"
proof -
  let ?q = "read_request GPIO_OUTPUT_ADDR"
  have "req_addr ?q \<noteq> UART_TXDATA_ADDR \<or> \<not> req_write ?q" by simp
  from access_at_once [OF this, of m] obtain a m1 m' where m: "mmio_access ?q m = (a, m')"
    "quiet (m\<lparr>accesses := accesses m + 1\<rparr>) m1" "clock (Some ?q) m1 = (Some a, m')" .
  have t: "request_target (req_addr ?q) = TARGET_GPIO" by (simp add: dev_simps)
  have v: "gpio_valid ?q" by (simp add: gpio_valid_def aligned_def dev_simps)
  have "a = ok_response (output_q (gpio_dev (soc m1)))"
    "output_q (gpio_dev (soc m')) = output_q (gpio_dev (soc m1))"
    "output_enable_q (gpio_dev (soc m')) = output_enable_q (gpio_dev (soc m1))"
    using accepted(3) [OF m(3) t, symmetric] v
    by (auto simp: gpio_clock_def gpio_read_def Let_def dev_simps)
  then show ?thesis
    using m(1) access_passes [OF m(1)] quiet_kept [OF m(2)]
    by (intro exI [of _ m']) (simp add: rv32_soc_mmio_read32_def ok_response_def)
qed

section \<open>Accesses to the UART\<close>

lemma of_flag_bit [simp]: "n < 32 \<Longrightarrow> bit (of_flag n b) k \<longleftrightarrow> b \<and> k = n"
  by (auto simp: of_flag_def bit_simps)

lemma test_bit_mask: "n < 32 \<Longrightarrow> x AND push_bit n 1 = (0 :: u32) \<longleftrightarrow> \<not> bit x n"
  by (simp add: push_bit_eq_mult and_exp_eq_0_iff_not_bit)

lemma status_rx_valid:
  "uart_read clks UART_STATUS_ADDR d AND RV32_SOC_UART_STATUS_RX_VALID = 0 \<longleftrightarrow> \<not> rx_valid_q d"
  unfolding RV32_SOC_UART_STATUS_RX_VALID_def
  by (subst test_bit_mask) (simp_all add: uart_read_def dev_simps bit_or_iff)

lemma rxdata_empty:
  "uart_read clks UART_RXDATA_ADDR d AND RV32_SOC_UART_RX_EMPTY = 0 \<longleftrightarrow> rx_valid_q d"
  unfolding RV32_SOC_UART_RX_EMPTY_def
  by (subst test_bit_mask) (simp_all add: uart_read_def dev_simps bit_or_iff, auto simp: bit_simps dest: bit_imp_le_length)

lemma rxdata_byte: "rx_valid_q d \<Longrightarrow> uart_read clks UART_RXDATA_ADDR d AND 0xff = ucast (rx_data_q d)"
proof -
  have e: "(0xff :: u32) = mask 8" by (simp add: mask_eq_exp_minus_1)
  show "rx_valid_q d \<Longrightarrow> ?thesis"
    unfolding e
    by (rule bit_word_eqI) (auto simp: uart_read_def dev_simps of_flag_def bit_simps dest: bit_imp_le_length)
qed

lemma sint_byte: "sint (ucast (b :: u8) :: u32) = uint b"
proof -
  have "uint b < 2 ^ 8" using unsigned_less [of b] by simp
  moreover have "- (2 ^ 31) \<le> uint b" using unsigned_greater_eq [of b] by (rule order_trans [rotated]) simp
  ultimately have "signed_take_bit 31 (uint b) = uint b" by (intro signed_take_bit_int_eq_self) simp_all
  moreover have "take_bit 32 (uint b) = uint b"
    using \<open>uint b < 2 ^ 8\<close> by (intro take_bit_int_eq_self) simp_all
  ultimately show ?thesis by (simp add: sint_uint unsigned_ucast_eq)
qed

text \<open>
  The bytes of the receiver: the one it holds, and the ones it completes. A byte is complete when
  the stop bit is sampled; it is then held unless another byte is still held and not popped in the
  same clock, which is an overrun. Along a trace, newest first, \<open>delivered\<close> lists them oldest first.
\<close>

definition held :: "uart \<Rightarrow> u8 list" where
  "held d = (if rx_valid_q d then [rx_data_q d] else [])"

definition delivered1 :: "request option \<times> soc \<Rightarrow> u8 list" where
  "delivered1 x = (let d = uart_dev (snd x) in
     if rx_state_q d = RX_STOP \<and> rx_count_q d = 0 \<and>
       (\<not> rx_valid_q d \<or> fst x = Some (read_request UART_RXDATA_ADDR)) then [rx_shift_q d] else [])"

definition delivered :: "(request option \<times> soc) list \<Rightarrow> u8 list" where
  "delivered ts = concat (map delivered1 (rev ts))"

lemma delivered_simps [simp]:
  "delivered [] = []" "delivered (x # ts) = delivered ts @ delivered1 x"
  "delivered (ts @ ts') = delivered ts' @ delivered ts"
  by (simp_all add: delivered_def)

text \<open>In a clock of the receiver no byte is lost and none appears twice.\<close>

lemma uart_rx_bytes:
  assumes "pop \<longrightarrow> rx_valid_q d"
  shows "held d @ (if rx_state_q d = RX_STOP \<and> rx_count_q d = 0 \<and> (\<not> rx_valid_q d \<or> pop) then [rx_shift_q d] else []) =
    (if pop then [rx_data_q d] else []) @ held (uart_rx clks c pop d)"
  using assms by (cases "rx_state_q d") (auto simp: uart_rx_def held_def Let_def)

lemma held_sync [simp]: "held (d\<lparr>rx_meta_q := x, rx_sync_q := y\<rparr>) = held d"
  by (simp add: held_def)

lemma held_tx [simp]: "held (uart_tx clks l d) = held d"
  by (simp add: held_def)

lemma quiet_bytes:
  "quiet m m' \<Longrightarrow> \<exists>ss. trace m' = map (\<lambda>s. (None, s)) ss @ trace m \<and>
     held (uart_dev (soc m)) @ delivered (map (\<lambda>s. (None, s)) ss) = held (uart_dev (soc m'))"
proof (induction rule: quiet.induct)
  case (quiet_refl m)
  show ?case by (intro exI [of _ "[]"]) simp
next
  case (quiet_step m m1 r m2)
  then obtain ss where ss: "trace m1 = map (\<lambda>s. (None, s)) ss @ trace m"
    "held (uart_dev (soc m)) @ delivered (map (\<lambda>s. (None, s)) ss) = held (uart_dev (soc m1))" by blast
  let ?d = "uart_tx (clks_per_bit (soc m1)) None (uart_dev (soc m1))"
  have "held (uart_dev (soc m1)) @ delivered1 (None, soc m1) = held (uart_dev (soc m2))"
    using uart_rx_bytes [of False ?d "clks_per_bit (soc m1)" 0]
    by (auto simp: refused(7) [OF quiet_clock_soc [OF quiet_step.hyps(2)]] delivered1_def Let_def split: if_splits)
  then show ?case
    using clock_fields(7) [OF quiet_step.hyps(2)] ss
    by (intro exI [of _ "soc m1 # ss"]) (simp flip: append_assoc)
qed

text \<open>A load from the UART: \<open>m1\<close> is the machine in whose clock it is accepted.\<close>

lemma read_uart:
  assumes "ad \<in> {UART_STATUS_ADDR, UART_RXDATA_ADDR}"
  shows "\<exists>m1 m'. rv32_soc_mmio_read32 ad m = Inr (uart_read (clks_per_bit (soc m)) ad (uart_dev (soc m1)), m') \<and>
    passes (read_request ad) m m' \<and> quiet (m\<lparr>accesses := accesses m + 1\<rparr>) m1 \<and>
    (\<exists>ss. trace m' = (Some (read_request ad), soc m1) # map (\<lambda>s. (None, s)) ss @ trace m \<and>
       held (uart_dev (soc m)) @ delivered (map (\<lambda>s. (None, s)) ss) = held (uart_dev (soc m1))) \<and>
    held (uart_dev (soc m1)) @ delivered1 (Some (read_request ad), soc m1) =
      (if ad = UART_RXDATA_ADDR then held (uart_dev (soc m1)) else []) @ held (uart_dev (soc m')) \<and>
    (ad = UART_STATUS_ADDR \<longrightarrow> rx_valid_q (uart_dev (soc m1)) \<longrightarrow>
       rx_valid_q (uart_dev (soc m')) \<and> rx_data_q (uart_dev (soc m')) = rx_data_q (uart_dev (soc m1)))"
proof -
  let ?q = "read_request ad"
  have "req_addr ?q \<noteq> UART_TXDATA_ADDR \<or> \<not> req_write ?q" by simp
  from access_at_once [OF this, of m] obtain a m1 m' where m: "mmio_access ?q m = (a, m')"
    "quiet (m\<lparr>accesses := accesses m + 1\<rparr>) m1" "clock (Some ?q) m1 = (Some a, m')" .
  have t: "request_target (req_addr ?q) = TARGET_UART" using assms by (auto simp: dev_simps)
  have v: "uart_valid ?q" "uart_ready ?q (uart_dev (soc m1))"
    using assms by (auto simp: uart_valid_def uart_ready_def uart_write_shape_def aligned_def dev_simps)
  have c: "clks_per_bit (soc m1) = clks_per_bit (soc m)" using quiet_kept [OF m(2)] by simp
  have a: "a = ok_response (uart_read (clks_per_bit (soc m)) ad (uart_dev (soc m1)))"
    using accepted(7) [OF m(3) t, symmetric] v c by (auto simp: uart_clock_def Let_def)
  have "rx_valid_q (uart_dev (soc m')) \<and> rx_data_q (uart_dev (soc m')) = rx_data_q (uart_dev (soc m1))"
    if "ad = UART_STATUS_ADDR" "rx_valid_q (uart_dev (soc m1))"
  proof -
    have "\<not> (req_addr ?q = UART_RXDATA_ADDR)" using that by (simp add: dev_simps)
    then show ?thesis
      using accepted(7) [OF m(3) t, symmetric] v that uart_rx_keeps_byte [of False]
      by (auto simp: uart_clock_def Let_def)
  qed
  moreover have "trace m' = (Some ?q, soc m1) # trace m1" using clock_fields(7) [OF m(3)] by simp
  moreover obtain ss where "trace m1 = map (\<lambda>s. (None, s)) ss @ trace m"
    "held (uart_dev (soc m)) @ delivered (map (\<lambda>s. (None, s)) ss) = held (uart_dev (soc m1))"
    using quiet_bytes [OF m(2)] by auto
  moreover have "held (uart_dev (soc m1)) @ delivered1 (Some ?q, soc m1) =
      (if ad = UART_RXDATA_ADDR then held (uart_dev (soc m1)) else []) @ held (uart_dev (soc m'))"
  proof -
    let ?c = "clks_per_bit (soc m1)" and ?pop = "ad = UART_RXDATA_ADDR \<and> rx_valid_q (uart_dev (soc m1))"
    have "held (uart_dev (soc m')) = held (uart_rx ?c 0 ?pop (uart_tx ?c None (uart_dev (soc m1))))"
      using accepted(7) [OF m(3) t, symmetric] v by (auto simp: uart_clock_def Let_def)
    then show ?thesis
      using uart_rx_bytes [of ?pop "uart_tx ?c None (uart_dev (soc m1))" ?c 0]
      by (auto simp: delivered1_def Let_def held_def read_request_def split: if_splits)
  qed
  moreover have "rv32_soc_mmio_read32 ad m = Inr (uart_read (clks_per_bit (soc m)) ad (uart_dev (soc m1)), m')"
    using m(1) a by (simp add: rv32_soc_mmio_read32_def ok_response_def)
  ultimately show ?thesis using access_passes [OF m(1)] m(2) by (intro exI [of _ m1] exI [of _ m']) auto
qed

text \<open>Polling for a byte: the status load decides, and the data load pops.\<close>

lemma try_getc_run:
  "\<exists>r m' ts. rv32_soc_uart_try_getc m = Inr (r, m') \<and> trace m' = ts @ trace m \<and>
    (if r = -1
     then (\<exists>s. hd ts = (Some (read_request UART_STATUS_ADDR), s) \<and> \<not> rx_valid_q (uart_dev s)) \<and>
       bus_log m' = bus_log m @ [read_request UART_STATUS_ADDR]
     else (\<exists>s. hd ts = (Some (read_request UART_RXDATA_ADDR), s) \<and> rx_valid_q (uart_dev s) \<and>
         r = uint (rx_data_q (uart_dev s))) \<and>
       bus_log m' = bus_log m @ [read_request UART_STATUS_ADDR, read_request UART_RXDATA_ADDR]) \<and>
    (rx_valid_q (uart_dev (soc m)) \<longrightarrow> r = uint (rx_data_q (uart_dev (soc m)))) \<and>
    held (uart_dev (soc m)) @ delivered ts = (if r = -1 then [] else [of_int r]) @ held (uart_dev (soc m'))"
proof -
  from read_uart [of UART_STATUS_ADDR m] obtain n1 m1 ss1 where 1:
    "rv32_soc_mmio_read32 UART_STATUS_ADDR m = Inr (uart_read (clks_per_bit (soc m)) UART_STATUS_ADDR (uart_dev (soc n1)), m1)"
    "passes (read_request UART_STATUS_ADDR) m m1" "quiet (m\<lparr>accesses := accesses m + 1\<rparr>) n1"
    "trace m1 = (Some (read_request UART_STATUS_ADDR), soc n1) # map (\<lambda>s. (None, s)) ss1 @ trace m"
    "rx_valid_q (uart_dev (soc n1)) \<longrightarrow>
       rx_valid_q (uart_dev (soc m1)) \<and> rx_data_q (uart_dev (soc m1)) = rx_data_q (uart_dev (soc n1))"
    "held (uart_dev (soc m)) @ delivered (map (\<lambda>s. (None, s)) ss1) = held (uart_dev (soc n1))"
    "held (uart_dev (soc n1)) @ delivered1 (Some (read_request UART_STATUS_ADDR), soc n1) = held (uart_dev (soc m1))"
    by (auto simp: dev_simps)
  have b1: "held (uart_dev (soc m)) @ delivered ((Some (read_request UART_STATUS_ADDR), soc n1) # map (\<lambda>s. (None, s)) ss1) =
      held (uart_dev (soc m1))" using 1(6,7) by (simp flip: append_assoc)
  have keep: "rx_valid_q (uart_dev (soc m)) \<Longrightarrow>
      rx_valid_q (uart_dev (soc n1)) \<and> rx_data_q (uart_dev (soc n1)) = rx_data_q (uart_dev (soc m))"
    using quiet_byte [OF 1(3)] by simp
  have A: "RV32_SOC_UART_STATUS = UART_STATUS_ADDR" "RV32_SOC_UART_RXDATA = UART_RXDATA_ADDR"
    by (simp_all add: dev_simps)
  show ?thesis
  proof (cases "rx_valid_q (uart_dev (soc n1))")
    case False
    then have "rv32_soc_uart_try_getc m = Inr (-1, m1)"
      using 1(1) by (simp add: rv32_soc_uart_try_getc_def rv32_soc_uart_status_def A status_rx_valid)
    then show ?thesis
      using False keep 1(4) b1 passes_log [OF 1(2)]
      by (intro exI [of _ "-1"] exI [of _ m1] exI [of _ "(Some (read_request UART_STATUS_ADDR), soc n1) # map (\<lambda>s. (None, s)) ss1"]) auto
  next
    case True
    from read_uart [of UART_RXDATA_ADDR m1] obtain n2 m2 ss2 where 2:
      "rv32_soc_mmio_read32 UART_RXDATA_ADDR m1 = Inr (uart_read (clks_per_bit (soc m1)) UART_RXDATA_ADDR (uart_dev (soc n2)), m2)"
      "passes (read_request UART_RXDATA_ADDR) m1 m2" "quiet (m1\<lparr>accesses := accesses m1 + 1\<rparr>) n2"
      "trace m2 = (Some (read_request UART_RXDATA_ADDR), soc n2) # map (\<lambda>s. (None, s)) ss2 @ trace m1"
      "held (uart_dev (soc m1)) @ delivered (map (\<lambda>s. (None, s)) ss2) = held (uart_dev (soc n2))"
      "held (uart_dev (soc n2)) @ delivered1 (Some (read_request UART_RXDATA_ADDR), soc n2) =
         held (uart_dev (soc n2)) @ held (uart_dev (soc m2))" by auto
    have v: "rx_valid_q (uart_dev (soc n2))" "rx_data_q (uart_dev (soc n2)) = rx_data_q (uart_dev (soc n1))"
      using quiet_byte [OF 2(3)] 1(5) True by simp_all
    let ?r = "uint (rx_data_q (uart_dev (soc n2)))"
    have "rv32_soc_uart_try_getc m = Inr (?r, m2)"
      using 1(1) 2(1) v True rxdata_empty [of "clks_per_bit (soc m1)" "uart_dev (soc n2)"]
      by (simp add: rv32_soc_uart_try_getc_def rv32_soc_uart_status_def A status_rx_valid rxdata_byte sint_byte)
    moreover have "0 \<le> ?r" by simp
    then have "?r \<noteq> -1" by linarith
    moreover have "held (uart_dev (soc n2)) = [of_int ?r]" using v(1) by (simp add: held_def)
    then have "held (uart_dev (soc m)) @ delivered ((Some (read_request UART_RXDATA_ADDR), soc n2) # map (\<lambda>s. (None, s)) ss2 @
          (Some (read_request UART_STATUS_ADDR), soc n1) # map (\<lambda>s. (None, s)) ss1) = [of_int ?r] @ held (uart_dev (soc m2))"
      using b1 2(5,6) by (simp del: append_Cons append_Nil flip: append_assoc)
    ultimately show ?thesis
      using keep v 1(4) 2(4) passes_log [OF 1(2)] passes_log [OF 2(2)]
      by (intro exI [of _ ?r] exI [of _ m2] exI [of _ "(Some (read_request UART_RXDATA_ADDR), soc n2) # map (\<lambda>s. (None, s)) ss2 @
          (Some (read_request UART_STATUS_ADDR), soc n1) # map (\<lambda>s. (None, s)) ss1"]) auto
  qed
qed

text \<open>A store to \<^verbatim>\<open>TXDATA\<close> waits until the transmitter is free and then starts the frame.\<close>

lemma write_txdata:
  "\<exists>m1 m'. rv32_soc_mmio_write32 UART_TXDATA_ADDR w m = Inr m' \<and>
    passes (write_request UART_TXDATA_ADDR w) m m' \<and> quiet (m\<lparr>accesses := accesses m + 1\<rparr>) m1 \<and>
    \<not> tx_busy_q (uart_dev (soc m1)) \<and>
    (\<exists>ss. trace m' = (Some (write_request UART_TXDATA_ADDR w), soc m1) # map (\<lambda>s. (None, s)) ss @ trace m) \<and>
    tx_busy_q (uart_dev (soc m')) \<and> tx_shift_q (uart_dev (soc m')) = tx_frame (ucast w) \<and>
    tx_bit_q (uart_dev (soc m')) = 0 \<and> tx_count_q (uart_dev (soc m')) = clks_per_bit (soc m) - 1"
proof -
  let ?q = "write_request UART_TXDATA_ADDR w"
  obtain a m' where "mmio_access ?q m = (a, m')" by (cases "mmio_access ?q m")
  from mmio_access_quiet [OF this] obtain m1 where m: "mmio_access ?q m = (a, m')"
    "quiet (m\<lparr>accesses := accesses m + 1\<rparr>) m1" "clock (Some ?q) m1 = (Some a, m')"
    using \<open>mmio_access ?q m = (a, m')\<close> by blast
  have t: "request_target (req_addr ?q) = TARGET_UART" by (simp add: dev_simps)
  have v: "uart_valid ?q" by (simp add: uart_valid_def uart_write_shape_def aligned_def dev_simps)
  have c: "clks_per_bit (soc m1) = clks_per_bit (soc m)" using quiet_kept [OF m(2)] by simp
  have r: "uart_ready ?q (uart_dev (soc m1))"
    using accepted(7) [OF m(3) t] by (auto simp: uart_clock_def Let_def split: if_splits)
  then have b: "\<not> tx_busy_q (uart_dev (soc m1))"
    by (simp add: uart_ready_def uart_write_shape_def aligned_def dev_simps)
  have a: "a = ok_response 0"
    "tx_busy_q (uart_dev (soc m')) \<and> tx_shift_q (uart_dev (soc m')) = tx_frame (ucast w) \<and>
     tx_bit_q (uart_dev (soc m')) = 0 \<and> tx_count_q (uart_dev (soc m')) = clks_per_bit (soc m) - 1"
    using accepted(7) [OF m(3) t, symmetric] v r c by (auto simp: uart_clock_def Let_def uart_tx_def)
  moreover have "trace m' = (Some ?q, soc m1) # trace m1" using clock_fields(7) [OF m(3)] by simp
  moreover obtain ss where "trace m1 = map (\<lambda>s. (None, s)) ss @ trace m" using quiet_trace [OF m(2)] by auto
  moreover have "rv32_soc_mmio_write32 UART_TXDATA_ADDR w m = Inr m'"
    using m(1) a(1) by (simp add: rv32_soc_mmio_write32_def ok_response_def)
  ultimately show ?thesis using access_passes [OF m(1)] m(2) b by (intro exI [of _ m1] exI [of _ m']) auto
qed

lemma txdata_cycles:
  assumes "rv32_soc_mmio_write32 UART_TXDATA_ADDR w m = Inr m'"
  shows "cycle m' \<le> cycle (idle (gap m (accesses m)) m) + tx_left (clks_per_bit (soc m)) (uart_dev (soc m)) + 1"
proof -
  let ?m = "idle (gap m (accesses m)) (m\<lparr>accesses := accesses m + 1\<rparr>)"
  obtain a where "issue (write_request UART_TXDATA_ADDR w) ?m = (a, m')"
    using assms by (auto simp: rv32_soc_mmio_write32_def mmio_access_def split: prod.splits if_splits)
  from issue_cycle [OF this] have
    "cycle m' \<le> cycle m + gap m (accesses m) + tx_left (clks_per_bit (soc ?m)) (uart_dev (soc ?m)) + 1"
    by (simp add: idle_cycle)
  moreover have "tx_left (clks_per_bit (soc m2)) (uart_dev (soc m2)) \<le> tx_left (clks_per_bit (soc m1)) (uart_dev (soc m1))"
    if "quiet m1 m2" for m1 m2
    using that
  proof (induction rule: quiet.induct)
    case (quiet_step ma mb r mc)
    have "tx_left c (uart_tx c None d) \<le> tx_left c d" for c d
      using uart_tx_None_left [of d c] by (cases "tx_busy_q d") (auto simp: uart_tx_def tx_left_def)
    moreover have "tx_left (clks_per_bit (soc mc)) (uart_dev (soc mc)) =
        tx_left (clks_per_bit (soc mb)) (uart_tx (clks_per_bit (soc mb)) None (uart_dev (soc mb)))"
      using refused(6,7) [OF quiet_clock_soc [OF quiet_step.hyps(2)]] by (simp add: tx_left_def)
    ultimately show ?case using quiet_step.IH order_trans by metis
  qed simp
  ultimately show ?thesis using quiet_idle [of "m\<lparr>accesses := accesses m + 1\<rparr>" "gap m (accesses m)"]
    by (fastforce simp: idle_cycle)
qed


section \<open>Stores to the memory\<close>

lemma tcm_write_word: "tcm_write (write_request a w) m = store32 a w m"
  by (simp add: tcm_write_def store32_def bit_simps)

lemma tcm_target:
  assumes "a < 0x10000"
  shows "request_target a = TARGET_TCM"
proof -
  have ne: "(a XOR b) AND 0xffff0000 \<noteq> 0" if "b AND 0xffff0000 = b" "b \<noteq> 0" for b :: u32
  proof -
    have "a AND 0xffff0000 = 0"
    proof -
      have e: "(0xffff0000 :: u32) = NOT (mask 16)" by (simp add: mask_eq_exp_minus_1)
      have "unat a < 2 ^ 16" using assms by (simp add: word_less_nat_alt)
      then have "take_bit 16 a = a"
        by (simp add: word_unat_eq_iff unsigned_take_bit_eq take_bit_nat_eq_self)
      then have "a AND NOT (mask 16) = (a AND mask 16) AND NOT (mask 16)" by (simp add: take_bit_eq_mask)
      then show ?thesis unfolding e by (simp add: and.assoc)
    qed
    then have "(a XOR b) AND 0xffff0000 = b" using that by (simp add: bit.conj_xor_distrib2)
    then show ?thesis using that by simp
  qed
  show ?thesis
    using ne [of "0x02000000"] ne [of "0x10000000"] ne [of "0x10010000"] by (simp add: request_target_def)
qed

lemma write_tcm:
  assumes "a < 0x10000" "a AND 3 = 0"
  shows "\<exists>m'. rv32_soc_mmio_write32 a w m = Inr m' \<and> passes (write_request a w) m m' \<and>
    tcm (soc m') = store32 a w (tcm (soc m))"
proof -
  let ?q = "write_request a w"
  have t: "request_target (req_addr ?q) = TARGET_TCM" using tcm_target [OF assms(1)] by simp
  have "req_addr ?q \<noteq> UART_TXDATA_ADDR \<or> \<not> req_write ?q" using assms(1) by (auto simp: dev_simps)
  from access_at_once [OF this, of m] obtain r m1 m' where m: "mmio_access ?q m = (r, m')"
    "quiet (m\<lparr>accesses := accesses m + 1\<rparr>) m1" "clock (Some ?q) m1 = (Some r, m')" .
  have "r = ok_response (load32 (tcm (soc m1)) a) \<and> tcm (soc m') = store32 a w (tcm (soc m1))"
    using accepted(5) [OF m(3) t, symmetric] assms
    by (simp add: tcm_clock_def tcm_in_range_def aligned_def tcm_write_word)
  then show ?thesis
    using m(1) access_passes [OF m(1)] quiet_kept [OF m(2)]
    by (intro exI [of _ m']) (auto simp: rv32_soc_mmio_write32_def ok_response_def)
qed

lemma write_status:
  "\<exists>m'. rv32_soc_mmio_write32 UART_STATUS_ADDR w m = Inr m' \<and> passes (write_request UART_STATUS_ADDR w) m m'"
proof -
  let ?q = "write_request UART_STATUS_ADDR w"
  have "req_addr ?q \<noteq> UART_TXDATA_ADDR \<or> \<not> req_write ?q" by (simp add: dev_simps)
  from access_at_once [OF this, of m] obtain a m1 m' where m: "mmio_access ?q m = (a, m')"
    "quiet (m\<lparr>accesses := accesses m + 1\<rparr>) m1" "clock (Some ?q) m1 = (Some a, m')" .
  have t: "request_target (req_addr ?q) = TARGET_UART" by (simp add: dev_simps)
  have "uart_valid ?q" "uart_ready ?q (uart_dev (soc m1))"
    by (simp_all add: uart_valid_def uart_ready_def uart_write_shape_def aligned_def dev_simps)
  then have "a = ok_response 0" using accepted(7) [OF m(3) t, symmetric] by (auto simp: uart_clock_def Let_def)
  then show ?thesis
    using m(1) access_passes [OF m(1)] by (auto simp: rv32_soc_mmio_write32_def ok_response_def)
qed

end
