(* ===== verification/Soc_Uart.thy ===== *)
theory Soc_Uart
  imports Soc_Access
begin

text \<open>
  The serial line: what the transmitter puts on it once it has accepted a byte, and what the
  receiver makes of a line that carries a frame at the same rate.
\<close>

section \<open>The frame\<close>

text \<open>Start bit, eight data bits with the least significant first, stop bit.\<close>

definition frame_level :: "u8 \<Rightarrow> nat \<Rightarrow> bool" where
  "frame_level b i \<longleftrightarrow> i = 9 \<or> 1 \<le> i \<and> bit b (i - 1)"

lemma tx_frame_bit: "i < 10 \<Longrightarrow> bit (tx_frame b) i \<longleftrightarrow> frame_level b i"
proof -
  assume i: "i < 10"
  have "(0x200 :: 10 word) = push_bit 9 1" by simp
  then have "bit (0x200 :: 10 word) i \<longleftrightarrow> i = 9" using i by (simp only: bit_simps) auto
  moreover have "bit (push_bit 1 (ucast b :: 10 word)) i \<longleftrightarrow> 1 \<le> i \<and> bit b (i - 1)"
    by (simp only: bit_push_bit_iff bit_unsigned_iff) (use i in \<open>auto dest: bit_imp_le_length\<close>)
  ultimately show ?thesis by (simp only: tx_frame_def frame_level_def bit_or_iff)
qed

lemma shift_out:
  fixes x :: "10 word"
  shows "n < 10 \<Longrightarrow> bit (((\<lambda>x. 0x200 OR drop_bit 1 x) ^^ i) x) n \<longleftrightarrow> (n + i < 10 \<longrightarrow> bit x (n + i))"
proof (induction i arbitrary: n)
  case (Suc i)
  have "(0x200 :: 10 word) = push_bit 9 1" by simp
  then have "bit (0x200 :: 10 word) n \<longleftrightarrow> n = 9" using Suc.prems by (simp only: bit_simps) auto
  then show ?case
    using Suc.IH [of "Suc n"] Suc.prems by (cases "n = 9") (auto simp: bit_or_iff bit_drop_bit_eq)
qed simp

section \<open>Transmitting\<close>

definition tx_at :: "nat \<Rightarrow> u8 \<Rightarrow> nat \<Rightarrow> uart \<Rightarrow> bool" where
  "tx_at clks b k d \<longleftrightarrow> tx_busy_q d \<and> tx_bit_q d = of_nat (k div clks) \<and> tx_count_q d = clks - 1 - k mod clks \<and>
     tx_shift_q d = ((\<lambda>x. 0x200 OR drop_bit 1 x) ^^ (k div clks)) (tx_frame b)"

lemma next_count:
  fixes k clks :: nat
  assumes "0 < clks"
  shows "Suc k mod clks = (if k mod clks = clks - 1 then 0 else Suc (k mod clks))"
    "Suc k div clks = (if k mod clks = clks - 1 then Suc (k div clks) else k div clks)"
  using assms by (auto simp: mod_Suc div_Suc)

lemma tx_at_step:
  assumes "0 < clks" "tx_at clks b k d" "Suc k < 10 * clks"
  shows "tx_at clks b (Suc k) (uart_tx clks None d)"
proof (cases "k mod clks = clks - 1")
  case True
  have "Suc k div clks < 10" using assms(1,3) by (simp add: less_mult_imp_div_less)
  then have "k div clks < 9" using next_count [OF assms(1), of k] True by simp
  then have "(of_nat (k div clks) :: 4 word) \<noteq> 9"
    by (simp add: word_unat_eq_iff unat_of_nat take_bit_nat_eq_self)
  then show ?thesis
    using assms True next_count [OF assms(1), of k] by (simp add: tx_at_def uart_tx_def add.commute)
next
  case False
  have "k mod clks < clks" using assms(1) by simp
  then have "clks - 1 - k mod clks \<noteq> 0" using False by linarith
  then show ?thesis
    using assms False next_count [OF assms(1), of k] by (simp add: tx_at_def uart_tx_def)
qed

lemma tx_at_line: "tx_at clks b k d \<Longrightarrow> k div clks < 10 \<Longrightarrow> uart_line d \<longleftrightarrow> frame_level b (k div clks)"
  using shift_out [of 0 "k div clks" "tx_frame b"] tx_frame_bit [of "k div clks" b] by (simp add: tx_at_def uart_line_def)

lemma tx_at_end:
  assumes "0 < clks" "tx_at clks b (10 * clks - 1) d"
  shows "\<not> tx_busy_q (uart_tx clks None d)"
proof -
  have k: "10 * clks - 1 = clks - 1 + 9 * clks" using assms(1) by simp
  have "(10 * clks - 1) mod clks = clks - 1" "(10 * clks - 1) div clks = 9"
    using assms(1) by (simp_all only: k mod_mult_self1 div_mult_self1) simp_all
  then show ?thesis using assms by (simp add: tx_at_def uart_tx_def)
qed

lemma tx_run:
  assumes "0 < clks" "tx_at clks b 0 d" "\<And>j. j < k \<Longrightarrow> tx_at clks b j (f j) \<Longrightarrow> Suc j < 10 * clks \<Longrightarrow> tx_at clks b (Suc j) (f (Suc j))"
    "f 0 = d" "k < 10 * clks"
  shows "tx_at clks b k (f k)"
proof -
  have "j \<le> k \<Longrightarrow> tx_at clks b j (f j)" for j
  proof (induction j)
    case 0
    then show ?case using assms(2,4) by simp
  next
    case (Suc j)
    then show ?case using assms(3) [of j] assms(5) by simp
  qed
  then show ?thesis by simp
qed

lemma tx_at_fields:
  "tx_busy_q d' = tx_busy_q d \<Longrightarrow> tx_bit_q d' = tx_bit_q d \<Longrightarrow> tx_count_q d' = tx_count_q d \<Longrightarrow>
   tx_shift_q d' = tx_shift_q d \<Longrightarrow> tx_at clks b k d' = tx_at clks b k d"
  by (simp add: tx_at_def)

lemma idle_uart: "uart_dev (soc (idle (Suc k) m)) =
    uart_quiet (clks_per_bit (soc m)) (uart_rx_i (pins_at m (cycle m + k))) (uart_dev (soc (idle k m)))"
proof -
  let ?m = "idle k m"
  have s: "idle (Suc k) m = snd (clock None ?m)" by (simp add: idle_def)
  have c: "clock None ?m = (None, idle (Suc k) m)" unfolding s using clock_None [of ?m] by (metis prod.collapse)
  have e: "pins_at ?m = pins_at m" "clks_per_bit (soc ?m) = clks_per_bit (soc m)"
    using quiet_env [OF quiet_idle [of m k]] quiet_kept [OF quiet_idle [of m k]] by simp_all
  show ?thesis using refused(7) [OF quiet_clock_soc [OF c]] e by (simp add: idle_cycle)
qed

lemma idle_tx:
  assumes "0 < clks_per_bit (soc m)" "tx_at (clks_per_bit (soc m)) b 0 (uart_dev (soc m))" "k < 10 * clks_per_bit (soc m)"
  shows "tx_at (clks_per_bit (soc m)) b k (uart_dev (soc (idle k m)))"
proof (rule tx_run [OF assms(1,2) _ _ assms(3)])
  fix j assume "tx_at (clks_per_bit (soc m)) b j (uart_dev (soc (idle j m)))" "Suc j < 10 * clks_per_bit (soc m)"
  from tx_at_step [OF assms(1) this] show "tx_at (clks_per_bit (soc m)) b (Suc j) (uart_dev (soc (idle (Suc j) m)))"
    unfolding idle_uart by (subst tx_at_fields) simp_all
qed (simp add: idle_def)

section \<open>Receiving\<close>

text \<open>The receiver after \<open>j\<close> clocks on a line whose level in clock \<open>j\<close> is \<open>l j\<close>.\<close>

fun rx_run :: "nat \<Rightarrow> (nat \<Rightarrow> bool) \<Rightarrow> uart \<Rightarrow> nat \<Rightarrow> uart" where
  "rx_run clks l d 0 = d"
| "rx_run clks l d (Suc j) = uart_quiet clks (l j) (rx_run clks l d j)"

declare rx_run.simps(2) [simp del]

lemma rx_run_sync: "rx_sync_q (rx_run clks l d (Suc (Suc j))) = l j"
  by (simp add: rx_run.simps(2))

definition rx_at :: "rx_state \<Rightarrow> nat \<Rightarrow> nat \<Rightarrow> u8 \<Rightarrow> uart \<Rightarrow> uart \<Rightarrow> bool" where
  "rx_at st c i sh d0 d \<longleftrightarrow> rx_state_q d = st \<and> rx_count_q d = c \<and> rx_bit_q d = of_nat i \<and> rx_shift_q d = sh \<and>
     rx_valid_q d = rx_valid_q d0 \<and> rx_overrun_q d = rx_overrun_q d0 \<and> rx_frame_error_q d = rx_frame_error_q d0"

lemma rx_wait:
  assumes "st \<in> {RX_START, RX_DATA, RX_STOP}" "rx_at st (Suc c) i sh d0 (rx_run clks l d j)"
  shows "rx_at st c i sh d0 (rx_run clks l d (Suc j))"
  using assms by (auto simp: rx_at_def rx_run.simps(2) uart_rx_def Let_def)

lemma rx_waits:
  assumes "st \<in> {RX_START, RX_DATA, RX_STOP}" "rx_at st c i sh d0 (rx_run clks l d j)"
  shows "rx_at st 0 i sh d0 (rx_run clks l d (j + c))"
  using assms(2)
proof (induction c arbitrary: j)
  case (Suc c)
  from Suc.IH [OF rx_wait [OF assms(1) Suc.prems]] show ?case by simp
qed simp

definition rx_bits :: "u8 \<Rightarrow> u8 \<Rightarrow> nat \<Rightarrow> u8" where
  "rx_bits b sh i = (b AND mask i) OR (sh AND NOT (mask i))"

lemma rx_bits_step:
  "i < 8 \<Longrightarrow> (if bit b i then set_bit i (rx_bits b sh i) else unset_bit i (rx_bits b sh i)) = rx_bits b sh (Suc i)"
  by (rule bit_word_eqI)
     (auto simp: rx_bits_def bit_simps bit_set_bit_iff bit_unset_bit_iff less_Suc_eq)

lemma rx_data_step:
  assumes "rx_at RX_DATA 0 i (rx_bits b sh i) d0 (rx_run clks l d j)" "i < 8"
    "rx_sync_q (rx_run clks l d j) = bit b i"
  shows "rx_at (if i = 7 then RX_STOP else RX_DATA) (clks - 1) (if i = 7 then 7 else Suc i) (rx_bits b sh (Suc i)) d0
    (rx_run clks l d (Suc j))"
proof -
  have "unat (of_nat i :: 3 word) = i" "(of_nat i :: 3 word) = 7 \<longleftrightarrow> i = 7"
    using assms(2) by (simp_all add: word_unat_eq_iff unat_of_nat take_bit_nat_eq_self)
  then show ?thesis
    using assms rx_bits_step [OF assms(2), of b sh] by (auto simp: rx_at_def rx_run.simps(2) uart_rx_def Let_def add.commute)
qed

lemma rx_data_loop:
  assumes "0 < clks" "rx_at RX_DATA (clks - 1) 0 sh d0 (rx_run clks l d (Suc j))"
    "\<And>i. i < 8 \<Longrightarrow> rx_sync_q (rx_run clks l d (j + Suc i * clks)) = bit b i"
  shows "i < 8 \<Longrightarrow> rx_at RX_DATA 0 i (rx_bits b sh i) d0 (rx_run clks l d (j + Suc i * clks))"
proof (induction i)
  case 0
  have "rx_bits b sh 0 = sh" by (simp add: rx_bits_def)
  moreover have "Suc j + (clks - 1) = j + Suc 0 * clks" using assms(1) by simp
  ultimately show ?case using rx_waits [OF _ assms(2)] by simp
next
  case (Suc i)
  then have "rx_at RX_DATA 0 i (rx_bits b sh i) d0 (rx_run clks l d (j + Suc i * clks))" by simp
  from rx_data_step [OF this _ assms(3)] Suc.prems
  have "rx_at RX_DATA (clks - 1) (Suc i) (rx_bits b sh (Suc i)) d0 (rx_run clks l d (Suc (j + Suc i * clks)))" by simp
  from rx_waits [OF _ this] have "rx_at RX_DATA 0 (Suc i) (rx_bits b sh (Suc i)) d0
      (rx_run clks l d (Suc (j + Suc i * clks) + (clks - 1)))" by simp
  moreover have "Suc (j + Suc i * clks) + (clks - 1) = j + Suc (Suc i) * clks" using assms(1) by simp
  ultimately show ?case by (simp only:)
qed

lemma rx_frame:
  assumes "2 \<le> clks" "rx_state_q d = RX_IDLE" "rx_sync_q d" "rx_meta_q d" "\<not> rx_valid_q d"
    and level: "\<And>j. j < 10 * clks \<Longrightarrow> l j \<longleftrightarrow> frame_level b (j div clks)"
  defines "d' \<equiv> rx_run clks l d (3 + clks div 2 + 9 * clks)"
  shows "rx_valid_q d' \<and> rx_data_q d' = b \<and> rx_state_q d' = RX_IDLE \<and> rx_overrun_q d' = rx_overrun_q d \<and>
    rx_frame_error_q d' = rx_frame_error_q d"
proof -
  let ?h = "clks div 2" and ?U = "rx_run clks l d"
  have h: "0 < ?h" "?h < clks" using assms(1) by simp_all
  have low: "j < clks \<Longrightarrow> \<not> l j" for j using level [of j] by (simp add: frame_level_def)
  have dat: "l (?h + Suc i * clks) = bit b i" if "i < 8" for i
  proof -
    have "(?h + Suc i * clks) div clks = Suc i + ?h div clks" using h by (intro div_mult_self1) simp
    moreover have "Suc i * clks \<le> 8 * clks" using that by (intro mult_le_mono1) simp
    then have "?h + Suc i * clks < 10 * clks" using h by linarith
    ultimately show ?thesis using level [of "?h + Suc i * clks"] that h by (simp add: frame_level_def)
  qed
  have sync: "rx_sync_q (?U (2 + j)) = l j" for j using rx_run_sync [of clks l d j] by simp
  let ?i = "unat (rx_bit_q d)" and ?sh = "rx_shift_q d"
  have u2: "rx_at RX_IDLE (rx_count_q d) ?i ?sh d (?U 2)"
    using assms(2,3,4) by (simp add: numeral_2_eq_2 rx_run.simps(2) rx_at_def uart_rx_def Let_def)
  have "rx_at RX_START (?h - 1) ?i ?sh d (?U (Suc 2))"
    using u2 sync [of 0] low [of 0] assms(1)
    unfolding rx_run.simps(2) by (simp add: rx_at_def uart_rx_def Let_def uart_half_bit_def)
  from rx_waits [OF _ this] have "rx_at RX_START 0 ?i ?sh d (?U (Suc 2 + (?h - 1)))" by simp
  moreover have e: "Suc 2 + (?h - 1) = 2 + ?h" using h by simp
  ultimately have u: "rx_at RX_START 0 ?i ?sh d (?U (2 + ?h))" by (simp only:)
  have start: "rx_at RX_DATA (clks - 1) 0 ?sh d (?U (Suc (2 + ?h)))"
    using u sync [of ?h] low [OF h(2)]
    unfolding rx_run.simps(2) by (simp add: rx_at_def uart_rx_def Let_def)
  have "rx_sync_q (?U (2 + ?h + Suc i * clks)) = bit b i" if "i < 8" for i
    using sync [of "?h + Suc i * clks"] dat [OF that] by (simp only: add.assoc)
  from rx_data_loop [OF _ start this, where i = 7] assms(1)
  have seven: "rx_at RX_DATA 0 7 (rx_bits b ?sh 7) d (?U (2 + ?h + Suc 7 * clks))" by simp
  have "rx_sync_q (?U (2 + ?h + Suc 7 * clks)) = bit b 7"
    using sync [of "?h + Suc 7 * clks"] dat [of 7] by (simp only: add.assoc)
  from rx_data_step [OF seven _ this]
  have "rx_at RX_STOP (clks - 1) 7 (rx_bits b ?sh 8) d (?U (Suc (2 + ?h + Suc 7 * clks)))" by simp
  from rx_waits [OF _ this] have
    "rx_at RX_STOP 0 7 (rx_bits b ?sh 8) d (?U (Suc (2 + ?h + Suc 7 * clks) + (clks - 1)))" by simp
  moreover have "Suc (2 + ?h + Suc 7 * clks) + (clks - 1) = 2 + (?h + 9 * clks)" using assms(1) by simp
  ultimately have stop: "rx_at RX_STOP 0 7 (rx_bits b ?sh 8) d (?U (2 + (?h + 9 * clks)))" by (simp only:)
  have "(?h + 9 * clks) div clks = 9 + ?h div clks" using h by (intro div_mult_self1) simp
  then have "rx_sync_q (?U (2 + (?h + 9 * clks)))"
    using sync [of "?h + 9 * clks"] level [of "?h + 9 * clks"] h by (simp add: frame_level_def)
  moreover have "rx_bits b ?sh 8 = b" by (rule bit_word_eqI) (simp add: rx_bits_def bit_simps)
  moreover have "d' = ?U (Suc (2 + (?h + 9 * clks)))"
    unfolding d'_def by (rule arg_cong [where f = ?U]) simp
  ultimately show ?thesis
    using stop assms(5) by (simp only: rx_run.simps(2)) (simp add: rx_at_def uart_rx_def Let_def)
qed


lemma tx_loaded: "tx_at clks b 0 (uart_tx clks (Some b) d)"
  by (simp add: tx_at_def uart_tx_def)

lemma quiet_run_tx:
  assumes "0 < clks" "tx_at clks b 0 d" "k < 10 * clks"
  shows "tx_at clks b k (rx_run clks l d k)"
proof (rule tx_run [OF assms(1,2) _ _ assms(3)])
  fix j assume "tx_at clks b j (rx_run clks l d j)" "Suc j < 10 * clks"
  from tx_at_step [OF assms(1) this] show "tx_at clks b (Suc j) (rx_run clks l d (Suc j))"
    unfolding rx_run.simps(2) by (subst tx_at_fields) simp_all
qed simp

lemma sent_level:
  assumes "0 < clks" "k < 10 * clks"
  shows "uart_line (rx_run clks l (uart_tx clks (Some b) d) k) \<longleftrightarrow> frame_level b (k div clks)"
  using tx_at_line [OF quiet_run_tx [OF assms(1) tx_loaded assms(2)]] assms by (simp add: less_mult_imp_div_less)

end
