(* ===== verification/Soc_Claims.thy ===== *)
theory Soc_Claims
  imports Soc_Uart
begin

text \<open>
  The properties of the board support package: what each driver does to the devices, whatever
  time passes between its accesses, and that no driver access faults.
\<close>

section \<open>A machine out of reset\<close>

definition reset_machine :: machine where
  "reset_machine = \<lparr>soc = \<lparr>timer = mtimer_reset, gpio_dev = gpio_reset, uart_dev = uart_reset, tcm = \<lambda>_. 0,
       clks_per_bit = 651\<rparr>,
     cycle = 0, pins_at = \<lambda>_. \<lparr>gpio_in_i = 0, uart_rx_i = True\<rparr>, gap = \<lambda>_. 5, accesses = 0, trace = []\<rparr>"

text \<open>A machine whose receiver holds a byte.\<close>

definition byte_machine :: machine where
  "byte_machine = reset_machine\<lparr>soc := (soc reset_machine)\<lparr>uart_dev := uart_reset\<lparr>rx_valid_q := True, rx_data_q := 0x41\<rparr>\<rparr>\<rparr>"

lemma reset_mt_ok: "mt_ok 0 reset_machine"
  by (simp add: mt_ok_def reset_machine_def mtimer_reset_def)

section \<open>The timer\<close>

text \<open>C21. \<open>rv32_soc_mtime_read\<close> returns, after at most two rounds of its loop, the 64-bit value \<open>mtime\<close>
  has at one moment during the call, however the low half wraps between the three loads. The
  hypothesis says that the timer counts clocks from \<open>k\<close> on and that the processor is never away
  for \<open>2 ^ 28\<close> clocks (more than three seconds at 75 MHz) between two loads.\<close>

theorem mtime_read_is_now:
  assumes "mt_ok k m"
  shows "\<exists>c m'. rv32_soc_mtime_read m = Inr (of_nat c, m') \<and> k + cycle m \<le> c \<and> c \<le> k + cycle m' \<and>
    mt_ok k m' \<and> cycle m' \<le> cycle m + 6 * 2 ^ 29"
proof -
  have j: "push_bit 32 (ucast h) OR ucast l = join64 h l" for h l by (simp add: join64_def)
  from mt.read_is_now [OF assms] obtain c m' where
    "split_read (rv32_soc_mmio_read32 RV32_SOC_MTIME_HI) (rv32_soc_mmio_read32 RV32_SOC_MTIME_LO) m =
       Some (Inr (hi32 (of_nat c), lo32 (of_nat c), hi32 (of_nat c), m'))"
    "mt_ok k m'" "k + cycle m \<le> c" "c \<le> k + cycle m'" "k + cycle m' \<le> k + cycle m + 6 * 2 ^ 29" by blast
  then show ?thesis
    by (intro exI [of _ c] exI [of _ m']) (simp add: rv32_soc_mtime_read_def j)
qed

theorem mtime_read_is_now_witness:
  "\<exists>c m'. rv32_soc_mtime_read reset_machine = Inr (of_nat c, m') \<and> c \<le> cycle m'"
  using mtime_read_is_now [OF reset_mt_ok] by auto

text \<open>C22. \<open>rv32_soc_mtimecmp_write\<close> sets the 64-bit compare value and raises no spurious timer
  interrupt on the way: in every clock cycle of the call, if the interrupt line is up, then
  \<open>mtime\<close> has reached the old compare value or the new one. Nothing but the two halves of
  \<open>mtimecmp\<close> is written.\<close>

theorem mtimecmp_write_no_glitch:
  "\<exists>m' ts. rv32_soc_mtimecmp_write v m = Inr m' \<and> mtimecmp_q (timer (soc m')) = v \<and> trace m' = ts @ trace m \<and>
    (\<forall>(r, s) \<in> set ts. mtip (timer s) \<longrightarrow>
       min (mtimecmp_q (timer (soc m))) v \<le> mtime_q (timer s)) \<and>
    mtime_q (timer (soc m')) = mtime_q (timer (soc m)) + of_nat (cycle m' - cycle m)"
  using mtimecmp_write_run [of v m] by blast

theorem mtimecmp_write_no_glitch_witness:
  "\<exists>m'. rv32_soc_mtimecmp_write 75000 reset_machine = Inr m' \<and> mtimecmp_q (timer (soc m')) = 75000"
  using mtimecmp_write_no_glitch [of 75000 reset_machine] by blast

section \<open>General-purpose output\<close>

text \<open>The GPIO drivers change exactly the pins of their mask: \<open>set\<close> drives them high, \<open>clear\<close> low,
  \<open>toggle\<close> inverts them, \<open>write\<close> replaces the latch, and toggling twice restores it. Each is one
  store, so no other access can come between reading and writing the latch, and none touches the
  output enables.\<close>

lemma gpio_drivers_change_their_pins:
  "\<exists>m1 m2 m3 m4. rv32_soc_gpio_set msk m = Inr m1 \<and> rv32_soc_gpio_clear msk m = Inr m2 \<and>
    rv32_soc_gpio_toggle msk m = Inr m3 \<and> rv32_soc_gpio_toggle msk m3 = Inr m4 \<and>
    (\<forall>n < 32. (bit (output_q (gpio_dev (soc m1))) n \<longleftrightarrow> bit msk n \<or> bit (output_q (gpio_dev (soc m))) n) \<and>
      (bit (output_q (gpio_dev (soc m2))) n \<longleftrightarrow> \<not> bit msk n \<and> bit (output_q (gpio_dev (soc m))) n) \<and>
      (bit (output_q (gpio_dev (soc m3))) n \<longleftrightarrow> bit msk n \<noteq> bit (output_q (gpio_dev (soc m))) n)) \<and>
    output_q (gpio_dev (soc m4)) = output_q (gpio_dev (soc m)) \<and>
    (\<forall>m' \<in> {m1, m2, m3}. length (bus_log m') = Suc (length (bus_log m)) \<and>
       output_enable_q (gpio_dev (soc m')) = output_enable_q (gpio_dev (soc m)))"
proof -
  let ?o = "output_q (gpio_dev (soc m))"
  from write_gpio [of GPIO_OUTPUT_SET_ADDR msk m] obtain m1 where 1: "rv32_soc_gpio_set msk m = Inr m1"
    "passes (write_request GPIO_OUTPUT_SET_ADDR msk) m m1" "output_q (gpio_dev (soc m1)) = ?o OR msk"
    "output_enable_q (gpio_dev (soc m1)) = output_enable_q (gpio_dev (soc m))"
    by (auto simp: rv32_soc_gpio_set_def dev_simps)
  from write_gpio [of GPIO_OUTPUT_CLEAR_ADDR msk m] obtain m2 where 2: "rv32_soc_gpio_clear msk m = Inr m2"
    "passes (write_request GPIO_OUTPUT_CLEAR_ADDR msk) m m2" "output_q (gpio_dev (soc m2)) = ?o AND NOT msk"
    "output_enable_q (gpio_dev (soc m2)) = output_enable_q (gpio_dev (soc m))"
    by (auto simp: rv32_soc_gpio_clear_def dev_simps)
  have tog: "\<exists>m'. rv32_soc_gpio_toggle msk n = Inr m' \<and> passes (write_request GPIO_OUTPUT_TOGGLE_ADDR msk) n m' \<and>
    output_q (gpio_dev (soc m')) = output_q (gpio_dev (soc n)) XOR msk \<and>
    output_enable_q (gpio_dev (soc m')) = output_enable_q (gpio_dev (soc n))" for n
    using write_gpio [of GPIO_OUTPUT_TOGGLE_ADDR msk n] by (auto simp: rv32_soc_gpio_toggle_def dev_simps)
  from tog [of m] obtain m3 where 3: "rv32_soc_gpio_toggle msk m = Inr m3"
    "passes (write_request GPIO_OUTPUT_TOGGLE_ADDR msk) m m3" "output_q (gpio_dev (soc m3)) = ?o XOR msk"
    "output_enable_q (gpio_dev (soc m3)) = output_enable_q (gpio_dev (soc m))" by blast
  from tog [of m3] obtain m4 where 4: "rv32_soc_gpio_toggle msk m3 = Inr m4"
    "output_q (gpio_dev (soc m4)) = (?o XOR msk) XOR msk" using 3(3) by auto
  have "(?o XOR msk) XOR msk = ?o" by (simp add: xor.assoc)
  then show ?thesis
    using 1 2 3 4 passes_log [OF 1(2)] passes_log [OF 2(2)] passes_log [OF 3(2)]
    by (intro exI [of _ m1] exI [of _ m2] exI [of _ m3] exI [of _ m4]) (auto simp: bit_simps)
qed

section \<open>The UART\<close>

text \<open>C30. \<open>rv32_soc_uart_try_getc\<close> takes every received byte exactly once: it returns \<open>-1\<close> only if at
  the moment of the status load no byte was held, and then does not load the data register (so
  no byte is lost); otherwise its last access pops the byte it returns. A byte held when the call
  begins is the byte returned. Exactly once: the byte held when the call begins, followed by the
  bytes the receiver completes during it, are the byte returned, followed by the one held when it
  ends, so a byte returned is gone from the receiver and the next call cannot return it again. The
  test of \<^verbatim>\<open>RX_EMPTY\<close> after the pop never fires.\<close>

theorem try_getc_takes_bytes_once:
  "\<exists>r m' ts. rv32_soc_uart_try_getc m = Inr (r, m') \<and> trace m' = ts @ trace m \<and>
    (if r = -1
     then (\<exists>s. hd ts = (Some (read_request UART_STATUS_ADDR), s) \<and> \<not> rx_valid_q (uart_dev s)) \<and>
       bus_log m' = bus_log m @ [read_request UART_STATUS_ADDR]
     else (\<exists>s. hd ts = (Some (read_request UART_RXDATA_ADDR), s) \<and> rx_valid_q (uart_dev s) \<and>
         r = uint (rx_data_q (uart_dev s))) \<and>
       bus_log m' = bus_log m @ [read_request UART_STATUS_ADDR, read_request UART_RXDATA_ADDR]) \<and>
    (rx_valid_q (uart_dev (soc m)) \<longrightarrow> r = uint (rx_data_q (uart_dev (soc m)))) \<and>
    held (uart_dev (soc m)) @ delivered ts = (if r = -1 then [] else [of_int r]) @ held (uart_dev (soc m'))"
  by (rule try_getc_run)

theorem try_getc_takes_bytes_once_witness:
  "\<exists>m' ts. rv32_soc_uart_try_getc byte_machine = Inr (0x41, m') \<and> delivered ts = held (uart_dev (soc m'))"
proof -
  have "rx_valid_q (uart_dev (soc byte_machine))" "rx_data_q (uart_dev (soc byte_machine)) = 0x41"
    "held (uart_dev (soc byte_machine)) = [0x41]" by (simp_all add: byte_machine_def held_def)
  then show ?thesis using try_getc_takes_bytes_once [of byte_machine] by auto
qed


text \<open>C31. \<open>rv32_soc_uart_putc\<close> sends its byte: it waits no longer than the frame under way takes, its one
  store is accepted when the transmitter is free, and from then on the serial line carries the
  start bit, the eight data bits with the least significant first and the stop bit, each for
  the clocks of one bit, after which the transmitter is free again.\<close>

theorem putc_sends_its_byte:
  assumes "0 < clks_per_bit (soc m)"
  shows "\<exists>m'. rv32_soc_uart_putc b m = Inr m' \<and>
    bus_log m' = bus_log m @ [write_request UART_TXDATA_ADDR (ucast b)] \<and>
    cycle m' \<le> cycle m + gap m (accesses m) + tx_left (clks_per_bit (soc m)) (uart_dev (soc m)) + 1 \<and>
    (\<forall>k < 10 * clks_per_bit (soc m). uart_line (uart_dev (soc (idle k m'))) = frame_level b (k div clks_per_bit (soc m))) \<and>
    \<not> tx_busy_q (uart_dev (soc (idle (10 * clks_per_bit (soc m)) m')))"
proof -
  let ?c = "clks_per_bit (soc m)"
  from write_txdata [of "ucast b" m] obtain m' where m':
    "rv32_soc_mmio_write32 UART_TXDATA_ADDR (ucast b) m = Inr m'"
    "passes (write_request UART_TXDATA_ADDR (ucast b)) m m'"
    "tx_busy_q (uart_dev (soc m')) \<and> tx_shift_q (uart_dev (soc m')) = tx_frame (ucast (ucast b :: u32)) \<and>
     tx_bit_q (uart_dev (soc m')) = 0 \<and> tx_count_q (uart_dev (soc m')) = ?c - 1" by blast
  have c: "clks_per_bit (soc m') = ?c" by (rule passes_env(4) [OF m'(2)])
  have "(ucast (ucast b :: u32) :: u8) = b" by (rule bit_word_eqI) (simp add: bit_simps)
  then have t: "tx_at (clks_per_bit (soc m')) b 0 (uart_dev (soc m'))" using m'(3) c by (simp add: tx_at_def)
  have k: "tx_at ?c b k (uart_dev (soc (idle k m')))" if "k < 10 * ?c" for k
    using idle_tx [OF _ t, of k] assms c that by simp
  have "uart_line (uart_dev (soc (idle k m'))) = frame_level b (k div ?c)" if "k < 10 * ?c" for k
    using tx_at_line [OF k [OF that]] that by (simp add: less_mult_imp_div_less)
  moreover have "\<not> tx_busy_q (uart_dev (soc (idle (Suc (10 * ?c - 1)) m')))"
    unfolding idle_uart c using tx_at_end [OF assms k] assms by simp
  then have "\<not> tx_busy_q (uart_dev (soc (idle (10 * ?c) m')))" using assms by simp
  moreover have "rv32_soc_uart_putc b m = Inr m'"
    using m'(1) by (simp add: rv32_soc_uart_putc_def dev_simps)
  ultimately show ?thesis
    using txdata_cycles [OF m'(1)] passes_log [OF m'(2)] by (intro exI [of _ m']) (simp add: idle_cycle)
qed

theorem putc_sends_its_byte_witness:
  "\<exists>m'. rv32_soc_uart_putc 0x55 reset_machine = Inr m' \<and> \<not> tx_busy_q (uart_dev (soc (idle 6510 m')))"
  using putc_sends_its_byte [of reset_machine "0x55"] by (auto simp: reset_machine_def)

text \<open>C32. The serial round trip: a receiver that is idle on an idle line, and to which the line brings
  what a transmitter of the same rate puts on it after loading a byte, holds exactly that byte
  when the stop bit has been sampled, in the middle of the tenth bit, with no overrun and no
  framing error added.\<close>

theorem uart_roundtrip:
  assumes "2 \<le> clks"
    and "rx_state_q r = RX_IDLE" and "rx_sync_q r" and "rx_meta_q r" and "\<not> rx_valid_q r"
  shows "let line = (\<lambda>j. uart_line (rx_run clks x (uart_tx clks (Some b) s) j));
      r' = rx_run clks line r (3 + clks div 2 + 9 * clks)
    in rx_valid_q r' \<and> rx_data_q r' = b \<and> rx_state_q r' = RX_IDLE \<and>
      rx_overrun_q r' = rx_overrun_q r \<and> rx_frame_error_q r' = rx_frame_error_q r"
  unfolding Let_def
  by (rule rx_frame [OF assms]) (use assms(1) in \<open>simp add: sent_level\<close>)

theorem uart_roundtrip_witness:
  "rx_data_q (rx_run 4 (\<lambda>j. uart_line (rx_run 4 (\<lambda>_. True) (uart_tx 4 (Some 0xa5) uart_reset) j)) uart_reset 41) = 0xa5"
  using uart_roundtrip [of 4 uart_reset "\<lambda>_. True" "0xa5" uart_reset] by (simp add: uart_reset_def Let_def)

section \<open>The end of a program\<close>

text \<open>\<open>rv32_soc_finish\<close> reports its status: the word at \<^verbatim>\<open>tohost\<close> holds it, by one word store to the
  address the simulation and the FPGA wrapper watch, and no device register changes.\<close>

lemma finish_reports_status:
  "\<exists>m'. rv32_soc_finish status m = Inr m' \<and> tcm (soc m') = store32 RV32_SOC_TOHOST_ADDR status (tcm (soc m)) \<and>
    load32 (tcm (soc m')) RV32_SOC_TOHOST_ADDR = status \<and>
    bus_log m' = bus_log m @ [write_request RV32_SOC_TOHOST_ADDR status] \<and>
    mtimecmp_q (timer (soc m')) = mtimecmp_q (timer (soc m)) \<and>
    output_q (gpio_dev (soc m')) = output_q (gpio_dev (soc m))"
proof -
  have a: "RV32_SOC_TOHOST_ADDR < 0x10000" "RV32_SOC_TOHOST_ADDR AND 3 = 0" by (simp_all add: dev_simps)
  from write_tcm [OF a, of status m] obtain m' where m':
    "rv32_soc_mmio_write32 RV32_SOC_TOHOST_ADDR status m = Inr m'"
    "passes (write_request RV32_SOC_TOHOST_ADDR status) m m'"
    "tcm (soc m') = store32 RV32_SOC_TOHOST_ADDR status (tcm (soc m))" by blast
  have "request_target (req_addr (write_request RV32_SOC_TOHOST_ADDR status)) = TARGET_TCM" by (simp add: dev_simps)
  then show ?thesis
    using m' passes_log [OF m'(2)] passes_timer(2) [OF m'(2)] passes_gpio(1) [OF m'(2)]
    by (intro exI [of _ m']) (simp add: rv32_soc_finish_def load32_store32)
qed

end
