(* ===== verification/Cm_Port.thy ===== *)
theory Cm_Port
  imports Runtime Split_Counter "HOL-Library.Sublist"
begin

text \<open>
  The CoreMark port, \<^verbatim>\<open>sw/coremark/core_portme.c\<close> with \<^verbatim>\<open>core_portme.h\<close>: the 64-bit counters
  read through the CSRs of the processor, the captured output of \<^verbatim>\<open>ee_printf\<close> and the report
  that decides whether a run passed. A \<^verbatim>\<open>const char *\<close> is the list of the characters from the
  pointer up to the terminating NUL, which is the end of the list.
\<close>

section \<open>Types and constants of core\_portme.h\<close>

type_synonym ee_u8 = u8
type_synonym ee_s16 = u16
type_synonym ee_u16 = u16
type_synonym ee_s32 = u32
type_synonym ee_u32 = u32
type_synonym ee_ptr_int = u32
type_synonym CORE_TICKS = ee_u32

definition sizeof :: "'a::len word \<Rightarrow> nat" where
  "sizeof x = LENGTH('a) div 8"

definition align_mem :: "u32 \<Rightarrow> u32" where
  "align_mem x = 4 + ((x - 1) AND NOT 3)"

record core_portable =
  portable_id :: ee_u8

section \<open>The report\<close>

definition COREMARK_REPORT_MAGIC :: u32 where "COREMARK_REPORT_MAGIC = 0x434d524b"
definition COREMARK_REPORT_VERSION :: u32 where "COREMARK_REPORT_VERSION = 1"
definition COREMARK_CLOCK_HZ :: u32 where "COREMARK_CLOCK_HZ = 75000000"
definition COREMARK_RUN_PERFORMANCE :: u32 where "COREMARK_RUN_PERFORMANCE = 0"
definition COREMARK_RUN_VALIDATION :: u32 where "COREMARK_RUN_VALIDATION = 1"

record coremark_report_t =
  magic :: u32
  version :: u32
  run_type :: u32
  clock_hz :: u32
  iterations :: u32
  cycles_lo :: u32
  cycles_hi :: u32
  instructions_lo :: u32
  instructions_hi :: u32
  seedcrc :: u32
  crclist :: u32
  crcmatrix :: u32
  crcstate :: u32
  crcfinal :: u32
  valid :: u32
  errors :: u32

text \<open>\<open>put_word i\<close> is the store to the \<open>i\<close>-th word of the report.\<close>

fun put_word :: "nat \<Rightarrow> u32 \<Rightarrow> coremark_report_t \<Rightarrow> coremark_report_t" where
  "put_word i v r = [r\<lparr>magic := v\<rparr>, r\<lparr>version := v\<rparr>, r\<lparr>run_type := v\<rparr>, r\<lparr>clock_hz := v\<rparr>, r\<lparr>iterations := v\<rparr>,
     r\<lparr>cycles_lo := v\<rparr>, r\<lparr>cycles_hi := v\<rparr>, r\<lparr>instructions_lo := v\<rparr>, r\<lparr>instructions_hi := v\<rparr>, r\<lparr>seedcrc := v\<rparr>,
     r\<lparr>crclist := v\<rparr>, r\<lparr>crcmatrix := v\<rparr>, r\<lparr>crcstate := v\<rparr>, r\<lparr>crcfinal := v\<rparr>, r\<lparr>valid := v\<rparr>, r\<lparr>errors := v\<rparr>] ! i"

definition report_words :: nat where "report_words = 16"

text \<open>The seeds, with and without \<^verbatim>\<open>VALIDATION_RUN\<close>, and the \<^verbatim>\<open>ITERATIONS\<close> of the build.\<close>

definition seed1_volatile :: "bool \<Rightarrow> ee_s32" where
  "seed1_volatile VALIDATION_RUN = (if VALIDATION_RUN then 0x3415 else 0)"
definition seed2_volatile :: "bool \<Rightarrow> ee_s32" where
  "seed2_volatile VALIDATION_RUN = (if VALIDATION_RUN then 0x3415 else 0)"
definition seed3_volatile :: "bool \<Rightarrow> ee_s32" where
  "seed3_volatile VALIDATION_RUN = (if VALIDATION_RUN then 0x66 else 0x66)"
definition seed4_volatile :: "ee_s32 \<Rightarrow> ee_s32" where
  "seed4_volatile ITERATIONS = ITERATIONS"
definition seed5_volatile :: ee_s32 where "seed5_volatile = 0"
definition default_num_contexts :: ee_u32 where "default_num_contexts = 1"

section \<open>The counters of the processor\<close>

text \<open>
  \<open>mcycle\<close> counts clock cycles and \<open>minstret\<close> counts retired instructions, 64 bits each, of which
  a CSR instruction reads one half. \<open>cycles\<close> and \<open>instret\<close> are the counts since reset, which the
  programs never write; \<open>elapse n\<close> is what passes before the \<open>n\<close>-th read.
\<close>

record hart =
  cycles :: nat
  instret :: nat
  csr_reads :: nat
  elapse :: "nat \<Rightarrow> nat \<times> nat"

definition mcycle_q :: "hart \<Rightarrow> u64" where "mcycle_q h = of_nat (cycles h)"
definition minstret_q :: "hart \<Rightarrow> u64" where "minstret_q h = of_nat (instret h)"

definition pass :: "hart \<Rightarrow> hart" where
  "pass h = h\<lparr>cycles := cycles h + fst (elapse h (csr_reads h)),
              instret := instret h + snd (elapse h (csr_reads h)), csr_reads := csr_reads h + 1\<rparr>"

definition csrr :: "(hart \<Rightarrow> u32) \<Rightarrow> hart \<Rightarrow> unit + (u32 \<times> hart)" where
  "csrr v h = (let h' = pass h in Inr (v h', h'))"

definition mcycle :: "hart \<Rightarrow> u32" where "mcycle h = lo32 (mcycle_q h)"
definition mcycleh :: "hart \<Rightarrow> u32" where "mcycleh h = hi32 (mcycle_q h)"
definition minstret :: "hart \<Rightarrow> u32" where "minstret h = lo32 (minstret_q h)"
definition minstreth :: "hart \<Rightarrow> u32" where "minstreth h = hi32 (minstret_q h)"

text \<open>The value is \<open>None\<close> if the loop does not end.\<close>

definition read_counter :: "u32 \<Rightarrow> u32 \<Rightarrow> hart \<Rightarrow> (u64 \<times> hart) option" where
  "read_counter low_csr high_csr h =
     (case split_read (csrr (if low_csr = 0xb00 then mcycleh else minstreth))
                      (csrr (if low_csr = 0xb00 then mcycle else minstret)) h of
        Some (Inr (high_before, low, high_after, h')) \<Rightarrow>
          Some (push_bit 32 (ucast high_after) OR ucast low, h')
      | _ \<Rightarrow> None)"

definition read_mcycle64 :: "hart \<Rightarrow> (u64 \<times> hart) option" where
  "read_mcycle64 h = read_counter 0xb00 0xb80 h"

definition read_minstret64 :: "hart \<Rightarrow> (u64 \<times> hart) option" where
  "read_minstret64 h = read_counter 0xb02 0xb82 h"

section \<open>Text\<close>

fun text_equal :: "string \<Rightarrow> string \<Rightarrow> bool" where
  "text_equal (l # left) (r # right) = (if l = r then text_equal left right else False)"
| "text_equal (l # left) [] = False"
| "text_equal [] right = (right = [])"

text \<open>The inner loop of \<open>text_contains\<close>: what is left of the needle after the common prefix.\<close>

fun match_rest :: "string \<Rightarrow> string \<Rightarrow> string" where
  "match_rest (c # candidate) (n # needle) = (if c = n then match_rest candidate needle else n # needle)"
| "match_rest candidate needle = needle"

fun text_contains :: "string \<Rightarrow> string \<Rightarrow> bool" where
  "text_contains [] needle = False"
| "text_contains (c # text) needle =
     (if match_rest (c # text) needle = [] then True else text_contains text needle)"

section \<open>The port\<close>

record cm =
  coremark_report :: coremark_report_t
  start_cycle :: u64
  stop_cycle :: u64
  start_instret :: u64
  stop_instret :: u64
  cpu :: hart

definition on_report :: "(coremark_report_t \<Rightarrow> coremark_report_t) \<Rightarrow> cm \<Rightarrow> cm" where
  "on_report f s = s\<lparr>coremark_report := f (coremark_report s)\<rparr>"

definition start_time :: "cm \<Rightarrow> cm option" where
  "start_time s =
     (case read_minstret64 (cpu s) of None \<Rightarrow> None
      | Some (i, h1) \<Rightarrow>
          (case read_mcycle64 h1 of None \<Rightarrow> None
           | Some (c, h2) \<Rightarrow> Some (s\<lparr>start_instret := i, start_cycle := c, cpu := h2\<rparr>)))"

definition stop_time :: "cm \<Rightarrow> cm option" where
  "stop_time s =
     (case read_mcycle64 (cpu s) of None \<Rightarrow> None
      | Some (c, h1) \<Rightarrow>
          (case read_minstret64 h1 of None \<Rightarrow> None
           | Some (i, h2) \<Rightarrow>
               let s1 = s\<lparr>stop_cycle := c, stop_instret := i, cpu := h2\<rparr>;
                   dc = stop_cycle s1 - start_cycle s1; di = stop_instret s1 - start_instret s1
               in Some (on_report (\<lambda>r. r\<lparr>cycles_lo := ucast dc, cycles_hi := ucast (drop_bit 32 dc),
                    instructions_lo := ucast di, instructions_hi := ucast (drop_bit 32 di)\<rparr>) s1)))"

definition get_time :: "cm \<Rightarrow> CORE_TICKS" where
  "get_time s = ucast (stop_cycle s - start_cycle s)"

definition time_in_secs :: "CORE_TICKS \<Rightarrow> ee_u32" where
  "time_in_secs ticks = ticks div COREMARK_CLOCK_HZ"

text \<open>
  \<open>va_arg\<close> takes the next of the variable arguments, each one word under the ILP32 ABI; taking
  more than were passed is undefined and has the value \<open>None\<close>.
\<close>

definition va_arg :: "u32 list \<Rightarrow> (u32 \<times> u32 list) option" where
  "va_arg args = (case args of [] \<Rightarrow> None | a # rest \<Rightarrow> Some (a, rest))"

definition second_arg :: "u32 list \<Rightarrow> u32 option" where
  "second_arg args =
     (case va_arg args of None \<Rightarrow> None
      | Some (_, rest) \<Rightarrow> (case va_arg rest of None \<Rightarrow> None | Some (a, _) \<Rightarrow> Some a))"

definition capture :: "string \<Rightarrow> u32 list \<Rightarrow> coremark_report_t \<Rightarrow> coremark_report_t option" where
  "capture fmt args r =
     (if text_equal fmt ''Total ticks      : %lu\<newline>'' then map_option (\<lambda>(a, _). r\<lparr>cycles_lo := a\<rparr>) (va_arg args)
      else if text_equal fmt ''Iterations       : %lu\<newline>'' then map_option (\<lambda>(a, _). r\<lparr>iterations := a\<rparr>) (va_arg args)
      else if text_equal fmt ''seedcrc          : 0x%04x\<newline>'' then map_option (\<lambda>(a, _). r\<lparr>seedcrc := a\<rparr>) (va_arg args)
      else if text_contains fmt ''crclist'' then map_option (\<lambda>a. r\<lparr>crclist := a\<rparr>) (second_arg args)
      else if text_contains fmt ''crcmatrix'' then map_option (\<lambda>a. r\<lparr>crcmatrix := a\<rparr>) (second_arg args)
      else if text_contains fmt ''crcstate'' then map_option (\<lambda>a. r\<lparr>crcstate := a\<rparr>) (second_arg args)
      else if text_contains fmt ''crcfinal'' then map_option (\<lambda>a. r\<lparr>crcfinal := a\<rparr>) (second_arg args)
      else Some r)"

definition ee_printf :: "string \<Rightarrow> u32 list \<Rightarrow> coremark_report_t \<Rightarrow> (int \<times> coremark_report_t) option" where
  "ee_printf fmt args r =
     map_option (\<lambda>r.
       let r1 = (if text_contains fmt ''ERROR'' \<or> text_contains fmt ''Errors detected'' \<or>
                    text_contains fmt ''Cannot validate''
                 then r\<lparr>errors := errors r + 1\<rparr> else r);
           r2 = (if text_contains fmt ''Correct operation validated'' then r1\<lparr>valid := 1\<rparr> else r1)
       in (0, r2)) (capture fmt args r)"

definition portable_init :: "bool \<Rightarrow> core_portable \<Rightarrow> coremark_report_t \<Rightarrow> core_portable \<times> coremark_report_t" where
  "portable_init VALIDATION_RUN p r =
     (let r1 = fold (\<lambda>index. put_word index 0) [0..<report_words] r;
          r2 = r1\<lparr>magic := COREMARK_REPORT_MAGIC, version := COREMARK_REPORT_VERSION, clock_hz := COREMARK_CLOCK_HZ\<rparr>;
          r3 = r2\<lparr>run_type := if VALIDATION_RUN then COREMARK_RUN_VALIDATION else COREMARK_RUN_PERFORMANCE\<rparr>;
          r4 = (if sizeof (0 :: ee_u8) \<noteq> 1 \<or> sizeof (0 :: ee_s16) \<noteq> 2 \<or> sizeof (0 :: ee_u16) \<noteq> 2 \<or>
                   sizeof (0 :: ee_s32) \<noteq> 4 \<or> sizeof (0 :: ee_u32) \<noteq> 4 \<or> sizeof (0 :: ee_ptr_int) \<noteq> sizeof (0 :: u32)
                then r3\<lparr>errors := errors r3 + 1\<rparr> else r3)
      in (p\<lparr>portable_id := 1\<rparr>, r4))"

text \<open>\<open>portable_fini\<close> does not return: its value is the memory in which the processor spins.\<close>

definition portable_fini :: "core_portable \<Rightarrow> coremark_report_t \<Rightarrow> mem \<Rightarrow> mem" where
  "portable_fini p r m =
     (let expected_seedcrc = (if run_type r = COREMARK_RUN_VALIDATION then 0x18f2 else 0xe9f5)
      in if valid r = 1 \<and> errors r = 0 \<and> seedcrc r = expected_seedcrc then bm_pass m
         else bm_fail (0x200 OR (errors r AND 0xff)) m)"

end
