(* ===== verification/Cm_Text.thy ===== *)
theory Cm_Text
  imports Cm_Port
begin

text \<open>
  What the parts of the CoreMark port do: the two text comparisons against equality and the
  sublist order, the counters against the counts since reset, and the store of the report.
\<close>

section \<open>Text\<close>

lemma text_equal_iff: "text_equal l r \<longleftrightarrow> l = r"
  by (induction l r rule: text_equal.induct) auto

lemma match_rest_prefix: "match_rest c n = [] \<longleftrightarrow> prefix n c"
  by (induction c n rule: match_rest.induct) auto

lemma text_contains_sublist: "text_contains t n \<longleftrightarrow> t \<noteq> [] \<and> sublist n t"
proof (induction t n rule: text_contains.induct)
  case (1 n)
  then show ?case by simp
next
  case (2 c t n)
  then show ?case
    by (cases "n = []") (auto simp: match_rest_prefix sublist_Cons_right)
qed

section \<open>Counters\<close>

definition hart_ok :: "hart \<Rightarrow> bool" where
  "hart_ok h \<longleftrightarrow> (\<forall>n. fst (elapse h n) \<le> 2 ^ 29 \<and> snd (elapse h n) \<le> 2 ^ 29)"

definition later :: "hart \<Rightarrow> hart \<Rightarrow> bool" where
  "later h0 h \<longleftrightarrow> hart_ok h \<and> cycles h0 \<le> cycles h \<and> instret h0 \<le> instret h"

lemma later_refl: "hart_ok h \<Longrightarrow> later h h"
  by (simp add: later_def)

lemma later_trans: "later a b \<Longrightarrow> later b c \<Longrightarrow> later a c"
  by (auto simp: later_def)

lemma pass_later: "later h0 h \<Longrightarrow> later h0 (pass h)"
  by (auto simp: later_def hart_ok_def pass_def)

lemma pass_bounds:
  assumes "later h0 h"
  shows "cycles h \<le> cycles (pass h)" "cycles (pass h) \<le> cycles h + 2 ^ 29"
    "instret h \<le> instret (pass h)" "instret (pass h) \<le> instret h + 2 ^ 29"
  using assms by (simp_all add: later_def hart_ok_def pass_def)

text \<open>The two counters are split counters, from any hart onwards.\<close>

interpretation cyc: split_counter "csrr mcycleh" "csrr mcycle" "later h0" cycles for h0
proof unfold_locales
  fix h assume h: "later h0 h"
  show "\<exists>c s'. csrr mcycleh h = Inr (hi32 (of_nat c), s') \<and> later h0 s' \<and>
      cycles h \<le> c \<and> c \<le> cycles s' \<and> cycles s' \<le> cycles h + 2 ^ 29"
    using pass_later [OF h] pass_bounds [OF h]
    by (intro exI [of _ "cycles (pass h)"] exI [of _ "pass h"]) (simp add: csrr_def mcycleh_def mcycle_q_def Let_def)
  show "\<exists>c s'. csrr mcycle h = Inr (lo32 (of_nat c), s') \<and> later h0 s' \<and>
      cycles h \<le> c \<and> c \<le> cycles s' \<and> cycles s' \<le> cycles h + 2 ^ 29"
    using pass_later [OF h] pass_bounds [OF h]
    by (intro exI [of _ "cycles (pass h)"] exI [of _ "pass h"]) (simp add: csrr_def mcycle_def mcycle_q_def Let_def)
qed

interpretation ins: split_counter "csrr minstreth" "csrr minstret" "later h0" instret for h0
proof unfold_locales
  fix h assume h: "later h0 h"
  show "\<exists>c s'. csrr minstreth h = Inr (hi32 (of_nat c), s') \<and> later h0 s' \<and>
      instret h \<le> c \<and> c \<le> instret s' \<and> instret s' \<le> instret h + 2 ^ 29"
    using pass_later [OF h] pass_bounds [OF h]
    by (intro exI [of _ "instret (pass h)"] exI [of _ "pass h"]) (simp add: csrr_def minstreth_def minstret_q_def Let_def)
  show "\<exists>c s'. csrr minstret h = Inr (lo32 (of_nat c), s') \<and> later h0 s' \<and>
      instret h \<le> c \<and> c \<le> instret s' \<and> instret s' \<le> instret h + 2 ^ 29"
    using pass_later [OF h] pass_bounds [OF h]
    by (intro exI [of _ "instret (pass h)"] exI [of _ "pass h"]) (simp add: csrr_def minstret_def minstret_q_def Let_def)
qed

lemma join_count: "push_bit 32 (ucast (hi32 x)) OR ucast (lo32 x) = x" for x :: u64
  using join64_hi_lo [of x] by (simp add: join64_def)

lemma read_mcycle64_now:
  assumes "hart_ok h"
  obtains c h' where "read_mcycle64 h = Some (of_nat c, h')" "later h h'" "cycles h \<le> c" "c \<le> cycles h'"
proof -
  from cyc.read_is_now [OF later_refl [OF assms]] obtain c h' where
    "split_read (csrr mcycleh) (csrr mcycle) h =
       Some (Inr (hi32 (of_nat c), lo32 (of_nat c), hi32 (of_nat c), h'))"
    "later h h'" "cycles h \<le> c" "c \<le> cycles h'" by blast
  then show thesis by (intro that) (simp_all add: read_mcycle64_def read_counter_def join_count)
qed

lemma read_minstret64_now:
  assumes "hart_ok h"
  obtains i h' where "read_minstret64 h = Some (of_nat i, h')" "later h h'" "instret h \<le> i" "i \<le> instret h'"
proof -
  from ins.read_is_now [OF later_refl [OF assms]] obtain i h' where
    "split_read (csrr minstreth) (csrr minstret) h =
       Some (Inr (hi32 (of_nat i), lo32 (of_nat i), hi32 (of_nat i), h'))"
    "later h h'" "instret h \<le> i" "i \<le> instret h'" by blast
  then show thesis by (intro that) (simp_all add: read_minstret64_def read_counter_def join_count)
qed

lemma start_time_now:
  assumes "hart_ok (cpu s)"
  obtains c i h where "start_time s = Some (s\<lparr>start_instret := of_nat i, start_cycle := of_nat c, cpu := h\<rparr>)"
    "later (cpu s) h" "cycles (cpu s) \<le> c" "c \<le> cycles h" "instret (cpu s) \<le> i" "i \<le> instret h"
proof -
  obtain i h1 where 1: "read_minstret64 (cpu s) = Some (of_nat i, h1)" "later (cpu s) h1"
    "instret (cpu s) \<le> i" "i \<le> instret h1" by (rule read_minstret64_now [OF assms])
  then obtain c h2 where 2: "read_mcycle64 h1 = Some (of_nat c, h2)" "later h1 h2"
    "cycles h1 \<le> c" "c \<le> cycles h2" using read_mcycle64_now [of h1] by (auto simp: later_def)
  show thesis
    using 1 2 later_trans [OF 1(2) 2(2)] by (intro that [where i = i and c = c and h = h2]) (auto simp: start_time_def later_def)
qed

lemma stop_time_now:
  assumes "hart_ok (cpu s)" "start_cycle s = of_nat c0" "start_instret s = of_nat i0"
    "c0 \<le> cycles (cpu s)" "i0 \<le> instret (cpu s)"
  obtains c i s' where "stop_time s = Some s'" "later (cpu s) (cpu s')"
    "cycles (cpu s) \<le> c" "c \<le> cycles (cpu s')" "instret (cpu s) \<le> i" "i \<le> instret (cpu s')"
    "join64 (cycles_hi (coremark_report s')) (cycles_lo (coremark_report s')) = of_nat (c - c0)"
    "join64 (instructions_hi (coremark_report s')) (instructions_lo (coremark_report s')) = of_nat (i - i0)"
    "get_time s' = of_nat (c - c0)"
proof -
  obtain c h1 where 1: "read_mcycle64 (cpu s) = Some (of_nat c, h1)" "later (cpu s) h1"
    "cycles (cpu s) \<le> c" "c \<le> cycles h1" by (rule read_mcycle64_now [OF assms(1)])
  then obtain i h2 where 2: "read_minstret64 h1 = Some (of_nat i, h2)" "later h1 h2"
    "instret h1 \<le> i" "i \<le> instret h2" using read_minstret64_now [of h1] by (auto simp: later_def)
  have d: "(of_nat c :: u64) - start_cycle s = of_nat (c - c0)" "(of_nat i :: u64) - start_instret s = of_nat (i - i0)"
    using assms 1 2 by (auto simp: of_nat_diff later_def)
  have u: "(ucast (of_nat n :: u64) :: u32) = of_nat n" for n
    using unat_lo32 [of "of_nat n"]
    by (simp add: lo32_def word_unat_eq_iff unat_of_nat64 unat_of_nat take_bit_eq_mod mod_mod_cancel)
  have j: "join64 (ucast (drop_bit 32 (of_nat n :: u64))) (of_nat n) = of_nat n" for n
    using join64_hi_lo [of "of_nat n"] by (simp only: hi32_def lo32_def u)
  show thesis
    using 1 2 later_trans [OF 1(2) 2(2)]
    by (intro that [of "on_report (\<lambda>r. r\<lparr>cycles_lo := ucast (of_nat (c - c0) :: u64),
        cycles_hi := ucast (drop_bit 32 (of_nat (c - c0) :: u64)), instructions_lo := ucast (of_nat (i - i0) :: u64),
        instructions_hi := ucast (drop_bit 32 (of_nat (i - i0) :: u64))\<rparr>)
        (s\<lparr>stop_cycle := of_nat c, stop_instret := of_nat i, cpu := h2\<rparr>)" c i])
      (auto simp: stop_time_def Let_def on_report_def d later_def get_time_def j u)
qed

section \<open>The report\<close>

lemma clear_words:
  "fold (\<lambda>index. put_word index 0) [0..<report_words] r =
    \<lparr>magic = 0, version = 0, run_type = 0, clock_hz = 0, iterations = 0, cycles_lo = 0, cycles_hi = 0,
     instructions_lo = 0, instructions_hi = 0, seedcrc = 0, crclist = 0, crcmatrix = 0, crcstate = 0,
     crcfinal = 0, valid = 0, errors = 0\<rparr>"
  by (simp add: report_words_def upt_rec numeral_nat)

lemma portable_init_report:
  "snd (portable_init v p r) =
    \<lparr>magic = 0x434d524b, version = 1, run_type = (if v then 1 else 0), clock_hz = 75000000, iterations = 0,
     cycles_lo = 0, cycles_hi = 0, instructions_lo = 0, instructions_hi = 0, seedcrc = 0, crclist = 0,
     crcmatrix = 0, crcstate = 0, crcfinal = 0, valid = 0, errors = 0\<rparr>"
  unfolding portable_init_def clear_words
  by (simp add: sizeof_def COREMARK_REPORT_MAGIC_def COREMARK_REPORT_VERSION_def COREMARK_CLOCK_HZ_def
      COREMARK_RUN_VALIDATION_def COREMARK_RUN_PERFORMANCE_def)

end
