(* ===== verification/Cm_Report.thy ===== *)
theory Cm_Report
  imports Cm_Text
begin

text \<open>
  The part of the benchmark that uses the port: the CRC of \<^verbatim>\<open>core_util.c\<close> and the reporting half of
  \<^verbatim>\<open>main\<close> in \<^verbatim>\<open>core_main.c\<close>, from the seed CRC to the last line printed. The benchmark kernels
  before it are not modelled: their results are the fields of \<open>core_results\<close>.
\<close>

section \<open>The seed CRC\<close>

definition crc_step :: "ee_u8 \<times> ee_u16 \<Rightarrow> ee_u8 \<times> ee_u16" where
  "crc_step = (\<lambda>(data, crc).
     let x16 = (data AND 1) XOR (ucast crc AND 1);
         data = drop_bit 1 data;
         carry = (x16 = 1);
         crc = (if x16 = 1 then crc XOR 0x4002 else crc);
         crc = drop_bit 1 crc;
         crc = (if carry then crc OR 0x8000 else crc AND 0x7fff)
     in (data, crc))"

definition crcu8 :: "ee_u8 \<Rightarrow> ee_u16 \<Rightarrow> ee_u16" where
  "crcu8 data crc = snd ((crc_step ^^ 8) (data, crc))"

definition crcu16 :: "ee_u16 \<Rightarrow> ee_u16 \<Rightarrow> ee_u16" where
  "crcu16 newval crc = crcu8 (ucast (drop_bit 8 newval)) (crcu8 (ucast newval) crc)"

definition crc16 :: "ee_s16 \<Rightarrow> ee_u16 \<Rightarrow> ee_u16" where
  "crc16 newval crc = crcu16 newval crc"

section \<open>Printing\<close>

text \<open>One call of \<open>ee_printf\<close> for its effect, and a sequence of them.\<close>

definition say :: "string \<Rightarrow> u32 list \<Rightarrow> coremark_report_t \<Rightarrow> coremark_report_t option" where
  "say fmt args r = map_option snd (ee_printf fmt args r)"

definition say_if :: "bool \<Rightarrow> string \<Rightarrow> u32 list \<Rightarrow> coremark_report_t \<Rightarrow> coremark_report_t option" where
  "say_if b fmt args r = (if b then say fmt args r else Some r)"

fun say_all :: "(bool \<times> string \<times> u32 list) list \<Rightarrow> coremark_report_t \<Rightarrow> coremark_report_t option" where
  "say_all [] r = Some r"
| "say_all ((b, fmt, args) # ls) r = Option.bind (say_if b fmt args r) (say_all ls)"

section \<open>The results of a run\<close>

record core_results =
  seed1 :: ee_s16
  seed2 :: ee_s16
  seed3 :: ee_s16
  res_size :: ee_u32
  res_iterations :: ee_u32
  execs :: ee_u32
  crc :: ee_u16
  res_crclist :: ee_u16
  res_crcmatrix :: ee_u16
  res_crcstate :: ee_u16

definition ID_LIST :: u32 where "ID_LIST = push_bit 0 1"
definition ID_MATRIX :: u32 where "ID_MATRIX = push_bit 1 1"
definition ID_STATE :: u32 where "ID_STATE = push_bit 2 1"

definition list_known_crc :: "ee_u16 list" where
  "list_known_crc = [0xd4b0, 0x3340, 0x6a79, 0xe714, 0xe3c1]"
definition matrix_known_crc :: "ee_u16 list" where
  "matrix_known_crc = [0xbe52, 0x1199, 0x5608, 0x1fd7, 0x0747]"
definition state_known_crc :: "ee_u16 list" where
  "state_known_crc = [0x5e47, 0x39bf, 0xe5a4, 0x8e3a, 0x8d84]"

definition seed_crc :: "core_results \<Rightarrow> ee_u16" where
  "seed_crc res = crc16 (ucast (res_size res)) (crc16 (seed3 res) (crc16 (seed2 res) (crc16 (seed1 res) 0)))"

text \<open>The \<^verbatim>\<open>switch\<close> on the seed CRC: the known run and the line it prints.\<close>

definition known_run :: "ee_u16 \<Rightarrow> (nat \<times> string) option" where
  "known_run c =
     (if c = 0x8a02 then Some (0, ''6k performance run parameters for coremark.\<newline>'')
      else if c = 0x7b05 then Some (1, ''6k validation run parameters for coremark.\<newline>'')
      else if c = 0x4eaf then Some (2, ''Profile generation run parameters for coremark.\<newline>'')
      else if c = 0xe9f5 then Some (3, ''2K performance run parameters for coremark.\<newline>'')
      else if c = 0x18f2 then Some (4, ''2K validation run parameters for coremark.\<newline>'')
      else None)"

text \<open>\<open>check_data_types\<close> returns the number of types of the wrong size, after a line for each.\<close>

definition check_data_types :: "(bool \<times> string \<times> u32 list) list \<times> ee_u8" where
  "check_data_types =
     (let bad = [(sizeof (0 :: ee_u8) \<noteq> 1, ''ERROR: ee_u8 is not an 8b datatype!\<newline>'', []),
            (sizeof (0 :: ee_u16) \<noteq> 2, ''ERROR: ee_u16 is not a 16b datatype!\<newline>'', []),
            (sizeof (0 :: ee_s16) \<noteq> 2, ''ERROR: ee_s16 is not a 16b datatype!\<newline>'', []),
            (sizeof (0 :: ee_s32) \<noteq> 4, ''ERROR: ee_s32 is not a 32b datatype!\<newline>'', []),
            (sizeof (0 :: ee_u32) \<noteq> 4, ''ERROR: ee_u32 is not a 32b datatype!\<newline>'', []),
            (sizeof (0 :: ee_ptr_int) \<noteq> sizeof (0 :: u32),
              ''ERROR: ee_ptr_int is not a datatype that holds an int pointer!\<newline>'', [])];
          retval = of_nat (length (filter fst bad))
      in (bad @ [(retval > 0, ''ERROR: Please modify the datatypes in core_portme.h!\<newline>'', [])], retval))"

text \<open>The comparison of the CRCs of a known run, and the number of them that differ.\<close>

definition crc_lines :: "core_results \<Rightarrow> nat \<Rightarrow> (bool \<times> string \<times> u32 list) list" where
  "crc_lines res known_id =
     [(execs res AND ID_LIST \<noteq> 0 \<and> res_crclist res \<noteq> list_known_crc ! known_id,
        ''[%u]ERROR! list crc 0x%04x - should be 0x%04x\<newline>'', [0, ucast (res_crclist res), ucast (list_known_crc ! known_id)]),
      (execs res AND ID_MATRIX \<noteq> 0 \<and> res_crcmatrix res \<noteq> matrix_known_crc ! known_id,
        ''[%u]ERROR! matrix crc 0x%04x - should be 0x%04x\<newline>'', [0, ucast (res_crcmatrix res), ucast (matrix_known_crc ! known_id)]),
      (execs res AND ID_STATE \<noteq> 0 \<and> res_crcstate res \<noteq> state_known_crc ! known_id,
        ''[%u]ERROR! state crc 0x%04x - should be 0x%04x\<newline>'', [0, ucast (res_crcstate res), ucast (state_known_crc ! known_id)])]"

definition crc_errors :: "core_results \<Rightarrow> nat \<Rightarrow> ee_s16" where
  "crc_errors res known_id = of_nat (length (filter fst (crc_lines res known_id)))"

section \<open>The reporting half of main\<close>

text \<open>
  \<open>verdict\<close> is the value of \<open>total_errors\<close> when it is tested at the end, a signed 16-bit word.
\<close>

definition verdict :: "core_results \<Rightarrow> CORE_TICKS \<Rightarrow> ee_s16" where
  "verdict res total_time =
     (let e0 = (case known_run (seed_crc res) of None \<Rightarrow> -1 | Some (known_id, _) \<Rightarrow> 0 + crc_errors res known_id);
          e1 = e0 + ucast (snd check_data_types)
      in if time_in_secs total_time < 10 then e1 + 1 else e1)"

text \<open>
  The lines printed, with the condition of each. \<open>vers\<close>, \<open>flags\<close> and \<open>location\<close> are the addresses
  of the strings of \<^verbatim>\<open>core_portme.h\<close>, which \<open>ee_printf\<close> does not read.
\<close>

definition report_lines :: "u32 \<Rightarrow> u32 \<Rightarrow> u32 \<Rightarrow> core_results \<Rightarrow> CORE_TICKS \<Rightarrow> (bool \<times> string \<times> u32 list) list" where
  "report_lines vers flags location res total_time =
     (case known_run (seed_crc res) of None \<Rightarrow> []
      | Some (known_id, params) \<Rightarrow> (True, params, []) # crc_lines res known_id) @
     fst check_data_types @
     [(True, ''CoreMark Size    : %lu\<newline>'', [res_size res]),
      (True, ''Total ticks      : %lu\<newline>'', [total_time]),
      (True, ''Total time (secs): %d\<newline>'', [time_in_secs total_time]),
      (time_in_secs total_time > 0, ''Iterations/Sec   : %d\<newline>'',
         [default_num_contexts * res_iterations res div time_in_secs total_time]),
      (time_in_secs total_time < 10, ''ERROR! Must execute for at least 10 secs for a valid result!\<newline>'', []),
      (True, ''Iterations       : %lu\<newline>'', [default_num_contexts * res_iterations res]),
      (True, ''Compiler version : %s\<newline>'', [vers]),
      (True, ''Compiler flags   : %s\<newline>'', [flags]),
      (True, ''Memory location  : %s\<newline>'', [location]),
      (True, ''seedcrc          : 0x%04x\<newline>'', [ucast (seed_crc res)]),
      (execs res AND ID_LIST \<noteq> 0, ''[%d]crclist       : 0x%04x\<newline>'', [0, ucast (res_crclist res)]),
      (execs res AND ID_MATRIX \<noteq> 0, ''[%d]crcmatrix     : 0x%04x\<newline>'', [0, ucast (res_crcmatrix res)]),
      (execs res AND ID_STATE \<noteq> 0, ''[%d]crcstate      : 0x%04x\<newline>'', [0, ucast (res_crcstate res)]),
      (True, ''[%d]crcfinal      : 0x%04x\<newline>'', [0, ucast (crc res)]),
      (verdict res total_time = 0,
         ''Correct operation validated. See README.md for run and reporting rules.\<newline>'', []),
      (0 <s verdict res total_time, ''Errors detected\<newline>'', []),
      (verdict res total_time <s 0,
         ''Cannot validate operation for these seed values, please compare with results on a known platform.\<newline>'', [])]"

text \<open>The last line calls \<open>portable_fini\<close>, which ends the program.\<close>

definition main_report :: "u32 \<Rightarrow> u32 \<Rightarrow> u32 \<Rightarrow> core_results \<Rightarrow> CORE_TICKS \<Rightarrow> core_portable \<Rightarrow>
    coremark_report_t \<Rightarrow> mem \<Rightarrow> (coremark_report_t \<times> mem) option" where
  "main_report vers flags location res total_time p r m =
     map_option (\<lambda>r'. (r', portable_fini p r' m))
       (say_all (report_lines vers flags location res total_time) r)"

end
