(* ===== verification/Cm_Lines.thy ===== *)
theory Cm_Lines
  imports Cm_Report
begin

text \<open>
  What the lines of the report do: each line raises the error count, marks the run valid, records
  the seed CRC or does none of these, whatever its arguments, and a sequence of lines adds this up.
\<close>

section \<open>What a sequence of lines does to the report\<close>

definition is_error :: "string \<Rightarrow> bool" where
  "is_error fmt \<longleftrightarrow> text_contains fmt ''ERROR'' \<or> text_contains fmt ''Errors detected'' \<or>
     text_contains fmt ''Cannot validate''"
definition is_valid :: "string \<Rightarrow> bool" where
  "is_valid fmt \<longleftrightarrow> text_contains fmt ''Correct operation validated''"
definition is_seed :: "string \<Rightarrow> bool" where
  "is_seed fmt \<longleftrightarrow> text_equal fmt ''seedcrc          : 0x%04x\<newline>''"

definition args_needed :: "string \<Rightarrow> nat" where
  "args_needed fmt =
     (if text_equal fmt ''Total ticks      : %lu\<newline>'' \<or> text_equal fmt ''Iterations       : %lu\<newline>'' \<or> is_seed fmt then 1
      else if text_contains fmt ''crclist'' \<or> text_contains fmt ''crcmatrix'' \<or> text_contains fmt ''crcstate'' \<or>
        text_contains fmt ''crcfinal'' then 2 else 0)"

lemma say_effect:
  assumes "args_needed fmt \<le> length args"
  obtains r' where "say fmt args r = Some r'" "errors r' = errors r + (if is_error fmt then 1 else 0)"
    "valid r' = (if is_valid fmt then 1 else valid r)" "seedcrc r' = (if is_seed fmt then hd args else seedcrc r)"
    "run_type r' = run_type r"
proof -
  have "\<exists>r1. capture fmt args r = Some r1 \<and> errors r1 = errors r \<and> valid r1 = valid r \<and>
      seedcrc r1 = (if is_seed fmt then hd args else seedcrc r) \<and> run_type r1 = run_type r"
  proof (cases args)
    case Nil
    then show ?thesis
      using assms by (auto simp: capture_def args_needed_def is_seed_def split: if_splits)
  next
    case (Cons a rest)
    then show ?thesis
      using assms by (cases rest) (auto simp: capture_def args_needed_def is_seed_def va_arg_def second_arg_def
        text_equal_iff split: if_splits)
  qed
  then obtain r1 where "capture fmt args r = Some r1" "errors r1 = errors r" "valid r1 = valid r"
    "seedcrc r1 = (if is_seed fmt then hd args else seedcrc r)" "run_type r1 = run_type r" by blast
  then show thesis
    by (intro that [of "snd (the (ee_printf fmt args r))"])
      (simp_all add: say_def ee_printf_def is_error_def is_valid_def Let_def)
qed

fun seed_after :: "(bool \<times> string \<times> u32 list) list \<Rightarrow> u32 \<Rightarrow> u32" where
  "seed_after [] c = c"
| "seed_after ((b, fmt, args) # ls) c = seed_after ls (if b \<and> is_seed fmt then hd args else c)"

lemma say_all_effect:
  assumes "\<forall>(b, fmt, args) \<in> set ls. args_needed fmt \<le> length args"
  shows "\<exists>r'. say_all ls r = Some r' \<and>
    errors r' = errors r + of_nat (length (filter (\<lambda>(b, fmt, _). b \<and> is_error fmt) ls)) \<and>
    valid r' = (if \<exists>(b, fmt, _) \<in> set ls. b \<and> is_valid fmt then 1 else valid r) \<and>
    seedcrc r' = seed_after ls (seedcrc r) \<and> run_type r' = run_type r"
  using assms
proof (induction ls arbitrary: r)
  case Nil
  then show ?case by simp
next
  case (Cons l ls)
  obtain b fmt args where l: "l = (b, fmt, args)" by (cases l)
  obtain r1 where r1: "say_if b fmt args r = Some r1" "errors r1 = errors r + (if b \<and> is_error fmt then 1 else 0)"
    "valid r1 = (if b \<and> is_valid fmt then 1 else valid r)" "run_type r1 = run_type r"
    "seedcrc r1 = (if b \<and> is_seed fmt then hd args else seedcrc r)"
  proof (cases b)
    case False
    then show thesis using that [of r] by (simp add: say_if_def)
  next
    case True
    have "args_needed fmt \<le> length args" using Cons.prems l by simp
    from say_effect [OF this, of r] show thesis using that True by (auto simp: say_if_def)
  qed
  from Cons.IH [of r1] Cons.prems obtain r2 where
    "say_all ls r1 = Some r2"
    "errors r2 = errors r1 + of_nat (length (filter (\<lambda>(b, fmt, _). b \<and> is_error fmt) ls))"
    "valid r2 = (if \<exists>(b, fmt, _) \<in> set ls. b \<and> is_valid fmt then 1 else valid r1)"
    "seedcrc r2 = seed_after ls (seedcrc r1)" "run_type r2 = run_type r1" by auto
  then show ?case using r1 l by (intro exI [of _ r2]) auto
qed

section \<open>The lines of the report\<close>

lemmas texts = is_error_def is_valid_def is_seed_def args_needed_def text_equal_iff

text \<open>The kind of every line that the benchmark prints.\<close>

lemma line_kinds [simp]:
  "is_error ''6k performance run parameters for coremark.\<newline>'' = False"
  "is_valid ''6k performance run parameters for coremark.\<newline>'' = False"
  "is_seed ''6k performance run parameters for coremark.\<newline>'' = False"
  "args_needed ''6k performance run parameters for coremark.\<newline>'' = 0"
  "is_error ''6k validation run parameters for coremark.\<newline>'' = False"
  "is_valid ''6k validation run parameters for coremark.\<newline>'' = False"
  "is_seed ''6k validation run parameters for coremark.\<newline>'' = False"
  "args_needed ''6k validation run parameters for coremark.\<newline>'' = 0"
  "is_error ''Profile generation run parameters for coremark.\<newline>'' = False"
  "is_valid ''Profile generation run parameters for coremark.\<newline>'' = False"
  "is_seed ''Profile generation run parameters for coremark.\<newline>'' = False"
  "args_needed ''Profile generation run parameters for coremark.\<newline>'' = 0"
  "is_error ''2K performance run parameters for coremark.\<newline>'' = False"
  "is_valid ''2K performance run parameters for coremark.\<newline>'' = False"
  "is_seed ''2K performance run parameters for coremark.\<newline>'' = False"
  "args_needed ''2K performance run parameters for coremark.\<newline>'' = 0"
  "is_error ''2K validation run parameters for coremark.\<newline>'' = False"
  "is_valid ''2K validation run parameters for coremark.\<newline>'' = False"
  "is_seed ''2K validation run parameters for coremark.\<newline>'' = False"
  "args_needed ''2K validation run parameters for coremark.\<newline>'' = 0"
  "is_error ''ERROR: ee_u8 is not an 8b datatype!\<newline>'' = True"
  "is_valid ''ERROR: ee_u8 is not an 8b datatype!\<newline>'' = False"
  "is_seed ''ERROR: ee_u8 is not an 8b datatype!\<newline>'' = False"
  "args_needed ''ERROR: ee_u8 is not an 8b datatype!\<newline>'' = 0"
  "is_error ''ERROR: ee_u16 is not a 16b datatype!\<newline>'' = True"
  "is_valid ''ERROR: ee_u16 is not a 16b datatype!\<newline>'' = False"
  "is_seed ''ERROR: ee_u16 is not a 16b datatype!\<newline>'' = False"
  "args_needed ''ERROR: ee_u16 is not a 16b datatype!\<newline>'' = 0"
  "is_error ''ERROR: ee_s16 is not a 16b datatype!\<newline>'' = True"
  "is_valid ''ERROR: ee_s16 is not a 16b datatype!\<newline>'' = False"
  "is_seed ''ERROR: ee_s16 is not a 16b datatype!\<newline>'' = False"
  "args_needed ''ERROR: ee_s16 is not a 16b datatype!\<newline>'' = 0"
  "is_error ''ERROR: ee_s32 is not a 32b datatype!\<newline>'' = True"
  "is_valid ''ERROR: ee_s32 is not a 32b datatype!\<newline>'' = False"
  "is_seed ''ERROR: ee_s32 is not a 32b datatype!\<newline>'' = False"
  "args_needed ''ERROR: ee_s32 is not a 32b datatype!\<newline>'' = 0"
  "is_error ''ERROR: ee_u32 is not a 32b datatype!\<newline>'' = True"
  "is_valid ''ERROR: ee_u32 is not a 32b datatype!\<newline>'' = False"
  "is_seed ''ERROR: ee_u32 is not a 32b datatype!\<newline>'' = False"
  "args_needed ''ERROR: ee_u32 is not a 32b datatype!\<newline>'' = 0"
  "is_error ''ERROR: ee_ptr_int is not a datatype that holds an int pointer!\<newline>'' = True"
  "is_valid ''ERROR: ee_ptr_int is not a datatype that holds an int pointer!\<newline>'' = False"
  "is_seed ''ERROR: ee_ptr_int is not a datatype that holds an int pointer!\<newline>'' = False"
  "args_needed ''ERROR: ee_ptr_int is not a datatype that holds an int pointer!\<newline>'' = 0"
  "is_error ''ERROR: Please modify the datatypes in core_portme.h!\<newline>'' = True"
  "is_valid ''ERROR: Please modify the datatypes in core_portme.h!\<newline>'' = False"
  "is_seed ''ERROR: Please modify the datatypes in core_portme.h!\<newline>'' = False"
  "args_needed ''ERROR: Please modify the datatypes in core_portme.h!\<newline>'' = 0"
  "is_error ''[%u]ERROR! list crc 0x%04x - should be 0x%04x\<newline>'' = True"
  "is_valid ''[%u]ERROR! list crc 0x%04x - should be 0x%04x\<newline>'' = False"
  "is_seed ''[%u]ERROR! list crc 0x%04x - should be 0x%04x\<newline>'' = False"
  "args_needed ''[%u]ERROR! list crc 0x%04x - should be 0x%04x\<newline>'' = 0"
  "is_error ''[%u]ERROR! matrix crc 0x%04x - should be 0x%04x\<newline>'' = True"
  "is_valid ''[%u]ERROR! matrix crc 0x%04x - should be 0x%04x\<newline>'' = False"
  "is_seed ''[%u]ERROR! matrix crc 0x%04x - should be 0x%04x\<newline>'' = False"
  "args_needed ''[%u]ERROR! matrix crc 0x%04x - should be 0x%04x\<newline>'' = 0"
  "is_error ''[%u]ERROR! state crc 0x%04x - should be 0x%04x\<newline>'' = True"
  "is_valid ''[%u]ERROR! state crc 0x%04x - should be 0x%04x\<newline>'' = False"
  "is_seed ''[%u]ERROR! state crc 0x%04x - should be 0x%04x\<newline>'' = False"
  "args_needed ''[%u]ERROR! state crc 0x%04x - should be 0x%04x\<newline>'' = 0"
  "is_error ''CoreMark Size    : %lu\<newline>'' = False"
  "is_valid ''CoreMark Size    : %lu\<newline>'' = False"
  "is_seed ''CoreMark Size    : %lu\<newline>'' = False"
  "args_needed ''CoreMark Size    : %lu\<newline>'' = 0"
  "is_error ''Total ticks      : %lu\<newline>'' = False"
  "is_valid ''Total ticks      : %lu\<newline>'' = False"
  "is_seed ''Total ticks      : %lu\<newline>'' = False"
  "args_needed ''Total ticks      : %lu\<newline>'' = 1"
  "is_error ''Total time (secs): %d\<newline>'' = False"
  "is_valid ''Total time (secs): %d\<newline>'' = False"
  "is_seed ''Total time (secs): %d\<newline>'' = False"
  "args_needed ''Total time (secs): %d\<newline>'' = 0"
  "is_error ''Iterations/Sec   : %d\<newline>'' = False"
  "is_valid ''Iterations/Sec   : %d\<newline>'' = False"
  "is_seed ''Iterations/Sec   : %d\<newline>'' = False"
  "args_needed ''Iterations/Sec   : %d\<newline>'' = 0"
  "is_error ''ERROR! Must execute for at least 10 secs for a valid result!\<newline>'' = True"
  "is_valid ''ERROR! Must execute for at least 10 secs for a valid result!\<newline>'' = False"
  "is_seed ''ERROR! Must execute for at least 10 secs for a valid result!\<newline>'' = False"
  "args_needed ''ERROR! Must execute for at least 10 secs for a valid result!\<newline>'' = 0"
  "is_error ''Iterations       : %lu\<newline>'' = False"
  "is_valid ''Iterations       : %lu\<newline>'' = False"
  "is_seed ''Iterations       : %lu\<newline>'' = False"
  "args_needed ''Iterations       : %lu\<newline>'' = 1"
  "is_error ''Compiler version : %s\<newline>'' = False"
  "is_valid ''Compiler version : %s\<newline>'' = False"
  "is_seed ''Compiler version : %s\<newline>'' = False"
  "args_needed ''Compiler version : %s\<newline>'' = 0"
  "is_error ''Compiler flags   : %s\<newline>'' = False"
  "is_valid ''Compiler flags   : %s\<newline>'' = False"
  "is_seed ''Compiler flags   : %s\<newline>'' = False"
  "args_needed ''Compiler flags   : %s\<newline>'' = 0"
  "is_error ''Memory location  : %s\<newline>'' = False"
  "is_valid ''Memory location  : %s\<newline>'' = False"
  "is_seed ''Memory location  : %s\<newline>'' = False"
  "args_needed ''Memory location  : %s\<newline>'' = 0"
  "is_error ''seedcrc          : 0x%04x\<newline>'' = False"
  "is_valid ''seedcrc          : 0x%04x\<newline>'' = False"
  "is_seed ''seedcrc          : 0x%04x\<newline>'' = True"
  "args_needed ''seedcrc          : 0x%04x\<newline>'' = 1"
  "is_error ''[%d]crclist       : 0x%04x\<newline>'' = False"
  "is_valid ''[%d]crclist       : 0x%04x\<newline>'' = False"
  "is_seed ''[%d]crclist       : 0x%04x\<newline>'' = False"
  "args_needed ''[%d]crclist       : 0x%04x\<newline>'' = 2"
  "is_error ''[%d]crcmatrix     : 0x%04x\<newline>'' = False"
  "is_valid ''[%d]crcmatrix     : 0x%04x\<newline>'' = False"
  "is_seed ''[%d]crcmatrix     : 0x%04x\<newline>'' = False"
  "args_needed ''[%d]crcmatrix     : 0x%04x\<newline>'' = 2"
  "is_error ''[%d]crcstate      : 0x%04x\<newline>'' = False"
  "is_valid ''[%d]crcstate      : 0x%04x\<newline>'' = False"
  "is_seed ''[%d]crcstate      : 0x%04x\<newline>'' = False"
  "args_needed ''[%d]crcstate      : 0x%04x\<newline>'' = 2"
  "is_error ''[%d]crcfinal      : 0x%04x\<newline>'' = False"
  "is_valid ''[%d]crcfinal      : 0x%04x\<newline>'' = False"
  "is_seed ''[%d]crcfinal      : 0x%04x\<newline>'' = False"
  "args_needed ''[%d]crcfinal      : 0x%04x\<newline>'' = 2"
  "is_error ''Correct operation validated. See README.md for run and reporting rules.\<newline>'' = False"
  "is_valid ''Correct operation validated. See README.md for run and reporting rules.\<newline>'' = True"
  "is_seed ''Correct operation validated. See README.md for run and reporting rules.\<newline>'' = False"
  "args_needed ''Correct operation validated. See README.md for run and reporting rules.\<newline>'' = 0"
  "is_error ''Errors detected\<newline>'' = True"
  "is_valid ''Errors detected\<newline>'' = False"
  "is_seed ''Errors detected\<newline>'' = False"
  "args_needed ''Errors detected\<newline>'' = 0"
  "is_error ''Cannot validate operation for these seed values, please compare with results on a known platform.\<newline>'' = True"
  "is_valid ''Cannot validate operation for these seed values, please compare with results on a known platform.\<newline>'' = False"
  "is_seed ''Cannot validate operation for these seed values, please compare with results on a known platform.\<newline>'' = False"
  "args_needed ''Cannot validate operation for these seed values, please compare with results on a known platform.\<newline>'' = 0"
  by (code_simp)+

section \<open>The report of a run\<close>

lemma known_runD:
  "known_run c = Some (k, t) \<Longrightarrow>
   \<not> is_error t \<and> \<not> is_valid t \<and> \<not> is_seed t \<and> args_needed t = 0 \<and> k < 5"
  by (auto simp: known_run_def split: if_splits)

lemma no_type_errors: "snd check_data_types = 0" "\<forall>(b, _) \<in> set (fst check_data_types). \<not> b"
  by (simp_all add: check_data_types_def sizeof_def)

lemma type_lines_args: "\<forall>(b, fmt, args) \<in> set (fst check_data_types). args_needed fmt \<le> length args"
  by (simp add: check_data_types_def Let_def)

lemma crc_lines_args: "\<forall>(b, fmt, args) \<in> set (crc_lines res k). args_needed fmt \<le> length args"
  by (simp add: crc_lines_def)

lemma report_lines_args:
  "\<forall>(b, fmt, args) \<in> set (report_lines vers flags loc res t). args_needed fmt \<le> length args"
proof (cases "known_run (seed_crc res)")
  case None
  then show ?thesis using type_lines_args by (simp add: report_lines_def ball_Un)
next
  case (Some k)
  then show ?thesis
    using type_lines_args crc_lines_args [of res "fst k"] known_runD [of "seed_crc res" "fst k" "snd k"]
    by (cases k) (simp add: report_lines_def ball_Un)
qed

lemma seed_after_append: "seed_after (xs @ ys) c = seed_after ys (seed_after xs c)"
  by (induction xs c rule: seed_after.induct) auto

lemma report_seed: "seed_after (report_lines vers flags loc res t) c = ucast (seed_crc res)"
  by (simp add: report_lines_def seed_after_append)

text \<open>The conditions under which the reporting half of main complains about a run it knows.\<close>

definition run_is_good :: "core_results \<Rightarrow> nat \<Rightarrow> CORE_TICKS \<Rightarrow> bool" where
  "run_is_good res k t \<longleftrightarrow> (\<forall>(b, _) \<in> set (crc_lines res k). \<not> b) \<and> \<not> time_in_secs t < 10"

lemma crc_errors_zero: "crc_errors res k = 0 \<longleftrightarrow> (\<forall>(b, _) \<in> set (crc_lines res k). \<not> b)"
  by (simp add: crc_errors_def crc_lines_def)

lemma errors_good:
  assumes "known_run (seed_crc res) = Some (k, txt)"
  shows "filter (\<lambda>(b, fmt, _). b \<and> is_error fmt) (report_lines vers flags loc res t) = [] \<and>
      (\<exists>(b, fmt, _) \<in> set (report_lines vers flags loc res t). b \<and> is_valid fmt) \<longleftrightarrow> run_is_good res k t"
proof -
  have v: "verdict res t = (if time_in_secs t < 10 then crc_errors res k + 1 else crc_errors res k)"
    using assms by (simp add: verdict_def no_type_errors)
  have ty: "filter (\<lambda>(b, fmt, _). b \<and> is_error fmt) (fst check_data_types) = []"
    "\<not> (\<exists>(b, fmt, _) \<in> set (fst check_data_types). b \<and> is_valid fmt)"
    using no_type_errors(2) by (auto simp: filter_empty_conv)
  have crc: "filter (\<lambda>(b, fmt, _). b \<and> is_error fmt) (crc_lines res k) = [] \<longleftrightarrow> (\<forall>(b, _) \<in> set (crc_lines res k). \<not> b)"
    by (simp add: crc_lines_def)
  show ?thesis
  proof (cases "run_is_good res k t")
    case True
    then have "verdict res t = 0" using v by (simp add: run_is_good_def crc_errors_zero)
    then show ?thesis
      using True known_runD [OF assms] ty crc by (simp add: run_is_good_def report_lines_def assms)
  next
    case False
    then show ?thesis
      using known_runD [OF assms] ty crc by (auto simp: run_is_good_def report_lines_def assms)
  qed
qed

end
