(* ===== verification/Cm_Claims.thy ===== *)
theory Cm_Claims
  imports Cm_Lines
begin

text \<open>
  The properties of the CoreMark port: what its verdict on a run means, what its clock measures,
  and what its text search finds.
\<close>

section \<open>The verdict\<close>

definition cleared_report :: coremark_report_t where
  "cleared_report =
    \<lparr>magic = 0, version = 0, run_type = 0, clock_hz = 0, iterations = 0, cycles_lo = 0, cycles_hi = 0,
     instructions_lo = 0, instructions_hi = 0, seedcrc = 0, crclist = 0, crcmatrix = 0, crcstate = 0,
     crcfinal = 0, valid = 0, errors = 0\<rparr>"

definition expected_seedcrc :: "bool \<Rightarrow> ee_u16" where
  "expected_seedcrc VALIDATION_RUN = (if VALIDATION_RUN then 0x18f2 else 0xe9f5)"

lemma expected_is_known: "\<exists>txt. known_run (expected_seedcrc v) = Some (if v then 4 else 3, txt)"
  by (simp add: known_run_def expected_seedcrc_def)

lemma report_count: "length (filter P (report_lines vers flags loc res t)) < 2 ^ 32"
proof -
  have "length (report_lines vers flags loc res t) \<le> 29"
    by (simp add: report_lines_def check_data_types_def crc_lines_def Let_def split: option.split)
  then have "length (report_lines vers flags loc res t) < 2 ^ 32" by simp
  then show ?thesis by (rule le_less_trans [OF length_filter_le])
qed

lemma of_nat_zero32: "n < 2 ^ 32 \<Longrightarrow> (of_nat n :: u32) = 0 \<longleftrightarrow> n = 0"
  by (simp add: word_unat_eq_iff unat_of_nat take_bit_nat_eq_self)

lemma ucast_crc: "(ucast (a :: u16) :: u32) = ucast b \<longleftrightarrow> a = b"
proof -
  have "(ucast (ucast c :: u32) :: u16) = c" for c
    by (rule bit_word_eqI) (simp add: bit_simps)
  then show ?thesis by metis
qed

lemma seed_crcs:
  "crc16 666 (crc16 0x66 (crc16 0x3415 (crc16 0x3415 0))) = 0x18f2"
  "crc16 666 (crc16 0x66 (crc16 0 (crc16 0 0))) = 0xe9f5"
  by code_simp+

text \<open>C23. The verdict of the port is right. Started on a cleared report of either build, the reporting
  half of \<^verbatim>\<open>main\<close> never runs out of arguments, and the program ends with the status
  \<^verbatim>\<open>PASS\<close> exactly if the seed CRC is the one of the build, every selected algorithm produced the
  known CRC of that run, and the run took at least ten seconds of the 75 MHz clock. Any
  other run ends with a status that is not \<^verbatim>\<open>PASS\<close>.\<close>

theorem verdict_is_right:
  assumes "valid r = 0" and "errors r = 0" and "run_type r = run_type (snd (portable_init v p0 r0))"
  defines "k \<equiv> if v then 4 else 3"
  shows "\<exists>r' m'. main_report vers flags loc res t p r m = Some (r', m') \<and>
    (load32 m' BM_TOHOST_ADDR = BM_PASS_STATUS \<longleftrightarrow>
       seed_crc res = expected_seedcrc v \<and>
       (execs res AND ID_LIST = 0 \<or> res_crclist res = list_known_crc ! k) \<and>
       (execs res AND ID_MATRIX = 0 \<or> res_crcmatrix res = matrix_known_crc ! k) \<and>
       (execs res AND ID_STATE = 0 \<or> res_crcstate res = state_known_crc ! k) \<and>
       10 * COREMARK_CLOCK_HZ \<le> t)"
proof -
  let ?L = "report_lines vers flags loc res t"
  from say_all_effect [OF report_lines_args, of vers flags loc res t r] obtain r' where r':
    "say_all ?L r = Some r'" "errors r' = of_nat (length (filter (\<lambda>(b, fmt, _). b \<and> is_error fmt) ?L))"
    "valid r' = (if \<exists>(b, fmt, _) \<in> set ?L. b \<and> is_valid fmt then 1 else 0)"
    "seedcrc r' = ucast (seed_crc res)" "run_type r' = run_type r"
    using assms(1,2) by (auto simp: report_seed)
  have e: "errors r' = 0 \<longleftrightarrow> filter (\<lambda>(b, fmt, _). b \<and> is_error fmt) ?L = []"
    using r'(2) of_nat_zero32 [OF report_count] by simp
  have rt: "(if run_type r' = COREMARK_RUN_VALIDATION then 0x18f2 else 0xe9f5 :: u32) = ucast (expected_seedcrc v)"
    using r'(5) assms(3) by (simp add: portable_init_report COREMARK_RUN_VALIDATION_def expected_seedcrc_def)
  have pass: "load32 (portable_fini p r' m) BM_TOHOST_ADDR = BM_PASS_STATUS \<longleftrightarrow>
      valid r' = 1 \<and> errors r' = 0 \<and> seed_crc res = expected_seedcrc v"
    using bm_fail_status_not_pass r'(4) ucast_crc [of "seed_crc res" "expected_seedcrc v"]
    by (simp add: portable_fini_def Let_def rt bm_pass_def bm_fail_def load32_store32)
  have secs: "\<not> time_in_secs t < 10 \<longleftrightarrow> 10 * COREMARK_CLOCK_HZ \<le> t"
    by (simp add: time_in_secs_def COREMARK_CLOCK_HZ_def word_less_nat_alt word_le_nat_alt unat_div)
       (simp add: div_less_iff_less_mult not_less)
  have good: "valid r' = 1 \<and> errors r' = 0 \<longleftrightarrow> run_is_good res k t" if sc: "seed_crc res = expected_seedcrc v"
  proof -
    obtain nm where "known_run (seed_crc res) = Some (k, nm)"
      using expected_is_known [of v] sc by (auto simp: k_def)
    from errors_good [OF this, of vers flags loc t] show ?thesis unfolding e r'(3) by auto
  qed
  show ?thesis
    using r'(1) pass good secs
    by (intro exI [of _ r'] exI [of _ "portable_fini p r' m"])
       (auto simp: main_report_def run_is_good_def crc_lines_def)
qed


theorem verdict_is_right_witness:
  "\<exists>r' m'. main_report 0 0 0 \<lparr>seed1 = 0, seed2 = 0, seed3 = 0x66, res_size = 666, res_iterations = 2000, execs = 7,
       crc = 0, res_crclist = 0xe714, res_crcmatrix = 0x1fd7, res_crcstate = 0x8e3a\<rparr> 1000000000 \<lparr>portable_id = 1\<rparr>
       (snd (portable_init False \<lparr>portable_id = 0\<rparr> cleared_report)) (\<lambda>_. 0) = Some (r', m') \<and>
     load32 m' BM_TOHOST_ADDR = BM_PASS_STATUS"
  (is "\<exists>r' m'. main_report 0 0 0 ?res _ _ _ _ = _ \<and> _")
proof -
  have c: "seed_crc ?res = 0xe9f5"
    by (simp add: seed_crc_def seed_crcs)
  have known: "list_known_crc ! 3 = 0xe714" "matrix_known_crc ! 3 = 0x1fd7" "state_known_crc ! 3 = 0x8e3a"
    by (simp_all add: list_known_crc_def matrix_known_crc_def state_known_crc_def numeral_nat)
  show ?thesis
    using verdict_is_right [of "snd (portable_init False \<lparr>portable_id = 0\<rparr> cleared_report)" False
        "\<lparr>portable_id = 0\<rparr>" cleared_report 0 0 0 ?res 1000000000 "\<lparr>portable_id = 1\<rparr>" "\<lambda>_. 0"] c known
    by (simp add: portable_init_report expected_seedcrc_def COREMARK_CLOCK_HZ_def)
qed

text \<open>Both builds are runs the benchmark knows: with the seeds of the port and a third of the
  2000 bytes of data, the seed CRC that the benchmark computes is the one that \<open>portable_fini\<close> expects of the
  build, so that a correct run can pass.\<close>

lemma builds_are_known:
  "seed_crc \<lparr>seed1 = ucast (seed1_volatile v), seed2 = ucast (seed2_volatile v), seed3 = ucast (seed3_volatile v),
     res_size = 2000 div 3, res_iterations = n, execs = 7, crc = c, res_crclist = l, res_crcmatrix = x, res_crcstate = s\<rparr> =
   (if v then 0x18f2 else 0xe9f5)"
  by (simp add: seed_crc_def seed1_volatile_def seed2_volatile_def seed3_volatile_def seed_crcs)

section \<open>The clock\<close>

text \<open>C39. The timed region is measured. \<open>start_time\<close> and \<open>stop_time\<close> return, whatever happens between
  the reads; the report then holds the 64-bit number of cycles and of instructions between a
  moment during the first call and a moment during the second, however often the low halves
  of the counters wrap, and so at least the \<open>n\<close> cycles and \<open>i\<close> instructions that ran between
  the calls. The tick count that the benchmark sees is the low half of it, in seconds of the
  75 MHz clock.\<close>

theorem timed_region_is_measured:
  assumes "hart_ok (cpu s)"
  shows "\<exists>s1 c1 i1. start_time s = Some s1 \<and>
    cycles (cpu s) \<le> c1 \<and> c1 \<le> cycles (cpu s1) \<and> instret (cpu s) \<le> i1 \<and> i1 \<le> instret (cpu s1) \<and>
    (\<exists>s2 c2 i2. stop_time (s1\<lparr>cpu := (cpu s1)\<lparr>cycles := cycles (cpu s1) + n, instret := instret (cpu s1) + i\<rparr>\<rparr>) = Some s2 \<and>
      cycles (cpu s1) + n \<le> c2 \<and> c2 \<le> cycles (cpu s2) \<and> instret (cpu s1) + i \<le> i2 \<and> i2 \<le> instret (cpu s2) \<and>
      unat (join64 (cycles_hi (coremark_report s2)) (cycles_lo (coremark_report s2))) = (c2 - c1) mod 2 ^ 64 \<and>
      unat (join64 (instructions_hi (coremark_report s2)) (instructions_lo (coremark_report s2))) = (i2 - i1) mod 2 ^ 64 \<and>
      unat (time_in_secs (get_time s2)) = (c2 - c1) mod 2 ^ 32 div 75000000)"
proof -
  obtain c1 i1 h where 1: "start_time s = Some (s\<lparr>start_instret := of_nat i1, start_cycle := of_nat c1, cpu := h\<rparr>)"
    "later (cpu s) h" "cycles (cpu s) \<le> c1" "c1 \<le> cycles h" "instret (cpu s) \<le> i1" "i1 \<le> instret h"
    by (rule start_time_now [OF assms])
  let ?s1 = "s\<lparr>start_instret := of_nat i1, start_cycle := of_nat c1, cpu := h\<rparr>"
  let ?t = "?s1\<lparr>cpu := (cpu ?s1)\<lparr>cycles := cycles (cpu ?s1) + n, instret := instret (cpu ?s1) + i\<rparr>\<rparr>"
  have t: "hart_ok (cpu ?t)" "start_cycle ?t = of_nat c1" "start_instret ?t = of_nat i1"
    "c1 \<le> cycles (cpu ?t)" "i1 \<le> instret (cpu ?t)"
    using 1 by (simp_all add: later_def hart_ok_def)
  obtain c2 i2 s2 where 2: "stop_time ?t = Some s2" "later (cpu ?t) (cpu s2)"
    "cycles (cpu ?t) \<le> c2" "c2 \<le> cycles (cpu s2)" "instret (cpu ?t) \<le> i2" "i2 \<le> instret (cpu s2)"
    "join64 (cycles_hi (coremark_report s2)) (cycles_lo (coremark_report s2)) = of_nat (c2 - c1)"
    "join64 (instructions_hi (coremark_report s2)) (instructions_lo (coremark_report s2)) = of_nat (i2 - i1)"
    "get_time s2 = of_nat (c2 - c1)"
    by (rule stop_time_now [OF t])
  have "unat (time_in_secs (get_time s2)) = (c2 - c1) mod 2 ^ 32 div 75000000"
    using 2(9) by (simp add: time_in_secs_def COREMARK_CLOCK_HZ_def unat_div unat_of_nat take_bit_eq_mod)
  then show ?thesis
    using 1 2
    by (intro exI [of _ ?s1] exI [of _ c1] exI [of _ i1] conjI exI [of _ s2] exI [of _ c2] exI [of _ i2])
       (simp_all only: unat_of_nat64, simp_all)
qed

theorem timed_region_is_measured_witness:
  "\<exists>s1 s2. start_time \<lparr>coremark_report = cleared_report, start_cycle = 0, stop_cycle = 0, start_instret = 0, stop_instret = 0,
       cpu = \<lparr>cycles = 2 ^ 32 - 3, instret = 0, csr_reads = 0, elapse = (\<lambda>_. (2, 1))\<rparr>\<rparr> = Some s1 \<and>
     stop_time (s1\<lparr>cpu := (cpu s1)\<lparr>cycles := cycles (cpu s1) + 100, instret := instret (cpu s1) + 90\<rparr>\<rparr>) = Some s2"
  using timed_region_is_measured [of "\<lparr>coremark_report = cleared_report, start_cycle = 0, stop_cycle = 0, start_instret = 0,
      stop_instret = 0, cpu = \<lparr>cycles = 2 ^ 32 - 3, instret = 0, csr_reads = 0, elapse = (\<lambda>_. (2, 1))\<rparr>\<rparr>" 90 100]
  by (auto simp: hart_ok_def)

section \<open>Text and addresses\<close>

text \<open>The text functions decide what their names say: \<open>text_equal\<close> is equality and \<open>text_contains\<close> finds
  its needle at every position of a text that is not empty, so that \<open>ee_printf\<close> recognises
  a line by what it contains.\<close>

lemma text_search_is_right:
  "(text_equal left right \<longleftrightarrow> left = right) \<and>
   (text_contains text needle \<longleftrightarrow> text \<noteq> [] \<and> (\<exists>before after. text = before @ needle @ after))"
  by (simp_all add: text_equal_iff text_contains_sublist sublist_def)

lemma and_not_3: "w AND NOT 3 = w - (w AND 3)" for w :: u32
proof -
  have "NOT w AND (w AND 3) = 0" by (rule bit_word_eqI) (simp add: bit_simps)
  then have "w - (w AND 3) = w AND NOT (w AND 3)" by (rule disjunctive_diff_eq_and_not)
  also have "\<dots> = w AND NOT 3" by (rule bit_word_eqI) (auto simp: bit_simps)
  finally show ?thesis by simp
qed

lemma unat_and_3: "unat (w AND 3) = unat w mod 4" for w :: u32
proof -
  have "w AND 3 = take_bit 2 w" by (simp add: take_bit_eq_mask mask_eq_exp_minus_1)
  then show ?thesis by (simp only: unsigned_take_bit_eq) (simp add: take_bit_eq_mod)
qed

text \<open>\<open>align_mem\<close> rounds an address up to a multiple of four, for every address that has one
  above it.\<close>

lemma align_mem_rounds_up:
  assumes "x \<le> 0xfffffffc"
  shows "align_mem x AND 3 = 0 \<and> x \<le> align_mem x \<and> unat (align_mem x) < unat x + 4"
proof (cases "x = 0")
  case True
  then show ?thesis by (simp add: align_mem_def)
next
  case False
  define u where "u = unat x - 1"
  have u: "unat (x - 1) = u" "unat x = u + 1" "u < 2 ^ 32 - 4"
    using False assms by (simp_all add: u_def unat_minus_one unat_gt_0 word_le_nat_alt Suc_le_eq)
  have "unat ((x - 1) AND 3) \<le> unat (x - 1)" by (simp add: unat_and_3)
  then have "unat ((x - 1) AND NOT 3) = u - u mod 4"
    unfolding and_not_3 using u by (simp add: unat_sub word_le_nat_alt unat_and_3)
  then have "unat (align_mem x) = 4 + (u - u mod 4)"
    unfolding align_mem_def unat_word_ariths using u by simp
  moreover have "u - u mod 4 = 4 * (u div 4)" by (simp add: minus_mod_eq_mult_div)
  ultimately have a: "unat (align_mem x) = 4 * (u div 4 + 1)" by simp
  then have "unat (align_mem x AND 3) = 0" unfolding unat_and_3 by simp
  moreover have "u < 4 * (u div 4 + 1)" "4 * (u div 4) \<le> u" by presburger+
  ultimately show ?thesis using a u(2) by (simp add: word_le_nat_alt unat_eq_0)
qed

end
