(* ===== verification/Platform.thy ===== *)
theory Platform
  imports Kernel_Steps Soc_Access
begin

text \<open>
  The FreeRTOS image on the board: the state of the kernel and of the machine side by side, and
  the hooks of \<^verbatim>\<open>sw/freertos/platform.c\<close> that end the program with a report. The report, the
  mailbox and the device registers are reached through the bus, with one access per volatile
  store; the stacks are the \<open>memory\<close> of the kernel. The linker script keeps the two apart.
\<close>

section \<open>The board\<close>

record board =
  kern :: kernel
  mach :: machine
  ullNextTime :: u64
  pullMachineTimerCompareRegister :: u32
  csr_mie :: u32
  csr_mtval :: u32
  csr_mhartid :: u32

text \<open>
  How a function can stop: an access the bus refuses, a fault of the kernel, or \<open>rv32_soc_finish\<close>,
  after which the processor spins in the machine given. A kernel fault carries the board in
  which the call was made; the code goes on from there as \<open>after_fault\<close> below says.
\<close>

datatype stop = BusStop bus_fault | KernelStop kfault board | Finished machine

definition on_mach :: "(machine \<Rightarrow> bus_fault + machine) \<Rightarrow> board \<Rightarrow> stop + board" where
  "on_mach f b = (case f (mach b) of Inl e \<Rightarrow> Inl (BusStop e) | Inr m \<Rightarrow> Inr (b\<lparr>mach := m\<rparr>))"

definition ask_mach :: "(machine \<Rightarrow> bus_fault + ('a \<times> machine)) \<Rightarrow> board \<Rightarrow> stop + ('a \<times> board)" where
  "ask_mach f b = (case f (mach b) of Inl e \<Rightarrow> Inl (BusStop e) | Inr (x, m) \<Rightarrow> Inr (x, b\<lparr>mach := m\<rparr>))"

definition on_kern :: "(kernel \<Rightarrow> kfault + kernel) \<Rightarrow> board \<Rightarrow> stop + board" where
  "on_kern f b = (case f (kern b) of Inl e \<Rightarrow> Inl (KernelStop e b) | Inr s \<Rightarrow> Inr (b\<lparr>kern := s\<rparr>))"

definition ask_kern :: "(kernel \<Rightarrow> kfault + ('a \<times> kernel)) \<Rightarrow> board \<Rightarrow> stop + ('a \<times> board)" where
  "ask_kern f b = (case f (kern b) of Inl e \<Rightarrow> Inl (KernelStop e b) | Inr (x, s) \<Rightarrow> Inr (x, b\<lparr>kern := s\<rparr>))"

section \<open>The report of freertos\_demo.h\<close>

definition FREERTOS_DEMO_REPORT_ADDR :: u32 where "FREERTOS_DEMO_REPORT_ADDR = 0xe000"
definition FREERTOS_DEMO_REPORT_MAGIC :: u32 where "FREERTOS_DEMO_REPORT_MAGIC = 0x4652544f"
definition FREERTOS_DEMO_KERNEL :: u32 where "FREERTOS_DEMO_KERNEL = 0x000b0300"
definition FREERTOS_DEMO_ECHO_BYTE :: u32 where "FREERTOS_DEMO_ECHO_BYTE = 0xa5"

text \<open>The words of the structure in their order, and the address of each.\<close>

datatype freertos_demo_report_t =
    R_magic | R_kernel_version | R_tick_count | R_tick_hook_count | R_context_switch_count
  | R_blink_count | R_echo_count | R_echoed_byte | R_gpio_output | R_mstatus | R_mie | R_mcause
  | R_mepc | R_mtval | R_failure_code | R_reserved

primrec report_index :: "freertos_demo_report_t \<Rightarrow> nat" where
  "report_index R_magic = 0"
| "report_index R_kernel_version = 1"
| "report_index R_tick_count = 2"
| "report_index R_tick_hook_count = 3"
| "report_index R_context_switch_count = 4"
| "report_index R_blink_count = 5"
| "report_index R_echo_count = 6"
| "report_index R_echoed_byte = 7"
| "report_index R_gpio_output = 8"
| "report_index R_mstatus = 9"
| "report_index R_mie = 10"
| "report_index R_mcause = 11"
| "report_index R_mepc = 12"
| "report_index R_mtval = 13"
| "report_index R_failure_code = 14"
| "report_index R_reserved = 15"

definition word_addr :: "nat \<Rightarrow> u32" where
  "word_addr i = FREERTOS_DEMO_REPORT_ADDR + 4 * of_nat i"

definition put_report :: "freertos_demo_report_t \<Rightarrow> u32 \<Rightarrow> board \<Rightarrow> stop + board" where
  "put_report f v = on_mach (rv32_soc_mmio_write32 (word_addr (report_index f)) v)"

section \<open>Failing\<close>

definition csr_read_mstatus :: "board \<Rightarrow> u32" where "csr_read_mstatus b = csr_mstatus (kern b)"
definition csr_read_mie :: "board \<Rightarrow> u32" where "csr_read_mie b = csr_mie b"
definition csr_read_mtval :: "board \<Rightarrow> u32" where "csr_read_mtval b = csr_mtval b"

definition finish :: "u32 \<Rightarrow> board \<Rightarrow> stop" where
  "finish status b =
     (case rv32_soc_finish status (mach b) of Inl e \<Rightarrow> BusStop e | Inr m \<Rightarrow> Finished m)"

text \<open>A function that does not return has a \<open>stop\<close> for its result.\<close>

definition stopping :: "stop + stop \<Rightarrow> stop" where
  "stopping r = (case r of Inl e \<Rightarrow> e | Inr e \<Rightarrow> e)"

definition freertos_platform_fail :: "u32 \<Rightarrow> board \<Rightarrow> stop" where
  "freertos_platform_fail code b =
     (let status = push_bit 1 code OR 3
      in stopping (bindE (put_report R_magic FREERTOS_DEMO_REPORT_MAGIC b) (\<lambda>b.
         bindE (put_report R_kernel_version FREERTOS_DEMO_KERNEL b) (\<lambda>b.
         bindE (put_report R_tick_hook_count (freertos_tick_hook_count (kern b)) b) (\<lambda>b.
         bindE (put_report R_context_switch_count (freertos_context_switch_count (kern b)) b) (\<lambda>b.
         bindE (put_report R_mstatus (csr_read_mstatus b) b) (\<lambda>b.
         bindE (put_report R_mie (csr_read_mie b) b) (\<lambda>b.
         bindE (put_report R_mtval (csr_read_mtval b) b) (\<lambda>b.
         bindE (put_report R_failure_code code b) (\<lambda>b.
         let status = (if status = RV32_SOC_PASS_STATUS then 3 else status)
         in Inr (finish status b)))))))))))"

definition freertos_assert_fail :: "u32 \<Rightarrow> u32 \<Rightarrow> board \<Rightarrow> stop" where
  "freertos_assert_fail file line b = freertos_platform_fail (0x1000 OR (line AND 0x0fff)) b"

definition vApplicationStackOverflowHook :: "u32 \<Rightarrow> u8 list \<Rightarrow> board \<Rightarrow> stop" where
  "vApplicationStackOverflowHook task task_name b = freertos_platform_fail 0x2001 b"

definition freertos_risc_v_application_exception_handler :: "u32 \<Rightarrow> u32 \<Rightarrow> board \<Rightarrow> stop" where
  "freertos_risc_v_application_exception_handler cause epc b =
     stopping (bindE (put_report R_mcause cause b) (\<lambda>b.
       bindE (put_report R_mepc epc b) (\<lambda>b.
       Inr (freertos_platform_fail (0x3000 OR (cause AND 0x1f)) b))))"

definition freertos_risc_v_application_interrupt_handler :: "u32 \<Rightarrow> u32 \<Rightarrow> board \<Rightarrow> stop" where
  "freertos_risc_v_application_interrupt_handler cause epc b =
     stopping (bindE (put_report R_mcause cause b) (\<lambda>b.
       bindE (put_report R_mepc epc b) (\<lambda>b.
       Inr (freertos_platform_fail (0x3100 OR (cause AND 0x1f)) b))))"

text \<open>
  What the code does after a fault of the kernel that it detects: the macro \<open>configASSERT\<close> of
  \<^verbatim>\<open>FreeRTOSConfig.h\<close> for a false condition, the stack overflow hook. The other faults are not detected.
\<close>

definition config_assert :: "bool \<Rightarrow> u32 \<Rightarrow> u32 \<Rightarrow> board \<Rightarrow> stop + board" where
  "config_assert condition file line b =
     (if \<not> condition then Inl (freertos_assert_fail file line b) else Inr b)"

definition after_fault :: "u32 \<Rightarrow> kfault \<Rightarrow> board \<Rightarrow> stop" where
  "after_fault file e b =
     (case e of AssertFail line \<Rightarrow> freertos_assert_fail file (of_nat line) b
      | StackOverflow \<Rightarrow> vApplicationStackOverflowHook (pxCurrentTCB (kern b))
          (pcTaskName (tcb (kern b) (pxCurrentTCB (kern b)))) b
      | _ \<Rightarrow> KernelStop e b)"

section \<open>The memory functions of platform.c\<close>

text \<open>
  The image links its own copies of the memory functions; they are the functions of the
  runtime once more.
\<close>

function platform_memcpy_loop :: "u32 \<Rightarrow> u32 \<Rightarrow> u32 \<Rightarrow> mem \<Rightarrow> mem" where
  "platform_memcpy_loop dst src len m =
     (if len \<noteq> 0 then platform_memcpy_loop (dst + 1) (src + 1) (len - 1) (m(dst := m src)) else m)"
  by pat_completeness auto
termination
  by (relation "measure (\<lambda>(_, _, n, _). unat n)") (auto simp: unat_minus_one unat_gt_0)

definition platform_memcpy :: "u32 \<Rightarrow> u32 \<Rightarrow> u32 \<Rightarrow> mem \<Rightarrow> u32 \<times> mem" where
  "platform_memcpy destination source len m = (destination, platform_memcpy_loop destination source len m)"

function platform_memset_loop :: "u32 \<Rightarrow> u8 \<Rightarrow> u32 \<Rightarrow> mem \<Rightarrow> mem" where
  "platform_memset_loop dst v len m =
     (if len \<noteq> 0 then platform_memset_loop (dst + 1) v (len - 1) (m(dst := v)) else m)"
  by pat_completeness auto
termination
  by (relation "measure (\<lambda>(_, _, n, _). unat n)") (auto simp: unat_minus_one unat_gt_0)

definition platform_memset :: "u32 \<Rightarrow> u32 \<Rightarrow> u32 \<Rightarrow> mem \<Rightarrow> u32 \<times> mem" where
  "platform_memset destination v len m = (destination, platform_memset_loop destination (ucast v) len m)"

function platform_memcmp :: "u32 \<Rightarrow> u32 \<Rightarrow> u32 \<Rightarrow> mem \<Rightarrow> int" where
  "platform_memcmp left right len m =
     (if len \<noteq> 0
      then if m left \<noteq> m right then (if m left < m right then -1 else 1)
           else platform_memcmp (left + 1) (right + 1) (len - 1) m
      else 0)"
  by pat_completeness auto
termination
  by (relation "measure (\<lambda>(_, _, n, _). unat n)") (auto simp: unat_minus_one unat_gt_0)

declare platform_memcpy_loop.simps [simp del] platform_memset_loop.simps [simp del] platform_memcmp.simps [simp del]

lemma platform_memcpy_same: "platform_memcpy_loop d s n m = memcpy_loop d s n m"
  by (induction d s n m rule: memcpy_loop.induct)
     (subst platform_memcpy_loop.simps, subst memcpy_loop.simps, simp add: fun_upd_def)

lemma platform_memset_same: "platform_memset_loop d v n m = memset_loop d v n m"
  by (induction d v n m rule: memset_loop.induct)
     (subst platform_memset_loop.simps, subst memset_loop.simps, simp add: fun_upd_def)

lemma platform_memcmp_same: "platform_memcmp l r n m = memcmp l r n m"
  by (induction l r n m rule: memcmp.induct)
     (subst platform_memcmp.simps, subst memcmp.simps, simp)

section \<open>Stores to the report\<close>

lemma report_index_less: "report_index f < 16"
  by (cases f) simp_all

lemma report_index_inj: "report_index f = report_index g \<longleftrightarrow> f = g"
  by (cases f; cases g) simp_all

lemma unat_word_addr: "i < 2048 \<Longrightarrow> unat (word_addr i) = 0xe000 + 4 * i"
proof -
  assume "i < 2048"
  moreover from this have "unat (of_nat i :: u32) = i" by (simp add: unat_of_nat take_bit_nat_eq_self)
  ultimately show ?thesis
    by (simp add: word_addr_def FREERTOS_DEMO_REPORT_ADDR_def unat_word_ariths)
qed

lemma word_addr_diff: "i < 2048 \<Longrightarrow> j < 2048 \<Longrightarrow> i \<noteq> j \<Longrightarrow>
    4 \<le> unat (word_addr i - word_addr j) \<and> unat (word_addr i - word_addr j) \<le> 2 ^ 32 - 4"
proof -
  assume ij: "i < 2048" "j < 2048" "i \<noteq> j"
  show ?thesis
    using ij unat_word_addr [OF ij(1)] unat_word_addr [OF ij(2)]
    by (cases "j < i") (auto simp: unat_sub_if' word_le_nat_alt)
qed

lemma load_word_addr:
  assumes "i < 2048" "j < 2048"
  shows "load32 (store32 (word_addr i) v m) (word_addr j) = (if j = i then v else load32 m (word_addr j))"
  using words_apart [of "word_addr j" "word_addr i" v m] word_addr_diff [OF assms(2,1)] load32_store32 by auto

text \<open>The mailbox is the word 2047 of the same window.\<close>

lemma tohost_word_addr: "RV32_SOC_TOHOST_ADDR = word_addr 2047"
  by (simp add: word_addr_def dev_simps FREERTOS_DEMO_REPORT_ADDR_def)

lemma word_addr_tcm: "i < 2048 \<Longrightarrow> word_addr i < 0x10000 \<and> word_addr i AND 3 = 0"
proof -
  assume i: "i < 2048"
  have "word_addr i AND 3 = take_bit 2 (word_addr i)" by (simp add: take_bit_eq_mask mask_eq_exp_minus_1)
  also have "\<dots> = 0"
    unfolding word_unat_eq_iff unsigned_take_bit_eq unat_word_addr [OF i] by (simp add: take_bit_eq_mod)
  finally show ?thesis using i by (simp add: word_less_nat_alt unat_word_addr)
qed


text \<open>
  \<open>wrote ws m m'\<close>: from \<open>m\<close> to \<open>m'\<close> exactly the words \<open>ws\<close> of the window were stored, in this order, and
  no device register was written.
\<close>

definition wrote :: "(nat \<times> u32) list \<Rightarrow> machine \<Rightarrow> machine \<Rightarrow> bool" where
  "wrote ws m m' \<longleftrightarrow>
     bus_log m' = bus_log m @ map (\<lambda>(i, v). write_request (word_addr i) v) ws \<and>
     tcm (soc m') = fold (\<lambda>(i, v). store32 (word_addr i) v) ws (tcm (soc m)) \<and>
     mtimecmp_q (timer (soc m')) = mtimecmp_q (timer (soc m)) \<and>
     output_q (gpio_dev (soc m')) = output_q (gpio_dev (soc m)) \<and>
     output_enable_q (gpio_dev (soc m')) = output_enable_q (gpio_dev (soc m)) \<and>
     clks_per_bit (soc m') = clks_per_bit (soc m) \<and> gap m' = gap m \<and>
     mtime_q (timer (soc m')) = mtime_q (timer (soc m)) + of_nat (cycle m' - cycle m) \<and> cycle m \<le> cycle m'"

lemma wrote_Nil: "wrote [] m m"
  by (simp add: wrote_def)

lemma wrote_append:
  assumes "wrote ws m m1" "wrote vs m1 m2"
  shows "wrote (ws @ vs) m m2"
proof -
  have "cycle m2 - cycle m = (cycle m2 - cycle m1) + (cycle m1 - cycle m)"
    using assms by (simp add: wrote_def)
  then show ?thesis using assms by (simp add: wrote_def algebra_simps)
qed

lemma write_word:
  assumes "i < 2048"
  obtains m' where "rv32_soc_mmio_write32 (word_addr i) v m = Inr m'" "wrote [(i, v)] m m'"
proof -
  have a: "word_addr i < 0x10000" "word_addr i AND 3 = 0" using word_addr_tcm [OF assms] by simp_all
  from write_tcm [OF a, of v m] obtain m' where m': "rv32_soc_mmio_write32 (word_addr i) v m = Inr m'"
    "passes (write_request (word_addr i) v) m m'" "tcm (soc m') = store32 (word_addr i) v (tcm (soc m))" by blast
  have t: "request_target (req_addr (write_request (word_addr i) v)) = TARGET_TCM"
    using tcm_target [OF a(1)] by simp
  show thesis
    using m'(1,3) passes_log [OF m'(2)] passes_env [OF m'(2)] passes_timer [OF m'(2)] passes_gpio [OF m'(2)] t
    by (intro that [of m']) (simp_all add: wrote_def)
qed

lemma wrote_word:
  assumes "wrote ws m m'" "\<forall>(i, _) \<in> set ws. i < 2048" "j < 2048"
  shows "load32 (tcm (soc m')) (word_addr j) =
    (case map_of (rev ws) j of Some v \<Rightarrow> v | None \<Rightarrow> load32 (tcm (soc m)) (word_addr j))"
proof -
  have "load32 (fold (\<lambda>(i, v). store32 (word_addr i) v) ws t) (word_addr j) =
      (case map_of (rev ws) j of Some v \<Rightarrow> v | None \<Rightarrow> load32 t (word_addr j))" for t
    using assms(2)
  proof (induction ws arbitrary: t rule: rev_induct)
    case Nil
    then show ?case by simp
  next
    case (snoc w ws)
    then show ?case
      using assms(3) by (cases w) (simp add: load_word_addr)
  qed
  then show ?thesis using assms(1) by (simp add: wrote_def)
qed

lemma put_report_run:
  obtains m' where "put_report f v b = Inr (b\<lparr>mach := m'\<rparr>)" "wrote [(report_index f, v)] (mach b) m'"
proof -
  have "report_index f < 2048" using report_index_less [of f] by simp
  from write_word [OF this, of v "mach b"] obtain m' where
    "rv32_soc_mmio_write32 (word_addr (report_index f)) v (mach b) = Inr m'"
    "wrote [(report_index f, v)] (mach b) m'" .
  then show thesis by (intro that [of m']) (simp_all add: put_report_def on_mach_def)
qed

lemma finish_run:
  assumes "mach b = m"
  shows "\<exists>m'. stopping (Inr (finish status b)) = Finished m' \<and> wrote [(2047, status)] m m'"
proof -
  from write_word [of 2047 status m] obtain m' where
    "rv32_soc_mmio_write32 (word_addr 2047) status m = Inr m'" "wrote [(2047, status)] m m'" by auto
  then show ?thesis
    using assms by (intro exI [of _ m']) (simp add: stopping_def finish_def rv32_soc_finish_def tohost_word_addr)
qed

text \<open>A store to the report followed by the rest of a function that does not return.\<close>

lemma put_then_stop:
  assumes "mach b = m" and "\<And>m1. wrote [(report_index f, v)] m m1 \<Longrightarrow>
    \<exists>m'. stopping (k (b\<lparr>mach := m1\<rparr>)) = Finished m' \<and> wrote ws m1 m'"
  shows "\<exists>m'. stopping (bindE (put_report f v b) k) = Finished m' \<and> wrote ((report_index f, v) # ws) m m'"
proof -
  obtain m1 where m1: "put_report f v b = Inr (b\<lparr>mach := m1\<rparr>)" "wrote [(report_index f, v)] m m1"
    using put_report_run [of f v b] assms(1) by metis
  from assms(2) [OF m1(2)] obtain m' where "stopping (k (b\<lparr>mach := m1\<rparr>)) = Finished m'" "wrote ws m1 m'" by blast
  then show ?thesis using m1 wrote_append [OF m1(2)] by (intro exI [of _ m']) simp
qed

definition fail_stores :: "u32 \<Rightarrow> board \<Rightarrow> (nat \<times> u32) list" where
  "fail_stores code b =
     [(report_index R_magic, FREERTOS_DEMO_REPORT_MAGIC), (report_index R_kernel_version, FREERTOS_DEMO_KERNEL),
      (report_index R_tick_hook_count, freertos_tick_hook_count (kern b)),
      (report_index R_context_switch_count, freertos_context_switch_count (kern b)),
      (report_index R_mstatus, csr_mstatus (kern b)), (report_index R_mie, csr_mie b),
      (report_index R_mtval, csr_mtval b), (report_index R_failure_code, code), (2047, push_bit 1 code OR 3)]"

lemma fail_status: "push_bit 1 code OR 3 \<noteq> RV32_SOC_PASS_STATUS"
proof -
  have "bit (push_bit 1 code OR 3) 1" by (simp add: bit_or_iff)
  then show ?thesis by (auto simp: RV32_SOC_PASS_STATUS_def)
qed

lemma platform_fail_run:
  "\<exists>m'. freertos_platform_fail code b = Finished m' \<and> wrote (fail_stores code b) (mach b) m'"
  unfolding freertos_platform_fail_def Let_def fail_stores_def if_not_P [OF fail_status]
    csr_read_mstatus_def csr_read_mie_def csr_read_mtval_def
  by (rule put_then_stop, simp, (simp del: report_index.simps)?)+ (rule finish_run, simp)

lemma fail_after_run:
  assumes "mach b = m"
  shows "\<exists>m'. stopping (Inr (freertos_platform_fail code b)) = Finished m' \<and> wrote (fail_stores code b) m m'"
  using platform_fail_run [of code b] assms by (simp add: stopping_def)

lemma exception_handler_run:
  "\<exists>m'. freertos_risc_v_application_exception_handler cause epc b = Finished m' \<and>
    wrote ((report_index R_mcause, cause) # (report_index R_mepc, epc) #
      fail_stores (0x3000 OR (cause AND 0x1f)) b) (mach b) m'"
proof -
  have f: "fail_stores c (b\<lparr>mach := m1, mach := m2\<rparr>) = fail_stores c b" for c m1 m2
    by (simp add: fail_stores_def)
  show ?thesis
    unfolding freertos_risc_v_application_exception_handler_def
    by (rule put_then_stop, simp)+ (subst f [symmetric], rule fail_after_run, simp)
qed

lemma interrupt_handler_run:
  "\<exists>m'. freertos_risc_v_application_interrupt_handler cause epc b = Finished m' \<and>
    wrote ((report_index R_mcause, cause) # (report_index R_mepc, epc) #
      fail_stores (0x3100 OR (cause AND 0x1f)) b) (mach b) m'"
proof -
  have f: "fail_stores c (b\<lparr>mach := m1, mach := m2\<rparr>) = fail_stores c b" for c m1 m2
    by (simp add: fail_stores_def)
  show ?thesis
    unfolding freertos_risc_v_application_interrupt_handler_def
    by (rule put_then_stop, simp)+ (subst f [symmetric], rule fail_after_run, simp)
qed

text \<open>The report after a run of stores.\<close>

definition report_of :: "machine \<Rightarrow> freertos_demo_report_t \<Rightarrow> u32" where
  "report_of m f = load32 (tcm (soc m)) (word_addr (report_index f))"

lemma wrote_report:
  assumes "wrote ws m m'" "\<forall>(i, _) \<in> set ws. i < 2048"
  shows "report_of m' f = (case map_of (rev ws) (report_index f) of Some v \<Rightarrow> v | None \<Rightarrow> report_of m f)"
    "load32 (tcm (soc m')) RV32_SOC_TOHOST_ADDR =
      (case map_of (rev ws) 2047 of Some v \<Rightarrow> v | None \<Rightarrow> load32 (tcm (soc m)) RV32_SOC_TOHOST_ADDR)"
proof -
  have "report_index f < 2048" using report_index_less [of f] by simp
  from wrote_word [OF assms this] show "report_of m' f = (case map_of (rev ws) (report_index f) of Some v \<Rightarrow> v | None \<Rightarrow> report_of m f)"
    unfolding report_of_def .
  show "load32 (tcm (soc m')) RV32_SOC_TOHOST_ADDR =
      (case map_of (rev ws) 2047 of Some v \<Rightarrow> v | None \<Rightarrow> load32 (tcm (soc m)) RV32_SOC_TOHOST_ADDR)"
    using wrote_word [OF assms, of 2047] unfolding tohost_word_addr by simp
qed

lemma fail_stores_window: "\<forall>(i, _) \<in> set (fail_stores code b). i < 2048"
  by (simp add: fail_stores_def)

end
