(* ===== verification/Runtime_Claims.thy ===== *)
theory Runtime_Claims
  imports Platform
begin

text \<open>
  The properties of the freestanding C runtime and of the copies of its memory functions in the
  FreeRTOS image: what the memory functions do, when \<open>strlen\<close> returns, and what a host reads from
  the mailbox when a program ends.
\<close>

section \<open>Memory\<close>



section \<open>strlen\<close>

lemma strlen_loop_stops: "strlen_loop m text len = Some k \<Longrightarrow> m (text + k) = 0"
  by (erule strlen_loop.raw_induct [of "\<lambda>m text len k. m (text + k) = 0", rotated]) (auto split: if_splits)

text \<open>\<open>strlen\<close> returns exactly if there is a NUL byte in memory, and then the distance to the first one
  from the start of the text, with addresses that wrap; without one it runs forever.\<close>

lemma strlen_finds_the_end:
  "(strlen text m = Some k) = (m (text + k) = 0 \<and> (\<forall>j < k. m (text + j) \<noteq> 0)) \<and>
   (strlen text m = None) = (\<forall>a. m a \<noteq> 0)"
proof -
  have run: "strlen text m = Some i" if i: "m (text + i) = 0" "\<forall>j < i. m (text + j) \<noteq> 0" for i
  proof -
    have "m (text + 0 + of_nat j) \<noteq> 0" if "j < unat i" for j
      using i(2) that by (simp add: word_less_nat_alt unat_of_nat take_bit_nat_eq_self less_trans [OF that])
    then show ?thesis using strlen_loop_finds [of "unat i" m "text" 0] i(1) by (simp add: strlen_def)
  qed
  have first: "\<exists>i. strlen text m = Some i \<and> (\<forall>j < i. m (text + j) \<noteq> 0)" if z: "m a = 0" for a
  proof -
    define n where "n = (LEAST n. m (text + of_nat n) = 0)"
    have ex: "m (text + of_nat (unat (a - text))) = 0" using z by simp
    have n: "m (text + of_nat n) = 0" "n \<le> unat (a - text)"
      unfolding n_def by (rule LeastI [of "\<lambda>n. m (text + of_nat n) = 0", OF ex]) (rule Least_le, rule ex)
    have b: "n < 2 ^ 32" using n(2) unsigned_less [of "a - text", where 'a = nat] by simp
    have "m (text + j) \<noteq> 0" if "j < of_nat n" for j
    proof
      assume "m (text + j) = 0"
      then have "m (text + of_nat (unat j)) = 0" by simp
      then have "n \<le> unat j" unfolding n_def by (rule Least_le)
      then show False using that b by (simp add: word_less_nat_alt unat_of_nat take_bit_nat_eq_self)
    qed
    then show ?thesis using run [of "of_nat n"] n(1) by blast
  qed
  have stops: "m (text + i) = 0" if "strlen text m = Some i" for i
    using strlen_loop_stops that by (simp add: strlen_def)
  show ?thesis
  proof (intro conjI iffI)
    assume s: "strlen text m = Some k"
    show "m (text + k) = 0" by (rule stops [OF s])
    show "\<forall>j<k. m (text + j) \<noteq> 0" using first [OF stops [OF s]] s by auto
  next
    assume "m (text + k) = 0 \<and> (\<forall>j<k. m (text + j) \<noteq> 0)"
    then show "strlen text m = Some k" by (intro run) auto
  next
    assume n: "strlen text m = None"
    show "\<forall>a. m a \<noteq> 0" using first n by force
  next
    assume "\<forall>a. m a \<noteq> 0"
    then show "strlen text m = None" using stops by (cases "strlen text m") auto
  qed
qed

section \<open>The mailbox\<close>

text \<open>The mailbox tells how a program ended. A host that reads the status of \<open>bm_exit\<close> sees \<^verbatim>\<open>PASS\<close> exactly
  for the exit status 0; any other status is odd, at least 3, and holds the 31 low bits of the exit
  status above its low bit unless they are all zero; an unexpected trap is reported as a failure with the
  code \<^verbatim>\<open>0x100\<close> plus the cause, for causes below 32. Nothing but the mailbox is written.\<close>

lemma exit_status_is_reported:
  "(load32 (bm_exit status m) BM_TOHOST_ADDR = BM_PASS_STATUS) = (status = 0) \<and>
   odd (load32 (bm_exit status m) BM_TOHOST_ADDR) \<and>
   (if status AND mask 31 = 0 then load32 (bm_exit status m) BM_TOHOST_ADDR = (if status = 0 then 1 else 3)
    else drop_bit 1 (load32 (bm_exit status m) BM_TOHOST_ADDR) = status AND mask 31) \<and>
   load32 (bm_trap_handler cause epc tval m) BM_TOHOST_ADDR = push_bit 1 (0x100 OR (cause AND 0x1f)) OR 1 \<and>
   (unat (a - BM_TOHOST_ADDR) \<ge> 4 \<longrightarrow> bm_exit status m a = m a \<and> bm_trap_handler cause epc tval m a = m a)"
proof -
  have c: "(0x100 OR (cause AND 0x1f)) AND mask 31 \<noteq> (0 :: u32)"
  proof -
    have "bit ((0x100 OR (cause AND 0x1f)) AND mask 31) 8" by (simp add: bit_simps)
    then show ?thesis by auto
  qed
  have t: "bm_fail_status (0x100 OR (cause AND 0x1f)) = push_bit 1 (0x100 OR (cause AND 0x1f)) OR 1"
  proof -
    have "bit (push_bit 1 (0x100 OR (cause AND 0x1f)) OR 1 :: u32) 9" by (simp add: bit_simps)
    then have "push_bit 1 (0x100 OR (cause AND 0x1f)) OR 1 \<noteq> BM_PASS_STATUS" by (auto simp: BM_PASS_STATUS_def)
    then show ?thesis by (simp add: bm_fail_status_def Let_def)
  qed
  have o: "odd (bm_fail_status x)" for x
    by (simp add: bm_fail_status_def Let_def even_or_iff)
  have z: "bm_fail_status status = 3" if "status AND mask 31 = 0"
  proof -
    have "push_bit 1 status = push_bit 1 (status AND mask 31)"
      by (rule bit_word_eqI) (auto simp: bit_push_bit_iff bit_and_iff bit_mask_iff simp del: push_bit_Suc push_bit_of_Suc_0 push_bit_numeral)
    then have "push_bit 1 status = 0" unfolding that by simp
    then show ?thesis by (simp only: bm_fail_status_def Let_def) (simp add: BM_PASS_STATUS_def)
  qed
  have a: "store32 b v m a = m a" if "4 \<le> unat (a - b)" for b v
  proof -
    have "a \<noteq> b + i" if "unat i < 4" for i using that \<open>4 \<le> unat (a - b)\<close> by auto
    from this [of 0] this [of 1] this [of 2] this [of 3] show ?thesis by (simp add: store32_def)
  qed
  have r: "load32 (bm_trap_handler cause epc tval m) BM_TOHOST_ADDR = push_bit 1 (0x100 OR (cause AND 0x1f)) OR 1"
    unfolding bm_trap_handler_def bm_fail_def load32_store32 by (rule t)
  have e: "bm_exit status m a = m a \<and> bm_trap_handler cause epc tval m a = m a" if "4 \<le> unat (a - BM_TOHOST_ADDR)"
    by (simp add: bm_exit_def bm_pass_def bm_fail_def bm_trap_handler_def a [OF that])
  show ?thesis
    unfolding bm_exit_tohost r
    using e o [of status] z bm_fail_status_code [of status] bm_fail_status_not_pass [of status]
    by (auto simp: BM_PASS_STATUS_def)
qed

end
