(* ===== verification/Port.thy ===== *)
theory Port
  imports Platform
begin

text \<open>
  The RISC-V port of the kernel, \<^verbatim>\<open>portable/GCC/RISC-V/port.c\<close> and \<^verbatim>\<open>portASM.S\<close>, on the board: the
  tick timer, the start of the scheduler and the dispatch of traps.
\<close>

section \<open>Configuration\<close>

definition FREERTOS_CPU_CLOCK_HZ :: u32 where "FREERTOS_CPU_CLOCK_HZ = 75000000"
definition configCPU_CLOCK_HZ :: u32 where "configCPU_CLOCK_HZ = FREERTOS_CPU_CLOCK_HZ"
definition configTICK_RATE_HZ :: u32 where "configTICK_RATE_HZ = 1000"
definition configISR_STACK_SIZE_WORDS :: u32 where "configISR_STACK_SIZE_WORDS = 192"
definition configMTIME_BASE_ADDRESS :: u32 where "configMTIME_BASE_ADDRESS = 0x0200bff8"
definition configMTIMECMP_BASE_ADDRESS :: u32 where "configMTIMECMP_BASE_ADDRESS = 0x02004000"

definition portBYTE_ALIGNMENT_MASK :: u32 where "portBYTE_ALIGNMENT_MASK = 0x000f"
definition portISR_STACK_FILL_BYTE :: u32 where "portISR_STACK_FILL_BYTE = 0xee"

definition uxTimerIncrementsForOneTick :: u32 where
  "uxTimerIncrementsForOneTick = configCPU_CLOCK_HZ div configTICK_RATE_HZ"

text \<open>\<open>xISRStack\<close> is the link-time address of the interrupt stack.\<close>

definition xISRStackTop :: "u32 \<Rightarrow> u32" where
  "xISRStackTop xISRStack = xISRStack + 4 * (configISR_STACK_SIZE_WORDS AND NOT portBYTE_ALIGNMENT_MASK)"

section \<open>The tick timer\<close>

text \<open>
  The store of the 64-bit \<open>ullNextTime\<close> is two word stores, whose order the compiler chooses:
  \<open>hi_first\<close> says which.
\<close>

definition store_compare :: "bool \<Rightarrow> u32 \<Rightarrow> u64 \<Rightarrow> machine \<Rightarrow> bus_fault + machine" where
  "store_compare hi_first a v m =
     (if hi_first
      then bindE (rv32_soc_mmio_write32 (a + 4) (hi32 v) m) (rv32_soc_mmio_write32 a (lo32 v))
      else bindE (rv32_soc_mmio_write32 a (lo32 v) m) (rv32_soc_mmio_write32 (a + 4) (hi32 v)))"

definition vPortSetupTimerInterrupt :: "bool \<Rightarrow> board \<Rightarrow> stop + board" where
  "vPortSetupTimerInterrupt hi_first b =
     (let pulTimeHigh = configMTIME_BASE_ADDRESS + 4;
          pulTimeLow = configMTIME_BASE_ADDRESS;
          ulHartId = csr_mhartid b;
          b = b\<lparr>pullMachineTimerCompareRegister := configMTIMECMP_BASE_ADDRESS + ulHartId * 8\<rparr>
      in case split_read (rv32_soc_mmio_read32 pulTimeHigh) (rv32_soc_mmio_read32 pulTimeLow) (mach b) of
           None \<Rightarrow> Inl (BusStop NoReturn)
         | Some (Inl e) \<Rightarrow> Inl (BusStop e)
         | Some (Inr (ulCurrentTimeHigh, ulCurrentTimeLow, _, m)) \<Rightarrow>
             (let b = b\<lparr>mach := m\<rparr>;
                  b = b\<lparr>ullNextTime := ucast ulCurrentTimeHigh\<rparr>;
                  b = b\<lparr>ullNextTime := push_bit 32 (ullNextTime b)\<rparr>;
                  b = b\<lparr>ullNextTime := ullNextTime b OR ucast ulCurrentTimeLow\<rparr>;
                  b = b\<lparr>ullNextTime := ullNextTime b + ucast uxTimerIncrementsForOneTick\<rparr>
              in bindE (on_mach (store_compare hi_first (pullMachineTimerCompareRegister b) (ullNextTime b)) b)
                   (\<lambda>b. Inr (b\<lparr>ullNextTime := ullNextTime b + ucast uxTimerIncrementsForOneTick\<rparr>))))"

text \<open>The macro of \<^verbatim>\<open>portASM.S\<close>, with its registers.\<close>

definition portUPDATE_MTIMER_COMPARE_REGISTER :: "board \<Rightarrow> stop + board" where
  "portUPDATE_MTIMER_COMPARE_REGISTER b =
     (let a0 = pullMachineTimerCompareRegister b;
          a2 = lo32 (ullNextTime b);
          a3 = hi32 (ullNextTime b)
      in bindE (on_mach (rv32_soc_mmio_write32 a0 (-1)) b) (\<lambda>b.
         bindE (on_mach (rv32_soc_mmio_write32 (a0 + 4) a3) b) (\<lambda>b.
         bindE (on_mach (rv32_soc_mmio_write32 a0 a2) b) (\<lambda>b.
         let t0 = uxTimerIncrementsForOneTick;
             a4 = t0 + a2;
             t1 = (if a4 < a2 then 1 else 0);
             t2 = a3 + t1
         in Inr (b\<lparr>ullNextTime := join64 t2 a4\<rparr>)))))"

section \<open>Starting the scheduler\<close>

text \<open>A write of \<open>mie\<close> keeps the bits that the processor implements, only the timer's.\<close>

definition MIE_WRITABLE_MASK :: u32 where "MIE_WRITABLE_MASK = 0x80"

definition csrs_mie :: "u32 \<Rightarrow> board \<Rightarrow> board" where
  "csrs_mie v b = b\<lparr>csr_mie := (csr_mie b OR v) AND MIE_WRITABLE_MASK\<rparr>"

text \<open>The assertion is the one in line 169 of \<^verbatim>\<open>port.c\<close>. The result is the board that runs the first task.\<close>

definition xPortStartScheduler :: "bool \<Rightarrow> u32 \<Rightarrow> board \<Rightarrow> stop + board" where
  "xPortStartScheduler hi_first xISRStack b =
     (if xISRStackTop xISRStack AND portBYTE_ALIGNMENT_MASK \<noteq> 0 then Inl (KernelStop (AssertFail 169) b)
      else
        let b = b\<lparr>kern := (kern b)\<lparr>memory :=
              snd (platform_memset xISRStack portISR_STACK_FILL_BYTE (configISR_STACK_SIZE_WORDS * 4) (memory (kern b)))\<rparr>\<rparr>
        in bindE (vPortSetupTimerInterrupt hi_first b) (\<lambda>b.
           let b = csrs_mie 0x880 b
           in Inr (b\<lparr>kern := xPortStartFirstTask (kern b)\<rparr>)))"

definition vPortEndScheduler :: "board \<Rightarrow> stop + board" where
  "vPortEndScheduler b = Inl (KernelStop Endless b)"

text \<open>
  The result says whether the scheduler was started, so that the board runs the first task, or the
  call returned.
\<close>

definition vTaskStartScheduler :: "bool \<Rightarrow> u32 \<Rightarrow> idle_layout \<Rightarrow> board \<Rightarrow> stop + (bool \<times> board)" where
  "vTaskStartScheduler hi_first xISRStack L b =
     bindE (ask_kern (start_kernel L) b) (\<lambda>(started, b).
       if started then bindE (xPortStartScheduler hi_first xISRStack b) (\<lambda>b. Inr (True, b)) else Inr (False, b))"

section \<open>Traps\<close>

definition tick_handler :: "board \<Rightarrow> stop + board" where
  "tick_handler b =
     bindE (portUPDATE_MTIMER_COMPARE_REGISTER b) (\<lambda>b.
     bindE (ask_kern xTaskIncrementTick b) (\<lambda>(a0, b).
     if a0 then on_kern vTaskSwitchContext b else Inr b))"

definition freertos_risc_v_trap_handler :: "u32 \<Rightarrow> u32 \<Rightarrow> board \<Rightarrow> stop + board" where
  "freertos_risc_v_trap_handler mcause mepc b =
     (let b = b\<lparr>kern := save_context (kern b)\<rparr>
      in if 0 \<le> sint mcause
         then let a1 = mepc + 4
              in if mcause = 11 then on_kern vTaskSwitchContext b
                 else Inl (freertos_risc_v_application_exception_handler mcause a1 b)
         else let t0 = push_bit 31 1; t1 = t0 + 7
              in if mcause = t1 then tick_handler b
                 else Inl (freertos_risc_v_application_interrupt_handler mcause mepc b))"

end
