(* ===== verification/Port_Time.thy ===== *)
theory Port_Time
  imports Port
begin

text \<open>
  The tick timer of the port: programming it, advancing it in the interrupt handler, and the
  dates of the ticks.
\<close>

definition compare_at :: "board \<Rightarrow> u64" where
  "compare_at b = mtimecmp_q (timer (soc (mach b)))"

lemma one_tick: "uxTimerIncrementsForOneTick = 75000"
  by (simp add: uxTimerIncrementsForOneTick_def configCPU_CLOCK_HZ_def FREERTOS_CPU_CLOCK_HZ_def configTICK_RATE_HZ_def)

section \<open>What the timer's registers leave alone\<close>

text \<open>The memory and the output pins, which no access to the timer touches.\<close>

definition devs :: "machine \<Rightarrow> mem \<times> u32 \<times> u32" where
  "devs m = (tcm (soc m), output_q (gpio_dev (soc m)), output_enable_q (gpio_dev (soc m)))"

lemma read_passes: "rv32_soc_mmio_read32 a m = Inr (v, m') \<Longrightarrow> passes (read_request a) m m'"
  by (auto simp: rv32_soc_mmio_read32_def intro: access_passes split: prod.splits if_splits)

lemma write_passes: "rv32_soc_mmio_write32 a v m = Inr m' \<Longrightarrow> passes (write_request a v) m m'"
  by (auto simp: rv32_soc_mmio_write32_def intro: access_passes split: prod.splits if_splits)

lemma timer_devs:
  assumes "passes q m m'" "request_target (req_addr q) = TARGET_TIMER"
  shows "devs m' = devs m"
  using passes_tcm [OF assms(1)] passes_gpio [OF assms(1)] assms(2) by (simp add: devs_def)

lemma timer_targets:
  "request_target RV32_SOC_MTIME_HI = TARGET_TIMER" "request_target RV32_SOC_MTIME_LO = TARGET_TIMER"
  "request_target MTIMECMP_LO_ADDR = TARGET_TIMER" "request_target (MTIMECMP_LO_ADDR + 4) = TARGET_TIMER"
  by (simp_all add: dev_simps)

definition mt_keeps :: "nat \<Rightarrow> mem \<times> u32 \<times> u32 \<Rightarrow> machine \<Rightarrow> bool" where
  "mt_keeps k d m \<longleftrightarrow> mt_ok k m \<and> devs m = d"

text \<open>The timer is a split counter also while the rest of the machine is held fixed.\<close>

interpretation mtk: split_counter "rv32_soc_mmio_read32 RV32_SOC_MTIME_HI" "rv32_soc_mmio_read32 RV32_SOC_MTIME_LO"
  "mt_keeps k d" "\<lambda>m. k + cycle m" for k d
proof
  fix s assume s: "mt_keeps k d s"
  then have ok: "mt_ok k s" by (simp add: mt_keeps_def)
  show "\<exists>c s'. rv32_soc_mmio_read32 RV32_SOC_MTIME_HI s = Inr (hi32 (of_nat c), s') \<and> mt_keeps k d s' \<and>
      k + cycle s \<le> c \<and> c \<le> k + cycle s' \<and> k + cycle s' \<le> k + cycle s + 2 ^ 29"
    using mt.hi [OF ok] s timer_devs [OF read_passes] timer_targets(1) by (fastforce simp: mt_keeps_def)
  show "\<exists>c s'. rv32_soc_mmio_read32 RV32_SOC_MTIME_LO s = Inr (lo32 (of_nat c), s') \<and> mt_keeps k d s' \<and>
      k + cycle s \<le> c \<and> c \<le> k + cycle s' \<and> k + cycle s' \<le> k + cycle s + 2 ^ 29"
    using mt.lo [OF ok] s timer_devs [OF read_passes] timer_targets(2) by (fastforce simp: mt_keeps_def)
qed

section \<open>Programming the timer\<close>

lemma mt_ok_advance:
  assumes "mt_ok k m" "mtime_q (timer (soc m')) = mtime_q (timer (soc m)) + of_nat (cycle m' - cycle m)"
    "cycle m \<le> cycle m'" "gap m' = gap m"
  shows "mt_ok k m'"
proof -
  have "(of_nat (k + cycle m') :: u64) = of_nat (k + cycle m) + of_nat (cycle m' - cycle m)"
    using assms(3) by (simp add: of_nat_diff)
  then show ?thesis using assms by (simp add: mt_ok_def)
qed

lemma store_compare_run:
  assumes "mt_ok k m"
  shows "\<exists>m'. store_compare hi_first MTIMECMP_LO_ADDR v m = Inr m' \<and> mtimecmp_q (timer (soc m')) = v \<and>
    mt_ok k m' \<and> cycle m \<le> cycle m' \<and> devs m' = devs m"
proof -
  have hi: "\<exists>m'. rv32_soc_mmio_write32 (MTIMECMP_LO_ADDR + 4) w m = Inr m' \<and>
      mtimecmp_q (timer (soc m')) = join64 w (lo32 (mtimecmp_q (timer (soc m)))) \<and> mt_ok k m' \<and> cycle m \<le> cycle m' \<and> devs m' = devs m"
    if "mt_ok k m" for w m
  proof -
    from write_mtimecmp [of MTIMECMP_HI_ADDR w m] obtain m' where m': "rv32_soc_mmio_write32 MTIMECMP_HI_ADDR w m = Inr m'"
      "passes (write_request MTIMECMP_HI_ADDR w) m m'" "mtimecmp_q (timer (soc m')) = join64 w (lo32 (mtimecmp_q (timer (soc m))))"
      "mtime_q (timer (soc m')) = mtime_q (timer (soc m)) + of_nat (cycle m' - cycle m)"
      by (auto simp: MTIMECMP_LO_ADDR_def MTIMECMP_HI_ADDR_def)
    then show ?thesis
      using passes_env [OF m'(2)] mt_ok_advance [OF that m'(4)]
        timer_devs [OF m'(2)]
      by (intro exI [of _ m']) (simp add: MTIMECMP_LO_ADDR_def MTIMECMP_HI_ADDR_def dev_simps)
  qed
  have lo: "\<exists>m'. rv32_soc_mmio_write32 MTIMECMP_LO_ADDR w m = Inr m' \<and>
      mtimecmp_q (timer (soc m')) = join64 (hi32 (mtimecmp_q (timer (soc m)))) w \<and> mt_ok k m' \<and> cycle m \<le> cycle m' \<and> devs m' = devs m"
    if "mt_ok k m" for w m
  proof -
    from write_mtimecmp [of MTIMECMP_LO_ADDR w m] obtain m' where m': "rv32_soc_mmio_write32 MTIMECMP_LO_ADDR w m = Inr m'"
      "passes (write_request MTIMECMP_LO_ADDR w) m m'" "mtimecmp_q (timer (soc m')) = join64 (hi32 (mtimecmp_q (timer (soc m)))) w"
      "mtime_q (timer (soc m')) = mtime_q (timer (soc m)) + of_nat (cycle m' - cycle m)" by auto
    then show ?thesis
      using passes_env [OF m'(2)] mt_ok_advance [OF that m'(4)] timer_devs [OF m'(2)]
      by (intro exI [of _ m']) (simp add: timer_targets)
  qed
  show ?thesis
  proof (cases hi_first)
    case True
    from hi [OF assms, of "hi32 v"] obtain m1 where m1: "rv32_soc_mmio_write32 (MTIMECMP_LO_ADDR + 4) (hi32 v) m = Inr m1"
      "mtimecmp_q (timer (soc m1)) = join64 (hi32 v) (lo32 (mtimecmp_q (timer (soc m))))" "mt_ok k m1" "cycle m \<le> cycle m1" "devs m1 = devs m" by blast
    from lo [OF m1(3), of "lo32 v"] m1 True show ?thesis by (auto simp: store_compare_def intro: order_trans)
  next
    case False
    from lo [OF assms, of "lo32 v"] obtain m1 where m1: "rv32_soc_mmio_write32 MTIMECMP_LO_ADDR (lo32 v) m = Inr m1"
      "mtimecmp_q (timer (soc m1)) = join64 (hi32 (mtimecmp_q (timer (soc m)))) (lo32 v)" "mt_ok k m1" "cycle m \<le> cycle m1" "devs m1 = devs m" by blast
    from hi [OF m1(3), of "hi32 v"] m1 False show ?thesis by (auto simp: store_compare_def intro: order_trans)
  qed
qed

text \<open>The reads use the addresses of the configuration, which are the ones of the board support package.\<close>

lemma config_addresses:
  "configMTIME_BASE_ADDRESS = RV32_SOC_MTIME_LO" "RV32_SOC_MTIME_LO + 4 = RV32_SOC_MTIME_HI"
  "configMTIMECMP_BASE_ADDRESS = MTIMECMP_LO_ADDR"
  by (simp_all add: configMTIME_BASE_ADDRESS_def configMTIMECMP_BASE_ADDRESS_def dev_simps)

lemma setup_run:
  assumes "mt_ok k (mach b)" "csr_mhartid b = 0"
  obtains c b' where "vPortSetupTimerInterrupt hi_first b = Inr b'" "k + cycle (mach b) \<le> c" "c \<le> k + cycle (mach b')"
    "compare_at b' = of_nat (c + 75000)" "ullNextTime b' = of_nat (c + 2 * 75000)"
    "pullMachineTimerCompareRegister b' = MTIMECMP_LO_ADDR" "mt_ok k (mach b')" "devs (mach b') = devs (mach b)"
    "b' = b\<lparr>mach := mach b', ullNextTime := ullNextTime b', pullMachineTimerCompareRegister := MTIMECMP_LO_ADDR\<rparr>"
proof -
  have "mt_keeps k (devs (mach b)) (mach b)" using assms(1) by (simp add: mt_keeps_def)
  from mtk.read_is_now [OF this] obtain c m1 where 1:
    "split_read (rv32_soc_mmio_read32 RV32_SOC_MTIME_HI) (rv32_soc_mmio_read32 RV32_SOC_MTIME_LO) (mach b) =
       Some (Inr (hi32 (of_nat c), lo32 (of_nat c), hi32 (of_nat c), m1))"
    "mt_ok k m1" "k + cycle (mach b) \<le> c" "c \<le> k + cycle m1" "devs m1 = devs (mach b)"
    by (auto simp: mt_keeps_def)
  let ?v = "of_nat (c + 75000) :: u64"
  from store_compare_run [OF 1(2), of hi_first ?v] obtain m2 where 2:
    "store_compare hi_first MTIMECMP_LO_ADDR ?v m1 = Inr m2" "mtimecmp_q (timer (soc m2)) = ?v" "mt_ok k m2" "cycle m1 \<le> cycle m2"
    "devs m2 = devs m1" by blast
  have j: "push_bit 32 (ucast (hi32 (of_nat c))) OR ucast (lo32 (of_nat c)) = (of_nat c :: u64)"
    using join64_hi_lo [of "of_nat c"] by (simp add: join64_def)
  have u: "(ucast uxTimerIncrementsForOneTick :: u64) = 75000" by (simp add: one_tick)
  have v: "of_nat c + 75000 = ?v" by simp
  have 3: "store_compare hi_first MTIMECMP_LO_ADDR (of_nat c + 75000) m1 = Inr m2" using 2(1) by (simp only: v)
  let ?b = "b\<lparr>mach := m2, ullNextTime := of_nat (c + 2 * 75000), pullMachineTimerCompareRegister := MTIMECMP_LO_ADDR\<rparr>"
  have run: "vPortSetupTimerInterrupt hi_first b = Inr ?b"
    using 1(1) 3 assms(2)
    by (simp add: vPortSetupTimerInterrupt_def config_addresses Let_def on_mach_def j u del: join64_hi_lo)
  show thesis
    by (rule that [OF run]) (use 1 2 in \<open>simp_all add: compare_at_def\<close>)
qed

section \<open>Advancing it\<close>

text \<open>The carry of the macro is the carry of a 64-bit addition.\<close>

lemma add_with_carry:
  fixes d :: u32
  shows "join64 (hi32 x + (if d + lo32 x < lo32 x then 1 else 0)) (d + lo32 x) = x + ucast d"
proof (rule word_unat_eq_iff [THEN iffD2])
  have d: "unat d < 2 ^ 32" and l: "unat (lo32 x) < 2 ^ 32" and h: "unat (hi32 x) < 2 ^ 32"
    using unsigned_less [of d] unsigned_less [of "lo32 x"] unsigned_less [of "hi32 x"] by simp_all
  have x: "unat x = unat (hi32 x) * 2 ^ 32 + unat (lo32 x)" using unat_join64 [of "hi32 x" "lo32 x"] by simp
  have ud: "unat (ucast d :: u64) = unat d" using d by (simp add: unsigned_ucast_eq take_bit_nat_eq_self)
  have carry: "d + lo32 x < lo32 x \<longleftrightarrow> 2 ^ 32 \<le> unat d + unat (lo32 x)"
    using d l by (cases "unat d + unat (lo32 x) < 2 ^ 32") (auto simp: word_less_nat_alt unat_word_ariths mod_if)
  show "unat (join64 (hi32 x + (if d + lo32 x < lo32 x then 1 else 0)) (d + lo32 x)) = unat (x + ucast d)"
    using d l h unfolding unat_join64 carry unat_word_ariths x ud
    by (cases "2 ^ 32 \<le> unat d + unat (lo32 x)"; cases "unat (hi32 x) + 1 = 2 ^ 32") (auto simp: mod_if)
qed


lemma update_is_mtimecmp_write:
  assumes "pullMachineTimerCompareRegister b = MTIMECMP_LO_ADDR"
  shows "portUPDATE_MTIMER_COMPARE_REGISTER b =
    bindE (on_mach (rv32_soc_mtimecmp_write (ullNextTime b)) b) (\<lambda>b. Inr (b\<lparr>ullNextTime := ullNextTime b + 75000\<rparr>))"
proof -
  have a: "RV32_SOC_MTIMECMP_LO = MTIMECMP_LO_ADDR" "RV32_SOC_MTIMECMP_HI = MTIMECMP_LO_ADDR + 4"
    by (simp_all add: dev_simps)
  have u: "(ucast uxTimerIncrementsForOneTick :: u64) = 75000" by (simp add: one_tick)
  have v: "ucast x = lo32 x" "lo32 (drop_bit 32 x) = hi32 x" for x :: u64 by (simp_all add: hi32_def lo32_def)
  have m1: "(-1 :: u32) = 0xffffffff" by simp
  show ?thesis
    unfolding portUPDATE_MTIMER_COMPARE_REGISTER_def rv32_soc_mtimecmp_write_def Let_def assms a v on_mach_def m1
      add_with_carry u
    by (auto split: sum.split simp: bindE_def)
qed

lemma update_run:
  assumes "pullMachineTimerCompareRegister b = MTIMECMP_LO_ADDR"
  obtains b' ts where "portUPDATE_MTIMER_COMPARE_REGISTER b = Inr b'"
    "b' = b\<lparr>mach := mach b', ullNextTime := ullNextTime b + 75000\<rparr>" "compare_at b' = ullNextTime b"
    "trace (mach b') = ts @ trace (mach b)"
    "\<forall>(r, s) \<in> set ts. mtip (timer s) \<longrightarrow> min (compare_at b) (ullNextTime b) \<le> mtime_q (timer s)"
    "\<And>k. mt_ok k (mach b) \<Longrightarrow> mt_ok k (mach b')" "cycle (mach b) \<le> cycle (mach b')"
proof -
  from mtimecmp_write_run [of "ullNextTime b" "mach b"] obtain m' ts where m':
    "rv32_soc_mtimecmp_write (ullNextTime b) (mach b) = Inr m'" "mtimecmp_q (timer (soc m')) = ullNextTime b"
    "trace m' = ts @ trace (mach b)"
    "\<forall>(r, s) \<in> set ts. mtip (timer s) \<longrightarrow> min (mtimecmp_q (timer (soc (mach b)))) (ullNextTime b) \<le> mtime_q (timer s)"
    "mtime_q (timer (soc m')) = mtime_q (timer (soc (mach b))) + of_nat (cycle m' - cycle (mach b))"
    "gap m' = gap (mach b)" "cycle (mach b) \<le> cycle m'" by blast
  show thesis
    by (rule that [of "b\<lparr>mach := m', ullNextTime := ullNextTime b + 75000\<rparr>" ts])
      (use m' in \<open>simp_all add: update_is_mtimecmp_write [OF assms] on_mach_def compare_at_def mt_ok_advance [OF _ m'(5,7,6)]\<close>)
qed

section \<open>The dates of the ticks\<close>

text \<open>
  \<open>timer_run n b b'\<close>: from \<open>b\<close> to \<open>b'\<close> the handler has advanced the timer \<open>n\<close> times; in between
  anything happens that keeps the two variables of the port and the compare register.
\<close>

inductive timer_run :: "nat \<Rightarrow> board \<Rightarrow> board \<Rightarrow> bool" where
  timer_start: "timer_run 0 b b"
| timer_other: "timer_run n b b1 \<Longrightarrow> ullNextTime b2 = ullNextTime b1 \<Longrightarrow>
    pullMachineTimerCompareRegister b2 = pullMachineTimerCompareRegister b1 \<Longrightarrow> compare_at b2 = compare_at b1 \<Longrightarrow>
    timer_run n b b2"
| timer_tick: "timer_run n b b1 \<Longrightarrow> portUPDATE_MTIMER_COMPARE_REGISTER b1 = Inr b2 \<Longrightarrow> timer_run (Suc n) b b2"

lemma timer_run_dates:
  assumes "timer_run n b b'" "pullMachineTimerCompareRegister b = MTIMECMP_LO_ADDR" "ullNextTime b = compare_at b + 75000"
  shows "pullMachineTimerCompareRegister b' = MTIMECMP_LO_ADDR \<and> ullNextTime b' = compare_at b' + 75000 \<and>
    compare_at b' = compare_at b + of_nat n * 75000"
  using assms
proof (induction rule: timer_run.induct)
  case (timer_tick n b b1 b2)
  then have i: "pullMachineTimerCompareRegister b1 = MTIMECMP_LO_ADDR" "ullNextTime b1 = compare_at b1 + 75000"
    "compare_at b1 = compare_at b + of_nat n * 75000" by simp_all
  obtain b2' ts where "portUPDATE_MTIMER_COMPARE_REGISTER b1 = Inr b2'"
    and u: "b2' = b1\<lparr>mach := mach b2', ullNextTime := ullNextTime b1 + 75000\<rparr>" "compare_at b2' = ullNextTime b1"
    by (rule update_run [OF i(1)])
  then have e: "b2 = b2'" using timer_tick.hyps(2) by simp
  have "ullNextTime b2' = ullNextTime b1 + 75000" "pullMachineTimerCompareRegister b2' = MTIMECMP_LO_ADDR"
    using arg_cong [OF u(1), of ullNextTime] arg_cong [OF u(1), of pullMachineTimerCompareRegister] i(1) by simp_all
  then show ?case using i u(2) by (simp add: e algebra_simps)
qed simp_all

end
