(* ===== verification/Port_Claims.thy ===== *)
theory Port_Claims
  imports Port_Time Kernel_Demo Soc_Claims
begin

text \<open>
  The properties of the port: when the ticks are due, what the traps do to the scheduler, and how the
  program ends when a trap is not expected.
\<close>

section \<open>The timer\<close>

text \<open>C24. The ticks do not drift. \<open>vPortSetupTimerInterrupt\<close> returns and programs the first tick one
  period of 75000 clocks after a moment \<open>c\<close> of the call, whatever order the compiler gives the two
  stores of the 64-bit value; and however late the interrupt handler runs each time, after \<open>n\<close>
  of its updates the next tick is due exactly \<open>(n + 1) * 75000\<close> clocks after \<open>c\<close>.\<close>

theorem ticks_do_not_drift:
  assumes "mt_ok k (mach b)" and "csr_mhartid b = 0"
  shows "\<exists>c b0. vPortSetupTimerInterrupt hi_first b = Inr b0 \<and>
    k + cycle (mach b) \<le> c \<and> c \<le> k + cycle (mach b0) \<and> kern b0 = kern b \<and> compare_at b0 = of_nat (c + 75000) \<and>
    (\<forall>n b'. timer_run n b0 b' \<longrightarrow> compare_at b' = of_nat (c + (n + 1) * 75000))"
proof -
  obtain c b0 where s: "vPortSetupTimerInterrupt hi_first b = Inr b0" "k + cycle (mach b) \<le> c" "c \<le> k + cycle (mach b0)"
    "compare_at b0 = of_nat (c + 75000)" "ullNextTime b0 = of_nat (c + 2 * 75000)"
    "pullMachineTimerCompareRegister b0 = MTIMECMP_LO_ADDR" "mt_ok k (mach b0)" "devs (mach b0) = devs (mach b)"
    "b0 = b\<lparr>mach := mach b0, ullNextTime := ullNextTime b0, pullMachineTimerCompareRegister := MTIMECMP_LO_ADDR\<rparr>"
    by (rule setup_run [OF assms])
  have "ullNextTime b0 = compare_at b0 + 75000" using s(4,5) by (simp add: algebra_simps)
  note dates = timer_run_dates [OF _ s(6) this]
  have "compare_at b' = of_nat (c + (n + 1) * 75000)" if "timer_run n b0 b'" for n b'
    using dates [OF that] s(4) by (simp add: algebra_simps)
  then show ?thesis using s(1-4) arg_cong [OF s(9), of kern] by auto
qed

definition reset_board :: board where
  "reset_board = \<lparr>kern = demo, mach = reset_machine, ullNextTime = 0, pullMachineTimerCompareRegister = 0,
     csr_mie = 0, csr_mtval = 0, csr_mhartid = 0\<rparr>"

theorem ticks_do_not_drift_witness:
  "\<exists>c b0. vPortSetupTimerInterrupt True reset_board = Inr b0 \<and> compare_at b0 = of_nat (c + 75000)"
  using ticks_do_not_drift [of 0 reset_board True] reset_mt_ok by (auto simp: reset_board_def)

text \<open>C38. Advancing the timer in the interrupt handler is safe: the macro of \<^verbatim>\<open>portASM.S\<close>, three word stores
  and an addition with carry on 32-bit registers, sets the compare register to the date prepared
  before and prepares the one a period later as a 64-bit addition, and in no clock of the
  update is the interrupt line up before \<open>mtime\<close> reaches the old or the new date.\<close>

theorem tick_update_is_safe:
  assumes "pullMachineTimerCompareRegister b = MTIMECMP_LO_ADDR"
  shows "\<exists>b' ts. portUPDATE_MTIMER_COMPARE_REGISTER b = Inr b' \<and> compare_at b' = ullNextTime b \<and>
    ullNextTime b' = ullNextTime b + 75000 \<and> kern b' = kern b \<and> trace (mach b') = ts @ trace (mach b) \<and>
    (\<forall>(r, s) \<in> set ts. mtip (timer s) \<longrightarrow> min (compare_at b) (ullNextTime b) \<le> mtime_q (timer s))"
proof -
  obtain b' ts where u: "portUPDATE_MTIMER_COMPARE_REGISTER b = Inr b'"
    "b' = b\<lparr>mach := mach b', ullNextTime := ullNextTime b + 75000\<rparr>" "compare_at b' = ullNextTime b"
    "trace (mach b') = ts @ trace (mach b)"
    "\<forall>(r, s) \<in> set ts. mtip (timer s) \<longrightarrow> min (compare_at b) (ullNextTime b) \<le> mtime_q (timer s)"
    by (rule update_run [OF assms])
  have "ullNextTime b' = ullNextTime b + 75000" "kern b' = kern b" by (subst u(2), simp)+
  then show ?thesis using u(1,3-5) by blast
qed

theorem tick_update_is_safe_witness:
  "\<exists>b'. portUPDATE_MTIMER_COMPARE_REGISTER (reset_board\<lparr>pullMachineTimerCompareRegister := 0x02004000, ullNextTime := 0xfffffffff\<rparr>) = Inr b' \<and>
     ullNextTime b' = 0x10000124f7"
  using tick_update_is_safe [of "reset_board\<lparr>pullMachineTimerCompareRegister := 0x02004000, ullNextTime := 0xfffffffff\<rparr>"]
  by (auto simp: dev_simps)

section \<open>Traps\<close>

lemma handler_eq:
  assumes "pullMachineTimerCompareRegister b = MTIMECMP_LO_ADDR"
  shows "case freertos_risc_v_mtimer_interrupt_handler (kern b) of
      Inr s \<Rightarrow> \<exists>b'. freertos_risc_v_trap_handler 0x80000007 epc b = Inr b' \<and> kern b' = s \<and>
        compare_at b' = ullNextTime b \<and> ullNextTime b' = ullNextTime b + 75000
    | Inl e \<Rightarrow> \<exists>b'. freertos_risc_v_trap_handler 0x80000007 epc b = Inl (KernelStop e b')"
proof -
  let ?b = "b\<lparr>kern := save_context (kern b)\<rparr>"
  obtain b1 ts where u: "portUPDATE_MTIMER_COMPARE_REGISTER ?b = Inr b1"
    "b1 = ?b\<lparr>mach := mach b1, ullNextTime := ullNextTime ?b + 75000\<rparr>" "compare_at b1 = ullNextTime ?b"
    by (rule update_run [of ?b]) (simp_all add: assms)
  have f: "kern b1 = save_context (kern b)" "ullNextTime b1 = ullNextTime b + 75000"
    using arg_cong [OF u(2), of kern] arg_cong [OF u(2), of ullNextTime] by simp_all
  have n: "\<not> 0 \<le> sint (0x80000007 :: u32)" by simp
  show ?thesis
    using u(3) f
    by (auto simp: freertos_risc_v_mtimer_interrupt_handler_def freertos_risc_v_trap_handler_def n Let_def
        tick_handler_def u(1) ask_kern_def on_kern_def bindE_def compare_at_def split: sum.splits prod.splits if_splits)
qed


text \<open>C13. The traps drive the scheduler. In a state of the scheduler's transition system, with the timer
  programmed, a machine timer interrupt is the \<open>Tick\<close> step and advances the compare register, and
  the \<^verbatim>\<open>ecall\<close> of a task that yields is the \<open>Yield\<close> step; the handler returns, to a state of the
  system again, unless the stack of the running task has overflowed and the stack check of the
  context switch stops the program.\<close>

theorem traps_drive_the_scheduler:
  assumes "sys_ok E (kern b, pc)" and "pullMachineTimerCompareRegister b = MTIMECMP_LO_ADDR"
  shows "(\<not> healthy (kern b) \<and> (\<exists>b'. freertos_risc_v_trap_handler 0x80000007 epc b = Inl (KernelStop StackOverflow b')) \<or>
      (\<exists>b'. freertos_risc_v_trap_handler 0x80000007 epc b = Inr b' \<and>
         step (kern b, pc) Tick (kern b', pc) \<and> sys_ok E (kern b', pc) \<and>
         compare_at b' = ullNextTime b \<and> ullNextTime b' = ullNextTime b + 75000)) \<and>
    (pc (pxCurrentTCB (kern b)) \<in> {User, Yielding} \<longrightarrow>
      \<not> healthy (kern b) \<and> (\<exists>b'. freertos_risc_v_trap_handler 11 epc b = Inl (KernelStop StackOverflow b')) \<or>
      (\<exists>b'. freertos_risc_v_trap_handler 11 epc b = Inr b' \<and>
         step (kern b, pc) Yield (kern b', pc(pxCurrentTCB (kern b) := User)) \<and>
         sys_ok E (kern b', pc(pxCurrentTCB (kern b) := User))))"
proof (intro conjI impI)
  have ok: "kernel_ok E (kern b)" "running_ok (kern b) (pc (pxCurrentTCB (kern b)))"
    using assms(1) by (simp_all add: sys_ok_def)
  have "freertos_risc_v_mtimer_interrupt_handler (kern b) = Inl e \<Longrightarrow> e = StackOverflow \<and> \<not> healthy (kern b)" for e
    by (rule tick_fault [OF ok(1)])
  then show "\<not> healthy (kern b) \<and> (\<exists>b'. freertos_risc_v_trap_handler 0x80000007 epc b = Inl (KernelStop StackOverflow b')) \<or>
      (\<exists>b'. freertos_risc_v_trap_handler 0x80000007 epc b = Inr b' \<and>
         step (kern b, pc) Tick (kern b', pc) \<and> sys_ok E (kern b', pc) \<and>
         compare_at b' = ullNextTime b \<and> ullNextTime b' = ullNextTime b + 75000)"
    using handler_eq [OF assms(2), of epc] step_tick [of "kern b"] tick_step [OF assms(1)]
    by (fastforce split: sum.splits)
  assume u: "pc (pxCurrentTCB (kern b)) \<in> {User, Yielding}"
  have "portYIELD (kern b) = Inl e \<Longrightarrow> e = StackOverflow \<and> \<not> healthy (kern b)" for e
    using ok u portYIELD_fault [of E "kern b"] by auto
  moreover have "freertos_risc_v_trap_handler 11 epc b =
      (case portYIELD (kern b) of Inl e \<Rightarrow> Inl (KernelStop e (b\<lparr>kern := save_context (kern b)\<rparr>)) | Inr s \<Rightarrow> Inr (b\<lparr>kern := s\<rparr>))"
    by (simp add: freertos_risc_v_trap_handler_def portYIELD_def on_kern_def Let_def split: sum.split)
  ultimately show "\<not> healthy (kern b) \<and> (\<exists>b'. freertos_risc_v_trap_handler 11 epc b = Inl (KernelStop StackOverflow b')) \<or>
      (\<exists>b'. freertos_risc_v_trap_handler 11 epc b = Inr b' \<and>
         step (kern b, pc) Yield (kern b', pc(pxCurrentTCB (kern b) := User)) \<and>
         sys_ok E (kern b', pc(pxCurrentTCB (kern b) := User)))"
    using step_yield [of pc "kern b"] u yield_step [OF assms(1)] by (cases "portYIELD (kern b)") auto
qed

theorem traps_drive_the_scheduler_witness:
  "(\<exists>b'. freertos_risc_v_trap_handler 0x80000007 0x100
      (reset_board\<lparr>kern := rested demo, pullMachineTimerCompareRegister := 0x02004000\<rparr>) = Inr b') \<and>
   (\<exists>b'. freertos_risc_v_trap_handler 11 0x100
      (reset_board\<lparr>kern := rested demo, pullMachineTimerCompareRegister := 0x02004000\<rparr>) = Inr b' \<and>
      sys_ok {} (kern b', \<lambda>_. User))"
proof -
  have "sys_ok {} (rested demo, \<lambda>_. User)"
    using demo_sys_ok rested_ok [of "{}" demo] by (simp add: sys_ok_def pending_ok_def next_up_def)
  then show ?thesis
    using traps_drive_the_scheduler [of "{}" "reset_board\<lparr>kern := rested demo, pullMachineTimerCompareRegister := 0x02004000\<rparr>" "\<lambda>_. User" "0x100"]
      rested_healthy(2) [of demo]
    by (auto simp: dev_simps fun_upd_def)
qed

text \<open>C34. Any other trap ends the program with a report: the cause, the address at which the port would
  resume (\<open>mepc\<close> of an interrupt, but \<open>mepc\<close> plus four of an exception, because \<^verbatim>\<open>portASM.S\<close> advances
  it before it calls the handler, so the report names the instruction after the one at fault and
  not the trap's address), \<open>mtval\<close>, the magic number and a failure code with the low five bits of the cause; the mailbox holds the code,
  shifted, with the two low bits set, which is never the status of a pass.\<close>

theorem unexpected_traps_are_reported:
  assumes "cause \<noteq> 11" and "cause \<noteq> 0x80000007"
  shows "\<exists>m'. freertos_risc_v_trap_handler cause epc b = Inl (Finished m') \<and>
    report_of m' R_mcause = cause \<and> report_of m' R_mepc = (if 0 \<le> sint cause then epc + 4 else epc) \<and>
    report_of m' R_mtval = csr_mtval b \<and> report_of m' R_magic = FREERTOS_DEMO_REPORT_MAGIC \<and>
    report_of m' R_failure_code = ((if 0 \<le> sint cause then 0x3000 else 0x3100) OR (cause AND 0x1f)) \<and>
    load32 (tcm (soc m')) RV32_SOC_TOHOST_ADDR = push_bit 1 (report_of m' R_failure_code) OR 3 \<and>
    load32 (tcm (soc m')) RV32_SOC_TOHOST_ADDR \<noteq> RV32_SOC_PASS_STATUS"
proof -
  let ?b = "b\<lparr>kern := save_context (kern b)\<rparr>"
  let ?epc = "if 0 \<le> sint cause then epc + 4 else epc"
  let ?code = "(if 0 \<le> sint cause then 0x3000 else 0x3100) OR (cause AND 0x1f)"
  let ?ws = "(report_index R_mcause, cause) # (report_index R_mepc, ?epc) # fail_stores ?code ?b"
  have "\<exists>m'. freertos_risc_v_trap_handler cause epc b = Inl (Finished m') \<and> wrote ?ws (mach b) m'"
    using exception_handler_run [of cause "epc + 4" ?b] interrupt_handler_run [of cause epc ?b] assms
    by (cases "0 \<le> sint cause") (auto simp: freertos_risc_v_trap_handler_def Let_def)
  then obtain m' where m': "freertos_risc_v_trap_handler cause epc b = Inl (Finished m')" "wrote ?ws (mach b) m'" by blast
  have "\<forall>(i, _) \<in> set ?ws. i < 2048" using fail_stores_window [of ?code ?b] by simp
  note rep = wrote_report [OF m'(2) this]
  show ?thesis
    using m'(1) fail_status [of ?code] by (intro exI [of _ m']) (simp add: rep fail_stores_def)
qed

theorem unexpected_traps_are_reported_witness:
  "\<exists>m'. freertos_risc_v_trap_handler 2 0x480 reset_board = Inl (Finished m') \<and>
     report_of m' R_mepc = 0x484 \<and> load32 (tcm (soc m')) RV32_SOC_TOHOST_ADDR = 0x6007"
  using unexpected_traps_are_reported [of 2 "0x480" reset_board] by auto

end
