(* ===== verification/Demo.thy ===== *)
theory Demo
  imports Port
begin

text \<open>
  The demonstration program, \<^verbatim>\<open>sw/freertos/demo.c\<close>: three tasks that blink a pin, echo the serial
  line and check that both make progress. A task is the code before its endless loop and one
  round of the loop. Its kernel calls are the atomic ones of the kernel's model; what can come
  between their steps is the subject of the scheduler's transition system.
\<close>

section \<open>State\<close>

definition BLINK_MASK :: u32 where "BLINK_MASK = 1"
definition BLINK_STACK_WORDS :: u32 where "BLINK_STACK_WORDS = 160"
definition ECHO_STACK_WORDS :: u32 where "ECHO_STACK_WORDS = 192"
definition CHECK_STACK_WORDS :: u32 where "CHECK_STACK_WORDS = 192"
definition FREERTOS_BLINK_PERIOD_MS :: u32 where "FREERTOS_BLINK_PERIOD_MS = 2"

text \<open>The volatile counters of the program.\<close>

record app =
  brd :: board
  blink_count :: u32
  echo_count :: u32
  echoed_byte :: u32

text \<open>
  The addresses the linker gives to the code, the control blocks and the stacks, and the order in
  which the compiler stores the halves of a 64-bit word.
\<close>

record app_layout =
  blink_code :: u32
  echo_code :: u32
  check_code :: u32
  blink_task_tcb :: u32
  echo_task_tcb :: u32
  check_task_tcb :: u32
  blink_task_stack :: u32
  echo_task_stack :: u32
  check_task_stack :: u32
  idle_memory :: idle_layout
  isr_stack :: u32
  hi_half_first :: bool

definition on_brd :: "(board \<Rightarrow> stop + board) \<Rightarrow> app \<Rightarrow> stop + app" where
  "on_brd f a = bindE (f (brd a)) (\<lambda>b. Inr (a\<lparr>brd := b\<rparr>))"

definition ask_brd :: "(board \<Rightarrow> stop + ('a \<times> board)) \<Rightarrow> app \<Rightarrow> stop + ('a \<times> app)" where
  "ask_brd f a = bindE (f (brd a)) (\<lambda>(x, b). Inr (x, a\<lparr>brd := b\<rparr>))"

definition pdMS_TO_TICKS :: "u32 \<Rightarrow> u32" where
  "pdMS_TO_TICKS xTimeInMs = ucast ((ucast xTimeInMs :: u64) * ucast configTICK_RATE_HZ div 1000)"

section \<open>The tasks\<close>

text \<open>A string is the list of its characters up to the terminating NUL.\<close>

fun uart_write_text :: "string \<Rightarrow> machine \<Rightarrow> bus_fault + machine" where
  "uart_write_text [] m = Inr m"
| "uart_write_text (c # text) m = bindE (rv32_soc_uart_putc (of_char c) m) (uart_write_text text)"

definition blink_task_round :: "app \<Rightarrow> stop + app" where
  "blink_task_round a =
     bindE (on_brd (on_mach (rv32_soc_gpio_toggle BLINK_MASK)) a) (\<lambda>a.
     let a = a\<lparr>blink_count := blink_count a + 1\<rparr>
     in on_brd (on_kern (vTaskDelay (pdMS_TO_TICKS FREERTOS_BLINK_PERIOD_MS))) a)"

definition echo_task_start :: "app \<Rightarrow> stop + app" where
  "echo_task_start a = on_brd (on_mach (uart_write_text ''READY\<newline>'')) a"

definition echo_task_round :: "app \<Rightarrow> stop + app" where
  "echo_task_round a =
     bindE (ask_brd (ask_mach rv32_soc_uart_try_getc) a) (\<lambda>(byte, a).
     bindE (if byte \<ge> 0
            then bindE (on_brd (on_mach (rv32_soc_uart_putc (of_int byte))) a) (\<lambda>a.
                 Inr (a\<lparr>echoed_byte := of_int byte, echo_count := echo_count a + 1\<rparr>))
            else Inr a) (\<lambda>a.
     on_brd (on_kern (vTaskDelay (pdMS_TO_TICKS 1))) a))"

definition demo_csr_read_mstatus :: "app \<Rightarrow> u32" where "demo_csr_read_mstatus a = csr_mstatus (kern (brd a))"
definition demo_csr_read_mie :: "app \<Rightarrow> u32" where "demo_csr_read_mie a = csr_mie (brd a)"

definition all_progressed :: "app \<Rightarrow> bool" where
  "all_progressed a \<longleftrightarrow> blink_count a \<ge> 3 \<and> echo_count a \<ge> 1 \<and>
     freertos_tick_hook_count (kern (brd a)) \<ge> 4 \<and> freertos_context_switch_count (kern (brd a)) \<ge> 8"

definition check_task_round :: "app \<Rightarrow> stop + app" where
  "check_task_round a =
     (if all_progressed a
      then bindE (on_brd (put_report R_magic FREERTOS_DEMO_REPORT_MAGIC) a) (\<lambda>a.
           bindE (on_brd (put_report R_kernel_version FREERTOS_DEMO_KERNEL) a) (\<lambda>a.
           bindE (on_brd (put_report R_tick_count (xTaskGetTickCount (kern (brd a)))) a) (\<lambda>a.
           bindE (on_brd (put_report R_tick_hook_count (freertos_tick_hook_count (kern (brd a)))) a) (\<lambda>a.
           bindE (on_brd (put_report R_context_switch_count (freertos_context_switch_count (kern (brd a)))) a) (\<lambda>a.
           bindE (on_brd (put_report R_blink_count (blink_count a)) a) (\<lambda>a.
           bindE (on_brd (put_report R_echo_count (echo_count a)) a) (\<lambda>a.
           bindE (on_brd (put_report R_echoed_byte (echoed_byte a)) a) (\<lambda>a.
           bindE (ask_brd (ask_mach (rv32_soc_mmio_read32 RV32_SOC_GPIO_OUTPUT)) a) (\<lambda>(out, a).
           bindE (on_brd (put_report R_gpio_output out) a) (\<lambda>a.
           bindE (on_brd (put_report R_mstatus (demo_csr_read_mstatus a)) a) (\<lambda>a.
           bindE (on_brd (put_report R_mie (demo_csr_read_mie a)) a) (\<lambda>a.
           bindE (on_brd (put_report R_failure_code 0) a) (\<lambda>a.
           Inl (finish RV32_SOC_PASS_STATUS (brd a)))))))))))))))
      else on_brd (on_kern (vTaskDelay (pdMS_TO_TICKS 1))) a)"

section \<open>main\<close>

definition text_ptr :: "string \<Rightarrow> nat \<Rightarrow> u8" where
  "text_ptr text x = (if x < length text then of_char (text ! x) else 0)"

fun clear_report :: "nat \<Rightarrow> nat \<Rightarrow> board \<Rightarrow> stop + board" where
  "clear_report index 0 b = Inr b"
| "clear_report index (Suc n) b =
     bindE (on_mach (rv32_soc_mmio_write32 (word_addr index) 0) b) (clear_report (Suc index) n)"

text \<open>The result is the program running its first task; if the scheduler does not start, the program fails.\<close>

definition main :: "app_layout \<Rightarrow> app \<Rightarrow> stop + app" where
  "main L a =
     bindE (clear_report 0 (64 div 4) (brd a)) (\<lambda>b.
     bindE (on_mach (rv32_soc_gpio_write 0) b) (\<lambda>b.
     bindE (on_mach (rv32_soc_gpio_set_output_enable BLINK_MASK) b) (\<lambda>b.
     bindE (on_mach rv32_soc_uart_clear_errors b) (\<lambda>b.
     bindE (put_report R_magic FREERTOS_DEMO_REPORT_MAGIC b) (\<lambda>b.
     bindE (put_report R_kernel_version FREERTOS_DEMO_KERNEL b) (\<lambda>b.
     bindE (ask_kern (xTaskCreateStatic (blink_code L) (Some (text_ptr ''blink'')) BLINK_STACK_WORDS 0 1
              (blink_task_stack L) (blink_task_tcb L)) b) (\<lambda>(blink_handle, b).
     bindE (ask_kern (xTaskCreateStatic (echo_code L) (Some (text_ptr ''echo'')) ECHO_STACK_WORDS 0 2
              (echo_task_stack L) (echo_task_tcb L)) b) (\<lambda>(echo_handle, b).
     bindE (ask_kern (xTaskCreateStatic (check_code L) (Some (text_ptr ''check'')) CHECK_STACK_WORDS 0 3
              (check_task_stack L) (check_task_tcb L)) b) (\<lambda>(check_handle, b).
     if blink_handle = 0 \<or> echo_handle = 0 \<or> check_handle = 0
     then Inl (freertos_platform_fail 0x4001 b)
     else bindE (vTaskStartScheduler (hi_half_first L) (isr_stack L) (idle_memory L) b) (\<lambda>(started, b).
          if started then Inr (a\<lparr>brd := b\<rparr>) else Inl (freertos_platform_fail 0x4002 b)))))))))))"

end
