(* ===== verification/Port_Start.thy ===== *)
theory Port_Start
  imports Port_Time
begin

text \<open>
  Starting the scheduler on the board: the state in which the first task begins to run is a state
  of the scheduler's transition system, with the timer armed and its interrupt enabled.
\<close>

lemma sys_ok_same:
  assumes "sys_ok E (s, pc)" "heap s' = heap s" "tcb s' = tcb s" "uxTopReadyPriority s' = uxTopReadyPriority s"
    "pxDelayedTaskList s' = pxDelayedTaskList s" "pxOverflowDelayedTaskList s' = pxOverflowDelayedTaskList s"
    "xTickCount s' = xTickCount s" "uxCurrentNumberOfTasks s' = uxCurrentNumberOfTasks s"
    "xNextTaskUnblockTime s' = xNextTaskUnblockTime s" "pxCurrentTCB s' = pxCurrentTCB s"
    "xIdleTaskHandle s' = xIdleTaskHandle s" "uxSchedulerSuspended s' = uxSchedulerSuspended s"
    "xPendedTicks s' = xPendedTicks s"
  shows "sys_ok E (s', pc)"
proof -
  have "kernel_core E s" using assms(1) by (simp add: sys_ok_def kernel_ok_def)
  then have "kernel_core E s'" by (rule kernel_core_same) (use assms in simp_all)
  moreover have "running_ok s' p = running_ok s p" for p
    using assms by (cases p) (simp_all add: next_up_def)
  ultimately show ?thesis
    using assms by (simp add: sys_ok_def kernel_ok_def idle_ok_def pending_ok_def)
qed

lemma isr_top_aligned:
  assumes "x AND portBYTE_ALIGNMENT_MASK = 0"
  shows "xISRStackTop x AND portBYTE_ALIGNMENT_MASK = 0"
proof -
  have m: "w AND portBYTE_ALIGNMENT_MASK = take_bit 4 w" for w :: u32
    by (simp add: portBYTE_ALIGNMENT_MASK_def take_bit_eq_mask mask_eq_exp_minus_1)
  have z: "w AND portBYTE_ALIGNMENT_MASK = 0 \<longleftrightarrow> unat w mod 16 = 0" for w :: u32
    unfolding m word_unat_eq_iff unsigned_take_bit_eq by (simp add: take_bit_eq_mod)
  have "xISRStackTop x = x + 768"
    by (simp add: xISRStackTop_def configISR_STACK_SIZE_WORDS_def portBYTE_ALIGNMENT_MASK_def)
  then have "unat (xISRStackTop x) = (unat x + 768) mod 2 ^ 32" by (simp add: unat_word_ariths)
  then have "unat (xISRStackTop x) mod 16 = (unat x + 48 * 16) mod 16"
    using mod_mod_cancel [of 16 "4294967296 :: nat" "unat x + 768"] by simp
  moreover have "(unat x + 48 * 16) mod 16 = unat x mod 16" by (rule mod_mult_self1)
  ultimately show ?thesis using assms unfolding z by simp
qed

lemma vTaskStartScheduler_run:
  assumes "boot_ok E (kern b)" "unknown (kern b) (idle_tcb L)" "idle_tcb L \<noteq> 0" "idle_stack L \<noteq> 0"
    "mt_ok k (mach b)" "csr_mhartid b = 0" "isr AND portBYTE_ALIGNMENT_MASK = 0"
  obtains b' c where "vTaskStartScheduler hi_first isr L b = Inr (True, b')" "sys_ok E (kern b', \<lambda>_. User)"
    "pxCurrentTCB (kern b') =
      (if uxPriority (tcb (kern b) (pxCurrentTCB (kern b))) = 0 then idle_tcb L else pxCurrentTCB (kern b))"
    "abs_state (kern b') = (abs_state (kern b))(idle_tcb L := Ready 0)"
    "k + cycle (mach b) \<le> c" "c \<le> k + cycle (mach b')" "compare_at b' = of_nat (c + 75000)"
    "ullNextTime b' = of_nat (c + 2 * 75000)" "pullMachineTimerCompareRegister b' = MTIMECMP_LO_ADDR"
    "csr_mie b' = 0x80" "devs (mach b') = devs (mach b)" "mt_ok k (mach b')"
    "xSchedulerRunning (kern b')"
proof -
  from start_kernel_run [OF assms(1-4)] obtain s where s: "start_kernel L (kern b) = Inr (True, s)" "kernel_ok E s"
    "uxSchedulerSuspended s = 0" "xSchedulerRunning s" "next_up s (pxCurrentTCB s)"
    "pxCurrentTCB s = (if uxPriority (tcb (kern b) (pxCurrentTCB (kern b))) = 0 then idle_tcb L else pxCurrentTCB (kern b))"
    "abs_state s = (abs_state (kern b))(idle_tcb L := Ready 0)" by blast
  let ?m = "snd (platform_memset isr portISR_STACK_FILL_BYTE (configISR_STACK_SIZE_WORDS * 4) (memory s))"
  let ?b = "b\<lparr>kern := s\<lparr>memory := ?m\<rparr>\<rparr>"
  have "mt_ok k (mach ?b)" "csr_mhartid ?b = 0" using assms(5,6) by simp_all
  then obtain c b1 where b1: "vPortSetupTimerInterrupt hi_first ?b = Inr b1" "k + cycle (mach ?b) \<le> c"
    "c \<le> k + cycle (mach b1)" "compare_at b1 = of_nat (c + 75000)" "ullNextTime b1 = of_nat (c + 2 * 75000)"
    "pullMachineTimerCompareRegister b1 = MTIMECMP_LO_ADDR" "mt_ok k (mach b1)" "devs (mach b1) = devs (mach ?b)"
    "b1 = ?b\<lparr>mach := mach b1, ullNextTime := ullNextTime b1, pullMachineTimerCompareRegister := MTIMECMP_LO_ADDR\<rparr>"
    by (rule setup_run)
  have k1: "kern b1 = s\<lparr>memory := ?m\<rparr>" by (subst b1(9)) simp
  let ?b2 = "csrs_mie 0x880 b1"
  let ?b' = "?b2\<lparr>kern := xPortStartFirstTask (kern ?b2)\<rparr>"
  have run: "vTaskStartScheduler hi_first isr L b = Inr (True, ?b')"
    using s(1) b1(1) isr_top_aligned [OF assms(7)]
    by (simp add: vTaskStartScheduler_def ask_kern_def xPortStartScheduler_def Let_def)
  have kf: "kern ?b' = xPortStartFirstTask (s\<lparr>memory := ?m\<rparr>)" by (simp add: csrs_mie_def k1)
  have "sys_ok E (s, \<lambda>_. User)" using s by (simp add: sys_ok_def kernel_ok_def)
  then have ok: "sys_ok E (kern ?b', \<lambda>_. User)"
    unfolding kf by (rule sys_ok_same) (simp_all add: xPortStartFirstTask_def Let_def)
  have ab: "abs_state (kern ?b') = abs_state s"
    unfolding kf by (rule abs_state_same) (simp_all add: xPortStartFirstTask_def Let_def)
  have cur: "pxCurrentTCB (kern ?b') = pxCurrentTCB s" "xSchedulerRunning (kern ?b')"
    unfolding kf using s(4) by (simp_all add: xPortStartFirstTask_def Let_def)
  have mie: "(csr_mie b1 OR 0x880) AND 0x80 = (0x80 :: u32)" by (simp add: bit.conj_disj_distrib2 bit_eq_iff bit_simps)
  show thesis
    by (rule that [OF run ok])
      (use b1 s(6,7) ab cur mie in \<open>simp_all add: csrs_mie_def compare_at_def MIE_WRITABLE_MASK_def\<close>)
qed

end
