(* ===== verification/Demo_Runs.thy ===== *)
theory Demo_Runs
  imports Demo Port_Start
begin

text \<open>
  What the functions of the demonstration program do to the board: the stores of \<open>main\<close>, and the
  accesses of each round of a task.
\<close>

section \<open>Machine steps\<close>

lemma passes_mt_ok:
  assumes "passes q m m'" "request_target (req_addr q) \<noteq> TARGET_TIMER" "mt_ok k m"
  shows "mt_ok k m'"
  by (rule mt_ok_advance [OF assms(3) passes_timer(1) [OF assms(1,2)]]) (use passes_env [OF assms(1)] in simp_all)

lemma wrote_mt_ok: "wrote ws m m' \<Longrightarrow> mt_ok k m \<Longrightarrow> mt_ok k m'"
  using mt_ok_advance [of k m m'] by (simp add: wrote_def)

lemma clear_report_run:
  "index + n \<le> 2048 \<Longrightarrow> \<exists>m'. clear_report index n b = Inr (b\<lparr>mach := m'\<rparr>) \<and>
    wrote (map (\<lambda>i. (i, 0)) [index..<index + n]) (mach b) m'"
proof (induction n arbitrary: index b)
  case 0
  then show ?case using wrote_Nil [of "mach b"] by (intro exI [of _ "mach b"]) simp
next
  case (Suc n)
  obtain m1 where m1: "rv32_soc_mmio_write32 (word_addr index) 0 (mach b) = Inr m1" "wrote [(index, 0)] (mach b) m1"
    using write_word [of index 0 "mach b"] Suc.prems by auto
  from Suc.IH [of "Suc index" "b\<lparr>mach := m1\<rparr>"] Suc.prems obtain m2 where m2:
    "clear_report (Suc index) n (b\<lparr>mach := m1\<rparr>) = Inr (b\<lparr>mach := m2\<rparr>)"
    "wrote (map (\<lambda>i. (i, 0)) [Suc index..<Suc index + n]) m1 m2" by auto
  have "[index..<index + Suc n] = index # [Suc index..<Suc index + n]" by (simp add: upt_conv_Cons)
  then show ?case
    using m1 m2 wrote_append [OF m1(2) m2(2)] by (intro exI [of _ m2]) (simp add: on_mach_def)
qed

section \<open>The beginning of main\<close>

text \<open>The machine after the report is cleared and headed and the devices are set up.\<close>

definition prepare :: "board \<Rightarrow> stop + board" where
  "prepare b =
     bindE (clear_report 0 (64 div 4) b) (\<lambda>b.
     bindE (on_mach (rv32_soc_gpio_write 0) b) (\<lambda>b.
     bindE (on_mach (rv32_soc_gpio_set_output_enable BLINK_MASK) b) (\<lambda>b.
     bindE (on_mach rv32_soc_uart_clear_errors b) (\<lambda>b.
     bindE (put_report R_magic FREERTOS_DEMO_REPORT_MAGIC b) (\<lambda>b.
     put_report R_kernel_version FREERTOS_DEMO_KERNEL b)))))"

lemma prepare_run:
  assumes "mt_ok k (mach b)"
  obtains m' where "prepare b = Inr (b\<lparr>mach := m'\<rparr>)" "mt_ok k m'" "output_q (gpio_dev (soc m')) = 0"
    "output_enable_q (gpio_dev (soc m')) = BLINK_MASK"
    "\<And>f. report_of m' f = (if f = R_magic then FREERTOS_DEMO_REPORT_MAGIC
        else if f = R_kernel_version then FREERTOS_DEMO_KERNEL else 0)" "cycle (mach b) \<le> cycle m'"
proof -
  let ?z = "map (\<lambda>i. (i, 0 :: u32)) [0..<0 + 16]"
  obtain m1 where m1: "clear_report 0 16 b = Inr (b\<lparr>mach := m1\<rparr>)" "wrote ?z (mach b) m1"
    using clear_report_run [of 0 16 b] by auto
  from write_gpio [of GPIO_OUTPUT_ADDR 0 m1] obtain m2 where m2: "rv32_soc_mmio_write32 GPIO_OUTPUT_ADDR 0 m1 = Inr m2"
    "passes (write_request GPIO_OUTPUT_ADDR 0) m1 m2" "output_q (gpio_dev (soc m2)) = 0" by auto
  from write_gpio [of GPIO_OUTPUT_ENABLE_ADDR BLINK_MASK m2] obtain m3 where m3:
    "rv32_soc_mmio_write32 GPIO_OUTPUT_ENABLE_ADDR BLINK_MASK m2 = Inr m3"
    "passes (write_request GPIO_OUTPUT_ENABLE_ADDR BLINK_MASK) m2 m3"
    "output_q (gpio_dev (soc m3)) = output_q (gpio_dev (soc m2))" "output_enable_q (gpio_dev (soc m3)) = BLINK_MASK"
    by (auto simp: dev_simps)
  let ?e = "RV32_SOC_UART_STATUS_RX_OVERRUN OR RV32_SOC_UART_STATUS_RX_FRAME"
  from write_status [of ?e m3] obtain m4 where m4: "rv32_soc_mmio_write32 UART_STATUS_ADDR ?e m3 = Inr m4"
    "passes (write_request UART_STATUS_ADDR ?e) m3 m4" by blast
  have A: "RV32_SOC_GPIO_OUTPUT = GPIO_OUTPUT_ADDR" "RV32_SOC_GPIO_OE = GPIO_OUTPUT_ENABLE_ADDR"
    "RV32_SOC_UART_STATUS = UART_STATUS_ADDR" by (simp_all add: dev_simps)
  have T: "request_target GPIO_OUTPUT_ADDR = TARGET_GPIO" "request_target GPIO_OUTPUT_ENABLE_ADDR = TARGET_GPIO"
    "request_target UART_STATUS_ADDR = TARGET_UART" by (simp_all add: dev_simps)
  obtain m5 where m5: "put_report R_magic FREERTOS_DEMO_REPORT_MAGIC (b\<lparr>mach := m4\<rparr>) = Inr (b\<lparr>mach := m5\<rparr>)"
    "wrote [(report_index R_magic, FREERTOS_DEMO_REPORT_MAGIC)] m4 m5"
    using put_report_run [of R_magic FREERTOS_DEMO_REPORT_MAGIC "b\<lparr>mach := m4\<rparr>"] by auto
  obtain m6 where m6: "put_report R_kernel_version FREERTOS_DEMO_KERNEL (b\<lparr>mach := m5\<rparr>) = Inr (b\<lparr>mach := m6\<rparr>)"
    "wrote [(report_index R_kernel_version, FREERTOS_DEMO_KERNEL)] m5 m6"
    using put_report_run [of R_kernel_version FREERTOS_DEMO_KERNEL "b\<lparr>mach := m5\<rparr>"] by auto
  have run: "prepare b = Inr (b\<lparr>mach := m6\<rparr>)"
    using m1(1) m2(1) m3(1) m4(1) m5(1) m6(1)
    by (simp add: prepare_def on_mach_def rv32_soc_gpio_write_def rv32_soc_gpio_set_output_enable_def
        rv32_soc_uart_clear_errors_def A)
  note W = wrote_append [OF m5(2) m6(2)]
  have ok: "mt_ok k m6"
    using wrote_mt_ok [OF W] passes_mt_ok [OF m4(2)] passes_mt_ok [OF m3(2)] passes_mt_ok [OF m2(2)]
      wrote_mt_ok [OF m1(2) assms] T by simp
  have out: "output_q (gpio_dev (soc m6)) = 0" "output_enable_q (gpio_dev (soc m6)) = BLINK_MASK"
    using W passes_gpio [OF m4(2)] m2(3) m3(3,4) T by (simp_all add: wrote_def)
  have tc: "tcm (soc m4) = tcm (soc m1)"
    using passes_tcm [OF m4(2)] passes_tcm [OF m3(2)] passes_tcm [OF m2(2)] T by simp
  have z: "report_of m4 f = 0" for f
  proof -
    have "(report_index f, 0) \<in> set (rev ?z)" using report_index_less [of f] by auto
    moreover have "distinct (map fst (rev ?z))" by (simp add: rev_map [symmetric] comp_def)
    ultimately have "map_of (rev ?z) (report_index f) = Some 0" by (simp only: map_of_eq_Some_iff)
    then have "report_of m1 f = 0"
      using wrote_report(1) [OF m1(2), of f] by simp
    then show ?thesis using tc by (simp add: report_of_def)
  qed
  have rep: "report_of m6 f = (if f = R_magic then FREERTOS_DEMO_REPORT_MAGIC
        else if f = R_kernel_version then FREERTOS_DEMO_KERNEL else 0)" for f
    using wrote_report(1) [OF W, of f] z [of f] by (cases f) simp_all
  have cy: "cycle (mach b) \<le> cycle m6"
    using m1(2) W passes_env(5) [OF m2(2)] passes_env(5) [OF m3(2)] passes_env(5) [OF m4(2)]
    by (simp add: wrote_def)
  show thesis by (rule that [OF run ok out rep cy])
qed

section \<open>The tasks\<close>

lemma ticks_of_ms: "pdMS_TO_TICKS 1 = 1" "pdMS_TO_TICKS FREERTOS_BLINK_PERIOD_MS = 2"
  by (simp_all add: pdMS_TO_TICKS_def FREERTOS_BLINK_PERIOD_MS_def configTICK_RATE_HZ_def)

text \<open>A store to the report, in a function that ends the program.\<close>

lemma put_then_finish:
  assumes "\<And>m1. tcm (soc m1) = store32 (word_addr (report_index f)) v (tcm (soc (mach (brd a)))) \<Longrightarrow>
      output_q (gpio_dev (soc m1)) = output_q (gpio_dev (soc (mach (brd a)))) \<Longrightarrow>
      \<exists>m'. k (a\<lparr>brd := (brd a)\<lparr>mach := m1\<rparr>\<rparr>) = Inl (Finished m') \<and> P m'"
  shows "\<exists>m'. bindE (on_brd (put_report f v) a) k = Inl (Finished m') \<and> P m'"
proof -
  obtain m1 where m1: "put_report f v (brd a) = Inr ((brd a)\<lparr>mach := m1\<rparr>)"
    "wrote [(report_index f, v)] (mach (brd a)) m1" by (rule put_report_run)
  have "tcm (soc m1) = store32 (word_addr (report_index f)) v (tcm (soc (mach (brd a))))"
    "output_q (gpio_dev (soc m1)) = output_q (gpio_dev (soc (mach (brd a))))"
    using m1(2) by (simp_all add: wrote_def)
  from assms [OF this] m1(1) show ?thesis by (simp add: on_brd_def)
qed

lemma read_then_finish:
  assumes "\<And>m1. tcm (soc m1) = tcm (soc (mach (brd a))) \<Longrightarrow>
      output_q (gpio_dev (soc m1)) = output_q (gpio_dev (soc (mach (brd a)))) \<Longrightarrow>
      \<exists>m'. k (output_q (gpio_dev (soc (mach (brd a)))), a\<lparr>brd := (brd a)\<lparr>mach := m1\<rparr>\<rparr>) = Inl (Finished m') \<and> P m'"
  shows "\<exists>m'. bindE (ask_brd (ask_mach (rv32_soc_mmio_read32 RV32_SOC_GPIO_OUTPUT)) a) k = Inl (Finished m') \<and> P m'"
proof -
  from read_gpio_output [of "mach (brd a)"] obtain m1 where m1:
    "rv32_soc_mmio_read32 GPIO_OUTPUT_ADDR (mach (brd a)) = Inr (output_q (gpio_dev (soc (mach (brd a)))), m1)"
    "passes (read_request GPIO_OUTPUT_ADDR) (mach (brd a)) m1"
    "output_q (gpio_dev (soc m1)) = output_q (gpio_dev (soc (mach (brd a))))" by blast
  have "request_target (req_addr (read_request GPIO_OUTPUT_ADDR)) \<noteq> TARGET_TCM" by (simp add: dev_simps)
  from assms [OF passes_tcm [OF m1(2) this] m1(3)] m1(1) show ?thesis
    by (simp add: ask_brd_def ask_mach_def RV32_SOC_GPIO_OUTPUT_def RV32_SOC_GPIO_BASE_def GPIO_OUTPUT_ADDR_def)
qed

lemma finish_now:
  assumes "\<And>m'. tcm (soc m') = store32 RV32_SOC_TOHOST_ADDR status (tcm (soc (mach b))) \<Longrightarrow> P m'"
  shows "\<exists>m'. finish status b = Finished m' \<and> P m'"
proof -
  obtain m' where "stopping (Inr (finish status b)) = Finished m'" "wrote [(2047, status)] (mach b) m'"
    using finish_run [OF refl] by blast
  then show ?thesis
    using assms [of m'] by (intro exI [of _ m']) (simp add: stopping_def wrote_def tohost_word_addr)
qed

lemma write_text_run:
  "\<exists>m'. uart_write_text s m = Inr m' \<and>
    bus_log m' = bus_log m @ map (\<lambda>c. write_request UART_TXDATA_ADDR (ucast (of_char c :: u8))) s"
proof (induction s arbitrary: m)
  case Nil
  then show ?case by simp
next
  case (Cons c s)
  from write_txdata [of "ucast (of_char c :: u8)" m] obtain m1 where m1:
    "rv32_soc_mmio_write32 UART_TXDATA_ADDR (ucast (of_char c :: u8)) m = Inr m1"
    "passes (write_request UART_TXDATA_ADDR (ucast (of_char c :: u8))) m m1" by blast
  from Cons.IH [of m1] obtain m' where "uart_write_text s m1 = Inr m'"
    "bus_log m' = bus_log m1 @ map (\<lambda>c. write_request UART_TXDATA_ADDR (ucast (of_char c :: u8))) s" by blast
  then show ?case
    using m1 passes_log [OF m1(2)] by (intro exI [of _ m']) (simp add: rv32_soc_uart_putc_def dev_simps)
qed

text \<open>The report the check task makes when it passes.\<close>

definition pass_report :: "app \<Rightarrow> (freertos_demo_report_t \<times> u32) list" where
  "pass_report a =
     [(R_magic, FREERTOS_DEMO_REPORT_MAGIC), (R_kernel_version, FREERTOS_DEMO_KERNEL),
      (R_tick_count, xTickCount (kern (brd a))), (R_tick_hook_count, freertos_tick_hook_count (kern (brd a))),
      (R_context_switch_count, freertos_context_switch_count (kern (brd a))), (R_blink_count, blink_count a),
      (R_echo_count, echo_count a), (R_echoed_byte, echoed_byte a),
      (R_gpio_output, output_q (gpio_dev (soc (mach (brd a))))), (R_mstatus, csr_mstatus (kern (brd a))),
      (R_mie, csr_mie (brd a)), (R_failure_code, 0)]"

lemma check_run:
  assumes "all_progressed a"
  shows "\<exists>m'. check_task_round a = Inl (Finished m') \<and>
    tcm (soc m') = store32 RV32_SOC_TOHOST_ADDR RV32_SOC_PASS_STATUS
      (fold (\<lambda>(f, v). store32 (word_addr (report_index f)) v) (pass_report a) (tcm (soc (mach (brd a)))))"
  unfolding check_task_round_def if_P [OF assms] demo_csr_read_mstatus_def demo_csr_read_mie_def xTaskGetTickCount_def
  by ((rule put_then_finish | rule read_then_finish), (simp del: report_index.simps)?)+
     (rule finish_now, simp add: pass_report_def del: report_index.simps)

lemma load_report:
  "load32 (store32 RV32_SOC_TOHOST_ADDR v t) (word_addr (report_index f)) = load32 t (word_addr (report_index f))"
  "load32 (store32 (word_addr (report_index g)) v t) (word_addr (report_index f)) =
    (if f = g then v else load32 t (word_addr (report_index f)))"
  using load_word_addr [of 2047 "report_index f" v t] load_word_addr [of "report_index g" "report_index f" v t]
    report_index_less [of f] report_index_less [of g]
  by (simp_all add: tohost_word_addr report_index_inj)

end
