(* ===== verification/Demo_Claims.thy ===== *)
theory Demo_Claims
  imports Demo_Runs Kernel_Demo Soc_Claims
begin

text \<open>
  The properties of the demonstration program: what \<open>main\<close> starts, what a round of each task does,
  when the program passes and what it reports when it fails.
\<close>

section \<open>main\<close>

text \<open>The memory the linker gives to the program: aligned, not at address 0, control blocks apart.\<close>

definition linked :: "app_layout \<Rightarrow> bool" where
  "linked L \<longleftrightarrow> distinct [blink_task_tcb L, echo_task_tcb L, check_task_tcb L, idle_tcb (idle_memory L), 0] \<and>
     0 \<notin> {blink_task_stack L, echo_task_stack L, check_task_stack L, idle_stack (idle_memory L)} \<and>
     isr_stack L AND portBYTE_ALIGNMENT_MASK = 0"

lemma main_prepare:
  "main L a = bindE (prepare (brd a)) (\<lambda>b.
     bindE (ask_kern (xTaskCreateStatic (blink_code L) (Some (text_ptr ''blink'')) BLINK_STACK_WORDS 0 1
              (blink_task_stack L) (blink_task_tcb L)) b) (\<lambda>(blink_handle, b).
     bindE (ask_kern (xTaskCreateStatic (echo_code L) (Some (text_ptr ''echo'')) ECHO_STACK_WORDS 0 2
              (echo_task_stack L) (echo_task_tcb L)) b) (\<lambda>(echo_handle, b).
     bindE (ask_kern (xTaskCreateStatic (check_code L) (Some (text_ptr ''check'')) CHECK_STACK_WORDS 0 3
              (check_task_stack L) (check_task_tcb L)) b) (\<lambda>(check_handle, b).
     if blink_handle = 0 \<or> echo_handle = 0 \<or> check_handle = 0
     then Inl (freertos_platform_fail 0x4001 b)
     else bindE (vTaskStartScheduler (hi_half_first L) (isr_stack L) (idle_memory L) b) (\<lambda>(started, b).
          if started then Inr (a\<lparr>brd := b\<rparr>) else Inl (freertos_platform_fail 0x4002 b))))))"
  by (simp add: main_def prepare_def bindE_assoc)

lemma main_run:
  assumes "fresh E (kern (brd a))" and "linked L" and "mt_ok k (mach (brd a))" and "csr_mhartid (brd a) = 0"
  shows "\<exists>b c. main L a = Inr (a\<lparr>brd := b\<rparr>) \<and> sys_ok E (kern b, \<lambda>_. User) \<and>
    pxCurrentTCB (kern b) = check_task_tcb L \<and>
    abs_state (kern b) = (\<lambda>_. Absent)(blink_task_tcb L := Ready 1, echo_task_tcb L := Ready 2,
      check_task_tcb L := Ready 3, idle_tcb (idle_memory L) := Ready 0) \<and>
    output_q (gpio_dev (soc (mach b))) = 0 \<and> output_enable_q (gpio_dev (soc (mach b))) = BLINK_MASK \<and>
    report_of (mach b) = (\<lambda>_. 0)(R_magic := FREERTOS_DEMO_REPORT_MAGIC, R_kernel_version := FREERTOS_DEMO_KERNEL) \<and>
    csr_mie b = 0x80 \<and> pullMachineTimerCompareRegister b = MTIMECMP_LO_ADDR \<and> k + cycle (mach (brd a)) \<le> c \<and> c \<le> k + cycle (mach b) \<and> compare_at b = of_nat (c + 75000)"
proof -
  let ?I = "idle_memory L"
  have L: "blink_task_tcb L \<noteq> 0" "echo_task_tcb L \<noteq> 0" "check_task_tcb L \<noteq> 0" "idle_tcb ?I \<noteq> 0"
    "blink_task_stack L \<noteq> 0" "echo_task_stack L \<noteq> 0" "check_task_stack L \<noteq> 0" "idle_stack ?I \<noteq> 0"
    "isr_stack L AND portBYTE_ALIGNMENT_MASK = 0" "echo_task_tcb L \<noteq> blink_task_tcb L"
    "check_task_tcb L \<noteq> blink_task_tcb L" "check_task_tcb L \<noteq> echo_task_tcb L"
    "idle_tcb ?I \<noteq> blink_task_tcb L" "idle_tcb ?I \<noteq> echo_task_tcb L" "idle_tcb ?I \<noteq> check_task_tcb L"
    using assms(2) by (auto simp: linked_def)
  obtain m where m: "prepare (brd a) = Inr ((brd a)\<lparr>mach := m\<rparr>)" "mt_ok k m" "output_q (gpio_dev (soc m)) = 0"
    "output_enable_q (gpio_dev (soc m)) = BLINK_MASK"
    "\<And>f. report_of m f = (if f = R_magic then FREERTOS_DEMO_REPORT_MAGIC
        else if f = R_kernel_version then FREERTOS_DEMO_KERNEL else 0)" "cycle (mach (brd a)) \<le> cycle m"
    using prepare_run [OF assms(3)] by blast
  have P: "(1 :: u32) < 4" "(2 :: u32) < 4" "(3 :: u32) < 4" "31 < BLINK_STACK_WORDS" "31 < ECHO_STACK_WORDS"
    "31 < CHECK_STACK_WORDS" by (simp_all add: BLINK_STACK_WORDS_def ECHO_STACK_WORDS_def CHECK_STACK_WORDS_def)
  from create_first [OF assms(1) L(5,1) P(1,4), of "blink_code L" "Some (text_ptr ''blink'')" 0] obtain s1 where s1:
    "xTaskCreateStatic (blink_code L) (Some (text_ptr ''blink'')) BLINK_STACK_WORDS 0 1 (blink_task_stack L)
       (blink_task_tcb L) (kern (brd a)) = Inr (blink_task_tcb L, s1)" "boot_ok E s1"
    "pxCurrentTCB s1 = blink_task_tcb L" "uxPriority (tcb s1 (blink_task_tcb L)) = 1"
    "abs_state s1 = (\<lambda>_. Absent)(blink_task_tcb L := Ready (unat (1 :: u32)))"
    "home s1 = (\<lambda>_. None)(StateItem (blink_task_tcb L) := Some (ReadyList (unat (1 :: u32))))" by blast
  have u1: "unknown s1 (echo_task_tcb L)" using L by (simp add: unknown_def s1(6))
  from create_next [OF s1(2) u1 L(6,2) P(2,5), of "echo_code L" "Some (text_ptr ''echo'')" 0] obtain s2 where s2:
    "xTaskCreateStatic (echo_code L) (Some (text_ptr ''echo'')) ECHO_STACK_WORDS 0 2 (echo_task_stack L)
       (echo_task_tcb L) s1 = Inr (echo_task_tcb L, s2)" "boot_ok E s2"
    "pxCurrentTCB s2 = (if uxPriority (tcb s1 (pxCurrentTCB s1)) \<le> 2 then echo_task_tcb L else pxCurrentTCB s1)"
    "uxPriority (tcb s2 (echo_task_tcb L)) = 2"
    "abs_state s2 = (abs_state s1)(echo_task_tcb L := Ready (unat (2 :: u32)))"
    "home s2 = (home s1)(StateItem (echo_task_tcb L) := Some (ReadyList (unat (2 :: u32))))" by blast
  have c2: "pxCurrentTCB s2 = echo_task_tcb L" using s1(3,4) by (simp add: s2(3))
  have u2: "unknown s2 (check_task_tcb L)" using L by (simp add: unknown_def s2(6) s1(6))
  from create_next [OF s2(2) u2 L(7,3) P(3,6), of "check_code L" "Some (text_ptr ''check'')" 0] obtain s3 where s3:
    "xTaskCreateStatic (check_code L) (Some (text_ptr ''check'')) CHECK_STACK_WORDS 0 3 (check_task_stack L)
       (check_task_tcb L) s2 = Inr (check_task_tcb L, s3)" "boot_ok E s3"
    "pxCurrentTCB s3 = (if uxPriority (tcb s2 (pxCurrentTCB s2)) \<le> 3 then check_task_tcb L else pxCurrentTCB s2)"
    "uxPriority (tcb s3 (check_task_tcb L)) = 3"
    "abs_state s3 = (abs_state s2)(check_task_tcb L := Ready (unat (3 :: u32)))"
    "home s3 = (home s2)(StateItem (check_task_tcb L) := Some (ReadyList (unat (3 :: u32))))" by blast
  have c3: "pxCurrentTCB s3 = check_task_tcb L" using c2 s2(4) by (simp add: s3(3))
  let ?b = "(brd a)\<lparr>mach := m, kern := s3\<rparr>"
  have u3: "unknown (kern ?b) (idle_tcb ?I)" using L by (simp add: unknown_def s3(6) s2(6) s1(6))
  have ok: "boot_ok E (kern ?b)" "mt_ok k (mach ?b)" "csr_mhartid ?b = 0" using s3(2) m(2) assms(4) by simp_all
  obtain b c where b: "vTaskStartScheduler (hi_half_first L) (isr_stack L) ?I ?b = Inr (True, b)"
    "sys_ok E (kern b, \<lambda>_. User)"
    "pxCurrentTCB (kern b) = (if uxPriority (tcb (kern ?b) (pxCurrentTCB (kern ?b))) = 0 then idle_tcb ?I else pxCurrentTCB (kern ?b))"
    "abs_state (kern b) = (abs_state (kern ?b))(idle_tcb ?I := Ready 0)" "k + cycle (mach ?b) \<le> c" "c \<le> k + cycle (mach b)"
    "compare_at b = of_nat (c + 75000)" "pullMachineTimerCompareRegister b = MTIMECMP_LO_ADDR" "csr_mie b = 0x80" "devs (mach b) = devs (mach ?b)"
    by (rule vTaskStartScheduler_run [OF ok(1) u3 L(4,8) ok(2,3) L(9)])
  have run: "main L a = Inr (a\<lparr>brd := b\<rparr>)"
    unfolding main_prepare using m(1) s1(1) s2(1) s3(1) b(1) L(1-3) by (simp add: ask_kern_def)
  have "pxCurrentTCB (kern b) = check_task_tcb L" using b(3) c3 s3(4) by simp
  moreover have "abs_state (kern b) = (\<lambda>_. Absent)(blink_task_tcb L := Ready 1, echo_task_tcb L := Ready 2,
      check_task_tcb L := Ready 3, idle_tcb ?I := Ready 0)"
    using b(4) by (simp add: s3(5) s2(5) s1(5))
  moreover have "report_of (mach b) = (\<lambda>_. 0)(R_magic := FREERTOS_DEMO_REPORT_MAGIC, R_kernel_version := FREERTOS_DEMO_KERNEL)"
  proof
    fix f
    have "report_of (mach b) f = report_of m f" using b(10) by (simp add: devs_def report_of_def)
    then show "report_of (mach b) f = ((\<lambda>_. 0)(R_magic := FREERTOS_DEMO_REPORT_MAGIC,
        R_kernel_version := FREERTOS_DEMO_KERNEL)) f" using m(5) [of f] by simp
  qed
  moreover have "output_q (gpio_dev (soc (mach b))) = 0" "output_enable_q (gpio_dev (soc (mach b))) = BLINK_MASK"
    using b(10) m(3,4) by (simp_all add: devs_def)
  ultimately show ?thesis
    using run b m(6) by (intro exI [of _ b] exI [of _ c]) simp
qed

text \<open>C14. \<open>main\<close> starts the system. From the zeroed static memory and any state of the devices it returns
  no error; the board then runs the check task, in a state of the scheduler's transition
  system that holds exactly the tasks blink, echo, check and idle, all ready, at the priorities
  1, 2, 3 and 0; the LED pin is driven low, the report is cleared but for its head, and the
  timer interrupt is enabled and due one period after a moment of the call.\<close>

theorem main_starts_the_system:
  assumes "fresh E (kern (brd a))" and "linked L" and "mt_ok k (mach (brd a))" and "csr_mhartid (brd a) = 0"
  shows "\<exists>b c. main L a = Inr (a\<lparr>brd := b\<rparr>) \<and> sys_ok E (kern b, \<lambda>_. User) \<and>
    pxCurrentTCB (kern b) = check_task_tcb L \<and>
    abs_state (kern b) = (\<lambda>_. Absent)(blink_task_tcb L := Ready 1, echo_task_tcb L := Ready 2,
      check_task_tcb L := Ready 3, idle_tcb (idle_memory L) := Ready 0) \<and>
    output_q (gpio_dev (soc (mach b))) = 0 \<and> output_enable_q (gpio_dev (soc (mach b))) = BLINK_MASK \<and>
    report_of (mach b) = (\<lambda>_. 0)(R_magic := FREERTOS_DEMO_REPORT_MAGIC, R_kernel_version := FREERTOS_DEMO_KERNEL) \<and>
    csr_mie b = 0x80 \<and> k + cycle (mach (brd a)) \<le> c \<and> c \<le> k + cycle (mach b) \<and> compare_at b = of_nat (c + 75000)"
  using main_run [OF assms] by blast

definition app_at_reset :: app where
  "app_at_reset = \<lparr>brd = \<lparr>kern = reset_kernel, mach = reset_machine, ullNextTime = 0,
       pullMachineTimerCompareRegister = 0, csr_mie = 0, csr_mtval = 0, csr_mhartid = 0\<rparr>,
     blink_count = 0, echo_count = 0, echoed_byte = 0\<rparr>"

definition some_layout :: app_layout where
  "some_layout = \<lparr>blink_code = 0x500, echo_code = 0x600, check_code = 0x700,
     blink_task_tcb = 0x4000, echo_task_tcb = 0x4100, check_task_tcb = 0x4200, blink_task_stack = 0x5000,
     echo_task_stack = 0x5400, check_task_stack = 0x5800,
     idle_memory = \<lparr>idle_code = 0x800, idle_tcb = 0x4300, idle_stack = 0x5c00\<rparr>, isr_stack = 0x6000, hi_half_first = False\<rparr>"

theorem main_starts_the_system_witness:
  "\<exists>b. main some_layout app_at_reset = Inr (app_at_reset\<lparr>brd := b\<rparr>) \<and> pxCurrentTCB (kern b) = 0x4200 \<and>
     abs_state (kern b) 0x4100 = Ready 2"
proof -
  have "linked some_layout" by (simp add: linked_def some_layout_def portBYTE_ALIGNMENT_MASK_def)
  from main_starts_the_system [of "{}" app_at_reset some_layout 0, OF _ this] show ?thesis
    using fresh_reset reset_mt_ok by (auto simp: app_at_reset_def some_layout_def)
qed

section \<open>Failing\<close>

text \<open>C33. \<open>freertos_platform_fail\<close> reports: it always ends the program, the report then holds the magic
  number, the kernel version, the counters, the control registers and the code, with every
  other field as it was, and the mailbox, stored last, holds the code shifted left with the two
  low bits set, so that a failure is never taken for a pass. The stores are these and no others.\<close>

theorem platform_fail_reports:
  "\<exists>m'. freertos_platform_fail code b = Finished m' \<and>
    report_of m' = (report_of (mach b))(R_magic := FREERTOS_DEMO_REPORT_MAGIC, R_kernel_version := FREERTOS_DEMO_KERNEL,
      R_tick_hook_count := freertos_tick_hook_count (kern b),
      R_context_switch_count := freertos_context_switch_count (kern b), R_mstatus := csr_mstatus (kern b),
      R_mie := csr_mie b, R_mtval := csr_mtval b, R_failure_code := code) \<and>
    load32 (tcm (soc m')) RV32_SOC_TOHOST_ADDR = push_bit 1 code OR 3 \<and>
    load32 (tcm (soc m')) RV32_SOC_TOHOST_ADDR \<noteq> RV32_SOC_PASS_STATUS \<and>
    (\<exists>qs. bus_log m' = bus_log (mach b) @ qs @ [write_request RV32_SOC_TOHOST_ADDR (push_bit 1 code OR 3)] \<and>
      length qs = 8)"
proof -
  obtain m' where m': "freertos_platform_fail code b = Finished m'" "wrote (fail_stores code b) (mach b) m'"
    using platform_fail_run [of code b] by blast
  note rep = wrote_report [OF m'(2) fail_stores_window]
  have "report_of m' = (report_of (mach b))(R_magic := FREERTOS_DEMO_REPORT_MAGIC, R_kernel_version := FREERTOS_DEMO_KERNEL,
      R_tick_hook_count := freertos_tick_hook_count (kern b),
      R_context_switch_count := freertos_context_switch_count (kern b), R_mstatus := csr_mstatus (kern b),
      R_mie := csr_mie b, R_mtval := csr_mtval b, R_failure_code := code)"
  proof
    fix f show "report_of m' f = ((report_of (mach b))(R_magic := FREERTOS_DEMO_REPORT_MAGIC, R_kernel_version := FREERTOS_DEMO_KERNEL,
      R_tick_hook_count := freertos_tick_hook_count (kern b),
      R_context_switch_count := freertos_context_switch_count (kern b), R_mstatus := csr_mstatus (kern b),
      R_mie := csr_mie b, R_mtval := csr_mtval b, R_failure_code := code)) f"
      unfolding rep(1) fail_stores_def by (cases f) simp_all
  qed
  moreover have "load32 (tcm (soc m')) RV32_SOC_TOHOST_ADDR = push_bit 1 code OR 3"
    unfolding rep(2) by (simp add: fail_stores_def)
  moreover have "bus_log m' = bus_log (mach b) @ map (\<lambda>(i, v). write_request (word_addr i) v) (fail_stores code b)"
    using m'(2) by (simp add: wrote_def)
  then have "\<exists>qs. bus_log m' = bus_log (mach b) @ qs @ [write_request RV32_SOC_TOHOST_ADDR (push_bit 1 code OR 3)] \<and>
      length qs = 8"
    by (intro exI [of _ "map (\<lambda>(i, v). write_request (word_addr i) v) (butlast (fail_stores code b))"])
       (simp add: fail_stores_def tohost_word_addr)
  ultimately show ?thesis using m'(1) fail_status [of code] by (intro exI [of _ m']) simp
qed

section \<open>The tasks\<close>

text \<open>C28. The check task passes exactly when every part has made progress: three blinks, an echoed byte,
  four ticks and eight context switches. Then it fills the report with the values at that
  moment, the LED pins included, keeps the fields it does not own, clears the failure code and
  ends the program with the status \<^verbatim>\<open>PASS\<close>; otherwise it delays for one tick and touches nothing.\<close>

theorem check_passes_exactly:
  "if blink_count a \<ge> 3 \<and> echo_count a \<ge> 1 \<and> freertos_tick_hook_count (kern (brd a)) \<ge> 4 \<and>
      freertos_context_switch_count (kern (brd a)) \<ge> 8
   then \<exists>m'. check_task_round a = Inl (Finished m') \<and>
     load32 (tcm (soc m')) RV32_SOC_TOHOST_ADDR = RV32_SOC_PASS_STATUS \<and>
     report_of m' = (report_of (mach (brd a)))(R_magic := FREERTOS_DEMO_REPORT_MAGIC, R_kernel_version := FREERTOS_DEMO_KERNEL,
       R_tick_count := xTickCount (kern (brd a)), R_tick_hook_count := freertos_tick_hook_count (kern (brd a)),
       R_context_switch_count := freertos_context_switch_count (kern (brd a)), R_blink_count := blink_count a,
       R_echo_count := echo_count a, R_echoed_byte := echoed_byte a,
       R_gpio_output := output_q (gpio_dev (soc (mach (brd a)))), R_mstatus := csr_mstatus (kern (brd a)),
       R_mie := csr_mie (brd a), R_failure_code := 0)
   else check_task_round a = (case vTaskDelay 1 (kern (brd a)) of
     Inl e \<Rightarrow> Inl (KernelStop e (brd a)) | Inr s \<Rightarrow> Inr (a\<lparr>brd := (brd a)\<lparr>kern := s\<rparr>\<rparr>))"
proof (cases "all_progressed a")
  case False
  then show ?thesis
    by (auto simp: check_task_round_def all_progressed_def on_brd_def on_kern_def ticks_of_ms split: sum.split)
next
  case True
  from check_run [OF True] obtain m' where m': "check_task_round a = Inl (Finished m')"
    "tcm (soc m') = store32 RV32_SOC_TOHOST_ADDR RV32_SOC_PASS_STATUS
      (fold (\<lambda>(f, v). store32 (word_addr (report_index f)) v) (pass_report a) (tcm (soc (mach (brd a)))))" by blast
  have "report_of m' f = ((report_of (mach (brd a)))(R_magic := FREERTOS_DEMO_REPORT_MAGIC, R_kernel_version := FREERTOS_DEMO_KERNEL,
       R_tick_count := xTickCount (kern (brd a)), R_tick_hook_count := freertos_tick_hook_count (kern (brd a)),
       R_context_switch_count := freertos_context_switch_count (kern (brd a)), R_blink_count := blink_count a,
       R_echo_count := echo_count a, R_echoed_byte := echoed_byte a,
       R_gpio_output := output_q (gpio_dev (soc (mach (brd a)))), R_mstatus := csr_mstatus (kern (brd a)),
       R_mie := csr_mie (brd a), R_failure_code := 0)) f" for f
    unfolding report_of_def m'(2) load_report pass_report_def
    by (cases f) (simp_all add: load_report report_of_def del: report_index.simps)
  moreover have "load32 (tcm (soc m')) RV32_SOC_TOHOST_ADDR = RV32_SOC_PASS_STATUS"
    by (simp add: m'(2) load32_store32)
  ultimately show ?thesis using True m'(1) by (auto simp: all_progressed_def fun_eq_iff)
qed

text \<open>A round of the blink task inverts the LED pin with one store, counts it, and blocks the task for
  two ticks, the period of 2 ms of the 1 kHz clock. If the stack of the task has overflowed, and
  only then, the stack check of the context switch stops the program.\<close>

lemma blink_round_toggles:
  assumes "kernel_ok E (kern (brd a))" and "uxSchedulerSuspended (kern (brd a)) = 0"
    and "home (kern (brd a)) (StateItem (pxCurrentTCB (kern (brd a)))) = Some (ReadyList p)"
    and "pxCurrentTCB (kern (brd a)) \<noteq> xIdleTaskHandle (kern (brd a))"
  shows "if healthy (kern (brd a))
    then \<exists>a'. blink_task_round a = Inr a' \<and> blink_count a' = blink_count a + 1 \<and>
      output_q (gpio_dev (soc (mach (brd a')))) = output_q (gpio_dev (soc (mach (brd a)))) XOR 1 \<and>
      bus_log (mach (brd a')) = bus_log (mach (brd a)) @ [write_request GPIO_OUTPUT_TOGGLE_ADDR 1] \<and>
      kernel_ok E (kern (brd a')) \<and>
      abs_state (kern (brd a')) = (abs_state (kern (brd a)))(pxCurrentTCB (kern (brd a)) := Blocked 2)
    else \<exists>b. blink_task_round a = Inl (KernelStop StackOverflow b)"
proof -
  from write_gpio [of GPIO_OUTPUT_TOGGLE_ADDR 1 "mach (brd a)"] obtain m1 where m1:
    "rv32_soc_mmio_write32 GPIO_OUTPUT_TOGGLE_ADDR 1 (mach (brd a)) = Inr m1"
    "passes (write_request GPIO_OUTPUT_TOGGLE_ADDR 1) (mach (brd a)) m1"
    "output_q (gpio_dev (soc m1)) = output_q (gpio_dev (soc (mach (brd a)))) XOR 1"
    by (auto simp: dev_simps)
  have "rv32_soc_gpio_toggle BLINK_MASK (mach (brd a)) = Inr m1"
    using m1(1) by (simp add: rv32_soc_gpio_toggle_def BLINK_MASK_def dev_simps)
  then show ?thesis
    using vTaskDelay_run [OF assms, of 2] m1(3) passes_log [OF m1(2)]
    by (auto simp: blink_task_round_def on_brd_def on_mach_def on_kern_def ticks_of_ms settled_def delay_spec_def split: if_splits)
qed

text \<open>What a round does with the byte \<open>x\<close>, and what it does when the receiver is empty.\<close>

definition echoed :: "u8 \<Rightarrow> app \<Rightarrow> app \<Rightarrow> bool" where
  "echoed x a a' \<longleftrightarrow> echo_count a' = echo_count a + 1 \<and> echoed_byte a' = ucast x \<and>
     bus_log (mach (brd a')) = bus_log (mach (brd a)) @
       [read_request UART_STATUS_ADDR, read_request UART_RXDATA_ADDR, write_request UART_TXDATA_ADDR (ucast x)]"

definition nothing_echoed :: "app \<Rightarrow> app \<Rightarrow> bool" where
  "nothing_echoed a a' \<longleftrightarrow> echo_count a' = echo_count a \<and> echoed_byte a' = echoed_byte a \<and>
     bus_log (mach (brd a')) = bus_log (mach (brd a)) @ [read_request UART_STATUS_ADDR]"

text \<open>
  A round echoes the byte held when it begins, or else one that the receiver completes during the
  round, or none.
\<close>

definition echo_outcome :: "app \<Rightarrow> app \<Rightarrow> bool" where
  "echo_outcome a a' \<longleftrightarrow> (let u = uart_dev (soc (mach (brd a))) in
     \<exists>ts. trace (mach (brd a')) = ts @ trace (mach (brd a)) \<and>
       (if rx_valid_q u then echoed (rx_data_q u) a a'
        else nothing_echoed a a' \<or> (\<exists>x \<in> set (delivered ts). echoed x a a')))"

text \<open>A program at the start of a round, with a healthy task running and a byte in the receiver.\<close>

definition app_with_byte :: app where
  "app_with_byte = app_at_reset\<lparr>brd := (brd app_at_reset)\<lparr>kern := rested demo,
     mach := (mach (brd app_at_reset))\<lparr>soc := (soc (mach (brd app_at_reset)))
       \<lparr>uart_dev := uart_reset\<lparr>rx_valid_q := True, rx_data_q := 0x41\<rparr>\<rparr>\<rparr>\<rparr>\<rparr>"

text \<open>The part of the round before the delay.\<close>

lemma echo_part:
  fixes a :: app
  defines "u \<equiv> uart_dev (soc (mach (brd a)))"
  obtains byte m1 m2 where "rv32_soc_uart_try_getc (mach (brd a)) = Inr (byte, m1)"
    "byte = -1 \<and> \<not> rx_valid_q u \<and> bus_log m1 = bus_log (mach (brd a)) @ [read_request UART_STATUS_ADDR] \<and>
       (\<exists>ts. trace m1 = ts @ trace (mach (brd a))) \<or>
     0 \<le> byte \<and> rv32_soc_uart_putc (of_int byte) m1 = Inr m2 \<and> byte = uint (of_int byte :: u8) \<and>
     (of_int byte = rx_data_q u \<or> \<not> rx_valid_q u) \<and>
     (\<exists>ts. trace m2 = ts @ trace (mach (brd a)) \<and> (rx_valid_q u \<or> of_int byte \<in> set (delivered ts))) \<and>
     bus_log m2 = bus_log (mach (brd a)) @ [read_request UART_STATUS_ADDR, read_request UART_RXDATA_ADDR,
       write_request UART_TXDATA_ADDR (ucast (of_int byte :: u8))]"
proof -
  from try_getc_run [of "mach (brd a)"] obtain r ts and m1 :: machine where g: "rv32_soc_uart_try_getc (mach (brd a)) = Inr (r, m1)"
    "if r = -1
     then (\<exists>s. hd ts = (Some (read_request UART_STATUS_ADDR), s) \<and> \<not> rx_valid_q (uart_dev s)) \<and>
       bus_log m1 = bus_log (mach (brd a)) @ [read_request UART_STATUS_ADDR]
     else (\<exists>s. hd ts = (Some (read_request UART_RXDATA_ADDR), s) \<and> rx_valid_q (uart_dev s) \<and>
         r = uint (rx_data_q (uart_dev s))) \<and>
       bus_log m1 = bus_log (mach (brd a)) @ [read_request UART_STATUS_ADDR, read_request UART_RXDATA_ADDR]"
    "rx_valid_q u \<longrightarrow> r = uint (rx_data_q u)" "trace m1 = ts @ trace (mach (brd a))"
    "held u @ delivered ts = (if r = -1 then [] else [of_int r]) @ held (uart_dev (soc m1))"
    unfolding u_def by blast
  show thesis
  proof (cases "r = -1")
    case True
    have "\<not> rx_valid_q u"
    proof
      assume "rx_valid_q u"
      then have "0 \<le> r" using g(3) by simp
      then show False using True by simp
    qed
    then show thesis using g(1,2,4) True by (intro that [of r m1 m1]) auto
  next
    case False
    then obtain x where x: "r = uint (x :: u8)" using g(2) by auto
    from write_txdata [of "ucast x" m1] obtain m2 where m2: "rv32_soc_mmio_write32 UART_TXDATA_ADDR (ucast x) m1 = Inr m2"
      "passes (write_request UART_TXDATA_ADDR (ucast x)) m1 m2" by blast
    have "rv32_soc_uart_putc x m1 = Inr m2" using m2(1) by (simp add: rv32_soc_uart_putc_def dev_simps)
    moreover have "rx_valid_q u \<longrightarrow> x = rx_data_q u" using g(3) x by (auto simp: word_uint_eq_iff)
    moreover have "bus_log m2 = bus_log (mach (brd a)) @
        [read_request UART_STATUS_ADDR, read_request UART_RXDATA_ADDR, write_request UART_TXDATA_ADDR (ucast x)]"
      using passes_log [OF m2(2)] g(2) False by simp
    moreover obtain ts' where ts': "trace m2 = ts' @ trace m1" using passes_trace [OF m2(2)] by auto
    have "x \<in> set (held u @ delivered ts)" using g(5) False x by simp
    then have "rx_valid_q u \<or> x \<in> set (delivered (ts' @ ts))" by (auto simp: held_def split: if_splits)
    then have "\<exists>ts. trace m2 = ts @ trace (mach (brd a)) \<and> (rx_valid_q u \<or> x \<in> set (delivered ts))"
      using ts' g(4) by (intro exI [of _ "ts' @ ts"]) simp
    ultimately show thesis using g(1) x by (intro that [of r m1 m2]) auto
  qed
qed

text \<open>C29. A round of the echo task sends back the byte that the receiver holds: it pops the byte, stores it
  once in the transmitter, and counts and remembers it; if no byte is held it only loads the
  status. In both cases the task then blocks for one tick. A byte held when the round begins is the
  byte echoed; otherwise the byte is one the receiver completes during the round. Every round of a task whose stack has not overflowed does all this; if the stack has
  overflowed, the byte is echoed and counted all the same, and the stack check of the context
  switch then stops the program.\<close>

theorem echo_round_echoes:
  assumes "kernel_ok E (kern (brd a))" and "uxSchedulerSuspended (kern (brd a)) = 0"
    and "home (kern (brd a)) (StateItem (pxCurrentTCB (kern (brd a)))) = Some (ReadyList p)"
    and "pxCurrentTCB (kern (brd a)) \<noteq> xIdleTaskHandle (kern (brd a))"
  shows "if healthy (kern (brd a))
    then \<exists>a'. echo_task_round a = Inr a' \<and> echo_outcome a a' \<and>
      kernel_ok E (kern (brd a')) \<and> next_up (kern (brd a')) (pxCurrentTCB (kern (brd a'))) \<and>
      abs_state (kern (brd a')) = (abs_state (kern (brd a)))(pxCurrentTCB (kern (brd a)) := Blocked 1)
    else \<exists>a'. echo_task_round a = Inl (KernelStop StackOverflow (brd a')) \<and> echo_outcome a a'"
proof -
  let ?u = "uart_dev (soc (mach (brd a)))"
  obtain byte m1 m2 where g: "rv32_soc_uart_try_getc (mach (brd a)) = Inr (byte, m1)"
    and c: "byte = -1 \<and> \<not> rx_valid_q ?u \<and> bus_log m1 = bus_log (mach (brd a)) @ [read_request UART_STATUS_ADDR] \<and>
       (\<exists>ts. trace m1 = ts @ trace (mach (brd a))) \<or>
     0 \<le> byte \<and> rv32_soc_uart_putc (of_int byte) m1 = Inr m2 \<and> byte = uint (of_int byte :: u8) \<and>
     (of_int byte = rx_data_q ?u \<or> \<not> rx_valid_q ?u) \<and>
     (\<exists>ts. trace m2 = ts @ trace (mach (brd a)) \<and> (rx_valid_q ?u \<or> of_int byte \<in> set (delivered ts))) \<and>
     bus_log m2 = bus_log (mach (brd a)) @ [read_request UART_STATUS_ADDR, read_request UART_RXDATA_ADDR,
       write_request UART_TXDATA_ADDR (ucast (of_int byte :: u8))]"
    by (rule echo_part [of a])
  have w: "byte = uint (of_int byte :: u8) \<Longrightarrow> (of_int byte :: u32) = ucast (of_int byte :: u8)"
    by (metis of_int_uint)
  define a1 where "a1 = (if 0 \<le> byte then a\<lparr>brd := (brd a)\<lparr>mach := m2\<rparr>, echoed_byte := of_int byte,
    echo_count := echo_count a + 1\<rparr> else a\<lparr>brd := (brd a)\<lparr>mach := m1\<rparr>\<rparr>)"
  have run: "echo_task_round a = on_brd (on_kern (vTaskDelay 1)) a1"
    using g c by (auto simp: echo_task_round_def ask_brd_def ask_mach_def on_brd_def on_mach_def ticks_of_ms a1_def)
  have k: "kern (brd a1) = kern (brd a)" by (simp add: a1_def)
  have e: "echo_outcome a a1"
  proof (cases "byte = -1")
    case True
    then obtain ts where "trace m1 = ts @ trace (mach (brd a))" using c by auto
    moreover have "nothing_echoed a a1" "\<not> rx_valid_q ?u" using True c by (auto simp: a1_def nothing_echoed_def)
    ultimately show ?thesis using True by (auto simp: echo_outcome_def a1_def Let_def)
  next
    case False
    then obtain ts where "trace m2 = ts @ trace (mach (brd a))"
      "rx_valid_q ?u \<or> of_int byte \<in> set (delivered ts)" using c by auto
    moreover have "echoed (of_int byte) a a1" "0 \<le> byte" "of_int byte = rx_data_q ?u \<or> \<not> rx_valid_q ?u"
      using False c w by (auto simp: a1_def echoed_def)
    ultimately show ?thesis by (auto simp: echo_outcome_def a1_def Let_def)
  qed
  have stays: "echo_outcome a (a1\<lparr>brd := (brd a1)\<lparr>kern := s\<rparr>\<rparr>) = echo_outcome a a1" for s
    by (simp add: echo_outcome_def echoed_def nothing_echoed_def)
  note d = vTaskDelay_run [OF assms(1-4), of 1]
  show ?thesis
  proof (cases "healthy (kern (brd a))")
    case True
    then obtain s where s: "vTaskDelay 1 (kern (brd a)) = Inr s" "settled E (kern (brd a)) s"
      "next_up s (pxCurrentTCB s)" "abs_state s = delay_spec 1 (kern (brd a))" using d by auto
    have "echo_task_round a = Inr (a1\<lparr>brd := (brd a1)\<lparr>kern := s\<rparr>\<rparr>)"
      by (simp add: run k on_brd_def on_kern_def s(1))
    then show ?thesis
      using True e s(2-4)
      by (simp only: if_True) (intro exI [of _ "a1\<lparr>brd := (brd a1)\<lparr>kern := s\<rparr>\<rparr>"],
        simp add: stays settled_def delay_spec_def)
  next
    case False
    then have "echo_task_round a = Inl (KernelStop StackOverflow (brd a1))"
      using d by (simp add: run k on_brd_def on_kern_def)
    then show ?thesis using False e by auto
  qed
qed

theorem echo_round_echoes_witness:
  "\<exists>a'. echo_task_round app_with_byte = Inr a' \<and> echoed 0x41 app_with_byte a' \<and>
     abs_state (kern (brd a')) 0x2000 = Blocked 1"
proof -
  have c: "home demo (StateItem (pxCurrentTCB demo)) = Some (ReadyList 2)" "pxCurrentTCB demo \<noteq> xIdleTaskHandle demo"
    "pxCurrentTCB demo = 0x2000"
    using demo_home demo_facts by simp_all
  have b: "kern (brd app_with_byte) = rested demo" "rx_valid_q (uart_dev (soc (mach (brd app_with_byte))))"
    "rx_data_q (uart_dev (soc (mach (brd app_with_byte)))) = 0x41"
    by (simp_all add: app_with_byte_def)
  show ?thesis
    using echo_round_echoes [of "{}" app_with_byte 2] rested_ok [OF demo_facts(1)] demo_facts(2) c rested_healthy(2) [of demo]
    by (auto simp: b echo_outcome_def Let_def)
qed

end
