(* ===== verification/Demo_System.thy ===== *)
theory Demo_System
  imports Demo_Claims Port_Claims
begin

text \<open>
  The demonstration program as it runs: the three tasks of \<^verbatim>\<open>sw/freertos/demo.c\<close> with the idle task, the
  kernel and the devices, with timer interrupts between any two accesses to memory that others
  can see. A task is a sequence of steps that make one such access each; where a task stands is part
  of the state, so that an interrupt can take the processor away and a later switch give it back.
\<close>

section \<open>Where a task stands\<close>

datatype blink_pc = BToggle | BCount | BDelay

datatype echo_pc = EReady nat | EStatus | EData | EPut u8 | EStore u8 | ECount | EDelay

datatype check_pc = CTest nat | CLoad nat | CStore nat u32 | CFinish | CDelay | CDone

definition blink_step :: "blink_pc \<Rightarrow> app \<Rightarrow> stop + (blink_pc \<times> app)" where
  "blink_step p a =
     (case p of
        BToggle \<Rightarrow> bindE (on_brd (on_mach (rv32_soc_gpio_toggle BLINK_MASK)) a) (\<lambda>a. Inr (BCount, a))
      | BCount \<Rightarrow> Inr (BDelay, a\<lparr>blink_count := blink_count a + 1\<rparr>)
      | BDelay \<Rightarrow> Inr (BDelay, a))"

text \<open>The two loads of \<open>rv32_soc_uart_try_getc\<close> are two steps.\<close>

definition READY :: string where "READY = ''READY\<newline>''"

definition echo_step :: "echo_pc \<Rightarrow> app \<Rightarrow> stop + (echo_pc \<times> app)" where
  "echo_step p a =
     (case p of
        EReady k \<Rightarrow>
          if k < length READY
          then bindE (on_brd (on_mach (rv32_soc_uart_putc (of_char (READY ! k)))) a) (\<lambda>a. Inr (EReady (k + 1), a))
          else Inr (EStatus, a)
      | EStatus \<Rightarrow> bindE (ask_brd (ask_mach rv32_soc_uart_status) a) (\<lambda>(status, a).
          Inr (if status AND RV32_SOC_UART_STATUS_RX_VALID = 0 then EDelay else EData, a))
      | EData \<Rightarrow> bindE (ask_brd (ask_mach (rv32_soc_mmio_read32 RV32_SOC_UART_RXDATA)) a) (\<lambda>(data, a).
          Inr (if data AND RV32_SOC_UART_RX_EMPTY \<noteq> 0 then EDelay else EPut (ucast data), a))
      | EPut byte \<Rightarrow> bindE (on_brd (on_mach (rv32_soc_uart_putc byte)) a) (\<lambda>a. Inr (EStore byte, a))
      | EStore byte \<Rightarrow> Inr (ECount, a\<lparr>echoed_byte := ucast byte\<rparr>)
      | ECount \<Rightarrow> Inr (EDelay, a\<lparr>echo_count := echo_count a + 1\<rparr>)
      | EDelay \<Rightarrow> Inr (EDelay, a))"

text \<open>The four conditions of the check task are tested one after the other; then each field of the report is
  loaded from its source and stored.\<close>

definition progressed :: "nat \<Rightarrow> app \<Rightarrow> bool" where
  "progressed k a =
     [blink_count a \<ge> 3, echo_count a \<ge> 1, freertos_tick_hook_count (kern (brd a)) \<ge> 4,
      freertos_context_switch_count (kern (brd a)) \<ge> 8] ! k"

definition pass_fields :: "freertos_demo_report_t list" where
  "pass_fields =
     [R_magic, R_kernel_version, R_tick_count, R_tick_hook_count, R_context_switch_count, R_blink_count, R_echo_count,
      R_echoed_byte, R_gpio_output, R_mstatus, R_mie, R_failure_code]"

definition load_field :: "freertos_demo_report_t \<Rightarrow> app \<Rightarrow> stop + (u32 \<times> app)" where
  "load_field f a =
     (case f of
        R_magic \<Rightarrow> Inr (FREERTOS_DEMO_REPORT_MAGIC, a)
      | R_kernel_version \<Rightarrow> Inr (FREERTOS_DEMO_KERNEL, a)
      | R_tick_count \<Rightarrow> Inr (xTaskGetTickCount (kern (brd a)), a)
      | R_tick_hook_count \<Rightarrow> Inr (freertos_tick_hook_count (kern (brd a)), a)
      | R_context_switch_count \<Rightarrow> Inr (freertos_context_switch_count (kern (brd a)), a)
      | R_blink_count \<Rightarrow> Inr (blink_count a, a)
      | R_echo_count \<Rightarrow> Inr (echo_count a, a)
      | R_echoed_byte \<Rightarrow> Inr (echoed_byte a, a)
      | R_gpio_output \<Rightarrow> ask_brd (ask_mach (rv32_soc_mmio_read32 RV32_SOC_GPIO_OUTPUT)) a
      | R_mstatus \<Rightarrow> Inr (demo_csr_read_mstatus a, a)
      | R_mie \<Rightarrow> Inr (demo_csr_read_mie a, a)
      | _ \<Rightarrow> Inr (0, a))"

definition check_step :: "check_pc \<Rightarrow> app \<Rightarrow> stop + (check_pc \<times> app)" where
  "check_step p a =
     (case p of
        CTest k \<Rightarrow> Inr (if progressed k a then (if k < 3 then CTest (k + 1) else CLoad 0) else CDelay, a)
      | CLoad i \<Rightarrow> bindE (load_field (pass_fields ! i) a) (\<lambda>(v, a). Inr (CStore i v, a))
      | CStore i v \<Rightarrow> bindE (on_brd (put_report (pass_fields ! i) v) a) (\<lambda>a.
          Inr (if i + 1 < length pass_fields then CLoad (i + 1) else CFinish, a))
      | CFinish \<Rightarrow> bindE (on_brd (on_mach (rv32_soc_finish RV32_SOC_PASS_STATUS)) a) (\<lambda>a. Inr (CDone, a))
      | CDelay \<Rightarrow> Inr (CDelay, a)
      | CDone \<Rightarrow> Inr (CDone, a))"

section \<open>The system\<close>

record demo_state =
  app :: app
  kpc :: "u32 \<Rightarrow> pc"
  blink_at :: blink_pc
  echo_at :: echo_pc
  check_at :: check_pc

abbreviation cur :: "demo_state \<Rightarrow> u32" where "cur x \<equiv> pxCurrentTCB (kern (brd (app x)))"
abbreviation ksys :: "demo_state \<Rightarrow> system" where "ksys x \<equiv> (kern (brd (app x)), kpc x)"

definition with_ksys :: "system \<Rightarrow> demo_state \<Rightarrow> demo_state" where
  "with_ksys k x = x\<lparr>app := (app x)\<lparr>brd := (brd (app x))\<lparr>kern := fst k\<rparr>\<rparr>, kpc := snd k\<rparr>"

text \<open>
  The running task takes a step of its own, enters \<open>vTaskDelay\<close> and goes back to the head of its loop, or takes
  a step of the kernel call it is in; the idle task takes a round; or the timer interrupts.
  After \<open>CDone\<close> the check task spins in \<open>rv32_soc_finish\<close>.
\<close>

inductive task_step :: "app_layout \<Rightarrow> demo_state \<Rightarrow> demo_state \<Rightarrow> bool" for L where
  d_blink: "cur x = blink_task_tcb L \<Longrightarrow> kpc x (cur x) = User \<Longrightarrow> blink_at x \<noteq> BDelay \<Longrightarrow>
    blink_step (blink_at x) (app x) = Inr (p, a) \<Longrightarrow> task_step L x (x\<lparr>app := a, blink_at := p\<rparr>)"
| d_echo: "cur x = echo_task_tcb L \<Longrightarrow> kpc x (cur x) = User \<Longrightarrow> echo_at x \<noteq> EDelay \<Longrightarrow>
    echo_step (echo_at x) (app x) = Inr (q, a) \<Longrightarrow> task_step L x (x\<lparr>app := a, echo_at := q\<rparr>)"
| d_check: "cur x = check_task_tcb L \<Longrightarrow> kpc x (cur x) = User \<Longrightarrow> check_at x \<noteq> CDelay \<Longrightarrow>
    check_step (check_at x) (app x) = Inr (r, a) \<Longrightarrow> task_step L x (x\<lparr>app := a, check_at := r\<rparr>)"
| d_blink_delay: "cur x = blink_task_tcb L \<Longrightarrow> blink_at x = BDelay \<Longrightarrow>
    step (ksys x) (Call (pdMS_TO_TICKS FREERTOS_BLINK_PERIOD_MS)) k \<Longrightarrow> task_step L x (with_ksys k (x\<lparr>blink_at := BToggle\<rparr>))"
| d_echo_delay: "cur x = echo_task_tcb L \<Longrightarrow> echo_at x = EDelay \<Longrightarrow>
    step (ksys x) (Call (pdMS_TO_TICKS 1)) k \<Longrightarrow> task_step L x (with_ksys k (x\<lparr>echo_at := EStatus\<rparr>))"
| d_check_delay: "cur x = check_task_tcb L \<Longrightarrow> check_at x = CDelay \<Longrightarrow>
    step (ksys x) (Call (pdMS_TO_TICKS 1)) k \<Longrightarrow> task_step L x (with_ksys k (x\<lparr>check_at := CTest 0\<rparr>))"
| d_block: "step (ksys x) Block k \<Longrightarrow> task_step L x (with_ksys k x)"
| d_resume: "step (ksys x) Resume k \<Longrightarrow> task_step L x (with_ksys k x)"
| d_yield: "kpc x (cur x) = Yielding \<Longrightarrow> step (ksys x) Yield k \<Longrightarrow> task_step L x (with_ksys k x)"
| d_idle: "cur x = idle_tcb (idle_memory L) \<Longrightarrow> kpc x (cur x) = User \<Longrightarrow>
    prvIdleTask_round (kern (brd (app x))) = Inr s \<Longrightarrow> task_step L x (with_ksys (s, kpc x) x)"

inductive timer_step :: "demo_state \<Rightarrow> demo_state \<Rightarrow> bool" where
  d_tick: "freertos_risc_v_trap_handler 0x80000007 epc (brd (app x)) = Inr b \<Longrightarrow>
    timer_step x (x\<lparr>app := (app x)\<lparr>brd := b\<rparr>\<rparr>)"

text \<open>The state that \<open>main\<close> leaves, the check task about to run for the first time.\<close>

definition demo_start :: "app \<Rightarrow> demo_state" where
  "demo_start a = \<lparr>app = a, kpc = (\<lambda>_. User), blink_at = BToggle, echo_at = EReady 0, check_at = CTest 0\<rparr>"

inductive demo_reach :: "app_layout \<Rightarrow> demo_state \<Rightarrow> demo_state \<Rightarrow> bool" for L where
  demo_here: "demo_reach L x x"
| demo_next: "demo_reach L x y \<Longrightarrow> task_step L y z \<or> timer_step y z \<Longrightarrow> demo_reach L x z"

section \<open>The steps make up the rounds of the tasks\<close>

text \<open>Undisturbed, the steps of a task from the head of its loop are the round of the task up to its delay.\<close>

primrec steps :: "('p \<Rightarrow> app \<Rightarrow> stop + ('p \<times> app)) \<Rightarrow> nat \<Rightarrow> 'p \<Rightarrow> app \<Rightarrow> stop + ('p \<times> app)" where
  "steps f 0 p a = Inr (p, a)"
| "steps f (Suc n) p a = bindE (f p a) (\<lambda>(p, a). steps f n p a)"

declare steps.simps(2) [simp del]

lemma on_mach_bindE:
  "on_brd (on_mach (\<lambda>m. bindE (f m) g)) a = bindE (on_brd (on_mach f) a) (on_brd (on_mach g))"
  by (auto simp: on_brd_def on_mach_def split: sum.splits)

lemma ask_mach_bindE:
  "ask_brd (ask_mach (\<lambda>m. bindE (f m) (\<lambda>(x, m). g x m))) a =
     bindE (ask_brd (ask_mach f) a) (\<lambda>(x, a). ask_brd (ask_mach (g x)) a)"
  by (auto simp: ask_brd_def ask_mach_def split: sum.splits)

lemma ask_mach_Inr: "ask_brd (ask_mach (\<lambda>m. Inr (x, m))) a = Inr (x, a)"
  by (simp add: ask_brd_def ask_mach_def)

lemma on_mach_Inr: "on_brd (on_mach Inr) a = Inr a"
  by (simp add: on_brd_def on_mach_def)

lemma blink_round_steps:
  "blink_task_round a = bindE (steps blink_step 2 BToggle a) (\<lambda>(_, a).
     on_brd (on_kern (vTaskDelay (pdMS_TO_TICKS FREERTOS_BLINK_PERIOD_MS))) a)"
  by (simp add: blink_task_round_def blink_step_def steps.simps(2) numeral_2_eq_2 bindE_assoc Let_def)

lemma echo_start_steps:
  "bindE (echo_task_start a) (\<lambda>a. Inr (EStatus, a)) = steps echo_step 7 (EReady 0) a"
proof -
  have w: "uart_write_text (c # cs) = (\<lambda>m. bindE (rv32_soc_uart_putc (of_char c) m) (uart_write_text cs))"
    "uart_write_text [] = Inr" for c cs by (simp_all add: fun_eq_iff)
  show ?thesis
    unfolding echo_task_start_def w on_mach_bindE on_mach_Inr
    by (simp add: eval_nat_numeral steps.simps(2) echo_step_def READY_def bindE_assoc)
qed

lemma byte_of_int:
  fixes v :: u32
  shows "(scast (v AND 0xff) :: u8) = ucast v" "ucast (ucast v :: u8) = v AND 0xff" "0 \<le> sint (v AND 0xff)"
proof -
  have e: "v AND 0xff = ucast (ucast v :: u8)"
  proof -
    have "v AND mask 8 = ucast (ucast v :: u8)" by (rule bit_word_eqI) (auto simp: bit_simps dest: bit_imp_le_length)
    then show ?thesis by (simp add: mask_eq_exp_minus_1)
  qed
  show "ucast (ucast v :: u8) = v AND 0xff" by (simp only: e)
  show "0 \<le> sint (v AND 0xff)" unfolding e sint_byte by simp
  have "(of_int (sint (v AND 0xff)) :: u8) = ucast v" unfolding e sint_byte by simp
  then show "(scast (v AND 0xff) :: u8) = ucast v" by simp
qed

lemma echo_steps_at:
  "steps echo_step (Suc n) EStatus a = bindE (ask_brd (ask_mach rv32_soc_uart_status) a) (\<lambda>(status, a).
     steps echo_step n (if status AND RV32_SOC_UART_STATUS_RX_VALID = 0 then EDelay else EData) a)"
  "steps echo_step (Suc n) EData a = bindE (ask_brd (ask_mach (rv32_soc_mmio_read32 RV32_SOC_UART_RXDATA)) a) (\<lambda>(data, a).
     steps echo_step n (if data AND RV32_SOC_UART_RX_EMPTY \<noteq> 0 then EDelay else EPut (ucast data)) a)"
  "steps echo_step (Suc n) (EPut byte) a = bindE (on_brd (on_mach (rv32_soc_uart_putc byte)) a) (steps echo_step n (EStore byte))"
  "steps echo_step (Suc n) (EStore byte) a = steps echo_step n ECount (a\<lparr>echoed_byte := ucast byte\<rparr>)"
  "steps echo_step (Suc n) ECount a = steps echo_step n EDelay (a\<lparr>echo_count := echo_count a + 1\<rparr>)"
  by (simp_all add: echo_step_def steps.simps(2) bindE_assoc split_def)

lemma echo_steps_delay: "steps echo_step n EDelay a = Inr (EDelay, a)"
  by (induction n) (simp_all add: echo_step_def steps.simps(2))

lemma echo_round_steps:
  "echo_task_round a = bindE (steps echo_step 5 EStatus a) (\<lambda>(_, a). on_brd (on_kern (vTaskDelay (pdMS_TO_TICKS 1))) a)"
proof -
  have g: "rv32_soc_uart_try_getc = (\<lambda>m. bindE (rv32_soc_uart_status m) (\<lambda>(status, m).
      if status AND RV32_SOC_UART_STATUS_RX_VALID = 0 then Inr (-1, m)
      else bindE (rv32_soc_mmio_read32 RV32_SOC_UART_RXDATA m) (\<lambda>(v, m).
        if v AND RV32_SOC_UART_RX_EMPTY \<noteq> 0 then Inr (-1, m) else Inr (sint (v AND 0xff), m))))"
    by (simp add: rv32_soc_uart_try_getc_def fun_eq_iff)
  note n = eval_nat_numeral echo_steps_at echo_steps_delay
  show ?thesis
  proof (cases "ask_brd (ask_mach rv32_soc_uart_status) a")
    case (Inl e)
    then show ?thesis unfolding echo_task_round_def g ask_mach_bindE by (simp add: n)
  next
    case (Inr r)
    obtain status a1 where r: "r = (status, a1)" by (cases r)
    show ?thesis
    proof (cases "status AND RV32_SOC_UART_STATUS_RX_VALID = 0")
      case True
      then show ?thesis unfolding echo_task_round_def g ask_mach_bindE using Inr r by (simp add: n ask_mach_Inr)
    next
      case valid: False
      show ?thesis
      proof (cases "ask_brd (ask_mach (rv32_soc_mmio_read32 RV32_SOC_UART_RXDATA)) a1")
        case Inl
        then show ?thesis
          unfolding echo_task_round_def g ask_mach_bindE using \<open>_ = Inr r\<close> r valid by (simp add: n ask_mach_bindE)
      next
        case (Inr d)
        then show ?thesis
          unfolding echo_task_round_def g ask_mach_bindE using \<open>_ a = Inr r\<close> r valid
          by (cases d) (auto simp: n ask_mach_bindE ask_mach_Inr byte_of_int bindE_assoc)
      qed
    qed
  qed
qed

lemma check_steps_at:
  "steps check_step (Suc n) (CTest k) a =
     steps check_step n (if progressed k a then (if k < 3 then CTest (k + 1) else CLoad 0) else CDelay) a"
  "steps check_step (Suc n) (CLoad i) a = bindE (load_field (pass_fields ! i) a) (\<lambda>(v, a). steps check_step n (CStore i v) a)"
  "steps check_step (Suc n) (CStore i v) a = bindE (on_brd (put_report (pass_fields ! i) v) a)
     (steps check_step n (if i + 1 < length pass_fields then CLoad (i + 1) else CFinish))"
  "steps check_step (Suc n) CFinish a = bindE (on_brd (on_mach (rv32_soc_finish RV32_SOC_PASS_STATUS)) a) (steps check_step n CDone)"
  by (simp_all add: check_step_def steps.simps(2) bindE_assoc split_def)

lemma check_steps_delay: "steps check_step n CDelay a = Inr (CDelay, a)"
  by (induction n) (simp_all add: check_step_def steps.simps(2))

lemma finish_step:
  "bindE (on_brd (on_mach (rv32_soc_finish v)) a) (\<lambda>a. Inl (Finished (mach (brd a)))) = Inl (finish v (brd a))"
  by (simp add: on_brd_def on_mach_def finish_def split: sum.split)

lemma check_round_steps:
  "check_task_round a = bindE (steps check_step 29 (CTest 0) a) (\<lambda>(p, a).
     if p = CDelay then on_brd (on_kern (vTaskDelay (pdMS_TO_TICKS 1))) a else Inl (Finished (mach (brd a))))"
proof (cases "all_progressed a")
  case True
  then have p: "progressed 0 a" "progressed (Suc 0) a" "progressed (Suc (Suc 0)) a" "progressed (Suc (Suc (Suc 0))) a"
    by (simp_all add: all_progressed_def progressed_def)
  show ?thesis
    unfolding check_task_round_def if_P [OF True]
    by (simp add: eval_nat_numeral check_steps_at p pass_fields_def load_field_def bindE_assoc finish_step split_def)
next
  case False
  then have "\<not> progressed 0 a \<or> \<not> progressed (Suc 0) a \<or> \<not> progressed (Suc (Suc 0)) a \<or> \<not> progressed (Suc (Suc (Suc 0))) a"
    by (simp add: all_progressed_def progressed_def)
  then show ?thesis
    by (auto simp: check_task_round_def False eval_nat_numeral check_steps_at check_steps_delay)
qed

end
