(* ===== verification/Demo_Inv.thy ===== *)
theory Demo_Inv
  imports Demo_System
begin

text \<open>
  The invariant of the running demonstration program, and that every step keeps it.
\<close>

section \<open>The tasks of the kernel\<close>

lemma tick_Absent: "tick_spec pr A t = Absent \<longleftrightarrow> A t = Absent"
  by (simp add: tick_spec_def split: task_state.splits)

lemma next_up_present: "next_up s t \<Longrightarrow> abs_state s t \<noteq> Absent"
  by (simp add: next_up_def abs_state_def)

text \<open>No step makes a new task, and the processor is given only to tasks of the scheduler.\<close>

lemma step_tasks:
  assumes "sys_ok E (s, pc)" "step (s, pc) a (s', pc')"
  shows "(\<forall>t. abs_state s' t \<noteq> Absent \<longrightarrow> abs_state s t \<noteq> Absent \<or> t = pxCurrentTCB s) \<and>
    (pxCurrentTCB s' = pxCurrentTCB s \<or> abs_state s' (pxCurrentTCB s') \<noteq> Absent)"
proof (cases a)
  case (Call n)
  then have "s' = vTaskSuspendAll s" using assms(2) by (auto elim: step_callE)
  then have "abs_state s' = abs_state s" "pxCurrentTCB s' = pxCurrentTCB s"
    by (intro abs_state_same, simp_all add: vTaskSuspendAll_def)
  then show ?thesis by simp
next
  case Block
  then obtain n where b: "pc (pxCurrentTCB s) = Delaying n" "prvAddCurrentTaskToDelayedList n False s = Inr s'"
    using assms(2) by (auto elim: step_blockE)
  then have i: "kernel_core E s" "n \<noteq> 0" "home s (StateItem (pxCurrentTCB s)) = Some (ReadyList (prio s (pxCurrentTCB s)))"
    using assms(1) by (simp_all add: sys_ok_def kernel_ok_def)
  from block_current [OF i, of False] b(2)
  have e: "s' = s\<lparr>heap := heap s', xNextTaskUnblockTime := xNextTaskUnblockTime s'\<rparr>"
    "home s' = (home s)(StateItem (pxCurrentTCB s) := delay_list n s)" by simp_all
  have "pxCurrentTCB s' = pxCurrentTCB s" using arg_cong [OF e(1), of pxCurrentTCB] by simp
  then show ?thesis by (auto simp: abs_state_def e(2) split: option.splits list_id.splits)
next
  case Resume
  then obtain y where r: "pc (pxCurrentTCB s) = Resuming" "xTaskResumeAll s = Inr (y, s')"
    using assms(2) by (auto elim: step_resumeE)
  then have i: "kernel_ok E s" "uxSchedulerSuspended s = 1" "pending_ok s" using assms(1) by (simp_all add: sys_ok_def)
  from xTaskResumeAll_run [OF i(1,2)] r(2) have "abs_state s' = resume_spec s"
    "if y then next_up s' (pxCurrentTCB s') else pxCurrentTCB s' = pxCurrentTCB s"
    by (auto simp: resumed_def split: if_splits)
  moreover have "resume_spec s = virtual s" using i(3) by (simp add: resume_spec_def virtual_def pending_def pending_ok_def)
  moreover have "abs_state s t = Absent \<Longrightarrow> virtual s t = Absent" for t by (simp add: virtual_def tick_pow_Absent)
  ultimately show ?thesis using next_up_present [of s'] by (metis (full_types))
next
  case Yield
  then have y: "pc (pxCurrentTCB s) \<in> {User, Yielding}" "portYIELD s = Inr s'" using assms(2) by (auto elim: step_yieldE)
  then have "kernel_ok E s" "uxSchedulerSuspended s = 0" using assms(1) by (auto simp: sys_ok_def)
  from portYIELD_done [OF this y(2)] have "next_up s' (pxCurrentTCB s')" "abs_state s' = abs_state s" by auto
  then show ?thesis using next_up_present [of s' "pxCurrentTCB s'"] by simp
next
  case Tick
  then have t: "freertos_risc_v_mtimer_interrupt_handler s = Inr s'" using assms(2) by (auto elim: step_tickE)
  have k: "kernel_ok E s" using assms(1) by (simp add: sys_ok_def)
  show ?thesis
  proof (cases "uxSchedulerSuspended s = 0")
    case True
    from tick_unsuspended [OF k True] t show ?thesis using next_up_present [of s'] tick_Absent by auto
  next
    case False
    have "s' = counted s" using tick_suspended(1) [OF k False] t by simp
    then show ?thesis using tick_suspended(3) [OF k False] by (simp add: vApplicationTickHook_def)
  qed
qed

section \<open>What was sent and received\<close>

text \<open>The bytes stored in the transmitter, and the bytes popped from the receiver, both oldest first.\<close>

definition sent :: "machine \<Rightarrow> u8 list" where
  "sent m = List.map_filter (\<lambda>q. if req_write q \<and> req_addr q = UART_TXDATA_ADDR then Some (ucast (req_wdata q)) else None) (bus_log m)"

definition received :: "machine \<Rightarrow> u8 list" where
  "received m = rev (List.map_filter (\<lambda>(r, s). if r = Some (read_request UART_RXDATA_ADDR) \<and> rx_valid_q (uart_dev s)
     then Some (rx_data_q (uart_dev s)) else None) (trace m))"

definition toggles :: "machine \<Rightarrow> nat" where
  "toggles m = length (filter (\<lambda>q. req_write q \<and> req_addr q = GPIO_OUTPUT_TOGGLE_ADDR) (bus_log m))"

lemma passes_seen:
  assumes "passes q m m'"
  shows "sent m' = sent m @ (if req_write q \<and> req_addr q = UART_TXDATA_ADDR then [ucast (req_wdata q)] else [])"
    "toggles m' = toggles m + (if req_write q \<and> req_addr q = GPIO_OUTPUT_TOGGLE_ADDR then 1 else 0)"
  using passes_log [OF assms] by (simp_all add: sent_def toggles_def List.map_filter_def)

lemma received_access:
  assumes "trace m' = (Some q, s) # map (\<lambda>s. (None, s)) ss @ trace m"
  shows "received m' = received m @
    (if q = read_request UART_RXDATA_ADDR \<and> rx_valid_q (uart_dev s) then [rx_data_q (uart_dev s)] else [])"
  using assms by (simp add: received_def List.map_filter_def o_def)

lemma passes_received: "passes q m m' \<Longrightarrow> q \<noteq> read_request UART_RXDATA_ADDR \<Longrightarrow> received m' = received m"
  using passes_trace [of q m m'] received_access by fastforce


lemma passes_devs:
  assumes "passes q m m'" "request_target (req_addr q) \<notin> {TARGET_TCM, TARGET_GPIO}"
  shows "devs m' = devs m"
  using passes_tcm [OF assms(1)] passes_gpio [OF assms(1)] assms(2) by (simp add: devs_def)

section \<open>The invariant\<close>

definition demo_tasks :: "app_layout \<Rightarrow> u32 set" where
  "demo_tasks L = {blink_task_tcb L, echo_task_tcb L, check_task_tcb L, idle_tcb (idle_memory L)}"

definition kernel_part :: "nat set \<Rightarrow> app_layout \<Rightarrow> demo_state \<Rightarrow> bool" where
  "kernel_part E L x \<longleftrightarrow> sys_ok E (ksys x) \<and> cur x \<in> demo_tasks L \<and>
     xIdleTaskHandle (kern (brd (app x))) = idle_tcb (idle_memory L) \<and>
     pullMachineTimerCompareRegister (brd (app x)) = MTIMECMP_LO_ADDR \<and>
     (\<forall>t. abs_state (kern (brd (app x))) t \<noteq> Absent \<longrightarrow> t \<in> demo_tasks L)"

text \<open>The bytes the echo task has sent for those it has received, and the byte it still holds.\<close>

definition READY_bytes :: "u8 list" where "READY_bytes = map of_char READY"

fun echo_part_ok :: "echo_pc \<Rightarrow> u32 \<Rightarrow> u8 list \<Rightarrow> u8 list \<Rightarrow> bool" where
  "echo_part_ok (EReady k) n out inp \<longleftrightarrow> k \<le> length READY \<and> n = 0 \<and> out = take k READY_bytes \<and> inp = []"
| "echo_part_ok EStatus n out inp \<longleftrightarrow> out = READY_bytes @ inp \<and> n = of_nat (length inp)"
| "echo_part_ok EData n out inp \<longleftrightarrow> out = READY_bytes @ inp \<and> n = of_nat (length inp)"
| "echo_part_ok (EPut b) n out inp \<longleftrightarrow> (\<exists>es. inp = es @ [b] \<and> out = READY_bytes @ es \<and> n = of_nat (length es))"
| "echo_part_ok (EStore b) n out inp \<longleftrightarrow> (\<exists>es. inp = es @ [b] \<and> out = READY_bytes @ inp \<and> n = of_nat (length es))"
| "echo_part_ok ECount n out inp \<longleftrightarrow> (\<exists>es b. inp = es @ [b] \<and> out = READY_bytes @ inp \<and> n = of_nat (length es))"
| "echo_part_ok EDelay n out inp \<longleftrightarrow> out = READY_bytes @ inp \<and> n = of_nat (length inp)"

definition blink_part_ok :: "blink_pc \<Rightarrow> u32 \<Rightarrow> nat \<Rightarrow> bool" where
  "blink_part_ok p n k \<longleftrightarrow> (\<exists>i. n = of_nat i \<and> k = i + (if p = BCount then 1 else 0))"

text \<open>What the check task has seen: blinks, then an echo.\<close>

fun check_part_ok :: "check_pc \<Rightarrow> nat \<Rightarrow> u8 list \<Rightarrow> bool" where
  "check_part_ok (CTest k) n out \<longleftrightarrow> k \<le> 3 \<and> (1 \<le> k \<longrightarrow> 3 \<le> n) \<and> (2 \<le> k \<longrightarrow> length READY < length out)"
| "check_part_ok (CLoad i) n out \<longleftrightarrow> i < length pass_fields \<and> 3 \<le> n \<and> length READY < length out"
| "check_part_ok (CStore i v) n out \<longleftrightarrow> i < length pass_fields \<and> 3 \<le> n \<and> length READY < length out"
| "check_part_ok CFinish n out \<longleftrightarrow> 3 \<le> n \<and> length READY < length out"
| "check_part_ok CDone n out \<longleftrightarrow> 3 \<le> n \<and> length READY < length out"
| "check_part_ok CDelay n out \<longleftrightarrow> True"

text \<open>
  The machine \<open>m0\<close> is the one in which the scheduler started: what was sent, received and toggled since then
  is what is not in its trace.
\<close>

definition data_part :: "machine \<Rightarrow> machine \<Rightarrow> u32 \<Rightarrow> u32 \<Rightarrow> blink_pc \<Rightarrow> echo_pc \<Rightarrow> check_pc \<Rightarrow>
    u8 list \<Rightarrow> u8 list \<Rightarrow> nat \<Rightarrow> bool" where
  "data_part m0 m bc ec p q r out inp n \<longleftrightarrow>
     sent m = sent m0 @ out \<and> received m = received m0 @ inp \<and> toggles m = toggles m0 + n \<and>
     echo_part_ok q ec out inp \<and> blink_part_ok p bc n \<and> check_part_ok r n out \<and>
     output_q (gpio_dev (soc m)) = (if odd n then 1 else 0) \<and>
     load32 (tcm (soc m)) RV32_SOC_TOHOST_ADDR =
       (if r = CDone then RV32_SOC_PASS_STATUS else load32 (tcm (soc m0)) RV32_SOC_TOHOST_ADDR)"

definition demo_inv :: "nat set \<Rightarrow> app_layout \<Rightarrow> machine \<Rightarrow> demo_state \<Rightarrow> bool" where
  "demo_inv E L m0 x \<longleftrightarrow> kernel_part E L x \<and>
     (\<exists>out inp n. data_part m0 (mach (brd (app x))) (blink_count (app x)) (echo_count (app x))
        (blink_at x) (echo_at x) (check_at x) out inp n)"

text \<open>Each part goes on to hold when only the other tasks have moved.\<close>

lemma check_part_mono:
  "check_part_ok r n out \<Longrightarrow> n \<le> n' \<Longrightarrow> length out \<le> length out' \<Longrightarrow> check_part_ok r n' out'"
  by (cases r) auto

definition same_seen :: "machine \<Rightarrow> machine \<Rightarrow> bool" where
  "same_seen m m' \<longleftrightarrow> sent m' = sent m \<and> received m' = received m \<and> toggles m' = toggles m \<and>
     output_q (gpio_dev (soc m')) = output_q (gpio_dev (soc m)) \<and>
     load32 (tcm (soc m')) RV32_SOC_TOHOST_ADDR = load32 (tcm (soc m)) RV32_SOC_TOHOST_ADDR"

lemma same_seen_refl [simp]: "same_seen m m"
  by (simp add: same_seen_def)

lemma same_seen_trans: "same_seen m m1 \<Longrightarrow> same_seen m1 m2 \<Longrightarrow> same_seen m m2"
  by (simp add: same_seen_def)

text \<open>Only the kernel has moved, and no task is at another place that matters.\<close>

lemma demo_inv_kernel:
  assumes "demo_inv E L m0 x" "kernel_part E L x'" "same_seen (mach (brd (app x))) (mach (brd (app x')))"
    "blink_count (app x') = blink_count (app x)" "echo_count (app x') = echo_count (app x)"
    "blink_at x' = blink_at x \<or> blink_at x = BDelay \<and> blink_at x' = BToggle"
    "echo_at x' = echo_at x \<or> echo_at x = EDelay \<and> echo_at x' = EStatus"
    "check_at x' = check_at x \<or> check_at x = CDelay \<and> check_at x' = CTest 0"
  shows "demo_inv E L m0 x'"
  using assms unfolding demo_inv_def data_part_def same_seen_def by (elim disjE) (auto simp: blink_part_ok_def)

section \<open>Kernel steps\<close>

lemma with_ksys_sel [simp]:
  "ksys (with_ksys k x) = k" "cur (with_ksys k x) = pxCurrentTCB (fst k)" "kern (brd (app (with_ksys k x))) = fst k"
  "mach (brd (app (with_ksys k x))) = mach (brd (app x))"
  "pullMachineTimerCompareRegister (brd (app (with_ksys k x))) = pullMachineTimerCompareRegister (brd (app x))"
  "blink_count (app (with_ksys k x)) = blink_count (app x)" "echo_count (app (with_ksys k x)) = echo_count (app x)"
  "kpc (with_ksys k x) = snd k" "blink_at (with_ksys k x) = blink_at x" "echo_at (with_ksys k x) = echo_at x" "check_at (with_ksys k x) = check_at x"
  by (simp_all add: with_ksys_def)

lemma kernel_step:
  assumes k: "kernel_part E L x" and st: "step (ksys x) a k"
  shows "kernel_part E L (with_ksys k x)"
proof -
  obtain s' pc' where k': "k = (s', pc')" by (cases k)
  have i: "sys_ok E (ksys x)" "cur x \<in> demo_tasks L" "xIdleTaskHandle (kern (brd (app x))) = idle_tcb (idle_memory L)"
    "pullMachineTimerCompareRegister (brd (app x)) = MTIMECMP_LO_ADDR"
    "\<forall>t. abs_state (kern (brd (app x))) t \<noteq> Absent \<longrightarrow> t \<in> demo_tasks L"
    using k by (simp_all add: kernel_part_def)
  note n = step_ok [OF i(1) st [unfolded k']] step_tasks [OF i(1) st [unfolded k']]
  have "t \<in> demo_tasks L" if "abs_state s' t \<noteq> Absent" for t using n(2) i(2,5) that by blast
  moreover from this have "pxCurrentTCB s' \<in> demo_tasks L" using n(2) i(2) by auto
  ultimately show ?thesis using n(1) i(3,4) by (simp add: kernel_part_def k')
qed


section \<open>The accesses of the tasks\<close>

lemma tohost_devs: "devs m' = devs m \<Longrightarrow> load32 (tcm (soc m')) a = load32 (tcm (soc m)) a \<and>
    output_q (gpio_dev (soc m')) = output_q (gpio_dev (soc m))"
  by (simp add: devs_def)

lemma toggle_access:
  "\<exists>m'. rv32_soc_gpio_toggle BLINK_MASK m = Inr m' \<and> sent m' = sent m \<and> received m' = received m \<and>
    toggles m' = Suc (toggles m) \<and> output_q (gpio_dev (soc m')) = output_q (gpio_dev (soc m)) XOR 1 \<and>
    load32 (tcm (soc m')) RV32_SOC_TOHOST_ADDR = load32 (tcm (soc m)) RV32_SOC_TOHOST_ADDR"
proof -
  from write_gpio [of GPIO_OUTPUT_TOGGLE_ADDR 1 m] obtain m' where m':
    "rv32_soc_mmio_write32 GPIO_OUTPUT_TOGGLE_ADDR 1 m = Inr m'" "passes (write_request GPIO_OUTPUT_TOGGLE_ADDR 1) m m'"
    "output_q (gpio_dev (soc m')) = output_q (gpio_dev (soc m)) XOR 1"
    by (auto simp: dev_simps)
  have "tcm (soc m') = tcm (soc m)" using passes_tcm [OF m'(2)] by (simp add: dev_simps)
  moreover have "rv32_soc_gpio_toggle BLINK_MASK m = Inr m'"
    using m'(1) by (simp add: rv32_soc_gpio_toggle_def BLINK_MASK_def dev_simps)
  moreover have "received m' = received m"
    by (rule passes_received [OF m'(2)]) (simp add: write_request_def read_request_def)
  ultimately show ?thesis using passes_seen [OF m'(2)] m'(3) by (simp add: dev_simps)
qed

lemma ucast_byte: "(ucast (ucast (b :: u8) :: u32) :: u8) = b"
  by (rule bit_word_eqI) (simp add: bit_simps)

lemma putc_access:
  "\<exists>m'. rv32_soc_uart_putc b m = Inr m' \<and> sent m' = sent m @ [b] \<and> received m' = received m \<and> toggles m' = toggles m \<and>
    output_q (gpio_dev (soc m')) = output_q (gpio_dev (soc m)) \<and>
    load32 (tcm (soc m')) RV32_SOC_TOHOST_ADDR = load32 (tcm (soc m)) RV32_SOC_TOHOST_ADDR"
proof -
  from write_txdata [of "ucast b" m] obtain m' where m': "rv32_soc_mmio_write32 UART_TXDATA_ADDR (ucast b) m = Inr m'"
    "passes (write_request UART_TXDATA_ADDR (ucast b)) m m'" by blast
  have "rv32_soc_uart_putc b m = Inr m'" using m'(1) by (simp add: rv32_soc_uart_putc_def dev_simps)
  moreover have "received m' = received m"
    by (rule passes_received [OF m'(2)]) (simp add: write_request_def read_request_def)
  moreover have "devs m' = devs m" by (rule passes_devs [OF m'(2)]) (simp add: dev_simps)
  ultimately show ?thesis
    using passes_seen [OF m'(2)] tohost_devs [of m' m] by (simp add: dev_simps ucast_byte)
qed

lemma passes_same_seen:
  assumes "passes q m m'" "request_target (req_addr q) \<notin> {TARGET_TCM, TARGET_GPIO}" "q \<noteq> read_request UART_RXDATA_ADDR"
    "\<not> req_write q \<or> req_addr q \<noteq> UART_TXDATA_ADDR \<and> req_addr q \<noteq> GPIO_OUTPUT_TOGGLE_ADDR"
  shows "same_seen m m'"
  using passes_seen [OF assms(1)] passes_received [OF assms(1,3)] tohost_devs [OF passes_devs [OF assms(1,2)]] assms(4)
  by (auto simp: same_seen_def)

lemma status_access: "\<exists>v m'. rv32_soc_uart_status m = Inr (v, m') \<and> same_seen m m'"
proof -
  from read_uart [of UART_STATUS_ADDR m] obtain v m' where m': "rv32_soc_mmio_read32 UART_STATUS_ADDR m = Inr (v, m')"
    "passes (read_request UART_STATUS_ADDR) m m'" by blast
  have "same_seen m m'"
    by (rule passes_same_seen [OF m'(2)]) (simp_all add: dev_simps read_request_def)
  then show ?thesis using m'(1) by (simp add: rv32_soc_uart_status_def dev_simps)
qed

lemma rxdata_access:
  "\<exists>v m'. rv32_soc_mmio_read32 RV32_SOC_UART_RXDATA m = Inr (v, m') \<and> sent m' = sent m \<and> toggles m' = toggles m \<and>
    output_q (gpio_dev (soc m')) = output_q (gpio_dev (soc m)) \<and>
    load32 (tcm (soc m')) RV32_SOC_TOHOST_ADDR = load32 (tcm (soc m)) RV32_SOC_TOHOST_ADDR \<and>
    received m' = received m @ (if v AND RV32_SOC_UART_RX_EMPTY = 0 then [ucast v] else [])"
proof -
  have "UART_RXDATA_ADDR \<in> {UART_STATUS_ADDR, UART_RXDATA_ADDR}" by simp
  from read_uart [OF this, of m] obtain ss and m1 m' :: machine where m':
    "rv32_soc_mmio_read32 UART_RXDATA_ADDR m = Inr (uart_read (clks_per_bit (soc m)) UART_RXDATA_ADDR (uart_dev (soc m1)), m')"
    "passes (read_request UART_RXDATA_ADDR) m m'"
    "trace m' = (Some (read_request UART_RXDATA_ADDR), soc m1) # map (\<lambda>s. (None, s)) ss @ trace m" by blast
  let ?v = "uart_read (clks_per_bit (soc m)) UART_RXDATA_ADDR (uart_dev (soc m1))"
  have u: "(ucast ?v :: u8) = rx_data_q (uart_dev (soc m1))" if "rx_valid_q (uart_dev (soc m1))"
  proof -
    have "(ucast (?v AND 0xff) :: u8) = ucast (ucast (rx_data_q (uart_dev (soc m1))) :: u32)"
      unfolding rxdata_byte [OF that] ..
    moreover have "(ucast (w AND mask 8) :: u8) = ucast w" for w :: u32
      by (rule bit_word_eqI) (simp add: bit_simps)
    then have "(ucast (?v AND 0xff) :: u8) = ucast ?v" by (simp add: mask_eq_exp_minus_1)
    ultimately show ?thesis by (simp add: ucast_byte)
  qed
  have "devs m' = devs m" by (rule passes_devs [OF m'(2)]) (simp add: dev_simps)
  moreover have "RV32_SOC_UART_RXDATA = UART_RXDATA_ADDR" by (simp add: dev_simps)
  ultimately show ?thesis
    using m'(1) received_access [OF m'(3)] passes_seen [OF m'(2)] tohost_devs [of m' m] u
    by (auto simp: rxdata_empty)
qed

lemma report_access:
  "\<exists>m'. put_report f v b = Inr (b\<lparr>mach := m'\<rparr>) \<and> same_seen (mach b) m'"
proof -
  obtain m' where m': "put_report f v b = Inr (b\<lparr>mach := m'\<rparr>)" "wrote [(report_index f, v)] (mach b) m'"
    by (rule put_report_run)
  let ?q = "write_request (word_addr (report_index f)) v"
  have i: "report_index f < 2048" "report_index f \<noteq> 2047" using report_index_less [of f] by simp_all
  have "rv32_soc_mmio_write32 (word_addr (report_index f)) v (mach b) = Inr m'"
    using arg_cong [OF m'(1), of projr] m'(1) by (auto simp: put_report_def on_mach_def split: sum.splits dest!: arg_cong [of _ _ mach])
  then have p: "passes ?q (mach b) m'" by (rule write_passes)
  have "word_addr (report_index f) < 0x10000" using word_addr_tcm [OF i(1)] by simp
  then have n: "req_addr ?q \<noteq> UART_TXDATA_ADDR" "req_addr ?q \<noteq> GPIO_OUTPUT_TOGGLE_ADDR" by (auto simp: dev_simps)
  have "load32 (tcm (soc m')) RV32_SOC_TOHOST_ADDR = load32 (tcm (soc (mach b))) RV32_SOC_TOHOST_ADDR"
    using wrote_report(2) [OF m'(2)] i by simp
  moreover have "output_q (gpio_dev (soc m')) = output_q (gpio_dev (soc (mach b)))" using m'(2) by (simp add: wrote_def)
  moreover have "received m' = received (mach b)"
    by (rule passes_received [OF p]) (simp add: write_request_def read_request_def)
  ultimately have "same_seen (mach b) m'" using passes_seen [OF p] n by (simp add: same_seen_def)
  then show ?thesis using m'(1) by blast
qed

lemma finish_access:
  "\<exists>m'. rv32_soc_finish v m = Inr m' \<and> sent m' = sent m \<and> received m' = received m \<and> toggles m' = toggles m \<and>
    output_q (gpio_dev (soc m')) = output_q (gpio_dev (soc m)) \<and> load32 (tcm (soc m')) RV32_SOC_TOHOST_ADDR = v"
proof -
  obtain m' where m': "rv32_soc_mmio_write32 (word_addr 2047) v m = Inr m'" "wrote [(2047, v)] m m'"
    using write_word [of 2047 v m] by auto
  note p = write_passes [OF m'(1)]
  have "received m' = received m" by (rule passes_received [OF p]) (simp add: write_request_def read_request_def)
  moreover have "load32 (tcm (soc m')) RV32_SOC_TOHOST_ADDR = v" using wrote_report(2) [OF m'(2)] by simp
  moreover have "word_addr 2047 = 0xfffc" by (simp add: tohost_word_addr [symmetric] dev_simps)
  ultimately show ?thesis
    using m' passes_seen [OF p] by (simp add: rv32_soc_finish_def tohost_word_addr wrote_def dev_simps)
qed


lemma gpio_access:
  "\<exists>v m'. rv32_soc_mmio_read32 RV32_SOC_GPIO_OUTPUT m = Inr (v, m') \<and> same_seen m m'"
proof -
  from read_gpio_output [of m] obtain m' where m':
    "rv32_soc_mmio_read32 GPIO_OUTPUT_ADDR m = Inr (output_q (gpio_dev (soc m)), m')"
    "passes (read_request GPIO_OUTPUT_ADDR) m m'" "output_q (gpio_dev (soc m')) = output_q (gpio_dev (soc m))" by blast
  have "tcm (soc m') = tcm (soc m)" using passes_tcm [OF m'(2)] by (simp add: dev_simps)
  moreover have "received m' = received m"
    by (rule passes_received [OF m'(2)]) (simp add: read_request_def dev_simps)
  ultimately show ?thesis
    using m' passes_seen [OF m'(2)]
    by (simp add: same_seen_def RV32_SOC_GPIO_OUTPUT_def RV32_SOC_GPIO_BASE_def GPIO_OUTPUT_ADDR_def)
qed

section \<open>The steps of the tasks\<close>

text \<open>A task of its own moves the machine and the counters, not the kernel.\<close>

lemma kernel_part_task:
  assumes "kernel_part E L x" "kern (brd a) = kern (brd (app x))"
    "pullMachineTimerCompareRegister (brd a) = pullMachineTimerCompareRegister (brd (app x))"
  shows "kernel_part E L (x\<lparr>app := a\<rparr>)" "kernel_part E L (x\<lparr>app := a, blink_at := p\<rparr>)"
    "kernel_part E L (x\<lparr>app := a, echo_at := q\<rparr>)" "kernel_part E L (x\<lparr>app := a, check_at := r\<rparr>)"
  using assms by (simp_all add: kernel_part_def)

lemma demo_invI:
  assumes "kernel_part E L x" "data_part m0 (mach (brd a)) (blink_count a) (echo_count a) p q r out inp n"
    "kern (brd a) = kern (brd (app x))"
    "pullMachineTimerCompareRegister (brd a) = pullMachineTimerCompareRegister (brd (app x))"
  shows "demo_inv E L m0 (x\<lparr>app := a, blink_at := p, echo_at := q, check_at := r\<rparr>)"
  using assms unfolding demo_inv_def kernel_part_def by auto

lemma blink_ok:
  assumes "demo_inv E L m0 x" "blink_at x \<noteq> BDelay"
  shows "\<exists>p a. blink_step (blink_at x) (app x) = Inr (p, a) \<and> demo_inv E L m0 (x\<lparr>app := a, blink_at := p\<rparr>)"
proof -
  let ?m = "mach (brd (app x))"
  from assms(1) obtain out inp n where k: "kernel_part E L x" and d: "data_part m0 ?m (blink_count (app x)) (echo_count (app x))
      (blink_at x) (echo_at x) (check_at x) out inp n" by (auto simp: demo_inv_def)
  have x: "x\<lparr>app := a, blink_at := p, echo_at := echo_at x, check_at := check_at x\<rparr> = x\<lparr>app := a, blink_at := p\<rparr>" for a p
    by simp
  note I = demo_invI [OF k, where q = "echo_at x" and r = "check_at x", unfolded x]
  show ?thesis
  proof (cases "blink_at x")
    case BToggle
    from toggle_access [of ?m] obtain m' where m': "rv32_soc_gpio_toggle BLINK_MASK ?m = Inr m'" "sent m' = sent ?m"
      "received m' = received ?m" "toggles m' = Suc (toggles ?m)"
      "output_q (gpio_dev (soc m')) = output_q (gpio_dev (soc ?m)) XOR 1"
      "load32 (tcm (soc m')) RV32_SOC_TOHOST_ADDR = load32 (tcm (soc ?m)) RV32_SOC_TOHOST_ADDR" by blast
    let ?a = "(app x)\<lparr>brd := (brd (app x))\<lparr>mach := m'\<rparr>\<rparr>"
    have "data_part m0 m' (blink_count (app x)) (echo_count (app x)) BCount (echo_at x) (check_at x) out inp (Suc n)"
      using d m' BToggle check_part_mono [of "check_at x" n out "Suc n" out] by (auto simp: data_part_def blink_part_ok_def)
    then have "demo_inv E L m0 (x\<lparr>app := ?a, blink_at := BCount\<rparr>)" by (intro I) simp_all
    moreover have "blink_step (blink_at x) (app x) = Inr (BCount, ?a)"
      using m'(1) BToggle by (simp add: blink_step_def on_brd_def on_mach_def)
    ultimately show ?thesis by blast
  next
    case BCount
    have "\<exists>i. blink_count (app x) + 1 = of_nat i \<and> n = i"
      using d BCount by (auto simp: data_part_def blink_part_ok_def intro!: exI [of _ "Suc _"])
    then have "data_part m0 ?m (blink_count (app x) + 1) (echo_count (app x)) BDelay (echo_at x) (check_at x) out inp n"
      using d by (simp add: data_part_def blink_part_ok_def)
    then have "demo_inv E L m0 (x\<lparr>app := (app x)\<lparr>blink_count := blink_count (app x) + 1\<rparr>, blink_at := BDelay\<rparr>)"
      by (intro I) simp_all
    then show ?thesis using BCount by (simp add: blink_step_def)
  qed (use assms in simp)
qed

abbreviation with_mach :: "machine \<Rightarrow> app \<Rightarrow> app" where
  "with_mach m a \<equiv> a\<lparr>brd := (brd a)\<lparr>mach := m\<rparr>\<rparr>"

lemma data_same_seen:
  "data_part m0 m bc ec p q r out inp n \<Longrightarrow> same_seen m m' \<Longrightarrow> data_part m0 m' bc ec p q r out inp n"
  by (simp add: data_part_def same_seen_def)

lemma echo_ok:
  assumes "demo_inv E L m0 x" "echo_at x \<noteq> EDelay"
  shows "\<exists>q a. echo_step (echo_at x) (app x) = Inr (q, a) \<and> demo_inv E L m0 (x\<lparr>app := a, echo_at := q\<rparr>)"
proof -
  let ?m = "mach (brd (app x))" and ?n = "length READY"
  from assms(1) obtain out inp n where k: "kernel_part E L x" and d: "data_part m0 ?m (blink_count (app x)) (echo_count (app x))
      (blink_at x) (echo_at x) (check_at x) out inp n" by (auto simp: demo_inv_def)
  have x: "x\<lparr>app := a, blink_at := blink_at x, echo_at := q, check_at := check_at x\<rparr> = x\<lparr>app := a, echo_at := q\<rparr>" for a q
    by simp
  note I = demo_invI [OF k, where p = "blink_at x" and r = "check_at x", unfolded x]
  note mono = check_part_mono [of "check_at x" n out n]
  show ?thesis
  proof (cases "echo_at x")
    case (EReady i)
    show ?thesis
    proof (cases "i < ?n")
      case True
      from putc_access [of "of_char (READY ! i)" ?m] obtain m' where m':
        "rv32_soc_uart_putc (of_char (READY ! i)) ?m = Inr m'" "sent m' = sent ?m @ [of_char (READY ! i)]"
        "received m' = received ?m" "toggles m' = toggles ?m"
        "output_q (gpio_dev (soc m')) = output_q (gpio_dev (soc ?m))"
        "load32 (tcm (soc m')) RV32_SOC_TOHOST_ADDR = load32 (tcm (soc ?m)) RV32_SOC_TOHOST_ADDR" by blast
      have "take (Suc i) READY_bytes = take i READY_bytes @ [of_char (READY ! i)]"
        using True by (simp add: READY_bytes_def take_Suc_conv_app_nth)
      then have "data_part m0 m' (blink_count (app x)) (echo_count (app x)) (blink_at x) (EReady (Suc i)) (check_at x)
          (out @ [of_char (READY ! i)]) inp n"
        using d m' EReady True mono [of "out @ [of_char (READY ! i)]"] by (auto simp: data_part_def)
      then have "demo_inv E L m0 (x\<lparr>app := with_mach m' (app x), echo_at := EReady (Suc i)\<rparr>)" by (intro I) simp_all
      then show ?thesis using m'(1) EReady True by (simp add: echo_step_def on_brd_def on_mach_def)
    next
      case False
      then have "data_part m0 ?m (blink_count (app x)) (echo_count (app x)) (blink_at x) EStatus (check_at x) out inp n"
        using d EReady by (auto simp: data_part_def READY_bytes_def)
      then have "demo_inv E L m0 (x\<lparr>app := app x, echo_at := EStatus\<rparr>)" by (intro I) simp_all
      then show ?thesis using EReady False by (simp add: echo_step_def)
    qed
  next
    case EStatus
    from status_access [of ?m] obtain v m' where m': "rv32_soc_uart_status ?m = Inr (v, m')" "same_seen ?m m'" by blast
    let ?q = "if v AND RV32_SOC_UART_STATUS_RX_VALID = 0 then EDelay else EData"
    have "data_part m0 m' (blink_count (app x)) (echo_count (app x)) (blink_at x) ?q (check_at x) out inp n"
      using data_same_seen [OF d m'(2)] EStatus by (auto simp: data_part_def)
    then have "demo_inv E L m0 (x\<lparr>app := with_mach m' (app x), echo_at := ?q\<rparr>)" by (intro I) simp_all
    then show ?thesis using m'(1) EStatus by (simp add: echo_step_def ask_brd_def ask_mach_def)
  next
    case EData
    from rxdata_access [of ?m] obtain v m' where m': "rv32_soc_mmio_read32 RV32_SOC_UART_RXDATA ?m = Inr (v, m')"
      "sent m' = sent ?m" "toggles m' = toggles ?m" "output_q (gpio_dev (soc m')) = output_q (gpio_dev (soc ?m))"
      "load32 (tcm (soc m')) RV32_SOC_TOHOST_ADDR = load32 (tcm (soc ?m)) RV32_SOC_TOHOST_ADDR"
      "received m' = received ?m @ (if v AND RV32_SOC_UART_RX_EMPTY = 0 then [ucast v] else [])" by blast
    let ?q = "if v AND RV32_SOC_UART_RX_EMPTY \<noteq> 0 then EDelay else EPut (ucast v)"
    have "data_part m0 m' (blink_count (app x)) (echo_count (app x)) (blink_at x) ?q (check_at x) out
        (inp @ (if v AND RV32_SOC_UART_RX_EMPTY = 0 then [ucast v] else [])) n"
      using d m' EData by (auto simp: data_part_def)
    then have "demo_inv E L m0 (x\<lparr>app := with_mach m' (app x), echo_at := ?q\<rparr>)" by (intro I) simp_all
    then show ?thesis using m'(1) EData by (simp add: echo_step_def ask_brd_def ask_mach_def)
  next
    case (EPut b)
    from putc_access [of b ?m] obtain m' where m': "rv32_soc_uart_putc b ?m = Inr m'" "sent m' = sent ?m @ [b]"
      "received m' = received ?m" "toggles m' = toggles ?m"
      "output_q (gpio_dev (soc m')) = output_q (gpio_dev (soc ?m))"
      "load32 (tcm (soc m')) RV32_SOC_TOHOST_ADDR = load32 (tcm (soc ?m)) RV32_SOC_TOHOST_ADDR" by blast
    have "data_part m0 m' (blink_count (app x)) (echo_count (app x)) (blink_at x) (EStore b) (check_at x) (out @ [b]) inp n"
      using d m' EPut mono [of "out @ [b]"] by (auto simp: data_part_def)
    then have "demo_inv E L m0 (x\<lparr>app := with_mach m' (app x), echo_at := EStore b\<rparr>)" by (intro I) simp_all
    then show ?thesis using m'(1) EPut by (simp add: echo_step_def on_brd_def on_mach_def)
  next
    case (EStore b)
    have "data_part m0 ?m (blink_count (app x)) (echo_count (app x)) (blink_at x) ECount (check_at x) out inp n"
      using d EStore by (auto simp: data_part_def)
    then have "demo_inv E L m0 (x\<lparr>app := (app x)\<lparr>echoed_byte := ucast b\<rparr>, echo_at := ECount\<rparr>)" by (intro I) simp_all
    then show ?thesis using EStore by (simp add: echo_step_def)
  next
    case ECount
    have "data_part m0 ?m (blink_count (app x)) (echo_count (app x) + 1) (blink_at x) EDelay (check_at x) out inp n"
      using d ECount by (auto simp: data_part_def)
    then have "demo_inv E L m0 (x\<lparr>app := (app x)\<lparr>echo_count := echo_count (app x) + 1\<rparr>, echo_at := EDelay\<rparr>)"
      by (intro I) simp_all
    then show ?thesis using ECount by (simp add: echo_step_def)
  qed (use assms in simp)
qed

lemma load_field_run:
  "\<exists>v m'. load_field f a = Inr (v, with_mach m' a) \<and> same_seen (mach (brd a)) m'"
proof (cases "f = R_gpio_output")
  case True
  then show ?thesis
    using gpio_access [of "mach (brd a)"] by (auto simp: load_field_def ask_brd_def ask_mach_def)
next
  case False
  then have "\<exists>v. load_field f a = Inr (v, with_mach (mach (brd a)) a)" by (cases f) (simp_all add: load_field_def)
  then show ?thesis by fastforce
qed

lemma progressed_seen:
  assumes "data_part m0 m bc ec p q r out inp n"
  shows "3 \<le> bc \<Longrightarrow> 3 \<le> n" "1 \<le> ec \<Longrightarrow> length READY < length out"
proof -
  assume "3 \<le> bc"
  moreover obtain i where i: "bc = of_nat i" "i \<le> n" using assms by (auto simp: data_part_def blink_part_ok_def)
  ultimately have "3 \<le> i mod 2 ^ 32" by (simp add: word_le_nat_alt unat_of_nat take_bit_eq_mod)
  then show "3 \<le> n" using i(2) mod_less_eq_dividend [of i "2 ^ 32"] by linarith
next
  assume e: "1 \<le> ec"
  have "ec \<noteq> 0" using e by auto
  then show "length READY < length out"
    using assms by (cases q) (auto simp: data_part_def READY_bytes_def)
qed

lemma check_ok:
  assumes "demo_inv E L m0 x" "check_at x \<noteq> CDelay"
  shows "\<exists>r a. check_step (check_at x) (app x) = Inr (r, a) \<and> demo_inv E L m0 (x\<lparr>app := a, check_at := r\<rparr>)"
proof -
  let ?m = "mach (brd (app x))"
  from assms(1) obtain out inp n where k: "kernel_part E L x" and d: "data_part m0 ?m (blink_count (app x)) (echo_count (app x))
      (blink_at x) (echo_at x) (check_at x) out inp n" by (auto simp: demo_inv_def)
  have x: "x\<lparr>app := a, blink_at := blink_at x, echo_at := echo_at x, check_at := r\<rparr> = x\<lparr>app := a, check_at := r\<rparr>" for a r
    by simp
  note I = demo_invI [OF k, where p = "blink_at x" and q = "echo_at x", unfolded x]
  have move: "demo_inv E L m0 (x\<lparr>app := with_mach m' (app x), check_at := r\<rparr>)"
    if "same_seen ?m m'" "check_part_ok (check_at x) n out \<Longrightarrow> check_part_ok r n out" "r \<noteq> CDone" "check_at x \<noteq> CDone" for m' r
    by (rule I [of _ _ _ out inp n]) (use data_same_seen [OF d that(1)] that(2-4) in \<open>auto simp: data_part_def\<close>)
  show ?thesis
  proof (cases "check_at x")
    case (CTest i)
    let ?r = "if progressed i (app x) then (if i < 3 then CTest (i + 1) else CLoad 0) else CDelay"
    have le: "i \<le> 3" using d CTest by (simp add: data_part_def)
    have "check_part_ok ?r n out" if "check_part_ok (CTest i) n out"
    proof -
      consider "i = 0" | "i = 1" | "i = 2" | "i = 3" using le by linarith
      then show ?thesis
        by cases (use that progressed_seen [OF d] in \<open>auto simp: progressed_def pass_fields_def\<close>)
    qed
    then have "demo_inv E L m0 (x\<lparr>app := with_mach ?m (app x), check_at := ?r\<rparr>)" by (intro move) (simp_all add: CTest)
    then show ?thesis using CTest by (simp add: check_step_def)
  next
    case (CLoad i)
    obtain v m' where m': "load_field (pass_fields ! i) (app x) = Inr (v, with_mach m' (app x))" "same_seen ?m m'"
      using load_field_run by blast
    have "demo_inv E L m0 (x\<lparr>app := with_mach m' (app x), check_at := CStore i v\<rparr>)"
      by (rule move [OF m'(2)]) (simp_all add: CLoad)
    then show ?thesis using m'(1) CLoad by (simp add: check_step_def)
  next
    case (CStore i v)
    obtain m' where m': "put_report (pass_fields ! i) v (brd (app x)) = Inr ((brd (app x))\<lparr>mach := m'\<rparr>)" "same_seen ?m m'"
      using report_access by blast
    let ?r = "if i + 1 < length pass_fields then CLoad (i + 1) else CFinish"
    have "demo_inv E L m0 (x\<lparr>app := with_mach m' (app x), check_at := ?r\<rparr>)"
      by (rule move [OF m'(2)]) (simp_all add: CStore)
    then show ?thesis using m'(1) CStore by (simp add: check_step_def on_brd_def)
  next
    case CFinish
    from finish_access [of RV32_SOC_PASS_STATUS ?m] obtain m' where m': "rv32_soc_finish RV32_SOC_PASS_STATUS ?m = Inr m'"
      "sent m' = sent ?m" "received m' = received ?m" "toggles m' = toggles ?m"
      "output_q (gpio_dev (soc m')) = output_q (gpio_dev (soc ?m))"
      "load32 (tcm (soc m')) RV32_SOC_TOHOST_ADDR = RV32_SOC_PASS_STATUS" by blast
    have "data_part m0 m' (blink_count (app x)) (echo_count (app x)) (blink_at x) (echo_at x) CDone out inp n"
      using d m' CFinish by (simp add: data_part_def)
    then have "demo_inv E L m0 (x\<lparr>app := with_mach m' (app x), check_at := CDone\<rparr>)" by (intro I) simp_all
    then show ?thesis using m'(1) CFinish by (simp add: check_step_def on_brd_def on_mach_def)
  next
    case CDone
    then have "demo_inv E L m0 (x\<lparr>check_at := CDone\<rparr>)" using assms(1) by (cases x) simp
    then show ?thesis using CDone by (simp add: check_step_def)
  qed (use assms in simp)
qed


section \<open>Every step\<close>

lemma delay_ticks: "pdMS_TO_TICKS FREERTOS_BLINK_PERIOD_MS \<noteq> 0" "pdMS_TO_TICKS 1 \<noteq> 0"
  by (simp_all add: ticks_of_ms)

lemma demo_inv_after_kernel:
  assumes "demo_inv E L m0 x" "step (ksys x) a k" "app x' = app x" "kpc x' = kpc x"
    "blink_at x' = blink_at x \<or> blink_at x = BDelay \<and> blink_at x' = BToggle"
    "echo_at x' = echo_at x \<or> echo_at x = EDelay \<and> echo_at x' = EStatus"
    "check_at x' = check_at x \<or> check_at x = CDelay \<and> check_at x' = CTest 0"
  shows "demo_inv E L m0 (with_ksys k x')"
proof -
  have "kernel_part E L x'" using assms(1,3,4) by (simp add: demo_inv_def kernel_part_def)
  moreover have "step (ksys x') a k" using assms(2-4) by simp
  ultimately have "kernel_part E L (with_ksys k x')" by (rule kernel_step)
  from demo_inv_kernel [OF assms(1) this] assms(3-) show ?thesis by simp
qed

lemma idle_round:
  assumes "prvIdleTask_round s = Inr s'"
  shows "s' = s \<or> portYIELD s = Inr s'"
  using assms by (auto simp: prvIdleTask_round_def prvCheckTasksWaitingTermination_def Let_def split: if_splits)

lemma task_step_inv:
  assumes "task_step L x y" "demo_inv E L m0 x"
  shows "demo_inv E L m0 y"
  using assms
proof cases
  case (d_blink p a)
  then show ?thesis using blink_ok [OF assms(2)] by auto
next
  case (d_echo q a)
  then show ?thesis using echo_ok [OF assms(2)] by auto
next
  case (d_check r a)
  then show ?thesis using check_ok [OF assms(2)] by auto
next
  case (d_blink_delay k)
  then show ?thesis using demo_inv_after_kernel [OF assms(2) d_blink_delay(4), of "x\<lparr>blink_at := BToggle\<rparr>"] by simp
next
  case (d_echo_delay k)
  then show ?thesis using demo_inv_after_kernel [OF assms(2) d_echo_delay(4), of "x\<lparr>echo_at := EStatus\<rparr>"] by simp
next
  case (d_check_delay k)
  then show ?thesis using demo_inv_after_kernel [OF assms(2) d_check_delay(4), of "x\<lparr>check_at := CTest 0\<rparr>"] by simp
next
  case (d_block k)
  then show ?thesis using demo_inv_after_kernel [OF assms(2) d_block(2), of x] by simp
next
  case (d_resume k)
  then show ?thesis using demo_inv_after_kernel [OF assms(2) d_resume(2), of x] by simp
next
  case (d_yield k)
  then show ?thesis using demo_inv_after_kernel [OF assms(2) d_yield(3), of x] by simp
next
  case (d_idle s)
  from idle_round [OF d_idle(4)] show ?thesis
  proof
    assume "s = kern (brd (app x))"
    then have "with_ksys (s, kpc x) x = x" by (simp add: with_ksys_def)
    then show ?thesis using assms(2) d_idle(1) by simp
  next
    assume "portYIELD (kern (brd (app x))) = Inr s"
    then have "step (ksys x) Yield (s, (kpc x)(cur x := User))"
      using d_idle(3) by (intro step_yield) simp_all
    moreover have "(kpc x)(cur x := User) = kpc x" using d_idle(3) by auto
    ultimately show ?thesis using demo_inv_after_kernel [OF assms(2), of Yield "(s, kpc x)" x] d_idle(1) by simp
  qed
qed


section \<open>The timer interrupt\<close>

lemma update_seen:
  assumes "pullMachineTimerCompareRegister b = MTIMECMP_LO_ADDR" "portUPDATE_MTIMER_COMPARE_REGISTER b = Inr b'"
  shows "same_seen (mach b) (mach b')" "kern b' = kern b"
    "pullMachineTimerCompareRegister b' = MTIMECMP_LO_ADDR"
proof -
  have seen: "same_seen m m'" if "rv32_soc_mmio_write32 a v m = Inr m'" "a \<in> {MTIMECMP_LO_ADDR, MTIMECMP_LO_ADDR + 4}" for a v m m'
    by (rule passes_same_seen [OF write_passes [OF that(1)]]) (use that(2) in \<open>auto simp: dev_simps write_request_def read_request_def\<close>)
  obtain m1 m2 where "rv32_soc_mmio_write32 MTIMECMP_LO_ADDR (-1) (mach b) = Inr m1"
    "rv32_soc_mmio_write32 (MTIMECMP_LO_ADDR + 4) (hi32 (ullNextTime b)) m1 = Inr m2"
    "rv32_soc_mmio_write32 MTIMECMP_LO_ADDR (lo32 (ullNextTime b)) m2 = Inr (mach b')"
    "kern b' = kern b" "pullMachineTimerCompareRegister b' = MTIMECMP_LO_ADDR"
    using assms by (auto simp: portUPDATE_MTIMER_COMPARE_REGISTER_def Let_def on_mach_def bindE_def split: sum.splits)
  then show "same_seen (mach b) (mach b')" "kern b' = kern b" "pullMachineTimerCompareRegister b' = MTIMECMP_LO_ADDR"
    using seen [of MTIMECMP_LO_ADDR] seen [of "MTIMECMP_LO_ADDR + 4"] same_seen_trans by blast+
qed

lemma tick_seen:
  assumes "pullMachineTimerCompareRegister b = MTIMECMP_LO_ADDR" "freertos_risc_v_trap_handler 0x80000007 epc b = Inr b'"
  shows "same_seen (mach b) (mach b')" "freertos_risc_v_mtimer_interrupt_handler (kern b) = Inr (kern b')"
    "pullMachineTimerCompareRegister b' = MTIMECMP_LO_ADDR"
proof -
  let ?b = "b\<lparr>kern := save_context (kern b)\<rparr>"
  have n: "\<not> 0 \<le> sint (0x80000007 :: u32)" by simp
  obtain b1 where b1: "portUPDATE_MTIMER_COMPARE_REGISTER ?b = Inr b1"
    using assms(2) by (auto simp: freertos_risc_v_trap_handler_def n Let_def tick_handler_def bindE_def split: sum.splits)
  have u: "same_seen (mach b) (mach b1)" "kern b1 = save_context (kern b)"
    "pullMachineTimerCompareRegister b1 = MTIMECMP_LO_ADDR"
    using update_seen [OF _ b1] assms(1) by simp_all
  have m: "mach b' = mach b1" "pullMachineTimerCompareRegister b' = pullMachineTimerCompareRegister b1"
    using assms(2) b1
    by (auto simp: freertos_risc_v_trap_handler_def n Let_def tick_handler_def ask_kern_def on_kern_def bindE_def
        split: sum.splits prod.splits if_splits)
  show "same_seen (mach b) (mach b')" "pullMachineTimerCompareRegister b' = MTIMECMP_LO_ADDR" using u m by simp_all
  show "freertos_risc_v_mtimer_interrupt_handler (kern b) = Inr (kern b')"
    using handler_eq [OF assms(1), of epc] assms(2) by (auto split: sum.splits)
qed

lemma timer_step_inv:
  assumes "timer_step x y" "demo_inv E L m0 x"
  shows "demo_inv E L m0 y"
  using assms
proof cases
  case (d_tick epc b)
  have p: "pullMachineTimerCompareRegister (brd (app x)) = MTIMECMP_LO_ADDR" and k: "kernel_part E L x"
    using assms(2) by (simp_all add: demo_inv_def kernel_part_def)
  note t = tick_seen [OF p d_tick(2)]
  have "step (ksys x) Tick (kern b, kpc x)" using t(2) by (rule step_tick)
  from kernel_step [OF k this] have "kernel_part E L y" using d_tick(1) t(3) by (simp add: kernel_part_def)
  from demo_inv_kernel [OF assms(2) this] d_tick(1) t(1) show ?thesis by simp
qed

lemma reach_inv: "demo_reach L x y \<Longrightarrow> demo_inv E L m0 x \<Longrightarrow> demo_inv E L m0 y"
  by (induction rule: demo_reach.induct) (auto intro: task_step_inv timer_step_inv)

section \<open>Progress\<close>

text \<open>
  The running task can always take its next step, unless its stack has overflowed and the stack
  check stops the program.
\<close>

lemma kernel_call_progress:
  assumes "sys_ok E (s, pc)"
  shows "\<And>n. pc (pxCurrentTCB s) = Delaying n \<Longrightarrow> \<exists>k. step (s, pc) Block k"
    "pc (pxCurrentTCB s) = Resuming \<Longrightarrow> \<not> healthy s \<and> xTaskResumeAll s = Inl StackOverflow \<or> (\<exists>k. step (s, pc) Resume k)"
    "pc (pxCurrentTCB s) \<in> {User, Yielding} \<Longrightarrow> \<not> healthy s \<and> portYIELD s = Inl StackOverflow \<or> (\<exists>k. step (s, pc) Yield k)"
proof -
  have ok: "kernel_ok E s" "running_ok s (pc (pxCurrentTCB s))" using assms by (simp_all add: sys_ok_def)
  show "\<exists>k. step (s, pc) Block k" if n: "pc (pxCurrentTCB s) = Delaying n" for n
  proof -
    have "kernel_core E s" "n \<noteq> 0" "home s (StateItem (pxCurrentTCB s)) = Some (ReadyList (prio s (pxCurrentTCB s)))"
      using ok n by (simp_all add: kernel_ok_def)
    from block_current [OF this, of False] show ?thesis using step_block [of pc s n] n by blast
  qed
  show "\<not> healthy s \<and> xTaskResumeAll s = Inl StackOverflow \<or> (\<exists>k. step (s, pc) Resume k)" if "pc (pxCurrentTCB s) = Resuming"
    using xTaskResumeAll_run [of E s] ok that step_resume [of pc s] by force
  show "\<not> healthy s \<and> portYIELD s = Inl StackOverflow \<or> (\<exists>k. step (s, pc) Yield k)" if "pc (pxCurrentTCB s) \<in> {User, Yielding}"
    using portYIELD_fault [of E s] ok that step_yield [of pc s] by (cases "portYIELD s") auto
qed

definition stack_check_fails :: "demo_state \<Rightarrow> bool" where
  "stack_check_fails x \<longleftrightarrow> \<not> healthy (kern (brd (app x))) \<and>
     (xTaskResumeAll (kern (brd (app x))) = Inl StackOverflow \<or> portYIELD (kern (brd (app x))) = Inl StackOverflow)"

lemma delay_progress:
  assumes "demo_inv E L m0 x" "linked L" "kpc x (cur x) = User" "cur x \<noteq> idle_tcb (idle_memory L)" "n \<noteq> 0"
  shows "\<exists>k. step (ksys x) (Call n) k"
proof -
  have "cur x \<noteq> xIdleTaskHandle (kern (brd (app x)))" using assms(1,4) by (simp add: demo_inv_def kernel_part_def)
  then show ?thesis using step_call [of "kpc x" "kern (brd (app x))" n] assms(3,5) by blast
qed

lemma task_progress:
  assumes i: "demo_inv E L m0 x" and l: "linked L"
  shows "stack_check_fails x \<or> (\<exists>y. task_step L x y)"
proof -
  have ok: "sys_ok E (ksys x)" using i by (simp add: demo_inv_def kernel_part_def)
  show ?thesis
  proof (cases "kpc x (cur x)")
    case (Delaying n)
    from kernel_call_progress(1) [OF ok Delaying] obtain k where "step (ksys x) Block k" by blast
    then show ?thesis using task_step.d_block by blast
  next
    case Resuming
    from kernel_call_progress(2) [OF ok this] show ?thesis
      unfolding stack_check_fails_def using task_step.d_resume by blast
  next
    case Yielding
    then have "kpc x (cur x) \<in> {User, Yielding}" by simp
    from kernel_call_progress(3) [OF ok this] show ?thesis
      unfolding stack_check_fails_def using task_step.d_yield [OF Yielding] by blast
  next
    case User
    have "cur x \<in> demo_tasks L" using i by (simp add: demo_inv_def kernel_part_def)
    then consider "cur x = blink_task_tcb L" | "cur x = echo_task_tcb L" | "cur x = check_task_tcb L"
      | "cur x = idle_tcb (idle_memory L)" by (auto simp: demo_tasks_def)
    then show ?thesis
    proof cases
      case 1
      then have "cur x \<noteq> idle_tcb (idle_memory L)" using l by (auto simp: linked_def)
      from delay_progress [OF i l User this delay_ticks(1)] show ?thesis
        using blink_ok [OF i] 1 User by (cases "blink_at x = BDelay") (blast intro: task_step.d_blink_delay task_step.d_blink)+
    next
      case 2
      then have "cur x \<noteq> idle_tcb (idle_memory L)" using l by (auto simp: linked_def)
      from delay_progress [OF i l User this delay_ticks(2)] show ?thesis
        using echo_ok [OF i] 2 User by (cases "echo_at x = EDelay") (blast intro: task_step.d_echo_delay task_step.d_echo)+
    next
      case 3
      then have "cur x \<noteq> idle_tcb (idle_memory L)" using l by (auto simp: linked_def)
      from delay_progress [OF i l User this delay_ticks(2)] show ?thesis
        using check_ok [OF i] 3 User by (cases "check_at x = CDelay") (blast intro: task_step.d_check_delay task_step.d_check)+
    next
      case 4
      have "kpc x (cur x) \<in> {User, Yielding}" using User by simp
      from kernel_call_progress(3) [OF ok this]
      have "stack_check_fails x \<or> (\<exists>s. prvIdleTask_round (kern (brd (app x))) = Inr s)"
        by (auto simp: stack_check_fails_def prvIdleTask_round_def prvCheckTasksWaitingTermination_def Let_def elim: step_yieldE)
      then show ?thesis using task_step.d_idle [OF 4 User] by blast
    qed
  qed
qed

lemma timer_progress:
  assumes i: "demo_inv E L m0 x"
  shows "\<not> healthy (kern (brd (app x))) \<and>
      (\<exists>b. freertos_risc_v_trap_handler 0x80000007 epc (brd (app x)) = Inl (KernelStop StackOverflow b)) \<or>
    (\<exists>y. timer_step x y)"
proof -
  have s: "kernel_ok E (kern (brd (app x)))" "pullMachineTimerCompareRegister (brd (app x)) = MTIMECMP_LO_ADDR"
    using i by (simp_all add: demo_inv_def kernel_part_def sys_ok_def)
  show ?thesis
    using handler_eq [OF s(2), of epc] tick_fault [OF s(1)] timer_step.d_tick [of epc x]
    by (cases "freertos_risc_v_mtimer_interrupt_handler (kern (brd (app x)))") fastforce+
qed

end
