(* ===== verification/Demo_Whole.thy ===== *)
theory Demo_Whole
  imports Demo_Inv
begin

text \<open>
  The properties of the demonstration program as a whole, from \<open>main\<close> on, in every interleaving of
  its tasks with the timer interrupt.
\<close>

section \<open>The start\<close>

text \<open>The idle task is the one task that is ready at priority 0.\<close>

lemma idle_handle:
  assumes "sys_ok E (s, pc)" "linked L" "abs_state s = (\<lambda>_. Absent)(blink_task_tcb L := Ready 1, echo_task_tcb L := Ready 2,
      check_task_tcb L := Ready 3, idle_tcb (idle_memory L) := Ready 0)"
  shows "xIdleTaskHandle s = idle_tcb (idle_memory L)"
proof -
  have "abs_state s (xIdleTaskHandle s) = Ready 0"
    using assms(1) by (simp add: sys_ok_def kernel_ok_def idle_ok_def abs_state_def)
  then show ?thesis unfolding assms(3) using assms(2) by (auto simp: linked_def split: if_splits)
qed

lemma start_inv:
  assumes "fresh E (kern (brd a))" "linked L" "mt_ok k (mach (brd a))" "csr_mhartid (brd a) = 0"
    "blink_count a = 0" "echo_count a = 0" "main L a = Inr a'"
  shows "demo_inv E L (mach (brd a')) (demo_start a')"
proof -
  from main_run [OF assms(1-4)] assms(7) obtain b where b: "a' = a\<lparr>brd := b\<rparr>" "sys_ok E (kern b, \<lambda>_. User)"
    "pxCurrentTCB (kern b) = check_task_tcb L"
    "abs_state (kern b) = (\<lambda>_. Absent)(blink_task_tcb L := Ready 1, echo_task_tcb L := Ready 2,
      check_task_tcb L := Ready 3, idle_tcb (idle_memory L) := Ready 0)"
    "output_q (gpio_dev (soc (mach b))) = 0" "pullMachineTimerCompareRegister b = MTIMECMP_LO_ADDR" by auto
  have "abs_state (kern b) t \<noteq> Absent \<Longrightarrow> t \<in> demo_tasks L" for t
    unfolding b(4) by (auto simp: demo_tasks_def split: if_splits)
  then have "kernel_part E L (demo_start a')"
    using b idle_handle [OF b(2) assms(2) b(4)] by (simp add: kernel_part_def demo_start_def demo_tasks_def)
  moreover have "data_part (mach (brd a')) (mach (brd a')) 0 0 BToggle (EReady 0) (CTest 0) [] [] 0"
    using b by (simp add: data_part_def blink_part_ok_def)
  ultimately show ?thesis
    using assms(5,6) b(1) by (auto simp: demo_inv_def demo_start_def)
qed

text \<open>A concrete start, for the witnesses: the reset state, and the first step of the check task.\<close>

lemma reset_starts:
  obtains a' where "fresh {} (kern (brd app_at_reset))" "linked some_layout" "mt_ok 0 (mach (brd app_at_reset))"
    "csr_mhartid (brd app_at_reset) = 0" "blink_count app_at_reset = 0" "echo_count app_at_reset = 0"
    "main some_layout app_at_reset = Inr a'" "demo_reach some_layout (demo_start a') ((demo_start a')\<lparr>check_at := CDelay\<rparr>)"
proof -
  have r: "fresh {} (kern (brd app_at_reset))" "mt_ok 0 (mach (brd app_at_reset))" "csr_mhartid (brd app_at_reset) = 0"
    "blink_count app_at_reset = 0" "echo_count app_at_reset = 0"
    using fresh_reset reset_mt_ok by (simp_all add: app_at_reset_def)
  have l: "linked some_layout" by (simp add: linked_def some_layout_def portBYTE_ALIGNMENT_MASK_def)
  from main_run [OF r(1) l r(2,3)] obtain b where b: "main some_layout app_at_reset = Inr (app_at_reset\<lparr>brd := b\<rparr>)"
    "pxCurrentTCB (kern b) = check_task_tcb some_layout" by blast
  let ?x = "demo_start (app_at_reset\<lparr>brd := b\<rparr>)"
  have "check_step (check_at ?x) (app ?x) = Inr (CDelay, app ?x)"
    by (simp add: demo_start_def check_step_def progressed_def app_at_reset_def)
  then have "task_step some_layout ?x (?x\<lparr>app := app ?x, check_at := CDelay\<rparr>)"
    using b(2) by (intro task_step.d_check) (simp_all add: demo_start_def)
  then have "task_step some_layout ?x (?x\<lparr>check_at := CDelay\<rparr>)" by (simp add: demo_start_def)
  from demo_next [OF demo_here disjI1 [OF this]] show thesis by (rule that [OF r(1) l r(2-5) b(1)])
qed

section \<open>What the program does\<close>

text \<open>C15. The echo is faithful. Whatever the interleaving of the tasks and the timer interrupts, what the program has
  sent is the greeting \<^verbatim>\<open>READY\<close> with a newline followed by the bytes it has popped from the receiver, in
  their order and without loss or duplication; at most the last byte popped is still to be sent.\<close>

theorem echo_is_faithful:
  assumes "fresh E (kern (brd a))" and "linked L" and "mt_ok k (mach (brd a))" and "csr_mhartid (brd a) = 0"
    and "blink_count a = 0" and "echo_count a = 0" and "main L a = Inr a'"
    and "demo_reach L (demo_start a') x"
  shows "\<exists>out inp held. sent (mach (brd (app x))) = sent (mach (brd a')) @ out \<and>
    received (mach (brd (app x))) = received (mach (brd a')) @ inp \<and>
    map of_char ''READY\<newline>'' @ inp = out @ held \<and> (length held \<le> 1 \<or> inp = [])"
proof -
  from reach_inv [OF assms(8) start_inv [OF assms(1-7)]] obtain out inp n where
    "sent (mach (brd (app x))) = sent (mach (brd a')) @ out" "received (mach (brd (app x))) = received (mach (brd a')) @ inp"
    "echo_part_ok (echo_at x) (echo_count (app x)) out inp" by (auto simp: demo_inv_def data_part_def)
  moreover from this(3) have "\<exists>held. READY_bytes @ inp = out @ held \<and> (length held \<le> 1 \<or> inp = [])"
    by (cases "echo_at x") (auto intro: append_take_drop_id [symmetric])
  ultimately show ?thesis unfolding READY_bytes_def READY_def by blast
qed

theorem echo_is_faithful_witness:
  "\<exists>a' out held. main some_layout app_at_reset = Inr a' \<and> sent (mach (brd (app (demo_start a')))) = sent (mach (brd a')) @ out \<and>
     map of_char ''READY\<newline>'' @ [] = out @ held"
proof -
  obtain a' where a': "fresh {} (kern (brd app_at_reset))" "linked some_layout" "mt_ok 0 (mach (brd app_at_reset))"
    "csr_mhartid (brd app_at_reset) = 0" "blink_count app_at_reset = 0" "echo_count app_at_reset = 0"
    "main some_layout app_at_reset = Inr a'" "demo_reach some_layout (demo_start a') ((demo_start a')\<lparr>check_at := CDelay\<rparr>)"
    by (rule reset_starts)
  from echo_is_faithful [OF a'] show ?thesis using a'(7) by (auto simp: demo_start_def)
qed

text \<open>C16. A pass means progress. In every state the program can reach, the mailbox holds what it held before the
  scheduler started until the check task has finished, and then the status of a pass; no failure is ever
  reported on the way. When it holds the pass, the LED has been toggled at least three times and at least one byte was
  received and sent back. The LED is lit exactly when it was toggled an odd number of times.\<close>

theorem pass_means_progress:
  assumes "fresh E (kern (brd a))" and "linked L" and "mt_ok k (mach (brd a))" and "csr_mhartid (brd a) = 0"
    and "blink_count a = 0" and "echo_count a = 0" and "main L a = Inr a'"
    and "demo_reach L (demo_start a') x"
  shows "\<exists>n out inp. toggles (mach (brd (app x))) = toggles (mach (brd a')) + n \<and>
    sent (mach (brd (app x))) = sent (mach (brd a')) @ out \<and>
    received (mach (brd (app x))) = received (mach (brd a')) @ inp \<and>
    output_q (gpio_dev (soc (mach (brd (app x))))) = (if odd n then 1 else 0) \<and>
    (if check_at x = CDone
     then load32 (tcm (soc (mach (brd (app x))))) RV32_SOC_TOHOST_ADDR = RV32_SOC_PASS_STATUS \<and> 3 \<le> n \<and>
       (\<exists>b bs. out = map of_char ''READY\<newline>'' @ b # bs \<and> (\<exists>cs. inp = b # cs))
     else load32 (tcm (soc (mach (brd (app x))))) RV32_SOC_TOHOST_ADDR =
       load32 (tcm (soc (mach (brd a')))) RV32_SOC_TOHOST_ADDR)"
proof -
  from reach_inv [OF assms(8) start_inv [OF assms(1-7)]] obtain out inp n where d:
    "data_part (mach (brd a')) (mach (brd (app x))) (blink_count (app x)) (echo_count (app x))
       (blink_at x) (echo_at x) (check_at x) out inp n" by (auto simp: demo_inv_def)
  have "\<exists>b bs. out = READY_bytes @ b # bs \<and> (\<exists>cs. inp = b # cs)" if "length READY < length out"
  proof -
    have "\<exists>es cs. out = READY_bytes @ es \<and> inp = es @ cs \<and> es \<noteq> []"
      using d that by (cases "echo_at x") (auto simp: data_part_def READY_bytes_def)
    then show ?thesis by (metis append_Cons neq_Nil_conv)
  qed
  then show ?thesis
    using d unfolding data_part_def READY_bytes_def READY_def
    by (intro exI [of _ n] exI [of _ out] exI [of _ inp]) (auto simp: READY_def)
qed

theorem pass_means_progress_witness:
  "\<exists>a' x. main some_layout app_at_reset = Inr a' \<and> demo_reach some_layout (demo_start a') x \<and> check_at x = CDelay \<and>
     load32 (tcm (soc (mach (brd (app x))))) RV32_SOC_TOHOST_ADDR =
       load32 (tcm (soc (mach (brd a')))) RV32_SOC_TOHOST_ADDR"
proof -
  obtain a' where a': "fresh {} (kern (brd app_at_reset))" "linked some_layout" "mt_ok 0 (mach (brd app_at_reset))"
    "csr_mhartid (brd app_at_reset) = 0" "blink_count app_at_reset = 0" "echo_count app_at_reset = 0"
    "main some_layout app_at_reset = Inr a'" "demo_reach some_layout (demo_start a') ((demo_start a')\<lparr>check_at := CDelay\<rparr>)"
    by (rule reset_starts)
  from pass_means_progress [OF a'] show ?thesis using a'(7,8) by auto
qed

text \<open>C17. The program never gets stuck. In every state it can reach, the scheduler's invariant holds, the running task is one of
  the three tasks or the idle task, it can take its next step, and the timer interrupt can be served; no assertion,
  bus fault, NULL pointer or endless loop stops it. The one exception is the stack check of a context switch, and only
  when the stack of the running task has overflowed.\<close>

theorem demo_never_stuck:
  assumes "fresh E (kern (brd a))" and "linked L" and "mt_ok k (mach (brd a))" and "csr_mhartid (brd a) = 0"
    and "blink_count a = 0" and "echo_count a = 0" and "main L a = Inr a'"
    and "demo_reach L (demo_start a') x"
  shows "sys_ok E (ksys x) \<and>
    cur x \<in> {blink_task_tcb L, echo_task_tcb L, check_task_tcb L, idle_tcb (idle_memory L)} \<and>
    (stack_check_fails x \<or> (\<exists>y. task_step L x y)) \<and>
    (\<not> healthy (kern (brd (app x))) \<and>
      (\<exists>b. freertos_risc_v_trap_handler 0x80000007 epc (brd (app x)) = Inl (KernelStop StackOverflow b)) \<or>
     (\<exists>y. timer_step x y))"
proof -
  note inv = reach_inv [OF assms(8) start_inv [OF assms(1-7)]]
  show ?thesis
    using inv task_progress [OF inv assms(2)] timer_progress [OF inv, of epc]
    by (auto simp: demo_inv_def kernel_part_def demo_tasks_def)
qed

theorem demo_never_stuck_witness:
  "\<exists>a' x. main some_layout app_at_reset = Inr a' \<and> check_at x = CDelay \<and> sys_ok {} (ksys x) \<and>
     (stack_check_fails x \<or> (\<exists>y. task_step some_layout x y))"
proof -
  obtain a' where a': "fresh {} (kern (brd app_at_reset))" "linked some_layout" "mt_ok 0 (mach (brd app_at_reset))"
    "csr_mhartid (brd app_at_reset) = 0" "blink_count app_at_reset = 0" "echo_count app_at_reset = 0"
    "main some_layout app_at_reset = Inr a'" "demo_reach some_layout (demo_start a') ((demo_start a')\<lparr>check_at := CDelay\<rparr>)"
    by (rule reset_starts)
  from demo_never_stuck [OF a', of 0] a'(7) show ?thesis
    by (intro exI [of _ a'] exI [of _ "(demo_start a')\<lparr>check_at := CDelay\<rparr>"]) simp
qed

end
