(* ===== verification/Core_Pkg.thy ===== *)
theory Core_Pkg
  imports Prelude
begin

text \<open>
  The types and constants the processor's modules share, from \<^verbatim>\<open>rtl/core/rv32_pkg.sv\<close>: the opcodes, the
  enumerations of the datapath, and the packets of the pipeline registers. An enumeration is a datatype, a
  packed structure a record; the value \<^verbatim>\<open>'0\<close> of a structure has the first constructor in each field. A
  cause is a 5-bit word, since the core also puts the number of the timer interrupt into it.
\<close>

section \<open>Bit fields\<close>

text \<open>\<open>field n w\<close> is the part select of \<open>w\<close> from bit \<open>n\<close> on, as wide as its result type; \<open>fill b\<close> replicates a bit.\<close>

definition field :: "nat \<Rightarrow> 'a::len word \<Rightarrow> 'b::len word" where
  "field n w = ucast (drop_bit n w)"

definition fill :: "bool \<Rightarrow> 'a::len word" where
  "fill b = (if b then -1 else 0)"

lemma bit_field [bit_simps]: "bit (field n w :: 'b::len word) k \<longleftrightarrow> k < LENGTH('b) \<and> bit w (n + k)"
  by (auto simp: field_def bit_simps)

lemma bit_fill [bit_simps]: "bit (fill b :: 'a::len word) k \<longleftrightarrow> b \<and> k < LENGTH('a)"
  by (simp add: fill_def)

type_synonym reg_addr_t = "5 word"
type_synonym csr_addr_t = "12 word"
type_synonym trap_cause_t = "5 word"

section \<open>Encodings\<close>

definition OPCODE_LOAD :: "7 word" where "OPCODE_LOAD = 0b0000011"
definition OPCODE_MISC_MEM :: "7 word" where "OPCODE_MISC_MEM = 0b0001111"
definition OPCODE_OP_IMM :: "7 word" where "OPCODE_OP_IMM = 0b0010011"
definition OPCODE_AUIPC :: "7 word" where "OPCODE_AUIPC = 0b0010111"
definition OPCODE_STORE :: "7 word" where "OPCODE_STORE = 0b0100011"
definition OPCODE_OP :: "7 word" where "OPCODE_OP = 0b0110011"
definition OPCODE_LUI :: "7 word" where "OPCODE_LUI = 0b0110111"
definition OPCODE_BRANCH :: "7 word" where "OPCODE_BRANCH = 0b1100011"
definition OPCODE_JALR :: "7 word" where "OPCODE_JALR = 0b1100111"
definition OPCODE_JAL :: "7 word" where "OPCODE_JAL = 0b1101111"
definition OPCODE_SYSTEM :: "7 word" where "OPCODE_SYSTEM = 0b1110011"

lemmas opcode_defs = OPCODE_LOAD_def OPCODE_MISC_MEM_def OPCODE_OP_IMM_def OPCODE_AUIPC_def OPCODE_STORE_def
  OPCODE_OP_def OPCODE_LUI_def OPCODE_BRANCH_def OPCODE_JALR_def OPCODE_JAL_def OPCODE_SYSTEM_def

definition FUNCT7_BASE :: "7 word" where "FUNCT7_BASE = 0b0000000"
definition FUNCT7_SUB_SRA :: "7 word" where "FUNCT7_SUB_SRA = 0b0100000"
definition FUNCT7_M :: "7 word" where "FUNCT7_M = 0b0000001"

lemmas funct7_defs = FUNCT7_BASE_def FUNCT7_SUB_SRA_def FUNCT7_M_def

definition INSN_ECALL :: u32 where "INSN_ECALL = 0x00000073"
definition INSN_EBREAK :: u32 where "INSN_EBREAK = 0x00100073"
definition INSN_MRET :: u32 where "INSN_MRET = 0x30200073"
definition INSN_WFI :: u32 where "INSN_WFI = 0x10500073"

lemmas insn_defs = INSN_ECALL_def INSN_EBREAK_def INSN_MRET_def INSN_WFI_def

section \<open>Datapath and decode controls\<close>

datatype alu_op_e = ALU_NONE | ALU_ADD | ALU_SUB | ALU_SLL | ALU_SRL | ALU_SRA | ALU_SLT | ALU_SLTU | ALU_XOR | ALU_OR | ALU_AND
datatype imm_sel_e = IMM_NONE | IMM_I | IMM_S | IMM_B | IMM_U | IMM_J
datatype op_a_sel_e = OP_A_RS1 | OP_A_PC | OP_A_ZERO
datatype op_b_sel_e = OP_B_RS2 | OP_B_IMM
datatype wb_sel_e = WB_EX_RESULT | WB_LOAD | WB_PC4 | WB_CSR
datatype branch_e = BR_NONE | BR_BEQ | BR_BNE | BR_BLT | BR_BGE | BR_BLTU | BR_BGEU | BR_JAL | BR_JALR
datatype mem_cmd_e = MEM_NONE | MEM_LOAD | MEM_STORE
datatype mem_size_e = MEM_BYTE | MEM_HALF | MEM_WORD
datatype mdu_op_e = MDU_NONE | MDU_MUL | MDU_MULH | MDU_MULHSU | MDU_MULHU | MDU_DIV | MDU_DIVU | MDU_REM | MDU_REMU
datatype csr_cmd_e = CSR_NONE | CSR_RW | CSR_RS | CSR_RC | CSR_RWI | CSR_RSI | CSR_RCI
datatype fwd_sel_e = FWD_REGFILE | FWD_EX_MEM | FWD_MEM_WB

section \<open>Control and status registers\<close>

definition CSR_MSTATUS :: csr_addr_t where "CSR_MSTATUS = 0x300"
definition CSR_MISA :: csr_addr_t where "CSR_MISA = 0x301"
definition CSR_MIE :: csr_addr_t where "CSR_MIE = 0x304"
definition CSR_MTVEC :: csr_addr_t where "CSR_MTVEC = 0x305"
definition CSR_MSCRATCH :: csr_addr_t where "CSR_MSCRATCH = 0x340"
definition CSR_MEPC :: csr_addr_t where "CSR_MEPC = 0x341"
definition CSR_MCAUSE :: csr_addr_t where "CSR_MCAUSE = 0x342"
definition CSR_MTVAL :: csr_addr_t where "CSR_MTVAL = 0x343"
definition CSR_MIP :: csr_addr_t where "CSR_MIP = 0x344"
definition CSR_MCYCLE :: csr_addr_t where "CSR_MCYCLE = 0xb00"
definition CSR_MINSTRET :: csr_addr_t where "CSR_MINSTRET = 0xb02"
definition CSR_MCYCLEH :: csr_addr_t where "CSR_MCYCLEH = 0xb80"
definition CSR_MINSTRETH :: csr_addr_t where "CSR_MINSTRETH = 0xb82"
definition CSR_MVENDORID :: csr_addr_t where "CSR_MVENDORID = 0xf11"
definition CSR_MARCHID :: csr_addr_t where "CSR_MARCHID = 0xf12"
definition CSR_MIMPID :: csr_addr_t where "CSR_MIMPID = 0xf13"
definition CSR_MHARTID :: csr_addr_t where "CSR_MHARTID = 0xf14"
definition CSR_MCONFIGPTR :: csr_addr_t where "CSR_MCONFIGPTR = 0xf15"

lemmas csr_addr_defs = CSR_MSTATUS_def CSR_MISA_def CSR_MIE_def CSR_MTVEC_def CSR_MSCRATCH_def CSR_MEPC_def CSR_MCAUSE_def
  CSR_MTVAL_def CSR_MIP_def CSR_MCYCLE_def CSR_MINSTRET_def CSR_MCYCLEH_def CSR_MINSTRETH_def CSR_MVENDORID_def
  CSR_MARCHID_def CSR_MIMPID_def CSR_MHARTID_def CSR_MCONFIGPTR_def

definition MISA_RV32IM :: u32 where "MISA_RV32IM = 0x40001100"
definition MSTATUS_MPP_M_VALUE :: u32 where "MSTATUS_MPP_M_VALUE = 0x00001800"
definition MSTATUS_WRITABLE_MASK :: u32 where "MSTATUS_WRITABLE_MASK = 0x00000008 OR 0x00000080"
definition MIE_WRITABLE_MASK :: u32 where "MIE_WRITABLE_MASK = 0x00000080"
definition MIP_MTIP_MASK :: u32 where "MIP_MTIP_MASK = 0x00000080"
definition MCAUSE_INTERRUPT_MASK :: u32 where "MCAUSE_INTERRUPT_MASK = 0x80000000"
definition MCAUSE_CODE_MASK :: u32 where "MCAUSE_CODE_MASK = 0x0000001f"
definition IRQ_M_TIMER_CAUSE :: trap_cause_t where "IRQ_M_TIMER_CAUSE = 7"

definition EXC_INST_ADDR_MISALIGNED :: trap_cause_t where "EXC_INST_ADDR_MISALIGNED = 0"
definition EXC_INST_ACCESS_FAULT :: trap_cause_t where "EXC_INST_ACCESS_FAULT = 1"
definition EXC_ILLEGAL_INSN :: trap_cause_t where "EXC_ILLEGAL_INSN = 2"
definition EXC_BREAKPOINT :: trap_cause_t where "EXC_BREAKPOINT = 3"
definition EXC_LOAD_ADDR_MISALIGNED :: trap_cause_t where "EXC_LOAD_ADDR_MISALIGNED = 4"
definition EXC_LOAD_ACCESS_FAULT :: trap_cause_t where "EXC_LOAD_ACCESS_FAULT = 5"
definition EXC_STORE_ADDR_MISALIGNED :: trap_cause_t where "EXC_STORE_ADDR_MISALIGNED = 6"
definition EXC_STORE_ACCESS_FAULT :: trap_cause_t where "EXC_STORE_ACCESS_FAULT = 7"
definition EXC_ECALL_M :: trap_cause_t where "EXC_ECALL_M = 11"

section \<open>Packets\<close>

record exc_t =
  exc_valid :: bool
  exc_irq :: bool
  exc_cause :: trap_cause_t
  exc_tval :: u32

definition no_exc :: exc_t where
  "no_exc = \<lparr>exc_valid = False, exc_irq = False, exc_cause = 0, exc_tval = 0\<rparr>"

definition exception :: "trap_cause_t \<Rightarrow> u32 \<Rightarrow> exc_t" where
  "exception c v = \<lparr>exc_valid = True, exc_irq = False, exc_cause = c, exc_tval = v\<rparr>"

lemma no_exc_sel [simp]: "\<not> exc_valid no_exc" "\<not> exc_irq no_exc" "exc_cause no_exc = 0" "exc_tval no_exc = 0"
  by (simp_all add: no_exc_def)

lemma exception_sel [simp]:
  "exc_valid (exception c v)" "\<not> exc_irq (exception c v)" "exc_cause (exception c v) = c" "exc_tval (exception c v) = v"
  by (simp_all add: exception_def)

record decode_ctrl_t =
  uses_rs1 :: bool
  uses_rs2 :: bool
  reg_write :: bool
  alu_op :: alu_op_e
  op_a_sel :: op_a_sel_e
  op_b_sel :: op_b_sel_e
  wb_sel :: wb_sel_e
  branch_kind :: branch_e
  mem_cmd :: mem_cmd_e
  mem_size :: mem_size_e
  load_unsigned :: bool
  mdu_op :: mdu_op_e
  csr_cmd :: csr_cmd_e
  is_mret :: bool
  is_fence :: bool

definition no_ctrl :: decode_ctrl_t where
  "no_ctrl = \<lparr>uses_rs1 = False, uses_rs2 = False, reg_write = False, alu_op = ALU_NONE, op_a_sel = OP_A_RS1,
     op_b_sel = OP_B_RS2, wb_sel = WB_EX_RESULT, branch_kind = BR_NONE, mem_cmd = MEM_NONE, mem_size = MEM_BYTE,
     load_unsigned = False, mdu_op = MDU_NONE, csr_cmd = CSR_NONE, is_mret = False, is_fence = False\<rparr>"

lemma no_ctrl_sel [simp]:
  "\<not> uses_rs1 no_ctrl" "\<not> uses_rs2 no_ctrl" "\<not> reg_write no_ctrl" "alu_op no_ctrl = ALU_NONE" "op_a_sel no_ctrl = OP_A_RS1"
  "op_b_sel no_ctrl = OP_B_RS2" "wb_sel no_ctrl = WB_EX_RESULT" "branch_kind no_ctrl = BR_NONE" "mem_cmd no_ctrl = MEM_NONE"
  "mem_size no_ctrl = MEM_BYTE" "\<not> load_unsigned no_ctrl" "mdu_op no_ctrl = MDU_NONE" "csr_cmd no_ctrl = CSR_NONE"
  "\<not> is_mret no_ctrl" "\<not> is_fence no_ctrl"
  by (simp_all add: no_ctrl_def)

end
