(* ===== verification/Core_Isa.thy ===== *)
theory Core_Isa
  imports Core_Pkg "HOL-Library.Signed_Division"
begin

text \<open>
  The instruction set the processor implements, as its manual states it and independently of the RTL: the
  instructions of RV32I, the M extension, Zicsr and the machine-mode part of the privileged
  set, their encodings and their results. This is the specification the core theories refine.
\<close>

section \<open>Instructions\<close>

datatype bcond = Beq | Bne | Blt | Bge | Bltu | Bgeu
datatype lwidth = Lb | Lh | Lw | Lbu | Lhu
datatype swidth = Sb | Sh | Sw
datatype iop = Addi | Slti | Sltiu | Xori | Ori | Andi
datatype shop = Slli | Srli | Srai
datatype rop = Add | Sub | Sll | Slt | Sltu | Xor | Srl | Sra | Or | And
datatype mop = Mul | Mulh | Mulhsu | Mulhu | Div | Divu | Rem | Remu
datatype cop = Csrrw | Csrrs | Csrrc | Csrrwi | Csrrsi | Csrrci

text \<open>
  Operands are in the order destination, sources, immediate. The immediate is the field of the
  encoding: signed, in units of two bytes for \<open>JAL\<close> and \<open>BRANCH\<close>, the upper 20 bits for \<open>LUI\<close> and
  \<open>AUIPC\<close>. The middle operand of a CSR instruction is a register or a 5-bit constant. The unused fields of \<open>FENCE\<close> are free.
\<close>

datatype instr =
    LUI reg_addr_t "20 word"
  | AUIPC reg_addr_t "20 word"
  | JAL reg_addr_t "20 word"
  | JALR reg_addr_t reg_addr_t "12 word"
  | BRANCH bcond reg_addr_t reg_addr_t "12 word"
  | LOAD lwidth reg_addr_t reg_addr_t "12 word"
  | STORE swidth reg_addr_t reg_addr_t "12 word"
  | OPIMM iop reg_addr_t reg_addr_t "12 word"
  | SHIFT shop reg_addr_t reg_addr_t "5 word"
  | OP rop reg_addr_t reg_addr_t reg_addr_t
  | MULDIV mop reg_addr_t reg_addr_t reg_addr_t
  | FENCE reg_addr_t reg_addr_t "12 word"
  | ECALL
  | EBREAK
  | MRET
  | WFI
  | CSR cop reg_addr_t reg_addr_t csr_addr_t

section \<open>Encoding\<close>

definition insn_word :: "7 word \<Rightarrow> reg_addr_t \<Rightarrow> reg_addr_t \<Rightarrow> 3 word \<Rightarrow> reg_addr_t \<Rightarrow> 7 word \<Rightarrow> u32" where
  "insn_word f7 rs2 rs1 f3 rd opc =
     push_bit 25 (ucast f7) OR push_bit 20 (ucast rs2) OR push_bit 15 (ucast rs1) OR push_bit 12 (ucast f3) OR
     push_bit 7 (ucast rd) OR ucast opc"

definition i_word :: "12 word \<Rightarrow> reg_addr_t \<Rightarrow> 3 word \<Rightarrow> reg_addr_t \<Rightarrow> 7 word \<Rightarrow> u32" where
  "i_word imm rs1 f3 rd opc = insn_word (field 5 imm) (field 0 imm) rs1 f3 rd opc"

definition s_word :: "12 word \<Rightarrow> reg_addr_t \<Rightarrow> reg_addr_t \<Rightarrow> 3 word \<Rightarrow> 7 word \<Rightarrow> u32" where
  "s_word imm rs2 rs1 f3 opc = insn_word (field 5 imm) rs2 rs1 f3 (field 0 imm) opc"

text \<open>A branch offset has bit 11 (of the offset in bytes) in the place of bit 0.\<close>

definition b_word :: "12 word \<Rightarrow> reg_addr_t \<Rightarrow> reg_addr_t \<Rightarrow> 3 word \<Rightarrow> 7 word \<Rightarrow> u32" where
  "b_word off rs2 rs1 f3 opc =
     insn_word (word_cat (field 11 off :: 1 word) (field 4 off :: 6 word)) rs2 rs1 f3
       (word_cat (field 0 off :: 4 word) (field 10 off :: 1 word)) opc"

definition u_word :: "20 word \<Rightarrow> reg_addr_t \<Rightarrow> 7 word \<Rightarrow> u32" where
  "u_word imm rd opc = insn_word (field 13 imm) (field 8 imm) (field 3 imm) (field 0 imm) rd opc"

definition j_word :: "20 word \<Rightarrow> reg_addr_t \<Rightarrow> 7 word \<Rightarrow> u32" where
  "j_word off rd opc =
     u_word (word_cat (field 19 off :: 1 word) (word_cat (field 0 off :: 10 word)
       (word_cat (field 10 off :: 1 word) (field 11 off :: 8 word) :: 9 word) :: 19 word)) rd opc"

primrec bcond_f3 :: "bcond \<Rightarrow> 3 word" where
  "bcond_f3 Beq = 0" | "bcond_f3 Bne = 1" | "bcond_f3 Blt = 4" | "bcond_f3 Bge = 5" | "bcond_f3 Bltu = 6" | "bcond_f3 Bgeu = 7"

primrec lwidth_f3 :: "lwidth \<Rightarrow> 3 word" where
  "lwidth_f3 Lb = 0" | "lwidth_f3 Lh = 1" | "lwidth_f3 Lw = 2" | "lwidth_f3 Lbu = 4" | "lwidth_f3 Lhu = 5"

primrec swidth_f3 :: "swidth \<Rightarrow> 3 word" where
  "swidth_f3 Sb = 0" | "swidth_f3 Sh = 1" | "swidth_f3 Sw = 2"

primrec iop_f3 :: "iop \<Rightarrow> 3 word" where
  "iop_f3 Addi = 0" | "iop_f3 Slti = 2" | "iop_f3 Sltiu = 3" | "iop_f3 Xori = 4" | "iop_f3 Ori = 6" | "iop_f3 Andi = 7"

primrec shop_f :: "shop \<Rightarrow> 7 word \<times> 3 word" where
  "shop_f Slli = (0, 1)" | "shop_f Srli = (0, 5)" | "shop_f Srai = (0x20, 5)"

primrec rop_f :: "rop \<Rightarrow> 7 word \<times> 3 word" where
  "rop_f Add = (0, 0)" | "rop_f Sub = (0x20, 0)" | "rop_f Sll = (0, 1)" | "rop_f Slt = (0, 2)" | "rop_f Sltu = (0, 3)"
| "rop_f Xor = (0, 4)" | "rop_f Srl = (0, 5)" | "rop_f Sra = (0x20, 5)" | "rop_f Or = (0, 6)" | "rop_f And = (0, 7)"

primrec mop_f3 :: "mop \<Rightarrow> 3 word" where
  "mop_f3 Mul = 0" | "mop_f3 Mulh = 1" | "mop_f3 Mulhsu = 2" | "mop_f3 Mulhu = 3"
| "mop_f3 Div = 4" | "mop_f3 Divu = 5" | "mop_f3 Rem = 6" | "mop_f3 Remu = 7"

primrec cop_f3 :: "cop \<Rightarrow> 3 word" where
  "cop_f3 Csrrw = 1" | "cop_f3 Csrrs = 2" | "cop_f3 Csrrc = 3" | "cop_f3 Csrrwi = 5" | "cop_f3 Csrrsi = 6" | "cop_f3 Csrrci = 7"

primrec encode :: "instr \<Rightarrow> u32" where
  "encode (LUI rd imm) = u_word imm rd 0x37"
| "encode (AUIPC rd imm) = u_word imm rd 0x17"
| "encode (JAL rd off) = j_word off rd 0x6f"
| "encode (JALR rd rs1 imm) = i_word imm rs1 0 rd 0x67"
| "encode (BRANCH c rs1 rs2 off) = b_word off rs2 rs1 (bcond_f3 c) 0x63"
| "encode (LOAD w rd rs1 imm) = i_word imm rs1 (lwidth_f3 w) rd 0x03"
| "encode (STORE w rs2 rs1 imm) = s_word imm rs2 rs1 (swidth_f3 w) 0x23"
| "encode (OPIMM f rd rs1 imm) = i_word imm rs1 (iop_f3 f) rd 0x13"
| "encode (SHIFT f rd rs1 n) = insn_word (fst (shop_f f)) n rs1 (snd (shop_f f)) rd 0x13"
| "encode (OP f rd rs1 rs2) = insn_word (fst (rop_f f)) rs2 rs1 (snd (rop_f f)) rd 0x33"
| "encode (MULDIV f rd rs1 rs2) = insn_word 1 rs2 rs1 (mop_f3 f) rd 0x33"
| "encode (FENCE rd rs1 x) = i_word x rs1 0 rd 0x0f"
| "encode ECALL = i_word 0 0 0 0 0x73"
| "encode EBREAK = i_word 1 0 0 0 0x73"
| "encode MRET = i_word 0x302 0 0 0 0x73"
| "encode WFI = i_word 0x105 0 0 0 0x73"
| "encode (CSR f rd x a) = i_word a x (cop_f3 f) rd 0x73"

section \<open>Results\<close>

text \<open>A shift uses the low five bits of the amount. The manual's division rounds towards zero.\<close>

definition amount :: "u32 \<Rightarrow> nat" where "amount b = unat b mod 32"

primrec rop_value :: "rop \<Rightarrow> u32 \<Rightarrow> u32 \<Rightarrow> u32" where
  "rop_value Add a b = a + b"
| "rop_value Sub a b = a - b"
| "rop_value Sll a b = of_nat (unat a * 2 ^ amount b)"
| "rop_value Slt a b = of_bool (sint a < sint b)"
| "rop_value Sltu a b = of_bool (unat a < unat b)"
| "rop_value Xor a b = a XOR b"
| "rop_value Srl a b = of_nat (unat a div 2 ^ amount b)"
| "rop_value Sra a b = of_int (sint a div 2 ^ amount b)"
| "rop_value Or a b = a OR b"
| "rop_value And a b = a AND b"

primrec iop_rop :: "iop \<Rightarrow> rop" where
  "iop_rop Addi = Add" | "iop_rop Slti = Slt" | "iop_rop Sltiu = Sltu" | "iop_rop Xori = Xor" | "iop_rop Ori = Or"
| "iop_rop Andi = And"

primrec shop_rop :: "shop \<Rightarrow> rop" where
  "shop_rop Slli = Sll" | "shop_rop Srli = Srl" | "shop_rop Srai = Sra"

primrec mop_value :: "mop \<Rightarrow> u32 \<Rightarrow> u32 \<Rightarrow> u32" where
  "mop_value Mul a b = of_int (sint a * sint b)"
| "mop_value Mulh a b = of_int (sint a * sint b div 2 ^ 32)"
| "mop_value Mulhsu a b = of_int (sint a * uint b div 2 ^ 32)"
| "mop_value Mulhu a b = of_int (uint a * uint b div 2 ^ 32)"
| "mop_value Div a b = (if b = 0 then -1 else of_int (sint a sdiv sint b))"
| "mop_value Divu a b = (if b = 0 then -1 else of_int (uint a div uint b))"
| "mop_value Rem a b = (if b = 0 then a else of_int (sint a smod sint b))"
| "mop_value Remu a b = (if b = 0 then a else of_int (uint a mod uint b))"

primrec bcond_holds :: "bcond \<Rightarrow> u32 \<Rightarrow> u32 \<Rightarrow> bool" where
  "bcond_holds Beq a b \<longleftrightarrow> a = b"
| "bcond_holds Bne a b \<longleftrightarrow> a \<noteq> b"
| "bcond_holds Blt a b \<longleftrightarrow> sint a < sint b"
| "bcond_holds Bge a b \<longleftrightarrow> sint b \<le> sint a"
| "bcond_holds Bltu a b \<longleftrightarrow> unat a < unat b"
| "bcond_holds Bgeu a b \<longleftrightarrow> unat b \<le> unat a"

text \<open>An immediate as a 32-bit value, and a loaded value from its bytes.\<close>

definition simm :: "12 word \<Rightarrow> u32" where "simm imm = of_int (sint imm)"
definition uimm :: "20 word \<Rightarrow> u32" where "uimm imm = of_nat (unat imm * 2 ^ 12)"
definition offset :: "'a::len word \<Rightarrow> u32" where "offset off = of_int (2 * sint off)"

primrec lwidth_bytes :: "lwidth \<Rightarrow> nat" where
  "lwidth_bytes Lb = 1" | "lwidth_bytes Lh = 2" | "lwidth_bytes Lw = 4" | "lwidth_bytes Lbu = 1" | "lwidth_bytes Lhu = 2"

primrec swidth_bytes :: "swidth \<Rightarrow> nat" where
  "swidth_bytes Sb = 1" | "swidth_bytes Sh = 2" | "swidth_bytes Sw = 4"

text \<open>
  What an instruction does at \<open>pc\<close> when its source registers hold \<open>a\<close> and \<open>b\<close>: it raises an exception, writes a
  register (or not) and goes on at an address, accesses memory or a CSR, or returns from a trap. A transfer of
  control that is taken to an address that is no multiple of four raises an exception.
\<close>

datatype effect =
    Trap trap_cause_t u32
  | Next "(reg_addr_t \<times> u32) option" u32
  | LoadFrom lwidth reg_addr_t u32
  | StoreTo swidth u32 u32
  | CsrAccess cop reg_addr_t csr_addr_t reg_addr_t u32
  | TrapReturn

definition go_to :: "(reg_addr_t \<times> u32) option \<Rightarrow> u32 \<Rightarrow> effect" where
  "go_to r target = (if unat target mod 4 = 0 then Next r target else Trap EXC_INST_ADDR_MISALIGNED target)"

primrec outcome :: "instr \<Rightarrow> u32 \<Rightarrow> u32 \<Rightarrow> u32 \<Rightarrow> effect" where
  "outcome (LUI rd imm) pc a b = Next (Some (rd, uimm imm)) (pc + 4)"
| "outcome (AUIPC rd imm) pc a b = Next (Some (rd, pc + uimm imm)) (pc + 4)"
| "outcome (JAL rd off) pc a b = go_to (Some (rd, pc + 4)) (pc + offset off)"
| "outcome (JALR rd rs1 imm) pc a b = go_to (Some (rd, pc + 4)) (of_nat (unat (a + simm imm) div 2 * 2))"
| "outcome (BRANCH c rs1 rs2 off) pc a b = (if bcond_holds c a b then go_to None (pc + offset off) else Next None (pc + 4))"
| "outcome (LOAD w rd rs1 imm) pc a b = LoadFrom w rd (a + simm imm)"
| "outcome (STORE w rs2 rs1 imm) pc a b = StoreTo w (a + simm imm) b"
| "outcome (OPIMM f rd rs1 imm) pc a b = Next (Some (rd, rop_value (iop_rop f) a (simm imm))) (pc + 4)"
| "outcome (SHIFT f rd rs1 n) pc a b = Next (Some (rd, rop_value (shop_rop f) a (ucast n))) (pc + 4)"
| "outcome (OP f rd rs1 rs2) pc a b = Next (Some (rd, rop_value f a b)) (pc + 4)"
| "outcome (MULDIV f rd rs1 rs2) pc a b = Next (Some (rd, mop_value f a b)) (pc + 4)"
| "outcome (FENCE rd rs1 x) pc a b = Next None (pc + 4)"
| "outcome ECALL pc a b = Trap EXC_ECALL_M 0"
| "outcome EBREAK pc a b = Trap EXC_BREAKPOINT pc"
| "outcome MRET pc a b = TrapReturn"
| "outcome WFI pc a b = Next None (pc + 4)"
| "outcome (CSR f rd x c) pc a b = CsrAccess f rd c x (if f \<in> {Csrrw, Csrrs, Csrrc} then a else ucast x)"

text \<open>The registers an instruction names; \<open>None\<close> if it has no such operand.\<close>

primrec source1 :: "instr \<Rightarrow> reg_addr_t option" where
  "source1 (LUI rd imm) = None"
| "source1 (AUIPC rd imm) = None"
| "source1 (JAL rd off) = None"
| "source1 (JALR rd rs1 imm) = Some rs1"
| "source1 (BRANCH c rs1 rs2 off) = Some rs1"
| "source1 (LOAD w rd rs1 imm) = Some rs1"
| "source1 (STORE w rs2 rs1 imm) = Some rs1"
| "source1 (OPIMM f rd rs1 imm) = Some rs1"
| "source1 (SHIFT f rd rs1 n) = Some rs1"
| "source1 (OP f rd rs1 rs2) = Some rs1"
| "source1 (MULDIV f rd rs1 rs2) = Some rs1"
| "source1 (FENCE rd rs1 x) = None"
| "source1 ECALL = None"
| "source1 EBREAK = None"
| "source1 MRET = None"
| "source1 WFI = None"
| "source1 (CSR f rd x c) = (if f \<in> {Csrrw, Csrrs, Csrrc} then Some x else None)"

fun source2 :: "instr \<Rightarrow> reg_addr_t option" where
  "source2 (BRANCH c rs1 rs2 off) = Some rs2"
| "source2 (STORE w rs2 rs1 imm) = Some rs2"
| "source2 (OP f rd rs1 rs2) = Some rs2"
| "source2 (MULDIV f rd rs1 rs2) = Some rs2"
| "source2 i = None"

end
