(* ===== verification/Core_Arch.thy ===== *)
theory Core_Arch
  imports Core_Isa Soc_Devices
begin

text \<open>
  The architectural machine: what software sees of the processor. Its state is the program counter, the
  registers and the machine-mode state; one step executes the instruction at the program counter completely, or takes
  the timer interrupt. A step of a load or store has the bus request it makes as its label, and its effect depends on
  the response. Memory itself is outside.
\<close>

section \<open>Machine-mode state\<close>

record mstate =
  m_ie :: bool
  m_pie :: bool
  m_tie :: bool
  m_tvec :: u32
  m_scratch :: u32
  m_epc :: u32
  m_cause :: u32
  m_tval :: u32
  m_instret :: u64

text \<open>
  The values of \<^verbatim>\<open>mcycle\<close> and \<^verbatim>\<open>mip\<close> change with time, not with instructions: a read takes them from the
  environment. A read of an address that is no register gives \<open>None\<close>.
\<close>

definition volatile_csr :: "csr_addr_t \<Rightarrow> bool" where
  "volatile_csr a \<longleftrightarrow> a \<in> {CSR_MCYCLE, CSR_MCYCLEH, CSR_MIP}"

definition mstatus_word :: "bool \<Rightarrow> bool \<Rightarrow> u32" where
  "mstatus_word pie ie = of_nat (2 ^ 12 + 2 ^ 11 + 2 ^ 7 * of_bool pie + 2 ^ 3 * of_bool ie)"

definition mie_word :: "bool \<Rightarrow> u32" where
  "mie_word tie = of_nat (2 ^ 7 * of_bool tie)"

definition read_csr :: "(csr_addr_t \<Rightarrow> u32) \<Rightarrow> mstate \<Rightarrow> csr_addr_t \<Rightarrow> u32 option" where
  "read_csr env m a =
     (if volatile_csr a then Some (env a)
      else if a = CSR_MSTATUS then Some (mstatus_word (m_pie m) (m_ie m))
      else if a = CSR_MISA then Some MISA_RV32IM
      else if a = CSR_MIE then Some (mie_word (m_tie m))
      else if a = CSR_MTVEC then Some (m_tvec m)
      else if a = CSR_MSCRATCH then Some (m_scratch m)
      else if a = CSR_MEPC then Some (m_epc m)
      else if a = CSR_MCAUSE then Some (m_cause m)
      else if a = CSR_MTVAL then Some (m_tval m)
      else if a = CSR_MINSTRET then Some (lo32 (m_instret m))
      else if a = CSR_MINSTRETH then Some (hi32 (m_instret m))
      else if a \<in> {CSR_MVENDORID, CSR_MARCHID, CSR_MIMPID, CSR_MHARTID, CSR_MCONFIGPTR} then Some 0
      else None)"

text \<open>An address whose top two bits are set is read-only.\<close>

definition read_only_csr :: "csr_addr_t \<Rightarrow> bool" where
  "read_only_csr a \<longleftrightarrow> bit a 11 \<and> bit a 10"

text \<open>Addresses are kept as multiples of four; a cause has the interrupt flag and five bits of code.\<close>

definition word_aligned :: "u32 \<Rightarrow> u32" where
  "word_aligned v = of_nat (unat v div 4 * 4)"

definition write_csr :: "csr_addr_t \<Rightarrow> u32 \<Rightarrow> mstate \<Rightarrow> mstate" where
  "write_csr a v m =
     (if a = CSR_MSTATUS then m\<lparr>m_ie := bit v 3, m_pie := bit v 7\<rparr>
      else if a = CSR_MIE then m\<lparr>m_tie := bit v 7\<rparr>
      else if a = CSR_MTVEC then m\<lparr>m_tvec := word_aligned v\<rparr>
      else if a = CSR_MSCRATCH then m\<lparr>m_scratch := v\<rparr>
      else if a = CSR_MEPC then m\<lparr>m_epc := word_aligned v\<rparr>
      else if a = CSR_MCAUSE then m\<lparr>m_cause := v AND 0x8000001f\<rparr>
      else if a = CSR_MTVAL then m\<lparr>m_tval := v\<rparr>
      else if a = CSR_MINSTRET then m\<lparr>m_instret := join64 (hi32 (m_instret m)) v\<rparr>
      else if a = CSR_MINSTRETH then m\<lparr>m_instret := join64 v (lo32 (m_instret m))\<rparr>
      else m)"

definition enter_trap :: "bool \<Rightarrow> trap_cause_t \<Rightarrow> u32 \<Rightarrow> u32 \<Rightarrow> mstate \<Rightarrow> mstate" where
  "enter_trap irq cause tval pc m =
     m\<lparr>m_epc := word_aligned pc, m_cause := (if irq then 0x80000000 else 0) OR ucast cause, m_tval := tval,
       m_pie := m_ie m, m_ie := False\<rparr>"

definition leave_trap :: "mstate \<Rightarrow> mstate" where
  "leave_trap m = m\<lparr>m_ie := m_pie m, m_pie := True\<rparr>"

definition retire :: "mstate \<Rightarrow> mstate" where
  "retire m = m\<lparr>m_instret := m_instret m + 1\<rparr>"

section \<open>Instructions\<close>

record arch =
  a_pc :: u32
  a_reg :: "reg_addr_t \<Rightarrow> u32"
  a_m :: mstate

definition get_reg :: "arch \<Rightarrow> reg_addr_t \<Rightarrow> u32" where
  "get_reg s r = (if r = 0 then 0 else a_reg s r)"

definition set_reg :: "reg_addr_t \<Rightarrow> u32 \<Rightarrow> arch \<Rightarrow> arch" where
  "set_reg r v s = (if r = 0 then s else s\<lparr>a_reg := (a_reg s)(r := v)\<rparr>)"

definition operand :: "reg_addr_t option \<Rightarrow> arch \<Rightarrow> u32" where
  "operand r s = (case r of None \<Rightarrow> 0 | Some r \<Rightarrow> get_reg s r)"

definition trap :: "bool \<Rightarrow> trap_cause_t \<Rightarrow> u32 \<Rightarrow> arch \<Rightarrow> arch" where
  "trap irq cause tval s = s\<lparr>a_m := enter_trap irq cause tval (a_pc s) (a_m s), a_pc := m_tvec (a_m s)\<rparr>"

definition advance :: "u32 \<Rightarrow> arch \<Rightarrow> arch" where
  "advance pc s = s\<lparr>a_pc := pc, a_m := retire (a_m s)\<rparr>"

text \<open>After a reset; the registers keep what they had.\<close>

definition arch_reset :: "u32 \<Rightarrow> u32 \<Rightarrow> (reg_addr_t \<Rightarrow> u32) \<Rightarrow> arch" where
  "arch_reset rv tv rf = \<lparr>a_pc = rv, a_reg = rf,
     a_m = \<lparr>m_ie = False, m_pie = False, m_tie = False, m_tvec = word_aligned tv, m_scratch = 0, m_epc = 0, m_cause = 0, m_tval = 0,
       m_instret = 0\<rparr>\<rparr>"

text \<open>
  The bus transfers words: a load asks for the word that holds its bytes, a store drives its bytes and
  marks them in the strobe.
\<close>

definition load_request :: "u32 \<Rightarrow> request" where
  "load_request a = \<lparr>req_write = False, req_addr = word_aligned a, req_wdata = 0, req_wstrb = 0\<rparr>"

definition byte_lanes :: "nat \<Rightarrow> u32 \<Rightarrow> 4 word" where
  "byte_lanes n a = of_nat ((2 ^ n - 1) * 2 ^ (unat a mod 4))"

definition store_request :: "swidth \<Rightarrow> u32 \<Rightarrow> u32 \<Rightarrow> request" where
  "store_request w a v =
     \<lparr>req_write = True, req_addr = word_aligned a,
      req_wdata = of_nat (unat v mod 2 ^ (8 * swidth_bytes w) * 2 ^ (8 * (unat a mod 4))),
      req_wstrb = byte_lanes (swidth_bytes w) a\<rparr>"

definition loaded :: "lwidth \<Rightarrow> u32 \<Rightarrow> u32 \<Rightarrow> u32" where
  "loaded w a rdata =
     (let n = unat rdata div 2 ^ (8 * (unat a mod 4)) mod 2 ^ (8 * lwidth_bytes w)
      in if w \<in> {Lb, Lh} then of_int (signed_take_bit (8 * lwidth_bytes w - 1) (int n)) else of_nat n)"

definition aligned_for :: "nat \<Rightarrow> u32 \<Rightarrow> bool" where
  "aligned_for n a \<longleftrightarrow> unat a mod n = 0"

definition csr_writes :: "cop \<Rightarrow> reg_addr_t \<Rightarrow> bool" where
  "csr_writes f x \<longleftrightarrow> f \<in> {Csrrw, Csrrwi} \<or> x \<noteq> 0"

primrec csr_new :: "cop \<Rightarrow> u32 \<Rightarrow> u32 \<Rightarrow> u32" where
  "csr_new Csrrw old v = v" | "csr_new Csrrs old v = old OR v" | "csr_new Csrrc old v = old AND NOT v"
| "csr_new Csrrwi old v = v" | "csr_new Csrrsi old v = old OR v" | "csr_new Csrrci old v = old AND NOT v"

text \<open>
  An instruction that writes one half of \<^verbatim>\<open>minstret\<close> is not counted itself.
\<close>

definition exec_csr :: "(csr_addr_t \<Rightarrow> u32) \<Rightarrow> u32 \<Rightarrow> cop \<Rightarrow> reg_addr_t \<Rightarrow> csr_addr_t \<Rightarrow> reg_addr_t \<Rightarrow> u32 \<Rightarrow> arch \<Rightarrow> arch" where
  "exec_csr env insn f rd c x v s =
     (case read_csr env (a_m s) c of
        None \<Rightarrow> trap False EXC_ILLEGAL_INSN insn s
      | Some old \<Rightarrow>
          if csr_writes f x \<and> read_only_csr c then trap False EXC_ILLEGAL_INSN insn s
          else let s' = set_reg rd old (s\<lparr>a_pc := a_pc s + 4\<rparr>);
                   counted = (if csr_writes f x \<and> c \<in> {CSR_MINSTRET, CSR_MINSTRETH} then a_m s else retire (a_m s))
               in s'\<lparr>a_m := if csr_writes f x then write_csr c (csr_new f old v) counted else counted\<rparr>)"

text \<open>The complete execution of an instruction: the bus request, if any, and the new state.\<close>

definition exec :: "(csr_addr_t \<Rightarrow> u32) \<Rightarrow> instr \<Rightarrow> response \<Rightarrow> arch \<Rightarrow> request option \<times> arch" where
  "exec env i rsp s =
     (case outcome i (a_pc s) (operand (source1 i) s) (operand (source2 i) s) of
        Trap c v \<Rightarrow> (None, trap False c v s)
      | Next None pc \<Rightarrow> (None, advance pc s)
      | Next (Some (rd, v)) pc \<Rightarrow> (None, set_reg rd v (advance pc s))
      | LoadFrom w rd a \<Rightarrow>
          if \<not> aligned_for (lwidth_bytes w) a then (None, trap False EXC_LOAD_ADDR_MISALIGNED a s)
          else (Some (load_request a),
                if rsp_err rsp then trap False EXC_LOAD_ACCESS_FAULT a s
                else set_reg rd (loaded w a (rsp_rdata rsp)) (advance (a_pc s + 4) s))
      | StoreTo w a v \<Rightarrow>
          if \<not> aligned_for (swidth_bytes w) a then (None, trap False EXC_STORE_ADDR_MISALIGNED a s)
          else (Some (store_request w a v),
                if rsp_err rsp then trap False EXC_STORE_ACCESS_FAULT a s else advance (a_pc s + 4) s)
      | CsrAccess f rd c x v \<Rightarrow> (None, exec_csr env (encode i) f rd c x v s)
      | TrapReturn \<Rightarrow> (None, (advance (m_epc (a_m s)) s)\<lparr>a_m := leave_trap (retire (a_m s))\<rparr>))"

section \<open>Steps\<close>

text \<open>
  \<open>im\<close> is what a fetch finds at each address, \<open>None\<close> for an access fault. The label of a step is the
  bus access it makes.
\<close>

inductive arch_step :: "(u32 \<Rightarrow> u32 option) \<Rightarrow> arch \<Rightarrow> (request \<times> response) option \<Rightarrow> arch \<Rightarrow> bool" for im where
  step_exec: "im (a_pc s) = Some (encode i) \<Longrightarrow> exec env i rsp s = (q, s') \<Longrightarrow>
    arch_step im s (map_option (\<lambda>q. (q, rsp)) q) s'"
| step_illegal: "im (a_pc s) = Some w \<Longrightarrow> w \<notin> range encode \<Longrightarrow> arch_step im s None (trap False EXC_ILLEGAL_INSN w s)"
| step_fault: "im (a_pc s) = None \<Longrightarrow> arch_step im s None (trap False EXC_INST_ACCESS_FAULT (a_pc s) s)"
| step_interrupt: "m_ie (a_m s) \<Longrightarrow> m_tie (a_m s) \<Longrightarrow> arch_step im s None (trap True IRQ_M_TIMER_CAUSE 0 s)"

end
