(* ===== verification/Core_Csr.thy ===== *)
theory Core_Csr
  imports Core_Arch
begin

text \<open>
  The machine-mode register file, \<^verbatim>\<open>csr_file.sv\<close>, and that it keeps the machine-mode state of the
  architecture.
\<close>

section \<open>State\<close>

record csr_file =
  mstatus_q :: u32
  mie_q :: u32
  mtvec_q :: u32
  mscratch_q :: u32
  mepc_q :: u32
  mcause_q :: u32
  mtval_q :: u32
  mcycle_q :: u64
  minstret_q :: u64

definition csr_reset :: "u32 \<Rightarrow> csr_file" where
  "csr_reset trap_vector =
     \<lparr>mstatus_q = MSTATUS_MPP_M_VALUE, mie_q = 0, mtvec_q = word_cat (field 2 trap_vector :: 30 word) (0 :: 2 word),
      mscratch_q = 0, mepc_q = 0, mcause_q = 0, mtval_q = 0, mcycle_q = 0, minstret_q = 0\<rparr>"

definition mip_value :: "bool \<Rightarrow> u32" where
  "mip_value tip = (if tip then MIP_MTIP_MASK else 0)"

section \<open>Reads\<close>

definition access_cmd_writes :: "csr_cmd_e \<Rightarrow> bool \<Rightarrow> bool" where
  "access_cmd_writes cmd access_write =
     (case cmd of CSR_NONE \<Rightarrow> False | CSR_RW \<Rightarrow> True | CSR_RWI \<Rightarrow> True | _ \<Rightarrow> access_write)"

text \<open>The value of a register, whether the address is implemented, and whether it can be written.\<close>

definition csr_table :: "bool \<Rightarrow> csr_file \<Rightarrow> csr_addr_t \<Rightarrow> u32 \<times> bool \<times> bool" where
  "csr_table tip f a =
     (if a = CSR_MSTATUS then (mstatus_q f, True, True)
      else if a = CSR_MISA then (MISA_RV32IM, True, True)
      else if a = CSR_MIE then (mie_q f, True, True)
      else if a = CSR_MTVEC then (mtvec_q f, True, True)
      else if a = CSR_MSCRATCH then (mscratch_q f, True, True)
      else if a = CSR_MEPC then (mepc_q f, True, True)
      else if a = CSR_MCAUSE then (mcause_q f, True, True)
      else if a = CSR_MTVAL then (mtval_q f, True, True)
      else if a = CSR_MIP then (mip_value tip, True, True)
      else if a = CSR_MCYCLE then (lo32 (mcycle_q f), True, True)
      else if a = CSR_MCYCLEH then (hi32 (mcycle_q f), True, True)
      else if a = CSR_MINSTRET then (lo32 (minstret_q f), True, True)
      else if a = CSR_MINSTRETH then (hi32 (minstret_q f), True, True)
      else if a \<in> {CSR_MVENDORID, CSR_MARCHID, CSR_MIMPID, CSR_MHARTID, CSR_MCONFIGPTR} then (0, True, False)
      else (0, False, False))"

definition csr_rdata :: "bool \<Rightarrow> csr_file \<Rightarrow> csr_addr_t \<Rightarrow> u32" where
  "csr_rdata tip f a = fst (csr_table tip f a)"

definition csr_access_illegal :: "csr_file \<Rightarrow> csr_addr_t \<Rightarrow> csr_cmd_e \<Rightarrow> bool \<Rightarrow> bool" where
  "csr_access_illegal f a cmd access_write =
     (let (_, implemented, writable) = csr_table False f a
      in cmd \<noteq> CSR_NONE \<and> (\<not> implemented \<or> access_cmd_writes cmd access_write \<and> \<not> writable))"

section \<open>Commit\<close>

record csr_in =
  commit_write :: bool
  commit_waddr :: csr_addr_t
  commit_wdata :: u32
  retire_i :: bool
  mret_commit :: bool
  trap_valid :: bool
  trap_pc :: u32
  trap_is_interrupt :: bool
  trap_cause :: trap_cause_t
  trap_tval :: u32

definition set_bit_to :: "nat \<Rightarrow> bool \<Rightarrow> u32 \<Rightarrow> u32" where
  "set_bit_to n b w = (if b then set_bit n w else unset_bit n w)"

definition csr_count :: "csr_in \<Rightarrow> csr_file \<Rightarrow> csr_file" where
  "csr_count i f =
     f\<lparr>mcycle_q := mcycle_q f + 1,
       minstret_q := (if retire_i i \<and> \<not> trap_valid i then minstret_q f + 1 else minstret_q f)\<rparr>"

definition csr_trap :: "csr_in \<Rightarrow> csr_file \<Rightarrow> csr_file \<Rightarrow> csr_file" where
  "csr_trap i f d =
     d\<lparr>mepc_q := trap_pc i AND 0xfffffffc,
       mcause_q := (if trap_is_interrupt i then MCAUSE_INTERRUPT_MASK else 0) OR ucast (trap_cause i),
       mtval_q := trap_tval i,
       mstatus_q := set_bit_to 12 True (set_bit_to 11 True (set_bit_to 3 False (set_bit_to 7 (bit (mstatus_q f) 3) (mstatus_q d))))\<rparr>"

definition csr_mret :: "csr_file \<Rightarrow> csr_file \<Rightarrow> csr_file" where
  "csr_mret f d =
     d\<lparr>mstatus_q := set_bit_to 12 True (set_bit_to 11 True (set_bit_to 7 True (set_bit_to 3 (bit (mstatus_q f) 7) (mstatus_q d))))\<rparr>"

definition csr_write :: "csr_addr_t \<Rightarrow> u32 \<Rightarrow> csr_file \<Rightarrow> csr_file \<Rightarrow> csr_file" where
  "csr_write a v f d0 =
     (let d1 = (if a = CSR_MCYCLE \<or> a = CSR_MCYCLEH then d0\<lparr>mcycle_q := mcycle_q f\<rparr> else d0);
          d = (if a = CSR_MINSTRET \<or> a = CSR_MINSTRETH then d1\<lparr>minstret_q := minstret_q f\<rparr> else d1)
      in if a = CSR_MISA then d
         else if a = CSR_MSTATUS then d\<lparr>mstatus_q := MSTATUS_MPP_M_VALUE OR (v AND MSTATUS_WRITABLE_MASK)\<rparr>
         else if a = CSR_MIE then d\<lparr>mie_q := v AND MIE_WRITABLE_MASK\<rparr>
         else if a = CSR_MTVEC then d\<lparr>mtvec_q := word_cat (field 2 v :: 30 word) (0 :: 2 word)\<rparr>
         else if a = CSR_MSCRATCH then d\<lparr>mscratch_q := v\<rparr>
         else if a = CSR_MEPC then d\<lparr>mepc_q := word_cat (field 2 v :: 30 word) (0 :: 2 word)\<rparr>
         else if a = CSR_MCAUSE then d\<lparr>mcause_q := v AND (MCAUSE_INTERRUPT_MASK OR MCAUSE_CODE_MASK)\<rparr>
         else if a = CSR_MTVAL then d\<lparr>mtval_q := v\<rparr>
         else if a = CSR_MIP then d
         else if a = CSR_MCYCLE then d\<lparr>mcycle_q := join64 (hi32 (mcycle_q d)) v\<rparr>
         else if a = CSR_MCYCLEH then d\<lparr>mcycle_q := join64 v (lo32 (mcycle_q d))\<rparr>
         else if a = CSR_MINSTRET then d\<lparr>minstret_q := join64 (hi32 (minstret_q d)) v\<rparr>
         else if a = CSR_MINSTRETH then d\<lparr>minstret_q := join64 v (lo32 (minstret_q d))\<rparr>
         else d)"

definition csr_normalise :: "csr_file \<Rightarrow> csr_file" where
  "csr_normalise d =
     d\<lparr>mstatus_q := MSTATUS_MPP_M_VALUE OR (mstatus_q d AND MSTATUS_WRITABLE_MASK), mie_q := mie_q d AND MIE_WRITABLE_MASK\<rparr>"

text \<open>Trap entry goes before a return, and that before a write.\<close>

definition csr_next :: "csr_in \<Rightarrow> csr_file \<Rightarrow> csr_file" where
  "csr_next i f =
     (let d = csr_count i f
      in csr_normalise
           (if trap_valid i then csr_trap i f d
            else if mret_commit i then csr_mret f d
            else if commit_write i then csr_write (commit_waddr i) (commit_wdata i) f d else d))"

definition csr_clock :: "bool \<Rightarrow> u32 \<Rightarrow> csr_in \<Rightarrow> csr_file \<Rightarrow> csr_file" where
  "csr_clock rst trap_vector i f = (if rst then csr_reset trap_vector else csr_next i f)"

definition irq_eligible :: "bool \<Rightarrow> csr_file \<Rightarrow> bool" where
  "irq_eligible tip f \<longleftrightarrow> bit (mip_value tip) 7 \<and> bit (mie_q f) 7 \<and> bit (mstatus_q f) 3"

definition irq_eligible_after_commit :: "bool \<Rightarrow> csr_in \<Rightarrow> csr_file \<Rightarrow> bool" where
  "irq_eligible_after_commit tip i f \<longleftrightarrow>
     bit (mip_value tip) 7 \<and> bit (mie_q (csr_next i f)) 7 \<and> bit (mstatus_q (csr_next i f)) 3"

section \<open>The machine-mode state it keeps\<close>

definition csr_ok :: "csr_file \<Rightarrow> bool" where
  "csr_ok f \<longleftrightarrow> mstatus_q f = MSTATUS_MPP_M_VALUE OR (mstatus_q f AND MSTATUS_WRITABLE_MASK) \<and>
     mie_q f = mie_q f AND MIE_WRITABLE_MASK \<and> mtvec_q f AND 3 = 0 \<and> mepc_q f AND 3 = 0"

definition mstate_of :: "csr_file \<Rightarrow> mstate" where
  "mstate_of f =
     \<lparr>m_ie = bit (mstatus_q f) 3, m_pie = bit (mstatus_q f) 7, m_tie = bit (mie_q f) 7, m_tvec = mtvec_q f,
      m_scratch = mscratch_q f, m_epc = mepc_q f, m_cause = mcause_q f, m_tval = mtval_q f, m_instret = minstret_q f\<rparr>"

lemma bit_set_bit_to [bit_simps]: "bit (set_bit_to n b (w :: u32)) k \<longleftrightarrow> (if k = n then b \<and> n < 32 else bit w k)"
  by (auto simp: set_bit_to_def bit_simps dest: bit_imp_le_length)

lemma and_3_zero: "(v :: u32) AND 3 = 0 \<longleftrightarrow> \<not> bit v 0 \<and> \<not> bit v 1"
proof -
  have "v AND 3 = take_bit 2 v" by (simp add: take_bit_eq_mask mask_eq_exp_minus_1)
  moreover have "take_bit 2 v = 0 \<longleftrightarrow> (\<forall>k < 2. \<not> bit v k)"
    by (auto simp: bit_eq_iff bit_take_bit_iff dest: bit_imp_le_length)
  ultimately show ?thesis by (auto simp: numeral_2_eq_2 less_Suc_eq)
qed

lemma word_aligned_push: "word_aligned v = push_bit 2 (drop_bit 2 v)"
  by (simp add: word_aligned_def push_bit_eq_mult drop_bit_eq_div word_arith_nat_div unat_div)

lemma Suc_Suc_minus_2 [simp]: "2 \<le> k \<Longrightarrow> Suc (Suc (k - 2)) = k"
  by simp

lemma bit_word_aligned: "bit (word_aligned v) k \<longleftrightarrow> 2 \<le> k \<and> bit v k"
  unfolding word_aligned_push bit_push_bit_iff bit_drop_bit_eq o_def possible_bit_word
  by (auto dest: bit_imp_le_length)

lemma word_aligned_eqs:
  fixes v :: u32
  shows "word_cat (field 2 v :: 30 word) (0 :: 2 word) = word_aligned v" and "v AND 0xfffffffc = word_aligned v"
proof -
  show "word_cat (field 2 v :: 30 word) (0 :: 2 word) = word_aligned v"
  proof (rule bit_word_eqI)
    fix k assume "k < LENGTH(32)"
    then show "bit (word_cat (field 2 v :: 30 word) (0 :: 2 word) :: u32) k = bit (word_aligned v) k"
      by (cases "2 \<le> k") (auto simp: bit_word_aligned bit_word_cat_iff bit_field)
  qed
  have m: "0xfffffffc = NOT (mask 2 :: u32)" by (simp add: mask_eq_exp_minus_1)
  show "v AND 0xfffffffc = word_aligned v"
    unfolding m by (rule bit_word_eqI) (auto simp: bit_word_aligned bit_and_iff bit_not_iff bit_mask_iff)
qed

lemma mstatus_bits: "bit (MSTATUS_MPP_M_VALUE OR (v AND MSTATUS_WRITABLE_MASK)) k \<longleftrightarrow>
    k = 11 \<or> k = 12 \<or> (k = 3 \<or> k = 7) \<and> bit v k"
proof -
  have m: "MSTATUS_MPP_M_VALUE = push_bit 11 1 OR push_bit 12 1" "MSTATUS_WRITABLE_MASK = push_bit 3 1 OR push_bit 7 1"
    by code_simp+
  show ?thesis unfolding m by (auto simp only: bit_or_iff bit_and_iff bit_push_bit_iff bit_1_iff possible_bit_word) auto
qed

lemma mie_bits: "bit (v AND MIE_WRITABLE_MASK) k \<longleftrightarrow> k = 7 \<and> bit v 7"
proof -
  have m: "MIE_WRITABLE_MASK = push_bit 7 1" by code_simp
  show ?thesis unfolding m by (auto simp only: bit_and_iff bit_push_bit_iff bit_1_iff possible_bit_word) auto
qed

section \<open>Reads\<close>

lemma bit_mstatus_word: "bit (mstatus_word a b) k \<longleftrightarrow> k = 11 \<or> k = 12 \<or> k = 3 \<and> b \<or> k = 7 \<and> a"
proof -
  let ?v = "of_nat (2 ^ 7 * of_bool a + 2 ^ 3 * of_bool b) :: u32"
  have "mstatus_word a b = MSTATUS_MPP_M_VALUE OR (?v AND MSTATUS_WRITABLE_MASK)" "bit ?v 3 = b" "bit ?v 7 = a"
    by (cases a; cases b; simp add: mstatus_word_def MSTATUS_MPP_M_VALUE_def MSTATUS_WRITABLE_MASK_def)+
  then show ?thesis by (auto simp: mstatus_bits)
qed

lemma bit_mie_word: "bit (mie_word a) k \<longleftrightarrow> k = 7 \<and> a"
proof -
  have "mie_word a = mie_word a AND MIE_WRITABLE_MASK" "bit (mie_word a) 7 = a"
    by (cases a; simp add: mie_word_def MIE_WRITABLE_MASK_def)+
  then show ?thesis by (metis mie_bits)
qed

lemma csr_words:
  assumes "csr_ok f"
  shows "mstatus_word (bit (mstatus_q f) 7) (bit (mstatus_q f) 3) = mstatus_q f" "mie_word (bit (mie_q f) 7) = mie_q f"
proof -
  have "bit (mstatus_q f) k \<longleftrightarrow> k = 11 \<or> k = 12 \<or> (k = 3 \<or> k = 7) \<and> bit (mstatus_q f) k"
    "bit (mie_q f) k \<longleftrightarrow> k = 7 \<and> bit (mie_q f) 7" for k
    using assms mstatus_bits [of "mstatus_q f" k] mie_bits [of "mie_q f" k] by (simp_all add: csr_ok_def)
  then have "bit (mstatus_word (bit (mstatus_q f) 7) (bit (mstatus_q f) 3)) k = bit (mstatus_q f) k"
    "bit (mie_word (bit (mie_q f) 7)) k = bit (mie_q f) k" for k
    unfolding bit_mstatus_word bit_mie_word by blast+
  then show "mstatus_word (bit (mstatus_q f) 7) (bit (mstatus_q f) 3) = mstatus_q f" "mie_word (bit (mie_q f) 7) = mie_q f"
    by (auto intro: bit_word_eqI)
qed

text \<open>The addresses are distinct, so that a table is taken apart address by address.\<close>

lemma csr_addr_cases:
  fixes a :: csr_addr_t
  obtains "a = CSR_MSTATUS" | "a = CSR_MISA" | "a = CSR_MIE" | "a = CSR_MTVEC" | "a = CSR_MSCRATCH" | "a = CSR_MEPC" | "a = CSR_MCAUSE"
    | "a = CSR_MTVAL" | "a = CSR_MIP" | "a = CSR_MCYCLE" | "a = CSR_MCYCLEH" | "a = CSR_MINSTRET" | "a = CSR_MINSTRETH"
    | "a \<in> {CSR_MVENDORID, CSR_MARCHID, CSR_MIMPID, CSR_MHARTID, CSR_MCONFIGPTR}"
    | "a \<notin> {CSR_MSTATUS, CSR_MISA, CSR_MIE, CSR_MTVEC, CSR_MSCRATCH, CSR_MEPC, CSR_MCAUSE, CSR_MTVAL, CSR_MIP, CSR_MCYCLE,
        CSR_MCYCLEH, CSR_MINSTRET, CSR_MINSTRETH, CSR_MVENDORID, CSR_MARCHID, CSR_MIMPID, CSR_MHARTID, CSR_MCONFIGPTR}"
  by blast

text \<open>The table reads the state of the architecture, and the addresses it calls writable are those that are not read-only.\<close>

lemma csr_read:
  assumes "csr_ok f"
  shows "read_csr (csr_rdata tip f) (mstate_of f) a = (if fst (snd (csr_table tip f a)) then Some (csr_rdata tip f a) else None)"
  by (cases a rule: csr_addr_cases)
    (simp_all add: read_csr_def csr_table_def csr_rdata_def mstate_of_def volatile_csr_def csr_words [OF assms] csr_addr_defs)

lemma csr_implemented: "fst (snd (csr_table tip f a)) = fst (snd (csr_table tip' f' a))"
  by (simp add: csr_table_def)

lemma read_only_csr_addrs [simp]:
  "\<not> read_only_csr CSR_MSTATUS" "\<not> read_only_csr CSR_MISA" "\<not> read_only_csr CSR_MIE" "\<not> read_only_csr CSR_MTVEC"
  "\<not> read_only_csr CSR_MSCRATCH" "\<not> read_only_csr CSR_MEPC" "\<not> read_only_csr CSR_MCAUSE" "\<not> read_only_csr CSR_MTVAL"
  "\<not> read_only_csr CSR_MIP" "\<not> read_only_csr CSR_MCYCLE" "\<not> read_only_csr CSR_MCYCLEH" "\<not> read_only_csr CSR_MINSTRET"
  "\<not> read_only_csr CSR_MINSTRETH" "read_only_csr CSR_MVENDORID" "read_only_csr CSR_MARCHID" "read_only_csr CSR_MIMPID"
  "read_only_csr CSR_MHARTID" "read_only_csr CSR_MCONFIGPTR"
  by (simp_all add: read_only_csr_def csr_addr_defs)

lemma csr_writable:
  "fst (snd (csr_table tip f a)) \<Longrightarrow> snd (snd (csr_table tip f a)) \<longleftrightarrow> \<not> read_only_csr a"
  by (auto simp: csr_table_def split: if_splits)

lemma csr_access_illegal_iff:
  assumes "csr_ok f" "cmd \<noteq> CSR_NONE"
  shows "csr_access_illegal f a cmd w \<longleftrightarrow>
    read_csr (csr_rdata tip f) (mstate_of f) a = None \<or> access_cmd_writes cmd w \<and> read_only_csr a"
proof -
  obtain v imp wr where t: "csr_table False f a = (v, imp, wr)" by (cases "csr_table False f a")
  have "imp \<longleftrightarrow> read_csr (csr_rdata tip f) (mstate_of f) a \<noteq> None"
    using csr_read [OF assms(1), of tip a] csr_implemented [of False f a tip f] t by simp
  moreover have "imp \<Longrightarrow> wr \<longleftrightarrow> \<not> read_only_csr a" using csr_writable [of False f a] t by simp
  ultimately show ?thesis using assms(2) by (auto simp: csr_access_illegal_def t)
qed

section \<open>Commit\<close>

lemma word_aligned_and_3 [simp]: "word_aligned v AND 3 = 0"
  by (simp add: and_3_zero bit_word_aligned)

lemma csr_normalise_ok:
  assumes "mtvec_q d AND 3 = 0" "mepc_q d AND 3 = 0"
  shows "csr_ok (csr_normalise d)"
proof -
  have "MSTATUS_MPP_M_VALUE OR (v AND MSTATUS_WRITABLE_MASK) =
      MSTATUS_MPP_M_VALUE OR ((MSTATUS_MPP_M_VALUE OR (v AND MSTATUS_WRITABLE_MASK)) AND MSTATUS_WRITABLE_MASK)" for v
    by (rule bit_word_eqI) (auto simp: mstatus_bits)
  then show ?thesis using assms by (simp add: csr_ok_def csr_normalise_def and.assoc)
qed

lemma csr_write_aligned:
  "mtvec_q d AND 3 = 0 \<Longrightarrow> mtvec_q (csr_write a v f d) AND 3 = 0" "mepc_q d AND 3 = 0 \<Longrightarrow> mepc_q (csr_write a v f d) AND 3 = 0"
  by (cases a rule: csr_addr_cases; simp add: csr_write_def csr_addr_defs word_aligned_eqs)+

lemma csr_next_ok:
  assumes "csr_ok f"
  shows "csr_ok (csr_next i f)"
proof -
  have "mtvec_q (csr_count i f) AND 3 = 0" "mepc_q (csr_count i f) AND 3 = 0"
    using assms by (simp_all add: csr_ok_def csr_count_def)
  then show ?thesis unfolding csr_next_def Let_def
    by (intro csr_normalise_ok) (simp_all add: csr_write_aligned csr_trap_def csr_mret_def word_aligned_eqs)
qed

text \<open>A commit does to the machine-mode state what the architecture says.\<close>

definition committed :: "csr_in \<Rightarrow> mstate \<Rightarrow> mstate" where
  "committed i m =
     (if trap_valid i then enter_trap (trap_is_interrupt i) (trap_cause i) (trap_tval i) (trap_pc i) m
      else let counted = (if retire_i i then retire m else m)
           in if mret_commit i then leave_trap counted
              else if commit_write i
              then write_csr (commit_waddr i) (commit_wdata i)
                     (if commit_waddr i \<in> {CSR_MINSTRET, CSR_MINSTRETH} then m else counted)
              else counted)"

lemma normalise_fields [simp]:
  "bit (mstatus_q (csr_normalise d)) 3 = bit (mstatus_q d) 3" "bit (mstatus_q (csr_normalise d)) 7 = bit (mstatus_q d) 7"
  "bit (mie_q (csr_normalise d)) 7 = bit (mie_q d) 7" "mtvec_q (csr_normalise d) = mtvec_q d"
  "mscratch_q (csr_normalise d) = mscratch_q d" "mepc_q (csr_normalise d) = mepc_q d" "mcause_q (csr_normalise d) = mcause_q d"
  "mtval_q (csr_normalise d) = mtval_q d" "minstret_q (csr_normalise d) = minstret_q d" "mcycle_q (csr_normalise d) = mcycle_q d"
  by (simp_all add: csr_normalise_def mstatus_bits mie_bits)

lemma mstate_of_normalise [simp]: "mstate_of (csr_normalise d) = mstate_of d"
  by (simp add: mstate_of_def)

lemma mstate_of_count: "mstate_of (csr_count i f) = (if retire_i i \<and> \<not> trap_valid i then retire (mstate_of f) else mstate_of f)"
  by (simp add: mstate_of_def csr_count_def retire_def)

lemma mstate_of_trap:
  "mstate_of (csr_trap i f (csr_count i f)) =
     enter_trap (trap_is_interrupt i) (trap_cause i) (trap_tval i) (trap_pc i) (mstate_of (csr_count i f))"
  by (simp add: mstate_of_def csr_trap_def csr_count_def enter_trap_def word_aligned_eqs bit_set_bit_to MCAUSE_INTERRUPT_MASK_def)

lemma mstate_of_mret: "mstate_of (csr_mret f (csr_count i f)) = leave_trap (mstate_of (csr_count i f))"
  by (simp add: mstate_of_def csr_mret_def csr_count_def leave_trap_def bit_set_bit_to)

lemma mcause_mask: "v AND (MCAUSE_INTERRUPT_MASK OR MCAUSE_CODE_MASK) = v AND 0x8000001f"
  by (simp add: MCAUSE_INTERRUPT_MASK_def MCAUSE_CODE_MASK_def)

lemma mstate_of_write:
  "mstate_of (csr_write a v f d) = write_csr a v (mstate_of (if a \<in> {CSR_MINSTRET, CSR_MINSTRETH} then d\<lparr>minstret_q := minstret_q f\<rparr> else d))"
  by (cases a rule: csr_addr_cases)
    (simp_all add: csr_write_def write_csr_def mstate_of_def csr_addr_defs mstatus_bits mie_bits word_aligned_eqs mcause_mask)

lemma csr_commit:
  assumes "trap_valid i \<longrightarrow> \<not> retire_i i"
  shows "mstate_of (csr_next i f) = committed i (mstate_of f)"
proof -
  have m: "mstate_of ((csr_count i f)\<lparr>minstret_q := minstret_q f\<rparr>) = mstate_of f"
    by (simp add: mstate_of_def csr_count_def)
  show ?thesis
    using assms
    by (simp add: csr_next_def Let_def committed_def mstate_of_trap mstate_of_mret mstate_of_write m mstate_of_count)
qed

text \<open>The cycle counter counts every clock in which it is not written.\<close>

lemma mcycle_counts:
  assumes "\<not> (commit_write i \<and> \<not> trap_valid i \<and> \<not> mret_commit i \<and> commit_waddr i \<in> {CSR_MCYCLE, CSR_MCYCLEH})"
  shows "mcycle_q (csr_next i f) = mcycle_q f + 1"
proof (cases "trap_valid i \<or> mret_commit i \<or> \<not> commit_write i")
  case True
  then show ?thesis by (auto simp: csr_next_def Let_def csr_trap_def csr_mret_def csr_count_def)
next
  case False
  then have "mcycle_q (csr_write (commit_waddr i) (commit_wdata i) f (csr_count i f)) = mcycle_q (csr_count i f)"
    using assms by (cases "commit_waddr i" rule: csr_addr_cases) (auto simp: csr_write_def csr_addr_defs)
  then show ?thesis using False by (simp add: csr_next_def Let_def csr_count_def)
qed

lemma csr_reset_state:
  "csr_ok (csr_reset v)" "mstate_of (csr_reset v) = \<lparr>m_ie = False, m_pie = False, m_tie = False, m_tvec = word_aligned v,
     m_scratch = 0, m_epc = 0, m_cause = 0, m_tval = 0, m_instret = 0\<rparr>"
proof -
  have "mstatus_q (csr_reset v) = mstatus_word False False" by (simp add: csr_reset_def mstatus_word_def MSTATUS_MPP_M_VALUE_def)
  then show "mstate_of (csr_reset v) = \<lparr>m_ie = False, m_pie = False, m_tie = False, m_tvec = word_aligned v,
     m_scratch = 0, m_epc = 0, m_cause = 0, m_tval = 0, m_instret = 0\<rparr>"
    by (simp add: mstate_of_def bit_mstatus_word) (simp add: csr_reset_def word_aligned_eqs)
  show "csr_ok (csr_reset v)"
    by (simp add: csr_ok_def csr_reset_def word_aligned_eqs MSTATUS_MPP_M_VALUE_def MSTATUS_WRITABLE_MASK_def)
qed

end
