(* ===== verification/Core_Lsu.thy ===== *)
theory Core_Lsu
  imports Core_Csr
begin

text \<open>
  The load/store unit, \<^verbatim>\<open>lsu.sv\<close>: it makes the bus request of a load or store, waits for its response, and
  gives the loaded value or an exception.
\<close>

section \<open>The memory interface\<close>

text \<open>
  What the slave of \<^verbatim>\<open>rv32_mem_if\<close> drives in a clock: whether it takes a request, and a response if there is one.
\<close>

record mem_in =
  mem_ready :: bool
  mem_rsp :: "response option"

definition request_fire :: "request option \<Rightarrow> mem_in \<Rightarrow> bool" where
  "request_fire q m \<longleftrightarrow> q \<noteq> None \<and> mem_ready m"

section \<open>Byte lanes\<close>

definition address_misaligned :: "mem_size_e \<Rightarrow> 2 word \<Rightarrow> bool" where
  "address_misaligned sz lsb = (case sz of MEM_BYTE \<Rightarrow> False | MEM_HALF \<Rightarrow> bit lsb 0 | MEM_WORD \<Rightarrow> lsb \<noteq> 0)"

definition make_misaligned_exception :: "mem_cmd_e \<Rightarrow> u32 \<Rightarrow> exc_t" where
  "make_misaligned_exception cmd addr =
     exception (if cmd = MEM_LOAD then EXC_LOAD_ADDR_MISALIGNED else EXC_STORE_ADDR_MISALIGNED) addr"

definition make_access_exception :: "mem_cmd_e \<Rightarrow> u32 \<Rightarrow> bool \<Rightarrow> exc_t" where
  "make_access_exception cmd addr err =
     (if err then exception (if cmd = MEM_LOAD then EXC_LOAD_ACCESS_FAULT else EXC_STORE_ACCESS_FAULT) addr else no_exc)"

definition extract_load_data :: "u32 \<Rightarrow> 2 word \<Rightarrow> mem_size_e \<Rightarrow> bool \<Rightarrow> u32" where
  "extract_load_data rdata off sz uns =
     (let shifted = drop_bit (8 * unat off) rdata
      in case sz of
           MEM_BYTE \<Rightarrow> if uns then word_cat (0 :: 24 word) (field 0 shifted :: 8 word)
                       else word_cat (fill (bit shifted 7) :: 24 word) (field 0 shifted :: 8 word)
         | MEM_HALF \<Rightarrow> if uns then word_cat (0 :: 16 word) (field 0 shifted :: 16 word)
                       else word_cat (fill (bit shifted 15) :: 16 word) (field 0 shifted :: 16 word)
         | MEM_WORD \<Rightarrow> shifted)"

definition store_wstrb :: "mem_size_e \<Rightarrow> u32 \<Rightarrow> 4 word" where
  "store_wstrb sz addr =
     (case sz of
        MEM_BYTE \<Rightarrow> push_bit (unat (field 0 addr :: 2 word)) 1
      | MEM_HALF \<Rightarrow> push_bit (2 * unat (field 1 addr :: 1 word)) 3
      | MEM_WORD \<Rightarrow> 15)"

definition store_wdata :: "mem_size_e \<Rightarrow> u32 \<Rightarrow> u32 \<Rightarrow> u32" where
  "store_wdata sz addr v =
     (case sz of
        MEM_BYTE \<Rightarrow> push_bit (8 * unat (field 0 addr :: 2 word)) (word_cat (0 :: 24 word) (field 0 v :: 8 word))
      | MEM_HALF \<Rightarrow> push_bit (16 * unat (field 1 addr :: 1 word)) (word_cat (0 :: 16 word) (field 0 v :: 16 word))
      | MEM_WORD \<Rightarrow> v)"

section \<open>State\<close>

datatype lsu_state_e = LSU_IDLE | LSU_BUSY | LSU_RESP

record lsu =
  lsu_state :: lsu_state_e
  cmd_q :: mem_cmd_e
  size_q :: mem_size_e
  load_unsigned_q :: bool
  addr_q :: u32
  store_wstrb_q :: "4 word"
  store_wdata_q :: u32
  request_sent_q :: bool
  discard_q :: bool
  load_data_q :: u32
  exception_q :: exc_t

record lsu_in =
  kill_i :: bool
  req_valid_i :: bool
  cmd_i :: mem_cmd_e
  size_i :: mem_size_e
  load_unsigned_i :: bool
  addr_i :: u32
  store_data_i :: u32
  rsp_ready_i :: bool

definition lsu_reset :: lsu where
  "lsu_reset = \<lparr>lsu_state = LSU_IDLE, cmd_q = MEM_NONE, size_q = MEM_WORD, load_unsigned_q = False, addr_q = 0,
     store_wstrb_q = 0, store_wdata_q = 0, request_sent_q = False, discard_q = False, load_data_q = 0, exception_q = no_exc\<rparr>"

section \<open>Request\<close>

definition input_is_memory :: "lsu_in \<Rightarrow> bool" where
  "input_is_memory i \<longleftrightarrow> cmd_i i = MEM_LOAD \<or> cmd_i i = MEM_STORE"

definition input_misaligned :: "lsu_in \<Rightarrow> bool" where
  "input_misaligned i \<longleftrightarrow> address_misaligned (size_i i) (field 0 (addr_i i))"

definition lsu_req_ready :: "bool \<Rightarrow> lsu_in \<Rightarrow> lsu \<Rightarrow> bool" where
  "lsu_req_ready rst i s \<longleftrightarrow> lsu_state s = LSU_IDLE \<and> \<not> rst \<and> \<not> kill_i i"

definition issue_input :: "bool \<Rightarrow> lsu_in \<Rightarrow> lsu \<Rightarrow> bool" where
  "issue_input rst i s \<longleftrightarrow> req_valid_i i \<and> lsu_req_ready rst i s \<and> input_is_memory i \<and> \<not> input_misaligned i"

definition issue_saved :: "lsu \<Rightarrow> bool" where
  "issue_saved s \<longleftrightarrow> lsu_state s = LSU_BUSY \<and> \<not> request_sent_q s"

definition word_of_addr :: "u32 \<Rightarrow> u32" where
  "word_of_addr a = word_cat (field 2 a :: 30 word) (0 :: 2 word)"

text \<open>The request the unit drives in a clock, \<open>None\<close> if it drives none.\<close>

definition lsu_request :: "bool \<Rightarrow> lsu_in \<Rightarrow> lsu \<Rightarrow> request option" where
  "lsu_request rst i s =
     (if issue_input rst i s
      then Some \<lparr>req_write = (cmd_i i = MEM_STORE), req_addr = word_of_addr (addr_i i),
                 req_wdata = store_wdata (size_i i) (addr_i i) (store_data_i i),
                 req_wstrb = (if cmd_i i = MEM_STORE then store_wstrb (size_i i) (addr_i i) else 0)\<rparr>
      else if issue_saved s
      then Some \<lparr>req_write = (cmd_q s = MEM_STORE), req_addr = word_of_addr (addr_q s), req_wdata = store_wdata_q s,
                 req_wstrb = (if cmd_q s = MEM_STORE then store_wstrb_q s else 0)\<rparr>
      else None)"

section \<open>Response\<close>

definition response_seen :: "bool \<Rightarrow> lsu_in \<Rightarrow> mem_in \<Rightarrow> lsu \<Rightarrow> bool" where
  "response_seen rst i m s \<longleftrightarrow> mem_rsp m \<noteq> None \<and>
     (let fire = request_fire (lsu_request rst i s) m
      in lsu_state s = LSU_BUSY \<and> (request_sent_q s \<or> fire) \<or> lsu_state s = LSU_IDLE \<and> fire)"

definition response_discard :: "lsu_in \<Rightarrow> lsu \<Rightarrow> bool" where
  "response_discard i s \<longleftrightarrow> kill_i i \<or> lsu_state s = LSU_BUSY \<and> discard_q s"

definition response_load_data :: "lsu_in \<Rightarrow> response \<Rightarrow> lsu \<Rightarrow> u32" where
  "response_load_data i r s =
     (if lsu_state s = LSU_IDLE
      then if cmd_i i = MEM_LOAD \<and> \<not> rsp_err r
           then extract_load_data (rsp_rdata r) (field 0 (addr_i i)) (size_i i) (load_unsigned_i i) else 0
      else if cmd_q s = MEM_LOAD \<and> \<not> rsp_err r
           then extract_load_data (rsp_rdata r) (field 0 (addr_q s)) (size_q s) (load_unsigned_q s) else 0)"

definition response_exception :: "lsu_in \<Rightarrow> response \<Rightarrow> lsu \<Rightarrow> exc_t" where
  "response_exception i r s =
     (if lsu_state s = LSU_IDLE then make_access_exception (cmd_i i) (addr_i i) (rsp_err r)
      else make_access_exception (cmd_q s) (addr_q s) (rsp_err r))"

text \<open>What the unit hands to the pipeline: the loaded value and the exception, when it is done.\<close>

definition lsu_rsp :: "bool \<Rightarrow> lsu_in \<Rightarrow> mem_in \<Rightarrow> lsu \<Rightarrow> (u32 \<times> exc_t) option" where
  "lsu_rsp rst i m s =
     (if lsu_state s = LSU_RESP
      then if \<not> kill_i i then Some (load_data_q s, exception_q s) else None
      else if response_seen rst i m s \<and> \<not> response_discard i s
      then Some (response_load_data i (the (mem_rsp m)) s, response_exception i (the (mem_rsp m)) s)
      else None)"

definition lsu_trace :: "bool \<Rightarrow> lsu_in \<Rightarrow> lsu \<Rightarrow> 4 word \<times> u32" where
  "lsu_trace rst i s =
     (if lsu_state s = LSU_IDLE
      then if issue_input rst i s \<and> cmd_i i = MEM_STORE
           then (store_wstrb (size_i i) (addr_i i), store_wdata (size_i i) (addr_i i) (store_data_i i)) else (0, 0)
      else if cmd_q s = MEM_STORE then (store_wstrb_q s, store_wdata_q s) else (0, 0))"

section \<open>Clock\<close>

text \<open>A request that was taken before a reset is drained.\<close>

definition lsu_reset_clock :: "mem_in \<Rightarrow> lsu \<Rightarrow> lsu" where
  "lsu_reset_clock m s =
     (if lsu_state s = LSU_BUSY \<and> request_sent_q s \<and> mem_rsp m = None
      then lsu_reset\<lparr>lsu_state := LSU_BUSY, request_sent_q := True, discard_q := True\<rparr> else lsu_reset)"

definition lsu_take :: "lsu_in \<Rightarrow> lsu \<Rightarrow> lsu" where
  "lsu_take i s =
     (let store = (cmd_i i = MEM_STORE \<and> \<not> input_misaligned i)
      in s\<lparr>cmd_q := cmd_i i, size_q := size_i i, load_unsigned_q := load_unsigned_i i, addr_q := addr_i i,
           store_wstrb_q := (if store then store_wstrb (size_i i) (addr_i i) else 0),
           store_wdata_q := (if store then store_wdata (size_i i) (addr_i i) (store_data_i i) else 0),
           load_data_q := 0, exception_q := no_exc\<rparr>)"

definition lsu_idle_clock :: "lsu_in \<Rightarrow> mem_in \<Rightarrow> lsu \<Rightarrow> lsu" where
  "lsu_idle_clock i m s0 =
     (let s = s0\<lparr>discard_q := False\<rparr>; fire = request_fire (lsu_request False i s0) m; t = lsu_take i s
      in if req_valid_i i \<and> lsu_req_ready False i s0
         then if \<not> input_is_memory i \<or> input_misaligned i
              then t\<lparr>exception_q := (if input_is_memory i \<and> input_misaligned i
                                     then make_misaligned_exception (cmd_i i) (addr_i i) else no_exc),
                     lsu_state := LSU_RESP\<rparr>
              else if fire \<and> mem_rsp m \<noteq> None
              then if \<not> rsp_ready_i i
                   then t\<lparr>load_data_q := response_load_data i (the (mem_rsp m)) s0,
                          exception_q := response_exception i (the (mem_rsp m)) s0, lsu_state := LSU_RESP\<rparr>
                   else t
              else t\<lparr>request_sent_q := fire, lsu_state := LSU_BUSY\<rparr>
         else s)"

definition lsu_busy_clock :: "lsu_in \<Rightarrow> mem_in \<Rightarrow> lsu \<Rightarrow> lsu" where
  "lsu_busy_clock i m s =
     (let fire = request_fire (lsu_request False i s) m;
          s1 = (if kill_i i then s\<lparr>discard_q := True\<rparr> else s);
          s2 = (if fire then s1\<lparr>request_sent_q := True\<rparr> else s1)
      in if response_seen False i m s
         then let s3 = s2\<lparr>request_sent_q := False, discard_q := False\<rparr>
              in if response_discard i s \<or> rsp_ready_i i then s3\<lparr>lsu_state := LSU_IDLE\<rparr>
                 else s3\<lparr>load_data_q := response_load_data i (the (mem_rsp m)) s,
                         exception_q := response_exception i (the (mem_rsp m)) s, lsu_state := LSU_RESP\<rparr>
         else s2)"

definition lsu_clock :: "bool \<Rightarrow> lsu_in \<Rightarrow> mem_in \<Rightarrow> lsu \<Rightarrow> lsu" where
  "lsu_clock rst i m s =
     (if rst then lsu_reset_clock m s
      else case lsu_state s of
        LSU_IDLE \<Rightarrow> lsu_idle_clock i m s
      | LSU_BUSY \<Rightarrow> lsu_busy_clock i m s
      | LSU_RESP \<Rightarrow> if kill_i i \<or> rsp_ready_i i then s\<lparr>lsu_state := LSU_IDLE\<rparr> else s)"

end
