(* ===== verification/Core_Fetch.thy ===== *)
theory Core_Fetch
  imports Core_Lsu
begin

text \<open>
  The fetch stage, \<^verbatim>\<open>if_stage.sv\<close>: one outstanding request, one held packet, and the draining of requests that a flush or
  a redirect has made stale.
\<close>

datatype if_state_e = IF_IDLE | IF_BUSY

record if_stage =
  if_state :: if_state_e
  next_pc_q :: u32
  request_pc_q :: u32
  if_sent_q :: bool
  if_discard_q :: bool
  redirect_pending_q :: bool
  packet_valid_q :: bool
  packet_pc_q :: u32
  packet_insn_q :: u32
  packet_exc_q :: exc_t

record if_in =
  if_enable :: bool
  if_consume :: bool
  if_flush :: bool
  if_redirect :: bool
  if_redirect_pc :: u32

definition if_reset :: "u32 \<Rightarrow> if_stage" where
  "if_reset v = \<lparr>if_state = IF_IDLE, next_pc_q = v, request_pc_q = v, if_sent_q = False, if_discard_q = False,
     redirect_pending_q = False, packet_valid_q = False, packet_pc_q = 0, packet_insn_q = 0, packet_exc_q = no_exc\<rparr>"

definition kill_event :: "if_in \<Rightarrow> bool" where
  "kill_event i \<longleftrightarrow> if_flush i \<or> if_redirect i"

definition want_fetch :: "if_in \<Rightarrow> if_stage \<Rightarrow> bool" where
  "want_fetch i s \<longleftrightarrow> if_redirect i \<or> \<not> if_flush i \<and> (if_enable i \<or> redirect_pending_q s)"

definition launch_pc :: "if_in \<Rightarrow> if_stage \<Rightarrow> u32" where
  "launch_pc i s = (if if_redirect i then if_redirect_pc i else next_pc_q s)"

definition held_request :: "if_stage \<Rightarrow> bool" where
  "held_request s \<longleftrightarrow> if_state s = IF_BUSY \<and> \<not> if_sent_q s"

definition launch_request :: "bool \<Rightarrow> if_in \<Rightarrow> mem_in \<Rightarrow> if_stage \<Rightarrow> bool" where
  "launch_request rst i m s \<longleftrightarrow> \<not> rst \<and> want_fetch i s \<and>
     (if if_state s = IF_IDLE then kill_event i \<or> \<not> packet_valid_q s \<or> if_consume i
      else if_sent_q s \<and> mem_rsp m \<noteq> None \<and>
        (if_redirect i \<or> \<not> if_flush i \<and> \<not> packet_valid_q s \<and> (if_discard_q s \<or> if_consume i)))"

text \<open>The address the stage drives on the instruction port in a clock, if any.\<close>

definition fetch_request :: "bool \<Rightarrow> if_in \<Rightarrow> mem_in \<Rightarrow> if_stage \<Rightarrow> u32 option" where
  "fetch_request rst i m s =
     (if \<not> rst then if held_request s then Some (request_pc_q s)
                   else if launch_request rst i m s then Some (launch_pc i s) else None
      else None)"

definition fetch_fire :: "bool \<Rightarrow> if_in \<Rightarrow> mem_in \<Rightarrow> if_stage \<Rightarrow> bool" where
  "fetch_fire rst i m s \<longleftrightarrow> fetch_request rst i m s \<noteq> None \<and> mem_ready m"

definition request_stale :: "if_in \<Rightarrow> if_stage \<Rightarrow> bool" where
  "request_stale i s \<longleftrightarrow> if_discard_q s \<or> kill_event i"

definition fetch_response_seen :: "bool \<Rightarrow> if_in \<Rightarrow> mem_in \<Rightarrow> if_stage \<Rightarrow> bool" where
  "fetch_response_seen rst i m s \<longleftrightarrow>
     (if if_state s = IF_BUSY then mem_rsp m \<noteq> None \<and> (if_sent_q s \<or> fetch_fire rst i m s)
      else launch_request rst i m s \<and> fetch_fire rst i m s \<and> mem_rsp m \<noteq> None)"

definition response_live :: "bool \<Rightarrow> if_in \<Rightarrow> mem_in \<Rightarrow> if_stage \<Rightarrow> bool" where
  "response_live rst i m s \<longleftrightarrow> fetch_response_seen rst i m s \<and> \<not> (if_state s = IF_BUSY \<and> request_stale i s)"

definition response_pc :: "if_in \<Rightarrow> if_stage \<Rightarrow> u32" where
  "response_pc i s = (if if_state s = IF_BUSY then request_pc_q s else launch_pc i s)"

definition response_insn :: "mem_in \<Rightarrow> u32" where
  "response_insn m = (let r = the (mem_rsp m) in if rsp_err r then 0 else rsp_rdata r)"

definition response_exc :: "if_in \<Rightarrow> mem_in \<Rightarrow> if_stage \<Rightarrow> exc_t" where
  "response_exc i m s = (if rsp_err (the (mem_rsp m)) then exception EXC_INST_ACCESS_FAULT (response_pc i s) else no_exc)"

text \<open>The fetched packet offered to the pipeline: address, instruction, exception.\<close>

definition fetch_out :: "bool \<Rightarrow> if_in \<Rightarrow> mem_in \<Rightarrow> if_stage \<Rightarrow> (u32 \<times> u32 \<times> exc_t) option" where
  "fetch_out rst i m s =
     (if \<not> rst \<and> \<not> kill_event i
      then if packet_valid_q s then Some (packet_pc_q s, packet_insn_q s, packet_exc_q s)
           else if response_live rst i m s then Some (response_pc i s, response_insn m, response_exc i m s) else None
      else None)"

definition if_packet_next :: "if_in \<Rightarrow> mem_in \<Rightarrow> if_stage \<Rightarrow> if_stage \<Rightarrow> if_stage" where
  "if_packet_next i m s t =
     (let packet_consumed = packet_valid_q s \<and> \<not> kill_event i \<and> if_consume i;
          live = response_live False i m s;
          response_consumed = live \<and> \<not> packet_valid_q s \<and> \<not> kill_event i \<and> if_consume i;
          t1 = (if kill_event i \<or> packet_consumed then t\<lparr>packet_valid_q := False\<rparr> else t)
      in if live \<and> \<not> response_consumed
         then t1\<lparr>packet_valid_q := True, packet_pc_q := response_pc i s, packet_insn_q := response_insn m,
                 packet_exc_q := response_exc i m s\<rparr>
         else t1)"

definition if_redirect_next :: "if_in \<Rightarrow> if_stage \<Rightarrow> if_stage" where
  "if_redirect_next i t =
     (if if_redirect i then t\<lparr>next_pc_q := if_redirect_pc i, redirect_pending_q := True\<rparr>
      else if if_flush i then t\<lparr>redirect_pending_q := False\<rparr> else t)"

definition if_idle_next :: "if_in \<Rightarrow> mem_in \<Rightarrow> if_stage \<Rightarrow> if_stage \<Rightarrow> if_stage" where
  "if_idle_next i m s t0 =
     (let t = t0\<lparr>if_discard_q := False, if_sent_q := False\<rparr>; fire = fetch_fire False i m s; pc = launch_pc i s
      in if launch_request False i m s
         then if fire
              then let t1 = t\<lparr>request_pc_q := pc, next_pc_q := pc + 4, redirect_pending_q := False\<rparr>
                   in if mem_rsp m = None then t1\<lparr>if_state := IF_BUSY, if_sent_q := True\<rparr> else t1
              else t\<lparr>request_pc_q := pc, if_state := IF_BUSY, if_sent_q := False\<rparr>
         else t)"

definition if_busy_next :: "if_in \<Rightarrow> mem_in \<Rightarrow> if_stage \<Rightarrow> if_stage \<Rightarrow> if_stage" where
  "if_busy_next i m s t0 =
     (let t = (if kill_event i then t0\<lparr>if_discard_q := True\<rparr> else t0); fire = fetch_fire False i m s; pc = launch_pc i s
      in if \<not> if_sent_q s \<and> fire
         then let t1 = (if \<not> request_stale i s then t\<lparr>next_pc_q := request_pc_q s + 4, redirect_pending_q := False\<rparr> else t)
              in if mem_rsp m \<noteq> None then t1\<lparr>if_state := IF_IDLE, if_sent_q := False, if_discard_q := False\<rparr>
                 else t1\<lparr>if_sent_q := True, if_discard_q := request_stale i s\<rparr>
         else if if_sent_q s \<and> mem_rsp m \<noteq> None
         then let t1 = t\<lparr>if_state := IF_IDLE, if_sent_q := False, if_discard_q := False\<rparr>
              in if launch_request False i m s
                 then let t2 = t1\<lparr>request_pc_q := pc, if_state := IF_BUSY\<rparr>
                      in if fire then t2\<lparr>if_sent_q := True, next_pc_q := pc + 4, redirect_pending_q := False\<rparr>
                         else t2\<lparr>if_sent_q := False\<rparr>
                 else t1
         else t)"

text \<open>A request that was taken before a reset is drained.\<close>

definition if_reset_clock :: "u32 \<Rightarrow> mem_in \<Rightarrow> if_stage \<Rightarrow> if_stage" where
  "if_reset_clock v m s =
     (if if_state s = IF_BUSY \<and> if_sent_q s \<and> mem_rsp m = None
      then (if_reset v)\<lparr>if_state := IF_BUSY, if_sent_q := True, if_discard_q := True\<rparr> else if_reset v)"

definition if_clock :: "bool \<Rightarrow> u32 \<Rightarrow> if_in \<Rightarrow> mem_in \<Rightarrow> if_stage \<Rightarrow> if_stage" where
  "if_clock rst v i m s =
     (if rst then if_reset_clock v m s
      else let t = if_redirect_next i (if_packet_next i m s s)
           in case if_state s of IF_IDLE \<Rightarrow> if_idle_next i m s t | IF_BUSY \<Rightarrow> if_busy_next i m s t)"

end
