(* ===== verification/Core_Fetch_Proofs.thy ===== *)
theory Core_Fetch_Proofs
  imports Core_Fetch
begin

text \<open>
  The fetch stage delivers the instructions at consecutive addresses, from the target of the last redirection on, whatever
  the times at which the bus takes requests and answers them.
\<close>

section \<open>What a bus carries\<close>

text \<open>
  A monitor of a bus with at most one outstanding request: the request that waits for its response, the requests driven
  and taken in a clock, and the transaction that completes in it.
\<close>

definition taken :: "'q option \<Rightarrow> mem_in \<Rightarrow> 'q option" where
  "taken driven m = (if mem_ready m then driven else None)"

definition pending :: "'q option \<Rightarrow> 'q option \<Rightarrow> mem_in \<Rightarrow> 'q option" where
  "pending waiting driven m = (case waiting of None \<Rightarrow> taken driven m | Some q \<Rightarrow> Some q)"

definition completed :: "'q option \<Rightarrow> 'q option \<Rightarrow> mem_in \<Rightarrow> ('q \<times> response) option" where
  "completed waiting driven m =
     (case (pending waiting driven m, mem_rsp m) of (Some q, Some r) \<Rightarrow> Some (q, r) | _ \<Rightarrow> None)"

definition waiting_next :: "'q option \<Rightarrow> 'q option \<Rightarrow> mem_in \<Rightarrow> 'q option" where
  "waiting_next waiting driven m =
     (if completed waiting driven m = None then pending waiting driven m
      else if waiting = None then None else taken driven m)"

section \<open>Contents of memory\<close>

definition answers :: "(u32 \<Rightarrow> u32 option) \<Rightarrow> u32 \<Rightarrow> response \<Rightarrow> bool" where
  "answers im p r \<longleftrightarrow> im p = (if rsp_err r then None else Some (rsp_rdata r))"

definition contents :: "(u32 \<Rightarrow> u32 option) \<Rightarrow> u32 \<Rightarrow> u32 \<times> u32 \<times> exc_t" where
  "contents im p = (case im p of None \<Rightarrow> (p, 0, exception EXC_INST_ACCESS_FAULT p) | Some w \<Rightarrow> (p, w, no_exc))"

lemma fst_contents [simp]: "fst (contents im p) = p"
  by (simp add: contents_def split: option.split)

section \<open>Invariant\<close>

definition fetch_ok :: "(u32 \<Rightarrow> u32 option) \<Rightarrow> u32 option \<Rightarrow> if_stage \<Rightarrow> bool" where
  "fetch_ok im out s \<longleftrightarrow>
     out = (if if_state s = IF_BUSY \<and> if_sent_q s then Some (request_pc_q s) else None) \<and>
     (packet_valid_q s \<longrightarrow> if_state s = IF_IDLE \<and>
        contents im (packet_pc_q s) = (packet_pc_q s, packet_insn_q s, packet_exc_q s))"

text \<open>\<open>fetch_at p s\<close>: the next instruction the stage will deliver is the one at \<open>p\<close>.\<close>

definition fetch_at :: "u32 \<Rightarrow> if_stage \<Rightarrow> bool" where
  "fetch_at p s \<longleftrightarrow>
     (if packet_valid_q s then packet_pc_q s = p \<and> next_pc_q s = p + 4
      else if if_state s = IF_BUSY \<and> \<not> if_discard_q s
      then request_pc_q s = p \<and> next_pc_q s = (if if_sent_q s then p + 4 else p)
      else next_pc_q s = p)"

lemmas fetch_defs = if_clock_def if_redirect_next_def if_packet_next_def if_idle_next_def if_busy_next_def launch_request_def
  fetch_fire_def fetch_request_def held_request_def want_fetch_def launch_pc_def kill_event_def response_live_def
  fetch_response_seen_def request_stale_def response_pc_def

lemmas monitor_defs = waiting_next_def completed_def pending_def taken_def

definition answered :: "(u32 \<Rightarrow> u32 option) \<Rightarrow> u32 option \<Rightarrow> u32 option \<Rightarrow> mem_in \<Rightarrow> bool" where
  "answered im waiting driven m \<longleftrightarrow>
     (case completed waiting driven m of None \<Rightarrow> True | Some (p, r) \<Rightarrow> answers im p r)"

lemma live_contents:
  assumes ok: "fetch_ok im out s" and ans: "answered im out (fetch_request False i m s) m" and live: "response_live False i m s"
  shows "contents im (response_pc i s) = (response_pc i s, response_insn m, response_exc i m s)"
proof -
  have "completed out (fetch_request False i m s) m = Some (response_pc i s, the (mem_rsp m))"
    using ok live by (cases "if_state s"; cases "mem_rsp m") (auto simp: fetch_ok_def fetch_defs monitor_defs split: if_splits)
  with ans have "answers im (response_pc i s) (the (mem_rsp m))" by (simp add: answered_def)
  then show ?thesis by (simp add: answers_def contents_def response_insn_def response_exc_def Let_def)
qed

lemma fetch_waiting_next:
  assumes "fetch_ok im out s"
  shows "waiting_next out (fetch_request False i m s) m =
    (let t = if_clock False v i m s in if if_state t = IF_BUSY \<and> if_sent_q t then Some (request_pc_q t) else None)"
  using assms by (cases "if_state s"; cases "mem_rsp m")
    (auto simp: fetch_ok_def fetch_defs monitor_defs Let_def split: if_splits)

lemma fetch_packet_next:
  fixes v i m
  assumes "fetch_ok im out s"
  defines "t \<equiv> if_clock False v i m s"
  assumes "packet_valid_q t"
  shows "if_state t = IF_IDLE \<and>
    (packet_valid_q s \<and> (packet_pc_q t, packet_insn_q t, packet_exc_q t) = (packet_pc_q s, packet_insn_q s, packet_exc_q s) \<or>
     response_live False i m s \<and> (packet_pc_q t, packet_insn_q t, packet_exc_q t) = (response_pc i s, response_insn m, response_exc i m s))"
  using assms by (cases "if_state s"; cases "mem_rsp m")
    (auto simp: fetch_ok_def fetch_defs Let_def split: if_splits)

lemma fetch_ok_next:
  assumes ok: "fetch_ok im out s" and ans: "answered im out (fetch_request False i m s) m"
  shows "fetch_ok im (waiting_next out (fetch_request False i m s) m) (if_clock False v i m s)"
  unfolding fetch_ok_def fetch_waiting_next [OF ok, of i m v] Let_def
  using fetch_packet_next [OF ok, of v i m] live_contents [OF ok ans] ok by (auto simp: fetch_ok_def)

lemma fetch_out_contents:
  assumes ok: "fetch_ok im out s" and ans: "answered im out (fetch_request False i m s) m"
    and out: "fetch_out False i m s = Some x"
  shows "contents im (fst x) = x"
  using out ok live_contents [OF ok ans] by (auto simp: fetch_out_def fetch_ok_def split: if_splits)

lemma fetch_out_at:
  assumes "fetch_at p s" "fetch_out False i m s = Some (q, insn, x)"
  shows "q = p"
  using assms by (cases "if_state s"; cases "mem_rsp m")
    (auto simp: fetch_at_def fetch_out_def fetch_defs split: if_splits)

lemma fetch_at_next:
  assumes "fetch_ok im out s" "fetch_at p s" "\<not> if_flush i" "\<not> if_redirect i"
  shows "fetch_at (if if_consume i \<and> fetch_out False i m s \<noteq> None then p + 4 else p) (if_clock False v i m s)"
  using assms by (cases "if_state s"; cases "mem_rsp m")
    (auto simp: fetch_ok_def fetch_at_def fetch_out_def fetch_defs Let_def split: if_splits)

lemma fetch_at_redirect:
  assumes "fetch_ok im out s" "if_redirect i"
  shows "fetch_at (if_redirect_pc i) (if_clock False v i m s)"
  using assms by (cases "if_state s"; cases "mem_rsp m")
    (auto simp: fetch_ok_def fetch_at_def fetch_out_def fetch_defs Let_def split: if_splits)

lemma fetch_reset: "fetch_ok im None (if_reset v)" "fetch_at v (if_reset v)"
  by (simp_all add: fetch_ok_def fetch_at_def if_reset_def)

end
