(* ===== verification/Core_Decode.thy ===== *)
theory Core_Decode
  imports Core_Pkg
begin

text \<open>
  The combinational modules of the datapath: \<^verbatim>\<open>decoder.sv\<close>, \<^verbatim>\<open>imm_gen.sv\<close>, \<^verbatim>\<open>alu.sv\<close> and \<^verbatim>\<open>branch_unit.sv\<close>.
\<close>

section \<open>Decoder\<close>

text \<open>
  The decoder starts from controls without side effects and an illegal instruction, and enables the controls
  when all fields have been checked. Each \<open>decode_\<close> function below is one \<^verbatim>\<open>case\<close> of an opcode; \<open>None\<close> leaves
  the instruction illegal.
\<close>

definition ctrl_default :: decode_ctrl_t where
  "ctrl_default = no_ctrl\<lparr>op_a_sel := OP_A_ZERO, op_b_sel := OP_B_IMM, mem_size := MEM_WORD\<rparr>"

definition decode_branch :: "3 word \<Rightarrow> branch_e option" where
  "decode_branch f3 =
     (if f3 = 0b000 then Some BR_BEQ else if f3 = 0b001 then Some BR_BNE else if f3 = 0b100 then Some BR_BLT
      else if f3 = 0b101 then Some BR_BGE else if f3 = 0b110 then Some BR_BLTU else if f3 = 0b111 then Some BR_BGEU
      else None)"

definition decode_load :: "3 word \<Rightarrow> (mem_size_e \<times> bool) option" where
  "decode_load f3 =
     (if f3 = 0b000 then Some (MEM_BYTE, False) else if f3 = 0b001 then Some (MEM_HALF, False)
      else if f3 = 0b010 then Some (MEM_WORD, False) else if f3 = 0b100 then Some (MEM_BYTE, True)
      else if f3 = 0b101 then Some (MEM_HALF, True) else None)"

definition decode_store :: "3 word \<Rightarrow> mem_size_e option" where
  "decode_store f3 =
     (if f3 = 0b000 then Some MEM_BYTE else if f3 = 0b001 then Some MEM_HALF else if f3 = 0b010 then Some MEM_WORD
      else None)"

definition decode_op_imm :: "3 word \<Rightarrow> 7 word \<Rightarrow> alu_op_e option" where
  "decode_op_imm f3 f7 =
     (if f3 = 0b000 then Some ALU_ADD else if f3 = 0b010 then Some ALU_SLT else if f3 = 0b011 then Some ALU_SLTU
      else if f3 = 0b100 then Some ALU_XOR else if f3 = 0b110 then Some ALU_OR else if f3 = 0b111 then Some ALU_AND
      else if f3 = 0b001 then (if f7 = FUNCT7_BASE then Some ALU_SLL else None)
      else if f7 = FUNCT7_BASE then Some ALU_SRL else if f7 = FUNCT7_SUB_SRA then Some ALU_SRA else None)"

definition decode_op :: "3 word \<Rightarrow> 7 word \<Rightarrow> (alu_op_e \<times> mdu_op_e) option" where
  "decode_op f3 f7 =
     (if f7 = FUNCT7_BASE
      then Some (if f3 = 0b000 then ALU_ADD else if f3 = 0b001 then ALU_SLL else if f3 = 0b010 then ALU_SLT
                 else if f3 = 0b011 then ALU_SLTU else if f3 = 0b100 then ALU_XOR else if f3 = 0b101 then ALU_SRL
                 else if f3 = 0b110 then ALU_OR else ALU_AND, MDU_NONE)
      else if f7 = FUNCT7_SUB_SRA
      then (if f3 = 0b000 then Some (ALU_SUB, MDU_NONE) else if f3 = 0b101 then Some (ALU_SRA, MDU_NONE) else None)
      else if f7 = FUNCT7_M
      then Some (ALU_NONE,
                 if f3 = 0b000 then MDU_MUL else if f3 = 0b001 then MDU_MULH else if f3 = 0b010 then MDU_MULHSU
                 else if f3 = 0b011 then MDU_MULHU else if f3 = 0b100 then MDU_DIV else if f3 = 0b101 then MDU_DIVU
                 else if f3 = 0b110 then MDU_REM else MDU_REMU)
      else None)"

definition decode_csr :: "3 word \<Rightarrow> (csr_cmd_e \<times> bool) option" where
  "decode_csr f3 =
     (if f3 = 0b001 then Some (CSR_RW, True) else if f3 = 0b010 then Some (CSR_RS, True)
      else if f3 = 0b011 then Some (CSR_RC, True) else if f3 = 0b101 then Some (CSR_RWI, False)
      else if f3 = 0b110 then Some (CSR_RSI, False) else if f3 = 0b111 then Some (CSR_RCI, False) else None)"

definition decode_system :: "u32 \<Rightarrow> decode_ctrl_t option" where
  "decode_system insn =
     (if (field 12 insn :: 3 word) = 0b000
      then if insn = INSN_ECALL \<or> insn = INSN_EBREAK then Some ctrl_default
           else if insn = INSN_MRET then Some (ctrl_default\<lparr>is_mret := True\<rparr>)
           else if insn = INSN_WFI then Some ctrl_default else None
      else map_option (\<lambda>(c, u). ctrl_default\<lparr>uses_rs1 := u, csr_cmd := c, reg_write := True, wb_sel := WB_CSR\<rparr>)
             (decode_csr (field 12 insn)))"

definition decode_legal :: "u32 \<Rightarrow> (imm_sel_e \<times> decode_ctrl_t) option" where
  "decode_legal insn =
     (let opcode = field 0 insn; f3 = field 12 insn; f7 = field 25 insn; c = ctrl_default
      in if opcode = OPCODE_LUI
         then Some (IMM_U, c\<lparr>reg_write := True, alu_op := ALU_ADD, op_a_sel := OP_A_ZERO, op_b_sel := OP_B_IMM\<rparr>)
         else if opcode = OPCODE_AUIPC
         then Some (IMM_U, c\<lparr>reg_write := True, alu_op := ALU_ADD, op_a_sel := OP_A_PC, op_b_sel := OP_B_IMM\<rparr>)
         else if opcode = OPCODE_JAL
         then Some (IMM_J, c\<lparr>reg_write := True, wb_sel := WB_PC4, branch_kind := BR_JAL\<rparr>)
         else if opcode = OPCODE_JALR
         then if f3 = 0
              then Some (IMM_I, c\<lparr>uses_rs1 := True, reg_write := True, wb_sel := WB_PC4, branch_kind := BR_JALR\<rparr>)
              else None
         else if opcode = OPCODE_BRANCH
         then map_option (\<lambda>b. (IMM_B, c\<lparr>branch_kind := b, uses_rs1 := True, uses_rs2 := True\<rparr>)) (decode_branch f3)
         else if opcode = OPCODE_LOAD
         then map_option (\<lambda>(s, u). (IMM_I, c\<lparr>mem_size := s, load_unsigned := u, uses_rs1 := True, reg_write := True,
                alu_op := ALU_ADD, op_a_sel := OP_A_RS1, op_b_sel := OP_B_IMM, wb_sel := WB_LOAD, mem_cmd := MEM_LOAD\<rparr>))
                (decode_load f3)
         else if opcode = OPCODE_STORE
         then map_option (\<lambda>s. (IMM_S, c\<lparr>mem_size := s, uses_rs1 := True, uses_rs2 := True, alu_op := ALU_ADD,
                op_a_sel := OP_A_RS1, op_b_sel := OP_B_IMM, mem_cmd := MEM_STORE\<rparr>)) (decode_store f3)
         else if opcode = OPCODE_OP_IMM
         then map_option (\<lambda>a. (IMM_I, c\<lparr>alu_op := a, uses_rs1 := True, reg_write := True, op_a_sel := OP_A_RS1,
                op_b_sel := OP_B_IMM\<rparr>)) (decode_op_imm f3 f7)
         else if opcode = OPCODE_OP
         then map_option (\<lambda>(a, m). (IMM_NONE, c\<lparr>alu_op := a, mdu_op := m, uses_rs1 := True, uses_rs2 := True,
                reg_write := True, op_a_sel := OP_A_RS1, op_b_sel := OP_B_RS2\<rparr>)) (decode_op f3 f7)
         else if opcode = OPCODE_MISC_MEM then (if f3 = 0 then Some (IMM_NONE, c\<lparr>is_fence := True\<rparr>) else None)
         else if opcode = OPCODE_SYSTEM then map_option (Pair IMM_NONE) (decode_system insn)
         else None)"

record decoded =
  dec_rs1 :: reg_addr_t
  dec_rs2 :: reg_addr_t
  dec_rd :: reg_addr_t
  dec_imm_sel :: imm_sel_e
  dec_ctrl :: decode_ctrl_t
  dec_illegal :: bool

definition decoder :: "u32 \<Rightarrow> decoded" where
  "decoder insn =
     (let (sel, ctrl, illegal) =
        (case decode_legal insn of None \<Rightarrow> (IMM_NONE, ctrl_default, True) | Some (s, c) \<Rightarrow> (s, c, False))
      in \<lparr>dec_rs1 = field 15 insn, dec_rs2 = field 20 insn, dec_rd = field 7 insn, dec_imm_sel = sel, dec_ctrl = ctrl,
          dec_illegal = illegal\<rparr>)"

section \<open>Immediates\<close>

definition imm_gen :: "u32 \<Rightarrow> imm_sel_e \<Rightarrow> u32" where
  "imm_gen insn sel =
     (case sel of
        IMM_NONE \<Rightarrow> 0
      | IMM_I \<Rightarrow> word_cat (fill (bit insn 31) :: 20 word) (field 20 insn :: 12 word)
      | IMM_S \<Rightarrow> word_cat (fill (bit insn 31) :: 20 word)
          (word_cat (field 25 insn :: 7 word) (field 7 insn :: 5 word) :: 12 word)
      | IMM_B \<Rightarrow> word_cat (fill (bit insn 31) :: 20 word) (word_cat (field 7 insn :: 1 word)
          (word_cat (field 25 insn :: 6 word) (word_cat (field 8 insn :: 4 word) (0 :: 1 word) :: 5 word) :: 11 word) :: 12 word)
      | IMM_U \<Rightarrow> word_cat (field 12 insn :: 20 word) (0 :: 12 word)
      | IMM_J \<Rightarrow> word_cat (fill (bit insn 31) :: 12 word) (word_cat (field 12 insn :: 8 word)
          (word_cat (field 20 insn :: 1 word) (word_cat (field 21 insn :: 10 word) (0 :: 1 word) :: 11 word) :: 12 word) :: 20 word))"

section \<open>Arithmetic and logic unit\<close>

definition shamt :: "u32 \<Rightarrow> nat" where
  "shamt b = unat (field 0 b :: 5 word)"

definition alu :: "alu_op_e \<Rightarrow> u32 \<Rightarrow> u32 \<Rightarrow> u32" where
  "alu op a b =
     (case op of
        ALU_NONE \<Rightarrow> 0
      | ALU_ADD \<Rightarrow> a + b
      | ALU_SUB \<Rightarrow> a - b
      | ALU_SLL \<Rightarrow> push_bit (shamt b) a
      | ALU_SRL \<Rightarrow> drop_bit (shamt b) a
      | ALU_SRA \<Rightarrow> signed_drop_bit (shamt b) a
      | ALU_SLT \<Rightarrow> of_bool (a <s b)
      | ALU_SLTU \<Rightarrow> of_bool (a < b)
      | ALU_XOR \<Rightarrow> a XOR b
      | ALU_OR \<Rightarrow> a OR b
      | ALU_AND \<Rightarrow> a AND b)"

section \<open>Branch unit\<close>

text \<open>The result is whether the transfer is taken, its target, and whether a taken target is misaligned.\<close>

definition branch_taken :: "branch_e \<Rightarrow> u32 \<Rightarrow> u32 \<Rightarrow> bool" where
  "branch_taken k a b =
     (case k of
        BR_NONE \<Rightarrow> False
      | BR_BEQ \<Rightarrow> a = b
      | BR_BNE \<Rightarrow> a \<noteq> b
      | BR_BLT \<Rightarrow> a <s b
      | BR_BGE \<Rightarrow> b \<le>s a
      | BR_BLTU \<Rightarrow> a < b
      | BR_BGEU \<Rightarrow> b \<le> a
      | BR_JAL \<Rightarrow> True
      | BR_JALR \<Rightarrow> True)"

definition branch_target :: "branch_e \<Rightarrow> u32 \<Rightarrow> u32 \<Rightarrow> u32 \<Rightarrow> u32" where
  "branch_target k pc imm a =
     (case k of BR_NONE \<Rightarrow> 0 | BR_JALR \<Rightarrow> (a + imm) AND 0xfffffffe | _ \<Rightarrow> pc + imm)"

definition branch_unit :: "branch_e \<Rightarrow> u32 \<Rightarrow> u32 \<Rightarrow> u32 \<Rightarrow> u32 \<Rightarrow> bool \<times> u32 \<times> bool" where
  "branch_unit k pc imm a b =
     (let taken = branch_taken k a b; target = branch_target k pc imm a
      in (taken, target, taken \<and> (field 0 target :: 2 word) \<noteq> 0))"

end
