(* ===== verification/Core_Muldiv.thy ===== *)
theory Core_Muldiv
  imports Core_Isa
begin

text \<open>
  The blocking multiplier and divider, \<^verbatim>\<open>mul_unit.sv\<close> and \<^verbatim>\<open>div_unit.sv\<close>, clock by clock. Both take a request when
  idle, work for some clocks and hold their result until it is accepted.
\<close>

text \<open>The operation of the units that an instruction of the M extension asks for.\<close>

primrec mop_mdu :: "mop \<Rightarrow> mdu_op_e" where
  "mop_mdu Mul = MDU_MUL" | "mop_mdu Mulh = MDU_MULH" | "mop_mdu Mulhsu = MDU_MULHSU" | "mop_mdu Mulhu = MDU_MULHU"
| "mop_mdu Div = MDU_DIV" | "mop_mdu Divu = MDU_DIVU" | "mop_mdu Rem = MDU_REM" | "mop_mdu Remu = MDU_REMU"

record mdu_in =
  in_rst :: bool
  in_kill :: bool
  in_req_valid :: bool
  in_op :: mdu_op_e
  in_lhs :: u32
  in_rhs :: u32
  in_rsp_ready :: bool

section \<open>Multiplier\<close>

datatype mul_state_e = MUL_IDLE | MUL_EXEC | MUL_RESP

record mul_unit =
  mul_state :: mul_state_e
  mul_lhs :: "33 word"
  mul_rhs :: "33 word"
  mul_op :: mdu_op_e
  mul_result :: u32

definition mul_reset :: mul_unit where
  "mul_reset = \<lparr>mul_state = MUL_IDLE, mul_lhs = 0, mul_rhs = 0, mul_op = MDU_NONE, mul_result = 0\<rparr>"

definition mul_lhs_ext :: "mdu_op_e \<Rightarrow> u32 \<Rightarrow> 33 word" where
  "mul_lhs_ext op lhs = (if op = MDU_MULH \<or> op = MDU_MULHSU then word_cat (field 31 lhs :: 1 word) lhs
     else word_cat (0 :: 1 word) lhs)"

definition mul_rhs_ext :: "mdu_op_e \<Rightarrow> u32 \<Rightarrow> 33 word" where
  "mul_rhs_ext op rhs = (if op = MDU_MULH then word_cat (field 31 rhs :: 1 word) rhs else word_cat (0 :: 1 word) rhs)"

definition product :: "mul_unit \<Rightarrow> u64" where
  "product m = scast (mul_lhs m) * scast (mul_rhs m)"

definition mul_req_ready :: "bool \<Rightarrow> mul_unit \<Rightarrow> bool" where
  "mul_req_ready kill m \<longleftrightarrow> mul_state m = MUL_IDLE \<and> \<not> kill"

definition mul_rsp_valid :: "bool \<Rightarrow> mul_unit \<Rightarrow> bool" where
  "mul_rsp_valid kill m \<longleftrightarrow> mul_state m = MUL_RESP \<and> \<not> kill"

definition mul_clock :: "mdu_in \<Rightarrow> mul_unit \<Rightarrow> mul_unit" where
  "mul_clock i m =
     (if in_rst i then mul_reset
      else if in_kill i then mul_reset
      else case mul_state m of
        MUL_IDLE \<Rightarrow>
          if in_req_valid i \<and> mul_req_ready (in_kill i) m
          then m\<lparr>mul_lhs := mul_lhs_ext (in_op i) (in_lhs i), mul_rhs := mul_rhs_ext (in_op i) (in_rhs i),
                 mul_op := in_op i, mul_state := MUL_EXEC\<rparr>
          else m
      | MUL_EXEC \<Rightarrow> m\<lparr>mul_result := (if mul_op m = MDU_MUL then lo32 (product m) else hi32 (product m)), mul_state := MUL_RESP\<rparr>
      | MUL_RESP \<Rightarrow> if in_rsp_ready i then m\<lparr>mul_state := MUL_IDLE\<rparr> else m)"

section \<open>Divider\<close>

datatype div_state_e = DIV_IDLE | DIV_RUN | DIV_RESP

record div_unit =
  div_state :: div_state_e
  div_op :: mdu_op_e
  divisor_q :: u32
  quotient_q :: u32
  remainder_q :: u32
  iter_q :: "6 word"
  quotient_neg_q :: bool
  remainder_neg_q :: bool
  div_result :: u32

definition div_reset :: div_unit where
  "div_reset = \<lparr>div_state = DIV_IDLE, div_op = MDU_NONE, divisor_q = 0, quotient_q = 0, remainder_q = 0, iter_q = 0,
     quotient_neg_q = False, remainder_neg_q = False, div_result = 0\<rparr>"

definition input_signed :: "mdu_op_e \<Rightarrow> bool" where
  "input_signed op \<longleftrightarrow> op = MDU_DIV \<or> op = MDU_REM"

definition input_is_div :: "mdu_op_e \<Rightarrow> bool" where
  "input_is_div op \<longleftrightarrow> op = MDU_DIV \<or> op = MDU_DIVU"

definition input_magnitude :: "mdu_op_e \<Rightarrow> u32 \<Rightarrow> u32" where
  "input_magnitude op v = (if input_signed op \<and> bit v 31 then NOT v + 1 else v)"

definition input_signed_overflow :: "mdu_op_e \<Rightarrow> u32 \<Rightarrow> u32 \<Rightarrow> bool" where
  "input_signed_overflow op lhs rhs \<longleftrightarrow> input_signed op \<and> lhs = 0x80000000 \<and> rhs = 0xffffffff"

definition input_small_magnitude :: "mdu_op_e \<Rightarrow> u32 \<Rightarrow> u32 \<Rightarrow> bool" where
  "input_small_magnitude op lhs rhs \<longleftrightarrow> input_magnitude op lhs < input_magnitude op rhs \<and> rhs \<noteq> 0 \<and>
     \<not> input_signed_overflow op lhs rhs"

text \<open>One step of the restoring division: the new remainder and quotient.\<close>

definition remainder_shifted :: "div_unit \<Rightarrow> 33 word" where
  "remainder_shifted d = word_cat (remainder_q d) (field 31 (quotient_q d) :: 1 word)"

definition division_step :: "div_unit \<Rightarrow> u32 \<times> u32" where
  "division_step d =
     (let rs = remainder_shifted d; qs = word_cat (field 0 (quotient_q d) :: 31 word) (0 :: 1 word) :: u32
      in if (word_cat (0 :: 1 word) (divisor_q d) :: 33 word) \<le> rs
         then (ucast rs - divisor_q d, set_bit 0 qs) else (ucast rs, qs))"

definition corrected :: "bool \<Rightarrow> u32 \<Rightarrow> u32" where
  "corrected neg v = (if neg then NOT v + 1 else v)"

definition div_req_ready :: "bool \<Rightarrow> div_unit \<Rightarrow> bool" where
  "div_req_ready kill d \<longleftrightarrow> div_state d = DIV_IDLE \<and> \<not> kill"

definition div_rsp_valid :: "bool \<Rightarrow> div_unit \<Rightarrow> bool" where
  "div_rsp_valid kill d \<longleftrightarrow> div_state d = DIV_RESP \<and> \<not> kill"

definition div_accept :: "mdu_op_e \<Rightarrow> u32 \<Rightarrow> u32 \<Rightarrow> div_unit \<Rightarrow> div_unit" where
  "div_accept op lhs rhs d =
     (let d = d\<lparr>div_op := op, divisor_q := 0, quotient_q := 0, remainder_q := 0, iter_q := 0,
                quotient_neg_q := False, remainder_neg_q := False\<rparr>
      in if rhs = 0 then d\<lparr>div_result := (if input_is_div op then 0xffffffff else lhs), div_state := DIV_RESP\<rparr>
         else if input_signed_overflow op lhs rhs
         then d\<lparr>div_result := (if input_is_div op then 0x80000000 else 0), div_state := DIV_RESP\<rparr>
         else if input_small_magnitude op lhs rhs
         then d\<lparr>div_result := (if input_is_div op then 0 else lhs), div_state := DIV_RESP\<rparr>
         else d\<lparr>divisor_q := input_magnitude op rhs, quotient_q := input_magnitude op lhs,
                quotient_neg_q := input_signed op \<and> bit lhs 31 \<noteq> bit rhs 31,
                remainder_neg_q := input_signed op \<and> bit lhs 31, div_state := DIV_RUN\<rparr>)"

definition div_clock :: "mdu_in \<Rightarrow> div_unit \<Rightarrow> div_unit" where
  "div_clock i d =
     (if in_rst i then div_reset
      else if in_kill i then div_reset
      else case div_state d of
        DIV_IDLE \<Rightarrow>
          if in_req_valid i \<and> div_req_ready (in_kill i) d then div_accept (in_op i) (in_lhs i) (in_rhs i) d else d
      | DIV_RUN \<Rightarrow>
          (let (r, q) = division_step d; d' = d\<lparr>quotient_q := q, remainder_q := r\<rparr>
           in if iter_q d = 31
              then d'\<lparr>div_result := (if div_op d = MDU_DIV \<or> div_op d = MDU_DIVU then corrected (quotient_neg_q d) q
                                     else corrected (remainder_neg_q d) r), div_state := DIV_RESP\<rparr>
              else d'\<lparr>iter_q := iter_q d + 1\<rparr>)
      | DIV_RESP \<Rightarrow> if in_rsp_ready i then d\<lparr>div_state := DIV_IDLE\<rparr> else d)"

section \<open>A unit over time\<close>

text \<open>The state after \<open>n\<close> clocks, \<open>ins k\<close> being the inputs of clock \<open>k\<close>.\<close>

primrec after :: "('i \<Rightarrow> 's \<Rightarrow> 's) \<Rightarrow> (nat \<Rightarrow> 'i) \<Rightarrow> nat \<Rightarrow> 's \<Rightarrow> 's" where
  "after f ins 0 s = s"
| "after f ins (Suc n) s = f (ins n) (after f ins n s)"

definition request_of :: "mdu_in \<Rightarrow> mdu_op_e \<Rightarrow> u32 \<Rightarrow> u32 \<Rightarrow> bool" where
  "request_of i op a b \<longleftrightarrow> in_req_valid i \<and> in_op i = op \<and> in_lhs i = a \<and> in_rhs i = b"

definition undisturbed :: "mdu_in \<Rightarrow> bool" where
  "undisturbed i \<longleftrightarrow> \<not> in_rst i \<and> \<not> in_kill i"

end
