(* ===== verification/Core_Stages.thy ===== *)
theory Core_Stages
  imports Core_Csr Core_Decode Core_Muldiv
begin

text \<open>
  The combinational part of the pipeline's stages: the packets of the pipeline registers, the decode stage
  (\<^verbatim>\<open>id_stage.sv\<close>, \<^verbatim>\<open>regfile.sv\<close>), the execute stage (\<^verbatim>\<open>ex_stage.sv\<close>) and the units that keep
  their order (\<^verbatim>\<open>forwarding_unit.sv\<close>, \<^verbatim>\<open>hazard_unit.sv\<close>).
\<close>

section \<open>Packets\<close>

record redirect_t =
  redirect_valid :: bool
  redirect_target :: u32

record if_id_t =
  f_valid :: bool
  f_pc :: u32
  f_insn :: u32
  f_exc :: exc_t

record id_ex_t =
  d_valid :: bool
  d_pc :: u32
  d_insn :: u32
  d_rs1 :: reg_addr_t
  d_rs2 :: reg_addr_t
  d_rd :: reg_addr_t
  d_rs1_value :: u32
  d_rs2_value :: u32
  d_imm :: u32
  d_ctrl :: decode_ctrl_t
  d_exc :: exc_t

record ex_mem_t =
  e_valid :: bool
  e_pc :: u32
  e_insn :: u32
  e_rd :: reg_addr_t
  e_reg_write :: bool
  e_wb_sel :: wb_sel_e
  e_ex_result :: u32
  e_store_data :: u32
  e_mem_cmd :: mem_cmd_e
  e_mem_size :: mem_size_e
  e_load_unsigned :: bool
  e_csr_addr :: csr_addr_t
  e_csr_write :: bool
  e_csr_wdata :: u32
  e_csr_old :: u32
  e_is_mret :: bool
  e_control :: bool
  e_control_taken :: bool
  e_control_target :: u32
  e_exc :: exc_t

record mem_wb_t =
  w_valid :: bool
  w_pc :: u32
  w_insn :: u32
  w_rd :: reg_addr_t
  w_reg_write :: bool
  w_wb_data :: u32
  w_csr_write :: bool
  w_csr_addr :: csr_addr_t
  w_csr_wdata :: u32
  w_is_mret :: bool
  w_mem_write :: bool
  w_mem_addr :: u32
  w_mem_wstrb :: "4 word"
  w_mem_wdata :: u32
  w_control :: bool
  w_control_taken :: bool
  w_control_target :: u32
  w_exc :: exc_t

definition no_redirect :: redirect_t where
  "no_redirect = \<lparr>redirect_valid = False, redirect_target = 0\<rparr>"

definition if_id_0 :: if_id_t where
  "if_id_0 = \<lparr>f_valid = False, f_pc = 0, f_insn = 0, f_exc = no_exc\<rparr>"

definition id_ex_0 :: id_ex_t where
  "id_ex_0 = \<lparr>d_valid = False, d_pc = 0, d_insn = 0, d_rs1 = 0, d_rs2 = 0, d_rd = 0, d_rs1_value = 0, d_rs2_value = 0,
     d_imm = 0, d_ctrl = no_ctrl, d_exc = no_exc\<rparr>"

definition ex_mem_0 :: ex_mem_t where
  "ex_mem_0 = \<lparr>e_valid = False, e_pc = 0, e_insn = 0, e_rd = 0, e_reg_write = False, e_wb_sel = WB_EX_RESULT,
     e_ex_result = 0, e_store_data = 0, e_mem_cmd = MEM_NONE, e_mem_size = MEM_BYTE, e_load_unsigned = False,
     e_csr_addr = 0, e_csr_write = False, e_csr_wdata = 0, e_csr_old = 0, e_is_mret = False, e_control = False,
     e_control_taken = False, e_control_target = 0, e_exc = no_exc\<rparr>"

definition mem_wb_0 :: mem_wb_t where
  "mem_wb_0 = \<lparr>w_valid = False, w_pc = 0, w_insn = 0, w_rd = 0, w_reg_write = False, w_wb_data = 0, w_csr_write = False,
     w_csr_addr = 0, w_csr_wdata = 0, w_is_mret = False, w_mem_write = False, w_mem_addr = 0, w_mem_wstrb = 0,
     w_mem_wdata = 0, w_control = False, w_control_taken = False, w_control_target = 0, w_exc = no_exc\<rparr>"

section \<open>Decode stage\<close>

text \<open>The register file; \<open>regs 0\<close> is not storage, reads of register 0 give zero and writes to it are dropped.\<close>

definition regfile_read :: "(reg_addr_t \<Rightarrow> u32) \<Rightarrow> reg_addr_t \<Rightarrow> u32" where
  "regfile_read regs r = (if r \<noteq> 0 then regs r else 0)"

definition regfile_clock :: "bool \<Rightarrow> reg_addr_t \<Rightarrow> u32 \<Rightarrow> (reg_addr_t \<Rightarrow> u32) \<Rightarrow> (reg_addr_t \<Rightarrow> u32)" where
  "regfile_clock we a v regs = (if we \<and> a \<noteq> 0 then regs(a := v) else regs)"

text \<open>An operand, with the value that is being written back in this clock.\<close>

definition id_operand :: "(reg_addr_t \<Rightarrow> u32) \<Rightarrow> bool \<Rightarrow> reg_addr_t \<Rightarrow> u32 \<Rightarrow> bool \<Rightarrow> reg_addr_t \<Rightarrow> u32" where
  "id_operand regs wb_we wb_rd wb_data uses r =
     (if uses then if wb_we \<and> wb_rd \<noteq> 0 \<and> wb_rd = r then wb_data else regfile_read regs r else 0)"

definition id_exception :: "if_id_t \<Rightarrow> bool \<Rightarrow> exc_t" where
  "id_exception p illegal =
     (if \<not> exc_valid (f_exc p)
      then if illegal then exception EXC_ILLEGAL_INSN (f_insn p)
           else if f_insn p = INSN_ECALL then exception EXC_ECALL_M 0
           else if f_insn p = INSN_EBREAK then exception EXC_BREAKPOINT (f_pc p)
           else f_exc p
      else f_exc p)"

definition id_stage :: "(reg_addr_t \<Rightarrow> u32) \<Rightarrow> bool \<Rightarrow> reg_addr_t \<Rightarrow> u32 \<Rightarrow> if_id_t \<Rightarrow> id_ex_t" where
  "id_stage regs wb_we wb_rd wb_data p =
     (let dec = decoder (f_insn p); ctrl = dec_ctrl dec;
          d = \<lparr>d_valid = True, d_pc = f_pc p, d_insn = f_insn p, d_rs1 = dec_rs1 dec, d_rs2 = dec_rs2 dec, d_rd = dec_rd dec,
               d_rs1_value = id_operand regs wb_we wb_rd wb_data (uses_rs1 ctrl) (dec_rs1 dec),
               d_rs2_value = id_operand regs wb_we wb_rd wb_data (uses_rs2 ctrl) (dec_rs2 dec),
               d_imm = imm_gen (f_insn p) (dec_imm_sel dec), d_ctrl = ctrl, d_exc = id_exception p (dec_illegal dec)\<rparr>
      in if f_valid p
         then if exc_valid (d_exc d) then d\<lparr>d_rs1_value := 0, d_rs2_value := 0, d_ctrl := no_ctrl\<rparr> else d
         else id_ex_0)"

section \<open>Forwarding\<close>

definition source_matches :: "bool \<Rightarrow> reg_addr_t \<Rightarrow> bool \<Rightarrow> reg_addr_t \<Rightarrow> bool" where
  "source_matches producer_ready producer_rd consumer_uses consumer_rs \<longleftrightarrow>
     producer_ready \<and> consumer_uses \<and> producer_rd = consumer_rs"

definition ex_mem_value_ready :: "ex_mem_t \<Rightarrow> bool" where
  "ex_mem_value_ready e \<longleftrightarrow> e_valid e \<and> e_reg_write e \<and> \<not> exc_valid (e_exc e) \<and> e_rd e \<noteq> 0 \<and> e_wb_sel e \<noteq> WB_LOAD"

definition mem_wb_value_ready :: "mem_wb_t \<Rightarrow> bool" where
  "mem_wb_value_ready w \<longleftrightarrow> w_valid w \<and> w_reg_write w \<and> \<not> exc_valid (w_exc w) \<and> w_rd w \<noteq> 0"

definition forward_sel :: "id_ex_t \<Rightarrow> ex_mem_t \<Rightarrow> mem_wb_t \<Rightarrow> bool \<Rightarrow> reg_addr_t \<Rightarrow> fwd_sel_e" where
  "forward_sel d e w uses rs =
     (if d_valid d \<and> \<not> exc_valid (d_exc d)
      then if source_matches (ex_mem_value_ready e) (e_rd e) uses rs then FWD_EX_MEM
           else if source_matches (mem_wb_value_ready w) (w_rd w) uses rs then FWD_MEM_WB else FWD_REGFILE
      else FWD_REGFILE)"

definition select_forwarded_operand :: "fwd_sel_e \<Rightarrow> u32 \<Rightarrow> u32 \<Rightarrow> u32 \<Rightarrow> u32" where
  "select_forwarded_operand sel regfile_value ex_mem_value mem_wb_value =
     (case sel of FWD_EX_MEM \<Rightarrow> ex_mem_value | FWD_MEM_WB \<Rightarrow> mem_wb_value | FWD_REGFILE \<Rightarrow> regfile_value)"

definition ex_mem_fwd_value :: "ex_mem_t \<Rightarrow> u32" where
  "ex_mem_fwd_value e =
     (case e_wb_sel e of WB_EX_RESULT \<Rightarrow> e_ex_result e | WB_PC4 \<Rightarrow> e_pc e + 4 | WB_CSR \<Rightarrow> e_csr_old e | WB_LOAD \<Rightarrow> 0)"

definition forwarded_rs1 :: "id_ex_t \<Rightarrow> ex_mem_t \<Rightarrow> mem_wb_t \<Rightarrow> u32" where
  "forwarded_rs1 d e w = select_forwarded_operand (forward_sel d e w (uses_rs1 (d_ctrl d)) (d_rs1 d)) (d_rs1_value d)
     (ex_mem_fwd_value e) (w_wb_data w)"

definition forwarded_rs2 :: "id_ex_t \<Rightarrow> ex_mem_t \<Rightarrow> mem_wb_t \<Rightarrow> u32" where
  "forwarded_rs2 d e w = select_forwarded_operand (forward_sel d e w (uses_rs2 (d_ctrl d)) (d_rs2 d)) (d_rs2_value d)
     (ex_mem_fwd_value e) (w_wb_data w)"

section \<open>Hazards\<close>

definition raw_match :: "bool \<Rightarrow> bool \<Rightarrow> reg_addr_t \<Rightarrow> bool \<Rightarrow> reg_addr_t \<Rightarrow> bool" where
  "raw_match producer_valid producer_writes producer_rd consumer_uses consumer_rs \<longleftrightarrow>
     producer_valid \<and> producer_writes \<and> producer_rd \<noteq> 0 \<and> consumer_uses \<and> producer_rd = consumer_rs"

definition csr_command_writes :: "csr_cmd_e \<Rightarrow> reg_addr_t \<Rightarrow> bool" where
  "csr_command_writes cmd source =
     (case cmd of CSR_RW \<Rightarrow> True | CSR_RWI \<Rightarrow> True | CSR_RS \<Rightarrow> source \<noteq> 0 | CSR_RC \<Rightarrow> source \<noteq> 0 | CSR_RSI \<Rightarrow> source \<noteq> 0
      | CSR_RCI \<Rightarrow> source \<noteq> 0 | CSR_NONE \<Rightarrow> False)"

definition csr_addresses_conflict :: "csr_addr_t \<Rightarrow> csr_addr_t \<Rightarrow> bool" where
  "csr_addresses_conflict consumer producer =
     (if consumer = CSR_MCYCLE \<or> consumer = CSR_MCYCLEH then producer = CSR_MCYCLE \<or> producer = CSR_MCYCLEH
      else if consumer = CSR_MINSTRET \<or> consumer = CSR_MINSTRETH then producer = CSR_MINSTRET \<or> producer = CSR_MINSTRETH
      else consumer = producer)"

definition csr_addr_of :: "u32 \<Rightarrow> csr_addr_t" where
  "csr_addr_of insn = field 20 insn"

definition load_use :: "id_ex_t \<Rightarrow> id_ex_t \<Rightarrow> bool" where
  "load_use c d \<longleftrightarrow>
     (let is_load = d_valid d \<and> \<not> exc_valid (d_exc d) \<and> reg_write (d_ctrl d) \<and> mem_cmd (d_ctrl d) = MEM_LOAD
      in d_valid c \<and>
         (raw_match is_load (reg_write (d_ctrl d)) (d_rd d) (uses_rs1 (d_ctrl c)) (d_rs1 c) \<or>
          raw_match is_load (reg_write (d_ctrl d)) (d_rd d) (uses_rs2 (d_ctrl c)) (d_rs2 c)))"

definition id_ex_csr_writer :: "id_ex_t \<Rightarrow> bool" where
  "id_ex_csr_writer d \<longleftrightarrow> d_valid d \<and> \<not> exc_valid (d_exc d) \<and> csr_command_writes (csr_cmd (d_ctrl d)) (d_rs1 d)"

definition ex_mem_csr_writer :: "ex_mem_t \<Rightarrow> bool" where
  "ex_mem_csr_writer e \<longleftrightarrow> e_valid e \<and> \<not> exc_valid (e_exc e) \<and> e_csr_write e"

definition csr_dependency :: "id_ex_t \<Rightarrow> id_ex_t \<Rightarrow> ex_mem_t \<Rightarrow> bool" where
  "csr_dependency c d e \<longleftrightarrow> d_valid c \<and> csr_cmd (d_ctrl c) \<noteq> CSR_NONE \<and>
     (id_ex_csr_writer d \<and> csr_addresses_conflict (csr_addr_of (d_insn c)) (csr_addr_of (d_insn d)) \<or>
      ex_mem_csr_writer e \<and> csr_addresses_conflict (csr_addr_of (d_insn c)) (e_csr_addr e))"

definition mret_dependency :: "id_ex_t \<Rightarrow> id_ex_t \<Rightarrow> ex_mem_t \<Rightarrow> bool" where
  "mret_dependency c d e \<longleftrightarrow> d_valid c \<and> is_mret (d_ctrl c) \<and>
     (id_ex_csr_writer d \<and> csr_addr_of (d_insn d) = CSR_MEPC \<or> ex_mem_csr_writer e \<and> e_csr_addr e = CSR_MEPC)"

definition minstret_dependency :: "id_ex_t \<Rightarrow> id_ex_t \<Rightarrow> ex_mem_t \<Rightarrow> bool" where
  "minstret_dependency c d e \<longleftrightarrow> d_valid c \<and> csr_cmd (d_ctrl c) \<noteq> CSR_NONE \<and>
     (csr_addr_of (d_insn c) = CSR_MINSTRET \<or> csr_addr_of (d_insn c) = CSR_MINSTRETH) \<and>
     (d_valid d \<and> \<not> exc_valid (d_exc d) \<or> e_valid e \<and> \<not> exc_valid (e_exc e))"

definition csr_dep :: "id_ex_t \<Rightarrow> id_ex_t \<Rightarrow> ex_mem_t \<Rightarrow> bool" where
  "csr_dep c d e \<longleftrightarrow> csr_dependency c d e \<or> mret_dependency c d e \<or> minstret_dependency c d e"

section \<open>Execute stage\<close>

definition is_mul :: "id_ex_t \<Rightarrow> bool" where
  "is_mul d \<longleftrightarrow> mdu_op (d_ctrl d) \<in> {MDU_MUL, MDU_MULH, MDU_MULHSU, MDU_MULHU}"

definition is_div :: "id_ex_t \<Rightarrow> bool" where
  "is_div d \<longleftrightarrow> mdu_op (d_ctrl d) \<in> {MDU_DIV, MDU_DIVU, MDU_REM, MDU_REMU}"

definition is_mdu :: "id_ex_t \<Rightarrow> bool" where
  "is_mdu d \<longleftrightarrow> (is_mul d \<or> is_div d) \<and> \<not> exc_valid (d_exc d)"

definition is_csr :: "id_ex_t \<Rightarrow> bool" where
  "is_csr d \<longleftrightarrow> csr_cmd (d_ctrl d) \<noteq> CSR_NONE"

definition is_control :: "id_ex_t \<Rightarrow> bool" where
  "is_control d \<longleftrightarrow> branch_kind (d_ctrl d) \<noteq> BR_NONE \<or> is_mret (d_ctrl d)"

definition alu_result :: "id_ex_t \<Rightarrow> u32 \<Rightarrow> u32 \<Rightarrow> u32" where
  "alu_result d rs1 rs2 =
     alu (alu_op (d_ctrl d))
       (case op_a_sel (d_ctrl d) of OP_A_RS1 \<Rightarrow> rs1 | OP_A_PC \<Rightarrow> d_pc d | OP_A_ZERO \<Rightarrow> 0)
       (case op_b_sel (d_ctrl d) of OP_B_RS2 \<Rightarrow> rs2 | OP_B_IMM \<Rightarrow> d_imm d)"

text \<open>The value a CSR instruction writes, and whether it writes.\<close>

definition csr_wdata :: "id_ex_t \<Rightarrow> u32 \<Rightarrow> u32 \<Rightarrow> u32" where
  "csr_wdata d rdata rs1 =
     (case csr_cmd (d_ctrl d) of
        CSR_RW \<Rightarrow> rs1 | CSR_RS \<Rightarrow> rdata OR rs1 | CSR_RC \<Rightarrow> rdata AND NOT rs1
      | CSR_RWI \<Rightarrow> ucast (d_rs1 d) | CSR_RSI \<Rightarrow> rdata OR ucast (d_rs1 d) | CSR_RCI \<Rightarrow> rdata AND NOT (ucast (d_rs1 d))
      | CSR_NONE \<Rightarrow> 0)"

definition csr_write_enable :: "id_ex_t \<Rightarrow> bool" where
  "csr_write_enable d =
     (case csr_cmd (d_ctrl d) of
        CSR_RW \<Rightarrow> True | CSR_RS \<Rightarrow> d_rs1 d \<noteq> 0 | CSR_RC \<Rightarrow> d_rs1 d \<noteq> 0
      | CSR_RWI \<Rightarrow> True | CSR_RSI \<Rightarrow> d_rs1 d \<noteq> 0 | CSR_RCI \<Rightarrow> d_rs1 d \<noteq> 0 | CSR_NONE \<Rightarrow> False)"

definition control_transfer :: "id_ex_t \<Rightarrow> u32 \<Rightarrow> u32 \<Rightarrow> u32 \<Rightarrow> bool \<times> u32 \<times> bool" where
  "control_transfer d rs1 rs2 mepc =
     (if is_mret (d_ctrl d) then (True, mepc, (field 0 mepc :: 2 word) \<noteq> 0)
      else branch_unit (branch_kind (d_ctrl d)) (d_pc d) (d_imm d) rs1 rs2)"

text \<open>
  The packet of an instruction with a result: \<open>rs1\<close> and \<open>rs2\<close> are the forwarded operands, \<open>mdu\<close> is what the multiplier or
  divider returns, \<open>rdata\<close> and \<open>illegal\<close> are the answers of the register file to the CSR address.
\<close>

definition ex_exc :: "id_ex_t \<Rightarrow> bool \<Rightarrow> bool \<times> u32 \<times> bool \<Rightarrow> exc_t" where
  "ex_exc d illegal ct =
     (if \<not> exc_valid (d_exc d)
      then if is_csr d \<and> illegal then (d_exc d)\<lparr>exc_valid := True, exc_cause := EXC_ILLEGAL_INSN, exc_tval := d_insn d\<rparr>
           else if is_control d \<and> snd (snd ct)
           then (d_exc d)\<lparr>exc_valid := True, exc_cause := EXC_INST_ADDR_MISALIGNED, exc_tval := fst (snd ct)\<rparr>
           else d_exc d
      else d_exc d)"

definition ex_packet :: "id_ex_t \<Rightarrow> u32 \<Rightarrow> u32 \<Rightarrow> u32 \<Rightarrow> u32 \<Rightarrow> bool \<Rightarrow> u32 \<Rightarrow> ex_mem_t" where
  "ex_packet d rs1 rs2 mdu rdata illegal mepc =
     (let ct = control_transfer d rs1 rs2 mepc;
          e = \<lparr>e_valid = True, e_pc = d_pc d, e_insn = d_insn d, e_rd = d_rd d, e_reg_write = reg_write (d_ctrl d),
               e_wb_sel = wb_sel (d_ctrl d), e_ex_result = (if is_mdu d then mdu else alu_result d rs1 rs2), e_store_data = rs2,
               e_mem_cmd = mem_cmd (d_ctrl d), e_mem_size = mem_size (d_ctrl d), e_load_unsigned = load_unsigned (d_ctrl d),
               e_csr_addr = (if is_csr d then csr_addr_of (d_insn d) else 0), e_csr_write = is_csr d \<and> csr_write_enable d,
               e_csr_wdata = (if is_csr d then csr_wdata d rdata rs1 else 0), e_csr_old = (if is_csr d then rdata else 0),
               e_is_mret = is_mret (d_ctrl d), e_control = is_control d, e_control_taken = fst ct,
               e_control_target = fst (snd ct), e_exc = ex_exc d illegal ct\<rparr>
      in if exc_valid (e_exc e) then e\<lparr>e_reg_write := False, e_mem_cmd := MEM_NONE, e_csr_write := False, e_is_mret := False\<rparr>
         else e)"

definition ex_redirect :: "ex_mem_t \<Rightarrow> bool \<Rightarrow> redirect_t" where
  "ex_redirect e fire =
     (if fire \<and> e_control e \<and> e_control_taken e \<and> \<not> exc_valid (e_exc e)
      then \<lparr>redirect_valid = True, redirect_target = e_control_target e\<rparr> else no_redirect)"

end
