(* ===== verification/Core_Pipe.thy ===== *)
theory Core_Pipe
  imports Core_Stages Core_Fetch
begin

text \<open>
  The processor, \<^verbatim>\<open>rv32_core.sv\<close>, clock by clock: the pipeline registers, the controller \<^verbatim>\<open>pipeline_ctrl.sv\<close> and the
  single commit point, around the modules of the other theories.
\<close>

section \<open>Pipeline controller\<close>

datatype pipeline_action_e = ACTION_ADVANCE | ACTION_ID_HAZARD | ACTION_IRQ_STATE_WAIT | ACTION_ID_EXCEPTION | ACTION_ID_INTERRUPT
  | ACTION_EX_REDIRECT | ACTION_TRAP_DRAIN | ACTION_EX_WAIT | ACTION_EX_EXCEPTION | ACTION_MEM_WAIT | ACTION_MEM_EXCEPTION
  | ACTION_WB_TRAP | ACTION_RESET

record ctrl_in =
  ci_rst :: bool
  ci_load_use :: bool
  ci_csr_dep :: bool
  ci_irq_state_wait :: bool
  ci_ex_wait :: bool
  ci_mem_wait :: bool
  ci_id_exception :: bool
  ci_id_interrupt :: bool
  ci_ex_exception :: bool
  ci_mem_exception :: bool
  ci_wb_trap :: bool
  ci_redirect :: redirect_t
  ci_mtvec :: u32

definition pipeline_action :: "bool \<Rightarrow> ctrl_in \<Rightarrow> pipeline_action_e" where
  "pipeline_action drain c =
     (if ci_rst c then ACTION_RESET
      else if ci_wb_trap c then ACTION_WB_TRAP
      else if ci_mem_exception c then ACTION_MEM_EXCEPTION
      else if ci_mem_wait c then ACTION_MEM_WAIT
      else if ci_ex_exception c then ACTION_EX_EXCEPTION
      else if ci_ex_wait c then ACTION_EX_WAIT
      else if drain then ACTION_TRAP_DRAIN
      else if redirect_valid (ci_redirect c) then ACTION_EX_REDIRECT
      else if ci_irq_state_wait c then ACTION_IRQ_STATE_WAIT
      else if ci_id_exception c then ACTION_ID_EXCEPTION
      else if ci_id_interrupt c then ACTION_ID_INTERRUPT
      else if ci_load_use c \<or> ci_csr_dep c then ACTION_ID_HAZARD
      else ACTION_ADVANCE)"

record ctrl_out =
  co_pc_enable :: bool
  co_if_id_enable :: bool
  co_id_ex_enable :: bool
  co_ex_mem_enable :: bool
  co_mem_wb_enable :: bool
  co_if_id_flush :: bool
  co_id_ex_flush :: bool
  co_ex_mem_flush :: bool
  co_mem_wb_flush :: bool
  co_redirect :: redirect_t
  co_trap_drain_d :: bool

definition ctrl_advance :: "bool \<Rightarrow> ctrl_out" where
  "ctrl_advance drain =
     \<lparr>co_pc_enable = True, co_if_id_enable = True, co_id_ex_enable = True, co_ex_mem_enable = True, co_mem_wb_enable = True,
      co_if_id_flush = False, co_id_ex_flush = False, co_ex_mem_flush = False, co_mem_wb_flush = False,
      co_redirect = no_redirect, co_trap_drain_d = drain\<rparr>"

definition ctrl_of_action :: "bool \<Rightarrow> ctrl_in \<Rightarrow> pipeline_action_e \<Rightarrow> ctrl_out" where
  "ctrl_of_action drain c a =
     (let o1 = ctrl_advance drain
      in case a of
        ACTION_RESET \<Rightarrow>
          o1\<lparr>co_pc_enable := False, co_if_id_enable := False, co_id_ex_enable := False, co_ex_mem_enable := False,
             co_mem_wb_enable := False, co_if_id_flush := True, co_id_ex_flush := True, co_ex_mem_flush := True,
             co_mem_wb_flush := True, co_trap_drain_d := False\<rparr>
      | ACTION_WB_TRAP \<Rightarrow>
          o1\<lparr>co_if_id_flush := True, co_id_ex_flush := True, co_ex_mem_flush := True, co_mem_wb_flush := True,
             co_redirect := \<lparr>redirect_valid = True, redirect_target = word_cat (field 2 (ci_mtvec c) :: 30 word) (0 :: 2 word)\<rparr>,
             co_trap_drain_d := False\<rparr>
      | ACTION_MEM_EXCEPTION \<Rightarrow>
          o1\<lparr>co_pc_enable := False, co_if_id_flush := True, co_id_ex_flush := True, co_ex_mem_flush := True,
             co_trap_drain_d := True\<rparr>
      | ACTION_MEM_WAIT \<Rightarrow>
          o1\<lparr>co_pc_enable := False, co_if_id_enable := False, co_id_ex_enable := False, co_ex_mem_enable := False,
             co_mem_wb_flush := True\<rparr>
      | ACTION_EX_EXCEPTION \<Rightarrow>
          o1\<lparr>co_pc_enable := False, co_if_id_flush := True, co_id_ex_flush := True, co_trap_drain_d := True\<rparr>
      | ACTION_EX_WAIT \<Rightarrow>
          o1\<lparr>co_pc_enable := False, co_if_id_enable := False, co_id_ex_enable := False, co_ex_mem_flush := True\<rparr>
      | ACTION_TRAP_DRAIN \<Rightarrow> o1\<lparr>co_pc_enable := False, co_if_id_enable := False\<rparr>
      | ACTION_EX_REDIRECT \<Rightarrow>
          o1\<lparr>co_redirect := \<lparr>redirect_valid = True, redirect_target = redirect_target (ci_redirect c)\<rparr>,
             co_if_id_flush := True, co_id_ex_flush := True\<rparr>
      | ACTION_ID_EXCEPTION \<Rightarrow> o1\<lparr>co_pc_enable := False, co_if_id_flush := True, co_trap_drain_d := True\<rparr>
      | ACTION_ID_INTERRUPT \<Rightarrow> o1\<lparr>co_pc_enable := False, co_if_id_flush := True, co_trap_drain_d := True\<rparr>
      | ACTION_IRQ_STATE_WAIT \<Rightarrow> o1\<lparr>co_pc_enable := False, co_if_id_enable := False, co_id_ex_flush := True\<rparr>
      | ACTION_ID_HAZARD \<Rightarrow> o1\<lparr>co_pc_enable := False, co_if_id_enable := False, co_id_ex_flush := True\<rparr>
      | ACTION_ADVANCE \<Rightarrow> o1)"

definition pipeline_ctrl :: "bool \<Rightarrow> ctrl_in \<Rightarrow> ctrl_out" where
  "pipeline_ctrl drain c = ctrl_of_action drain c (pipeline_action drain c)"

section \<open>State\<close>

record core =
  fetch :: if_stage
  if_id_q :: if_id_t
  id_ex_q :: id_ex_t
  ex_mem_q :: ex_mem_t
  mem_wb_q :: mem_wb_t
  trap_drain_q :: bool
  regs :: "reg_addr_t \<Rightarrow> u32"
  csrf :: csr_file
  mul :: mul_unit
  divu :: div_unit
  lsu_s :: lsu

record core_in =
  in_reset :: bool
  in_mtip :: bool
  imem :: mem_in
  dmem :: mem_in

section \<open>Commit\<close>

definition wb_trap :: "core \<Rightarrow> bool" where
  "wb_trap s \<longleftrightarrow> w_valid (mem_wb_q s) \<and> exc_valid (w_exc (mem_wb_q s))"

definition wb_retire :: "core \<Rightarrow> bool" where
  "wb_retire s \<longleftrightarrow> w_valid (mem_wb_q s) \<and> \<not> exc_valid (w_exc (mem_wb_q s))"

definition wb_reg_write :: "core \<Rightarrow> bool" where
  "wb_reg_write s \<longleftrightarrow> wb_retire s \<and> w_reg_write (mem_wb_q s) \<and> w_rd (mem_wb_q s) \<noteq> 0"

definition wb_csr_in :: "core \<Rightarrow> csr_in" where
  "wb_csr_in s =
     (let w = mem_wb_q s
      in \<lparr>commit_write = wb_retire s \<and> w_csr_write w, commit_waddr = w_csr_addr w, commit_wdata = w_csr_wdata w,
          retire_i = wb_retire s, mret_commit = wb_retire s \<and> w_is_mret w, trap_valid = wb_trap s, trap_pc = w_pc w,
          trap_is_interrupt = exc_irq (w_exc w), trap_cause = exc_cause (w_exc w), trap_tval = exc_tval (w_exc w)\<rparr>)"

section \<open>Memory stage\<close>

definition mem_is_memory :: "core \<Rightarrow> bool" where
  "mem_is_memory s \<longleftrightarrow> e_valid (ex_mem_q s) \<and> \<not> exc_valid (e_exc (ex_mem_q s)) \<and>
     (e_mem_cmd (ex_mem_q s) = MEM_LOAD \<or> e_mem_cmd (ex_mem_q s) = MEM_STORE)"

text \<open>The inputs of the load/store unit but for \<open>rsp_ready_i\<close>, on which none of its outputs depends.\<close>

definition lsu_inputs :: "core \<Rightarrow> bool \<Rightarrow> lsu_in" where
  "lsu_inputs s rsp_ready =
     (let e = ex_mem_q s
      in \<lparr>kill_i = wb_trap s, req_valid_i = mem_is_memory s \<and> \<not> wb_trap s, cmd_i = e_mem_cmd e, size_i = e_mem_size e,
          load_unsigned_i = e_load_unsigned e, addr_i = e_ex_result e, store_data_i = e_store_data e, rsp_ready_i = rsp_ready\<rparr>)"

definition lsu_done :: "core_in \<Rightarrow> core \<Rightarrow> (u32 \<times> exc_t) option" where
  "lsu_done i s = lsu_rsp (in_reset i) (lsu_inputs s False) (dmem i) (lsu_s s)"

definition mem_wait :: "core_in \<Rightarrow> core \<Rightarrow> bool" where
  "mem_wait i s \<longleftrightarrow> mem_is_memory s \<and> lsu_done i s = None"

definition mem_exception :: "core_in \<Rightarrow> core \<Rightarrow> bool" where
  "mem_exception i s \<longleftrightarrow> mem_is_memory s \<and> (case lsu_done i s of None \<Rightarrow> False | Some (_, x) \<Rightarrow> exc_valid x)"

definition mem_packet_plain :: "ex_mem_t \<Rightarrow> mem_wb_t" where
  "mem_packet_plain e =
     mem_wb_0\<lparr>w_valid := True, w_pc := e_pc e, w_insn := e_insn e, w_rd := e_rd e, w_reg_write := e_reg_write e,
       w_csr_write := e_csr_write e, w_csr_addr := e_csr_addr e, w_csr_wdata := e_csr_wdata e, w_is_mret := e_is_mret e,
       w_control := e_control e, w_control_taken := e_control_taken e, w_control_target := e_control_target e, w_exc := e_exc e,
       w_wb_data := (case e_wb_sel e of WB_EX_RESULT \<Rightarrow> e_ex_result e | WB_PC4 \<Rightarrow> e_pc e + 4 | WB_CSR \<Rightarrow> e_csr_old e | WB_LOAD \<Rightarrow> 0)\<rparr>"

definition mem_packet_memory :: "ex_mem_t \<Rightarrow> u32 \<Rightarrow> exc_t \<Rightarrow> 4 word \<times> u32 \<Rightarrow> mem_wb_t" where
  "mem_packet_memory e data x tr =
     (let w = mem_wb_0\<lparr>w_valid := True, w_pc := e_pc e, w_insn := e_insn e, w_rd := e_rd e, w_reg_write := e_reg_write e,
        w_wb_data := (if e_mem_cmd e = MEM_LOAD then data else 0), w_mem_write := (e_mem_cmd e = MEM_STORE),
        w_mem_addr := e_ex_result e, w_mem_wstrb := fst tr, w_mem_wdata := snd tr, w_control := e_control e,
        w_control_taken := e_control_taken e, w_control_target := e_control_target e, w_exc := x\<rparr>
      in if exc_valid x then w\<lparr>w_reg_write := False, w_mem_write := False, w_mem_wstrb := 0, w_mem_wdata := 0\<rparr> else w)"

definition mem_stage :: "core_in \<Rightarrow> core \<Rightarrow> mem_wb_t" where
  "mem_stage i s =
     (let e = ex_mem_q s;
          w = (if e_valid e
               then if \<not> mem_is_memory s then mem_packet_plain e
                    else (case lsu_done i s of None \<Rightarrow> mem_wb_0
                          | Some (data, x) \<Rightarrow> mem_packet_memory e data x (lsu_trace (in_reset i) (lsu_inputs s False) (lsu_s s)))
               else mem_wb_0)
      in if w_valid w \<and> exc_valid (w_exc w)
         then w\<lparr>w_reg_write := False, w_csr_write := False, w_is_mret := False, w_mem_write := False\<rparr> else w)"

section \<open>Execute stage\<close>

definition ex_kill :: "core_in \<Rightarrow> core \<Rightarrow> bool" where
  "ex_kill i s \<longleftrightarrow> wb_trap s \<or> mem_exception i s"

definition ex_result_ready :: "core_in \<Rightarrow> core \<Rightarrow> bool" where
  "ex_result_ready i s \<longleftrightarrow> \<not> wb_trap s \<and> \<not> mem_wait i s \<and> \<not> mem_exception i s"

definition ex_active :: "core_in \<Rightarrow> core \<Rightarrow> bool" where
  "ex_active i s \<longleftrightarrow> d_valid (id_ex_q s) \<and> \<not> in_reset i \<and> \<not> ex_kill i s"

definition ex_rs1 :: "core \<Rightarrow> u32" where
  "ex_rs1 s = forwarded_rs1 (id_ex_q s) (ex_mem_q s) (mem_wb_q s)"

definition ex_rs2 :: "core \<Rightarrow> u32" where
  "ex_rs2 s = forwarded_rs2 (id_ex_q s) (ex_mem_q s) (mem_wb_q s)"

definition mdu_inputs :: "core_in \<Rightarrow> core \<Rightarrow> bool \<Rightarrow> bool \<Rightarrow> mdu_in" where
  "mdu_inputs i s selected ready =
     (let go = ex_active i s \<and> selected \<and> ex_result_ready i s
      in \<lparr>in_rst = in_reset i, in_kill = ex_kill i s, in_req_valid = go \<and> ready, in_op = mdu_op (d_ctrl (id_ex_q s)),
          in_lhs = ex_rs1 s, in_rhs = ex_rs2 s, in_rsp_ready = go\<rparr>)"

definition mul_inputs :: "core_in \<Rightarrow> core \<Rightarrow> mdu_in" where
  "mul_inputs i s = mdu_inputs i s (is_mul (id_ex_q s)) (mul_req_ready (ex_kill i s) (mul s))"

definition div_inputs :: "core_in \<Rightarrow> core \<Rightarrow> mdu_in" where
  "div_inputs i s = mdu_inputs i s (is_div (id_ex_q s)) (div_req_ready (ex_kill i s) (divu s))"

definition mdu_rsp_valid :: "core_in \<Rightarrow> core \<Rightarrow> bool" where
  "mdu_rsp_valid i s \<longleftrightarrow>
     (if is_mul (id_ex_q s) then mul_rsp_valid (ex_kill i s) (mul s)
      else if is_div (id_ex_q s) then div_rsp_valid (ex_kill i s) (divu s) else False)"

definition mdu_result :: "core \<Rightarrow> u32" where
  "mdu_result s = (if is_mul (id_ex_q s) then mul_result (mul s) else if is_div (id_ex_q s) then div_result (divu s) else 0)"

text \<open>The CSR port of the execute stage: a read of the address of the instruction, and whether that is legal.\<close>

definition ex_csr_raddr :: "core_in \<Rightarrow> core \<Rightarrow> csr_addr_t" where
  "ex_csr_raddr i s = (if ex_active i s \<and> is_csr (id_ex_q s) then csr_addr_of (d_insn (id_ex_q s)) else 0)"

definition ex_csr_illegal :: "core_in \<Rightarrow> core \<Rightarrow> bool" where
  "ex_csr_illegal i s = csr_access_illegal (csrf s) (ex_csr_raddr i s) (csr_cmd (d_ctrl (id_ex_q s)))
     (ex_active i s \<and> is_csr (id_ex_q s) \<and> csr_write_enable (id_ex_q s))"

definition ex_result_valid :: "core_in \<Rightarrow> core \<Rightarrow> bool" where
  "ex_result_valid i s \<longleftrightarrow> ex_active i s \<and> (\<not> is_mdu (id_ex_q s) \<or> mdu_rsp_valid i s)"

definition ex_fire :: "core_in \<Rightarrow> core \<Rightarrow> bool" where
  "ex_fire i s \<longleftrightarrow> ex_result_valid i s \<and> ex_result_ready i s"

definition ex_wait :: "core_in \<Rightarrow> core \<Rightarrow> bool" where
  "ex_wait i s \<longleftrightarrow> ex_active i s \<and> \<not> ex_fire i s"

definition ex_stage :: "core_in \<Rightarrow> core \<Rightarrow> ex_mem_t" where
  "ex_stage i s =
     (if ex_result_valid i s
      then ex_packet (id_ex_q s) (ex_rs1 s) (ex_rs2 s) (mdu_result s) (csr_rdata (in_mtip i) (csrf s) (ex_csr_raddr i s))
             (ex_csr_illegal i s) (mepc_q (csrf s))
      else ex_mem_0)"

definition control_redirect :: "core_in \<Rightarrow> core \<Rightarrow> redirect_t" where
  "control_redirect i s = ex_redirect (ex_stage i s) (ex_fire i s)"

definition ex_exception :: "core_in \<Rightarrow> core \<Rightarrow> bool" where
  "ex_exception i s \<longleftrightarrow> ex_result_valid i s \<and> exc_valid (e_exc (ex_stage i s)) \<and> \<not> exc_valid (d_exc (id_ex_q s)) \<and>
     ex_result_ready i s"

section \<open>Decode stage and interrupts\<close>

definition id_decoded :: "core \<Rightarrow> id_ex_t" where
  "id_decoded s = id_stage (regs s) (wb_reg_write s) (w_rd (mem_wb_q s)) (w_wb_data (mem_wb_q s)) (if_id_q s)"

definition irq_state_addr :: "csr_addr_t \<Rightarrow> bool" where
  "irq_state_addr a \<longleftrightarrow> a = CSR_MSTATUS \<or> a = CSR_MIE"

definition id_ex_irq_state_writer :: "core \<Rightarrow> bool" where
  "id_ex_irq_state_writer s \<longleftrightarrow>
     (let d = id_ex_q s
      in d_valid d \<and> \<not> exc_valid (d_exc d) \<and>
         (is_mret (d_ctrl d) \<or> csr_command_writes (csr_cmd (d_ctrl d)) (d_rs1 d) \<and> irq_state_addr (csr_addr_of (d_insn d))))"

definition ex_mem_irq_state_writer :: "core \<Rightarrow> bool" where
  "ex_mem_irq_state_writer s \<longleftrightarrow>
     (let e = ex_mem_q s
      in e_valid e \<and> \<not> exc_valid (e_exc e) \<and> (e_is_mret e \<or> e_csr_write e \<and> irq_state_addr (e_csr_addr e)))"

definition irq_state_wait :: "core \<Rightarrow> bool" where
  "irq_state_wait s \<longleftrightarrow> id_ex_irq_state_writer s \<or> ex_mem_irq_state_writer s"

definition id_interrupt_candidate :: "core_in \<Rightarrow> core \<Rightarrow> bool" where
  "id_interrupt_candidate i s \<longleftrightarrow>
     \<not> in_reset i \<and> \<not> trap_drain_q s \<and> irq_eligible_after_commit (in_mtip i) (wb_csr_in s) (csrf s) \<and> \<not> irq_state_wait s \<and>
     d_valid (id_decoded s) \<and> \<not> exc_valid (d_exc (id_decoded s))"

definition interrupt_exc :: exc_t where
  "interrupt_exc = \<lparr>exc_valid = True, exc_irq = True, exc_cause = IRQ_M_TIMER_CAUSE, exc_tval = 0\<rparr>"

definition id_ex_d :: "core_in \<Rightarrow> core \<Rightarrow> id_ex_t" where
  "id_ex_d i s =
     (if id_interrupt_candidate i s
      then id_ex_0\<lparr>d_valid := True, d_pc := d_pc (id_decoded s), d_exc := interrupt_exc\<rparr> else id_decoded s)"

section \<open>Control\<close>

definition ctrl_inputs :: "core_in \<Rightarrow> core \<Rightarrow> ctrl_in" where
  "ctrl_inputs i s =
     (let c = id_ex_d i s; exc = d_valid c \<and> exc_valid (d_exc c)
      in \<lparr>ci_rst = in_reset i, ci_load_use = load_use c (id_ex_q s), ci_csr_dep = csr_dep c (id_ex_q s) (ex_mem_q s),
          ci_irq_state_wait = irq_state_wait s, ci_ex_wait = ex_wait i s, ci_mem_wait = mem_wait i s,
          ci_id_exception = exc \<and> \<not> exc_irq (d_exc c), ci_id_interrupt = exc \<and> exc_irq (d_exc c),
          ci_ex_exception = ex_exception i s, ci_mem_exception = mem_exception i s, ci_wb_trap = wb_trap s,
          ci_redirect = control_redirect i s, ci_mtvec = mtvec_q (csrf s)\<rparr>)"

definition control :: "core_in \<Rightarrow> core \<Rightarrow> ctrl_out" where
  "control i s = pipeline_ctrl (trap_drain_q s) (ctrl_inputs i s)"

definition fetch_inputs :: "core_in \<Rightarrow> core \<Rightarrow> if_in" where
  "fetch_inputs i s =
     (let c = control i s
      in \<lparr>if_enable = co_pc_enable c, if_consume = co_if_id_enable c \<and> \<not> co_if_id_flush c, if_flush = co_if_id_flush c,
          if_redirect = redirect_valid (co_redirect c), if_redirect_pc = redirect_target (co_redirect c)\<rparr>)"

definition if_id_d :: "core_in \<Rightarrow> core \<Rightarrow> if_id_t" where
  "if_id_d i s =
     (case fetch_out (in_reset i) (fetch_inputs i s) (imem i) (fetch s) of
        None \<Rightarrow> if_id_0
      | Some (pc, insn, x) \<Rightarrow> \<lparr>f_valid = True, f_pc = pc, f_insn = insn, f_exc = x\<rparr>)"

section \<open>The requests of a clock\<close>

definition core_fetch_request :: "core_in \<Rightarrow> core \<Rightarrow> u32 option" where
  "core_fetch_request i s = fetch_request (in_reset i) (fetch_inputs i s) (imem i) (fetch s)"

definition core_data_request :: "core_in \<Rightarrow> core \<Rightarrow> request option" where
  "core_data_request i s = lsu_request (in_reset i) (lsu_inputs s False) (lsu_s s)"

section \<open>Clock\<close>

text \<open>A waiting packet takes over the value its producer writes back.\<close>

definition refresh_operands :: "core \<Rightarrow> id_ex_t" where
  "refresh_operands s =
     (let d = id_ex_q s; w = mem_wb_q s
      in if d_valid d \<and> wb_reg_write s
         then d\<lparr>d_rs1_value := (if uses_rs1 (d_ctrl d) \<and> d_rs1 d = w_rd w then w_wb_data w else d_rs1_value d),
                d_rs2_value := (if uses_rs2 (d_ctrl d) \<and> d_rs2 d = w_rd w then w_wb_data w else d_rs2_value d)\<rparr>
         else d)"

definition core_clock :: "u32 \<Rightarrow> u32 \<Rightarrow> core_in \<Rightarrow> core \<Rightarrow> core" where
  "core_clock reset_vector trap_vector i s =
     (let c = control i s; rst = in_reset i
      in \<lparr>fetch = if_clock rst reset_vector (fetch_inputs i s) (imem i) (fetch s),
          if_id_q = (if rst \<or> co_if_id_flush c then if_id_0 else if co_if_id_enable c then if_id_d i s else if_id_q s),
          id_ex_q = (if rst \<or> co_id_ex_flush c then id_ex_0 else if co_id_ex_enable c then id_ex_d i s else refresh_operands s),
          ex_mem_q = (if rst \<or> co_ex_mem_flush c then ex_mem_0 else if co_ex_mem_enable c then ex_stage i s else ex_mem_q s),
          mem_wb_q = (if rst \<or> co_mem_wb_flush c then mem_wb_0 else if co_mem_wb_enable c then mem_stage i s else mem_wb_q s),
          trap_drain_q = (\<not> rst \<and> co_trap_drain_d c),
          regs = regfile_clock (wb_reg_write s) (w_rd (mem_wb_q s)) (w_wb_data (mem_wb_q s)) (regs s),
          csrf = csr_clock rst trap_vector (wb_csr_in s) (csrf s),
          mul = mul_clock (mul_inputs i s) (mul s),
          divu = div_clock (div_inputs i s) (divu s),
          lsu_s = lsu_clock rst (lsu_inputs s (co_mem_wb_enable c \<and> \<not> co_mem_wb_flush c \<and> \<not> wb_trap s)) (dmem i) (lsu_s s)\<rparr>)"

end
