(* ===== verification/Core_Decode_Proofs.thy ===== *)
theory Core_Decode_Proofs
  imports Core_Muldiv Core_Decode
begin

text \<open>
  The decoder accepts exactly the encodings of the instruction set, and finds their fields.
\<close>

section \<open>The fields of an instruction word\<close>

lemma insn_word_field [simp]:
  "(field 25 (insn_word f7 rs2 rs1 f3 rd opc) :: 7 word) = f7"
  "(field 20 (insn_word f7 rs2 rs1 f3 rd opc) :: 5 word) = rs2"
  "(field 15 (insn_word f7 rs2 rs1 f3 rd opc) :: 5 word) = rs1"
  "(field 12 (insn_word f7 rs2 rs1 f3 rd opc) :: 3 word) = f3"
  "(field 7 (insn_word f7 rs2 rs1 f3 rd opc) :: 5 word) = rd"
  "(field 0 (insn_word f7 rs2 rs1 f3 rd opc) :: 7 word) = opc"
  by (rule bit_word_eqI, auto simp: insn_word_def bit_simps dest: bit_imp_le_length)+

lemma insn_word_of_fields: "insn_word (field 25 w) (field 20 w) (field 15 w) (field 12 w) (field 7 w) (field 0 w) = w"
proof (rule bit_word_eqI)
  fix n assume "n < LENGTH(32)"
  then have "n < 7 \<or> 7 \<le> n \<and> n < 12 \<or> 12 \<le> n \<and> n < 15 \<or> 15 \<le> n \<and> n < 20 \<or> 20 \<le> n \<and> n < 25 \<or> 25 \<le> n \<and> n < 32"
    by auto
  then show "bit (insn_word (field 25 w) (field 20 w) (field 15 w) (field 12 w) (field 7 w) (field 0 w)) n = bit w n"
    by (elim disjE) (auto simp: insn_word_def bit_simps)
qed

lemmas word_formats = i_word_def s_word_def b_word_def u_word_def j_word_def

section \<open>Immediates\<close>

text \<open>Words with constant shapes are compared bit by bit.\<close>

lemma eq_by_bits:
  fixes v w :: u32
  assumes "list_all (\<lambda>n. bit v n = bit w n) [0, 1, 2, 3, 4, 5, 6, 7, 8, 9, 10, 11, 12, 13, 14, 15, 16, 17, 18, 19, 20,
    21, 22, 23, 24, 25, 26, 27, 28, 29, 30, 31]"
  shows "v = w"
proof (rule bit_word_eqI)
  fix n assume "n < LENGTH(32)"
  then have "n \<in> set [0, 1, 2, 3, 4, 5, 6, 7, 8, 9, 10, 11, 12, 13, 14, 15, 16, 17, 18, 19, 20,
    21, 22, 23, 24, 25, 26, 27, 28, 29, 30, 31]" by (auto simp: less_Suc_eq numeral_eq_Suc)
  then show "bit v n = bit w n" using assms unfolding list_all_iff by blast
qed

lemma bit_beyond: "LENGTH('a) \<le> n \<Longrightarrow> \<not> bit (w :: 'a::len word) n"
  by (auto dest: bit_imp_le_length)

lemma bit_simm: "bit (simm imm) n \<longleftrightarrow> n < 32 \<and> bit imm (min 11 n)"
  by (simp add: simm_def bit_signed_iff)

lemma uimm_push: "uimm imm = push_bit 12 (ucast imm)"
  by (simp add: uimm_def push_bit_eq_mult)

lemma bit_offset: "bit (offset (off :: 'a::len word)) n \<longleftrightarrow> 0 < n \<and> n < 32 \<and> bit off (min (LENGTH('a) - 1) (n - 1))"
proof -
  have "offset off = 2 * scast off" by (simp only: offset_def of_int_mult) simp
  also have "\<dots> = push_bit 1 (scast off)" by (simp add: push_bit_eq_mult mult.commute)
  finally have "bit (offset off) n = bit (push_bit 1 (scast off :: u32)) n" by (rule arg_cong)
  then show ?thesis by (auto simp only: bit_push_bit_iff bit_signed_iff possible_bit_word) auto
qed

lemmas imm_bits = imm_gen_def word_formats insn_word_def bit_simm bit_offset uimm_push bit_simps bit_beyond numeral_2_eq_2 [symmetric]

lemma imm_gen_I: "imm_gen (i_word imm rs1 f3 rd opc) IMM_I = simm imm"
  by (rule eq_by_bits, simp only: list.pred_inject) (simp add: imm_bits)

lemma imm_gen_S: "imm_gen (s_word imm rs2 rs1 f3 opc) IMM_S = simm imm"
  by (rule eq_by_bits, simp only: list.pred_inject) (simp add: imm_bits)

lemma imm_gen_U: "imm_gen (u_word imm rd opc) IMM_U = uimm imm"
  by (rule eq_by_bits, simp only: list.pred_inject) (simp add: imm_bits)

lemma imm_gen_B: "imm_gen (b_word off rs2 rs1 f3 opc) IMM_B = offset off"
  by (rule eq_by_bits, simp only: list.pred_inject) (simp add: imm_bits)

lemma imm_gen_J: "imm_gen (j_word off rd opc) IMM_J = offset off"
  by (rule eq_by_bits, simp only: list.pred_inject) (simp add: imm_bits)

section \<open>Controls of an instruction\<close>

primrec bcond_branch :: "bcond \<Rightarrow> branch_e" where
  "bcond_branch Beq = BR_BEQ" | "bcond_branch Bne = BR_BNE" | "bcond_branch Blt = BR_BLT" | "bcond_branch Bge = BR_BGE"
| "bcond_branch Bltu = BR_BLTU" | "bcond_branch Bgeu = BR_BGEU"

primrec lwidth_size :: "lwidth \<Rightarrow> mem_size_e \<times> bool" where
  "lwidth_size Lb = (MEM_BYTE, False)" | "lwidth_size Lh = (MEM_HALF, False)" | "lwidth_size Lw = (MEM_WORD, False)"
| "lwidth_size Lbu = (MEM_BYTE, True)" | "lwidth_size Lhu = (MEM_HALF, True)"

primrec swidth_size :: "swidth \<Rightarrow> mem_size_e" where
  "swidth_size Sb = MEM_BYTE" | "swidth_size Sh = MEM_HALF" | "swidth_size Sw = MEM_WORD"

primrec rop_alu :: "rop \<Rightarrow> alu_op_e" where
  "rop_alu Add = ALU_ADD" | "rop_alu Sub = ALU_SUB" | "rop_alu Sll = ALU_SLL" | "rop_alu Slt = ALU_SLT"
| "rop_alu Sltu = ALU_SLTU" | "rop_alu Xor = ALU_XOR" | "rop_alu Srl = ALU_SRL" | "rop_alu Sra = ALU_SRA"
| "rop_alu Or = ALU_OR" | "rop_alu And = ALU_AND"

primrec cop_cmd :: "cop \<Rightarrow> csr_cmd_e" where
  "cop_cmd Csrrw = CSR_RW" | "cop_cmd Csrrs = CSR_RS" | "cop_cmd Csrrc = CSR_RC" | "cop_cmd Csrrwi = CSR_RWI"
| "cop_cmd Csrrsi = CSR_RSI" | "cop_cmd Csrrci = CSR_RCI"

definition alu_imm_ctrl :: "alu_op_e \<Rightarrow> decode_ctrl_t" where
  "alu_imm_ctrl a = ctrl_default\<lparr>alu_op := a, uses_rs1 := True, reg_write := True, op_a_sel := OP_A_RS1, op_b_sel := OP_B_IMM\<rparr>"

definition alu_reg_ctrl :: "alu_op_e \<Rightarrow> mdu_op_e \<Rightarrow> decode_ctrl_t" where
  "alu_reg_ctrl a m = ctrl_default\<lparr>alu_op := a, mdu_op := m, uses_rs1 := True, uses_rs2 := True, reg_write := True,
     op_a_sel := OP_A_RS1, op_b_sel := OP_B_RS2\<rparr>"

primrec controls :: "instr \<Rightarrow> imm_sel_e \<times> decode_ctrl_t" where
  "controls (LUI rd imm) = (IMM_U, ctrl_default\<lparr>reg_write := True, alu_op := ALU_ADD, op_a_sel := OP_A_ZERO, op_b_sel := OP_B_IMM\<rparr>)"
| "controls (AUIPC rd imm) = (IMM_U, ctrl_default\<lparr>reg_write := True, alu_op := ALU_ADD, op_a_sel := OP_A_PC, op_b_sel := OP_B_IMM\<rparr>)"
| "controls (JAL rd off) = (IMM_J, ctrl_default\<lparr>reg_write := True, wb_sel := WB_PC4, branch_kind := BR_JAL\<rparr>)"
| "controls (JALR rd rs1 imm) =
     (IMM_I, ctrl_default\<lparr>uses_rs1 := True, reg_write := True, wb_sel := WB_PC4, branch_kind := BR_JALR\<rparr>)"
| "controls (BRANCH c rs1 rs2 off) =
     (IMM_B, ctrl_default\<lparr>branch_kind := bcond_branch c, uses_rs1 := True, uses_rs2 := True\<rparr>)"
| "controls (LOAD w rd rs1 imm) = (IMM_I, (alu_imm_ctrl ALU_ADD)\<lparr>mem_size := fst (lwidth_size w),
     load_unsigned := snd (lwidth_size w), wb_sel := WB_LOAD, mem_cmd := MEM_LOAD\<rparr>)"
| "controls (STORE w rs2 rs1 imm) = (IMM_S, ctrl_default\<lparr>mem_size := swidth_size w, uses_rs1 := True, uses_rs2 := True,
     alu_op := ALU_ADD, op_a_sel := OP_A_RS1, op_b_sel := OP_B_IMM, mem_cmd := MEM_STORE\<rparr>)"
| "controls (OPIMM f rd rs1 imm) = (IMM_I, alu_imm_ctrl (rop_alu (iop_rop f)))"
| "controls (SHIFT f rd rs1 n) = (IMM_I, alu_imm_ctrl (rop_alu (shop_rop f)))"
| "controls (OP f rd rs1 rs2) = (IMM_NONE, alu_reg_ctrl (rop_alu f) MDU_NONE)"
| "controls (MULDIV f rd rs1 rs2) = (IMM_NONE, alu_reg_ctrl ALU_NONE (mop_mdu f))"
| "controls (FENCE rd rs1 x) = (IMM_NONE, ctrl_default\<lparr>is_fence := True\<rparr>)"
| "controls ECALL = (IMM_NONE, ctrl_default)"
| "controls EBREAK = (IMM_NONE, ctrl_default)"
| "controls MRET = (IMM_NONE, ctrl_default\<lparr>is_mret := True\<rparr>)"
| "controls WFI = (IMM_NONE, ctrl_default)"
| "controls (CSR f rd x a) = (IMM_NONE, ctrl_default\<lparr>uses_rs1 := f \<in> {Csrrw, Csrrs, Csrrc}, csr_cmd := cop_cmd f,
     reg_write := True, wb_sel := WB_CSR\<rparr>)"

section \<open>Every encoding is decoded\<close>

lemma format_field [simp]:
  "(field 12 (i_word imm rs1 f3 rd opc) :: 3 word) = f3" "(field 0 (i_word imm rs1 f3 rd opc) :: 7 word) = opc"
  "(field 12 (s_word imm rs2 rs1 f3 opc) :: 3 word) = f3" "(field 0 (s_word imm rs2 rs1 f3 opc) :: 7 word) = opc"
  "(field 12 (b_word off rs2 rs1 f3 opc) :: 3 word) = f3" "(field 0 (b_word off rs2 rs1 f3 opc) :: 7 word) = opc"
  "(field 0 (u_word imm20 rd opc) :: 7 word) = opc" "(field 0 (j_word imm20 rd opc) :: 7 word) = opc"
  by (simp_all add: word_formats)

lemma system_words:
  "i_word 0 0 0 0 0x73 = INSN_ECALL" "i_word 1 0 0 0 0x73 = INSN_EBREAK" "i_word 0x302 0 0 0 0x73 = INSN_MRET"
  "i_word 0x105 0 0 0 0x73 = INSN_WFI"
  by code_simp+

lemma system_fields:
  "field 0 INSN_ECALL = (0x73 :: 7 word)" "field 0 INSN_EBREAK = (0x73 :: 7 word)" "field 0 INSN_MRET = (0x73 :: 7 word)"
  "field 0 INSN_WFI = (0x73 :: 7 word)" "field 12 INSN_ECALL = (0 :: 3 word)" "field 12 INSN_EBREAK = (0 :: 3 word)"
  "field 12 INSN_MRET = (0 :: 3 word)" "field 12 INSN_WFI = (0 :: 3 word)"
  by code_simp+

lemma system_apart:
  "INSN_MRET \<noteq> INSN_ECALL" "INSN_MRET \<noteq> INSN_EBREAK" "INSN_WFI \<noteq> INSN_ECALL" "INSN_WFI \<noteq> INSN_EBREAK" "INSN_WFI \<noteq> INSN_MRET"
  by (simp_all add: insn_defs)

lemma cop_f3_nonzero: "cop_f3 f \<noteq> 0" "decode_csr (cop_f3 f) = Some (cop_cmd f, f \<in> {Csrrw, Csrrs, Csrrc})"
  by (cases f; simp add: decode_csr_def)+

lemma decode_encode: "decode_legal (encode i) = Some (controls i)"
proof (cases i)
  case (BRANCH c rs1 rs2 off)
  then show ?thesis by (cases c) (simp_all add: decode_legal_def opcode_defs decode_branch_def)
next
  case (LOAD w rd rs1 imm)
  then show ?thesis by (cases w) (simp_all add: decode_legal_def opcode_defs decode_load_def alu_imm_ctrl_def)
next
  case (STORE w rs2 rs1 imm)
  then show ?thesis by (cases w) (simp_all add: decode_legal_def opcode_defs decode_store_def)
next
  case (OPIMM f rd rs1 imm)
  then show ?thesis by (cases f) (simp_all add: decode_legal_def opcode_defs decode_op_imm_def alu_imm_ctrl_def)
next
  case (SHIFT f rd rs1 n)
  then show ?thesis by (cases f) (simp_all add: decode_legal_def opcode_defs funct7_defs decode_op_imm_def alu_imm_ctrl_def)
next
  case (OP f rd rs1 rs2)
  then show ?thesis by (cases f) (simp_all add: decode_legal_def opcode_defs funct7_defs decode_op_def alu_reg_ctrl_def)
next
  case (MULDIV f rd rs1 rs2)
  then show ?thesis by (cases f) (simp_all add: decode_legal_def opcode_defs funct7_defs decode_op_def alu_reg_ctrl_def)
next
  case (CSR f rd x a)
  then show ?thesis by (simp add: decode_legal_def opcode_defs decode_system_def cop_f3_nonzero)
qed (simp_all add: decode_legal_def opcode_defs system_words system_fields system_apart decode_system_def)

section \<open>Only encodings are decoded\<close>

lemma formats_onto:
  fixes f7 rs2 rs1 f3 rd opc
  shows "\<exists>imm. insn_word f7 rs2 rs1 f3 rd opc = i_word imm rs1 f3 rd opc"
    and "\<exists>imm. insn_word f7 rs2 rs1 f3 rd opc = s_word imm rs2 rs1 f3 opc"
    and "\<exists>off. insn_word f7 rs2 rs1 f3 rd opc = b_word off rs2 rs1 f3 opc"
    and "\<exists>imm. insn_word f7 rs2 rs1 f3 rd opc = u_word imm rd opc"
    and "\<exists>off. insn_word f7 rs2 rs1 f3 rd opc = j_word off rd opc"
proof -
  let ?u = "word_cat f7 (word_cat rs2 (word_cat rs1 f3 :: 8 word) :: 13 word) :: 20 word"
  let ?w = "insn_word f7 rs2 rs1 f3 rd opc"
  have "?w = i_word (word_cat f7 rs2) rs1 f3 rd opc"
    by (rule eq_by_bits, simp only: list.pred_inject) (simp add: imm_bits)
  then show "\<exists>imm. ?w = i_word imm rs1 f3 rd opc" ..
  have "?w = s_word (word_cat f7 rd) rs2 rs1 f3 opc"
    by (rule eq_by_bits, simp only: list.pred_inject) (simp add: imm_bits)
  then show "\<exists>imm. ?w = s_word imm rs2 rs1 f3 opc" ..
  have "?w = b_word (word_cat (field 6 f7 :: 1 word) (word_cat (field 0 rd :: 1 word)
      (word_cat (field 0 f7 :: 6 word) (field 1 rd :: 4 word) :: 10 word) :: 11 word)) rs2 rs1 f3 opc"
    by (rule eq_by_bits, simp only: list.pred_inject) (simp add: imm_bits)
  then show "\<exists>off. ?w = b_word off rs2 rs1 f3 opc" ..
  have "?w = u_word ?u rd opc"
    by (rule eq_by_bits, simp only: list.pred_inject) (simp add: imm_bits)
  then show "\<exists>imm. ?w = u_word imm rd opc" ..
  have "?w = j_word (word_cat (field 19 ?u :: 1 word) (word_cat (field 0 ?u :: 8 word)
      (word_cat (field 8 ?u :: 1 word) (field 9 ?u :: 10 word) :: 11 word) :: 19 word)) rd opc"
    by (rule eq_by_bits, simp only: list.pred_inject) (simp add: imm_bits)
  then show "\<exists>off. ?w = j_word off rd opc" ..
qed

text \<open>Each table of the decoder is onto the operations of the instruction set.\<close>

lemma ex_op:
  "(\<exists>c. P c) \<longleftrightarrow> P Beq \<or> P Bne \<or> P Blt \<or> P Bge \<or> P Bltu \<or> P Bgeu"
  "(\<exists>l. Q l) \<longleftrightarrow> Q Lb \<or> Q Lh \<or> Q Lw \<or> Q Lbu \<or> Q Lhu"
  "(\<exists>s. R s) \<longleftrightarrow> R Sb \<or> R Sh \<or> R Sw"
  "(\<exists>i. S i) \<longleftrightarrow> S Addi \<or> S Slti \<or> S Sltiu \<or> S Xori \<or> S Ori \<or> S Andi"
  "(\<exists>h. T h) \<longleftrightarrow> T Slli \<or> T Srli \<or> T Srai"
  "(\<exists>r. U r) \<longleftrightarrow> U Add \<or> U Sub \<or> U Sll \<or> U Slt \<or> U Sltu \<or> U Xor \<or> U Srl \<or> U Sra \<or> U Or \<or> U And"
  "(\<exists>m. V m) \<longleftrightarrow> V Mul \<or> V Mulh \<or> V Mulhsu \<or> V Mulhu \<or> V Div \<or> V Divu \<or> V Rem \<or> V Remu"
  "(\<exists>x. W x) \<longleftrightarrow> W Csrrw \<or> W Csrrs \<or> W Csrrc \<or> W Csrrwi \<or> W Csrrsi \<or> W Csrrci"
  by (metis bcond.exhaust) (metis lwidth.exhaust, metis swidth.exhaust, metis iop.exhaust, metis shop.exhaust,
    metis rop.exhaust, metis mop.exhaust, metis cop.exhaust)

lemma decode_tables_onto:
  "decode_branch f3 = Some b \<Longrightarrow> \<exists>c. f3 = bcond_f3 c"
  "decode_load f3 = Some l \<Longrightarrow> \<exists>w. f3 = lwidth_f3 w"
  "decode_store f3 = Some s \<Longrightarrow> \<exists>w. f3 = swidth_f3 w"
  "decode_op_imm f3 f7 = Some a \<Longrightarrow> (\<exists>f. f3 = iop_f3 f) \<or> (\<exists>f. f7 = fst (shop_f f) \<and> f3 = snd (shop_f f))"
  "decode_op f3 f7 = Some x \<Longrightarrow> (\<exists>f. f7 = fst (rop_f f) \<and> f3 = snd (rop_f f)) \<or> f7 = 1 \<and> (\<exists>f. f3 = mop_f3 f)"
  "decode_csr f3 = Some y \<Longrightarrow> \<exists>f. f3 = cop_f3 f"
proof -
  have all: "f3 = 0 \<or> f3 = 1 \<or> f3 = 2 \<or> f3 = 3 \<or> f3 = 4 \<or> f3 = 5 \<or> f3 = 6 \<or> f3 = 7"
  proof -
    have "uint f3 < 8" "0 \<le> uint f3" using uint_bounded [of f3] by simp_all
    then have "uint f3 = 0 \<or> uint f3 = 1 \<or> uint f3 = 2 \<or> uint f3 = 3 \<or> uint f3 = 4 \<or> uint f3 = 5 \<or> uint f3 = 6 \<or> uint f3 = 7"
      by presburger
    then show ?thesis by (simp add: word_uint_eq_iff)
  qed
  show "decode_branch f3 = Some b \<Longrightarrow> \<exists>c. f3 = bcond_f3 c"
    by (simp add: decode_branch_def ex_op split: if_splits)
  show "decode_load f3 = Some l \<Longrightarrow> \<exists>w. f3 = lwidth_f3 w"
    by (simp add: decode_load_def ex_op split: if_splits)
  show "decode_store f3 = Some s \<Longrightarrow> \<exists>w. f3 = swidth_f3 w"
    by (simp add: decode_store_def ex_op split: if_splits)
  show "decode_csr f3 = Some y \<Longrightarrow> \<exists>f. f3 = cop_f3 f"
    by (simp add: decode_csr_def ex_op split: if_splits)
  show "decode_op_imm f3 f7 = Some a \<Longrightarrow> (\<exists>f. f3 = iop_f3 f) \<or> (\<exists>f. f7 = fst (shop_f f) \<and> f3 = snd (shop_f f))"
    using all by (elim disjE) (simp_all add: decode_op_imm_def funct7_defs ex_op split: if_splits)
  show "decode_op f3 f7 = Some x \<Longrightarrow> (\<exists>f. f7 = fst (rop_f f) \<and> f3 = snd (rop_f f)) \<or> f7 = 1 \<and> (\<exists>f. f3 = mop_f3 f)"
    using all by (elim disjE) (simp_all add: decode_op_def funct7_defs ex_op split: if_splits)
qed

text \<open>Each format with a fixed opcode and function code is the encoding of an instruction.\<close>

lemma encodings:
  fixes f7 rs2 rs1 rd and f3 :: "3 word"
  shows "\<exists>i. encode i = insn_word f7 rs2 rs1 f3 rd 0x37"
    and "\<exists>i. encode i = insn_word f7 rs2 rs1 f3 rd 0x17"
    and "\<exists>i. encode i = insn_word f7 rs2 rs1 f3 rd 0x6f"
    and "\<exists>i. encode i = insn_word f7 rs2 rs1 0 rd 0x67"
    and "\<exists>i. encode i = insn_word f7 rs2 rs1 (bcond_f3 c) rd 0x63"
    and "\<exists>i. encode i = insn_word f7 rs2 rs1 (lwidth_f3 l) rd 0x03"
    and "\<exists>i. encode i = insn_word f7 rs2 rs1 (swidth_f3 s) rd 0x23"
    and "\<exists>i. encode i = insn_word f7 rs2 rs1 (iop_f3 f) rd 0x13"
    and "\<exists>i. encode i = insn_word (fst (shop_f h)) rs2 rs1 (snd (shop_f h)) rd 0x13"
    and "\<exists>i. encode i = insn_word (fst (rop_f r)) rs2 rs1 (snd (rop_f r)) rd 0x33"
    and "\<exists>i. encode i = insn_word 1 rs2 rs1 (mop_f3 m) rd 0x33"
    and "\<exists>i. encode i = insn_word f7 rs2 rs1 0 rd 0x0f"
    and "\<exists>i. encode i = insn_word f7 rs2 rs1 (cop_f3 x) rd 0x73"
proof -
  note onto = formats_onto [of f7 rs2 rs1 _ rd]
  show "\<exists>i. encode i = insn_word f7 rs2 rs1 f3 rd 0x37" using onto(4) encode.simps(1) [of rd] by metis
  show "\<exists>i. encode i = insn_word f7 rs2 rs1 f3 rd 0x17" using onto(4) encode.simps(2) [of rd] by metis
  show "\<exists>i. encode i = insn_word f7 rs2 rs1 f3 rd 0x6f" using onto(5) encode.simps(3) [of rd] by metis
  show "\<exists>i. encode i = insn_word f7 rs2 rs1 0 rd 0x67" using onto(1) encode.simps(4) [of rd rs1] by metis
  show "\<exists>i. encode i = insn_word f7 rs2 rs1 (bcond_f3 c) rd 0x63" using onto(3) encode.simps(5) [of c rs1 rs2] by metis
  show "\<exists>i. encode i = insn_word f7 rs2 rs1 (lwidth_f3 l) rd 0x03" using onto(1) encode.simps(6) [of l rd rs1] by metis
  show "\<exists>i. encode i = insn_word f7 rs2 rs1 (swidth_f3 s) rd 0x23" using onto(2) encode.simps(7) [of s rs2 rs1] by metis
  show "\<exists>i. encode i = insn_word f7 rs2 rs1 (iop_f3 f) rd 0x13" using onto(1) encode.simps(8) [of f rd rs1] by metis
  show "\<exists>i. encode i = insn_word (fst (shop_f h)) rs2 rs1 (snd (shop_f h)) rd 0x13" using encode.simps(9) by blast
  show "\<exists>i. encode i = insn_word (fst (rop_f r)) rs2 rs1 (snd (rop_f r)) rd 0x33" using encode.simps(10) by blast
  show "\<exists>i. encode i = insn_word 1 rs2 rs1 (mop_f3 m) rd 0x33" using encode.simps(11) by blast
  show "\<exists>i. encode i = insn_word f7 rs2 rs1 0 rd 0x0f" using onto(1) encode.simps(12) [of rd rs1] by metis
  show "\<exists>i. encode i = insn_word f7 rs2 rs1 (cop_f3 x) rd 0x73" using onto(1) encode.simps(17) [of x rd rs1] by metis
qed

lemma decode_onto:
  assumes "decode_legal w = Some c"
  shows "\<exists>i. encode i = w"
proof -
  define opc f3 f7 where "opc = (field 0 w :: 7 word)" and "f3 = (field 12 w :: 3 word)" and "f7 = (field 25 w :: 7 word)"
  obtain rs2 rs1 rd :: reg_addr_t where w: "w = insn_word f7 rs2 rs1 f3 rd opc"
    unfolding opc_def f3_def f7_def using insn_word_of_fields [of w] by metis
  note d = assms [unfolded decode_legal_def Let_def, folded opc_def f3_def f7_def, unfolded opcode_defs]
  consider "opc = 0x37 \<or> opc = 0x17 \<or> opc = 0x6f" | "opc = 0x67 \<or> opc = 0x0f" "f3 = 0" | b where "opc = 0x63" "decode_branch f3 = Some b"
    | l where "opc = 0x03" "decode_load f3 = Some l" | s where "opc = 0x23" "decode_store f3 = Some s"
    | a where "opc = 0x13" "decode_op_imm f3 f7 = Some a" | x where "opc = 0x33" "decode_op f3 f7 = Some x"
    | y where "opc = 0x73" "decode_system w = Some y"
    using d by (auto split: if_splits)
  then show ?thesis
  proof cases
    case 8
    show ?thesis
    proof (cases "f3 = 0")
      case True
      then have "w \<in> {INSN_ECALL, INSN_EBREAK, INSN_MRET, INSN_WFI}"
        using 8(2) by (auto simp: decode_system_def f3_def split: if_splits)
      then show ?thesis unfolding system_words [symmetric] encode.simps(13-16) [symmetric] by blast
    next
      case False
      then obtain c' where "decode_csr f3 = Some c'" using 8(2) by (auto simp: decode_system_def f3_def)
      then obtain f where "f3 = cop_f3 f" using decode_tables_onto(6) by blast
      then show ?thesis using encodings(13) w 8(1) by simp
    qed
  next
    case 6
    from decode_tables_onto(4) [OF 6(2)] show ?thesis
      using encodings(8,9) w 6(1) by fastforce
  next
    case 7
    from decode_tables_onto(5) [OF 7(2)] show ?thesis
      using encodings(10,11) w 7(1) by fastforce
  next
    case 1
    then show ?thesis using w encodings(1-3) by auto
  next
    case 2
    then show ?thesis using w encodings(4,12) by auto
  next
    case 3
    then show ?thesis using w encodings(5) decode_tables_onto(1) by blast
  next
    case 4
    then show ?thesis using w encodings(6) decode_tables_onto(2) [of f3] by (cases l) blast
  next
    case 5
    then show ?thesis using w encodings(7) decode_tables_onto(3) by blast
  qed
qed

lemma decoder_legal: "\<not> dec_illegal (decoder w) \<longleftrightarrow> (\<exists>i. w = encode i)"
  using decode_onto [of w] decode_encode by (auto simp: decoder_def split: option.splits)

lemma decoder_encode:
  "dec_ctrl (decoder (encode i)) = snd (controls i)" "dec_imm_sel (decoder (encode i)) = fst (controls i)"
  "\<not> dec_illegal (decoder (encode i))"
  by (simp_all add: decoder_def decode_encode split_def)

section \<open>Immediates of the instructions\<close>

text \<open>The immediate of an instruction; that of a shift has the amount in its low five bits.\<close>

fun immediate :: "instr \<Rightarrow> u32" where
  "immediate (LUI rd imm) = uimm imm"
| "immediate (AUIPC rd imm) = uimm imm"
| "immediate (JAL rd off) = offset off"
| "immediate (JALR rd rs1 imm) = simm imm"
| "immediate (BRANCH c rs1 rs2 off) = offset off"
| "immediate (LOAD w rd rs1 imm) = simm imm"
| "immediate (STORE w rs2 rs1 imm) = simm imm"
| "immediate (OPIMM f rd rs1 imm) = simm imm"
| "immediate (SHIFT f rd rs1 n) = simm (word_cat (fst (shop_f f)) n)"
| "immediate i = 0"

lemma imm_gen_none: "imm_gen w IMM_NONE = 0"
  by (simp add: imm_gen_def)

text \<open>Encodings are unambiguous.\<close>

lemma insn_word_inject:
  "insn_word f7 rs2 rs1 f3 rd opc = insn_word f7' rs2' rs1' f3' rd' opc' \<longleftrightarrow>
    f7 = f7' \<and> rs2 = rs2' \<and> rs1 = rs1' \<and> f3 = f3' \<and> rd = rd' \<and> opc = opc'"
  by (metis insn_word_field)

lemma imm_inject:
  "simm v = simm w \<longleftrightarrow> v = w" "uimm x = uimm y \<longleftrightarrow> x = y" "offset (r :: 'a::len word) = offset s \<longleftrightarrow> r = s"
  if "LENGTH('a) < 32"
proof -
  have "bit (simm v) n = bit v n" if "n < 12" for v :: "12 word" and n
    using that by (cases "n = 11") (auto simp: bit_simm min_def)
  then show "simm v = simm w \<longleftrightarrow> v = w" by (auto intro!: bit_word_eqI; metis)
  have "bit (uimm x) (n + 12) = bit x n" if "n < 20" for x :: "20 word" and n
    using that by (simp add: uimm_push bit_simps)
  then show "uimm x = uimm y \<longleftrightarrow> x = y" by (auto intro!: bit_word_eqI; metis)
  have "bit (offset r) (n + 1) = bit r n" if "n < LENGTH('a)" for r :: "'a word" and n
    using that \<open>LENGTH('a) < 32\<close> by (cases "n = LENGTH('a) - 1") (auto simp: bit_offset min_def)
  then show "offset r = offset s \<longleftrightarrow> r = s" by (auto intro!: bit_word_eqI; metis)
qed

lemma format_inject:
  "i_word imm rs1 f3 rd opc = i_word imm' rs1' f3' rd' opc' \<longleftrightarrow> imm = imm' \<and> rs1 = rs1' \<and> f3 = f3' \<and> rd = rd' \<and> opc = opc'"
  "s_word imm rs2 rs1 f3 opc = s_word imm' rs2' rs1' f3' opc' \<longleftrightarrow> imm = imm' \<and> rs2 = rs2' \<and> rs1 = rs1' \<and> f3 = f3' \<and> opc = opc'"
  "b_word imm rs2 rs1 f3 opc = b_word imm' rs2' rs1' f3' opc' \<longleftrightarrow> imm = imm' \<and> rs2 = rs2' \<and> rs1 = rs1' \<and> f3 = f3' \<and> opc = opc'"
  "u_word off rd opc = u_word off' rd' opc' \<longleftrightarrow> off = off' \<and> rd = rd' \<and> opc = opc'"
  "j_word off rd opc = j_word off' rd' opc' \<longleftrightarrow> off = off' \<and> rd = rd' \<and> opc = opc'"
proof -
  note f = word_formats insn_word_inject
  show "i_word imm rs1 f3 rd opc = i_word imm' rs1' f3' rd' opc' \<longleftrightarrow> imm = imm' \<and> rs1 = rs1' \<and> f3 = f3' \<and> rd = rd' \<and> opc = opc'"
    using imm_gen_I [of imm rs1 f3 rd opc] imm_gen_I [of imm' rs1' f3' rd' opc'] imm_inject(1) [where 'a = 12, of imm imm'] by (auto simp: f)
  show "s_word imm rs2 rs1 f3 opc = s_word imm' rs2' rs1' f3' opc' \<longleftrightarrow> imm = imm' \<and> rs2 = rs2' \<and> rs1 = rs1' \<and> f3 = f3' \<and> opc = opc'"
    using imm_gen_S [of imm rs2 rs1 f3 opc] imm_gen_S [of imm' rs2' rs1' f3' opc'] imm_inject(1) [where 'a = 12, of imm imm'] by (auto simp: f)
  show "b_word imm rs2 rs1 f3 opc = b_word imm' rs2' rs1' f3' opc' \<longleftrightarrow> imm = imm' \<and> rs2 = rs2' \<and> rs1 = rs1' \<and> f3 = f3' \<and> opc = opc'"
    using imm_gen_B [of imm rs2 rs1 f3 opc] imm_gen_B [of imm' rs2' rs1' f3' opc'] imm_inject(3) [of imm imm'] by (auto simp: f)
  show "u_word off rd opc = u_word off' rd' opc' \<longleftrightarrow> off = off' \<and> rd = rd' \<and> opc = opc'"
    using imm_gen_U [of off rd opc] imm_gen_U [of off' rd' opc'] imm_inject(2) [where 'a = 12, of off off'] by (auto simp: f)
  show "j_word off rd opc = j_word off' rd' opc' \<longleftrightarrow> off = off' \<and> rd = rd' \<and> opc = opc'"
    using imm_gen_J [of off rd opc] imm_gen_J [of off' rd' opc'] imm_inject(3) [of off off'] by (auto simp: f)
qed

lemma table_inject [simp]:
  "bcond_branch c = bcond_branch c' \<longleftrightarrow> c = c'" "bcond_branch c \<noteq> BR_NONE" "bcond_branch c \<noteq> BR_JAL" "bcond_branch c \<noteq> BR_JALR"
  "fst (lwidth_size l) = fst (lwidth_size l') \<and> snd (lwidth_size l) = snd (lwidth_size l') \<longleftrightarrow> l = l'"
  "swidth_size m = swidth_size m' \<longleftrightarrow> m = m'" "rop_alu f = rop_alu f' \<longleftrightarrow> f = f'" "iop_rop g = iop_rop g' \<longleftrightarrow> g = g'"
  "shop_rop h = shop_rop h' \<longleftrightarrow> h = h'" "iop_rop g \<noteq> shop_rop h" "shop_rop h \<noteq> iop_rop g" "rop_alu f \<noteq> ALU_NONE"
  by (cases c; cases c'; simp) ((cases c; simp)+, (cases l; cases l'; simp), (cases m; cases m'; simp), (cases f; cases f'; simp),
    (cases g; cases g'; simp), (cases h; cases h'; simp), (cases g; cases h; simp)+, (cases f; simp))

lemma table_inject_more [simp]:
  "mop_mdu f = mop_mdu f' \<longleftrightarrow> f = f'" "mop_mdu f \<noteq> MDU_NONE" "cop_cmd x = cop_cmd x' \<longleftrightarrow> x = x'" "cop_cmd x \<noteq> CSR_NONE"
  by (cases f; cases f'; simp) ((cases f; simp), (cases x; cases x'; simp), (cases x; simp))

lemma encode_inject: "encode i = encode j \<Longrightarrow> i = j"
proof -
  assume e: "encode i = encode j"
  then have c: "controls i = controls j" using decode_encode by (metis option.inject)
  show "i = j"
    by (cases i; cases j; insert e c; simp add: format_inject insn_word_inject alu_imm_ctrl_def alu_reg_ctrl_def ctrl_default_def no_ctrl_def)
qed

lemma imm_gen_shift: "imm_gen (insn_word f7 n rs1 f3 rd opc) IMM_I = simm (word_cat f7 n)"
  by (rule eq_by_bits, simp only: list.pred_inject) (simp add: imm_bits)

lemma imm_gen_immediate: "imm_gen (encode i) (fst (controls i)) = immediate i"
  by (cases i) (simp_all add: imm_gen_I imm_gen_S imm_gen_U imm_gen_B imm_gen_J imm_gen_none imm_gen_shift)

text \<open>C10. The decoder is right. It raises an illegal instruction exactly for the words that encode no instruction of RV32IM with
  the machine-mode instructions, no word encodes two instructions, and for the encoding of an instruction it gives the
  controls of that instruction and selects its immediate.\<close>

theorem decoder_is_right:
  "(dec_illegal (decoder w) \<longleftrightarrow> w \<notin> range encode) \<and> inj encode \<and>
   dec_ctrl (decoder (encode i)) = snd (controls i) \<and> imm_gen (encode i) (dec_imm_sel (decoder (encode i))) = immediate i"
proof -
  have "dec_illegal (decoder w) \<longleftrightarrow> w \<notin> range encode" using decoder_legal [of w] by (auto simp: image_iff)
  moreover have "inj encode" by (rule injI) (rule encode_inject)
  ultimately show ?thesis by (simp only: decoder_encode imm_gen_immediate)
qed

end
