(* ===== verification/Core_Muldiv_Proofs.thy ===== *)
theory Core_Muldiv_Proofs
  imports Core_Muldiv
begin

text \<open>
  The multiplier and the divider return the results of the M extension.
\<close>

section \<open>Multiplier\<close>

lemma lo32_of_int: "lo32 (of_int x) = of_int x"
  by (rule bit_word_eqI) (auto simp: lo32_def bit_simps bit_word_of_int_iff)

lemma hi32_of_int: "hi32 (of_int x) = of_int (x div 2 ^ 32)"
proof -
  have "x div 2 ^ 32 = drop_bit 32 x" by (simp add: drop_bit_eq_div)
  then show ?thesis by (intro bit_word_eqI) (auto simp: hi32_def bit_simps bit_word_of_int_iff)
qed

lemma sint_signed_ext: "sint (word_cat (field 31 (a :: u32) :: 1 word) a :: 33 word) = sint a"
proof -
  have "(word_cat (field 31 a :: 1 word) a :: 33 word) = scast a"
    by (rule bit_word_eqI) (auto simp: bit_simps bit_signed_iff min_def not_less less_Suc_eq numeral_eq_Suc)
  then show ?thesis by (simp add: sint_up_scast is_up)
qed

lemma sint_unsigned_ext: "sint (word_cat (0 :: 1 word) (a :: u32) :: 33 word) = uint a"
proof -
  have "(word_cat (0 :: 1 word) a :: 33 word) = ucast a"
    by (rule bit_word_eqI) (auto simp: bit_simps)
  moreover have "sint (ucast a :: 33 word) = uint a"
    using uint_bounded [of a] order.trans [OF _ uint_ge_0 [of a], of "- (2 ^ 32)"]
    by (simp add: sint_uint unsigned_ucast_eq signed_take_bit_int_eq_self take_bit_int_eq_self)
  ultimately show ?thesis by simp
qed

lemma product_value:
  assumes "sint (mul_lhs m) = x" "sint (mul_rhs m) = y"
  shows "product m = of_int (x * y)"
  unfolding product_def assms [symmetric] by simp

lemma mul_value:
  assumes "f \<in> {Mul, Mulh, Mulhsu, Mulhu}" "op = mop_mdu f"
    and m: "mul_lhs m = mul_lhs_ext op a" "mul_rhs m = mul_rhs_ext op b"
  shows "(if op = MDU_MUL then lo32 (product m) else hi32 (product m)) = mop_value f a b"
proof -
  have l: "sint (mul_lhs m) = (if op = MDU_MULH \<or> op = MDU_MULHSU then sint a else uint a)"
    unfolding m mul_lhs_ext_def by (simp only: sint_signed_ext sint_unsigned_ext if_distrib [of sint])
  have r: "sint (mul_rhs m) = (if op = MDU_MULH then sint b else uint b)"
    unfolding m mul_rhs_ext_def by (simp only: sint_signed_ext sint_unsigned_ext if_distrib [of sint])
  have low: "of_int (uint a * uint b) = (of_int (sint a * sint b) :: u32)" by simp
  show ?thesis
    unfolding product_value [OF l r] lo32_of_int hi32_of_int using assms(1,2) low by auto
qed

section \<open>Divider\<close>

text \<open>One step of the division on natural numbers.\<close>

definition step_nat :: "nat \<Rightarrow> nat \<Rightarrow> nat \<Rightarrow> nat \<times> nat" where
  "step_nat dv r q =
     (let rs = 2 * r + q div 2 ^ 31; qs = 2 * (q mod 2 ^ 31) in if dv \<le> rs then (rs - dv, qs + 1) else (rs, qs))"

lemma unat_word_cat:
  fixes a :: "'a::len word" and b :: "'b::len word"
  assumes "LENGTH('a) + LENGTH('b) \<le> LENGTH('c)"
  shows "unat (word_cat a b :: 'c::len word) = unat a * 2 ^ LENGTH('b) + unat b"
proof -
  let ?n = "unat a * 2 ^ LENGTH('b) + unat b"
  have "concat_bit LENGTH('b) (uint b) (uint a) = int ?n"
    using uint_bounded [of b] by (simp add: concat_bit_eq push_bit_eq_mult take_bit_int_eq_self uint_nat [symmetric])
  then have "(word_cat a b :: 'c word) = of_nat ?n" unfolding word_cat_eq' by (simp only: of_int_of_nat_eq)
  moreover have "?n < 2 ^ LENGTH('c)"
  proof -
    have "?n < unat a * 2 ^ LENGTH('b) + 2 ^ LENGTH('b)" using unsigned_less [of b] by simp
    also have "\<dots> = (unat a + 1) * 2 ^ LENGTH('b)" by simp
    also have "\<dots> \<le> 2 ^ LENGTH('a) * 2 ^ LENGTH('b)" by (intro mult_right_mono) (simp_all add: Suc_le_eq)
    also have "\<dots> \<le> 2 ^ LENGTH('c)" using assms by (simp flip: power_add)
    finally show ?thesis .
  qed
  ultimately show ?thesis by (simp only: unat_of_nat mod_less)
qed

lemma unat_field: "unat (field n w :: 'b::len word) = unat w div 2 ^ n mod 2 ^ LENGTH('b)"
  by (simp only: field_def unsigned_ucast_eq unat_drop_bit_eq take_bit_eq_mod) (simp only: drop_bit_eq_div)

lemma unat_ucast33: "unat (word_cat (0 :: 1 word) (a :: u32) :: 33 word) = unat a"
  by (subst unat_word_cat) simp_all

lemma unat_remainder_shifted: "unat (remainder_shifted d) = 2 * unat (remainder_q d) + unat (quotient_q d) div 2 ^ 31"
proof -
  have "unat (quotient_q d) < 2 ^ 32" using unsigned_less [of "quotient_q d"] by simp
  then have "unat (quotient_q d) div 2 ^ 31 < 2" by simp
  then show ?thesis unfolding remainder_shifted_def by (subst unat_word_cat) (simp_all add: unat_field)
qed

lemma unat_shifted_quotient:
  "unat (word_cat (field 0 (q :: u32) :: 31 word) (0 :: 1 word) :: u32) = 2 * (unat q mod 2 ^ 31)"
  by (subst unat_word_cat) (simp_all add: unat_field)

lemma division_step_nat:
  assumes "unat (remainder_q d) < unat (divisor_q d)"
  shows "map_prod unat unat (division_step d) =
    step_nat (unat (divisor_q d)) (unat (remainder_q d)) (unat (quotient_q d))"
proof -
  let ?rs = "remainder_shifted d" and ?qs = "word_cat (field 0 (quotient_q d) :: 31 word) (0 :: 1 word) :: u32"
  let ?dv = "unat (divisor_q d)"
  have bound: "unat v < 2 ^ 32" for v :: u32 using unsigned_less [of v] by simp
  have qt: "unat (quotient_q d) div 2 ^ 31 < 2" using bound [of "quotient_q d"] by simp
  have dv: "?dv < 2 ^ 32" by (rule bound)
  have le: "(word_cat (0 :: 1 word) (divisor_q d) :: 33 word) \<le> ?rs \<longleftrightarrow> ?dv \<le> unat ?rs"
    by (simp only: word_le_nat_alt unat_ucast33)
  have rs: "unat ?rs < 2 * ?dv" unfolding unat_remainder_shifted using assms qt by linarith
  have sub: "unat (ucast ?rs - divisor_q d) = unat ?rs - ?dv" if "?dv \<le> unat ?rs"
  proof -
    have "(ucast ?rs - divisor_q d :: u32) = of_nat (unat ?rs - ?dv)"
      using that by (simp add: of_nat_diff)
    then show ?thesis using rs dv by (simp add: unat_of_nat take_bit_nat_eq_self)
  qed
  have same: "unat (ucast ?rs :: u32) = unat ?rs" if "\<not> ?dv \<le> unat ?rs"
    using that dv by (simp add: unsigned_ucast_eq take_bit_nat_eq_self)
  have inc: "unat (set_bit 0 ?qs) = unat ?qs + 1"
  proof -
    have "set_bit 0 ?qs = ?qs OR 1" by (simp add: set_bit_eq_or)
    also have "\<dots> = ?qs + 1" by (rule disjunctive_add [symmetric]) (auto simp: bit_simps)
    finally have e: "set_bit 0 ?qs = ?qs + 1" .
    have "even (unat ?qs)" unfolding unat_shifted_quotient by simp
    moreover have "odd (unat (-1 :: u32))" by (simp only: unsigned_minus_1_eq_mask) (simp add: mask_eq_exp_minus_1)
    ultimately have "?qs \<noteq> -1" by metis
    then show ?thesis unfolding e by (rule unat_add1_if)
  qed
  show ?thesis
    unfolding division_step_def step_nat_def Let_def le unat_remainder_shifted [symmetric] unat_shifted_quotient [symmetric]
    using sub same inc by simp
qed

text \<open>
  \<open>k\<close> quotient bits are still to come: the quotient register holds the low \<open>k\<close> bits of the dividend \<open>n\<close>
  above the quotient bits found so far.
\<close>

definition dividing :: "nat \<Rightarrow> nat \<Rightarrow> nat \<Rightarrow> nat \<Rightarrow> nat \<Rightarrow> bool" where
  "dividing n dv k r q \<longleftrightarrow> k \<le> 32 \<and> r < dv \<and>
     (\<exists>p. p < 2 ^ (32 - k) \<and> q = n mod 2 ^ k * 2 ^ (32 - k) + p \<and> n div 2 ^ k = p * dv + r)"

lemma dividing_start: "n < 2 ^ 32 \<Longrightarrow> 0 < dv \<Longrightarrow> dividing n dv 32 0 n"
  by (simp add: dividing_def)

lemma dividing_end: "dividing n dv 0 r q \<Longrightarrow> q = n div dv \<and> r = n mod dv"
  by (auto simp: dividing_def div_mult_self3)

lemma dividing_step:
  assumes "dividing n dv (Suc k) r q" "step_nat dv r q = (r', q')"
  shows "dividing n dv k r' q'"
proof -
  define m where "m = (2 :: nat) ^ (31 - k)"
  from assms(1) obtain p where k: "k < 32" and r: "r < dv" and p: "p < m" "q = n mod 2 ^ Suc k * m + p"
    "n div 2 ^ Suc k = p * dv + r"
    by (auto simp: dividing_def m_def Suc_le_eq)
  define t where "t = n div 2 ^ k mod 2"
  have mm: "2 ^ k * m = 2 ^ 31" using k by (simp add: m_def flip: power_add)
  have m2: "2 ^ (32 - k) = 2 * m" using k by (simp add: m_def Suc_diff_le flip: power_Suc)
  have n: "n mod 2 ^ Suc k = t * 2 ^ k + n mod 2 ^ k"
    unfolding t_def power_Suc2 mod_mult2_eq by simp
  have q: "q = t * 2 ^ 31 + (n mod 2 ^ k * m + p)" unfolding p(2) n mm [symmetric] by (simp add: algebra_simps)
  have low: "n mod 2 ^ k * m + p < 2 ^ 31"
  proof -
    have "n mod 2 ^ k * m + p < (n mod 2 ^ k + 1) * m" using p(1) by simp
    also have "\<dots> \<le> 2 ^ k * m" by (intro mult_right_mono) (simp_all add: Suc_le_eq)
    finally show ?thesis by (simp only: mm)
  qed
  have qd: "q div 2 ^ 31 = t" "q mod 2 ^ 31 = n mod 2 ^ k * m + p" using q low by simp_all
  have nk: "n div 2 ^ k = 2 * (p * dv + r) + t"
    unfolding p(3) [symmetric] t_def power_Suc2 div_mult2_eq by simp
  have rq: "(r', q') = (if dv \<le> 2 * r + t then (2 * r + t - dv, 2 * (n mod 2 ^ k * m + p) + 1)
      else (2 * r + t, 2 * (n mod 2 ^ k * m + p)))"
    using assms(2) by (simp only: step_nat_def Let_def qd)
  have t2: "t < 2" by (simp add: t_def)
  show ?thesis
  proof (cases "dv \<le> 2 * r + t")
    case True
    then have "r' < dv" "q' = n mod 2 ^ k * (2 * m) + (2 * p + 1)" "n div 2 ^ k = (2 * p + 1) * dv + r'"
      using rq r t2 nk by (auto simp: algebra_simps)
    then show ?thesis using p(1) k unfolding dividing_def m2 by (intro conjI exI [of _ "2 * p + 1"]) simp_all
  next
    case False
    then have "r' < dv" "q' = n mod 2 ^ k * (2 * m) + 2 * p" "n div 2 ^ k = (2 * p) * dv + r'"
      using rq nk by (auto simp: algebra_simps)
    then show ?thesis using p(1) k unfolding dividing_def m2 by (intro conjI exI [of _ "2 * p"]) simp_all
  qed
qed

text \<open>Magnitudes and signs.\<close>

lemma corrected_eq: "corrected neg v = (if neg then - v else v)"
  by (simp add: corrected_def minus_eq_not_plus_1)

lemma bit31_sint: "bit (v :: u32) 31 \<longleftrightarrow> sint v < 0"
  using bit_last_iff [of v] by simp

lemma sint_magnitude:
  fixes v :: u32
  shows "unat (if bit v 31 then - v else v) = nat \<bar>sint v\<bar>"
proof -
  have range: "- (2 ^ 31) \<le> sint v" "sint v < 2 ^ 31" using sint_ge [of v] sint_lt [of v] by simp_all
  have "(if bit v 31 then - v else v) = of_nat (nat \<bar>sint v\<bar>)" by (simp add: bit31_sint)
  moreover have "nat \<bar>sint v\<bar> < 2 ^ LENGTH(32)" using range by simp
  ultimately show ?thesis by (simp only: unat_of_nat mod_less)
qed

lemma magnitude: "unat (input_magnitude op v) = (if input_signed op then nat \<bar>sint v\<bar> else unat v)"
  using sint_magnitude [of v] by (auto simp: input_magnitude_def simp flip: minus_eq_not_plus_1)

lemma of_nat_div_int:
  "(of_nat (n div k) :: u32) = of_int (int n div int k)" "(of_nat (n mod k) :: u32) = of_int (int n mod int k)"
  by (metis of_int_of_nat_eq zdiv_int, metis of_int_of_nat_eq zmod_int)

lemma divide_by_magnitudes:
  assumes "f \<in> {Div, Divu, Rem, Remu}" "op = mop_mdu f" "b \<noteq> 0"
    and n: "n = unat (input_magnitude op a)" and dv: "dv = unat (input_magnitude op b)"
  shows "mop_value f a b = (if input_is_div op
    then corrected (input_signed op \<and> bit a 31 \<noteq> bit b 31) (of_nat (n div dv))
    else corrected (input_signed op \<and> bit a 31) (of_nat (n mod dv)))"
proof (cases "input_signed op")
  case True
  then have nd: "int n = \<bar>sint a\<bar>" "int dv = \<bar>sint b\<bar>" by (simp_all add: n dv magnitude)
  have "of_int (sint a sdiv sint b) = corrected (bit a 31 \<noteq> bit b 31) (of_nat (n div dv))"
    unfolding of_nat_div_int nd corrected_eq bit31_sint signed_divide_int_def by (auto simp: sgn_if)
  moreover have "of_int (sint a smod sint b) = corrected (bit a 31) (of_nat (n mod dv))"
    unfolding of_nat_div_int nd corrected_eq bit31_sint signed_modulo_int_def by (auto simp: sgn_if)
  ultimately show ?thesis using assms(1-3) True by (auto simp: input_is_div_def input_signed_def)
next
  case False
  then have nd: "int n = uint a" "int dv = uint b" by (simp_all add: n dv magnitude)
  show ?thesis
    using assms(1-3) False unfolding of_nat_div_int nd corrected_eq
    by (auto simp: input_is_div_def input_signed_def)
qed

text \<open>A divider at work on \<open>f a b\<close>, with \<open>k + 1\<close> clocks to go.\<close>

definition div_running :: "mop \<Rightarrow> u32 \<Rightarrow> u32 \<Rightarrow> nat \<Rightarrow> div_unit \<Rightarrow> bool" where
  "div_running f a b k d \<longleftrightarrow> div_state d = DIV_RUN \<and> div_op d = mop_mdu f \<and> k < 32 \<and> iter_q d = of_nat (31 - k) \<and>
     divisor_q d = input_magnitude (mop_mdu f) b \<and>
     quotient_neg_q d = (input_signed (mop_mdu f) \<and> bit a 31 \<noteq> bit b 31) \<and>
     remainder_neg_q d = (input_signed (mop_mdu f) \<and> bit a 31) \<and>
     dividing (unat (input_magnitude (mop_mdu f) a)) (unat (divisor_q d)) (Suc k) (unat (remainder_q d)) (unat (quotient_q d))"

lemma magnitude_nonzero: "b \<noteq> 0 \<Longrightarrow> 0 < unat (input_magnitude op b)"
proof -
  assume "b \<noteq> 0"
  moreover have "of_int (sint b) = b" by simp
  ultimately have "sint b \<noteq> 0" by (metis of_int_0)
  then show ?thesis using \<open>b \<noteq> 0\<close> by (simp add: magnitude unat_gt_0)
qed

lemma div_accept_cases:
  assumes f: "f \<in> {Div, Divu, Rem, Remu}"
  shows "div_state (div_accept (mop_mdu f) a b d) = DIV_RESP \<and> div_result (div_accept (mop_mdu f) a b d) = mop_value f a b \<or>
    div_running f a b 31 (div_accept (mop_mdu f) a b d)"
proof (cases "b = 0")
  case True
  then show ?thesis using f by (auto simp: div_accept_def input_is_div_def)
next
  case nz: False
  let ?op = "mop_mdu f" and ?n = "unat (input_magnitude (mop_mdu f) a)" and ?dv = "unat (input_magnitude (mop_mdu f) b)"
  note val = divide_by_magnitudes [OF f refl nz refl refl, of a]
  show ?thesis
  proof (cases "input_signed_overflow ?op a b")
    case True
    then have ab: "a = 0x80000000" "b = 0xffffffff" "input_signed ?op" by (simp_all add: input_signed_overflow_def)
    have m: "input_magnitude ?op a = 0x80000000" "input_magnitude ?op b = 1" using ab by (simp_all add: input_magnitude_def)
    have "mop_value f a b = (if input_is_div ?op then 0x80000000 else 0)"
      unfolding val m by (simp add: corrected_eq ab)
    then show ?thesis using nz True by (simp add: div_accept_def)
  next
    case ordinary: False
    show ?thesis
    proof (cases "input_small_magnitude ?op a b")
      case True
      then have "?n < ?dv" by (simp add: input_small_magnitude_def word_less_nat_alt)
      then have "mop_value f a b = (if input_is_div ?op then 0 else corrected (input_signed ?op \<and> bit a 31) (input_magnitude ?op a))"
        using val by (simp add: corrected_eq)
      also have "\<dots> = (if input_is_div ?op then 0 else a)"
        by (simp add: corrected_def input_magnitude_def minus_eq_not_plus_1 [symmetric])
      finally show ?thesis using nz ordinary True by (simp add: div_accept_def)
    next
      case False
      have "dividing ?n ?dv 32 0 ?n"
        using unsigned_less [of "input_magnitude ?op a", where ?'a = nat] magnitude_nonzero [OF nz] by (intro dividing_start) simp_all
      then show ?thesis using nz ordinary False by (simp add: div_accept_def div_running_def)
    qed
  qed
qed

lemma div_run_step:
  assumes f: "f \<in> {Div, Divu, Rem, Remu}" and nz: "b \<noteq> 0" and run: "div_running f a b k d" and i: "undisturbed i"
  shows "case k of 0 \<Rightarrow> div_state (div_clock i d) = DIV_RESP \<and> div_result (div_clock i d) = mop_value f a b
    | Suc k' \<Rightarrow> div_running f a b k' (div_clock i d)"
proof -
  obtain r q where rq: "division_step d = (r, q)" by (cases "division_step d")
  let ?n = "unat (input_magnitude (mop_mdu f) a)"
  have dv: "dividing ?n (unat (divisor_q d)) (Suc k) (unat (remainder_q d)) (unat (quotient_q d))" and k: "k < 32"
    using run unfolding div_running_def by blast+
  then have "unat (remainder_q d) < unat (divisor_q d)" by (simp add: dividing_def)
  from division_step_nat [OF this] have "step_nat (unat (divisor_q d)) (unat (remainder_q d)) (unat (quotient_q d)) = (unat r, unat q)"
    by (simp add: rq)
  note next_dv = dividing_step [OF dv this]
  show ?thesis
  proof (cases k)
    case 0
    note e = dividing_end [OF next_dv [unfolded 0]]
    have "q = of_nat (?n div unat (divisor_q d))" "r = of_nat (?n mod unat (divisor_q d))"
      by (simp_all add: conjunct1 [OF e, symmetric] conjunct2 [OF e, symmetric])
    moreover have "divisor_q d = input_magnitude (mop_mdu f) b" "iter_q d = 31" using run 0 by (simp_all add: div_running_def)
    moreover note divide_by_magnitudes [OF f refl nz refl refl, of a]
    ultimately show ?thesis
      using run i 0 f by (auto simp: div_clock_def rq div_running_def undisturbed_def input_is_div_def)
  next
    case (Suc k')
    have "of_nat (31 - k) \<noteq> (31 :: 6 word)"
      using Suc k by (subst of_nat_numeral [symmetric], subst word_of_nat_eq_iff) (simp add: take_bit_nat_eq_self)
    moreover have "of_nat (31 - k) + 1 = (of_nat (31 - k') :: 6 word)"
      using Suc k by (simp add: Suc_diff_Suc flip: of_nat_Suc)
    ultimately show ?thesis
      using run i Suc next_dv by (auto simp: div_clock_def rq div_running_def undisturbed_def)
  qed
qed

section \<open>From the request to the response\<close>

lemma div_runs:
  assumes f: "f \<in> {Div, Divu, Rem, Remu}" and nz: "b \<noteq> 0" and i: "\<forall>k. undisturbed (ins k)"
  shows "div_running f a b k (after div_clock ins m d) \<Longrightarrow>
    (\<forall>j \<le> k. div_state (after div_clock ins (m + j) d) = DIV_RUN) \<and>
    div_state (after div_clock ins (m + Suc k) d) = DIV_RESP \<and> div_result (after div_clock ins (m + Suc k) d) = mop_value f a b"
proof (induction k arbitrary: m)
  case 0
  then show ?case using div_run_step [OF f nz 0 spec [OF i, of m]] by (simp add: div_running_def)
next
  case (Suc k)
  have "div_running f a b k (after div_clock ins (Suc m) d)"
    using div_run_step [OF f nz Suc.prems spec [OF i, of m]] by simp
  from Suc.IH [OF this] have rest: "\<forall>j \<le> k. div_state (after div_clock ins (m + Suc j) d) = DIV_RUN"
    "div_state (after div_clock ins (m + Suc (Suc k)) d) = DIV_RESP"
    "div_result (after div_clock ins (m + Suc (Suc k)) d) = mop_value f a b" by simp_all
  have "div_state (after div_clock ins (m + j) d) = DIV_RUN" if "j \<le> Suc k" for j
    using that rest(1) Suc.prems by (cases j) (auto simp: div_running_def)
  then show ?case using rest(2,3) by blast
qed

lemma div_clock_resp: "undisturbed i \<Longrightarrow> div_state d = DIV_RESP \<Longrightarrow> \<not> in_rsp_ready i \<Longrightarrow> div_clock i d = d"
  by (simp add: div_clock_def undisturbed_def)

lemma mul_clock_resp: "undisturbed i \<Longrightarrow> mul_state d = MUL_RESP \<Longrightarrow> \<not> in_rsp_ready i \<Longrightarrow> mul_clock i d = d"
  by (simp add: mul_clock_def undisturbed_def)

lemma div_holds:
  assumes "\<forall>k. undisturbed (ins k)" "div_state (after div_clock ins n d) = DIV_RESP"
    and "\<forall>j. n \<le> j \<and> j < n + k \<longrightarrow> \<not> in_rsp_ready (ins j)"
  shows "after div_clock ins (n + k) d = after div_clock ins n d"
  using assms(3)
proof (induction k)
  case (Suc k)
  then have "after div_clock ins (n + k) d = after div_clock ins n d" by simp
  then show ?case using spec [OF assms(1), of "n + k"] assms(2) Suc.prems div_clock_resp by simp
qed simp

lemma mul_holds:
  assumes "\<forall>k. undisturbed (ins k)" "mul_state (after mul_clock ins n d) = MUL_RESP"
    and "\<forall>j. n \<le> j \<and> j < n + k \<longrightarrow> \<not> in_rsp_ready (ins j)"
  shows "after mul_clock ins (n + k) d = after mul_clock ins n d"
  using assms(3)
proof (induction k)
  case (Suc k)
  then have "after mul_clock ins (n + k) d = after mul_clock ins n d" by simp
  then show ?case using spec [OF assms(1), of "n + k"] assms(2) Suc.prems mul_clock_resp by simp
qed simp

lemma div_request:
  assumes f: "f \<in> {Div, Divu, Rem, Remu}" and i: "\<forall>k. undisturbed (ins k)"
    and idle: "div_state d = DIV_IDLE" and req: "request_of (ins 0) (mop_mdu f) a b"
  obtains n where "1 \<le> n" "n \<le> 33" "\<forall>j. 0 < j \<and> j < n \<longrightarrow> div_state (after div_clock ins j d) = DIV_RUN"
    "div_state (after div_clock ins n d) = DIV_RESP" "div_result (after div_clock ins n d) = mop_value f a b"
proof -
  have start: "after div_clock ins 1 d = div_accept (mop_mdu f) a b d"
    using spec [OF i, of 0] idle req by (simp add: div_clock_def div_req_ready_def undisturbed_def request_of_def)
  from div_accept_cases [OF f, of a b d] show thesis
  proof
    assume "div_state (div_accept (mop_mdu f) a b d) = DIV_RESP \<and> div_result (div_accept (mop_mdu f) a b d) = mop_value f a b"
    then show thesis using start by (intro that [of 1]) simp_all
  next
    assume run: "div_running f a b 31 (div_accept (mop_mdu f) a b d)"
    have nz: "b \<noteq> 0" using run by (auto simp: div_running_def div_accept_def)
    from div_runs [OF f nz i, of a 31 1 d] run [folded start] have
      r: "\<forall>j \<le> 31. div_state (after div_clock ins (1 + j) d) = DIV_RUN" "div_state (after div_clock ins 33 d) = DIV_RESP"
      "div_result (after div_clock ins 33 d) = mop_value f a b" by simp_all
    have "div_state (after div_clock ins j d) = DIV_RUN" if "0 < j" "j < 33" for j
      using spec [OF r(1), of "j - 1"] that by simp
    then show thesis using r(2,3) by (intro that [of 33]) simp_all
  qed
qed

lemma mul_request:
  assumes f: "f \<in> {Mul, Mulh, Mulhsu, Mulhu}" and i: "\<forall>k. undisturbed (ins k)"
    and idle: "mul_state d = MUL_IDLE" and req: "request_of (ins 0) (mop_mdu f) a b"
  shows "mul_state (after mul_clock ins 1 d) = MUL_EXEC" "mul_state (after mul_clock ins 2 d) = MUL_RESP"
    "mul_result (after mul_clock ins 2 d) = mop_value f a b"
proof -
  let ?d = "after mul_clock ins 1 d"
  have d: "?d = d\<lparr>mul_lhs := mul_lhs_ext (mop_mdu f) a, mul_rhs := mul_rhs_ext (mop_mdu f) b, mul_op := mop_mdu f, mul_state := MUL_EXEC\<rparr>"
    using spec [OF i, of 0] idle req by (simp add: mul_clock_def mul_req_ready_def undisturbed_def request_of_def)
  show "mul_state ?d = MUL_EXEC" unfolding d by simp
  have "after mul_clock ins 2 d = mul_clock (ins 1) ?d" by (simp add: numeral_2_eq_2)
  also have "\<dots> = ?d\<lparr>mul_result := (if mul_op ?d = MDU_MUL then lo32 (product ?d) else hi32 (product ?d)), mul_state := MUL_RESP\<rparr>"
    using spec [OF i, of 1] \<open>mul_state ?d = MUL_EXEC\<close> unfolding mul_clock_def [of _ ?d] undisturbed_def by (simp only: if_False mul_state_e.case)
  also have "\<dots> = ?d\<lparr>mul_result := mop_value f a b, mul_state := MUL_RESP\<rparr>"
  proof -
    have "mul_op ?d = mop_mdu f" "mul_lhs ?d = mul_lhs_ext (mop_mdu f) a" "mul_rhs ?d = mul_rhs_ext (mop_mdu f) b"
      unfolding d by simp_all
    then show ?thesis using mul_value [OF f refl, of ?d a b] by (simp only:)
  qed
  finally show "mul_state (after mul_clock ins 2 d) = MUL_RESP" "mul_result (after mul_clock ins 2 d) = mop_value f a b"
    by simp_all
qed

section \<open>The properties\<close>

text \<open>C20. The divider implements the division instructions. Taking a request when it is idle, it answers after one to 33
  clocks with the result the instruction set defines, division by zero and signed overflow included, and
  keeps the answer until it is accepted.\<close>

theorem divider_is_right:
  assumes "f \<in> {Div, Divu, Rem, Remu}" and "div_state d = DIV_IDLE" and "request_of (ins 0) (mop_mdu f) a b"
    and "\<forall>k. undisturbed (ins k)"
  shows "\<exists>n. 1 \<le> n \<and> n \<le> 33 \<and> (\<forall>j. 0 < j \<and> j < n \<longrightarrow> \<not> div_rsp_valid False (after div_clock ins j d)) \<and>
    (\<forall>k. (\<forall>j. n \<le> j \<and> j < n + k \<longrightarrow> \<not> in_rsp_ready (ins j)) \<longrightarrow>
       div_rsp_valid False (after div_clock ins (n + k) d) \<and> div_result (after div_clock ins (n + k) d) = mop_value f a b)"
proof -
  from div_request [OF assms(1,4,2,3)] obtain n where n: "1 \<le> n" "n \<le> 33"
    "\<forall>j. 0 < j \<and> j < n \<longrightarrow> div_state (after div_clock ins j d) = DIV_RUN"
    "div_state (after div_clock ins n d) = DIV_RESP" "div_result (after div_clock ins n d) = mop_value f a b" .
  then show ?thesis
    using div_holds [OF assms(4) n(4)] by (intro exI [of _ n]) (simp add: div_rsp_valid_def)
qed

definition some_request :: "mop \<Rightarrow> u32 \<Rightarrow> u32 \<Rightarrow> mdu_in" where
  "some_request f a b = \<lparr>in_rst = False, in_kill = False, in_req_valid = True, in_op = mop_mdu f, in_lhs = a, in_rhs = b, in_rsp_ready = False\<rparr>"

lemma some_request:
  "request_of ((\<lambda>_ :: nat. some_request f a b) 0) (mop_mdu f) a b" "\<forall>k :: nat. undisturbed ((\<lambda>_. some_request f a b) k)"
  "\<not> in_rsp_ready (some_request f a b)"
  by (simp_all add: request_of_def undisturbed_def some_request_def)

theorem divider_is_right_witness:
  "\<exists>n. 1 \<le> n \<and> n \<le> 33 \<and> div_result (after div_clock (\<lambda>_. some_request Rem (-7) 2) n div_reset) = -1"
proof -
  have v: "mop_value Rem (-7) 2 = -1" by (simp add: signed_modulo_int_def)
  have "div_state div_reset = DIV_IDLE" by (simp add: div_reset_def)
  have "Rem \<in> {Div, Divu, Rem, Remu}" by simp
  from divider_is_right [OF this \<open>div_state div_reset = DIV_IDLE\<close> some_request(1,2)] some_request(3)
  obtain n where "1 \<le> n" "n \<le> 33"
    "div_result (after div_clock (\<lambda>_. some_request Rem (-7) 2) (n + 0) div_reset) = mop_value Rem (-7) 2" by meson
  then show ?thesis unfolding v by (auto simp only: add_0_right)
qed

text \<open>C25. The multiplier implements the four multiplication instructions: it answers two clocks after it took the request with the
  low or the high half of the product, each operand read as signed or unsigned as the instruction says,
  and keeps the answer until it is accepted.\<close>

theorem multiplier_is_right:
  assumes "f \<in> {Mul, Mulh, Mulhsu, Mulhu}" and "mul_state d = MUL_IDLE" and "request_of (ins 0) (mop_mdu f) a b"
    and "\<forall>k. undisturbed (ins k)"
  shows "\<not> mul_rsp_valid False (after mul_clock ins 1 d) \<and>
    (\<forall>k. (\<forall>j. 2 \<le> j \<and> j < 2 + k \<longrightarrow> \<not> in_rsp_ready (ins j)) \<longrightarrow>
       mul_rsp_valid False (after mul_clock ins (2 + k) d) \<and> mul_result (after mul_clock ins (2 + k) d) = mop_value f a b)"
proof -
  note r = mul_request [OF assms(1,4,2,3)]
  show ?thesis using mul_holds [OF assms(4) r(2)] r by (simp add: mul_rsp_valid_def)
qed

theorem multiplier_is_right_witness:
  "mul_result (after mul_clock (\<lambda>_. some_request Mulhsu (-1) 2) 2 mul_reset) = -1"
proof -
  have v: "mop_value Mulhsu (-1) 2 = -1" by simp
  have "mul_state mul_reset = MUL_IDLE" by (simp add: mul_reset_def)
  have "Mulhsu \<in> {Mul, Mulh, Mulhsu, Mulhu}" by simp
  from multiplier_is_right [OF this \<open>mul_state mul_reset = MUL_IDLE\<close> some_request(1,2)] some_request(3)
  have "mul_result (after mul_clock (\<lambda>_. some_request Mulhsu (-1) 2) (2 + 0) mul_reset) = mop_value Mulhsu (-1) 2"
    by meson
  then show ?thesis unfolding v by (simp only: add_0_right)
qed

end
