(* ===== verification/Core_Datapath.thy ===== *)
theory Core_Datapath
  imports Core_Pipe Core_Decode_Proofs Core_Muldiv_Proofs
begin

text \<open>
  The datapath executes instructions. A packet that is decoded, executed, sent through the memory stage and committed, one
  stage after the other and without its neighbours in the pipeline, does to the architectural state
  what the instruction set says.
\<close>

section \<open>Arithmetic\<close>

lemma shamt_amount: "shamt b = amount b"
  by (simp add: shamt_def amount_def field_def unsigned_ucast_eq take_bit_eq_mod)

lemma of_nat_div: "of_nat (unat (a :: u32) div 2 ^ n) = drop_bit n a"
  by (simp add: drop_bit_eq_div[symmetric] unat_drop_bit_eq[symmetric])

lemma of_int_sdiv: "of_int (sint (a :: u32) div 2 ^ n) = signed_drop_bit n a"
  by (simp add: drop_bit_eq_div[symmetric] sint_signed_drop_bit_eq[symmetric])

lemma of_nat_times: "of_nat (unat (a :: u32) * 2 ^ n) = push_bit n a"
  by (simp add: push_bit_eq_mult)

lemma alu_rop: "alu (rop_alu f) a b = rop_value f a b"
  by (cases f) (simp_all only: rop_alu.simps rop_value.simps alu_def alu_op_e.case shamt_amount of_nat_div of_int_sdiv of_nat_times
      word_sless_alt word_less_nat_alt)

lemma branch_bcond: "branch_taken (bcond_branch c) a b \<longleftrightarrow> bcond_holds c a b"
  by (cases c) (simp_all add: branch_taken_def word_sless_alt word_sle_eq word_less_nat_alt word_le_nat_alt)

lemma bcond_branch_target: "branch_target (bcond_branch c) pc imm a = pc + imm" "bcond_branch c \<noteq> BR_NONE"
  by (cases c; simp add: branch_target_def)+

lemma low_bits_clear: "(field 0 (a :: u32) :: 2 word) = 0 \<longleftrightarrow> unat a mod 4 = 0"
  by (simp only: word_unat_eq_iff unat_field) simp

lemma clear_bit_0: "(a :: u32) AND 0xfffffffe = of_nat (unat a div 2 * 2)"
proof -
  have m: "0xfffffffe = NOT (mask 1 :: u32)" by (simp add: mask_eq_exp_minus_1)
  have "of_nat (unat a div 2 * 2) = push_bit 1 (drop_bit 1 a)"
    using of_nat_div [of a 1] by (simp add: push_bit_eq_mult)
  also have "\<dots> = a AND 0xfffffffe" unfolding m
    by (rule bit_word_eqI)
      (auto simp only: bit_push_bit_iff bit_drop_bit_eq o_def possible_bit_word bit_and_iff bit_not_iff bit_mask_iff, auto)
  finally show ?thesis by simp
qed

section \<open>Byte lanes\<close>

lemma unat_low_bits: "unat (field 0 (a :: u32) :: 2 word) = unat a mod 4" "unat (field 1 a :: 1 word) = unat a div 2 mod 2"
  by (simp_all only: unat_field) simp_all

lemma bit_of_nat_mod: "bit (of_nat (unat (s :: u32) mod 2 ^ n) :: u32) k \<longleftrightarrow> k < n \<and> bit s k"
proof -
  have "of_nat (unat s mod 2 ^ n) = take_bit n s"
    by (simp only: take_bit_eq_mod [symmetric] unsigned_take_bit_eq [symmetric]) simp
  then show ?thesis by (simp add: bit_take_bit_iff)
qed

lemma of_nat_full: "of_nat (unat (s :: u32) mod 2 ^ 32) = s"
proof (rule bit_word_eqI)
  fix k assume "k < LENGTH(32)"
  then show "bit (of_nat (unat s mod 2 ^ 32) :: u32) k = bit s k" by (subst bit_of_nat_mod) simp
qed

lemma bit_of_int_signed: "bit (of_int (signed_take_bit m (int (unat (s :: u32) mod 2 ^ Suc m))) :: u32) k \<longleftrightarrow> k < 32 \<and> bit s (min k m)"
proof -
  have "signed_take_bit m (int (unat s mod 2 ^ Suc m)) = signed_take_bit m (uint s)"
    by (simp only: take_bit_eq_mod [symmetric] of_nat_take_bit uint_nat [symmetric] signed_take_bit_take_bit) simp
  then show ?thesis by (auto simp: bit_word_of_int_iff bit_signed_take_bit_iff bit_uint_iff min.commute dest: bit_imp_le_length)
qed

lemma extend_zero:
  assumes "LENGTH('a) + LENGTH('b) = 32"
  shows "word_cat (0 :: 'a::len word) (field 0 (s :: u32) :: 'b::len word) = (of_nat (unat s mod 2 ^ LENGTH('b)) :: u32)"
proof (rule bit_word_eqI)
  fix k assume "k < LENGTH(32)"
  then show "bit (word_cat (0 :: 'a word) (field 0 s :: 'b word) :: u32) k = bit (of_nat (unat s mod 2 ^ LENGTH('b)) :: u32) k"
    by (simp only: bit_of_nat_mod bit_word_cat_iff bit_field) auto
qed

lemma extend_sign:
  assumes "LENGTH('a) + LENGTH('b) = 32" "LENGTH('b) = Suc m"
  shows "word_cat (fill (bit s m) :: 'a::len word) (field 0 (s :: u32) :: 'b::len word) =
    (of_int (signed_take_bit m (int (unat s mod 2 ^ LENGTH('b)))) :: u32)"
proof (rule bit_word_eqI)
  fix k assume "k < LENGTH(32)"
  then show "bit (word_cat (fill (bit s m) :: 'a word) (field 0 s :: 'b word) :: u32) k =
      bit (of_int (signed_take_bit m (int (unat s mod 2 ^ LENGTH('b)))) :: u32) k"
    using assms(1) unfolding assms(2) bit_of_int_signed by (auto simp: bit_word_cat_iff bit_field bit_fill assms(2) min_def)
qed

lemma extend_bits:
  fixes s :: u32
  shows "word_cat (0 :: 24 word) (field 0 s :: 8 word) = (of_nat (unat s mod 2 ^ 8) :: u32)"
    and "word_cat (0 :: 16 word) (field 0 s :: 16 word) = (of_nat (unat s mod 2 ^ 16) :: u32)"
    and "word_cat (fill (bit s 7) :: 24 word) (field 0 s :: 8 word) = (of_int (signed_take_bit 7 (int (unat s mod 2 ^ 8))) :: u32)"
    and "word_cat (fill (bit s 15) :: 16 word) (field 0 s :: 16 word) = (of_int (signed_take_bit 15 (int (unat s mod 2 ^ 16))) :: u32)"
  using extend_zero [where ?'a = 24 and ?'b = 8, of s] extend_zero [where ?'a = 16 and ?'b = 16, of s]
    extend_sign [where ?'a = 24 and ?'b = 8 and m = 7, of s] extend_sign [where ?'a = 16 and ?'b = 16 and m = 15, of s]
  by simp_all

definition load_of :: "lwidth \<Rightarrow> u32 \<Rightarrow> u32 \<Rightarrow> u32" where
  "load_of w a rdata = extract_load_data rdata (field 0 a) (fst (lwidth_size w)) (snd (lwidth_size w))"

lemma load_of: "aligned_for (lwidth_bytes w) a \<Longrightarrow> load_of w a rdata = loaded w a rdata"
proof -
  assume al: "aligned_for (lwidth_bytes w) a"
  let ?s = "drop_bit (8 * (unat a mod 4)) rdata"
  have s: "unat rdata div 2 ^ (8 * (unat a mod 4)) = unat ?s" by (simp only: unat_drop_bit_eq) (rule drop_bit_eq_div [symmetric])
  have "unat a mod 4 = 0" if "w = Lw" using al that by (simp add: aligned_for_def)
  moreover have "of_nat (unat ?s mod 2 ^ 32) = ?s" by (rule of_nat_full)
  moreover have "extract_load_data rdata (field 0 a) MEM_BYTE False = of_int (signed_take_bit 7 (int (unat ?s mod 2 ^ 8)))"
    "extract_load_data rdata (field 0 a) MEM_BYTE True = of_nat (unat ?s mod 2 ^ 8)"
    "extract_load_data rdata (field 0 a) MEM_HALF False = of_int (signed_take_bit 15 (int (unat ?s mod 2 ^ 16)))"
    "extract_load_data rdata (field 0 a) MEM_HALF True = of_nat (unat ?s mod 2 ^ 16)"
    "extract_load_data rdata (field 0 a) MEM_WORD False = ?s"
    unfolding extract_load_data_def unat_low_bits Let_def
    by (simp_all only: mem_size_e.case if_True if_False extend_bits simp_thms)
  ultimately show ?thesis unfolding load_of_def loaded_def s Let_def by (cases w) simp_all
qed

text \<open>A store drives the lanes of its bytes.\<close>

lemma store_lanes:
  assumes "aligned_for (swidth_bytes w) a"
  shows "store_wdata (swidth_size w) a v = req_wdata (store_request w a v)"
    and "store_wstrb (swidth_size w) a = req_wstrb (store_request w a v)"
proof -
  have h: "16 * (unat a div 2 mod 2) = 8 * (unat a mod 4)" "2 * (unat a div 2 mod 2) = unat a mod 4" if "unat a mod 2 = 0"
    using that mod_mult2_eq [of "unat a" 2 2] by simp_all
  have full: "of_nat (unat v mod 2 ^ 32) = v" by (rule of_nat_full)
  have wd: "req_wdata (store_request w a v) = push_bit (8 * (unat a mod 4)) (of_nat (unat v mod 2 ^ (8 * swidth_bytes w)))"
    by (simp add: store_request_def push_bit_eq_mult)
  have "store_wdata MEM_BYTE a v = push_bit (8 * (unat a mod 4)) (of_nat (unat v mod 2 ^ 8))"
    "store_wdata MEM_HALF a v = push_bit (16 * (unat a div 2 mod 2)) (of_nat (unat v mod 2 ^ 16))" "store_wdata MEM_WORD a v = v"
    unfolding store_wdata_def by (simp_all only: mem_size_e.case unat_low_bits extend_bits)
  note sd = this
  show "store_wdata (swidth_size w) a v = req_wdata (store_request w a v)"
  proof (cases w)
    case Sh
    then have "16 * (unat a div 2 mod 2) = 8 * (unat a mod 4)" using assms by (intro h) (simp add: aligned_for_def)
    then show ?thesis unfolding Sh wd [unfolded Sh] by (simp only: swidth_size.simps sd) simp
  qed (use assms full sd wd in \<open>simp_all add: aligned_for_def\<close>)
  have "store_wstrb MEM_BYTE a = push_bit (unat a mod 4) 1" "store_wstrb MEM_HALF a = push_bit (2 * (unat a div 2 mod 2)) 3"
    "store_wstrb MEM_WORD a = 15"
    unfolding store_wstrb_def by (simp_all only: mem_size_e.case unat_low_bits)
  note ss = this
  have wb: "req_wstrb (store_request w a v) = push_bit (unat a mod 4) (of_nat (2 ^ swidth_bytes w - 1))"
    by (simp add: store_request_def byte_lanes_def push_bit_eq_mult)
  show "store_wstrb (swidth_size w) a = req_wstrb (store_request w a v)"
  proof (cases w)
    case Sh
    then have "2 * (unat a div 2 mod 2) = unat a mod 4" using assms by (intro h) (simp add: aligned_for_def)
    then show ?thesis unfolding Sh wb [unfolded Sh] by (simp only: swidth_size.simps ss) simp
  qed (use assms ss wb in \<open>simp_all add: aligned_for_def\<close>)
qed

lemma misaligned_iff:
  "address_misaligned (fst (lwidth_size w)) (field 0 a) \<longleftrightarrow> \<not> aligned_for (lwidth_bytes w) a"
  "address_misaligned (swidth_size v) (field 0 a) \<longleftrightarrow> \<not> aligned_for (swidth_bytes v) a"
proof -
  have odd: "bit (field 0 a :: 2 word) 0 \<longleftrightarrow> unat a mod 2 \<noteq> 0"
    unfolding bit_field using bit_unsigned_iff [of a 0, where ?'a = nat] by (simp add: bit_0 odd_iff_mod_2_eq_one)
  have word: "(field 0 a :: 2 word) \<noteq> 0 \<longleftrightarrow> unat a mod 4 \<noteq> 0" by (simp only: low_bits_clear)
  show "address_misaligned (fst (lwidth_size w)) (field 0 a) \<longleftrightarrow> \<not> aligned_for (lwidth_bytes w) a"
    by (cases w) (simp_all add: address_misaligned_def aligned_for_def odd word)
  show "address_misaligned (swidth_size v) (field 0 a) \<longleftrightarrow> \<not> aligned_for (swidth_bytes v) a"
    by (cases v) (simp_all add: address_misaligned_def aligned_for_def odd word)
qed

lemma word_of_addr: "word_of_addr a = word_aligned a"
  by (simp add: word_of_addr_def word_aligned_eqs)

section \<open>Fields of an encoding\<close>

lemma encode_fields:
  "(field 7 (i_word imm rs1 f3 rd opc) :: 5 word) = rd" "(field 15 (i_word imm rs1 f3 rd opc) :: 5 word) = rs1"
  "(field 15 (s_word imm rs2 rs1 f3 opc) :: 5 word) = rs1" "(field 20 (s_word imm rs2 rs1 f3 opc) :: 5 word) = rs2"
  "(field 15 (b_word imm rs2 rs1 f3 opc) :: 5 word) = rs1" "(field 20 (b_word imm rs2 rs1 f3 opc) :: 5 word) = rs2"
  "(field 7 (u_word imm20 rd opc) :: 5 word) = rd" "(field 7 (j_word imm20 rd opc) :: 5 word) = rd"
  by (simp_all add: word_formats)

lemma csr_addr_of_i: "csr_addr_of (i_word a rs1 f3 rd opc) = a"
proof (rule bit_word_eqI)
  fix n assume "n < LENGTH(12)"
  then show "bit (csr_addr_of (i_word a rs1 f3 rd opc)) n = bit a n"
    by (cases "n < 5") (auto simp: csr_addr_of_def i_word_def insn_word_def bit_simps bit_beyond)
qed

lemma encode_environment: "encode i = INSN_ECALL \<longleftrightarrow> i = ECALL" "encode i = INSN_EBREAK \<longleftrightarrow> i = EBREAK"
proof -
  have "encode i \<noteq> INSN_ECALL \<and> encode i \<noteq> INSN_EBREAK" if i: "i \<noteq> ECALL" "i \<noteq> EBREAK"
  proof -
    have "(field 0 (encode i) :: 7 word) \<noteq> 0x73 \<or> (field 12 (encode i) :: 3 word) \<noteq> 0 \<or> encode i \<in> {INSN_MRET, INSN_WFI}"
      using i by (cases i) (simp_all add: cop_f3_nonzero system_words)
    then show ?thesis using system_fields system_apart by auto
  qed
  moreover have "encode ECALL = INSN_ECALL" "encode EBREAK = INSN_EBREAK" "INSN_ECALL \<noteq> INSN_EBREAK"
    by (simp_all add: system_words) (simp add: insn_defs)
  ultimately show "encode i = INSN_ECALL \<longleftrightarrow> i = ECALL" "encode i = INSN_EBREAK \<longleftrightarrow> i = EBREAK"
    by metis+
qed

section \<open>The packet of an instruction\<close>

text \<open>What the decode stage makes of an instruction, before it has operands.\<close>

definition fetched :: "u32 \<Rightarrow> u32 \<Rightarrow> exc_t \<Rightarrow> if_id_t" where
  "fetched pc insn x = \<lparr>f_valid = True, f_pc = pc, f_insn = insn, f_exc = x\<rparr>"

definition bare_packet :: "if_id_t \<Rightarrow> id_ex_t" where
  "bare_packet p = id_stage (\<lambda>_. 0) False 0 0 p"

lemma bare_operands [simp]: "d_rs1_value (bare_packet p) = 0" "d_rs2_value (bare_packet p) = 0"
  by (simp_all add: bare_packet_def id_stage_def id_ex_0_def Let_def id_operand_def regfile_read_def)

definition ctrl_of_instr :: "instr \<Rightarrow> decode_ctrl_t" where
  "ctrl_of_instr i = (if i = ECALL \<or> i = EBREAK then no_ctrl else snd (controls i))"

definition exc_of_instr :: "u32 \<Rightarrow> instr \<Rightarrow> exc_t" where
  "exc_of_instr pc i = (if i = ECALL then exception EXC_ECALL_M 0 else if i = EBREAK then exception EXC_BREAKPOINT pc else no_exc)"

lemma packet_of_instr:
  fixes pc i defines "d \<equiv> bare_packet (fetched pc (encode i) no_exc)"
  shows "d_valid d" "d_pc d = pc" "d_insn d = encode i" "d_rs1 d = field 15 (encode i)" "d_rs2 d = field 20 (encode i)"
    "d_rd d = field 7 (encode i)" "d_imm d = imm_gen (encode i) (fst (controls i))" "d_ctrl d = ctrl_of_instr i"
    "d_exc d = exc_of_instr pc i"
proof -
  obtain w where w: "w = encode i" by simp
  have env: "w = INSN_ECALL \<longleftrightarrow> i = ECALL" "w = INSN_EBREAK \<longleftrightarrow> i = EBREAK" unfolding w by (rule encode_environment)+
  have dec: "decoder w = \<lparr>dec_rs1 = field 15 w, dec_rs2 = field 20 w, dec_rd = field 7 w, dec_imm_sel = fst (controls i),
      dec_ctrl = snd (controls i), dec_illegal = False\<rparr>"
    unfolding w by (simp add: decoder_def decode_encode split_def)
  show "d_valid d" "d_pc d = pc" "d_insn d = encode i" "d_rs1 d = field 15 (encode i)" "d_rs2 d = field 20 (encode i)"
    "d_rd d = field 7 (encode i)" "d_imm d = imm_gen (encode i) (fst (controls i))" "d_ctrl d = ctrl_of_instr i"
    "d_exc d = exc_of_instr pc i"
    unfolding d_def w [symmetric]
    by (simp_all add: bare_packet_def fetched_def id_stage_def id_exception_def dec env Let_def ctrl_of_instr_def exc_of_instr_def)
qed

section \<open>Memory stage and commit without time\<close>

text \<open>
  The bus request of a packet in the memory stage and, given the response, the packet that reaches the write-back
  stage. The write data of a read is not looked at.
\<close>

definition is_memory :: "ex_mem_t \<Rightarrow> bool" where
  "is_memory e \<longleftrightarrow> \<not> exc_valid (e_exc e) \<and> (e_mem_cmd e = MEM_LOAD \<or> e_mem_cmd e = MEM_STORE)"

definition e_misaligned :: "ex_mem_t \<Rightarrow> bool" where
  "e_misaligned e \<longleftrightarrow> address_misaligned (e_mem_size e) (field 0 (e_ex_result e))"

definition seen :: "request \<Rightarrow> request" where
  "seen q = (if req_write q then q else q\<lparr>req_wdata := 0\<rparr>)"

definition mem_request :: "ex_mem_t \<Rightarrow> request option" where
  "mem_request e =
     (if is_memory e \<and> \<not> e_misaligned e
      then Some (seen \<lparr>req_write = (e_mem_cmd e = MEM_STORE), req_addr = word_of_addr (e_ex_result e),
             req_wdata = store_wdata (e_mem_size e) (e_ex_result e) (e_store_data e),
             req_wstrb = (if e_mem_cmd e = MEM_STORE then store_wstrb (e_mem_size e) (e_ex_result e) else 0)\<rparr>)
      else None)"

definition mem_data :: "ex_mem_t \<Rightarrow> response \<Rightarrow> u32" where
  "mem_data e r = (if e_mem_cmd e = MEM_LOAD \<and> \<not> rsp_err r
     then extract_load_data (rsp_rdata r) (field 0 (e_ex_result e)) (e_mem_size e) (e_load_unsigned e) else 0)"

definition squash :: "mem_wb_t \<Rightarrow> mem_wb_t" where
  "squash w = (if w_valid w \<and> exc_valid (w_exc w)
     then w\<lparr>w_reg_write := False, w_csr_write := False, w_is_mret := False, w_mem_write := False\<rparr> else w)"

definition mem_result :: "ex_mem_t \<Rightarrow> response \<Rightarrow> mem_wb_t" where
  "mem_result e r =
     squash (if \<not> is_memory e then mem_packet_plain e
             else if e_misaligned e
             then mem_packet_memory e 0 (make_misaligned_exception (e_mem_cmd e) (e_ex_result e)) (0, 0)
             else mem_packet_memory e (mem_data e r) (make_access_exception (e_mem_cmd e) (e_ex_result e) (rsp_err r))
                    (if e_mem_cmd e = MEM_STORE
                     then (store_wstrb (e_mem_size e) (e_ex_result e), store_wdata (e_mem_size e) (e_ex_result e) (e_store_data e))
                     else (0, 0)))"

definition commit_in :: "mem_wb_t \<Rightarrow> csr_in" where
  "commit_in w =
     (let trap = w_valid w \<and> exc_valid (w_exc w); ret = w_valid w \<and> \<not> exc_valid (w_exc w)
      in \<lparr>commit_write = ret \<and> w_csr_write w, commit_waddr = w_csr_addr w, commit_wdata = w_csr_wdata w,
          retire_i = ret, mret_commit = ret \<and> w_is_mret w, trap_valid = trap, trap_pc = w_pc w,
          trap_is_interrupt = exc_irq (w_exc w), trap_cause = exc_cause (w_exc w), trap_tval = exc_tval (w_exc w)\<rparr>)"

lemma wb_csr_in_commit: "wb_csr_in s = commit_in (mem_wb_q s)"
  by (simp add: wb_csr_in_def commit_in_def wb_retire_def wb_trap_def Let_def)

definition writes_back :: "mem_wb_t \<Rightarrow> bool" where
  "writes_back w \<longleftrightarrow> w_valid w \<and> \<not> exc_valid (w_exc w) \<and> w_reg_write w \<and> w_rd w \<noteq> 0"

definition commit_regs :: "mem_wb_t \<Rightarrow> (reg_addr_t \<Rightarrow> u32) \<Rightarrow> (reg_addr_t \<Rightarrow> u32)" where
  "commit_regs w = regfile_clock (writes_back w) (w_rd w) (w_wb_data w)"

definition commit :: "mem_wb_t \<Rightarrow> arch \<Rightarrow> arch" where
  "commit w a =
     \<lparr>a_pc = (if exc_valid (w_exc w) then m_tvec (a_m a)
              else if w_control w \<and> w_control_taken w then w_control_target w else w_pc w + 4),
      a_reg = commit_regs w (a_reg a), a_m = committed (commit_in w) (a_m a)\<rparr>"

text \<open>The operands and answers an instruction must get in the execute stage.\<close>

definition fed :: "(csr_addr_t \<Rightarrow> u32) \<Rightarrow> instr \<Rightarrow> arch \<Rightarrow> u32 \<Rightarrow> u32 \<Rightarrow> u32 \<Rightarrow> u32 \<Rightarrow> bool \<Rightarrow> u32 \<Rightarrow> bool" where
  "fed env i a rs1 rs2 mdu rdata illegal mepc \<longleftrightarrow>
     (source1 i \<noteq> None \<longrightarrow> rs1 = operand (source1 i) a) \<and> (source2 i \<noteq> None \<longrightarrow> rs2 = operand (source2 i) a) \<and>
     (case i of
        MULDIV f _ _ _ \<Rightarrow> mdu = mop_value f rs1 rs2
      | CSR f _ x c \<Rightarrow>
          (case read_csr env (a_m a) c of
             None \<Rightarrow> illegal
           | Some old \<Rightarrow> rdata = old \<and> illegal = (csr_writes f x \<and> read_only_csr c))
      | MRET \<Rightarrow> mepc = m_epc (a_m a) \<and> unat mepc mod 4 = 0
      | _ \<Rightarrow> True)"

definition packet_executed :: "instr \<Rightarrow> u32 \<Rightarrow> u32 \<Rightarrow> u32 \<Rightarrow> u32 \<Rightarrow> u32 \<Rightarrow> bool \<Rightarrow> u32 \<Rightarrow> ex_mem_t" where
  "packet_executed i pc rs1 rs2 mdu rdata illegal mepc =
     ex_packet (bare_packet (fetched pc (encode i) no_exc)) rs1 rs2 mdu rdata illegal mepc"

lemma ctrl_default_sel [simp]:
  "\<not> uses_rs1 ctrl_default" "\<not> uses_rs2 ctrl_default" "\<not> reg_write ctrl_default" "alu_op ctrl_default = ALU_NONE"
  "op_a_sel ctrl_default = OP_A_ZERO" "op_b_sel ctrl_default = OP_B_IMM" "wb_sel ctrl_default = WB_EX_RESULT"
  "branch_kind ctrl_default = BR_NONE" "mem_cmd ctrl_default = MEM_NONE" "mem_size ctrl_default = MEM_WORD"
  "\<not> load_unsigned ctrl_default" "mdu_op ctrl_default = MDU_NONE" "csr_cmd ctrl_default = CSR_NONE"
  "\<not> is_mret ctrl_default" "\<not> is_fence ctrl_default"
  by (simp_all add: ctrl_default_def)

lemma ex_packet_sel [simp]:
  fixes d rs1 rs2 mdu rdata illegal mepc
  defines "e \<equiv> ex_packet d rs1 rs2 mdu rdata illegal mepc" and "ct \<equiv> control_transfer d rs1 rs2 mepc"
  shows "e_valid e" "e_pc e = d_pc d" "e_insn e = d_insn d" "e_rd e = d_rd d"
    "e_wb_sel e = wb_sel (d_ctrl d)" "e_ex_result e = (if is_mdu d then mdu else alu_result d rs1 rs2)" "e_store_data e = rs2"
    "e_mem_size e = mem_size (d_ctrl d)" "e_load_unsigned e = load_unsigned (d_ctrl d)"
    "e_csr_addr e = (if is_csr d then csr_addr_of (d_insn d) else 0)"
    "e_csr_wdata e = (if is_csr d then csr_wdata d rdata rs1 else 0)" "e_csr_old e = (if is_csr d then rdata else 0)"
    "e_control e = is_control d" "e_control_taken e = fst ct" "e_control_target e = fst (snd ct)" "e_exc e = ex_exc d illegal ct"
    "e_reg_write e \<longleftrightarrow> reg_write (d_ctrl d) \<and> \<not> exc_valid (ex_exc d illegal ct)"
    "e_mem_cmd e = (if exc_valid (ex_exc d illegal ct) then MEM_NONE else mem_cmd (d_ctrl d))"
    "e_csr_write e \<longleftrightarrow> is_csr d \<and> csr_write_enable d \<and> \<not> exc_valid (ex_exc d illegal ct)"
    "e_is_mret e \<longleftrightarrow> is_mret (d_ctrl d) \<and> \<not> exc_valid (ex_exc d illegal ct)"
  by (simp_all add: ex_packet_def e_def ct_def Let_def)

text \<open>The packet the execute stage makes for an effect; \<open>rdata\<close> and \<open>illegal\<close> answer a CSR access.\<close>

definition next_pc :: "ex_mem_t \<Rightarrow> u32" where
  "next_pc e = (if e_control e \<and> e_control_taken e then e_control_target e else e_pc e + 4)"

definition harmless :: "ex_mem_t \<Rightarrow> bool" where
  "harmless e \<longleftrightarrow> e_valid e \<and> \<not> exc_valid (e_exc e) \<and> \<not> e_is_mret e"

fun shows_effect :: "u32 \<Rightarrow> bool \<Rightarrow> u32 \<Rightarrow> u32 \<Rightarrow> ex_mem_t \<Rightarrow> effect \<Rightarrow> bool" where
  "shows_effect rdata illegal mepc insn e (Trap c v) \<longleftrightarrow> e_valid e \<and> e_exc e = exception c v"
| "shows_effect rdata illegal mepc insn e (Next None pc) \<longleftrightarrow>
     harmless e \<and> e_mem_cmd e = MEM_NONE \<and> \<not> e_csr_write e \<and> \<not> e_reg_write e \<and> next_pc e = pc"
| "shows_effect rdata illegal mepc insn e (Next (Some (rd, v)) pc) \<longleftrightarrow>
     harmless e \<and> e_mem_cmd e = MEM_NONE \<and> \<not> e_csr_write e \<and> e_reg_write e \<and> e_rd e = rd \<and> e_wb_sel e \<noteq> WB_LOAD \<and>
     ex_mem_fwd_value e = v \<and> next_pc e = pc"
| "shows_effect rdata illegal mepc insn e (LoadFrom w rd a) \<longleftrightarrow>
     harmless e \<and> e_mem_cmd e = MEM_LOAD \<and> \<not> e_csr_write e \<and> e_reg_write e \<and> e_rd e = rd \<and> e_ex_result e = a \<and>
     (e_mem_size e, e_load_unsigned e) = lwidth_size w \<and> e_wb_sel e = WB_LOAD \<and> \<not> e_control e"
| "shows_effect rdata illegal mepc insn e (StoreTo w a v) \<longleftrightarrow>
     harmless e \<and> e_mem_cmd e = MEM_STORE \<and> \<not> e_csr_write e \<and> \<not> e_reg_write e \<and> e_ex_result e = a \<and>
     e_mem_size e = swidth_size w \<and> e_store_data e = v \<and> \<not> e_control e"
| "shows_effect rdata illegal mepc insn e (CsrAccess f rd c x v) \<longleftrightarrow>
     (if illegal then e_valid e \<and> e_exc e = exception EXC_ILLEGAL_INSN insn
      else harmless e \<and> e_mem_cmd e = MEM_NONE \<and> e_reg_write e \<and> e_rd e = rd \<and> e_wb_sel e = WB_CSR \<and> e_csr_old e = rdata \<and>
        (e_csr_write e \<longleftrightarrow> csr_writes f x) \<and> e_csr_addr e = c \<and> e_csr_wdata e = csr_new f rdata v \<and> \<not> e_control e)"
| "shows_effect rdata illegal mepc insn e TrapReturn \<longleftrightarrow>
     e_valid e \<and> \<not> exc_valid (e_exc e) \<and> e_mem_cmd e = MEM_NONE \<and> e_is_mret e \<and> e_control e \<and> e_control_taken e \<and>
     \<not> e_csr_write e \<and> \<not> e_reg_write e \<and> next_pc e = mepc"

lemmas ex_defs = ex_exc_def control_transfer_def branch_unit_def is_csr_def is_control_def is_mdu_def is_mul_def is_div_def
  alu_result_def ctrl_of_instr_def exc_of_instr_def

lemmas immediates = imm_gen_I imm_gen_S imm_gen_U imm_gen_B imm_gen_J

lemma exception_of_none: "no_exc\<lparr>exc_valid := True, exc_cause := c, exc_tval := v\<rparr> = exception c v"
  by (simp add: no_exc_def exception_def)

lemma shift_operand:
  "rop_value (shop_rop g) a (imm_gen (insn_word f7 n r1 f3 rd opc) IMM_I) = rop_value (shop_rop g) a (ucast n)"
proof -
  have "(field 0 (imm_gen (insn_word f7 n r1 f3 rd opc) IMM_I) :: 5 word) = n"
    by (rule bit_word_eqI) (auto simp: imm_gen_def insn_word_def bit_simps bit_beyond)
  moreover have "(field 0 (ucast n :: u32) :: 5 word) = n" by (rule bit_word_eqI) (auto simp: bit_simps)
  ultimately have "amount (imm_gen (insn_word f7 n r1 f3 rd opc) IMM_I) = amount (ucast n)"
    unfolding shamt_amount [symmetric] shamt_def by simp
  then show ?thesis by (cases g) simp_all
qed

lemma executed_shows:
  assumes fed: "fed env i a rs1 rs2 mdu rdata illegal mepc" and e: "e = packet_executed i (a_pc a) rs1 rs2 mdu rdata illegal mepc"
  shows "shows_effect rdata illegal mepc (encode i) e (outcome i (a_pc a) (operand (source1 i) a) (operand (source2 i) a))"
proof -
  obtain d where d: "d = bare_packet (fetched (a_pc a) (encode i) no_exc)" by simp
  have e: "e = ex_packet d rs1 rs2 mdu rdata illegal mepc" unfolding e packet_executed_def d ..
  note f = packet_of_instr [of "a_pc a" i, folded d]
  note simps = harmless_def next_pc_def ex_defs exception_of_none ex_mem_fwd_value_def alu_def
  show ?thesis
  proof (cases i)
    case (LUI rd imm)
    show ?thesis using f unfolding LUI e by (simp add: simps encode_fields immediates)
  next
    case (AUIPC rd imm)
    show ?thesis using f unfolding AUIPC e by (simp add: simps encode_fields immediates)
  next
    case (JAL rd off)
    show ?thesis using f unfolding JAL e
      by (simp add: simps encode_fields immediates go_to_def low_bits_clear branch_taken_def branch_target_def)
  next
    case (JALR rd rs imm)
    have "rs1 = operand (Some rs) a" using fed unfolding JALR by (simp add: fed_def)
    then show ?thesis using f unfolding JALR e
      by (simp add: simps encode_fields immediates go_to_def low_bits_clear branch_taken_def branch_target_def clear_bit_0)
  next
    case (BRANCH c r1 r2 off)
    have "rs1 = operand (Some r1) a" "rs2 = operand (Some r2) a" using fed unfolding BRANCH by (simp_all add: fed_def)
    then show ?thesis using f unfolding BRANCH e
      by (simp add: simps encode_fields immediates go_to_def low_bits_clear branch_bcond bcond_branch_target)
  next
    case (LOAD w rd r1 imm)
    have "rs1 = operand (Some r1) a" using fed unfolding LOAD by (simp_all add: fed_def)
    then show ?thesis using f unfolding LOAD e
      by (simp add: simps encode_fields immediates alu_imm_ctrl_def)
  next
    case (STORE w r2 r1 imm)
    have "rs1 = operand (Some r1) a" "rs2 = operand (Some r2) a" using fed unfolding STORE by (simp_all add: fed_def)
    then show ?thesis using f unfolding STORE e
      by (simp add: simps encode_fields immediates)
  next
    case (OPIMM g rd r1 imm)
    have "rs1 = operand (Some r1) a" using fed unfolding OPIMM by (simp_all add: fed_def)
    then show ?thesis using f unfolding OPIMM e
      by (simp add: harmless_def next_pc_def ex_defs ex_mem_fwd_value_def alu_rop encode_fields immediates alu_imm_ctrl_def)
  next
    case (SHIFT g rd r1 n)
    have "rs1 = operand (Some r1) a" using fed unfolding SHIFT by (simp_all add: fed_def)
    then show ?thesis using f unfolding SHIFT e
      by (simp add: harmless_def next_pc_def ex_defs ex_mem_fwd_value_def alu_rop encode_fields shift_operand alu_imm_ctrl_def)
  next
    case (OP g rd r1 r2)
    have "rs1 = operand (Some r1) a" "rs2 = operand (Some r2) a" using fed unfolding OP by (simp_all add: fed_def)
    then show ?thesis using f unfolding OP e
      by (simp add: harmless_def next_pc_def ex_defs ex_mem_fwd_value_def alu_rop encode_fields immediates alu_reg_ctrl_def)
  next
    case (MULDIV g rd r1 r2)
    have "rs1 = operand (Some r1) a" "rs2 = operand (Some r2) a" "mdu = mop_value g rs1 rs2"
      using fed unfolding MULDIV by (simp_all add: fed_def)
    then show ?thesis using f unfolding MULDIV e
      by (cases g; simp add: harmless_def next_pc_def ex_defs ex_mem_fwd_value_def encode_fields alu_reg_ctrl_def)
  next
    case (CSR g rd x c)
    show ?thesis using f fed unfolding CSR e
      by (cases g; simp add: fed_def simps encode_fields csr_addr_of_i csr_wdata_def csr_write_enable_def csr_writes_def)
  next
    case MRET
    have "mepc = m_epc (a_m a)" "unat mepc mod 4 = 0" using fed unfolding MRET by (auto simp: fed_def)
    then show ?thesis using f unfolding MRET e
      by (simp add: simps low_bits_clear)
  qed (use f e in \<open>simp add: simps\<close>)+
qed

text \<open>A packet with the right effect executes the instruction.\<close>

lemma commit_in_sel [simp]:
  "commit_write (commit_in w) \<longleftrightarrow> w_valid w \<and> \<not> exc_valid (w_exc w) \<and> w_csr_write w" "commit_waddr (commit_in w) = w_csr_addr w"
  "commit_wdata (commit_in w) = w_csr_wdata w" "retire_i (commit_in w) \<longleftrightarrow> w_valid w \<and> \<not> exc_valid (w_exc w)"
  "mret_commit (commit_in w) \<longleftrightarrow> w_valid w \<and> \<not> exc_valid (w_exc w) \<and> w_is_mret w" "trap_valid (commit_in w) \<longleftrightarrow> w_valid w \<and> exc_valid (w_exc w)"
  "trap_pc (commit_in w) = w_pc w" "trap_is_interrupt (commit_in w) = exc_irq (w_exc w)" "trap_cause (commit_in w) = exc_cause (w_exc w)"
  "trap_tval (commit_in w) = exc_tval (w_exc w)"
  by (simp_all add: commit_in_def Let_def)

lemma mem_wb_0_sel [simp]: "\<not> w_csr_write mem_wb_0" "\<not> w_is_mret mem_wb_0" "\<not> w_valid mem_wb_0" "\<not> w_reg_write mem_wb_0"
  "\<not> w_mem_write mem_wb_0" "w_exc mem_wb_0 = no_exc"
  by (simp_all add: mem_wb_0_def)

lemma commit_trap:
  assumes "w_valid w" "exc_valid (w_exc w)" "w_pc w = a_pc a"
  shows "commit w a = trap (exc_irq (w_exc w)) (exc_cause (w_exc w)) (exc_tval (w_exc w)) a"
  using assms by (simp add: commit_def trap_def committed_def commit_regs_def writes_back_def regfile_clock_def)

lemma commit_plain:
  assumes "w_valid w" "\<not> exc_valid (w_exc w)" "\<not> w_csr_write w" "\<not> w_is_mret w"
    and pc: "pc = (if w_control w \<and> w_control_taken w then w_control_target w else w_pc w + 4)"
  shows "commit w a = (if w_reg_write w then set_reg (w_rd w) (w_wb_data w) (advance pc a) else advance pc a)"
  using assms by (simp add: commit_def advance_def committed_def commit_regs_def writes_back_def regfile_clock_def set_reg_def)

lemma mem_plain_sel [simp]:
  fixes e defines "w \<equiv> mem_packet_plain e"
  shows "w_valid w" "w_pc w = e_pc e" "w_rd w = e_rd e" "w_reg_write w = e_reg_write e" "w_csr_write w = e_csr_write e"
    "w_csr_addr w = e_csr_addr e" "w_csr_wdata w = e_csr_wdata e" "w_is_mret w = e_is_mret e" "w_control w = e_control e"
    "w_control_taken w = e_control_taken e" "w_control_target w = e_control_target e" "w_exc w = e_exc e" "w_wb_data w = ex_mem_fwd_value e"
  by (simp_all add: w_def mem_packet_plain_def ex_mem_fwd_value_def)

lemma mem_memory_sel [simp]:
  fixes e v x tr defines "w \<equiv> mem_packet_memory e v x tr"
  shows "w_valid w" "w_pc w = e_pc e" "w_rd w = e_rd e" "w_reg_write w \<longleftrightarrow> e_reg_write e \<and> \<not> exc_valid x" "\<not> w_csr_write w"
    "\<not> w_is_mret w" "w_control w = e_control e" "w_control_taken w = e_control_taken e" "w_control_target w = e_control_target e"
    "w_exc w = x" "w_wb_data w = (if e_mem_cmd e = MEM_LOAD then v else 0)"
  by (simp_all add: w_def mem_packet_memory_def Let_def)

lemma squash_sel [simp]:
  "w_valid (squash w) = w_valid w" "w_exc (squash w) = w_exc w" "w_pc (squash w) = w_pc w" "w_control (squash w) = w_control w"
  "w_control_taken (squash w) = w_control_taken w" "w_control_target (squash w) = w_control_target w"
  "w_rd (squash w) = w_rd w" "w_wb_data (squash w) = w_wb_data w" "w_csr_addr (squash w) = w_csr_addr w" "w_csr_wdata (squash w) = w_csr_wdata w"
  "w_valid w \<Longrightarrow> w_reg_write (squash w) \<longleftrightarrow> w_reg_write w \<and> \<not> exc_valid (w_exc w)"
  "w_valid w \<Longrightarrow> w_csr_write (squash w) \<longleftrightarrow> w_csr_write w \<and> \<not> exc_valid (w_exc w)"
  "w_valid w \<Longrightarrow> w_is_mret (squash w) \<longleftrightarrow> w_is_mret w \<and> \<not> exc_valid (w_exc w)"
  by (simp_all add: squash_def)

lemma access_exception_sel [simp]: "exc_valid (make_access_exception cmd addr err) = err"
  by (simp add: make_access_exception_def)

lemma misaligned_exception_sel [simp]: "exc_valid (make_misaligned_exception cmd addr)"
  by (simp add: make_misaligned_exception_def)

lemma effect_executes:
  assumes sh: "shows_effect rdata illegal mepc (encode i) e (outcome i (a_pc a) (operand (source1 i) a) (operand (source2 i) a))"
    and pc: "e_pc e = a_pc a" and fed: "fed env i a rs1 rs2 mdu rdata illegal mepc"
  shows "exec env i r a = (mem_request e, commit (mem_result e r) a)"
proof (cases "outcome i (a_pc a) (operand (source1 i) a) (operand (source2 i) a)")
  case (Trap c v)
  show ?thesis using sh pc unfolding exec_def Trap
    by (simp add: mem_request_def mem_result_def is_memory_def commit_trap)
next
  case (Next x pc)
  then show ?thesis using sh assms(2) unfolding exec_def Next
    by (cases x) (auto simp add: mem_request_def mem_result_def is_memory_def commit_plain harmless_def next_pc_def)
next
  case (LoadFrom w rd a')
  with sh have e: "e_valid e" "\<not> exc_valid (e_exc e)" "e_mem_cmd e = MEM_LOAD" "e_reg_write e" "e_rd e = rd" "e_ex_result e = a'"
    "e_mem_size e = fst (lwidth_size w)" "e_load_unsigned e = snd (lwidth_size w)" "\<not> e_control e"
    by (auto simp: harmless_def prod_eq_iff)
  have mis: "e_misaligned e \<longleftrightarrow> \<not> aligned_for (lwidth_bytes w) a'" using misaligned_iff(1) e by (simp add: e_misaligned_def)
  show ?thesis
  proof (cases "aligned_for (lwidth_bytes w) a'")
    case False
    then show ?thesis using e pc mis unfolding exec_def LoadFrom
      by (simp add: mem_request_def mem_result_def is_memory_def commit_trap make_misaligned_exception_def)
  next
    case True
    have "mem_data e r = loaded w a' (rsp_rdata r)" if "\<not> rsp_err r"
      using that e load_of [OF True] by (simp add: mem_data_def load_of_def)
    then show ?thesis using e pc mis True unfolding exec_def LoadFrom
      by (simp add: mem_request_def mem_result_def is_memory_def commit_trap commit_plain make_access_exception_def
          load_request_def seen_def word_of_addr)
  qed
next
  case (StoreTo w a' v)
  with sh have e: "e_valid e" "\<not> exc_valid (e_exc e)" "e_mem_cmd e = MEM_STORE" "\<not> e_reg_write e" "e_ex_result e = a'"
    "e_mem_size e = swidth_size w" "e_store_data e = v" "\<not> e_control e"
    by (auto simp: harmless_def)
  have mis: "e_misaligned e \<longleftrightarrow> \<not> aligned_for (swidth_bytes w) a'" using misaligned_iff(2) e by (simp add: e_misaligned_def)
  show ?thesis
  proof (cases "aligned_for (swidth_bytes w) a'")
    case False
    then show ?thesis using e pc mis unfolding exec_def StoreTo
      by (simp add: mem_request_def mem_result_def is_memory_def commit_trap make_misaligned_exception_def)
  next
    case True
    have "mem_request e = Some (store_request w a' v)"
      using e mis True store_lanes [OF True, of v]
      by (simp add: mem_request_def is_memory_def seen_def word_of_addr) (simp add: store_request_def)
    then show ?thesis using e pc mis True unfolding exec_def StoreTo
      by (simp add: mem_result_def is_memory_def commit_trap commit_plain make_access_exception_def)
  qed
next
  case (CsrAccess f rd c x v)
  have i: "i = CSR f rd x c" using CsrAccess by (cases i) (auto simp: go_to_def split: if_splits)
  show ?thesis
  proof (cases illegal)
    case True
    then have "exec env i r a = (None, trap False EXC_ILLEGAL_INSN (encode i) a)"
      using fed unfolding exec_def CsrAccess by (auto simp: fed_def exec_csr_def i split: option.splits)
    then show ?thesis using True sh pc unfolding CsrAccess by (simp add: mem_request_def mem_result_def is_memory_def commit_trap)
  next
    case False
    then have env: "read_csr env (a_m a) c = Some rdata" "\<not> (csr_writes f x \<and> read_only_csr c)"
      using fed by (auto simp: fed_def i split: option.splits)
    from False sh have e: "e_valid e" "\<not> exc_valid (e_exc e)" "\<not> e_is_mret e" "e_mem_cmd e = MEM_NONE" "e_reg_write e" "e_rd e = rd"
      "e_wb_sel e = WB_CSR" "e_csr_old e = rdata" "e_csr_write e \<longleftrightarrow> csr_writes f x" "e_csr_addr e = c"
      "e_csr_wdata e = csr_new f rdata v" "\<not> e_control e" unfolding CsrAccess by (auto simp: harmless_def)
    show ?thesis using e env pc unfolding exec_def CsrAccess
      by (cases a) (auto simp add: exec_csr_def mem_request_def mem_result_def is_memory_def commit_def set_reg_def committed_def
          commit_regs_def regfile_clock_def writes_back_def ex_mem_fwd_value_def Let_def)
  qed
next
  case TrapReturn
  with sh have e: "e_valid e" "\<not> exc_valid (e_exc e)" "e_mem_cmd e = MEM_NONE" "e_is_mret e" "\<not> e_csr_write e" "\<not> e_reg_write e" "next_pc e = mepc"
    by auto
  have "i = MRET" using TrapReturn by (cases i) (auto simp: go_to_def split: if_splits)
  then have "mepc = m_epc (a_m a)" using fed by (simp add: fed_def)
  then show ?thesis using e pc unfolding exec_def TrapReturn
    by (cases a) (auto simp add: mem_request_def mem_result_def is_memory_def commit_def advance_def next_pc_def committed_def
        commit_regs_def regfile_clock_def writes_back_def split: if_splits)
qed

end
