(* ===== verification/Core_Units.thy ===== *)
theory Core_Units
  imports Core_Fetch_Proofs Core_Datapath
begin

text \<open>
  The units of the pipeline that take several clocks, one clock at a time: what the multiplier, the divider and
  the load/store unit hold while they work for the packet in front of them.
\<close>

section \<open>Multiplier and divider\<close>

definition mul_ops :: "mop set" where "mul_ops = {Mul, Mulh, Mulhsu, Mulhu}"
definition div_ops :: "mop set" where "div_ops = {Div, Divu, Rem, Remu}"

text \<open>The unit works on \<open>f a b\<close>, or has its result.\<close>

definition mul_at :: "mop \<Rightarrow> u32 \<Rightarrow> u32 \<Rightarrow> mul_unit \<Rightarrow> bool" where
  "mul_at f a b m \<longleftrightarrow>
     mul_state m = MUL_EXEC \<and> mul_lhs m = mul_lhs_ext (mop_mdu f) a \<and> mul_rhs m = mul_rhs_ext (mop_mdu f) b \<and> mul_op m = mop_mdu f \<or>
     mul_state m = MUL_RESP \<and> mul_result m = mop_value f a b"

definition div_at :: "mop \<Rightarrow> u32 \<Rightarrow> u32 \<Rightarrow> div_unit \<Rightarrow> bool" where
  "div_at f a b d \<longleftrightarrow> b \<noteq> 0 \<and> (\<exists>k. div_running f a b k d) \<or> div_state d = DIV_RESP \<and> div_result d = mop_value f a b"

lemma mul_at_start:
  assumes "undisturbed i" "mul_state m = MUL_IDLE" "request_of i (mop_mdu f) a b"
  shows "mul_at f a b (mul_clock i m)"
  using assms by (simp add: mul_at_def mul_clock_def mul_req_ready_def undisturbed_def request_of_def)

lemma mul_at_keep:
  assumes f: "f \<in> mul_ops" and m: "mul_at f a b m" and i: "undisturbed i" "mul_state m = MUL_RESP \<longrightarrow> \<not> in_rsp_ready i"
  shows "mul_at f a b (mul_clock i m)"
proof (cases "mul_state m = MUL_RESP")
  case True
  then show ?thesis using m i by (simp add: mul_at_def mul_clock_def undisturbed_def)
next
  case False
  then have x: "mul_state m = MUL_EXEC" "mul_lhs m = mul_lhs_ext (mop_mdu f) a" "mul_rhs m = mul_rhs_ext (mop_mdu f) b" "mul_op m = mop_mdu f"
    using m by (auto simp: mul_at_def)
  have "mul_clock i m = m\<lparr>mul_result := (if mul_op m = MDU_MUL then lo32 (product m) else hi32 (product m)), mul_state := MUL_RESP\<rparr>"
    using i(1) x(1) by (simp add: mul_clock_def undisturbed_def)
  then show ?thesis using mul_value [OF f [unfolded mul_ops_def] x(4) x(2,3) [folded x(4)]] by (simp add: mul_at_def)
qed

lemma mul_at_idle:
  "in_kill i \<Longrightarrow> mul_state (mul_clock i m) = MUL_IDLE"
  "undisturbed i \<Longrightarrow> mul_state m = MUL_RESP \<Longrightarrow> in_rsp_ready i \<Longrightarrow> mul_state (mul_clock i m) = MUL_IDLE"
  "mul_state m = MUL_IDLE \<Longrightarrow> \<not> in_req_valid i \<Longrightarrow> mul_state (mul_clock i m) = MUL_IDLE"
  by (simp_all add: mul_clock_def undisturbed_def mul_reset_def)

lemma mul_at_result: "mul_at f a b m \<Longrightarrow> mul_state m = MUL_RESP \<Longrightarrow> mul_result m = mop_value f a b"
  by (auto simp: mul_at_def)

lemma div_at_start:
  assumes "f \<in> div_ops" "undisturbed i" "div_state d = DIV_IDLE" "request_of i (mop_mdu f) a b"
  shows "div_at f a b (div_clock i d)"
proof -
  have "div_clock i d = div_accept (mop_mdu f) a b d"
    using assms by (simp add: div_clock_def div_req_ready_def undisturbed_def request_of_def)
  moreover have "b \<noteq> 0" if "div_running f a b 31 (div_accept (mop_mdu f) a b d)"
    using that by (auto simp: div_running_def div_accept_def)
  ultimately show ?thesis using div_accept_cases [OF assms(1) [unfolded div_ops_def], of a b d] by (auto simp: div_at_def)
qed

lemma div_at_keep:
  assumes f: "f \<in> div_ops" and d: "div_at f a b d" and i: "undisturbed i" "div_state d = DIV_RESP \<longrightarrow> \<not> in_rsp_ready i"
  shows "div_at f a b (div_clock i d)"
proof (cases "div_state d = DIV_RESP")
  case True
  then show ?thesis using d i by (simp add: div_at_def div_clock_def undisturbed_def div_running_def)
next
  case False
  then obtain k where k: "b \<noteq> 0" "div_running f a b k d" using d by (auto simp: div_at_def)
  show ?thesis using div_run_step [OF f [unfolded div_ops_def] k i(1)] k(1)
    by (cases k) (auto simp: div_at_def)
qed

lemma div_at_idle:
  "in_kill i \<Longrightarrow> div_state (div_clock i d) = DIV_IDLE"
  "undisturbed i \<Longrightarrow> div_state d = DIV_RESP \<Longrightarrow> in_rsp_ready i \<Longrightarrow> div_state (div_clock i d) = DIV_IDLE"
  "div_state d = DIV_IDLE \<Longrightarrow> \<not> in_req_valid i \<Longrightarrow> div_state (div_clock i d) = DIV_IDLE"
  by (simp_all add: div_clock_def undisturbed_def div_reset_def)

lemma div_at_result: "div_at f a b d \<Longrightarrow> div_state d = DIV_RESP \<Longrightarrow> div_result d = mop_value f a b"
  by (auto simp: div_at_def div_running_def)

lemma at_not_idle: "mul_at f a b m \<Longrightarrow> mul_state m \<noteq> MUL_IDLE" "div_at f a b d \<Longrightarrow> div_state d \<noteq> DIV_IDLE"
  by (auto simp: mul_at_def div_at_def div_running_def)

text \<open>
  What the execute stage asks of a blocking unit: \<open>at f a b\<close> holds from the clock that takes the request for \<open>f a b\<close> to the one that hands the
  result over.
\<close>

locale blocking_unit =
  fixes clock :: "mdu_in \<Rightarrow> 'u \<Rightarrow> 'u"
    and idle :: "'u \<Rightarrow> bool"
    and resp :: "'u \<Rightarrow> bool"
    and at :: "mop \<Rightarrow> u32 \<Rightarrow> u32 \<Rightarrow> 'u \<Rightarrow> bool"
    and ops :: "mop set"
  assumes start: "f \<in> ops \<Longrightarrow> undisturbed i \<Longrightarrow> idle u \<Longrightarrow> request_of i (mop_mdu f) a b \<Longrightarrow> at f a b (clock i u)"
    and keep: "f \<in> ops \<Longrightarrow> at f a b u \<Longrightarrow> undisturbed i \<Longrightarrow> resp u \<longrightarrow> \<not> in_rsp_ready i \<Longrightarrow> at f a b (clock i u)"
    and kill: "in_kill i \<Longrightarrow> idle (clock i u)"
    and leave: "undisturbed i \<Longrightarrow> resp u \<Longrightarrow> in_rsp_ready i \<Longrightarrow> idle (clock i u)"
    and rest: "idle u \<Longrightarrow> \<not> in_req_valid i \<Longrightarrow> idle (clock i u)"
    and resp_busy: "resp u \<Longrightarrow> \<not> idle u"
begin

text \<open>After a clock the unit is idle or at work for the operation \<open>f\<close>, and then it has not handed a result over.\<close>

lemma after_clock:
  assumes "undisturbed i \<or> in_kill i" "\<not> idle u \<Longrightarrow> at f a b u" "in_req_valid i \<Longrightarrow> idle u \<Longrightarrow> request_of i (mop_mdu f) a b"
    and "\<not> idle u \<or> in_req_valid i \<Longrightarrow> f \<in> ops"
  shows "idle (clock i u) \<or> at f a b (clock i u) \<and> \<not> in_kill i \<and> (in_req_valid i \<or> \<not> idle u) \<and> \<not> (resp u \<and> in_rsp_ready i)"
proof (cases "in_kill i")
  case True
  then show ?thesis using kill by blast
next
  case False
  then have und: "undisturbed i" using assms(1) by blast
  show ?thesis
  proof (cases "idle u")
    case True
    then show ?thesis using False start [OF assms(4) und True assms(3)] rest resp_busy by blast
  next
    case busy: False
    then show ?thesis using False keep [OF assms(4) assms(2) und] leave [OF und] by blast
  qed
qed

end

interpretation mulu: blocking_unit mul_clock "\<lambda>m. mul_state m = MUL_IDLE" "\<lambda>m. mul_state m = MUL_RESP" mul_at mul_ops
  by unfold_locales (auto intro: mul_at_start mul_at_keep mul_at_idle)

interpretation divi: blocking_unit div_clock "\<lambda>d. div_state d = DIV_IDLE" "\<lambda>d. div_state d = DIV_RESP" div_at div_ops
  by unfold_locales (auto intro: div_at_start div_at_keep div_at_idle)

section \<open>Load/store unit\<close>

text \<open>The request the inputs ask for, as the monitor of the bus sees it.\<close>

definition asked :: "lsu_in \<Rightarrow> request" where
  "asked i = seen \<lparr>req_write = (cmd_i i = MEM_STORE), req_addr = word_of_addr (addr_i i),
     req_wdata = store_wdata (size_i i) (addr_i i) (store_data_i i),
     req_wstrb = (if cmd_i i = MEM_STORE then store_wstrb (size_i i) (addr_i i) else 0)\<rparr>"

definition lsu_ok :: "request option \<Rightarrow> lsu_in \<Rightarrow> lsu \<Rightarrow> bool" where
  "lsu_ok out i s \<longleftrightarrow>
     (case lsu_state s of
        LSU_IDLE \<Rightarrow> out = None
      | LSU_BUSY \<Rightarrow> req_valid_i i \<and> input_is_memory i \<and> \<not> input_misaligned i \<and> cmd_q s = cmd_i i \<and> size_q s = size_i i \<and>
          load_unsigned_q s = load_unsigned_i i \<and> addr_q s = addr_i i \<and>
          store_wstrb_q s = (if cmd_i i = MEM_STORE then store_wstrb (size_i i) (addr_i i) else 0) \<and>
          store_wdata_q s = (if cmd_i i = MEM_STORE then store_wdata (size_i i) (addr_i i) (store_data_i i) else 0) \<and>
          \<not> discard_q s \<and> out = (if request_sent_q s then Some (asked i) else None)
      | LSU_RESP \<Rightarrow> req_valid_i i \<and> input_is_memory i \<and> input_misaligned i \<and> load_data_q s = 0 \<and> store_wstrb_q s = 0 \<and> store_wdata_q s = 0 \<and>
          exception_q s = make_misaligned_exception (cmd_i i) (addr_i i) \<and> out = None)"

definition lsu_driven :: "lsu_in \<Rightarrow> lsu \<Rightarrow> request option" where
  "lsu_driven i s = map_option seen (lsu_request False i s)"

text \<open>The result of an access: data, exception and what is traced of a store.\<close>

definition lsu_result :: "lsu_in \<Rightarrow> response \<Rightarrow> (u32 \<times> exc_t) \<times> 4 word \<times> u32" where
  "lsu_result i r =
     (if input_misaligned i then ((0, make_misaligned_exception (cmd_i i) (addr_i i)), (0, 0))
      else ((if cmd_i i = MEM_LOAD \<and> \<not> rsp_err r
             then extract_load_data (rsp_rdata r) (field 0 (addr_i i)) (size_i i) (load_unsigned_i i) else 0,
             make_access_exception (cmd_i i) (addr_i i) (rsp_err r)),
            (if cmd_i i = MEM_STORE then (store_wstrb (size_i i) (addr_i i), store_wdata (size_i i) (addr_i i) (store_data_i i))
             else (0, 0))))"

lemmas lsu_defs = lsu_ok_def lsu_driven_def lsu_request_def issue_input_def issue_saved_def lsu_req_ready_def response_seen_def
  response_discard_def lsu_rsp_def lsu_clock_def lsu_idle_clock_def lsu_busy_clock_def lsu_take_def request_fire_def
  response_load_data_def response_exception_def Let_def

lemma lsu_waits:
  assumes "lsu_ok out i s" "\<not> kill_i i" "req_valid_i i" "input_is_memory i" "lsu_rsp False i m s = None"
  shows "completed out (lsu_driven i s) m = None \<and> lsu_ok (waiting_next out (lsu_driven i s) m) i (lsu_clock False i m s)"
  using assms by (cases "lsu_state s"; cases "mem_rsp m")
    (auto simp: lsu_defs monitor_defs asked_def seen_def split: if_splits)

lemma lsu_answers:
  assumes "lsu_ok out i s" "\<not> kill_i i" "req_valid_i i" "input_is_memory i" "lsu_rsp False i m s = Some x" "rsp_ready_i i"
  shows "lsu_state (lsu_clock False i m s) = LSU_IDLE \<and> waiting_next out (lsu_driven i s) m = None \<and>
    (\<exists>r. (x, lsu_trace False i s) = lsu_result i r \<and>
       completed out (lsu_driven i s) m = (if input_misaligned i then None else Some (asked i, r)))"
  using assms by (cases "lsu_state s"; cases "mem_rsp m")
    (auto simp: lsu_defs monitor_defs asked_def seen_def lsu_result_def lsu_trace_def split: if_splits)

lemma lsu_rests:
  assumes "lsu_ok out i s" "\<not> req_valid_i i"
  shows "lsu_rsp False i m s = None \<and> completed out (lsu_driven i s) m = None \<and> lsu_state (lsu_clock False i m s) = LSU_IDLE \<and>
    waiting_next out (lsu_driven i s) m = None"
  using assms by (cases "lsu_state s") (auto simp: lsu_defs monitor_defs split: option.splits)

end
