(* ===== verification/Core_Refine.thy ===== *)
theory Core_Refine
  imports Core_Units
begin

text \<open>
  The processor refines the instruction set. The invariant of the pipeline relates its registers to the architectural
  state \<open>a\<close> after the packet in the write-back register: each younger packet is at the address and has, or will
  get from the bypasses, the operands that the architecture prescribes.
\<close>

section \<open>Packets that are ready for the memory stage\<close>

definition exception_at :: "(u32 \<Rightarrow> u32 option) \<Rightarrow> arch \<Rightarrow> exc_t \<Rightarrow> bool" where
  "exception_at im a x \<longleftrightarrow>
     (case im (a_pc a) of
        None \<Rightarrow> x = exception EXC_INST_ACCESS_FAULT (a_pc a)
      | Some w \<Rightarrow> w \<notin> range encode \<and> x = exception EXC_ILLEGAL_INSN w) \<or>
     m_ie (a_m a) \<and> m_tie (a_m a) \<and> x = interrupt_exc"

definition instr_ready :: "(u32 \<Rightarrow> u32 option) \<Rightarrow> arch \<Rightarrow> ex_mem_t \<Rightarrow> bool" where
  "instr_ready im a e \<longleftrightarrow>
     (\<exists>i env rs1 rs2 mdu rdata illegal mepc. im (a_pc a) = Some (encode i) \<and> fed env i a rs1 rs2 mdu rdata illegal mepc \<and>
        shows_effect rdata illegal mepc (encode i) e (outcome i (a_pc a) (operand (source1 i) a) (operand (source2 i) a)))"

definition ready :: "(u32 \<Rightarrow> u32 option) \<Rightarrow> arch \<Rightarrow> ex_mem_t \<Rightarrow> bool" where
  "ready im a e \<longleftrightarrow> e_valid e \<and> e_pc e = a_pc a \<and> (exc_valid (e_exc e) \<and> exception_at im a (e_exc e) \<or> instr_ready im a e)"

definition label :: "ex_mem_t \<Rightarrow> response \<Rightarrow> (request \<times> response) option" where
  "label e r = map_option (\<lambda>q. (q, r)) (mem_request e)"

lemma exception_packet:
  assumes "exc_valid (e_exc e)" "e_pc e = a_pc a"
  shows "mem_request e = None"
    "commit (mem_result e r) a = trap (exc_irq (e_exc e)) (exc_cause (e_exc e)) (exc_tval (e_exc e)) a"
  using assms by (simp_all add: mem_request_def is_memory_def mem_result_def commit_trap)

lemma ready_step:
  assumes "ready im a e"
  shows "arch_step im a (label e r) (commit (mem_result e r) a)"
proof (cases "instr_ready im a e")
  case True
  then obtain i env rs1 rs2 mdu rdata illegal mepc where i: "im (a_pc a) = Some (encode i)" "fed env i a rs1 rs2 mdu rdata illegal mepc"
    "shows_effect rdata illegal mepc (encode i) e (outcome i (a_pc a) (operand (source1 i) a) (operand (source2 i) a))"
    by (auto simp: instr_ready_def)
  have "exec env i r a = (mem_request e, commit (mem_result e r) a)"
    using assms by (intro effect_executes [OF i(3) _ i(2)]) (simp add: ready_def)
  from step_exec [where im = im, OF i(1) this] show ?thesis by (simp add: label_def)
next
  case False
  then have x: "exc_valid (e_exc e)" "e_pc e = a_pc a" "exception_at im a (e_exc e)" using assms by (auto simp: ready_def)
  note p = exception_packet(1) [OF x(1,2)] exception_packet(2) [OF x(1,2), of r]
  show ?thesis
  proof (cases "im (a_pc a)")
    case None
    then show ?thesis using x(3) p step_fault [where im = im and s = a] step_interrupt [where im = im and s = a]
      by (auto simp: exception_at_def label_def interrupt_exc_def)
  next
    case (Some w)
    then show ?thesis using x(3) p step_illegal [where im = im and s = a and w = w] step_interrupt [where im = im and s = a]
      by (auto simp: exception_at_def label_def interrupt_exc_def)
  qed
qed

section \<open>Packets that are ready for the execute stage\<close>

text \<open>The packet of the instruction at an address, and the same packet without its operands.\<close>

definition packet_of :: "u32 \<times> u32 \<times> exc_t \<Rightarrow> if_id_t" where
  "packet_of p = fetched (fst p) (fst (snd p)) (snd (snd p))"

definition bare :: "id_ex_t \<Rightarrow> id_ex_t" where
  "bare d = d\<lparr>d_rs1_value := 0, d_rs2_value := 0\<rparr>"

definition interrupt_packet :: "u32 \<Rightarrow> id_ex_t" where
  "interrupt_packet pc = id_ex_0\<lparr>d_valid := True, d_pc := pc, d_exc := interrupt_exc\<rparr>"

lemma bare_sel [simp]:
  "d_valid (bare d) = d_valid d" "d_pc (bare d) = d_pc d" "d_insn (bare d) = d_insn d" "d_rs1 (bare d) = d_rs1 d"
  "d_rs2 (bare d) = d_rs2 d" "d_rd (bare d) = d_rd d" "d_imm (bare d) = d_imm d" "d_ctrl (bare d) = d_ctrl d" "d_exc (bare d) = d_exc d"
  by (simp_all add: bare_def)

lemma bare_units [simp]:
  "is_csr (bare d) = is_csr d" "is_control (bare d) = is_control d" "is_mul (bare d) = is_mul d" "is_div (bare d) = is_div d"
  "is_mdu (bare d) = is_mdu d" "csr_write_enable (bare d) = csr_write_enable d"
  unfolding is_csr_def is_control_def is_mul_def is_div_def is_mdu_def csr_write_enable_def bare_sel by (rule refl)+

lemma ex_packet_bare: "ex_packet (bare d) rs1 rs2 mdu rdata illegal mepc = ex_packet d rs1 rs2 mdu rdata illegal mepc"
proof -
  have "control_transfer (bare d) rs1 rs2 mepc = control_transfer d rs1 rs2 mepc" "alu_result (bare d) rs1 rs2 = alu_result d rs1 rs2"
    "csr_wdata (bare d) rdata rs1 = csr_wdata d rdata rs1" "\<And>ct. ex_exc (bare d) illegal ct = ex_exc d illegal ct"
    unfolding control_transfer_def alu_result_def csr_wdata_def ex_exc_def bare_sel bare_units by (rule refl)+
  then show ?thesis by (simp add: ex_packet_def)
qed

lemma bare_id_stage: "f_valid p \<Longrightarrow> bare (id_stage rf we rd v p) = bare_packet p"
  by (simp add: bare_packet_def bare_def id_stage_def Let_def id_operand_def regfile_read_def)

text \<open>Who provides a register, and which packets leave a CSR and the interrupt enables alone.\<close>

definition e_provides :: "ex_mem_t \<Rightarrow> reg_addr_t \<Rightarrow> bool" where
  "e_provides e r \<longleftrightarrow> e_valid e \<and> \<not> exc_valid (e_exc e) \<and> e_reg_write e \<and> e_rd e = r \<and> r \<noteq> 0"

definition w_provides :: "mem_wb_t \<Rightarrow> reg_addr_t \<Rightarrow> bool" where
  "w_provides w r \<longleftrightarrow> writes_back w \<and> w_rd w = r"

definition src_ok :: "ex_mem_t \<Rightarrow> mem_wb_t \<Rightarrow> (reg_addr_t \<Rightarrow> u32) \<Rightarrow> reg_addr_t \<Rightarrow> u32 \<Rightarrow> bool" where
  "src_ok e w rf r v \<longleftrightarrow> (e_provides e r \<longrightarrow> e_wb_sel e \<noteq> WB_LOAD) \<and> (e_provides e r \<or> w_provides w r \<or> v = regfile_read rf r)"

definition w_quiet :: "mem_wb_t \<Rightarrow> csr_addr_t \<Rightarrow> bool" where
  "w_quiet w c \<longleftrightarrow> (w_valid w \<longrightarrow> \<not> exc_valid (w_exc w) \<and> \<not> w_is_mret w \<and> c \<notin> {CSR_MINSTRET, CSR_MINSTRETH} \<and>
     (w_csr_write w \<longrightarrow> \<not> csr_addresses_conflict c (w_csr_addr w)))"

definition e_quiet :: "ex_mem_t \<Rightarrow> csr_addr_t \<Rightarrow> bool" where
  "e_quiet e c \<longleftrightarrow> (e_valid e \<longrightarrow> \<not> e_is_mret e \<and> c \<notin> {CSR_MINSTRET, CSR_MINSTRETH} \<and>
     (e_csr_write e \<longrightarrow> \<not> csr_addresses_conflict c (e_csr_addr e)))"

definition e_irq_quiet :: "ex_mem_t \<Rightarrow> bool" where
  "e_irq_quiet e \<longleftrightarrow> (e_valid e \<longrightarrow> \<not> e_is_mret e \<and> (e_csr_write e \<longrightarrow> \<not> irq_state_addr (e_csr_addr e)))"

lemma mem_result_sel [simp]:
  "w_valid (mem_result e r)" "w_pc (mem_result e r) = e_pc e" "w_rd (mem_result e r) = e_rd e" "w_csr_write (mem_result e r) \<Longrightarrow> e_csr_write e"
  "w_control (mem_result e r) = e_control e" "w_control_taken (mem_result e r) = e_control_taken e"
  "w_control_target (mem_result e r) = e_control_target e" "w_is_mret (mem_result e r) \<Longrightarrow> e_is_mret e"
  "w_csr_write (mem_result e r) \<Longrightarrow> w_csr_addr (mem_result e r) = e_csr_addr e"
  by (simp_all add: mem_result_def split: if_splits)

lemma mem_result_provides:
  assumes "\<not> exc_valid (w_exc (mem_result e r))" "e_valid e"
  shows "w_provides (mem_result e r) x \<longleftrightarrow> e_provides e x" "e_wb_sel e \<noteq> WB_LOAD \<Longrightarrow> e_mem_cmd e = MEM_NONE \<Longrightarrow> w_wb_data (mem_result e r) = ex_mem_fwd_value e"
  using assms by (auto simp: mem_result_def w_provides_def e_provides_def writes_back_def is_memory_def split: if_splits)

lemma quiet_result:
  "\<not> exc_valid (w_exc (mem_result e r)) \<Longrightarrow> e_valid e \<Longrightarrow> e_quiet e c \<Longrightarrow> w_quiet (mem_result e r) c"
  by (auto simp: e_quiet_def w_quiet_def dest: mem_result_sel(4,8,9))

text \<open>A quiet packet does not change what is read at the address.\<close>

lemma quiet_read:
  assumes "w_quiet w c"
  shows "read_csr env (committed (commit_in w) m) c = read_csr env m c"
proof (cases "w_valid w")
  case False
  then show ?thesis by (simp add: committed_def)
next
  case True
  note w = assms [unfolded w_quiet_def, rule_format, OF True]
  have "read_csr env (retire m') c = read_csr env m' c" for m'
    using w by (simp add: read_csr_def retire_def)
  moreover have "read_csr env (write_csr (w_csr_addr w) v m') c = read_csr env m' c" if "w_csr_write w" for v m'
    using w that unfolding csr_addresses_conflict_def
    by (cases "w_csr_addr w" rule: csr_addr_cases) (auto simp: read_csr_def write_csr_def volatile_csr_def csr_addr_defs)
  ultimately show ?thesis using w True by (simp add: committed_def Let_def)
qed

lemma quiet_enables:
  assumes "e_irq_quiet e" "\<not> exc_valid (w_exc (mem_result e r))" "e_valid e"
  shows "m_ie (committed (commit_in (mem_result e r)) m) = m_ie m \<and> m_tie (committed (commit_in (mem_result e r)) m) = m_tie m"
proof -
  let ?w = "mem_result e r"
  have w: "\<not> w_is_mret ?w" "w_csr_write ?w \<Longrightarrow> \<not> irq_state_addr (w_csr_addr ?w)"
    using assms by (auto simp: e_irq_quiet_def dest: mem_result_sel(4,8,9))
  have "m_ie (write_csr c v m') = m_ie m' \<and> m_tie (write_csr c v m') = m_tie m'" if "\<not> irq_state_addr c" for c v m'
    using that by (simp add: write_csr_def irq_state_addr_def)
  then show ?thesis using w assms(2) by (simp add: committed_def retire_def Let_def)
qed

section \<open>The execute stage\<close>

text \<open>The state after the packet in the memory stage.\<close>

definition after_mem :: "ex_mem_t \<Rightarrow> response \<Rightarrow> arch \<Rightarrow> arch" where
  "after_mem e r a = (if e_valid e then commit (mem_result e r) a else a)"

lemma source_fields:
  "source1 i = (if uses_rs1 (ctrl_of_instr i) then Some (field 15 (encode i)) else None)"
  "source2 i = (if uses_rs2 (ctrl_of_instr i) then Some (field 20 (encode i)) else None)"
  by (cases i; simp add: ctrl_of_instr_def encode_fields alu_imm_ctrl_def alu_reg_ctrl_def)+

lemma ready_load:
  assumes "ready im a e" "e_provides e r" "e_wb_sel e \<noteq> WB_LOAD"
  shows "e_mem_cmd e = MEM_NONE"
proof -
  have "instr_ready im a e" using assms by (auto simp: ready_def e_provides_def)
  then obtain i rdata illegal mepc where sh: "shows_effect rdata illegal mepc (encode i) e (outcome i (a_pc a) (operand (source1 i) a) (operand (source2 i) a))"
    by (auto simp: instr_ready_def)
  show ?thesis
  proof (cases "outcome i (a_pc a) (operand (source1 i) a) (operand (source2 i) a)")
    case (Next x pc)
    then show ?thesis using sh by (cases x) auto
  qed (use sh assms in \<open>auto simp: e_provides_def split: if_splits\<close>)
qed

lemma after_mem_reg:
  assumes "ready im a e \<or> \<not> e_valid e" "\<not> (e_valid e \<and> exc_valid (w_exc (mem_result e res)))" "e_provides e r \<longrightarrow> e_wb_sel e \<noteq> WB_LOAD"
  shows "get_reg (after_mem e res a) r = (if e_provides e r then ex_mem_fwd_value e else get_reg a r)"
proof (cases "e_valid e")
  case False
  then show ?thesis by (simp add: after_mem_def e_provides_def)
next
  case True
  then have x: "\<not> exc_valid (w_exc (mem_result e res))" and rd: "ready im a e" using assms by auto
  have w: "a_reg (commit (mem_result e res) a) r = (if e_provides e r then w_wb_data (mem_result e res) else a_reg a r)"
    unfolding mem_result_provides(1) [OF x True, symmetric]
    by (auto simp: commit_def commit_regs_def regfile_clock_def w_provides_def writes_back_def)
  have d: "w_wb_data (mem_result e res) = ex_mem_fwd_value e" if "e_provides e r"
    using that mem_result_provides(2) [OF x True] ready_load [OF rd] assms(3) by blast
  have "e_provides e r \<Longrightarrow> r \<noteq> 0" by (simp add: e_provides_def)
  then show ?thesis unfolding after_mem_def get_reg_def if_P [OF True] w using d by simp
qed

lemma forwarded:
  assumes "src_ok e w rf r v" "d_valid d" "\<not> exc_valid (d_exc d)"
  shows "select_forwarded_operand (forward_sel d e w True r) v (ex_mem_fwd_value e) (w_wb_data w) =
    (if e_provides e r then ex_mem_fwd_value e else regfile_read (commit_regs w rf) r)"
proof -
  have fe: "ex_mem_value_ready e \<and> e_rd e = r \<longleftrightarrow> e_provides e r"
    using assms(1) by (auto simp: ex_mem_value_ready_def e_provides_def src_ok_def)
  have fw: "mem_wb_value_ready w \<and> w_rd w = r \<longleftrightarrow> w_provides w r"
    by (auto simp: mem_wb_value_ready_def w_provides_def writes_back_def)
  have rf: "regfile_read (commit_regs w rf) r = (if w_provides w r then w_wb_data w else regfile_read rf r)"
    by (auto simp: regfile_read_def commit_regs_def regfile_clock_def w_provides_def writes_back_def)
  have "forward_sel d e w True r = (if e_provides e r then FWD_EX_MEM else if w_provides w r then FWD_MEM_WB else FWD_REGFILE)"
    unfolding fe [symmetric] fw [symmetric] using assms(2,3) by (simp add: forward_sel_def source_matches_def)
  then show ?thesis unfolding rf using assms(1) by (auto simp add: select_forwarded_operand_def src_ok_def)
qed

section \<open>The invariant\<close>

text \<open>The address of the next instruction after the memory stage, after the execute stage, and after the decode stage.\<close>

definition pc1 :: "arch \<Rightarrow> core \<Rightarrow> u32" where
  "pc1 a s = (if e_valid (ex_mem_q s) then next_pc (ex_mem_q s) else a_pc a)"

definition pc2 :: "arch \<Rightarrow> core \<Rightarrow> u32" where
  "pc2 a s = (if d_valid (id_ex_q s) then d_pc (id_ex_q s) + 4 else pc1 a s)"

definition pc3 :: "arch \<Rightarrow> core \<Rightarrow> u32" where
  "pc3 a s = (if f_valid (if_id_q s) then f_pc (if_id_q s) + 4 else pc2 a s)"

text \<open>The architectural state is that of the register file and the CSR file after the packet in write-back.\<close>

definition state_ok :: "arch \<Rightarrow> core \<Rightarrow> bool" where
  "state_ok a s \<longleftrightarrow>
     a_reg a = commit_regs (mem_wb_q s) (regs s) \<and> a_m a = committed (commit_in (mem_wb_q s)) (mstate_of (csrf s)) \<and>
     csr_ok (csrf s) \<and> (wb_trap s \<longrightarrow> a_pc a = mtvec_q (csrf s))"

definition csr_source :: "id_ex_t \<Rightarrow> csr_addr_t option" where
  "csr_source d = (if csr_cmd (d_ctrl d) \<noteq> CSR_NONE then Some (csr_addr_of (d_insn d))
     else if is_mret (d_ctrl d) then Some CSR_MEPC else None)"

definition decoded_ok :: "(u32 \<Rightarrow> u32 option) \<Rightarrow> arch \<Rightarrow> core \<Rightarrow> id_ex_t \<Rightarrow> bool" where
  "decoded_ok im a s d \<longleftrightarrow>
     d_pc d = pc1 a s \<and>
     (bare d = bare_packet (packet_of (contents im (d_pc d))) \<or>
      d = interrupt_packet (d_pc d) \<and> m_ie (a_m a) \<and> m_tie (a_m a) \<and> e_irq_quiet (ex_mem_q s)) \<and>
     (uses_rs1 (d_ctrl d) \<longrightarrow> src_ok (ex_mem_q s) (mem_wb_q s) (regs s) (d_rs1 d) (d_rs1_value d)) \<and>
     (uses_rs2 (d_ctrl d) \<longrightarrow> src_ok (ex_mem_q s) (mem_wb_q s) (regs s) (d_rs2 d) (d_rs2_value d)) \<and>
     (case csr_source d of None \<Rightarrow> True | Some c \<Rightarrow> e_quiet (ex_mem_q s) c \<and> w_quiet (mem_wb_q s) c)"

text \<open>After a packet with an exception nothing younger is in the pipeline.\<close>

definition drained :: "core \<Rightarrow> bool" where
  "drained s \<longleftrightarrow>
     (wb_trap s \<longrightarrow> \<not> e_valid (ex_mem_q s) \<and> \<not> d_valid (id_ex_q s) \<and> trap_drain_q s) \<and>
     (e_valid (ex_mem_q s) \<and> exc_valid (e_exc (ex_mem_q s)) \<longrightarrow> \<not> d_valid (id_ex_q s) \<and> trap_drain_q s) \<and>
     (d_valid (id_ex_q s) \<and> exc_valid (d_exc (id_ex_q s)) \<longrightarrow> trap_drain_q s) \<and>
     (trap_drain_q s \<longrightarrow> \<not> f_valid (if_id_q s))"

definition taken_transfer :: "ex_mem_t \<Rightarrow> bool" where
  "taken_transfer e \<longleftrightarrow> e_valid e \<and> e_control e \<and> e_control_taken e \<and> \<not> exc_valid (e_exc e)"

text \<open>The multiplier and the divider work for the packet in the execute stage, or rest.\<close>

definition mdu_ok :: "core \<Rightarrow> bool" where
  "mdu_ok s \<longleftrightarrow>
     (mul_state (mul s) = MUL_IDLE \<or> d_valid (id_ex_q s) \<and> \<not> exc_valid (d_exc (id_ex_q s)) \<and>
        (\<exists>f \<in> mul_ops. mdu_op (d_ctrl (id_ex_q s)) = mop_mdu f \<and> mul_at f (ex_rs1 s) (ex_rs2 s) (mul s))) \<and>
     (div_state (divu s) = DIV_IDLE \<or> d_valid (id_ex_q s) \<and> \<not> exc_valid (d_exc (id_ex_q s)) \<and>
        (\<exists>f \<in> div_ops. mdu_op (d_ctrl (id_ex_q s)) = mop_mdu f \<and> div_at f (ex_rs1 s) (ex_rs2 s) (divu s)))"

definition pipe_ok :: "(u32 \<Rightarrow> u32 option) \<Rightarrow> u32 option \<Rightarrow> request option \<Rightarrow> arch \<Rightarrow> core \<Rightarrow> bool" where
  "pipe_ok im fw dw a s \<longleftrightarrow>
     state_ok a s \<and> drained s \<and>
     (e_valid (ex_mem_q s) \<longrightarrow> ready im a (ex_mem_q s)) \<and>
     (taken_transfer (ex_mem_q s) \<longrightarrow> \<not> d_valid (id_ex_q s) \<and> \<not> f_valid (if_id_q s)) \<and>
     (d_valid (id_ex_q s) \<longrightarrow> decoded_ok im a s (id_ex_q s)) \<and>
     (f_valid (if_id_q s) \<longrightarrow> if_id_q s = packet_of (contents im (pc2 a s))) \<and>
     fetch_ok im fw (fetch s) \<and> (\<not> trap_drain_q s \<longrightarrow> fetch_at (pc3 a s) (fetch s)) \<and>
     mdu_ok s \<and> lsu_ok dw (lsu_inputs s False) (lsu_s s)"

end
