(* ===== verification/Core_Clock.thy ===== *)
theory Core_Clock
  imports Core_Refine
begin

text \<open>
  One clock of the pipeline: which packet each register takes under each action of the controller, and what the stages
  compute when the invariant holds.
\<close>

section \<open>Actions\<close>

definition act :: "core_in \<Rightarrow> core \<Rightarrow> pipeline_action_e" where
  "act i s = pipeline_action (trap_drain_q s) (ctrl_inputs i s)"

lemma act_eq:
  assumes "\<not> in_reset i"
  shows "act i s =
    (if wb_trap s then ACTION_WB_TRAP
     else if mem_exception i s then ACTION_MEM_EXCEPTION
     else if mem_wait i s then ACTION_MEM_WAIT
     else if ex_exception i s then ACTION_EX_EXCEPTION
     else if ex_wait i s then ACTION_EX_WAIT
     else if trap_drain_q s then ACTION_TRAP_DRAIN
     else if redirect_valid (control_redirect i s) then ACTION_EX_REDIRECT
     else if irq_state_wait s then ACTION_IRQ_STATE_WAIT
     else if d_valid (id_ex_d i s) \<and> exc_valid (d_exc (id_ex_d i s)) \<and> \<not> exc_irq (d_exc (id_ex_d i s)) then ACTION_ID_EXCEPTION
     else if d_valid (id_ex_d i s) \<and> exc_valid (d_exc (id_ex_d i s)) \<and> exc_irq (d_exc (id_ex_d i s)) then ACTION_ID_INTERRUPT
     else if load_use (id_ex_d i s) (id_ex_q s) \<or> csr_dep (id_ex_d i s) (id_ex_q s) (ex_mem_q s) then ACTION_ID_HAZARD
     else ACTION_ADVANCE)"
  using assms by (simp add: act_def pipeline_action_def ctrl_inputs_def Let_def)

lemma act_not_reset: "\<not> in_reset i \<Longrightarrow> act i s \<noteq> ACTION_RESET"
  by (simp add: act_eq)

lemma ctrl_of_inputs: "ci_mtvec (ctrl_inputs i s) = mtvec_q (csrf s)" "ci_redirect (ctrl_inputs i s) = control_redirect i s"
  by (simp_all add: ctrl_inputs_def Let_def)

lemma control_of:
  fixes i s
  assumes "\<not> in_reset i"
  defines "c \<equiv> control i s"
  shows "co_mem_wb_enable c" "co_mem_wb_flush c \<longleftrightarrow> act i s \<in> {ACTION_WB_TRAP, ACTION_MEM_WAIT}"
    "co_ex_mem_flush c \<longleftrightarrow> act i s \<in> {ACTION_WB_TRAP, ACTION_MEM_EXCEPTION, ACTION_EX_WAIT}" "co_ex_mem_enable c \<longleftrightarrow> act i s \<noteq> ACTION_MEM_WAIT"
    "co_id_ex_flush c \<longleftrightarrow> act i s \<in> {ACTION_WB_TRAP, ACTION_MEM_EXCEPTION, ACTION_EX_EXCEPTION, ACTION_EX_REDIRECT,
       ACTION_IRQ_STATE_WAIT, ACTION_ID_HAZARD}"
    "co_id_ex_enable c \<longleftrightarrow> act i s \<notin> {ACTION_MEM_WAIT, ACTION_EX_WAIT}"
    "co_if_id_flush c \<longleftrightarrow> act i s \<in> {ACTION_WB_TRAP, ACTION_MEM_EXCEPTION, ACTION_EX_EXCEPTION, ACTION_EX_REDIRECT,
       ACTION_ID_EXCEPTION, ACTION_ID_INTERRUPT}"
    "co_if_id_enable c \<longleftrightarrow> act i s \<notin> {ACTION_MEM_WAIT, ACTION_EX_WAIT, ACTION_TRAP_DRAIN, ACTION_IRQ_STATE_WAIT, ACTION_ID_HAZARD}"
    "co_trap_drain_d c \<longleftrightarrow> (if act i s = ACTION_WB_TRAP then False
       else act i s \<in> {ACTION_MEM_EXCEPTION, ACTION_EX_EXCEPTION, ACTION_ID_EXCEPTION, ACTION_ID_INTERRUPT} \<or> trap_drain_q s)"
    "redirect_valid (co_redirect c) \<longleftrightarrow> act i s \<in> {ACTION_WB_TRAP, ACTION_EX_REDIRECT}"
    "act i s = ACTION_WB_TRAP \<Longrightarrow> redirect_target (co_redirect c) = word_aligned (mtvec_q (csrf s))"
    "act i s = ACTION_EX_REDIRECT \<Longrightarrow> redirect_target (co_redirect c) = redirect_target (control_redirect i s)"
  unfolding c_def control_def pipeline_ctrl_def act_def [symmetric] using act_not_reset [OF assms(1), of s]
  by (cases "act i s"; simp add: ctrl_of_action_def ctrl_advance_def no_redirect_def Let_def ctrl_of_inputs word_aligned_eqs)+

section \<open>The registers after a clock\<close>

lemma core_clock_next:
  fixes i s rv tv
  assumes "\<not> in_reset i"
  defines "t \<equiv> core_clock rv tv i s"
  shows "mem_wb_q t = (if act i s \<in> {ACTION_WB_TRAP, ACTION_MEM_WAIT} then mem_wb_0 else mem_stage i s)"
    "ex_mem_q t = (if act i s \<in> {ACTION_WB_TRAP, ACTION_MEM_EXCEPTION, ACTION_EX_WAIT} then ex_mem_0
       else if act i s = ACTION_MEM_WAIT then ex_mem_q s else ex_stage i s)"
    "id_ex_q t = (if act i s \<in> {ACTION_WB_TRAP, ACTION_MEM_EXCEPTION, ACTION_EX_EXCEPTION, ACTION_EX_REDIRECT,
       ACTION_IRQ_STATE_WAIT, ACTION_ID_HAZARD} then id_ex_0
       else if act i s \<in> {ACTION_MEM_WAIT, ACTION_EX_WAIT} then refresh_operands s else id_ex_d i s)"
    "if_id_q t = (if act i s \<in> {ACTION_WB_TRAP, ACTION_MEM_EXCEPTION, ACTION_EX_EXCEPTION, ACTION_EX_REDIRECT,
       ACTION_ID_EXCEPTION, ACTION_ID_INTERRUPT} then if_id_0 else if act i s = ACTION_ADVANCE then if_id_d i s else if_id_q s)"
    "trap_drain_q t \<longleftrightarrow> (if act i s = ACTION_WB_TRAP then False
       else act i s \<in> {ACTION_MEM_EXCEPTION, ACTION_EX_EXCEPTION, ACTION_ID_EXCEPTION, ACTION_ID_INTERRUPT} \<or> trap_drain_q s)"
    "regs t = commit_regs (mem_wb_q s) (regs s)" "csrf t = csr_next (commit_in (mem_wb_q s)) (csrf s)"
    "mul t = mul_clock (mul_inputs i s) (mul s)" "divu t = div_clock (div_inputs i s) (divu s)"
    "lsu_s t = lsu_clock False (lsu_inputs s (\<not> wb_trap s \<and> act i s \<noteq> ACTION_MEM_WAIT)) (dmem i) (lsu_s s)"
    "fetch t = if_clock False rv (fetch_inputs i s) (imem i) (fetch s)"
proof -
  note c = control_of [OF assms(1), of s]
  have r: "act i s \<noteq> ACTION_RESET" by (rule act_not_reset [OF assms(1)])
  show "mem_wb_q t = (if act i s \<in> {ACTION_WB_TRAP, ACTION_MEM_WAIT} then mem_wb_0 else mem_stage i s)"
    using assms(1) by (simp add: t_def core_clock_def Let_def c)
  show "ex_mem_q t = (if act i s \<in> {ACTION_WB_TRAP, ACTION_MEM_EXCEPTION, ACTION_EX_WAIT} then ex_mem_0
       else if act i s = ACTION_MEM_WAIT then ex_mem_q s else ex_stage i s)"
    using assms(1) by (simp add: t_def core_clock_def Let_def c)
  show "id_ex_q t = (if act i s \<in> {ACTION_WB_TRAP, ACTION_MEM_EXCEPTION, ACTION_EX_EXCEPTION, ACTION_EX_REDIRECT,
       ACTION_IRQ_STATE_WAIT, ACTION_ID_HAZARD} then id_ex_0
       else if act i s \<in> {ACTION_MEM_WAIT, ACTION_EX_WAIT} then refresh_operands s else id_ex_d i s)"
    using assms(1) by (simp add: t_def core_clock_def Let_def c)
  show "if_id_q t = (if act i s \<in> {ACTION_WB_TRAP, ACTION_MEM_EXCEPTION, ACTION_EX_EXCEPTION, ACTION_EX_REDIRECT,
       ACTION_ID_EXCEPTION, ACTION_ID_INTERRUPT} then if_id_0 else if act i s = ACTION_ADVANCE then if_id_d i s else if_id_q s)"
    using assms(1) r unfolding t_def core_clock_def Let_def by (cases "act i s") (simp_all add: c)
  show "trap_drain_q t \<longleftrightarrow> (if act i s = ACTION_WB_TRAP then False
       else act i s \<in> {ACTION_MEM_EXCEPTION, ACTION_EX_EXCEPTION, ACTION_ID_EXCEPTION, ACTION_ID_INTERRUPT} \<or> trap_drain_q s)"
    using assms(1) by (simp add: t_def core_clock_def Let_def c)
  show "regs t = commit_regs (mem_wb_q s) (regs s)" "csrf t = csr_next (commit_in (mem_wb_q s)) (csrf s)"
    "mul t = mul_clock (mul_inputs i s) (mul s)" "divu t = div_clock (div_inputs i s) (divu s)"
    "fetch t = if_clock False rv (fetch_inputs i s) (imem i) (fetch s)"
    using assms(1) by (simp_all add: t_def core_clock_def Let_def commit_regs_def regfile_clock_def writes_back_def wb_reg_write_def
        wb_retire_def csr_clock_def wb_csr_in_commit)
  have "(co_mem_wb_enable (control i s) \<and> \<not> co_mem_wb_flush (control i s) \<and> \<not> wb_trap s) = (\<not> wb_trap s \<and> act i s \<noteq> ACTION_MEM_WAIT)"
    using assms(1) by (auto simp: c act_eq)
  then show "lsu_s t = lsu_clock False (lsu_inputs s (\<not> wb_trap s \<and> act i s \<noteq> ACTION_MEM_WAIT)) (dmem i) (lsu_s s)"
    using assms(1) by (simp add: t_def core_clock_def Let_def)
qed

section \<open>The memory stage\<close>

lemma mem_is_memory_iff: "mem_is_memory s \<longleftrightarrow> e_valid (ex_mem_q s) \<and> is_memory (ex_mem_q s)"
  by (auto simp: mem_is_memory_def is_memory_def)

definition data_driven :: "core_in \<Rightarrow> core \<Rightarrow> request option" where
  "data_driven i s = map_option seen (core_data_request i s)"

lemma lsu_inputs_sel [simp]:
  "kill_i (lsu_inputs s b) = wb_trap s" "req_valid_i (lsu_inputs s b) \<longleftrightarrow> mem_is_memory s \<and> \<not> wb_trap s"
  "cmd_i (lsu_inputs s b) = e_mem_cmd (ex_mem_q s)" "size_i (lsu_inputs s b) = e_mem_size (ex_mem_q s)"
  "load_unsigned_i (lsu_inputs s b) = e_load_unsigned (ex_mem_q s)" "addr_i (lsu_inputs s b) = e_ex_result (ex_mem_q s)"
  "store_data_i (lsu_inputs s b) = e_store_data (ex_mem_q s)" "rsp_ready_i (lsu_inputs s b) = b"
  by (simp_all add: lsu_inputs_def Let_def)

text \<open>Nothing the unit gives depends on whether its answer is taken.\<close>

lemma rsp_ready_free:
  "lsu_rsp rst (lsu_inputs s b) m l = lsu_rsp rst (lsu_inputs s False) m l"
  "lsu_ok out (lsu_inputs s b) l = lsu_ok out (lsu_inputs s False) l"
  "lsu_driven (lsu_inputs s b) l = lsu_driven (lsu_inputs s False) l"
  "lsu_trace rst (lsu_inputs s b) l = lsu_trace rst (lsu_inputs s False) l"
  unfolding lsu_rsp_def lsu_ok_def lsu_driven_def lsu_trace_def response_seen_def response_discard_def
    response_load_data_def response_exception_def lsu_request_def issue_input_def lsu_req_ready_def input_is_memory_def
    input_misaligned_def asked_def lsu_inputs_sel by (rule refl)+

lemma data_driven_lsu: "\<not> in_reset i \<Longrightarrow> data_driven i s = lsu_driven (lsu_inputs s b) (lsu_s s)"
  by (simp add: rsp_ready_free(3) [of s b]) (simp add: data_driven_def core_data_request_def lsu_driven_def)

lemma lsu_serves:
  assumes "is_memory (ex_mem_q s)"
  shows "input_is_memory (lsu_inputs s b)" "input_misaligned (lsu_inputs s b) = e_misaligned (ex_mem_q s)"
    "mem_request (ex_mem_q s) = (if input_misaligned (lsu_inputs s b) then None else Some (asked (lsu_inputs s b)))"
    "lsu_result (lsu_inputs s b) r = ((v, x), tr) \<Longrightarrow> mem_result (ex_mem_q s) r = squash (mem_packet_memory (ex_mem_q s) v x tr)"
    "lsu_result (lsu_inputs s b) r = ((v, x), tr) \<Longrightarrow> w_exc (mem_result (ex_mem_q s) r) = x"
  using assms
  by (auto simp: is_memory_def input_is_memory_def input_misaligned_def e_misaligned_def mem_request_def asked_def lsu_result_def
      mem_result_def mem_data_def)

lemma mem_done:
  assumes ok: "lsu_ok dw (lsu_inputs s False) (lsu_s s)" and nt: "\<not> wb_trap s" and i: "\<not> in_reset i"
    and e: "e_valid (ex_mem_q s)" "\<not> mem_wait i s"
  shows "\<exists>r. mem_stage i s = mem_result (ex_mem_q s) r \<and> completed dw (data_driven i s) (dmem i) = label (ex_mem_q s) r \<and>
    (mem_exception i s \<longleftrightarrow> is_memory (ex_mem_q s) \<and> exc_valid (w_exc (mem_result (ex_mem_q s) r))) \<and>
    waiting_next dw (data_driven i s) (dmem i) = None \<and> lsu_state (lsu_clock False (lsu_inputs s True) (dmem i) (lsu_s s)) = LSU_IDLE"
proof (cases "is_memory (ex_mem_q s)")
  case False
  then have r: "\<not> req_valid_i (lsu_inputs s True)" by (simp add: mem_is_memory_iff)
  note x = lsu_rests [OF ok [folded rsp_ready_free(2) [of dw s True]] r, of "dmem i", folded data_driven_lsu [OF i]]
  have "mem_request (ex_mem_q s) = None" using False by (simp add: mem_request_def)
  then show ?thesis using False e(1) x
    by (simp add: mem_stage_def mem_is_memory_iff mem_result_def mem_exception_def label_def squash_def Let_def)
next
  case True
  then have r: "req_valid_i (lsu_inputs s True)" "\<not> kill_i (lsu_inputs s True)" "input_is_memory (lsu_inputs s True)"
    using e nt by (simp_all add: mem_is_memory_iff lsu_serves)
  obtain v x where vx: "lsu_done i s = Some (v, x)" using e True by (auto simp: mem_wait_def mem_is_memory_iff)
  then have rsp: "lsu_rsp False (lsu_inputs s True) (dmem i) (lsu_s s) = Some (v, x)"
    using i by (simp add: lsu_done_def rsp_ready_free(1) [of _ s True])
  have "rsp_ready_i (lsu_inputs s True)" by simp
  from lsu_answers [OF ok [folded rsp_ready_free(2) [of dw s True]] r(2,1,3) rsp this, folded data_driven_lsu [OF i]]
  obtain r where c: "lsu_state (lsu_clock False (lsu_inputs s True) (dmem i) (lsu_s s)) = LSU_IDLE"
    "waiting_next dw (data_driven i s) (dmem i) = None"
    "((v, x), lsu_trace False (lsu_inputs s True) (lsu_s s)) = lsu_result (lsu_inputs s True) r"
    "completed dw (data_driven i s) (dmem i) =
       (if input_misaligned (lsu_inputs s True) then None else Some (asked (lsu_inputs s True), r))" by blast
  note sv = lsu_serves [OF True, of True]
  have "mem_stage i s = mem_result (ex_mem_q s) r"
    using True e(1) i vx sv(4) [OF c(3) [symmetric]]
    by (simp add: mem_stage_def mem_is_memory_iff Let_def squash_def rsp_ready_free(4) [of False s True])
  moreover have "completed dw (data_driven i s) (dmem i) = label (ex_mem_q s) r" unfolding c(4) label_def sv(3) by simp
  moreover have "mem_exception i s \<longleftrightarrow> exc_valid (w_exc (mem_result (ex_mem_q s) r))"
    unfolding sv(5) [OF c(3) [symmetric]] using True e(1) vx by (simp add: mem_exception_def mem_is_memory_iff)
  ultimately show ?thesis using c(1,2) True by blast
qed

lemma mem_waits:
  assumes ok: "lsu_ok dw (lsu_inputs s False) (lsu_s s)" and nt: "\<not> wb_trap s" and i: "\<not> in_reset i" and e: "mem_wait i s"
  shows "completed dw (data_driven i s) (dmem i) = None \<and>
    lsu_ok (waiting_next dw (data_driven i s) (dmem i)) (lsu_inputs s False) (lsu_clock False (lsu_inputs s False) (dmem i) (lsu_s s))"
proof -
  have m: "mem_is_memory s" "lsu_done i s = None" using e by (auto simp: mem_wait_def)
  then have r: "req_valid_i (lsu_inputs s False)" "\<not> kill_i (lsu_inputs s False)" "input_is_memory (lsu_inputs s False)"
    using nt by (simp_all add: mem_is_memory_iff lsu_serves)
  show ?thesis using lsu_waits [OF ok r(2,1,3), of "dmem i"] m(2) i unfolding data_driven_lsu [OF i, of s False]
    by (simp add: lsu_done_def)
qed

lemma mem_rests:
  assumes ok: "lsu_ok dw (lsu_inputs s False) (lsu_s s)" and i: "\<not> in_reset i" and e: "\<not> e_valid (ex_mem_q s)"
  shows "completed dw (data_driven i s) (dmem i) = None \<and> mem_stage i s = mem_wb_0 \<and> \<not> mem_wait i s \<and> \<not> mem_exception i s \<and>
    waiting_next dw (data_driven i s) (dmem i) = None \<and> lsu_state (lsu_clock False (lsu_inputs s b) (dmem i) (lsu_s s)) = LSU_IDLE"
proof -
  have r: "\<not> req_valid_i (lsu_inputs s b)" using e by (simp add: mem_is_memory_iff)
  show ?thesis using lsu_rests [OF ok [folded rsp_ready_free(2) [of dw s b]] r, of "dmem i", folded data_driven_lsu [OF i]] e
    by (simp add: mem_stage_def mem_wait_def mem_exception_def mem_is_memory_iff Let_def)
qed

end
