(* ===== verification/Core_Execute.thy ===== *)
theory Core_Execute
  imports Core_Clock
begin

text \<open>
  The execute stage makes, of the packet in front of it, the packet the architecture prescribes after the older packets: the operands
  come from the bypasses, the CSR file answers for the state after the older packets, and a product or quotient
  is the one of these operands.
\<close>

section \<open>Where a packet comes from\<close>

lemma bare_valid: "d_valid (bare_packet p) = f_valid p"
  by (simp add: bare_packet_def id_stage_def id_ex_0_def Let_def)

lemma origin_cases:
  assumes "bare d = bare_packet (packet_of (contents im pc))"
  obtains (fault) "im pc = None" "d_exc d = exception EXC_INST_ACCESS_FAULT pc" "d_ctrl d = no_ctrl" "d_pc d = pc" "d_valid d"
  | (illegal) w where "im pc = Some w" "w \<notin> range encode" "d_exc d = exception EXC_ILLEGAL_INSN w" "d_ctrl d = no_ctrl" "d_pc d = pc" "d_valid d"
  | (legal) j where "im pc = Some (encode j)" "bare d = bare_packet (fetched pc (encode j) no_exc)" "d_pc d = pc" "d_valid d"
proof -
  have sel: "d_exc d = d_exc (bare_packet p) \<and> d_ctrl d = d_ctrl (bare_packet p) \<and> d_pc d = d_pc (bare_packet p) \<and> d_valid d"
    if "bare d = bare_packet p" "f_valid p" for p
    using that bare_valid [of p] by (metis bare_sel(1,2,8,9))
  show thesis
  proof (cases "im pc")
    case None
    have "bare d = bare_packet (fetched pc 0 (exception EXC_INST_ACCESS_FAULT pc))"
      using assms None by (simp add: packet_of_def contents_def)
    from sel [OF this] show thesis using None
      by (intro fault) (simp_all add: fetched_def bare_packet_def id_stage_def id_exception_def Let_def)
  next
    case (Some w)
    have b: "bare d = bare_packet (fetched pc w no_exc)" using assms Some by (simp add: packet_of_def contents_def)
    show thesis
    proof (cases "w \<in> range encode")
      case True
      then obtain j where j: "w = encode j" by blast
      have "f_valid (fetched pc w no_exc)" by (simp add: fetched_def)
      from sel [OF b this] show thesis using Some b packet_of_instr(2) [of pc j] unfolding j by (intro legal [of j]) simp_all
    next
      case False
      then have "dec_illegal (decoder w)" using decoder_legal [of w] by blast
      then show thesis using sel [OF b] Some False
        by (intro illegal [of w]) (simp_all add: fetched_def bare_packet_def id_stage_def id_exception_def Let_def)
    qed
  qed
qed

lemma interrupt_packet_sel [simp]:
  "d_valid (interrupt_packet pc)" "d_pc (interrupt_packet pc) = pc" "d_exc (interrupt_packet pc) = interrupt_exc"
  "d_ctrl (interrupt_packet pc) = no_ctrl" "exc_valid interrupt_exc" "exc_irq interrupt_exc"
  by (simp_all add: interrupt_packet_def id_ex_0_def interrupt_exc_def)

section \<open>The state before the packet\<close>

definition mem_fails :: "ex_mem_t \<Rightarrow> response \<Rightarrow> bool" where
  "mem_fails e r \<longleftrightarrow> e_valid e \<and> exc_valid (w_exc (mem_result e r))"

lemma pc1_after: "\<not> mem_fails (ex_mem_q s) r \<Longrightarrow> a_pc (after_mem (ex_mem_q s) r a) = pc1 a s"
  by (simp add: after_mem_def pc1_def mem_fails_def commit_def next_pc_def)

lemma quiet_after:
  assumes "state_ok a s" "e_quiet (ex_mem_q s) c" "w_quiet (mem_wb_q s) c" "\<not> mem_fails (ex_mem_q s) r"
  shows "read_csr env (a_m (after_mem (ex_mem_q s) r a)) c = read_csr env (mstate_of (csrf s)) c"
proof -
  have a: "read_csr env (a_m a) c = read_csr env (mstate_of (csrf s)) c"
    using assms(1) quiet_read [OF assms(3)] by (simp add: state_ok_def)
  show ?thesis
  proof (cases "e_valid (ex_mem_q s)")
    case True
    then have "w_quiet (mem_result (ex_mem_q s) r) c" using assms(2,4) by (intro quiet_result) (simp_all add: mem_fails_def)
    then show ?thesis using True a quiet_read by (simp add: after_mem_def commit_def)
  qed (simp add: after_mem_def a)
qed

lemma operand_after:
  assumes st: "state_ok a s" and src: "src_ok (ex_mem_q s) (mem_wb_q s) (regs s) x v" and d: "d_valid d" "\<not> exc_valid (d_exc d)"
    and e: "e_valid (ex_mem_q s) \<longrightarrow> ready im a (ex_mem_q s)" "\<not> mem_fails (ex_mem_q s) r"
  shows "select_forwarded_operand (forward_sel d (ex_mem_q s) (mem_wb_q s) True x) v (ex_mem_fwd_value (ex_mem_q s)) (w_wb_data (mem_wb_q s)) =
    get_reg (after_mem (ex_mem_q s) r a) x"
proof -
  have "get_reg a x = regfile_read (commit_regs (mem_wb_q s) (regs s)) x"
    using st by (simp add: state_ok_def get_reg_def regfile_read_def)
  moreover have "e_provides (ex_mem_q s) x \<longrightarrow> e_wb_sel (ex_mem_q s) \<noteq> WB_LOAD" using src by (simp add: src_ok_def)
  ultimately show ?thesis
    using after_mem_reg [of im a "ex_mem_q s" r x] e unfolding forwarded [OF src d] by (auto simp: mem_fails_def)
qed

section \<open>What an instruction is fed\<close>

lemma mop_mdu_inj: "mop_mdu f = mop_mdu g \<longleftrightarrow> f = g"
  by (cases f; cases g; simp)

lemma mop_mdu_units:
  "mop_mdu f \<in> {MDU_MUL, MDU_MULH, MDU_MULHSU, MDU_MULHU} \<longleftrightarrow> f \<in> mul_ops"
  "mop_mdu f \<in> {MDU_DIV, MDU_DIVU, MDU_REM, MDU_REMU} \<longleftrightarrow> f \<in> div_ops" "f \<in> mul_ops \<or> f \<in> div_ops" "\<not> (f \<in> mul_ops \<and> f \<in> div_ops)"
  by (cases f; simp add: mul_ops_def div_ops_def)+

lemma mdu_result_value:
  assumes ok: "mdu_ok s" and v: "ex_result_valid i s" and op: "mdu_op (d_ctrl (id_ex_q s)) = mop_mdu f" and x: "\<not> exc_valid (d_exc (id_ex_q s))"
  shows "mdu_result s = mop_value f (ex_rs1 s) (ex_rs2 s)"
proof -
  have units: "is_mul (id_ex_q s) \<longleftrightarrow> f \<in> mul_ops" "is_div (id_ex_q s) \<longleftrightarrow> f \<in> div_ops"
    unfolding is_mul_def is_div_def op by (rule mop_mdu_units)+
  have rsp: "mdu_rsp_valid i s" using v x units mop_mdu_units(3) [of f] by (auto simp: ex_result_valid_def is_mdu_def)
  show ?thesis
  proof (cases "f \<in> mul_ops")
    case True
    then have "mul_state (mul s) = MUL_RESP" using rsp units by (simp add: mdu_rsp_valid_def mul_rsp_valid_def)
    then show ?thesis using ok op True units mul_at_result unfolding mdu_ok_def mdu_result_def by (auto simp: mop_mdu_inj)
  next
    case False
    then have f: "f \<in> div_ops" using mop_mdu_units(3) by blast
    then have "div_state (divu s) = DIV_RESP" using rsp units False by (simp add: mdu_rsp_valid_def div_rsp_valid_def)
    then show ?thesis using ok op f False units div_at_result unfolding mdu_ok_def mdu_result_def by (auto simp: mop_mdu_inj)
  qed
qed

lemma csr_write_enable_cop:
  assumes "csr_cmd (d_ctrl d) = cop_cmd f" "d_rs1 d = x"
  shows "access_cmd_writes (cop_cmd f) (csr_write_enable d) \<longleftrightarrow> csr_writes f x" "cop_cmd f \<noteq> CSR_NONE"
  by (cases f; simp add: access_cmd_writes_def csr_write_enable_def csr_writes_def assms)+

lemma aligned_low:
  assumes "(v :: u32) AND 3 = 0"
  shows "unat v mod 4 = 0" "word_aligned v = v"
proof -
  have b: "\<not> bit v 0" "\<not> bit v 1" using assms unfolding and_3_zero by blast+
  have low: "\<not> bit v k" if "k < 2" for k using that b by (cases "k = 0") (auto simp: less_Suc_eq numeral_2_eq_2)
  then have "(field 0 v :: 2 word) = 0" by (intro bit_word_eqI) (auto simp: bit_field)
  then show "unat v mod 4 = 0" by (simp only: low_bits_clear)
  show "word_aligned v = v"
    using low by (intro bit_word_eqI) (auto simp: bit_word_aligned not_le [symmetric])
qed

lemma fed_ready:
  assumes st: "state_ok a s" and dec: "decoded_ok im a s (id_ex_q s)" and mdu: "mdu_ok s" and e: "e_valid (ex_mem_q s) \<longrightarrow> ready im a (ex_mem_q s)"
    and d: "d_valid (id_ex_q s)" "bare (id_ex_q s) = bare_packet (fetched pc (encode j) no_exc)"
    and i: "ex_result_valid i s" and r: "\<not> mem_fails (ex_mem_q s) r"
  shows "fed (csr_rdata (in_mtip i) (csrf s)) j (after_mem (ex_mem_q s) r a) (ex_rs1 s) (ex_rs2 s) (mdu_result s)
    (csr_rdata (in_mtip i) (csrf s) (ex_csr_raddr i s)) (ex_csr_illegal i s) (mepc_q (csrf s))"
proof -
  let ?d = "id_ex_q s" and ?a = "after_mem (ex_mem_q s) r a"
  have sel: "d_ctrl ?d = ctrl_of_instr j" "d_exc ?d = exc_of_instr pc j" "d_rs1 ?d = field 15 (encode j)" "d_rs2 ?d = field 20 (encode j)"
    "d_insn ?d = encode j"
    using packet_of_instr(3-5,8,9) [of pc j, folded d(2)] by simp_all
  have act: "ex_active i s" using i by (simp add: ex_result_valid_def)
  have nx: "\<not> exc_valid (d_exc ?d)" if "j \<noteq> ECALL" "j \<noteq> EBREAK" using that unfolding sel by (simp add: exc_of_instr_def)
  have rs1: "ex_rs1 s = operand (source1 j) ?a" if "source1 j \<noteq> None"
  proof -
    have u: "uses_rs1 (d_ctrl ?d)" using that unfolding sel source_fields by (simp split: if_splits)
    moreover have "\<not> exc_valid (d_exc ?d)" using that by (intro nx) auto
    moreover have "src_ok (ex_mem_q s) (mem_wb_q s) (regs s) (d_rs1 ?d) (d_rs1_value ?d)" using dec u by (simp add: decoded_ok_def)
    ultimately have "ex_rs1 s = get_reg ?a (d_rs1 ?d)"
      using operand_after [OF st _ d(1) _ e r] by (simp add: ex_rs1_def forwarded_rs1_def)
    then show ?thesis using u unfolding source_fields operand_def sel by simp
  qed
  have rs2: "ex_rs2 s = operand (source2 j) ?a" if "source2 j \<noteq> None"
  proof -
    have u: "uses_rs2 (d_ctrl ?d)" using that unfolding sel source_fields by (simp split: if_splits)
    moreover have "\<not> exc_valid (d_exc ?d)" using that by (intro nx) auto
    moreover have "src_ok (ex_mem_q s) (mem_wb_q s) (regs s) (d_rs2 ?d) (d_rs2_value ?d)" using dec u by (simp add: decoded_ok_def)
    ultimately have "ex_rs2 s = get_reg ?a (d_rs2 ?d)"
      using operand_after [OF st _ d(1) _ e r] by (simp add: ex_rs2_def forwarded_rs2_def)
    then show ?thesis using u unfolding source_fields operand_def sel by simp
  qed
  have read: "read_csr env (a_m ?a) c = read_csr env (mstate_of (csrf s)) c" if "csr_source ?d = Some c" for env c
    using dec that by (intro quiet_after [OF st _ _ r]) (auto simp: decoded_ok_def)
  have ok: "csr_ok (csrf s)" using st by (simp add: state_ok_def)
  have "case j of
        MULDIV f _ _ _ \<Rightarrow> mdu_result s = mop_value f (ex_rs1 s) (ex_rs2 s)
      | CSR f _ x c \<Rightarrow>
          (case read_csr (csr_rdata (in_mtip i) (csrf s)) (a_m ?a) c of
             None \<Rightarrow> ex_csr_illegal i s
           | Some old \<Rightarrow> csr_rdata (in_mtip i) (csrf s) (ex_csr_raddr i s) = old \<and> ex_csr_illegal i s = (csr_writes f x \<and> read_only_csr c))
      | MRET \<Rightarrow> mepc_q (csrf s) = m_epc (a_m ?a) \<and> unat (mepc_q (csrf s)) mod 4 = 0
      | _ \<Rightarrow> True"
  proof (cases j)
    case (MULDIV f rd r1 r2)
    then have "mdu_op (d_ctrl ?d) = mop_mdu f" unfolding sel by (simp add: ctrl_of_instr_def alu_reg_ctrl_def)
    from mdu_result_value [OF mdu i this nx] MULDIV show ?thesis by simp
  next
    case (CSR f rd x c)
    have cmd: "csr_cmd (d_ctrl ?d) = cop_cmd f" and x: "d_rs1 ?d = x" and c: "csr_addr_of (d_insn ?d) = c"
      unfolding sel CSR by (simp_all add: ctrl_of_instr_def encode_fields csr_addr_of_i)
    note w = csr_write_enable_cop [OF cmd x]
    have src: "csr_source ?d = Some c" using w(2) by (simp add: csr_source_def cmd c)
    have addr: "ex_csr_raddr i s = c" "is_csr ?d" using act w(2) by (simp_all add: ex_csr_raddr_def is_csr_def cmd c)
    have rd: "read_csr (csr_rdata (in_mtip i) (csrf s)) (mstate_of (csrf s)) c =
        (if fst (snd (csr_table (in_mtip i) (csrf s) c)) then Some (csr_rdata (in_mtip i) (csrf s) c) else None)"
      by (rule csr_read [OF ok])
    have ill: "ex_csr_illegal i s \<longleftrightarrow> read_csr (csr_rdata (in_mtip i) (csrf s)) (mstate_of (csrf s)) c = None \<or> csr_writes f x \<and> read_only_csr c"
      using act addr unfolding ex_csr_illegal_def addr(1) cmd csr_access_illegal_iff [OF ok w(2), of c _ "in_mtip i"] by (simp add: w(1))
    have "read_csr (csr_rdata (in_mtip i) (csrf s)) (a_m ?a) c =
        (if fst (snd (csr_table (in_mtip i) (csrf s) c)) then Some (csr_rdata (in_mtip i) (csrf s) c) else None)"
      using read [OF src] rd by simp
    then show ?thesis unfolding CSR addr(1) using rd ill by simp
  next
    case MRET
    have "csr_source ?d = Some CSR_MEPC" unfolding csr_source_def sel MRET by (simp add: ctrl_of_instr_def)
    from read [OF this, of "\<lambda>_. 0"] have "m_epc (a_m ?a) = m_epc (mstate_of (csrf s))"
      by (simp add: read_csr_def volatile_csr_def csr_addr_defs)
    moreover have "unat (mepc_q (csrf s)) mod 4 = 0"
      using ok by (intro aligned_low) (simp add: csr_ok_def)
    ultimately show ?thesis unfolding MRET by (simp add: mstate_of_def)
  qed simp_all
  then show ?thesis unfolding fed_def using rs1 rs2 by blast
qed

section \<open>The packet it makes\<close>

lemma ex_stage_packet:
  "ex_result_valid i s \<Longrightarrow> ex_stage i s = ex_packet (id_ex_q s) (ex_rs1 s) (ex_rs2 s) (mdu_result s)
     (csr_rdata (in_mtip i) (csrf s) (ex_csr_raddr i s)) (ex_csr_illegal i s) (mepc_q (csrf s))"
  by (simp add: ex_stage_def)

lemma execute_ready:
  assumes st: "state_ok a s" and dec: "decoded_ok im a s (id_ex_q s)" and mdu: "mdu_ok s" and e: "e_valid (ex_mem_q s) \<longrightarrow> ready im a (ex_mem_q s)"
    and d: "d_valid (id_ex_q s)" and i: "ex_result_valid i s" and r: "\<not> mem_fails (ex_mem_q s) r"
  shows "ready im (after_mem (ex_mem_q s) r a) (ex_stage i s)"
proof -
  let ?d = "id_ex_q s" and ?a = "after_mem (ex_mem_q s) r a"
  note p = ex_stage_packet [OF i]
  have pc: "a_pc ?a = d_pc ?d" using dec pc1_after [OF r] by (simp add: decoded_ok_def)
  have valid: "e_valid (ex_stage i s)" "e_pc (ex_stage i s) = a_pc ?a" by (simp_all add: p pc)
  have exc: "e_exc (ex_stage i s) = d_exc ?d" if "exc_valid (d_exc ?d)" using that by (simp add: p ex_exc_def)
  consider (fetched) "bare ?d = bare_packet (packet_of (contents im (d_pc ?d)))"
    | (irq) "?d = interrupt_packet (d_pc ?d)" "m_ie (a_m a)" "m_tie (a_m a)" "e_irq_quiet (ex_mem_q s)"
    using dec unfolding decoded_ok_def by blast
  then show ?thesis
  proof cases
    case fetched
    then show ?thesis
    proof (cases rule: origin_cases)
      case fault
      then have "e_exc (ex_stage i s) = exception EXC_INST_ACCESS_FAULT (a_pc ?a)" using exc by (simp add: pc)
      then show ?thesis using valid fault(1) by (simp add: ready_def exception_at_def pc)
    next
      case (illegal w)
      then have "e_exc (ex_stage i s) = exception EXC_ILLEGAL_INSN w" using exc by simp
      then show ?thesis using valid illegal by (simp add: ready_def exception_at_def pc)
    next
      case (legal j)
      note fed = fed_ready [OF st dec mdu e d legal(2) i r]
      have "ex_stage i s = packet_executed j (a_pc ?a) (ex_rs1 s) (ex_rs2 s) (mdu_result s)
          (csr_rdata (in_mtip i) (csrf s) (ex_csr_raddr i s)) (ex_csr_illegal i s) (mepc_q (csrf s))"
        unfolding p packet_executed_def pc legal(2) [symmetric] ex_packet_bare ..
      from executed_shows [OF fed this] fed legal(1) have "instr_ready im ?a (ex_stage i s)"
        unfolding instr_ready_def pc by blast
      then show ?thesis using valid by (simp add: ready_def)
    qed
  next
    case irq
    have x: "exc_valid (d_exc ?d)" "d_exc ?d = interrupt_exc" using irq(1) by (metis interrupt_packet_sel(3,5))+
    have "m_ie (a_m ?a)" "m_tie (a_m ?a)"
      using quiet_enables [OF irq(4)] irq(2,3) r by (auto simp: after_mem_def commit_def mem_fails_def)
    then show ?thesis using valid exc [OF x(1)] x(2) by (simp add: ready_def exception_at_def)
  qed
qed

end
