(* ===== verification/Core_Step.thy ===== *)
theory Core_Step
  imports Core_Execute
begin

text \<open>
  Every clock keeps the invariant of the pipeline: the packet that leaves the memory stage takes the architecture one step, and all
  younger packets are then right for the new state.
\<close>

section \<open>Facts about packets\<close>

lemma ready_effect:
  assumes "ready im a e" "\<not> exc_valid (e_exc e)"
  shows "e_provides e x \<Longrightarrow> e_wb_sel e = WB_LOAD \<Longrightarrow> e_mem_cmd e = MEM_LOAD" "e_is_mret e \<Longrightarrow> taken_transfer e"
    "is_memory e \<Longrightarrow> \<not> taken_transfer e"
proof -
  have "instr_ready im a e" "e_valid e" using assms by (auto simp: ready_def)
  then obtain i rdata illegal mepc where sh: "e_valid e" "shows_effect rdata illegal mepc (encode i) e (outcome i (a_pc a) (operand (source1 i) a) (operand (source2 i) a))"
    by (auto simp: instr_ready_def)
  have "(e_provides e x \<longrightarrow> e_wb_sel e = WB_LOAD \<longrightarrow> e_mem_cmd e = MEM_LOAD) \<and> (e_is_mret e \<longrightarrow> taken_transfer e) \<and>
    (is_memory e \<longrightarrow> \<not> taken_transfer e)"
  proof (cases "outcome i (a_pc a) (operand (source1 i) a) (operand (source2 i) a)")
    case (Next y pc)
    then show ?thesis using sh by (cases y) (auto simp: harmless_def is_memory_def e_provides_def)
  qed (use sh assms(2) in \<open>auto simp: harmless_def e_provides_def taken_transfer_def is_memory_def split: if_splits\<close>)
  then show "e_provides e x \<Longrightarrow> e_wb_sel e = WB_LOAD \<Longrightarrow> e_mem_cmd e = MEM_LOAD" "e_is_mret e \<Longrightarrow> taken_transfer e"
    "is_memory e \<Longrightarrow> \<not> taken_transfer e" by blast+
qed

lemma decoded_exc_ctrl:
  assumes "decoded_ok im a s d" "exc_valid (d_exc d)"
  shows "d_ctrl d = no_ctrl"
proof -
  consider (fetched) "bare d = bare_packet (packet_of (contents im (d_pc d)))" | (irq) "d = interrupt_packet (d_pc d)"
    using assms(1) unfolding decoded_ok_def by blast
  then show ?thesis
  proof cases
    case fetched
    then show ?thesis
    proof (cases rule: origin_cases)
      case (legal j)
      have "d_exc d = exc_of_instr (d_pc d) j" "d_ctrl d = ctrl_of_instr j"
        using packet_of_instr(8,9) [of "d_pc d" j, folded legal(2)] by simp_all
      then show ?thesis using assms(2) by (auto simp: exc_of_instr_def ctrl_of_instr_def split: if_splits)
    qed simp_all
  next
    case irq
    then show ?thesis by (metis interrupt_packet_sel(4))
  qed
qed

lemma commit_regs_0 [simp]: "commit_regs mem_wb_0 rf = rf"
  by (simp add: commit_regs_def regfile_clock_def writes_back_def)

lemma committed_0 [simp]: "committed (commit_in mem_wb_0) m = m"
  by (simp add: committed_def)

lemma empty_packets [simp]: "\<not> d_valid id_ex_0" "\<not> e_valid ex_mem_0" "\<not> f_valid if_id_0" "d_ctrl id_ex_0 = no_ctrl"
  by (simp_all add: id_ex_0_def ex_mem_0_def if_id_0_def)

lemma empty_quiet [simp]: "e_quiet ex_mem_0 c" "w_quiet mem_wb_0 c" "e_irq_quiet ex_mem_0" "\<not> e_provides ex_mem_0 x" "\<not> w_provides mem_wb_0 x"
  "\<not> taken_transfer ex_mem_0"
  by (simp_all add: e_quiet_def w_quiet_def e_irq_quiet_def e_provides_def w_provides_def writes_back_def taken_transfer_def)

section \<open>The state after a clock\<close>

lemma state_next:
  assumes st: "state_ok a s" and t: "regs t = commit_regs (mem_wb_q s) (regs s)" "csrf t = csr_next (commit_in (mem_wb_q s)) (csrf s)"
    and a': "a' = (if w_valid (mem_wb_q t) then commit (mem_wb_q t) a else a)" and w: "w_valid (mem_wb_q t) \<or> mem_wb_q t = mem_wb_0"
  shows "state_ok a' t"
proof -
  have m: "mstate_of (csrf t) = a_m a" unfolding t(2) using st by (subst csr_commit) (auto simp: state_ok_def)
  have ok: "csr_ok (csrf t)" unfolding t(2) using st by (intro csr_next_ok) (simp add: state_ok_def)
  have rg: "a_reg a = regs t" using st t(1) by (simp add: state_ok_def)
  have tv: "m_tvec (mstate_of (csrf t)) = mtvec_q (csrf t)" by (simp add: mstate_of_def)
  show ?thesis
  proof (cases "w_valid (mem_wb_q t)")
    case True
    then show ?thesis using m ok rg tv by (simp add: a' state_ok_def commit_def wb_trap_def)
  next
    case False
    then have "mem_wb_q t = mem_wb_0" using w by blast
    then show ?thesis using False m ok rg by (simp add: a' state_ok_def wb_trap_def)
  qed
qed

section \<open>A packet that waits in the execute stage\<close>

definition value_of :: "ex_mem_t \<Rightarrow> mem_wb_t \<Rightarrow> (reg_addr_t \<Rightarrow> u32) \<Rightarrow> reg_addr_t \<Rightarrow> u32" where
  "value_of e w rf x = (if e_provides e x then ex_mem_fwd_value e else regfile_read (commit_regs w rf) x)"

text \<open>The memory stage holds its packet, or passes it on without a fault.\<close>

definition passes :: "(u32 \<Rightarrow> u32 option) \<Rightarrow> arch \<Rightarrow> core \<Rightarrow> core \<Rightarrow> bool" where
  "passes im a s t \<longleftrightarrow>
     ex_mem_q t = ex_mem_q s \<and> mem_wb_q t = mem_wb_0 \<or>
     ex_mem_q t = ex_mem_0 \<and>
       (if e_valid (ex_mem_q s)
        then ready im a (ex_mem_q s) \<and> (\<exists>r. mem_wb_q t = mem_result (ex_mem_q s) r \<and> \<not> mem_fails (ex_mem_q s) r)
        else mem_wb_q t = mem_wb_0)"

lemma regfile_commit: "regfile_read (commit_regs w rf) x = (if w_provides w x then w_wb_data w else regfile_read rf x)"
  by (auto simp: regfile_read_def commit_regs_def regfile_clock_def w_provides_def writes_back_def)

lemma passes_src:
  assumes p: "passes im a s t" and rf: "regs t = commit_regs (mem_wb_q s) (regs s)" and src: "src_ok (ex_mem_q s) (mem_wb_q s) (regs s) x v"
    and v': "v' = (if w_provides (mem_wb_q s) x then w_wb_data (mem_wb_q s) else v)"
  shows "src_ok (ex_mem_q t) (mem_wb_q t) (regs t) x v'"
    "value_of (ex_mem_q t) (mem_wb_q t) (regs t) x = value_of (ex_mem_q s) (mem_wb_q s) (regs s) x"
proof -
  let ?e = "ex_mem_q s"
  consider (hold) "ex_mem_q t = ?e" "mem_wb_q t = mem_wb_0" | (empty) "\<not> e_valid ?e" "ex_mem_q t = ex_mem_0" "mem_wb_q t = mem_wb_0"
    | (pass) r where "e_valid ?e" "ready im a ?e" "ex_mem_q t = ex_mem_0" "mem_wb_q t = mem_result ?e r" "\<not> mem_fails ?e r"
    using p unfolding passes_def by (auto split: if_splits)
  then have "src_ok (ex_mem_q t) (mem_wb_q t) (regs t) x v' \<and>
    value_of (ex_mem_q t) (mem_wb_q t) (regs t) x = value_of (ex_mem_q s) (mem_wb_q s) (regs s) x"
  proof cases
    case hold
    then show ?thesis using src by (auto simp: src_ok_def value_of_def rf v' regfile_commit)
  next
    case empty
    then have "\<not> e_provides ?e x" by (simp add: e_provides_def)
    then show ?thesis using src empty by (auto simp: src_ok_def value_of_def rf v' regfile_commit)
  next
    case pass
    have nf: "\<not> exc_valid (w_exc (mem_result ?e r))" using pass(1,5) by (simp add: mem_fails_def)
    have pr: "w_provides (mem_result ?e r) x \<longleftrightarrow> e_provides ?e x" by (rule mem_result_provides(1) [OF nf pass(1)])
    have wd: "w_wb_data (mem_result ?e r) = ex_mem_fwd_value ?e" if "e_provides ?e x"
      using mem_result_provides(2) [OF nf pass(1)] ready_load [OF pass(2) that] that src by (auto simp: src_ok_def)
    show ?thesis using src pass(3,4) pr wd by (auto simp: src_ok_def value_of_def rf v' regfile_commit)
  qed
  then show "src_ok (ex_mem_q t) (mem_wb_q t) (regs t) x v'"
    "value_of (ex_mem_q t) (mem_wb_q t) (regs t) x = value_of (ex_mem_q s) (mem_wb_q s) (regs s) x" by blast+
qed

lemma refresh_sel [simp]:
  "bare (refresh_operands s) = bare (id_ex_q s)" "d_valid (refresh_operands s) = d_valid (id_ex_q s)"
  "d_pc (refresh_operands s) = d_pc (id_ex_q s)" "d_ctrl (refresh_operands s) = d_ctrl (id_ex_q s)"
  "d_exc (refresh_operands s) = d_exc (id_ex_q s)" "d_insn (refresh_operands s) = d_insn (id_ex_q s)"
  "d_rs1 (refresh_operands s) = d_rs1 (id_ex_q s)" "d_rs2 (refresh_operands s) = d_rs2 (id_ex_q s)"
  by (simp_all add: refresh_operands_def bare_def Let_def)

lemma wb_reg_write_provides: "wb_reg_write s \<and> x = w_rd (mem_wb_q s) \<longleftrightarrow> w_provides (mem_wb_q s) x"
  by (auto simp: wb_reg_write_def wb_retire_def w_provides_def writes_back_def)

lemma refresh_values:
  assumes "d_valid (id_ex_q s)"
  shows "uses_rs1 (d_ctrl (id_ex_q s)) \<Longrightarrow> d_rs1_value (refresh_operands s) =
      (if w_provides (mem_wb_q s) (d_rs1 (id_ex_q s)) then w_wb_data (mem_wb_q s) else d_rs1_value (id_ex_q s))"
    "uses_rs2 (d_ctrl (id_ex_q s)) \<Longrightarrow> d_rs2_value (refresh_operands s) =
      (if w_provides (mem_wb_q s) (d_rs2 (id_ex_q s)) then w_wb_data (mem_wb_q s) else d_rs2_value (id_ex_q s))"
  using assms by (auto simp: refresh_operands_def Let_def wb_reg_write_provides [symmetric])

lemma refresh_interrupt: "id_ex_q s = interrupt_packet pc \<Longrightarrow> refresh_operands s = interrupt_packet pc"
  by (simp add: refresh_operands_def interrupt_packet_def id_ex_0_def Let_def)

text \<open>The packet keeps its operands, and stays right.\<close>

lemma held_operands:
  assumes p: "passes im a s t" and rf: "regs t = commit_regs (mem_wb_q s) (regs s)" and dec: "decoded_ok im a s (id_ex_q s)"
    and d: "d_valid (id_ex_q s)" "\<not> exc_valid (d_exc (id_ex_q s))" "id_ex_q t = refresh_operands s"
  shows "uses_rs1 (d_ctrl (id_ex_q s)) \<Longrightarrow> ex_rs1 t = ex_rs1 s" "uses_rs2 (d_ctrl (id_ex_q s)) \<Longrightarrow> ex_rs2 t = ex_rs2 s"
proof -
  let ?d = "id_ex_q s"
  assume u: "uses_rs1 (d_ctrl ?d)"
  then have s: "src_ok (ex_mem_q s) (mem_wb_q s) (regs s) (d_rs1 ?d) (d_rs1_value ?d)" using dec by (simp add: decoded_ok_def)
  note h = passes_src [OF p rf s refresh_values(1) [OF d(1) u]]
  have dt: "d_valid (id_ex_q t)" "\<not> exc_valid (d_exc (id_ex_q t))" using d by simp_all
  show "ex_rs1 t = ex_rs1 s"
    using forwarded [OF s d(1,2)] forwarded [OF h(1) dt] h(2) u by (simp add: ex_rs1_def forwarded_rs1_def d(3) value_of_def)
next
  let ?d = "id_ex_q s"
  assume u: "uses_rs2 (d_ctrl ?d)"
  then have s: "src_ok (ex_mem_q s) (mem_wb_q s) (regs s) (d_rs2 ?d) (d_rs2_value ?d)" using dec by (simp add: decoded_ok_def)
  note h = passes_src [OF p rf s refresh_values(2) [OF d(1) u]]
  have dt: "d_valid (id_ex_q t)" "\<not> exc_valid (d_exc (id_ex_q t))" using d by simp_all
  show "ex_rs2 t = ex_rs2 s"
    using forwarded [OF s d(1,2)] forwarded [OF h(1) dt] h(2) u by (simp add: ex_rs2_def forwarded_rs2_def d(3) value_of_def)
qed

text \<open>The architectural state after the memory stage.\<close>

definition state_after :: "arch \<Rightarrow> core \<Rightarrow> arch" where
  "state_after a t = (if w_valid (mem_wb_q t) then commit (mem_wb_q t) a else a)"

lemma passes_state:
  assumes "passes im a s t"
  shows "ex_mem_q t = ex_mem_q s \<and> mem_wb_q t = mem_wb_0 \<and> state_after a t = a \<or>
    ex_mem_q t = ex_mem_0 \<and> (\<exists>r. \<not> mem_fails (ex_mem_q s) r \<and> state_after a t = after_mem (ex_mem_q s) r a \<and>
      mem_wb_q t = (if e_valid (ex_mem_q s) then mem_result (ex_mem_q s) r else mem_wb_0))"
proof -
  consider (hold) "ex_mem_q t = ex_mem_q s" "mem_wb_q t = mem_wb_0" | (empty) "\<not> e_valid (ex_mem_q s)" "ex_mem_q t = ex_mem_0" "mem_wb_q t = mem_wb_0"
    | (pass) r where "e_valid (ex_mem_q s)" "ready im a (ex_mem_q s)" "ex_mem_q t = ex_mem_0" "mem_wb_q t = mem_result (ex_mem_q s) r" "\<not> mem_fails (ex_mem_q s) r"
    using assms unfolding passes_def by (auto split: if_splits)
  then show ?thesis by cases (auto simp: state_after_def after_mem_def mem_fails_def)
qed

lemma passes_pc1: "passes im a s t \<Longrightarrow> pc1 (state_after a t) t = pc1 a s"
  using pc1_after [of s] by (auto simp: pc1_def dest!: passes_state)

lemma held_decoded:
  assumes p: "passes im a s t" and rf: "regs t = commit_regs (mem_wb_q s) (regs s)" and dec: "decoded_ok im a s (id_ex_q s)"
    and d: "d_valid (id_ex_q s)" "id_ex_q t = refresh_operands s"
  shows "decoded_ok im (state_after a t) t (id_ex_q t)"
proof -
  let ?d = "id_ex_q s" and ?a = "state_after a t"
  have pc: "d_pc ?d = pc1 ?a t" using dec passes_pc1 [OF p] by (simp add: decoded_ok_def)
  have src: "uses_rs1 (d_ctrl ?d) \<Longrightarrow> src_ok (ex_mem_q t) (mem_wb_q t) (regs t) (d_rs1 ?d) (d_rs1_value (refresh_operands s))"
    "uses_rs2 (d_ctrl ?d) \<Longrightarrow> src_ok (ex_mem_q t) (mem_wb_q t) (regs t) (d_rs2 ?d) (d_rs2_value (refresh_operands s))"
    using passes_src(1) [OF p rf _ refresh_values(1) [OF d(1)]] passes_src(1) [OF p rf _ refresh_values(2) [OF d(1)]] dec
    by (simp_all add: decoded_ok_def)
  have quiet: "e_quiet (ex_mem_q t) c \<and> w_quiet (mem_wb_q t) c" if "e_quiet (ex_mem_q s) c" for c
    using passes_state [OF p] that quiet_result by (auto simp: mem_fails_def)
  have irq: "m_ie (a_m ?a) \<and> m_tie (a_m ?a) \<and> e_irq_quiet (ex_mem_q t)" if "m_ie (a_m a)" "m_tie (a_m a)" "e_irq_quiet (ex_mem_q s)"
    using passes_state [OF p] that quiet_enables [OF that(3)] by (auto simp: after_mem_def commit_def mem_fails_def)
  have origin: "bare (refresh_operands s) = bare_packet (packet_of (contents im (d_pc ?d))) \<or>
    refresh_operands s = interrupt_packet (d_pc ?d) \<and> m_ie (a_m ?a) \<and> m_tie (a_m ?a) \<and> e_irq_quiet (ex_mem_q t)"
    using dec irq refresh_interrupt [of s] unfolding decoded_ok_def refresh_sel by blast
  have cs: "csr_source (refresh_operands s) = csr_source ?d" by (simp add: csr_source_def)
  show ?thesis
    unfolding decoded_ok_def d(2) refresh_sel cs
    using pc origin src quiet dec by (auto simp: decoded_ok_def split: option.splits)
qed

section \<open>A packet that moves to the memory stage\<close>

text \<open>The packet in the execute stage, if any, moves on, and the memory stage passes its own on without a fault.\<close>

definition moves :: "(u32 \<Rightarrow> u32 option) \<Rightarrow> arch \<Rightarrow> core_in \<Rightarrow> core \<Rightarrow> core \<Rightarrow> bool" where
  "moves im a i s t \<longleftrightarrow>
     ex_mem_q t = ex_stage i s \<and> (d_valid (id_ex_q s) \<longrightarrow> ex_result_valid i s \<and> ex_fire i s) \<and>
     (e_valid (ex_mem_q s) \<longrightarrow> ready im a (ex_mem_q s)) \<and> (d_valid (id_ex_q s) \<longrightarrow> decoded_ok im a s (id_ex_q s)) \<and>
     state_ok a s \<and> mdu_ok s \<and> drained s \<and> regs t = commit_regs (mem_wb_q s) (regs s) \<and>
     (\<exists>r. \<not> mem_fails (ex_mem_q s) r \<and> state_after a t = after_mem (ex_mem_q s) r a \<and>
        mem_wb_q t = (if e_valid (ex_mem_q s) then mem_result (ex_mem_q s) r else mem_wb_0))"

lemma moves_ready:
  assumes "moves im a i s t" "d_valid (id_ex_q s)"
  shows "ready im (state_after a t) (ex_stage i s)"
  using assms execute_ready unfolding moves_def by metis

lemma moves_empty: "\<not> d_valid (id_ex_q s) \<Longrightarrow> ex_stage i s = ex_mem_0"
  by (simp add: ex_stage_def ex_result_valid_def ex_active_def)

lemma moves_pc1:
  assumes m: "moves im a i s t"
  shows "pc1 (state_after a t) t = (if d_valid (id_ex_q s) then next_pc (ex_stage i s) else pc1 a s)"
proof (cases "d_valid (id_ex_q s)")
  case True
  then show ?thesis using m moves_ready [OF m] by (simp add: pc1_def moves_def ready_def)
next
  case False
  then show ?thesis using m moves_empty [OF False, of i] pc1_after [of s] by (auto simp: pc1_def moves_def)
qed

lemma moves_pc2:
  assumes m: "moves im a i s t" and nr: "\<not> redirect_valid (control_redirect i s)"
    and nx: "d_valid (id_ex_q s) \<Longrightarrow> \<not> exc_valid (e_exc (ex_stage i s))"
  shows "pc1 (state_after a t) t = pc2 a s"
proof (cases "d_valid (id_ex_q s)")
  case True
  then have "ex_result_valid i s" "ex_fire i s" using m by (auto simp: moves_def)
  then have "next_pc (ex_stage i s) = e_pc (ex_stage i s) + 4" using nr nx [OF True]
    by (auto simp: next_pc_def control_redirect_def ex_redirect_def split: if_splits)
  moreover have "e_pc (ex_stage i s) = d_pc (id_ex_q s)" using \<open>ex_result_valid i s\<close> by (simp add: ex_stage_packet)
  ultimately show ?thesis using True unfolding moves_pc1 [OF m] by (simp add: pc2_def)
next
  case False
  then show ?thesis unfolding moves_pc1 [OF m] by (simp add: pc2_def)
qed

lemma id_decoded_sel:
  assumes "f_valid (if_id_q s)"
  shows "d_valid (id_decoded s)" "bare (id_decoded s) = bare_packet (if_id_q s)"
    "uses_rs1 (d_ctrl (id_decoded s)) \<Longrightarrow> d_rs1_value (id_decoded s) = regfile_read (commit_regs (mem_wb_q s) (regs s)) (d_rs1 (id_decoded s))"
    "uses_rs2 (d_ctrl (id_decoded s)) \<Longrightarrow> d_rs2_value (id_decoded s) = regfile_read (commit_regs (mem_wb_q s) (regs s)) (d_rs2 (id_decoded s))"
proof -
  show "d_valid (id_decoded s)" using assms by (simp add: id_decoded_def id_stage_def Let_def)
  show "bare (id_decoded s) = bare_packet (if_id_q s)" unfolding id_decoded_def by (rule bare_id_stage [OF assms])
  have w: "wb_reg_write s \<and> w_rd (mem_wb_q s) \<noteq> 0 \<and> w_rd (mem_wb_q s) = x \<longleftrightarrow> w_provides (mem_wb_q s) x" for x
    by (auto simp: wb_reg_write_def wb_retire_def w_provides_def writes_back_def)
  show "uses_rs1 (d_ctrl (id_decoded s)) \<Longrightarrow> d_rs1_value (id_decoded s) = regfile_read (commit_regs (mem_wb_q s) (regs s)) (d_rs1 (id_decoded s))"
    "uses_rs2 (d_ctrl (id_decoded s)) \<Longrightarrow> d_rs2_value (id_decoded s) = regfile_read (commit_regs (mem_wb_q s) (regs s)) (d_rs2 (id_decoded s))"
    using assms unfolding regfile_commit by (auto simp: id_decoded_def id_stage_def id_operand_def w Let_def split: if_splits)
qed

lemma id_ex_d_valid: "d_valid (id_ex_d i s) \<longleftrightarrow> f_valid (if_id_q s)"
  by (auto simp: id_ex_d_def id_interrupt_candidate_def id_decoded_def id_stage_def id_ex_0_def Let_def)

text \<open>Nothing that a packet entering the execute stage reads is changed by the two packets ahead of it.\<close>

lemma moves_quiet:
  assumes m: "moves im a i s t" and nt: "\<not> taken_transfer (ex_mem_q s)" and nr: "\<not> redirect_valid (control_redirect i s)"
    and nx: "d_valid (id_ex_q s) \<Longrightarrow> \<not> exc_valid (e_exc (ex_stage i s))" "e_valid (ex_mem_q s) \<Longrightarrow> \<not> exc_valid (e_exc (ex_mem_q s))"
    and c: "d_valid c" "csr_source c = Some x" "\<not> csr_dep c (id_ex_q s) (ex_mem_q s)"
  shows "e_quiet (ex_mem_q t) x \<and> w_quiet (mem_wb_q t) x"
proof -
  let ?d = "id_ex_q s" and ?e = "ex_mem_q s"
  have counted: "x \<notin> {CSR_MINSTRET, CSR_MINSTRETH}" if "d_valid ?d \<and> \<not> exc_valid (d_exc ?d) \<or> e_valid ?e \<and> \<not> exc_valid (e_exc ?e)"
  proof (cases "csr_cmd (d_ctrl c) = CSR_NONE")
    case True
    then show ?thesis using c(2) by (auto simp: csr_source_def csr_addr_defs split: if_splits)
  next
    case False
    then have "x = csr_addr_of (d_insn c)" using c(2) by (simp add: csr_source_def)
    then show ?thesis using that c(1,3) False by (auto simp: csr_dep_def minstret_dependency_def)
  qed
  have written: "\<not> csr_addresses_conflict x y"
    if "id_ex_csr_writer ?d \<and> y = csr_addr_of (d_insn ?d) \<or> ex_mem_csr_writer ?e \<and> y = e_csr_addr ?e" for y
  proof (cases "csr_cmd (d_ctrl c) = CSR_NONE")
    case True
    then have x: "is_mret (d_ctrl c)" "x = CSR_MEPC" using c(2) by (auto simp: csr_source_def split: if_splits)
    have "y \<noteq> CSR_MEPC" using that c(1,3) x(1) unfolding csr_dep_def mret_dependency_def by auto
    then show ?thesis by (simp add: x(2) csr_addresses_conflict_def csr_addr_defs)
  next
    case False
    then have x: "x = csr_addr_of (d_insn c)" using c(2) by (simp add: csr_source_def)
    show ?thesis using that c(1,3) False unfolding x csr_dep_def csr_dependency_def by auto
  qed
  have eq: "e_quiet ?e x"
  proof (cases "e_valid ?e")
    case True
    have "\<not> e_is_mret ?e" using m True nt nx(2) ready_effect(2) by (auto simp: moves_def)
    then show ?thesis using counted written [of "e_csr_addr ?e"] True nx(2) unfolding e_quiet_def ex_mem_csr_writer_def by blast
  qed (simp add: e_quiet_def)
  have "w_quiet (mem_wb_q t) x"
    using m quiet_result [OF _ _ eq] by (auto simp: moves_def mem_fails_def)
  moreover have "e_quiet (ex_stage i s) x"
  proof (cases "d_valid (id_ex_q s)")
    case True
    have rv: "ex_result_valid i s" "ex_fire i s" using m True by (auto simp: moves_def)
    note p = ex_stage_packet [OF rv(1)]
    have dx: "\<not> exc_valid (d_exc ?d)" using nx(1) [OF True] by (auto simp: p ex_exc_def split: if_splits)
    have "\<not> e_is_mret (ex_stage i s)"
      using nr rv(2) nx(1) [OF True] by (auto simp: p control_redirect_def ex_redirect_def is_control_def control_transfer_def split: if_splits)
    moreover have "id_ex_csr_writer ?d \<and> csr_addr_of (d_insn ?d) = e_csr_addr (ex_stage i s)" if "e_csr_write (ex_stage i s)"
      using that True dx by (auto simp: p id_ex_csr_writer_def csr_command_writes_def csr_write_enable_def is_csr_def split: csr_cmd_e.splits)
    ultimately show ?thesis using counted written [of "e_csr_addr (ex_stage i s)"] True dx unfolding e_quiet_def by metis
  qed (simp add: moves_empty)
  ultimately show ?thesis using m by (simp add: moves_def)
qed

lemma moves_irq:
  assumes m: "moves im a i s t" and c: "id_interrupt_candidate i s"
    and nx: "d_valid (id_ex_q s) \<Longrightarrow> \<not> exc_valid (e_exc (ex_stage i s))" "e_valid (ex_mem_q s) \<Longrightarrow> \<not> exc_valid (e_exc (ex_mem_q s))"
  shows "m_ie (a_m (state_after a t)) \<and> m_tie (a_m (state_after a t)) \<and> e_irq_quiet (ex_mem_q t)"
proof -
  have w: "\<not> irq_state_wait s" "irq_eligible_after_commit (in_mtip i) (commit_in (mem_wb_q s)) (csrf s)"
    using c by (simp_all add: id_interrupt_candidate_def wb_csr_in_commit)
  have am: "a_m a = mstate_of (csr_next (commit_in (mem_wb_q s)) (csrf s))"
    using m by (subst csr_commit) (auto simp: moves_def state_ok_def)
  have a: "m_ie (a_m a)" "m_tie (a_m a)" unfolding am using w(2) by (simp_all add: irq_eligible_after_commit_def mstate_of_def)
  have q: "e_irq_quiet (ex_mem_q s)"
    using w(1) nx(2) by (auto simp: e_irq_quiet_def irq_state_wait_def ex_mem_irq_state_writer_def Let_def)
  have "m_ie (a_m (state_after a t)) \<and> m_tie (a_m (state_after a t))"
    using m a quiet_enables [OF q] by (auto simp: moves_def after_mem_def commit_def mem_fails_def)
  moreover have "e_irq_quiet (ex_stage i s)"
  proof (cases "d_valid (id_ex_q s)")
    case True
    let ?d = "id_ex_q s"
    have rv: "ex_result_valid i s" using m True by (auto simp: moves_def)
    note p = ex_stage_packet [OF rv]
    have dx: "\<not> exc_valid (d_exc ?d)" using nx(1) [OF True] by (auto simp: p ex_exc_def split: if_splits)
    have "\<not> is_mret (d_ctrl ?d)" "\<not> (csr_command_writes (csr_cmd (d_ctrl ?d)) (d_rs1 ?d) \<and> irq_state_addr (csr_addr_of (d_insn ?d)))"
      using w(1) True dx by (auto simp: irq_state_wait_def id_ex_irq_state_writer_def Let_def)
    moreover have "csr_command_writes (csr_cmd (d_ctrl ?d)) (d_rs1 ?d) = csr_write_enable ?d"
      by (simp add: csr_command_writes_def csr_write_enable_def split: csr_cmd_e.split)
    ultimately show ?thesis by (auto simp: e_irq_quiet_def p)
  qed (simp add: moves_empty)
  ultimately show ?thesis using m by (simp add: moves_def)
qed

lemma captured_decoded:
  assumes m: "moves im a i s t" and nt: "\<not> taken_transfer (ex_mem_q s)" and nr: "\<not> redirect_valid (control_redirect i s)"
    and nx: "d_valid (id_ex_q s) \<Longrightarrow> \<not> exc_valid (e_exc (ex_stage i s))" "e_valid (ex_mem_q s) \<Longrightarrow> \<not> exc_valid (e_exc (ex_mem_q s))"
    and f: "f_valid (if_id_q s)" "if_id_q s = packet_of (contents im (pc2 a s))"
    and hz: "exc_valid (d_exc (id_ex_d i s)) \<or> \<not> load_use (id_ex_d i s) (id_ex_q s) \<and> \<not> csr_dep (id_ex_d i s) (id_ex_q s) (ex_mem_q s)"
  shows "decoded_ok im (state_after a t) t (id_ex_d i s)"
proof -
  let ?c = "id_ex_d i s" and ?a = "state_after a t"
  note pc = moves_pc2 [OF m nr nx(1)]
  note sel = id_decoded_sel [OF f(1)]
  have fpc: "f_pc (if_id_q s) = pc2 a s" by (subst f(2)) (simp add: packet_of_def fetched_def)
  have bpc: "d_pc (bare_packet (if_id_q s)) = pc2 a s"
    using f(1) by (simp add: bare_packet_def id_stage_def Let_def fpc)
  then have dpc: "d_pc (id_decoded s) = pc2 a s" by (metis bare_sel(2) sel(2))
  show ?thesis
  proof (cases "id_interrupt_candidate i s")
    case True
    then have "?c = interrupt_packet (pc2 a s)" by (simp add: id_ex_d_def dpc interrupt_packet_def)
    then show ?thesis using moves_irq [OF m True nx] pc by (simp add: decoded_ok_def csr_source_def)
  next
    case False
    then have c: "?c = id_decoded s" by (simp add: id_ex_d_def)
    have v: "d_valid ?c" using sel(1) by (simp add: c)
    have b: "bare ?c = bare_packet (packet_of (contents im (pc2 a s)))" unfolding c sel(2) using f(2) by simp
    show ?thesis
    proof (cases "exc_valid (d_exc ?c)")
      case True
      have "d_ctrl ?c = no_ctrl"
        using b
      proof (cases rule: origin_cases)
        case (legal j)
        have "d_exc ?c = exc_of_instr (pc2 a s) j" "d_ctrl ?c = ctrl_of_instr j"
          using packet_of_instr(8,9) [of "pc2 a s" j, folded legal(2)] by simp_all
        then show ?thesis using True by (auto simp: exc_of_instr_def ctrl_of_instr_def split: if_splits)
      qed simp_all
      then show ?thesis using b dpc pc by (simp add: decoded_ok_def csr_source_def c)
    next
      case fine: False
      have ld: "e_wb_sel (ex_mem_q t) \<noteq> WB_LOAD"
        if "e_provides (ex_mem_q t) x" "uses_rs1 (d_ctrl ?c) \<and> x = d_rs1 ?c \<or> uses_rs2 (d_ctrl ?c) \<and> x = d_rs2 ?c" for x
      proof
        assume l: "e_wb_sel (ex_mem_q t) = WB_LOAD"
        have et: "ex_mem_q t = ex_stage i s" using m by (simp add: moves_def)
        have dv: "d_valid (id_ex_q s)" using that(1) moves_empty [of s i] by (cases "d_valid (id_ex_q s)") (auto simp: et)
        have rv: "ex_result_valid i s" using m dv by (simp add: moves_def)
        note p = ex_stage_packet [OF rv]
        have "e_mem_cmd (ex_stage i s) = MEM_LOAD"
          using ready_effect(1) [OF moves_ready [OF m dv] nx(1) [OF dv]] that(1) l by (simp add: et)
        then have "load_use ?c (id_ex_q s)"
          using that v dv nx(1) [OF dv] unfolding et
          by (auto simp: load_use_def raw_match_def e_provides_def p ex_exc_def Let_def split: if_splits)
        then show False using hz fine by simp
      qed
      have regs: "regs t = commit_regs (mem_wb_q s) (regs s)" using m by (simp add: moves_def)
      have "src_ok (ex_mem_q t) (mem_wb_q t) (regs t) (d_rs1 ?c) (d_rs1_value ?c)" if "uses_rs1 (d_ctrl ?c)"
        using ld [of "d_rs1 ?c"] that sel(3) by (auto simp: src_ok_def regs c)
      moreover have "src_ok (ex_mem_q t) (mem_wb_q t) (regs t) (d_rs2 ?c) (d_rs2_value ?c)" if "uses_rs2 (d_ctrl ?c)"
        using ld [of "d_rs2 ?c"] that sel(4) by (auto simp: src_ok_def regs c)
      moreover have "e_quiet (ex_mem_q t) x \<and> w_quiet (mem_wb_q t) x" if "csr_source ?c = Some x" for x
        using hz fine by (intro moves_quiet [OF m nt nr nx v that]) simp_all
      ultimately show ?thesis using b dpc pc by (auto simp: decoded_ok_def c split: option.split)
    qed
  qed
qed

section \<open>Multiplier and divider\<close>

lemma mdu_inputs_sel:
  "\<not> in_reset i \<Longrightarrow> undisturbed (mul_inputs i s) \<longleftrightarrow> \<not> ex_kill i s" "\<not> in_reset i \<Longrightarrow> undisturbed (div_inputs i s) \<longleftrightarrow> \<not> ex_kill i s"
  "in_kill (mul_inputs i s) = ex_kill i s" "in_kill (div_inputs i s) = ex_kill i s"
  "in_rsp_ready (mul_inputs i s) \<longleftrightarrow> ex_active i s \<and> is_mul (id_ex_q s) \<and> ex_result_ready i s"
  "in_rsp_ready (div_inputs i s) \<longleftrightarrow> ex_active i s \<and> is_div (id_ex_q s) \<and> ex_result_ready i s"
  "in_req_valid (mul_inputs i s) \<longleftrightarrow> ex_active i s \<and> is_mul (id_ex_q s) \<and> ex_result_ready i s \<and> mul_req_ready (ex_kill i s) (mul s)"
  "in_req_valid (div_inputs i s) \<longleftrightarrow> ex_active i s \<and> is_div (id_ex_q s) \<and> ex_result_ready i s \<and> div_req_ready (ex_kill i s) (divu s)"
  "in_op (mul_inputs i s) = mdu_op (d_ctrl (id_ex_q s))" "in_op (div_inputs i s) = mdu_op (d_ctrl (id_ex_q s))"
  "in_lhs (mul_inputs i s) = ex_rs1 s" "in_rhs (mul_inputs i s) = ex_rs2 s" "in_lhs (div_inputs i s) = ex_rs1 s" "in_rhs (div_inputs i s) = ex_rs2 s"
  by (auto simp: mul_inputs_def div_inputs_def mdu_inputs_def undisturbed_def Let_def)

lemma mdu_uses:
  assumes dec: "decoded_ok im a s d" and op: "mdu_op (d_ctrl d) = mop_mdu f"
  shows "uses_rs1 (d_ctrl d)" "uses_rs2 (d_ctrl d)" "\<not> exc_valid (d_exc d)"
proof -
  have "mdu_op no_ctrl \<noteq> mop_mdu f" by (cases f) simp_all
  then have x: "\<not> exc_valid (d_exc d)" using decoded_exc_ctrl [OF dec] op by auto
  have "bare d = bare_packet (packet_of (contents im (d_pc d)))"
    using dec x unfolding decoded_ok_def by (metis interrupt_packet_sel(3,5))
  then have "uses_rs1 (d_ctrl d) \<and> uses_rs2 (d_ctrl d)"
  proof (cases rule: origin_cases)
    case (legal j)
    have "d_ctrl d = ctrl_of_instr j" using packet_of_instr(8) [of "d_pc d" j, folded legal(2)] by simp
    then show ?thesis using op \<open>mdu_op no_ctrl \<noteq> mop_mdu f\<close>
      by (cases j) (auto simp: ctrl_of_instr_def alu_imm_ctrl_def alu_reg_ctrl_def)
  qed (use x in simp_all)
  then show "uses_rs1 (d_ctrl d)" "uses_rs2 (d_ctrl d)" "\<not> exc_valid (d_exc d)" using x by blast+
qed

lemma ex_mop: "(\<exists>f. P f) \<longleftrightarrow> P Mul \<or> P Mulh \<or> P Mulhsu \<or> P Mulhu \<or> P Div \<or> P Divu \<or> P Rem \<or> P Remu"
  by (metis mop.exhaust)

text \<open>A packet that is neither passed on nor killed in a clock stays where it is.\<close>

lemma mdu_next:
  assumes ok: "mdu_ok s" and i: "\<not> in_reset i" and dec: "d_valid (id_ex_q s) \<Longrightarrow> decoded_ok im a s (id_ex_q s)"
    and t: "mul t = mul_clock (mul_inputs i s) (mul s)" "divu t = div_clock (div_inputs i s) (divu s)"
    and held: "d_valid (id_ex_q s) \<Longrightarrow> \<not> ex_kill i s \<Longrightarrow> \<not> ex_fire i s \<Longrightarrow>
      passes im a s t \<and> regs t = commit_regs (mem_wb_q s) (regs s) \<and> id_ex_q t = refresh_operands s"
  shows "mdu_ok t"
proof -
  let ?d = "id_ex_q s"
  have hold: "d_valid (id_ex_q t) \<and> \<not> exc_valid (d_exc (id_ex_q t)) \<and> mdu_op (d_ctrl (id_ex_q t)) = mop_mdu f \<and> ex_rs1 t = ex_rs1 s \<and> ex_rs2 t = ex_rs2 s"
    if d: "d_valid ?d" "mdu_op (d_ctrl ?d) = mop_mdu f" "\<not> ex_kill i s" "\<not> ex_fire i s" for f
  proof -
    note h = held [OF d(1,3,4)] and u = mdu_uses [OF dec [OF d(1)] d(2)]
    show ?thesis using held_operands [OF conjunct1 [OF h] _ dec [OF d(1)] d(1) u(3)] h u d by simp
  qed
  have active: "ex_active i s \<longleftrightarrow> d_valid ?d \<and> \<not> ex_kill i s" using i by (simp add: ex_active_def)
  have op: "\<exists>f. mdu_op (d_ctrl ?d) = mop_mdu f \<and> (is_mul ?d \<longleftrightarrow> f \<in> mul_ops) \<and> (is_div ?d \<longleftrightarrow> f \<in> div_ops)"
    if "mdu_op (d_ctrl ?d) \<noteq> MDU_NONE"
    using that by (cases "mdu_op (d_ctrl ?d)") (simp_all add: is_mul_def is_div_def mul_ops_def div_ops_def ex_mop)
  show ?thesis
  proof (cases "mdu_op (d_ctrl ?d) = MDU_NONE")
    case True
    then have none: "mdu_op (d_ctrl ?d) \<noteq> mop_mdu f" for f by (cases f) simp_all
    have "mul_state (mul s) = MUL_IDLE" "div_state (divu s) = DIV_IDLE" using ok none by (auto simp: mdu_ok_def)
    moreover have "\<not> in_req_valid (mul_inputs i s)" "\<not> in_req_valid (div_inputs i s)"
      using True by (simp_all add: mdu_inputs_sel is_mul_def is_div_def)
    ultimately show ?thesis unfolding mdu_ok_def t using mulu.rest divi.rest by blast
  next
    case False
    from op [OF this] obtain f where f: "mdu_op (d_ctrl ?d) = mop_mdu f" "is_mul ?d \<longleftrightarrow> f \<in> mul_ops" "is_div ?d \<longleftrightarrow> f \<in> div_ops" by blast
    have busy: "d_valid ?d \<and> f \<in> mul_ops \<and> mul_at f (ex_rs1 s) (ex_rs2 s) (mul s)" if "mul_state (mul s) \<noteq> MUL_IDLE"
      using ok that f(1) by (auto simp: mdu_ok_def mop_mdu_inj)
    have busy': "d_valid ?d \<and> f \<in> div_ops \<and> div_at f (ex_rs1 s) (ex_rs2 s) (divu s)" if "div_state (divu s) \<noteq> DIV_IDLE"
      using ok that f(1) by (auto simp: mdu_ok_def mop_mdu_inj)
    have und: "undisturbed (mul_inputs i s) \<or> in_kill (mul_inputs i s)" "undisturbed (div_inputs i s) \<or> in_kill (div_inputs i s)"
      using i by (simp_all add: mdu_inputs_sel)
    have req: "in_req_valid (mul_inputs i s) \<Longrightarrow> request_of (mul_inputs i s) (mop_mdu f) (ex_rs1 s) (ex_rs2 s) \<and> f \<in> mul_ops \<and> d_valid ?d"
      "in_req_valid (div_inputs i s) \<Longrightarrow> request_of (div_inputs i s) (mop_mdu f) (ex_rs1 s) (ex_rs2 s) \<and> f \<in> div_ops \<and> d_valid ?d"
      using f by (auto simp add: mdu_inputs_sel request_of_def active)
    have mul: "mul_state (mul t) = MUL_IDLE \<or> mul_at f (ex_rs1 s) (ex_rs2 s) (mul t) \<and> \<not> ex_kill i s \<and> d_valid ?d \<and> f \<in> mul_ops \<and>
        \<not> (mul_state (mul s) = MUL_RESP \<and> in_rsp_ready (mul_inputs i s))"
      using mulu.after_clock [OF und(1), where f = f and a = "ex_rs1 s" and b = "ex_rs2 s" and u = "mul s"] busy req(1)
      unfolding t mdu_inputs_sel(3) by blast
    have div: "div_state (divu t) = DIV_IDLE \<or> div_at f (ex_rs1 s) (ex_rs2 s) (divu t) \<and> \<not> ex_kill i s \<and> d_valid ?d \<and> f \<in> div_ops \<and>
        \<not> (div_state (divu s) = DIV_RESP \<and> in_rsp_ready (div_inputs i s))"
      using divi.after_clock [OF und(2), where f = f and a = "ex_rs1 s" and b = "ex_rs2 s" and u = "divu s"] busy' req(2)
      unfolding t mdu_inputs_sel(4) by blast
    have "\<not> ex_fire i s" if "d_valid ?d" "\<not> ex_kill i s"
      "f \<in> mul_ops \<and> \<not> (mul_state (mul s) = MUL_RESP \<and> in_rsp_ready (mul_inputs i s)) \<or>
       f \<in> div_ops \<and> \<not> (div_state (divu s) = DIV_RESP \<and> in_rsp_ready (div_inputs i s))"
      using that mdu_uses(3) [OF dec [OF that(1)] f(1)] f(2,3) mop_mdu_units(4) [of f]
      by (auto simp: ex_fire_def ex_result_valid_def is_mdu_def mdu_rsp_valid_def mul_rsp_valid_def div_rsp_valid_def mdu_inputs_sel active)
    then show ?thesis using mul div hold [OF _ f(1)] unfolding mdu_ok_def by metis
  qed
qed

section \<open>The invariant after a clock\<close>

lemma fetch_inputs_sel:
  assumes "\<not> in_reset i"
  shows "if_flush (fetch_inputs i s) \<longleftrightarrow> act i s \<in> {ACTION_WB_TRAP, ACTION_MEM_EXCEPTION, ACTION_EX_EXCEPTION, ACTION_EX_REDIRECT,
       ACTION_ID_EXCEPTION, ACTION_ID_INTERRUPT}"
    "if_consume (fetch_inputs i s) \<longleftrightarrow> act i s = ACTION_ADVANCE"
    "if_redirect (fetch_inputs i s) \<longleftrightarrow> act i s \<in> {ACTION_WB_TRAP, ACTION_EX_REDIRECT}"
    "act i s = ACTION_WB_TRAP \<Longrightarrow> if_redirect_pc (fetch_inputs i s) = word_aligned (mtvec_q (csrf s))"
    "act i s = ACTION_EX_REDIRECT \<Longrightarrow> if_redirect_pc (fetch_inputs i s) = redirect_target (control_redirect i s)"
proof -
  note c = control_of [OF assms, of s]
  show "if_flush (fetch_inputs i s) \<longleftrightarrow> act i s \<in> {ACTION_WB_TRAP, ACTION_MEM_EXCEPTION, ACTION_EX_EXCEPTION, ACTION_EX_REDIRECT,
       ACTION_ID_EXCEPTION, ACTION_ID_INTERRUPT}"
    "if_redirect (fetch_inputs i s) \<longleftrightarrow> act i s \<in> {ACTION_WB_TRAP, ACTION_EX_REDIRECT}"
    "act i s = ACTION_WB_TRAP \<Longrightarrow> if_redirect_pc (fetch_inputs i s) = word_aligned (mtvec_q (csrf s))"
    "act i s = ACTION_EX_REDIRECT \<Longrightarrow> if_redirect_pc (fetch_inputs i s) = redirect_target (control_redirect i s)"
    by (simp_all add: fetch_inputs_def Let_def c)
  show "if_consume (fetch_inputs i s) \<longleftrightarrow> act i s = ACTION_ADVANCE"
    using act_not_reset [OF assms, of s] by (cases "act i s") (simp_all add: fetch_inputs_def Let_def c)
qed

text \<open>The conditions of an action that lets the packet in the execute stage move on.\<close>

lemma smooth:
  assumes "\<not> in_reset i" "\<not> wb_trap s" "\<not> mem_exception i s" "\<not> mem_wait i s"
  shows "ex_fire i s \<longleftrightarrow> ex_result_valid i s" "ex_wait i s \<longleftrightarrow> d_valid (id_ex_q s) \<and> \<not> ex_result_valid i s"
    "\<not> ex_kill i s" "ex_exception i s \<longleftrightarrow> ex_result_valid i s \<and> exc_valid (e_exc (ex_stage i s)) \<and> \<not> exc_valid (d_exc (id_ex_q s))"
  using assms by (auto simp: ex_fire_def ex_result_ready_def ex_wait_def ex_active_def ex_kill_def ex_exception_def ex_result_valid_def)

definition lsu_next_ok :: "request option \<Rightarrow> core_in \<Rightarrow> core \<Rightarrow> core \<Rightarrow> bool" where
  "lsu_next_ok dw i s t \<longleftrightarrow> lsu_ok (waiting_next dw (data_driven i s) (dmem i)) (lsu_inputs t False) (lsu_s t)"

lemma lsu_idle_ok: "lsu_state l = LSU_IDLE \<Longrightarrow> lsu_ok None j l"
  by (simp add: lsu_ok_def)

definition fetch_next_ok :: "(u32 \<Rightarrow> u32 option) \<Rightarrow> u32 option \<Rightarrow> core_in \<Rightarrow> core \<Rightarrow> core \<Rightarrow> bool" where
  "fetch_next_ok im fw i s t \<longleftrightarrow> fetch_ok im (waiting_next fw (core_fetch_request i s) (imem i)) (fetch t)"

lemma fetch_next_ok:
  assumes "fetch_ok im fw (fetch s)" "\<not> in_reset i" "answered im fw (core_fetch_request i s) (imem i)"
  shows "fetch_next_ok im fw i s (core_clock rv tv i s)"
  using fetch_ok_next [of im fw "fetch s" "fetch_inputs i s" "imem i" rv] assms
  by (simp add: fetch_next_ok_def core_clock_next(11) core_fetch_request_def)

text \<open>A trap is taken: everything younger has gone, and fetching starts at the trap vector.\<close>

lemma step_trap:
  assumes ok: "pipe_ok im fw dw a s" and i: "\<not> in_reset i" and w: "wb_trap s" and ans: "answered im fw (core_fetch_request i s) (imem i)"
  shows "completed dw (data_driven i s) (dmem i) = None \<and>
    pipe_ok im (waiting_next fw (core_fetch_request i s) (imem i)) (waiting_next dw (data_driven i s) (dmem i)) a (core_clock rv tv i s)"
proof -
  let ?t = "core_clock rv tv i s"
  have act: "act i s = ACTION_WB_TRAP" using i w by (simp add: act_eq)
  note t = core_clock_next [OF i, of rv tv s, unfolded act, simplified]
  have st: "state_ok a s" and e: "\<not> e_valid (ex_mem_q s)" and d: "\<not> d_valid (id_ex_q s)" and fk: "fetch_ok im fw (fetch s)"
    and lk: "lsu_ok dw (lsu_inputs s False) (lsu_s s)" and mk: "mdu_ok s"
    using ok w by (auto simp: pipe_ok_def drained_def)
  note m = mem_rests [OF lk i e]
  have "state_ok a ?t" by (rule state_next [OF st t(6,7)]) (simp_all add: t)
  moreover have "fetch_at (a_pc a) (fetch ?t)"
  proof -
    have "mtvec_q (csrf s) = a_pc a" "mtvec_q (csrf s) AND 3 = 0" using st w by (auto simp: state_ok_def csr_ok_def)
    then have "if_redirect_pc (fetch_inputs i s) = a_pc a" using fetch_inputs_sel(4) [OF i act] aligned_low(2) by simp
    moreover have "if_redirect (fetch_inputs i s)" using fetch_inputs_sel(3) [OF i] act by simp
    ultimately show ?thesis using fetch_at_redirect [OF fk] unfolding t(11) by metis
  qed
  moreover have "mdu_ok ?t" using d by (intro mdu_next [OF mk i _ t(8,9)]) simp_all
  moreover have "lsu_ok (waiting_next dw (data_driven i s) (dmem i)) (lsu_inputs ?t False) (lsu_s ?t)"
    using m by (simp add: t(10) lsu_idle_ok)
  ultimately show ?thesis
    using m fetch_next_ok [OF fk i ans, of rv tv]
    by (simp add: pipe_ok_def fetch_next_ok_def drained_def wb_trap_def t(1-5) pc1_def pc2_def pc3_def)
qed

text \<open>The bus has not answered: the memory stage and what is behind it wait.\<close>

lemma step_wait:
  assumes ok: "pipe_ok im fw dw a s" and i: "\<not> in_reset i" and w: "\<not> wb_trap s" "mem_wait i s"
    and ans: "answered im fw (core_fetch_request i s) (imem i)"
  shows "completed dw (data_driven i s) (dmem i) = None \<and>
    pipe_ok im (waiting_next fw (core_fetch_request i s) (imem i)) (waiting_next dw (data_driven i s) (dmem i)) a (core_clock rv tv i s)"
proof -
  let ?t = "core_clock rv tv i s"
  have me: "\<not> mem_exception i s" using w(2) by (auto simp: mem_wait_def mem_exception_def)
  have act: "act i s = ACTION_MEM_WAIT" using i w me by (simp add: act_eq)
  note t = core_clock_next [OF i, of rv tv s, unfolded act, simplified]
  have st: "state_ok a s" and fk: "fetch_ok im fw (fetch s)" and lk: "lsu_ok dw (lsu_inputs s False) (lsu_s s)" and mk: "mdu_ok s"
    and dec: "d_valid (id_ex_q s) \<Longrightarrow> decoded_ok im a s (id_ex_q s)"
    using ok by (auto simp: pipe_ok_def)
  note m = mem_waits [OF lk w(1) i w(2)]
  have p: "passes im a s ?t" by (simp add: passes_def t(1,2))
  have sa: "state_after a ?t = a" by (simp add: state_after_def t(1))
  have "state_ok a ?t" by (rule state_next [OF st t(6,7)]) (simp_all add: t(1))
  moreover have "d_valid (id_ex_q ?t) \<longrightarrow> decoded_ok im a ?t (id_ex_q ?t)"
    using held_decoded [OF p t(6) dec] t(3) sa by simp
  moreover have "mdu_ok ?t" by (intro mdu_next [OF mk i dec t(8,9)]) (simp_all add: p t(3,6))
  moreover have "lsu_inputs ?t False = lsu_inputs s False"
    using w(1) by (simp add: lsu_inputs_def mem_is_memory_def wb_trap_def t(1,2) Let_def)
  moreover have pcs: "pc1 a ?t = pc1 a s" "pc2 a ?t = pc2 a s" "pc3 a ?t = pc3 a s"
    by (simp_all add: pc1_def pc2_def pc3_def t(2-4))
  moreover have "fetch_at (pc3 a s) (fetch ?t)" if "fetch_at (pc3 a s) (fetch s)"
    using fetch_at_next [OF fk that, of "fetch_inputs i s" "imem i" rv] fetch_inputs_sel(1-3) [OF i, of s] act by (simp add: t(11))
  ultimately show ?thesis
    using m fetch_next_ok [OF fk i ans, of rv tv] ok
    by (auto simp: pipe_ok_def fetch_next_ok_def drained_def wb_trap_def t(1-5) t(10) w(1))
qed

text \<open>Otherwise the packet in the memory stage, if any, is done.\<close>

definition mem_progress :: "request option \<Rightarrow> core_in \<Rightarrow> core \<Rightarrow> response \<Rightarrow> bool" where
  "mem_progress dw i s r \<longleftrightarrow>
     mem_stage i s = (if e_valid (ex_mem_q s) then mem_result (ex_mem_q s) r else mem_wb_0) \<and>
     completed dw (data_driven i s) (dmem i) = (if e_valid (ex_mem_q s) then label (ex_mem_q s) r else None) \<and>
     (mem_exception i s \<longleftrightarrow> is_memory (ex_mem_q s) \<and> mem_fails (ex_mem_q s) r) \<and>
     waiting_next dw (data_driven i s) (dmem i) = None \<and> lsu_state (lsu_clock False (lsu_inputs s True) (dmem i) (lsu_s s)) = LSU_IDLE"

lemma mem_progress:
  assumes "lsu_ok dw (lsu_inputs s False) (lsu_s s)" "\<not> wb_trap s" "\<not> in_reset i" "\<not> mem_wait i s"
  obtains r where "mem_progress dw i s r"
proof (cases "e_valid (ex_mem_q s)")
  case True
  from mem_done [OF assms(1-3) True assms(4)] True show thesis
    by (auto simp: mem_progress_def mem_fails_def intro: that)
next
  case False
  from mem_rests [OF assms(1,3) False] False show thesis
    by (intro that [of undefined]) (simp add: mem_progress_def mem_fails_def)
qed

lemma progress_state:
  fixes rv tv
  assumes st: "state_ok a s" and i: "\<not> in_reset i" and nw: "\<not> wb_trap s" "\<not> mem_wait i s" and r: "mem_progress dw i s r"
  defines "t \<equiv> core_clock rv tv i s"
  shows "mem_wb_q t = (if e_valid (ex_mem_q s) then mem_result (ex_mem_q s) r else mem_wb_0)"
    "state_after a t = after_mem (ex_mem_q s) r a" "state_ok (state_after a t) t"
    "lsu_ok (waiting_next dw (data_driven i s) (dmem i)) (lsu_inputs t False) (lsu_s t)"
proof -
  note t = core_clock_next [OF i, of rv tv s, folded t_def]
  have act: "act i s \<noteq> ACTION_WB_TRAP" "act i s \<noteq> ACTION_MEM_WAIT" using nw by (auto simp: act_eq [OF i])
  show w: "mem_wb_q t = (if e_valid (ex_mem_q s) then mem_result (ex_mem_q s) r else mem_wb_0)"
    using r act by (simp add: t(1) mem_progress_def)
  then show "state_after a t = after_mem (ex_mem_q s) r a" by (simp add: state_after_def after_mem_def)
  show "state_ok (state_after a t) t" by (rule state_next [OF st t(6,7)]) (simp_all add: state_after_def w)
  show "lsu_ok (waiting_next dw (data_driven i s) (dmem i)) (lsu_inputs t False) (lsu_s t)"
    using r act nw by (simp add: t(10) mem_progress_def lsu_idle_ok)
qed

text \<open>An exception reaches write-back.\<close>

lemma step_fault:
  assumes ok: "pipe_ok im fw dw a s" and i: "\<not> in_reset i" and nw: "\<not> wb_trap s" "\<not> mem_wait i s" and r: "mem_progress dw i s r"
    and bad: "mem_fails (ex_mem_q s) r" and ans: "answered im fw (core_fetch_request i s) (imem i)"
  shows "pipe_ok im (waiting_next fw (core_fetch_request i s) (imem i)) (waiting_next dw (data_driven i s) (dmem i))
    (after_mem (ex_mem_q s) r a) (core_clock rv tv i s)"
proof -
  let ?t = "core_clock rv tv i s"
  have st: "state_ok a s" and fk: "fetch_ok im fw (fetch s)" and mk: "mdu_ok s" and dr: "drained s"
    using ok by (auto simp: pipe_ok_def)
  note p = progress_state [OF st i nw r, of rv tv] and t = core_clock_next [OF i, of rv tv s]
  have ev: "e_valid (ex_mem_q s)" using bad by (simp add: mem_fails_def)
  have empty: "\<not> e_valid (ex_mem_q ?t) \<and> \<not> d_valid (id_ex_q ?t) \<and> \<not> f_valid (if_id_q ?t) \<and> trap_drain_q ?t \<and>
      (ex_kill i s \<or> \<not> d_valid (id_ex_q s))"
  proof (cases "mem_exception i s")
    case True
    then have "act i s = ACTION_MEM_EXCEPTION" using nw by (simp add: act_eq [OF i])
    then show ?thesis using True by (simp add: t ex_kill_def)
  next
    case False
    then have "\<not> is_memory (ex_mem_q s)" using r bad by (simp add: mem_progress_def)
    then have "exc_valid (e_exc (ex_mem_q s))" using bad by (simp add: mem_fails_def mem_result_def)
    then have d: "\<not> d_valid (id_ex_q s)" "trap_drain_q s" "\<not> f_valid (if_id_q s)" using dr ev by (auto simp: drained_def)
    note sm = smooth [OF i nw(1) False nw(2)]
    have "\<not> ex_result_valid i s" using d by (simp add: ex_result_valid_def ex_active_def)
    then have "act i s = ACTION_TRAP_DRAIN" using nw False d sm by (simp add: act_eq [OF i])
    then show ?thesis using d moves_empty [OF d(1), of i] id_ex_d_valid [of i s] by (simp add: t)
  qed
  have "mdu_ok ?t" using empty by (intro mdu_next [OF mk i _ t(8,9)]) (use ok in \<open>auto simp: pipe_ok_def\<close>)
  then show ?thesis
    using empty p fetch_next_ok [OF fk i ans, of rv tv]
    by (simp add: pipe_ok_def fetch_next_ok_def drained_def taken_transfer_def)
qed

text \<open>The packet in the execute stage has no result yet.\<close>

lemma step_hold:
  assumes ok: "pipe_ok im fw dw a s" and i: "\<not> in_reset i" and nw: "\<not> wb_trap s" "\<not> mem_wait i s" and r: "mem_progress dw i s r"
    and good: "\<not> mem_fails (ex_mem_q s) r" and d: "d_valid (id_ex_q s)" "\<not> ex_result_valid i s"
    and ans: "answered im fw (core_fetch_request i s) (imem i)"
  shows "pipe_ok im (waiting_next fw (core_fetch_request i s) (imem i)) (waiting_next dw (data_driven i s) (dmem i))
    (after_mem (ex_mem_q s) r a) (core_clock rv tv i s)"
proof -
  let ?t = "core_clock rv tv i s"
  have st: "state_ok a s" and fk: "fetch_ok im fw (fetch s)" and mk: "mdu_ok s" and dr: "drained s" and dec: "decoded_ok im a s (id_ex_q s)"
    and rdy: "e_valid (ex_mem_q s) \<Longrightarrow> ready im a (ex_mem_q s)"
    using ok d by (auto simp: pipe_ok_def)
  have me: "\<not> mem_exception i s" using r good by (simp add: mem_progress_def)
  note sm = smooth [OF i nw(1) me nw(2)] and p = progress_state [OF st i nw r, of rv tv]
  have act: "act i s = ACTION_EX_WAIT" using nw me sm d by (simp add: act_eq [OF i])
  note t = core_clock_next [OF i, of rv tv s, unfolded act, simplified]
  have ps: "passes im a s ?t" using p(1) good rdy by (auto simp: passes_def t(2))
  note dec' = held_decoded [OF ps t(6) dec d(1) t(3), unfolded t(3)]
  have "pc2 (state_after a ?t) ?t = pc2 a s" using d(1) by (simp add: pc2_def t(3))
  moreover have "pc3 (state_after a ?t) ?t = pc3 a s" using calculation by (simp add: pc3_def t(4))
  moreover have "mdu_ok ?t" by (intro mdu_next [OF mk i dec t(8,9)]) (simp_all add: ps t(3,6))
  moreover have "fetch_at (pc3 a s) (fetch ?t)" if "fetch_at (pc3 a s) (fetch s)"
    using fetch_at_next [OF fk that, of "fetch_inputs i s" "imem i" rv] fetch_inputs_sel(1-3) [OF i, of s] act by (simp add: t(11))
  moreover have "\<not> wb_trap ?t" using p(1) good by (auto simp: wb_trap_def mem_fails_def)
  ultimately show ?thesis
    using p dec' fetch_next_ok [OF fk i ans, of rv tv] ok
    by (auto simp: pipe_ok_def fetch_next_ok_def drained_def t(2-5))
qed

text \<open>The packet in the execute stage moves on.\<close>

lemma redirect_iff:
  assumes "d_valid (id_ex_q s) \<longrightarrow> ex_result_valid i s \<and> ex_fire i s"
  shows "redirect_valid (control_redirect i s) \<longleftrightarrow> taken_transfer (ex_stage i s)"
    "taken_transfer (ex_stage i s) \<Longrightarrow> d_valid (id_ex_q s) \<and> redirect_target (control_redirect i s) = next_pc (ex_stage i s)"
proof -
  have "redirect_valid (control_redirect i s) = taken_transfer (ex_stage i s) \<and> (taken_transfer (ex_stage i s) \<longrightarrow>
      d_valid (id_ex_q s) \<and> redirect_target (control_redirect i s) = next_pc (ex_stage i s))"
  proof (cases "d_valid (id_ex_q s)")
    case True
    then have "e_valid (ex_stage i s)" "ex_fire i s" using assms by (simp_all add: ex_stage_packet)
    then show ?thesis using True
      by (auto simp: control_redirect_def ex_redirect_def taken_transfer_def next_pc_def no_redirect_def)
  next
    case False
    have "\<not> e_control ex_mem_0" by (simp add: ex_mem_0_def)
    then show ?thesis using False moves_empty [OF False, of i]
      by (simp add: control_redirect_def ex_redirect_def no_redirect_def)
  qed
  then show "redirect_valid (control_redirect i s) \<longleftrightarrow> taken_transfer (ex_stage i s)"
    "taken_transfer (ex_stage i s) \<Longrightarrow> d_valid (id_ex_q s) \<and> redirect_target (control_redirect i s) = next_pc (ex_stage i s)"
    by blast+
qed

lemma step_moves:
  assumes ok: "pipe_ok im fw dw a s" and i: "\<not> in_reset i" and nw: "\<not> wb_trap s" "\<not> mem_wait i s" and r: "mem_progress dw i s r"
    and good: "\<not> mem_fails (ex_mem_q s) r" and d: "d_valid (id_ex_q s) \<longrightarrow> ex_result_valid i s"
    and ans: "answered im fw (core_fetch_request i s) (imem i)"
  shows "pipe_ok im (waiting_next fw (core_fetch_request i s) (imem i)) (waiting_next dw (data_driven i s) (dmem i))
    (after_mem (ex_mem_q s) r a) (core_clock rv tv i s)"
proof -
  let ?t = "core_clock rv tv i s" and ?d = "id_ex_q s" and ?e = "ex_mem_q s" and ?x = "ex_stage i s"
  have st: "state_ok a s" and fk: "fetch_ok im fw (fetch s)" and mk: "mdu_ok s" and dr: "drained s"
    and dec: "d_valid ?d \<Longrightarrow> decoded_ok im a s ?d" and rdy: "e_valid ?e \<longrightarrow> ready im a ?e"
    using ok by (auto simp: pipe_ok_def)
  have me: "\<not> mem_exception i s" using r good by (simp add: mem_progress_def)
  note sm = smooth [OF i nw(1) me nw(2)] and p = progress_state [OF st i nw r, of rv tv] and t = core_clock_next [OF i, of rv tv s]
  have act: "act i s \<notin> {ACTION_WB_TRAP, ACTION_MEM_EXCEPTION, ACTION_MEM_WAIT, ACTION_EX_WAIT}"
    using nw me sm d by (auto simp: act_eq [OF i])
  have fire: "d_valid ?d \<longrightarrow> ex_result_valid i s \<and> ex_fire i s" using d sm by blast
  let ?c = "id_ex_d i s"
  have nwait: "\<not> ex_wait i s" using d sm by blast
  have ae: "act i s =
     (if ex_exception i s then ACTION_EX_EXCEPTION
      else if trap_drain_q s then ACTION_TRAP_DRAIN
      else if redirect_valid (control_redirect i s) then ACTION_EX_REDIRECT
      else if irq_state_wait s then ACTION_IRQ_STATE_WAIT
      else if d_valid ?c \<and> exc_valid (d_exc ?c) \<and> \<not> exc_irq (d_exc ?c) then ACTION_ID_EXCEPTION
      else if d_valid ?c \<and> exc_valid (d_exc ?c) \<and> exc_irq (d_exc ?c) then ACTION_ID_INTERRUPT
      else if load_use ?c ?d \<or> csr_dep ?c ?d ?e then ACTION_ID_HAZARD
      else ACTION_ADVANCE)"
    unfolding act_eq [OF i] if_not_P [OF nw(1)] if_not_P [OF me] if_not_P [OF nw(2)] if_not_P [OF nwait] ..
  have a1: "ex_exception i s \<Longrightarrow> act i s = ACTION_EX_EXCEPTION" by (simp add: ae)
  have a2: "\<not> ex_exception i s \<Longrightarrow> trap_drain_q s \<Longrightarrow> act i s = ACTION_TRAP_DRAIN" by (simp add: ae)
  have xt: "ex_mem_q ?t = ?x" using act by (simp add: t(2))
  have m: "moves im a i s ?t"
    unfolding moves_def using xt fire rdy dec st mk dr t(6) good p(1,2) by blast
  have ne: "\<not> exc_valid (e_exc ?e)" if "e_valid ?e"
    using good that by (auto simp: mem_fails_def mem_result_def is_memory_def)
  have x0: "\<not> d_valid ?d \<Longrightarrow> ?x = ex_mem_0" by (rule moves_empty)
  have xr: "e_valid ?x \<longrightarrow> ready im (state_after a ?t) ?x"
  proof (cases "d_valid ?d")
    case True
    then show ?thesis using moves_ready [OF m] by blast
  qed (simp add: x0)
  note rd = redirect_iff [OF fire]
  have base: "state_ok (state_after a ?t) ?t" "mdu_ok ?t" "fetch_next_ok im fw i s ?t" "\<not> wb_trap ?t"
  proof -
    show "state_ok (state_after a ?t) ?t" by (rule p(3))
    show "mdu_ok ?t" using fire by (intro mdu_next [OF mk i dec t(8,9)]) simp_all
    show "fetch_next_ok im fw i s ?t" by (rule fetch_next_ok [OF fk i ans])
    show "\<not> wb_trap ?t" using p(1) good by (auto simp: wb_trap_def mem_fails_def)
  qed
  have "pipe_ok im (waiting_next fw (core_fetch_request i s) (imem i)) (waiting_next dw (data_driven i s) (dmem i)) (state_after a ?t) ?t"
  proof (cases "act i s = ACTION_EX_EXCEPTION \<or> trap_drain_q s")
    case True
    then have "act i s \<in> {ACTION_EX_EXCEPTION, ACTION_TRAP_DRAIN}" using a1 a2 by blast
    moreover have "act i s = ACTION_TRAP_DRAIN \<Longrightarrow> trap_drain_q s \<and> \<not> f_valid (if_id_q s)"
      using True dr by (auto simp: drained_def)
    ultimately have "\<not> d_valid (id_ex_q ?t) \<and> \<not> f_valid (if_id_q ?t) \<and> trap_drain_q ?t"
      using id_ex_d_valid [of i s] by (auto simp: t(3-5))
    then show ?thesis using base xr xt p(4) by (auto simp: pipe_ok_def drained_def fetch_next_ok_def)
  next
    case False
    then have nd: "\<not> trap_drain_q s" and na: "act i s \<noteq> ACTION_EX_EXCEPTION" by blast+
    have dx: "\<not> exc_valid (d_exc ?d)" if "d_valid ?d" using dr nd that by (auto simp: drained_def)
    have nx: "\<not> exc_valid (e_exc ?x)" if dv: "d_valid ?d"
    proof
      assume "exc_valid (e_exc ?x)"
      then have "act i s = ACTION_EX_EXCEPTION" using sm(4) d dx [OF dv] dv by (intro a1) blast
      then show False using na by simp
    qed
    have nex: "\<not> ex_exception i s" using na a1 by blast
    have nx': "\<not> (e_valid ?x \<and> exc_valid (e_exc ?x))" using nx x0 by (cases "d_valid ?d") auto
    have later: "act i s \<noteq> ACTION_TRAP_DRAIN" using nd unfolding ae by (simp split: if_split)
    show ?thesis
    proof (cases "taken_transfer ?x")
      case True
      then have ac: "act i s = ACTION_EX_REDIRECT"
        using rd(1) nd nex by (simp add: ae)
      have dv: "d_valid ?d" "redirect_target (control_redirect i s) = next_pc ?x" using rd(2) [OF True] by blast+
      have "pc3 (state_after a ?t) ?t = next_pc ?x"
        using moves_pc1 [OF m] dv(1) ac by (simp add: pc3_def pc2_def t(3,4))
      moreover have "fetch_at (next_pc ?x) (fetch ?t)"
        using fetch_at_redirect [OF fk, of "fetch_inputs i s" rv "imem i"] fetch_inputs_sel(3,5) [OF i, of s] ac dv(2) by (simp add: t(11))
      ultimately show ?thesis using base xr xt p(4) ac nx'
        by (auto simp: pipe_ok_def drained_def fetch_next_ok_def t(3-5))
    next
      case nt: False
      then have nr: "\<not> redirect_valid (control_redirect i s)" using rd(1) by blast
      note pc = moves_pc2 [OF m nr nx]
      have te: "\<not> taken_transfer ?e" if "f_valid (if_id_q s)" using ok that by (auto simp: pipe_ok_def)
      have fc: "if_id_q s = packet_of (contents im (pc2 a s))" if "f_valid (if_id_q s)" using ok that by (auto simp: pipe_ok_def)
      have fat: "fetch_at (pc3 a s) (fetch s)" using ok nd by (auto simp: pipe_ok_def)
      have cap: "decoded_ok im (state_after a ?t) ?t (id_ex_d i s)"
        if "d_valid (id_ex_d i s)" "exc_valid (d_exc (id_ex_d i s)) \<or> \<not> load_use (id_ex_d i s) ?d \<and> \<not> csr_dep (id_ex_d i s) ?d ?e"
      proof -
        have fv: "f_valid (if_id_q s)" using that(1) by (simp add: id_ex_d_valid)
        show ?thesis by (rule captured_decoded [OF m te [OF fv] nr nx ne fv fc [OF fv] that(2)])
      qed
      have cpc: "d_pc (id_ex_d i s) = pc2 a s"
        if "d_valid (id_ex_d i s)" "decoded_ok im (state_after a ?t) ?t (id_ex_d i s)"
        using that(2) pc by (simp add: decoded_ok_def)
      have choice: "act i s \<in> {ACTION_IRQ_STATE_WAIT, ACTION_ID_HAZARD} \<or>
          act i s \<in> {ACTION_ID_EXCEPTION, ACTION_ID_INTERRUPT} \<and> d_valid ?c \<and> exc_valid (d_exc ?c) \<or>
          act i s = ACTION_ADVANCE \<and> \<not> (d_valid ?c \<and> exc_valid (d_exc ?c)) \<and> \<not> load_use ?c ?d \<and> \<not> csr_dep ?c ?d ?e"
        unfolding ae if_not_P [OF nex] if_not_P [OF nd] if_not_P [OF nr]
        by (cases "irq_state_wait s"; cases "d_valid ?c \<and> exc_valid (d_exc ?c)"; cases "exc_irq (d_exc ?c)"; cases "load_use ?c ?d \<or> csr_dep ?c ?d ?e"; simp)
      consider (stall) "act i s \<in> {ACTION_IRQ_STATE_WAIT, ACTION_ID_HAZARD}"
        | (trap) "act i s \<in> {ACTION_ID_EXCEPTION, ACTION_ID_INTERRUPT}" "d_valid (id_ex_d i s)" "exc_valid (d_exc (id_ex_d i s))"
        | (advance) "act i s = ACTION_ADVANCE" "\<not> (d_valid (id_ex_d i s) \<and> exc_valid (d_exc (id_ex_d i s)))"
            "\<not> load_use (id_ex_d i s) ?d \<and> \<not> csr_dep (id_ex_d i s) ?d ?e"
        using choice by blast
      then show ?thesis
      proof cases
        case stall
        then have "pc2 (state_after a ?t) ?t = pc2 a s" using pc by (auto simp: pc2_def t(3))
        moreover from this have "pc3 (state_after a ?t) ?t = pc3 a s" using stall by (auto simp: pc3_def t(4))
        moreover have "fetch_at (pc3 a s) (fetch ?t)"
          using fetch_at_next [OF fk fat, of "fetch_inputs i s" "imem i" rv] fetch_inputs_sel(1-3) [OF i, of s] stall by (auto simp add: t(11))
        ultimately show ?thesis using base xr xt p(4) nx' nt fc stall nd
          by (auto simp: pipe_ok_def drained_def fetch_next_ok_def t(3-5))
      next
        case trap
        then show ?thesis using base xr xt p(4) nx' nt cap [OF trap(2)]
          by (auto simp: pipe_ok_def drained_def fetch_next_ok_def t(3-5))
      next
        case advance
        have dn: "d_valid (id_ex_d i s) \<longrightarrow> decoded_ok im (state_after a ?t) ?t (id_ex_d i s)" using cap advance(3) by blast
        have p2: "pc2 (state_after a ?t) ?t = pc3 a s"
        proof (cases "f_valid (if_id_q s)")
          case True
          then have "d_valid (id_ex_d i s)" by (simp add: id_ex_d_valid)
          moreover from this have "d_pc (id_ex_d i s) = pc2 a s" using cpc dn by blast
          moreover have "f_pc (if_id_q s) = pc2 a s" by (subst fc [OF True]) (simp add: packet_of_def fetched_def)
          ultimately show ?thesis using True advance(1) by (simp add: pc2_def [of _ ?t] pc3_def t(3))
        next
          case False
          then have "\<not> d_valid (id_ex_d i s)" by (simp add: id_ex_d_valid)
          then show ?thesis using False pc advance(1) by (simp add: pc2_def [of _ ?t] pc3_def t(3))
        qed
        have out: "if_id_q ?t = packet_of (contents im (pc3 a s)) \<and> f_pc (if_id_q ?t) = pc3 a s \<and> f_valid (if_id_q ?t)"
          if "fetch_out False (fetch_inputs i s) (imem i) (fetch s) = Some y" for y
        proof -
          obtain q insn x where y: "y = (q, insn, x)" by (cases y)
          have c: "contents im (fst y) = y" using fetch_out_contents [OF fk _ that] ans i by (simp add: core_fetch_request_def)
          have "q = pc3 a s" using fetch_out_at [OF fat that [unfolded y]] .
          then show ?thesis using that c advance(1) i by (simp add: t(4) if_id_d_def packet_of_def fetched_def y)
        qed
        have none: "if_id_q ?t = if_id_0" if "fetch_out False (fetch_inputs i s) (imem i) (fetch s) = None"
          using that advance(1) i by (simp add: t(4) if_id_d_def)
        have "fetch_at (pc3 (state_after a ?t) ?t) (fetch ?t)"
          using fetch_at_next [OF fk fat, of "fetch_inputs i s" "imem i" rv] fetch_inputs_sel(1-3) [OF i, of s] advance(1) p2 out none
          by (cases "fetch_out False (fetch_inputs i s) (imem i) (fetch s)") (auto simp: t(11) pc3_def [of _ ?t])
        moreover have "f_valid (if_id_q ?t) \<longrightarrow> if_id_q ?t = packet_of (contents im (pc2 (state_after a ?t) ?t))"
          using out none p2 by (cases "fetch_out False (fetch_inputs i s) (imem i) (fetch s)") auto
        ultimately show ?thesis using base xr xt p(4) nx' nt dn advance nd
          by (auto simp: pipe_ok_def drained_def fetch_next_ok_def t(3,5))
      qed
    qed
  qed
  then show ?thesis by (simp only: p(2))
qed

end
