(* ===== verification/Core_Run.thy ===== *)
theory Core_Run
  imports Core_Step
begin

text \<open>
  Runs of the processor against the instruction set. A machine that makes at most one step of a specification per clock
  runs as the specification does; the processor is such a machine. The properties of the processor are at the end.
\<close>

section \<open>A machine in step with a specification\<close>

text \<open>What a machine emits in its first \<open>n\<close> clocks, and the runs of a labelled step relation.\<close>

primrec emitted :: "('i \<Rightarrow> 's \<Rightarrow> 's) \<Rightarrow> ('i \<Rightarrow> 's \<Rightarrow> 'l list) \<Rightarrow> (nat \<Rightarrow> 'i) \<Rightarrow> nat \<Rightarrow> 's \<Rightarrow> 'l list" where
  "emitted clock emits ins 0 s = []"
| "emitted clock emits ins (Suc n) s = emitted clock emits ins n s @ emits (ins n) (after clock ins n s)"

inductive runs :: "('a \<Rightarrow> 'l \<Rightarrow> 'a \<Rightarrow> bool) \<Rightarrow> 'a \<Rightarrow> 'l list \<Rightarrow> 'a \<Rightarrow> bool" for step where
  runs_nil: "runs step a [] a"
| runs_snoc: "runs step a ls b \<Longrightarrow> step b l c \<Longrightarrow> runs step a (ls @ [l]) c"

locale stuttering_machine =
  fixes clock :: "'i \<Rightarrow> 's \<Rightarrow> 's"
    and emits :: "'i \<Rightarrow> 's \<Rightarrow> 'l list"
    and allowed :: "'i \<Rightarrow> 's \<Rightarrow> bool"
    and step :: "'a \<Rightarrow> 'l \<Rightarrow> 'a \<Rightarrow> bool"
    and match :: "'a \<Rightarrow> 's \<Rightarrow> bool"
  assumes simulates: "match a s \<Longrightarrow> allowed i s \<Longrightarrow>
    emits i s = [] \<and> match a (clock i s) \<or> (\<exists>l b. emits i s = [l] \<and> step a l b \<and> match b (clock i s))"
begin

lemma runs_match:
  assumes "match a s" "\<forall>k. allowed (ins k) (after clock ins k s)"
  shows "\<exists>b. runs step a (emitted clock emits ins n s) b \<and> match b (after clock ins n s)"
proof (induction n)
  case 0
  show ?case using assms(1) by (auto intro: runs_nil)
next
  case (Suc n)
  then obtain b where b: "runs step a (emitted clock emits ins n s) b" "match b (after clock ins n s)" by blast
  from simulates [OF b(2) spec [OF assms(2), of n]] show ?case
  proof (elim disjE exE conjE)
    fix l c
    assume l: "emits (ins n) (after clock ins n s) = [l]" "step b l c" "match c (clock (ins n) (after clock ins n s))"
    show ?case using runs_snoc [OF b(1) l(2)] l by auto
  qed (use b(1) in auto)
qed

end

section \<open>The processor on its buses\<close>

text \<open>The processor with the requests its two buses have taken and not answered.\<close>

record system =
  proc :: core
  fetching :: "u32 option"
  accessing :: "request option"

definition system_clock :: "u32 \<Rightarrow> u32 \<Rightarrow> core_in \<Rightarrow> system \<Rightarrow> system" where
  "system_clock rv tv i y =
     \<lparr>proc = core_clock rv tv i (proc y),
      fetching = waiting_next (fetching y) (core_fetch_request i (proc y)) (imem i),
      accessing = waiting_next (accessing y) (data_driven i (proc y)) (dmem i)\<rparr>"

definition access_done :: "core_in \<Rightarrow> system \<Rightarrow> (request \<times> response) option" where
  "access_done i y = completed (accessing y) (data_driven i (proc y)) (dmem i)"

text \<open>What is seen of a clock: the address of the packet that reaches write-back, and the data access that ends.\<close>

definition observed :: "u32 \<Rightarrow> u32 \<Rightarrow> core_in \<Rightarrow> system \<Rightarrow> (u32 \<times> (request \<times> response) option) list" where
  "observed rv tv i y =
     (let w = mem_wb_q (core_clock rv tv i (proc y))
      in if w_valid w \<or> access_done i y \<noteq> None then [(w_pc w, access_done i y)] else [])"

text \<open>The clock is not a reset, and the instruction bus answers with the contents of memory.\<close>

definition good_clock :: "(u32 \<Rightarrow> u32 option) \<Rightarrow> core_in \<Rightarrow> system \<Rightarrow> bool" where
  "good_clock im i y \<longleftrightarrow> \<not> in_reset i \<and> answered im (fetching y) (core_fetch_request i (proc y)) (imem i)"

text \<open>One step of the architecture, labelled by its address and its access.\<close>

definition visible_step :: "(u32 \<Rightarrow> u32 option) \<Rightarrow> arch \<Rightarrow> u32 \<times> (request \<times> response) option \<Rightarrow> arch \<Rightarrow> bool" where
  "visible_step im a l b \<longleftrightarrow> a_pc a = fst l \<and> arch_step im a (snd l) b"

definition system_ok :: "(u32 \<Rightarrow> u32 option) \<Rightarrow> arch \<Rightarrow> system \<Rightarrow> bool" where
  "system_ok im a y \<longleftrightarrow> pipe_ok im (fetching y) (accessing y) a (proc y)"

lemma step_cases:
  fixes rv tv
  assumes ok: "pipe_ok im fw dw a s" and i: "\<not> in_reset i" and ans: "answered im fw (core_fetch_request i s) (imem i)"
  defines "t \<equiv> core_clock rv tv i s" and "c \<equiv> completed dw (data_driven i s) (dmem i)"
  shows "(w_valid (mem_wb_q t) \<and> w_pc (mem_wb_q t) = a_pc a \<and> arch_step im a c (state_after a t) \<or> \<not> w_valid (mem_wb_q t) \<and> c = None) \<and>
    pipe_ok im (waiting_next fw (core_fetch_request i s) (imem i)) (waiting_next dw (data_driven i s) (dmem i)) (state_after a t) t"
proof (cases "wb_trap s \<or> mem_wait i s")
  case True
  then have "act i s \<in> {ACTION_WB_TRAP, ACTION_MEM_WAIT}"
    using i by (auto simp: act_eq mem_wait_def mem_exception_def)
  then have "mem_wb_q t = mem_wb_0" by (auto simp: t_def core_clock_next(1) [OF i])
  then show ?thesis using step_trap [OF ok i _ ans, of rv tv] step_wait [OF ok i _ _ ans, of rv tv] True
    by (auto simp: state_after_def t_def c_def)
next
  case False
  then have nw: "\<not> wb_trap s" "\<not> mem_wait i s" by blast+
  have st: "state_ok a s" and lk: "lsu_ok dw (lsu_inputs s False) (lsu_s s)" and rdy: "e_valid (ex_mem_q s) \<Longrightarrow> ready im a (ex_mem_q s)"
    using ok by (auto simp: pipe_ok_def)
  obtain r where r: "mem_progress dw i s r" using mem_progress [OF lk nw(1) i nw(2)] .
  note p = progress_state [OF st i nw r, of rv tv, folded t_def]
  have stays: "pipe_ok im (waiting_next fw (core_fetch_request i s) (imem i)) (waiting_next dw (data_driven i s) (dmem i)) (state_after a t) t"
    unfolding p(2) unfolding t_def
    using step_fault [OF ok i nw r _ ans] step_hold [OF ok i nw r _ _ _ ans] step_moves [OF ok i nw r _ _ ans] by blast
  show ?thesis
  proof (cases "e_valid (ex_mem_q s)")
    case True
    have "arch_step im a (label (ex_mem_q s) r) (state_after a t)"
      unfolding p(2) after_mem_def if_P [OF True] by (rule ready_step [OF rdy [OF True]])
    then show ?thesis using stays True p(1) r rdy [OF True] by (auto simp: mem_progress_def c_def ready_def)
  next
    case False
    then show ?thesis using stays p(1) r by (simp add: mem_progress_def c_def)
  qed
qed

interpretation rv32: stuttering_machine "system_clock rv tv" "observed rv tv" "good_clock im" "visible_step im" "system_ok im" for rv tv im
proof unfold_locales
  fix a y i
  assume "system_ok im a y" "good_clock im i y"
  then show "observed rv tv i y = [] \<and> system_ok im a (system_clock rv tv i y) \<or>
      (\<exists>l b. observed rv tv i y = [l] \<and> visible_step im a l b \<and> system_ok im b (system_clock rv tv i y))"
    using step_cases [of im "fetching y" "accessing y" a "proc y" i rv tv]
    by (auto simp: system_ok_def good_clock_def observed_def access_done_def visible_step_def system_clock_def Let_def state_after_def)
qed

section \<open>Reset\<close>

text \<open>The state after a reset; the registers of the file are not reset.\<close>

definition core_reset :: "u32 \<Rightarrow> u32 \<Rightarrow> (reg_addr_t \<Rightarrow> u32) \<Rightarrow> core" where
  "core_reset rv tv rf =
     \<lparr>fetch = if_reset rv, if_id_q = if_id_0, id_ex_q = id_ex_0, ex_mem_q = ex_mem_0, mem_wb_q = mem_wb_0, trap_drain_q = False,
      regs = rf, csrf = csr_reset tv, mul = mul_reset, divu = div_reset, lsu_s = lsu_reset\<rparr>"

definition system_reset :: "u32 \<Rightarrow> u32 \<Rightarrow> (reg_addr_t \<Rightarrow> u32) \<Rightarrow> system" where
  "system_reset rv tv rf = \<lparr>proc = core_reset rv tv rf, fetching = None, accessing = None\<rparr>"

lemma reset_clock:
  assumes "in_reset i" "\<not> (if_state (fetch s) = IF_BUSY \<and> if_sent_q (fetch s))" "\<not> (lsu_state (lsu_s s) = LSU_BUSY \<and> request_sent_q (lsu_s s))"
  shows "core_clock rv tv i s = core_reset rv tv (commit_regs (mem_wb_q s) (regs s))"
  using assms by (auto simp: core_clock_def core_reset_def Let_def if_clock_def if_reset_clock_def lsu_clock_def lsu_reset_clock_def
      csr_clock_def mul_clock_def div_clock_def mul_inputs_def div_inputs_def mdu_inputs_def commit_regs_def regfile_clock_def
      writes_back_def wb_reg_write_def wb_retire_def)

lemma reset_ok: "system_ok im (arch_reset rv tv rf) (system_reset rv tv rf)"
  using csr_reset_state [of tv] fetch_reset(1) [of im rv] fetch_reset(2) [of rv]
  by (simp add: system_ok_def system_reset_def arch_reset_def pipe_ok_def state_ok_def drained_def core_reset_def mdu_ok_def mul_reset_def
      div_reset_def lsu_idle_ok lsu_reset_def wb_trap_def pc1_def pc2_def pc3_def)

end
