(* ===== verification/Core_Live.thy ===== *)
theory Core_Live
  imports Core_Run
begin

text \<open>
  The processor does not stop: while its buses take requests and answer them, packets keep reaching write-back. In a run in which
  none does any more, the stages would be empty from the memory stage back to the fetch stage, whose request is answered.
\<close>

section \<open>Ranks\<close>

text \<open>How far a unit is from its answer. A rank falls when the bus serves the unit and never rises.\<close>

definition lsu_rank :: "lsu \<Rightarrow> nat" where
  "lsu_rank l = (case lsu_state l of LSU_IDLE \<Rightarrow> 3 | LSU_BUSY \<Rightarrow> if request_sent_q l then 1 else 2 | LSU_RESP \<Rightarrow> 0)"

definition fetch_rank :: "if_stage \<Rightarrow> nat" where
  "fetch_rank f = (case if_state f of IF_IDLE \<Rightarrow> 3
     | IF_BUSY \<Rightarrow> if if_discard_q f then if if_sent_q f then 4 else 5 else if if_sent_q f then 1 else 2)"

definition mdu_rank :: "core \<Rightarrow> nat" where
  "mdu_rank s =
     (if is_mul (id_ex_q s) then case mul_state (mul s) of MUL_IDLE \<Rightarrow> 2 | MUL_EXEC \<Rightarrow> 1 | MUL_RESP \<Rightarrow> 0
      else case div_state (divu s) of DIV_IDLE \<Rightarrow> 66 | DIV_RUN \<Rightarrow> 1 + unat (31 - iter_q (divu s)) | DIV_RESP \<Rightarrow> 0)"

text \<open>The clocks in which a bus serves a unit of the given rank.\<close>

definition serves :: "mem_in \<Rightarrow> nat \<Rightarrow> bool" where
  "serves m r \<longleftrightarrow> (r \<in> {2, 5} \<longrightarrow> mem_ready m) \<and> (r \<in> {1, 4} \<longrightarrow> mem_rsp m \<noteq> None)"

lemma lsu_progress:
  assumes "lsu_ok out i s" "\<not> kill_i i" "req_valid_i i" "input_is_memory i" "lsu_rsp False i m s = None"
  shows "lsu_rank (lsu_clock False i m s) \<le> lsu_rank s \<and> (serves m (lsu_rank s) \<longrightarrow> lsu_rank (lsu_clock False i m s) < lsu_rank s)"
  using assms by (cases "lsu_state s"; cases "mem_rsp m") (auto simp: lsu_defs lsu_rank_def serves_def split: if_splits)

lemma fetch_progress:
  assumes "fetch_ok im out s" "if_enable i" "if_consume i" "\<not> if_flush i" "\<not> if_redirect i" "fetch_out False i m s = None"
  shows "fetch_rank (if_clock False v i m s) \<le> fetch_rank s \<and> (serves m (fetch_rank s) \<longrightarrow> fetch_rank (if_clock False v i m s) < fetch_rank s)"
  using assms by (cases "if_state s"; cases "mem_rsp m")
    (auto simp: fetch_ok_def fetch_out_def fetch_defs fetch_rank_def serves_def Let_def split: if_splits)

lemma down_to_31:
  assumes "w \<noteq> (31 :: 6 word)"
  shows "unat (30 - w) < unat (31 - w)"
proof -
  have ne: "31 - w \<noteq> 0" using assms by simp
  have "unat (30 - w) = unat (31 - w) - 1" using unat_minus_one [OF ne] by simp
  moreover have "0 < unat (31 - w)" using ne by (simp only: unat_gt_0) simp
  ultimately show ?thesis by linarith
qed

lemma mdu_progress:
  assumes i: "\<not> in_reset i" and a: "act i s = ACTION_EX_WAIT"
  shows "d_valid (id_ex_q (core_clock rv tv i s)) \<and> mdu_rank (core_clock rv tv i s) < mdu_rank s"
proof -
  let ?t = "core_clock rv tv i s"
  have w: "\<not> wb_trap s" "\<not> mem_exception i s" "\<not> mem_wait i s" "ex_wait i s"
    using a by (auto simp: act_eq [OF i] split: if_splits)
  then have r: "ex_active i s" "ex_result_ready i s" "\<not> ex_kill i s" "is_mdu (id_ex_q s)" "\<not> mdu_rsp_valid i s" "d_valid (id_ex_q s)"
    by (auto simp: ex_wait_def ex_fire_def ex_result_valid_def ex_result_ready_def ex_kill_def ex_active_def)
  have d: "id_ex_q ?t = refresh_operands s" using a by (simp add: core_clock_next(3) [OF i])
  have same: "is_mul (refresh_operands s) = is_mul (id_ex_q s)" by (simp add: is_mul_def)
  have u: "mul ?t = mul_clock (mul_inputs i s) (mul s)" "divu ?t = div_clock (div_inputs i s) (divu s)"
    by (simp_all add: core_clock_next(8,9) [OF i])
  have und: "\<not> in_rst (mul_inputs i s)" "\<not> in_kill (mul_inputs i s)" "\<not> in_rst (div_inputs i s)" "\<not> in_kill (div_inputs i s)"
    using i r(3) by (simp_all add: mdu_inputs_sel mul_inputs_def div_inputs_def mdu_inputs_def Let_def)
  have "mdu_rank ?t < mdu_rank s"
  proof (cases "is_mul (id_ex_q s)")
    case True
    then have "mul_state (mul s) \<noteq> MUL_RESP" using r by (simp add: mdu_rsp_valid_def mul_rsp_valid_def)
    then show ?thesis using True r unfolding mdu_rank_def d same u
      by (cases "mul_state (mul s)") (simp_all add: mul_clock_def und mdu_inputs_sel mul_req_ready_def)
  next
    case False
    then have dv: "is_div (id_ex_q s)" "div_state (divu s) \<noteq> DIV_RESP" using r by (auto simp: is_mdu_def mdu_rsp_valid_def div_rsp_valid_def)
    have lt: "Suc (unat (31 - w)) < 66" for w :: "6 word"
    proof -
      have "unat (31 - w) < 2 ^ LENGTH(6)" by (rule unsigned_less)
      then show ?thesis by simp
    qed
    show ?thesis using False dv r unfolding mdu_rank_def d same u
      by (cases "div_state (divu s)")
        (auto simp: div_clock_def und mdu_inputs_sel div_req_ready_def div_accept_def lt down_to_31 Let_def split: prod.split)
  qed
  then show ?thesis using r(6) by (simp add: d)
qed

section \<open>Packets move on\<close>

lemma memory_moves:
  fixes rv tv i s
  defines "t \<equiv> core_clock rv tv i s"
  assumes i: "\<not> in_reset i" and "\<not> wb_trap s" "e_valid (ex_mem_q s)" "\<not> w_valid (mem_wb_q t)"
  shows "act i s = ACTION_MEM_WAIT \<and> mem_wait i s \<and> ex_mem_q t = ex_mem_q s"
proof -
  have "w_valid (mem_stage i s)" if "\<not> mem_wait i s"
    using that assms(4) by (auto simp: mem_stage_def mem_wait_def Let_def split: option.splits)
  then have w: "mem_wait i s" using assms(3,5) unfolding t_def core_clock_next(1) [OF i] by (auto simp: act_eq [OF i] split: if_splits)
  then have "act i s = ACTION_MEM_WAIT" using assms(3) by (simp add: act_eq [OF i] mem_exception_def mem_wait_def)
  then show ?thesis using w by (simp add: t_def core_clock_next(2) [OF i])
qed

lemma no_memory: "\<not> e_valid (ex_mem_q s) \<Longrightarrow> \<not> mem_wait i s \<and> \<not> mem_exception i s"
  by (simp add: mem_wait_def mem_exception_def mem_is_memory_def)

lemma execute_moves:
  fixes rv tv i s
  defines "t \<equiv> core_clock rv tv i s"
  assumes i: "\<not> in_reset i" and nt: "\<not> wb_trap s" and e: "\<not> e_valid (ex_mem_q s)" and d: "d_valid (id_ex_q s)" and et: "\<not> e_valid (ex_mem_q t)"
  shows "act i s = ACTION_EX_WAIT"
proof -
  note m = no_memory [OF e, of i]
  have a: "ex_active i s" "ex_result_ready i s" using i nt m d by (auto simp: ex_active_def ex_kill_def ex_result_ready_def)
  have "\<not> ex_result_valid i s"
  proof
    assume v: "ex_result_valid i s"
    then have "act i s \<notin> {ACTION_WB_TRAP, ACTION_MEM_EXCEPTION, ACTION_EX_WAIT, ACTION_MEM_WAIT}"
      using nt m a by (auto simp: act_eq [OF i] ex_wait_def ex_fire_def split: if_splits)
    then have "ex_mem_q t = ex_stage i s" by (simp add: t_def core_clock_next(2) [OF i])
    then show False using et v by (simp add: ex_stage_def)
  qed
  then show ?thesis using nt m a by (simp add: act_eq [OF i] ex_exception_def ex_wait_def ex_fire_def)
qed

text \<open>With nothing in the execute and memory stages the front of the pipeline is free.\<close>

lemma front_free:
  assumes "\<not> in_reset i" "\<not> wb_trap s" "\<not> e_valid (ex_mem_q s)" "\<not> d_valid (id_ex_q s)" "\<not> trap_drain_q s"
  shows "act i s \<in> {ACTION_ID_EXCEPTION, ACTION_ID_INTERRUPT, ACTION_ADVANCE}"
proof -
  have a: "\<not> ex_active i s" using assms(4) by (simp add: ex_active_def)
  then have f: "\<not> ex_fire i s" "\<not> ex_result_valid i s" "\<not> ex_wait i s" by (simp_all add: ex_fire_def ex_result_valid_def ex_wait_def)
  then have "\<not> redirect_valid (control_redirect i s)" "\<not> ex_exception i s"
    by (simp_all add: control_redirect_def ex_redirect_def no_redirect_def ex_exception_def)
  moreover have "\<not> irq_state_wait s"
    using assms(3,4) by (simp add: irq_state_wait_def id_ex_irq_state_writer_def ex_mem_irq_state_writer_def Let_def)
  moreover have "\<not> load_use c (id_ex_q s) \<and> \<not> csr_dep c (id_ex_q s) (ex_mem_q s)" for c
    using assms(3,4) by (simp add: load_use_def raw_match_def csr_dep_def csr_dependency_def mret_dependency_def minstret_dependency_def
        id_ex_csr_writer_def ex_mem_csr_writer_def Let_def)
  ultimately show ?thesis using assms f no_memory [OF assms(3), of i] by (simp add: act_eq)
qed

lemma decode_moves:
  assumes "\<not> in_reset i" "\<not> wb_trap s" "\<not> e_valid (ex_mem_q s)" "\<not> d_valid (id_ex_q s)" "\<not> trap_drain_q s" "f_valid (if_id_q s)"
  shows "d_valid (id_ex_q (core_clock rv tv i s))"
  using front_free [OF assms(1-5)] assms(6) by (auto simp: core_clock_next(3) [OF assms(1)] id_ex_d_valid)

lemma fetch_moves:
  fixes rv tv i s
  defines "t \<equiv> core_clock rv tv i s"
  assumes "\<not> in_reset i" "\<not> wb_trap s" "\<not> e_valid (ex_mem_q s)" "\<not> d_valid (id_ex_q s)" "\<not> trap_drain_q s" "\<not> f_valid (if_id_q s)"
  shows "if_enable (fetch_inputs i s)" "if_consume (fetch_inputs i s)" "\<not> if_flush (fetch_inputs i s)" "\<not> if_redirect (fetch_inputs i s)"
    "f_valid (if_id_q t) \<longleftrightarrow> fetch_out False (fetch_inputs i s) (imem i) (fetch s) \<noteq> None"
proof -
  have "\<not> d_valid (id_ex_d i s)" using assms(7) by (simp add: id_ex_d_valid)
  then have a: "act i s = ACTION_ADVANCE" using front_free [OF assms(2-6)] by (auto simp: act_eq [OF assms(2)] split: if_splits)
  show "if_enable (fetch_inputs i s)"
    using a assms(2) by (simp add: fetch_inputs_def control_def pipeline_ctrl_def act_def [symmetric] ctrl_of_action_def ctrl_advance_def Let_def)
  show "if_consume (fetch_inputs i s)" "\<not> if_flush (fetch_inputs i s)" "\<not> if_redirect (fetch_inputs i s)"
    using a by (simp_all add: fetch_inputs_sel [OF assms(2)])
  show "f_valid (if_id_q t) \<longleftrightarrow> fetch_out False (fetch_inputs i s) (imem i) (fetch s) \<noteq> None"
    using a assms(2) unfolding t_def core_clock_next(4) [OF assms(2)]
    by (auto simp: if_id_d_def if_id_0_def split: option.splits)
qed

section \<open>Drained pipelines\<close>

text \<open>The controller waits for a trap only while a packet with an exception is on its way to write-back.\<close>

definition trapping :: "core \<Rightarrow> bool" where
  "trapping s \<longleftrightarrow> (trap_drain_q s \<longrightarrow> wb_trap s \<or> e_valid (ex_mem_q s) \<and> exc_valid (e_exc (ex_mem_q s)) \<or>
     d_valid (id_ex_q s) \<and> exc_valid (d_exc (id_ex_q s)))"

lemma mem_stage_traps:
  "e_valid (ex_mem_q s) \<Longrightarrow> exc_valid (e_exc (ex_mem_q s)) \<Longrightarrow> w_valid (mem_stage i s) \<and> exc_valid (w_exc (mem_stage i s))"
  "mem_exception i s \<Longrightarrow> w_valid (mem_stage i s) \<and> exc_valid (w_exc (mem_stage i s))"
  by (auto simp: mem_stage_def mem_exception_def mem_is_memory_def Let_def split: option.splits)

lemma ex_stage_traps:
  assumes "d_valid (id_ex_q s)" "exc_valid (d_exc (id_ex_q s))" "\<not> in_reset i" "\<not> ex_kill i s"
  shows "ex_result_valid i s" "e_valid (ex_stage i s) \<and> exc_valid (e_exc (ex_stage i s))"
proof -
  show v: "ex_result_valid i s" using assms by (simp add: ex_result_valid_def ex_active_def is_mdu_def)
  show "e_valid (ex_stage i s) \<and> exc_valid (e_exc (ex_stage i s))" using v assms(2) by (simp add: ex_stage_def ex_exc_def)
qed

lemma draining:
  assumes "\<not> in_reset i" "trap_drain_q s"
  shows "act i s \<in> {ACTION_WB_TRAP, ACTION_MEM_EXCEPTION, ACTION_MEM_WAIT, ACTION_EX_EXCEPTION, ACTION_EX_WAIT, ACTION_TRAP_DRAIN}"
  using assms by (simp add: act_eq)

lemma trapping_next:
  fixes rv tv i s
  defines "t \<equiv> core_clock rv tv i s"
  assumes i: "\<not> in_reset i" and s: "trapping s"
  shows "trapping t"
proof (cases "trap_drain_q t")
  case False
  then show ?thesis by (simp add: trapping_def)
next
  case True
  note n = core_clock_next(1-3,5) [OF i, of rv tv s, folded t_def]
  have mt: "wb_trap t" if "w_valid (mem_stage i s) \<and> exc_valid (w_exc (mem_stage i s))" "act i s \<notin> {ACTION_WB_TRAP, ACTION_MEM_WAIT}"
    using that by (simp add: wb_trap_def n(1))
  have a: "act i s \<noteq> ACTION_WB_TRAP" using True by (auto simp: n(4))
  then have nt: "\<not> wb_trap s" by (auto simp: act_eq [OF i])
  consider "act i s = ACTION_MEM_EXCEPTION" | "act i s = ACTION_MEM_WAIT" | "act i s = ACTION_EX_EXCEPTION"
    | "act i s \<in> {ACTION_ID_EXCEPTION, ACTION_ID_INTERRUPT}"
    | "trap_drain_q s" "act i s \<in> {ACTION_EX_WAIT, ACTION_TRAP_DRAIN}"
    using draining [OF i, of s] True a unfolding n(4) by fastforce
  then show ?thesis
  proof cases
    case 1
    then have "mem_exception i s" using nt by (auto simp: act_eq [OF i] split: if_splits)
    then show ?thesis using mt mem_stage_traps(2) 1 by (auto simp: trapping_def)
  next
    case 2
    then have "trap_drain_q s" using True by (simp add: n(4))
    then show ?thesis using 2 s nt by (auto simp: trapping_def n(2,3))
  next
    case 3
    then have "exc_valid (e_exc (ex_stage i s))" "ex_result_valid i s"
      using nt by (auto simp: act_eq [OF i] ex_exception_def split: if_splits)
    then show ?thesis using 3 by (simp add: trapping_def n(2)) (simp add: ex_stage_def)
  next
    case 4
    then have "d_valid (id_ex_d i s) \<and> exc_valid (d_exc (id_ex_d i s))" using nt by (auto simp: act_eq [OF i] split: if_splits)
    then show ?thesis using 4 by (auto simp: trapping_def n(3))
  next
    case 5
    from s 5(1) nt consider "e_valid (ex_mem_q s)" "exc_valid (e_exc (ex_mem_q s))" | "d_valid (id_ex_q s)" "exc_valid (d_exc (id_ex_q s))"
      by (auto simp: trapping_def)
    then show ?thesis
    proof cases
      case 1
      then show ?thesis using mt mem_stage_traps(1) [OF 1] 5(2) by (auto simp: trapping_def)
    next
      case 2
      have k: "\<not> ex_kill i s" "ex_result_ready i s"
        using 5(2) nt by (auto simp: act_eq [OF i] ex_kill_def ex_result_ready_def split: if_splits)
      note x = ex_stage_traps [OF 2 i k(1)]
      have "act i s \<noteq> ACTION_EX_WAIT" using x(1) k(2) by (auto simp: act_eq [OF i] ex_wait_def ex_fire_def split: if_splits)
      then show ?thesis using 5(2) x(2) by (auto simp: trapping_def n(2))
    qed
  qed
qed

section \<open>Runs\<close>

text \<open>A quantity that does not rise and always changes again does not exist.\<close>

lemma no_endless_wait:
  fixes r :: "nat \<Rightarrow> nat"
  assumes "\<And>k. K \<le> k \<Longrightarrow> r (Suc k) \<le> r k" "\<And>k. K \<le> k \<Longrightarrow> \<exists>j\<ge>k. r j \<noteq> r k"
  shows False
proof -
  have mono: "r (k + n) \<le> r k" if "K \<le> k" for k n
  proof (induction n)
    case (Suc n)
    then show ?case using assms(1) [of "k + n"] that by simp
  qed simp
  have "\<forall>k\<ge>K. m \<le> r k" for m
  proof (induction m)
    case (Suc m)
    show ?case
    proof (intro allI impI)
      fix k assume k: "K \<le> k"
      obtain j where j: "k \<le> j" "r j \<noteq> r k" using assms(2) [OF k] by blast
      then have "r j < r k" using mono [OF k, of "j - k"] by simp
      moreover have "m \<le> r j" using Suc k j by simp
      ultimately show "Suc m \<le> r k" by simp
    qed
  qed simp
  then have "Suc (r K) \<le> r K" by blast
  then show False by simp
qed

text \<open>A bus is fair if it is ready again and again, and answers whatever waits for an answer.\<close>

definition fair_bus :: "(nat \<Rightarrow> mem_in) \<Rightarrow> (nat \<Rightarrow> bool) \<Rightarrow> bool" where
  "fair_bus m waiting \<longleftrightarrow> (\<forall>k. \<exists>j\<ge>k. mem_ready (m j)) \<and> (\<forall>k. waiting k \<longrightarrow> (\<exists>j\<ge>k. mem_rsp (m j) \<noteq> None))"

lemma fair_wait:
  fixes r :: "nat \<Rightarrow> nat"
  assumes fair: "fair_bus m w" and le: "\<And>k. K \<le> k \<Longrightarrow> r (Suc k) \<le> r k"
    and lt: "\<And>k. K \<le> k \<Longrightarrow> serves (m k) (r k) \<Longrightarrow> r (Suc k) < r k" and wt: "\<And>k. K \<le> k \<Longrightarrow> r k \<in> {1, 4} \<Longrightarrow> w k"
  shows False
proof (rule no_endless_wait [of K r])
  fix k assume k: "K \<le> k"
  show "r (Suc k) \<le> r k" by (rule le [OF k])
  show "\<exists>j\<ge>k. r j \<noteq> r k"
  proof (rule ccontr)
    assume "\<not> (\<exists>j\<ge>k. r j \<noteq> r k)"
    then have c: "\<And>j. k \<le> j \<Longrightarrow> r j = r k" by blast
    have "\<exists>j\<ge>k. serves (m j) (r j)"
    proof (cases "r k \<in> {1, 4}")
      case True
      then obtain j where j: "k \<le> j" "mem_rsp (m j) \<noteq> None" using fair wt [OF k True] unfolding fair_bus_def by blast
      have "serves (m j) (r j)" using True j(2) unfolding c [OF j(1)] serves_def by auto
      then show ?thesis using j(1) by blast
    next
      case False
      obtain j where j: "k \<le> j" "mem_ready (m j)" using fair unfolding fair_bus_def by blast
      have "serves (m j) (r j)" using False j(2) unfolding c [OF j(1)] serves_def by auto
      then show ?thesis using j(1) by blast
    qed
    then obtain j where "k \<le> j" "r (Suc j) < r j" using lt k by (meson order_trans)
    then show False using c [of j] c [of "Suc j"] by simp
  qed
qed


text \<open>The run in which nothing more reaches write-back, from the memory stage back to the fetch stage.\<close>

definition stuck_run :: "u32 \<Rightarrow> u32 \<Rightarrow> (u32 \<Rightarrow> u32 option) \<Rightarrow> (nat \<Rightarrow> core_in) \<Rightarrow> (nat \<Rightarrow> system) \<Rightarrow> nat \<Rightarrow> bool" where
  "stuck_run rv tv im ins y K \<longleftrightarrow>
     (\<forall>k. y (Suc k) = system_clock rv tv (ins k) (y k) \<and> good_clock im (ins k) (y k) \<and> (\<exists>a. system_ok im a (y k)) \<and> trapping (proc (y k))) \<and>
     fair_bus (\<lambda>k. imem (ins k)) (\<lambda>k. fetching (y k) \<noteq> None) \<and> fair_bus (\<lambda>k. dmem (ins k)) (\<lambda>k. accessing (y k) \<noteq> None) \<and>
     (\<forall>k\<ge>K. \<not> w_valid (mem_wb_q (proc (y k))))"

lemma stuck_runD:
  assumes "stuck_run rv tv im ins y K"
  shows "\<not> in_reset (ins k)" "proc (y (Suc k)) = core_clock rv tv (ins k) (proc (y k))" "trapping (proc (y k))"
    "lsu_ok (accessing (y k)) (lsu_inputs (proc (y k)) False) (lsu_s (proc (y k)))" "fetch_ok im (fetching (y k)) (fetch (proc (y k)))"
    "K \<le> k \<Longrightarrow> \<not> wb_trap (proc (y k))" "K \<le> k \<Longrightarrow> \<not> w_valid (mem_wb_q (core_clock rv tv (ins k) (proc (y k))))"
    "fair_bus (\<lambda>k. imem (ins k)) (\<lambda>k. fetching (y k) \<noteq> None)" "fair_bus (\<lambda>k. dmem (ins k)) (\<lambda>k. accessing (y k) \<noteq> None)"
proof -
  note r = assms [unfolded stuck_run_def]
  have g: "good_clock im (ins k) (y k)" and n: "\<And>k. y (Suc k) = system_clock rv tv (ins k) (y k)" and "\<exists>a. system_ok im a (y k)"
    and w: "\<And>k. K \<le> k \<Longrightarrow> \<not> w_valid (mem_wb_q (proc (y k)))" using r by blast+
  then obtain a where a: "system_ok im a (y k)" by blast
  show "\<not> in_reset (ins k)" using g by (simp add: good_clock_def)
  show p: "proc (y (Suc k)) = core_clock rv tv (ins k) (proc (y k))" by (simp add: n system_clock_def)
  show "trapping (proc (y k))" using r by blast
  show "lsu_ok (accessing (y k)) (lsu_inputs (proc (y k)) False) (lsu_s (proc (y k)))" "fetch_ok im (fetching (y k)) (fetch (proc (y k)))"
    using a by (simp_all add: system_ok_def pipe_ok_def)
  show "K \<le> k \<Longrightarrow> \<not> wb_trap (proc (y k))" using w [of k] by (simp add: wb_trap_def)
  show "K \<le> k \<Longrightarrow> \<not> w_valid (mem_wb_q (core_clock rv tv (ins k) (proc (y k))))" using w [of "Suc k"] by (simp add: p)
  show "fair_bus (\<lambda>k. imem (ins k)) (\<lambda>k. fetching (y k) \<noteq> None)" "fair_bus (\<lambda>k. dmem (ins k)) (\<lambda>k. accessing (y k) \<noteq> None)"
    using r by blast+
qed

lemma memory_empty:
  assumes r: "stuck_run rv tv im ins y K" and k: "K \<le> k"
  shows "\<not> e_valid (ex_mem_q (proc (y k)))"
proof
  note running = stuck_runD(1) [OF r] and proc_next = stuck_runD(2) [OF r] and no_trap = stuck_runD(6) [OF r]
    and still_stuck = stuck_runD(7) [OF r] and l = stuck_runD(4) [OF r]
  assume e: "e_valid (ex_mem_q (proc (y k)))"
  have ev: "e_valid (ex_mem_q (proc (y j)))" if "k \<le> j" for j
    using that
  proof (induction rule: dec_induct)
    case (step j)
    then show ?case using memory_moves [OF running no_trap step(3) still_stuck] k by (simp add: proc_next)
  qed (rule e)
  let ?r = "\<lambda>j. lsu_rank (lsu_s (proc (y j)))"
  have w: "mem_wait (ins j) (proc (y j))" "act (ins j) (proc (y j)) = ACTION_MEM_WAIT" if "k \<le> j" for j
    using memory_moves [OF running no_trap ev still_stuck] k that by simp_all
  have p: "?r (Suc j) \<le> ?r j \<and> (serves (dmem (ins j)) (?r j) \<longrightarrow> ?r (Suc j) < ?r j)" if j: "k \<le> j" for j
  proof -
    have m: "mem_is_memory (proc (y j))" "lsu_rsp False (lsu_inputs (proc (y j)) False) (dmem (ins j)) (lsu_s (proc (y j))) = None"
      using w(1) [OF j] running [of j] by (simp_all add: mem_wait_def lsu_done_def)
    then have x: "\<not> kill_i (lsu_inputs (proc (y j)) False)" "req_valid_i (lsu_inputs (proc (y j)) False)"
      "input_is_memory (lsu_inputs (proc (y j)) False)"
      using no_trap [of j] k j by (simp_all add: mem_is_memory_iff lsu_serves)
    have "lsu_s (proc (y (Suc j))) = lsu_clock False (lsu_inputs (proc (y j)) False) (dmem (ins j)) (lsu_s (proc (y j)))"
      using w(2) [OF j] by (simp add: proc_next core_clock_next(10) [OF running])
    then show ?thesis using lsu_progress [OF l x m(2)] by simp
  qed
  show False
  proof (rule fair_wait [OF stuck_runD(9) [OF r], of k ?r])
    fix j assume "?r j \<in> {1, 4}" "k \<le> j"
    then show "accessing (y j) \<noteq> None" using l [of j] by (cases "lsu_state (lsu_s (proc (y j)))") (auto simp: lsu_rank_def lsu_ok_def split: if_splits)
  qed (use p in blast)+
qed

lemma execute_empty:
  assumes r: "stuck_run rv tv im ins y K" and k: "K \<le> k"
  shows "\<not> d_valid (id_ex_q (proc (y k)))"
proof
  note running = stuck_runD(1) [OF r] and proc_next = stuck_runD(2) [OF r] and no_trap = stuck_runD(6) [OF r]
  assume d: "d_valid (id_ex_q (proc (y k)))"
  have a: "act (ins j) (proc (y j)) = ACTION_EX_WAIT" if "k \<le> j" "d_valid (id_ex_q (proc (y j)))" for j
  proof (rule execute_moves [OF running no_trap memory_empty [OF r] that(2), where rv = rv and tv = tv])
    show "\<not> e_valid (ex_mem_q (core_clock rv tv (ins j) (proc (y j))))"
      using memory_empty [OF r, of "Suc j"] k that(1) by (simp add: proc_next)
  qed (use k that(1) in simp_all)
  have dv: "d_valid (id_ex_q (proc (y j)))" if "k \<le> j" for j
    using that
  proof (induction rule: dec_induct)
    case (step j)
    then show ?case using mdu_progress [OF running a [OF step(1,3)]] by (simp add: proc_next)
  qed (rule d)
  have "mdu_rank (proc (y (Suc j))) < mdu_rank (proc (y j))" if "k \<le> j" for j
    using mdu_progress [OF running a [OF that dv [OF that]]] by (simp add: proc_next)
  then show False using no_endless_wait [of k "\<lambda>j. mdu_rank (proc (y j))"] by (metis less_imp_le less_irrefl le_SucI order_refl)
qed

lemma decode_empty:
  assumes r: "stuck_run rv tv im ins y K" and k: "K \<le> k"
  shows "\<not> trap_drain_q (proc (y k))" "\<not> f_valid (if_id_q (proc (y k)))"
proof -
  note running = stuck_runD(1) [OF r] and proc_next = stuck_runD(2) [OF r] and no_trap = stuck_runD(6) [OF r] and traps = stuck_runD(3) [OF r]
  show t: "\<not> trap_drain_q (proc (y k))"
    using traps [of k] no_trap [OF k] memory_empty [OF r k] execute_empty [OF r k] by (simp add: trapping_def)
  show "\<not> f_valid (if_id_q (proc (y k)))"
    using decode_moves [OF running no_trap [OF k] memory_empty [OF r k] execute_empty [OF r k] t]
      execute_empty [OF r, of "Suc k"] k running [of k] by (auto simp: proc_next)
qed

lemma not_stuck:
  assumes r: "stuck_run rv tv im ins y K"
  shows False
proof -
  note running = stuck_runD(1) [OF r] and proc_next = stuck_runD(2) [OF r] and no_trap = stuck_runD(6) [OF r]
  let ?r = "\<lambda>k. fetch_rank (fetch (proc (y k)))"
  note f = stuck_runD(5) [OF r]
  have p: "?r (Suc k) \<le> ?r k \<and> (serves (imem (ins k)) (?r k) \<longrightarrow> ?r (Suc k) < ?r k)" if k: "K \<le> k" for k
  proof -
    note m = fetch_moves [OF running [of k] no_trap [OF k] memory_empty [OF r k] execute_empty [OF r k] decode_empty [OF r k]]
    have "fetch_out False (fetch_inputs (ins k) (proc (y k))) (imem (ins k)) (fetch (proc (y k))) = None"
      using m(5) [of rv tv] decode_empty(2) [OF r le_SucI [OF k]] unfolding proc_next by blast
    from fetch_progress [OF f m(1-4) this, of rv] show ?thesis by (simp add: proc_next core_clock_next(11) [OF running])
  qed
  show False
  proof (rule fair_wait [OF stuck_runD(8) [OF r], of K ?r])
    fix k assume "?r k \<in> {1, 4}"
    then show "fetching (y k) \<noteq> None"
      using f [of k] by (cases "if_state (fetch (proc (y k)))") (auto simp: fetch_rank_def fetch_ok_def split: if_splits)
  qed (use p in blast)+
qed

text \<open>From a reset on, some packet reaches write-back after any moment.\<close>

lemma emits_again:
  fixes rv tv ins rf
  defines "y \<equiv> \<lambda>k. after (system_clock rv tv) ins k (system_reset rv tv rf)"
  assumes good: "\<forall>k. good_clock im (ins k) (y k)"
    and fair: "fair_bus (\<lambda>k. imem (ins k)) (\<lambda>k. fetching (y k) \<noteq> None)" "fair_bus (\<lambda>k. dmem (ins k)) (\<lambda>k. accessing (y k) \<noteq> None)"
  shows "\<exists>k\<ge>K. observed rv tv (ins k) (y k) \<noteq> []"
proof (rule ccontr)
  assume "\<not> (\<exists>k\<ge>K. observed rv tv (ins k) (y k) \<noteq> [])"
  then have quiet: "\<not> w_valid (mem_wb_q (core_clock rv tv (ins k) (proc (y k))))" if "K \<le> k" for k
    using that by (auto simp: observed_def Let_def split: if_splits)
  have n: "y (Suc k) = system_clock rv tv (ins k) (y k)" for k by (simp add: y_def)
  have "\<not> w_valid (mem_wb_q (proc (y k)))" if "Suc K \<le> k" for k
    using quiet [of "k - 1"] that n [of "k - 1"] by (cases k) (simp_all add: system_clock_def)
  moreover have "trapping (proc (y k))" for k
  proof (induction k)
    case 0
    show ?case by (simp add: y_def system_reset_def core_reset_def trapping_def)
  next
    case (Suc k)
    have "\<not> in_reset (ins k)" using good by (simp add: good_clock_def)
    then show ?case using trapping_next [OF _ Suc] by (simp add: n system_clock_def)
  qed
  moreover have "\<exists>a. system_ok im a (y k)" for k
    using rv32.runs_match [OF reset_ok good [unfolded y_def], of k] unfolding y_def by blast
  ultimately have "stuck_run rv tv im ins y (Suc K)" using good fair n by (simp add: stuck_run_def)
  then show False by (rule not_stuck)
qed

lemma emitted_grows:
  assumes "\<And>K. \<exists>k\<ge>K. e (ins k) (after f ins k s) \<noteq> []"
  shows "\<exists>m. n \<le> length (emitted f e ins m s)"
proof (induction n)
  case (Suc n)
  then obtain m where m: "n \<le> length (emitted f e ins m s)" by blast
  obtain k where k: "m \<le> k" "e (ins k) (after f ins k s) \<noteq> []" using assms by blast
  have "length (emitted f e ins m s) \<le> length (emitted f e ins k s)" using k(1) by (induction rule: dec_induct) simp_all
  moreover have "length (emitted f e ins (Suc k) s) = length (emitted f e ins k s) + length (e (ins k) (after f ins k s))" by simp
  moreover have "1 \<le> length (e (ins k) (after f ins k s))" using k(2) by (simp add: Suc_le_eq)
  ultimately have "Suc n \<le> length (emitted f e ins (Suc k) s)" using m by linarith
  then show ?case by blast
qed simp

end
