(* ===== verification/Core_Claims.thy ===== *)
theory Core_Claims
  imports Core_Live
begin

text \<open>
  The properties of the processor: its register file of machine-mode state, the execution of one instruction by the datapath, and the
  refinement of the instruction set by the pipeline.
\<close>

section \<open>Machine-mode state\<close>

text \<open>C19. The register file keeps the machine-mode state of the architecture: a read gives the register of the instruction set, an access is
  illegal exactly where the instruction set says so, and every clock does to that state the trap entry, the return, the write and the
  count of retired instructions it is told to commit, in that order of priority; reserved bits keep their values.\<close>

theorem csr_file_is_right:
  assumes "csr_ok f" and "cmd \<noteq> CSR_NONE" and "trap_valid i \<longrightarrow> \<not> retire_i i"
  shows "csr_ok (csr_next i f) \<and> mstate_of (csr_next i f) = committed i (mstate_of f) \<and>
    (csr_access_illegal f a cmd w \<longleftrightarrow>
       read_csr (csr_rdata tip f) (mstate_of f) a = None \<or> access_cmd_writes cmd w \<and> read_only_csr a) \<and>
    (\<not> csr_access_illegal f a cmd w \<longrightarrow> read_csr (csr_rdata tip f) (mstate_of f) a = Some (csr_rdata tip f a))"
proof -
  have "read_csr (csr_rdata tip f) (mstate_of f) a = Some (csr_rdata tip f a)" if "\<not> csr_access_illegal f a cmd w"
    using csr_read [OF assms(1), of tip a] that csr_access_illegal_iff [OF assms(1,2), of a w tip] by (simp split: if_splits)
  then show ?thesis
    using csr_next_ok [OF assms(1), of i] csr_commit [OF assms(3), of f] csr_access_illegal_iff [OF assms(1,2), of a w tip] by simp
qed

text \<open>A timer interrupt at 0x44 is committed by the file after its reset.\<close>

theorem csr_file_is_right_witness:
  "m_epc (mstate_of (csr_next
     \<lparr>commit_write = False, commit_waddr = 0, commit_wdata = 0, retire_i = False, mret_commit = False, trap_valid = True, trap_pc = 0x44,
      trap_is_interrupt = True, trap_cause = 7, trap_tval = 0\<rparr> (csr_reset 0x100))) = 0x44"
  (is "m_epc (mstate_of (csr_next ?i _)) = _")
proof -
  have "mstate_of (csr_next ?i (csr_reset 0x100)) = committed ?i (mstate_of (csr_reset 0x100))"
    using csr_file_is_right [where cmd = CSR_RW and i = ?i, OF csr_reset_state(1) [where v = "0x100"]] by simp
  then show ?thesis by (simp add: committed_def enter_trap_def word_aligned_def)
qed

section \<open>Execution of an instruction\<close>

text \<open>C9. The datapath executes an instruction as the instruction set says. A packet that carries the encoding of an instruction and
  gets the values of its source registers, the answer of the multiplier or divider and that of the register file of
  machine-mode state goes through the execute and memory stages; its bus request is the one of the
  instruction, and its commit gives the state after the instruction, traps, misaligned and failed accesses included.\<close>

theorem instruction_executes:
  assumes "fed env i a rs1 rs2 mdu rdata illegal mepc"
  shows "exec env i r a =
    (let e = packet_executed i (a_pc a) rs1 rs2 mdu rdata illegal mepc in (mem_request e, commit (mem_result e r) a))"
proof -
  let ?e = "packet_executed i (a_pc a) rs1 rs2 mdu rdata illegal mepc"
  have "e_pc ?e = a_pc a" using packet_of_instr [of "a_pc a" i] by (simp add: packet_executed_def)
  then show ?thesis using effect_executes [OF executed_shows [OF assms refl] _ assms] by (simp only: Let_def)
qed

text \<open>A halfword load at 0x1002 from a register that holds 0x1000, answered with the word 0x8765_4321.\<close>

definition witness_state :: arch where
  "witness_state = (arch_reset 0x100 0x200 (\<lambda>_. 0x1000))"

theorem instruction_executes_witness:
  "let e = packet_executed (LOAD Lh 3 5 2) 0x100 0x1000 0 0 0 False 0; r = \<lparr>rsp_rdata = 0x87654321, rsp_err = False\<rparr>
   in map_option req_addr (mem_request e) = Some 0x1000 \<and> a_reg (commit (mem_result e r) witness_state) 3 = 0xffff8765"
proof -
  let ?e = "packet_executed (LOAD Lh 3 5 2) 0x100 0x1000 0 0 0 False 0" and ?r = "\<lparr>rsp_rdata = 0x87654321, rsp_err = False\<rparr>"
  have pc: "a_pc witness_state = 0x100" by (simp add: witness_state_def arch_reset_def)
  have "fed (\<lambda>_. 0) (LOAD Lh 3 5 2) witness_state 0x1000 0 0 0 False 0"
    by (simp add: fed_def operand_def get_reg_def witness_state_def arch_reset_def)
  from instruction_executes [OF this, of ?r]
  have "exec (\<lambda>_. 0) (LOAD Lh 3 5 2) ?r witness_state = (mem_request ?e, commit (mem_result ?e ?r) witness_state)"
    unfolding pc Let_def .
  moreover have "map_option req_addr (fst (exec (\<lambda>_. 0) (LOAD Lh 3 5 2) ?r witness_state)) = Some 0x1000 \<and>
      a_reg (snd (exec (\<lambda>_. 0) (LOAD Lh 3 5 2) ?r witness_state)) 3 = 0xffff8765"
    
    by (simp add: exec_def operand_def get_reg_def witness_state_def arch_reset_def aligned_for_def load_request_def word_aligned_def
        loaded_def set_reg_def advance_def simm_def)
  ultimately show ?thesis by (simp add: Let_def)
qed

section \<open>Runs\<close>

text \<open>C1. The processor refines the instruction set. From a reset on, whatever the times at which the two buses take requests and answer
  them, whatever the data bus answers and whenever the timer interrupts, the sequence of instruction addresses and
  data accesses of every finite run of the pipeline is one of the architecture, which executes one instruction or takes one trap at a
  time; and the registers and the machine-mode state of the core are, with the commit in progress, those
  the architecture has reached.\<close>

theorem processor_refines_isa:
  assumes "\<forall>k. good_clock im (ins k) (after (system_clock rv tv) ins k (system_reset rv tv rf))"
  shows "\<exists>a. runs (visible_step im) (arch_reset rv tv rf) (emitted (system_clock rv tv) (observed rv tv) ins n (system_reset rv tv rf)) a \<and>
    (let s = proc (after (system_clock rv tv) ins n (system_reset rv tv rf))
     in a_reg a = commit_regs (mem_wb_q s) (regs s) \<and> a_m a = committed (commit_in (mem_wb_q s)) (mstate_of (csrf s)))"
proof -
  from rv32.runs_match [OF reset_ok assms, of n] obtain a where
    "runs (visible_step im) (arch_reset rv tv rf) (emitted (system_clock rv tv) (observed rv tv) ins n (system_reset rv tv rf)) a"
    "system_ok im a (after (system_clock rv tv) ins n (system_reset rv tv rf))" by blast
  then show ?thesis by (intro exI [of _ a]) (simp add: system_ok_def pipe_ok_def state_ok_def Let_def)
qed

text \<open>A memory of no-operations that answers at once.\<close>

theorem processor_refines_isa_witness:
  "let i = \<lparr>in_reset = False, in_mtip = False, imem = \<lparr>mem_ready = True, mem_rsp = Some \<lparr>rsp_rdata = 0x13, rsp_err = False\<rparr>\<rparr>,
        dmem = \<lparr>mem_ready = True, mem_rsp = None\<rparr>\<rparr>
   in \<exists>a. runs (visible_step (\<lambda>_. Some 0x13)) (arch_reset 0 0x100 (\<lambda>_. 7))
        (emitted (system_clock 0 0x100) (observed 0 0x100) (\<lambda>_. i) 6 (system_reset 0 0x100 (\<lambda>_. 7))) a"
proof -
  let ?i = "\<lparr>in_reset = False, in_mtip = False, imem = \<lparr>mem_ready = True, mem_rsp = Some \<lparr>rsp_rdata = 0x13, rsp_err = False\<rparr>\<rparr>,
        dmem = \<lparr>mem_ready = True, mem_rsp = None\<rparr>\<rparr>"
  have "\<forall>k. good_clock (\<lambda>_. Some 0x13) ((\<lambda>_. ?i) k) (after (system_clock 0 0x100) (\<lambda>_. ?i) k (system_reset 0 0x100 (\<lambda>_. 7)))"
    by (auto simp: good_clock_def answered_def answers_def completed_def split: option.splits)
  from processor_refines_isa [OF this, of 6] show ?thesis unfolding Let_def by blast
qed

text \<open>C4. The processor does not stop. If its two buses take requests again and again and answer what they have taken, with whatever
  delays, then after any number of packets one more reaches write-back: with the refinement above, the processor executes
  the instructions of a run of any length.\<close>

theorem processor_keeps_going:
  assumes "\<forall>k. good_clock im (ins k) (after (system_clock rv tv) ins k (system_reset rv tv rf))"
    and "fair_bus (\<lambda>k. imem (ins k)) (\<lambda>k. fetching (after (system_clock rv tv) ins k (system_reset rv tv rf)) \<noteq> None)"
    and "fair_bus (\<lambda>k. dmem (ins k)) (\<lambda>k. accessing (after (system_clock rv tv) ins k (system_reset rv tv rf)) \<noteq> None)"
  shows "\<exists>m. n \<le> length (emitted (system_clock rv tv) (observed rv tv) ins m (system_reset rv tv rf))"
  by (rule emitted_grows) (rule emits_again [OF assms])

text \<open>A memory of no-operations that answers at once.\<close>

theorem processor_keeps_going_witness:
  "let i = \<lparr>in_reset = False, in_mtip = False, imem = \<lparr>mem_ready = True, mem_rsp = Some \<lparr>rsp_rdata = 0x13, rsp_err = False\<rparr>\<rparr>,
        dmem = \<lparr>mem_ready = True, mem_rsp = Some \<lparr>rsp_rdata = 0, rsp_err = True\<rparr>\<rparr>\<rparr>
   in \<exists>m. 1000 \<le> length (emitted (system_clock 0 0x100) (observed 0 0x100) (\<lambda>_. i) m (system_reset 0 0x100 (\<lambda>_. 7)))"
proof -
  let ?i = "\<lparr>in_reset = False, in_mtip = False, imem = \<lparr>mem_ready = True, mem_rsp = Some \<lparr>rsp_rdata = 0x13, rsp_err = False\<rparr>\<rparr>,
        dmem = \<lparr>mem_ready = True, mem_rsp = Some \<lparr>rsp_rdata = 0, rsp_err = True\<rparr>\<rparr>\<rparr>"
  have "\<forall>k. good_clock (\<lambda>_. Some 0x13) ((\<lambda>_. ?i) k) (after (system_clock 0 0x100) (\<lambda>_. ?i) k (system_reset 0 0x100 (\<lambda>_. 7)))"
    by (auto simp: good_clock_def answered_def answers_def completed_def split: option.splits)
  moreover have "fair_bus (\<lambda>k. imem ((\<lambda>_. ?i) k)) w" "fair_bus (\<lambda>k. dmem ((\<lambda>_. ?i) k)) w" for w
    by (auto simp: fair_bus_def)
  ultimately show ?thesis unfolding Let_def using processor_keeps_going [of "\<lambda>_. Some 0x13" "\<lambda>_. ?i"] by blast
qed

end
