(* ===== verification/Core_Perf.thy ===== *)
theory Core_Perf
  imports Core_Clock
begin

text \<open>
  The performance counters and the trace outputs of \<^verbatim>\<open>rv32_core.sv\<close>. They read the pipeline and feed nothing back, so they are
  beside the state of the core.
\<close>

section \<open>Counters\<close>

record perf =
  perf_cycle :: u64
  perf_instret :: u64
  perf_load_use_stall :: u64
  perf_csr_stall :: u64
  perf_mdu_stall :: u64
  perf_mem_stall :: u64
  perf_redirect :: u64
  perf_squash :: u64

definition perf_reset :: perf where
  "perf_reset = \<lparr>perf_cycle = 0, perf_instret = 0, perf_load_use_stall = 0, perf_csr_stall = 0, perf_mdu_stall = 0, perf_mem_stall = 0,
     perf_redirect = 0, perf_squash = 0\<rparr>"

definition effective_mem_stall :: "core_in \<Rightarrow> core \<Rightarrow> bool" where
  "effective_mem_stall i s \<longleftrightarrow> mem_wait i s \<and> \<not> wb_trap s \<and> \<not> mem_exception i s"

definition effective_mdu_stall :: "core_in \<Rightarrow> core \<Rightarrow> bool" where
  "effective_mdu_stall i s \<longleftrightarrow> ex_wait i s \<and> mdu_op (d_ctrl (id_ex_q s)) \<noteq> MDU_NONE \<and> \<not> wb_trap s \<and> \<not> mem_exception i s \<and>
     \<not> mem_wait i s \<and> \<not> ex_exception i s"

definition effective_load_use_stall :: "core_in \<Rightarrow> core \<Rightarrow> bool" where
  "effective_load_use_stall i s \<longleftrightarrow>
     (let c = ctrl_inputs i s
      in ci_load_use c \<and> \<not> ci_irq_state_wait c \<and> \<not> wb_trap s \<and> \<not> mem_exception i s \<and> \<not> mem_wait i s \<and> \<not> ex_exception i s \<and>
         \<not> ex_wait i s \<and> \<not> trap_drain_q s \<and> \<not> redirect_valid (control_redirect i s) \<and> \<not> ci_id_exception c \<and> \<not> ci_id_interrupt c)"

definition effective_csr_stall :: "core_in \<Rightarrow> core \<Rightarrow> bool" where
  "effective_csr_stall i s \<longleftrightarrow>
     (let c = ctrl_inputs i s
      in (ci_irq_state_wait c \<or> ci_csr_dep c \<and> \<not> ci_load_use c) \<and> \<not> wb_trap s \<and> \<not> mem_exception i s \<and> \<not> mem_wait i s \<and>
         \<not> ex_exception i s \<and> \<not> ex_wait i s \<and> \<not> trap_drain_q s \<and> \<not> redirect_valid (control_redirect i s) \<and>
         \<not> ci_id_exception c \<and> \<not> ci_id_interrupt c)"

definition fetch_valid :: "core_in \<Rightarrow> core \<Rightarrow> bool" where
  "fetch_valid i s \<longleftrightarrow> fetch_out (in_reset i) (fetch_inputs i s) (imem i) (fetch s) \<noteq> None"

definition perf_clock :: "core_in \<Rightarrow> core \<Rightarrow> perf \<Rightarrow> perf" where
  "perf_clock i s p =
     (if in_reset i then perf_reset
      else \<lparr>perf_cycle = perf_cycle p + 1,
            perf_instret = (if wb_retire s then perf_instret p + 1 else perf_instret p),
            perf_load_use_stall = (if effective_load_use_stall i s then perf_load_use_stall p + 1 else perf_load_use_stall p),
            perf_csr_stall = (if effective_csr_stall i s then perf_csr_stall p + 1 else perf_csr_stall p),
            perf_mdu_stall = (if effective_mdu_stall i s then perf_mdu_stall p + 1 else perf_mdu_stall p),
            perf_mem_stall = (if effective_mem_stall i s then perf_mem_stall p + 1 else perf_mem_stall p),
            perf_redirect = (if redirect_valid (control_redirect i s) then perf_redirect p + 1 else perf_redirect p),
            perf_squash = (if redirect_valid (control_redirect i s)
                           then perf_squash p + of_bool (f_valid (if_id_q s)) + of_bool (fetch_valid i s) else perf_squash p)\<rparr>)"

section \<open>Trace\<close>

record trace_out =
  trace_valid :: bool
  trace_pc :: u32
  trace_insn :: u32
  trace_rd_we :: bool
  trace_rd_addr :: reg_addr_t
  trace_rd_data :: u32
  trace_mem_addr :: u32
  trace_mem_wstrb :: "4 word"
  trace_mem_wdata :: u32
  trace_trap :: bool
  trace_cause :: trap_cause_t
  trace_is_interrupt :: bool
  trace_control :: bool
  trace_taken :: bool
  trace_target :: u32

definition trace_outputs :: "core \<Rightarrow> trace_out" where
  "trace_outputs s =
     (let w = mem_wb_q s
      in \<lparr>trace_valid = w_valid w, trace_pc = w_pc w, trace_insn = w_insn w, trace_rd_we = wb_reg_write s, trace_rd_addr = w_rd w,
          trace_rd_data = w_wb_data w, trace_mem_addr = w_mem_addr w, trace_mem_wstrb = w_mem_wstrb w, trace_mem_wdata = w_mem_wdata w,
          trace_trap = wb_trap s, trace_cause = (if wb_trap s then exc_cause (w_exc w) else 0),
          trace_is_interrupt = (wb_trap s \<and> exc_irq (w_exc w)), trace_control = (wb_retire s \<and> w_control w),
          trace_taken = (wb_retire s \<and> w_control_taken w), trace_target = w_control_target w\<rparr>)"

section \<open>What the counters count\<close>

text \<open>
  The stall categories are exclusive, and each is an action of the controller, with one exception: a wait for the interrupt state
  with a faulting packet in decode is no stall of any category.
\<close>

lemma stalls_are_actions:
  assumes "\<not> in_reset i"
  shows "effective_mem_stall i s \<longleftrightarrow> act i s = ACTION_MEM_WAIT"
    "effective_mdu_stall i s \<longleftrightarrow> act i s = ACTION_EX_WAIT"
    "effective_load_use_stall i s \<longleftrightarrow> act i s = ACTION_ID_HAZARD \<and> load_use (id_ex_d i s) (id_ex_q s)"
    "effective_csr_stall i s \<longleftrightarrow>
       act i s = ACTION_IRQ_STATE_WAIT \<and> \<not> (d_valid (id_ex_d i s) \<and> exc_valid (d_exc (id_ex_d i s))) \<or>
       act i s = ACTION_ID_HAZARD \<and> \<not> load_use (id_ex_d i s) (id_ex_q s)"
proof -
  have x: "mdu_op (d_ctrl (id_ex_q s)) \<noteq> MDU_NONE" if "ex_wait i s" "\<not> wb_trap s" "\<not> mem_wait i s" "\<not> mem_exception i s"
    using that by (auto simp: ex_wait_def ex_fire_def ex_result_valid_def ex_result_ready_def is_mdu_def is_mul_def is_div_def)
  show "effective_mem_stall i s \<longleftrightarrow> act i s = ACTION_MEM_WAIT"
    unfolding act_eq [OF assms] effective_mem_stall_def by simp
  show "effective_mdu_stall i s \<longleftrightarrow> act i s = ACTION_EX_WAIT"
    unfolding act_eq [OF assms] effective_mdu_stall_def using x by simp
  show "effective_load_use_stall i s \<longleftrightarrow> act i s = ACTION_ID_HAZARD \<and> load_use (id_ex_d i s) (id_ex_q s)"
    unfolding act_eq [OF assms] effective_load_use_stall_def ctrl_inputs_def Let_def by auto
  show "effective_csr_stall i s \<longleftrightarrow>
       act i s = ACTION_IRQ_STATE_WAIT \<and> \<not> (d_valid (id_ex_d i s) \<and> exc_valid (d_exc (id_ex_d i s))) \<or>
       act i s = ACTION_ID_HAZARD \<and> \<not> load_use (id_ex_d i s) (id_ex_q s)"
    unfolding act_eq [OF assms] effective_csr_stall_def ctrl_inputs_def Let_def by auto
qed

lemma redirect_fires:
  "redirect_valid (control_redirect i s) \<Longrightarrow> \<not> wb_trap s \<and> \<not> mem_wait i s \<and> \<not> mem_exception i s \<and> \<not> ex_wait i s"
  by (auto simp: control_redirect_def ex_redirect_def ex_fire_def ex_result_ready_def ex_wait_def no_redirect_def split: if_splits)

text \<open>A clock adds to at most one stall counter.\<close>

lemma stalls_exclusive:
  assumes "\<not> in_reset i"
  shows "perf_load_use_stall (perf_clock i s p) + perf_csr_stall (perf_clock i s p) + perf_mdu_stall (perf_clock i s p) +
      perf_mem_stall (perf_clock i s p) =
    perf_load_use_stall p + perf_csr_stall p + perf_mdu_stall p + perf_mem_stall p +
      of_bool (act i s \<in> {ACTION_MEM_WAIT, ACTION_EX_WAIT, ACTION_ID_HAZARD} \<or>
        act i s = ACTION_IRQ_STATE_WAIT \<and> \<not> (d_valid (id_ex_d i s) \<and> exc_valid (d_exc (id_ex_d i s))))"
  using assms by (simp add: perf_clock_def stalls_are_actions [OF assms] algebra_simps)

end
