(* ===== verification/Asm.thy ===== *)
theory Asm
  imports Core_Arch Core_Decode_Proofs Soc_Bus
begin

text \<open>
  Assembly programs. A program is a partial function from addresses to instructions; the machine that
  runs it is the architecture of the processor with the tightly coupled memory, and one step executes the
  instruction at the program counter. The registers have the names of the ABI, and the pseudo-instructions of the
  assembler are expanded as the linker leaves them with \<^verbatim>\<open>-mno-relax\<close>.
\<close>

section \<open>Registers and pseudo-instructions\<close>

abbreviation "ra \<equiv> (1 :: reg_addr_t)"
abbreviation "sp \<equiv> (2 :: reg_addr_t)"
abbreviation "gp \<equiv> (3 :: reg_addr_t)"
abbreviation "tp \<equiv> (4 :: reg_addr_t)"
abbreviation "t0 \<equiv> (5 :: reg_addr_t)"
abbreviation "t1 \<equiv> (6 :: reg_addr_t)"
abbreviation "a0 \<equiv> (10 :: reg_addr_t)"
abbreviation "a1 \<equiv> (11 :: reg_addr_t)"
abbreviation "a2 \<equiv> (12 :: reg_addr_t)"
abbreviation "t5 \<equiv> (30 :: reg_addr_t)"
abbreviation "t6 \<equiv> (31 :: reg_addr_t)"

text \<open>
  An offset from the program counter is split into the upper 20 bits, rounded, and the lower 12, signed.
\<close>

definition hi20 :: "u32 \<Rightarrow> 20 word" where "hi20 d = ucast (drop_bit 12 (d + 0x800))"
definition lo12 :: "u32 \<Rightarrow> 12 word" where "lo12 d = ucast d"

definition la :: "u32 \<Rightarrow> reg_addr_t \<Rightarrow> u32 \<Rightarrow> instr list" where
  "la pc rd s = [AUIPC rd (hi20 (s - pc)), OPIMM Addi rd rd (lo12 (s - pc))]"

definition call :: "u32 \<Rightarrow> u32 \<Rightarrow> instr list" where
  "call pc f = [AUIPC ra (hi20 (f - pc)), JALR ra ra (lo12 (f - pc))]"

definition tail :: "u32 \<Rightarrow> u32 \<Rightarrow> instr list" where
  "tail pc f = [AUIPC t1 (hi20 (f - pc)), JALR 0 t1 (lo12 (f - pc))]"

definition li :: "reg_addr_t \<Rightarrow> 12 word \<Rightarrow> instr" where "li rd v = OPIMM Addi rd 0 v"
definition j_insn :: "20 word \<Rightarrow> instr" where "j_insn off = JAL 0 off"
definition csrr :: "reg_addr_t \<Rightarrow> csr_addr_t \<Rightarrow> instr" where "csrr rd c = CSR Csrrs rd 0 c"
definition csrw :: "csr_addr_t \<Rightarrow> reg_addr_t \<Rightarrow> instr" where "csrw c rs = CSR Csrrw 0 rs c"
definition csrci :: "csr_addr_t \<Rightarrow> reg_addr_t \<Rightarrow> instr" where "csrci c n = CSR Csrrci 0 n c"
definition unimp :: instr where "unimp = CSR Csrrw 0 0 0xc00"

lemma uimm_hi20: "uimm (hi20 d) = d + 0x800 - take_bit 12 (d + 0x800)"
proof -
  have "uimm (hi20 d) = push_bit 12 (drop_bit 12 (d + 0x800))"
    by (rule bit_word_eqI) (auto simp: uimm_push hi20_def bit_simps)
  also have "\<dots> = d + 0x800 - take_bit 12 (d + 0x800)"
    using bits_ident [of 12 "d + 0x800"] by (metis add_diff_cancel_right')
  finally show ?thesis .
qed

lemma simm_lo12: "simm (lo12 d) = take_bit 12 (d + 0x800) - 0x800"
proof -
  have "sint (lo12 d) = signed_take_bit 11 (uint d)"
    by (simp add: lo12_def sint_uint unsigned_ucast_eq signed_take_bit_take_bit)
  also have "\<dots> = take_bit 12 (uint d + 2048) - 2048"
    by (simp add: signed_take_bit_eq_take_bit_shift)
  also have "take_bit 12 (uint d + 2048) = uint (take_bit 12 (d + 0x800))"
    unfolding unsigned_take_bit_eq uint_word_ariths by (simp add: take_bit_eq_mod mod_mod_cancel)
  finally show ?thesis by (simp add: simm_def)
qed

lemma hi_lo [simp]: "uimm (hi20 d) + simm (lo12 d) = d"
  by (simp add: uimm_hi20 simm_lo12)

section \<open>The machine\<close>

type_synonym machine = "arch \<times> mem"
type_synonym code = "u32 \<Rightarrow> instr option"

text \<open>A list of instructions from an address on, and a program that has it there.\<close>

primrec placed :: "u32 \<Rightarrow> instr list \<Rightarrow> code" where
  "placed b [] = (\<lambda>_. None)"
| "placed b (i # p) = (placed (b + 4) p)(b \<mapsto> i)"

primrec code_at :: "code \<Rightarrow> u32 \<Rightarrow> instr list \<Rightarrow> bool" where
  "code_at code b [] \<longleftrightarrow> True"
| "code_at code b (i # p) \<longleftrightarrow> code b = Some i \<and> code_at code (b + 4) p"

lemma beyond:
  fixes a b :: u32
  assumes "4 \<le> unat (a - b)"
  shows "unat (a - b) = unat (a - (b + 4)) + 4"
proof -
  have "unat (a - b - 4) = unat (a - b) - unat (4 :: u32)"
    by (rule unat_sub) (use assms in \<open>simp add: word_le_nat_alt\<close>)
  then show ?thesis using assms by (simp add: diff_diff_eq)
qed

lemma placed_beyond: "4 * length p \<le> unat (a - b) \<Longrightarrow> placed b p a = None"
proof (induction p arbitrary: b)
  case (Cons i p)
  then show ?case using beyond [of a b] by auto
qed simp

lemma code_at_upd: "(\<forall>k < length p. b + 4 * of_nat k \<noteq> c) \<Longrightarrow> code_at (code(c := x)) b p \<longleftrightarrow> code_at code b p"
proof (induction p arbitrary: b)
  case (Cons i p)
  have "b + 4 + 4 * of_nat k \<noteq> c" if "k < length p" for k
    using Cons.prems [rule_format, of "Suc k"] that by (simp add: add.assoc)
  then have "code_at (code(c := x)) (b + 4) p \<longleftrightarrow> code_at code (b + 4) p" by (intro Cons.IH) blast
  then show ?case using Cons.prems [rule_format, of 0] by (simp add: fun_upd_other del: fun_upd_apply)
qed simp

lemma code_at_placed: "4 * length p < 2 ^ 32 \<Longrightarrow> code_at (placed b p) b p"
proof (induction p arbitrary: b)
  case (Cons i p)
  have "b + 4 + 4 * of_nat k \<noteq> b" if "k < length p" for k
  proof
    assume "b + 4 + 4 * of_nat k = b"
    then have "of_nat (4 * Suc k) = (0 :: u32)" by (simp add: algebra_simps)
    moreover have "unat (of_nat (4 * Suc k) :: u32) = 4 * Suc k" using that Cons.prems by (subst unat_of_nat) simp
    ultimately show False by simp
  qed
  then show ?case using Cons by (simp add: code_at_upd fun_upd_same del: fun_upd_apply)
qed simp

lemma code_at_append: "code_at code b (p @ q) \<longleftrightarrow> code_at code b p \<and> code_at code (b + 4 * of_nat (length p)) q"
  by (induction p arbitrary: b) (simp_all add: algebra_simps)

text \<open>
  The two ports of the memory, which has \<open>bytes\<close> bytes from address 0 on. The processor uses the data port for these addresses; the others
  belong to the devices, which are none of this machine.
\<close>

definition tcm_fetch :: "nat \<Rightarrow> mem \<Rightarrow> u32 \<Rightarrow> u32 option" where
  "tcm_fetch bytes m a = (if unat a < bytes \<and> unat a mod 4 = 0 then Some (load32 m a) else None)"

definition tcm_port :: "nat \<Rightarrow> request \<Rightarrow> mem \<Rightarrow> response \<times> mem" where
  "tcm_port bytes q m =
     (if unat (req_addr q) < bytes \<and> unat (req_addr q) mod 4 = 0
      then (ok_response (load32 m (req_addr q)), if req_write q then tcm_write q m else m) else (err_response, m))"

definition tcm_data :: "nat \<Rightarrow> request \<Rightarrow> mem \<Rightarrow> (response \<times> mem) option" where
  "tcm_data bytes q m = (if unat (req_addr q) < bytes then Some (tcm_port bytes q m) else None)"

lemma tcm_clock_port: "tcm_clock (Some q) m = (Some (fst (tcm_port 0x10000 q m)), snd (tcm_port 0x10000 q m))"
proof -
  have "req_addr q AND 3 = take_bit 2 (req_addr q)" by (simp add: take_bit_eq_mask mask_eq_exp_minus_1)
  then have "req_addr q AND 3 = 0 \<longleftrightarrow> unat (req_addr q) mod 4 = 0"
    by (simp add: word_unat_eq_iff take_bit_eq_mod unat_mod)
  then show ?thesis
    by (simp add: tcm_clock_def tcm_port_def tcm_in_range_def aligned_def word_less_nat_alt)
qed

text \<open>
  One step. There is none where the program has no instruction, where an interrupt may be taken, at a read of a register that changes with
  time, at a store into the program and at a data access outside the memory.
\<close>

definition timeless :: "instr \<Rightarrow> bool" where
  "timeless i \<longleftrightarrow> (case i of CSR f rd x c \<Rightarrow> \<not> volatile_csr c | _ \<Rightarrow> True)"

definition asm_exec :: "nat \<Rightarrow> code \<Rightarrow> instr \<Rightarrow> machine \<Rightarrow> machine option" where
  "asm_exec bytes code i x =
     (case exec (\<lambda>_. 0) i err_response (fst x) of
        (None, s) \<Rightarrow> Some (s, snd x)
      | (Some q, _) \<Rightarrow>
          if req_write q \<and> code (req_addr q) \<noteq> None then None
          else (case tcm_data bytes q (snd x) of
                  None \<Rightarrow> None
                | Some (rsp, m) \<Rightarrow> Some (snd (exec (\<lambda>_. 0) i rsp (fst x)), m)))"

definition asm_step :: "nat \<Rightarrow> code \<Rightarrow> machine \<Rightarrow> machine option" where
  "asm_step bytes code x =
     (case code (a_pc (fst x)) of
        None \<Rightarrow> None
      | Some i \<Rightarrow> if (m_ie (a_m (fst x)) \<and> m_tie (a_m (fst x))) \<or> \<not> timeless i then None else asm_exec bytes code i x)"

primrec asm_run :: "nat \<Rightarrow> code \<Rightarrow> nat \<Rightarrow> machine \<Rightarrow> machine option" where
  "asm_run bytes code 0 x = Some x"
| "asm_run bytes code (Suc n) x = (case asm_step bytes code x of None \<Rightarrow> None | Some y \<Rightarrow> asm_run bytes code n y)"

text \<open>
  The same machine as the processor specification has it: every step of the architecture that is answered by the memory.
\<close>

inductive mach_step :: "nat \<Rightarrow> machine \<Rightarrow> machine \<Rightarrow> bool" for bytes where
  mach_plain: "arch_step (tcm_fetch bytes m) s None s' \<Longrightarrow> mach_step bytes (s, m) (s', m)"
| mach_data: "arch_step (tcm_fetch bytes m) s (Some (q, rsp)) s' \<Longrightarrow> tcm_data bytes q m = Some (rsp, m') \<Longrightarrow>
    mach_step bytes (s, m) (s', m')"

definition holds_code :: "nat \<Rightarrow> code \<Rightarrow> mem \<Rightarrow> bool" where
  "holds_code bytes code m \<longleftrightarrow> (\<forall>a i. code a = Some i \<longrightarrow> tcm_fetch bytes m a = Some (encode i))"

section \<open>Steps of single instructions\<close>

lemma get_set_reg [simp]: "get_reg (set_reg r v s) x = (if x = r \<and> r \<noteq> 0 then v else get_reg s x)"
  by (simp add: get_reg_def set_reg_def)

lemma get_reg_0 [simp]: "get_reg s 0 = 0"
  by (simp add: get_reg_def)

lemma set_reg_sel [simp]: "a_pc (set_reg r v s) = a_pc s" "a_m (set_reg r v s) = a_m s"
  by (simp_all add: set_reg_def)

lemma advance_sel [simp]: "a_pc (advance pc s) = pc" "a_m (advance pc s) = retire (a_m s)" "get_reg (advance pc s) = get_reg s"
  by (simp_all add: advance_def get_reg_def fun_eq_iff)

lemma retire_sel [simp]: "m_ie (retire m) = m_ie m" "m_pie (retire m) = m_pie m" "m_tie (retire m) = m_tie m" "m_tvec (retire m) = m_tvec m"
    "m_scratch (retire m) = m_scratch m" "m_epc (retire m) = m_epc m" "m_cause (retire m) = m_cause m" "m_tval (retire m) = m_tval m"
  by (simp_all add: retire_def)

lemma aligned_add:
  fixes a b :: u32
  assumes "unat a mod 4 = 0" "unat b mod 4 = 0"
  shows "unat (a + b) mod 4 = 0"
proof -
  have "unat (a + b) mod 4 = (unat a + unat b) mod 4" by (simp add: unat_word_ariths mod_mod_cancel)
  then show ?thesis using assms by (simp add: mod_eq_0_iff_dvd)
qed

lemma aligned_same:
  assumes "unat a mod 4 = 0"
  shows "word_aligned a = a" "aligned_for 4 a"
  using assms by (auto simp: word_aligned_def aligned_for_def dvd_div_mult_self [of 4 "unat a"] dvd_eq_mod_eq_0)

lemma whole_word [simp]: "of_nat (unat v mod 4294967296) = (v :: u32)"
proof -
  have "unat v < 2 ^ LENGTH(32)" by (rule unsigned_less)
  then show ?thesis by simp
qed

lemma word_store:
  assumes "unat a mod 4 = 0"
  shows "tcm_write (store_request Sw a v) m = store32 a v m"
  by (simp add: tcm_write_def store_request_def store32_def byte_lanes_def aligned_same [OF assms] assms bit_simps)

named_theorems asm_insn

lemma pc_rel [simp]: "p + uimm (hi20 (f - p)) + simm (lo12 (f - p)) = f"
  using hi_lo [of "f - p"] by (simp add: add.assoc)

lemma even_target [simp]:
  assumes "unat f mod 4 = 0"
  shows "of_nat (unat f div 2) * 2 = (f :: u32)"
proof -
  have "unat f div 2 * 2 = unat f" using assms by presburger
  then have "of_nat (unat f div 2 * 2) = f" by simp
  then show ?thesis by simp
qed

lemma asm_exec_moves [asm_insn]:
  "asm_exec bytes code (LUI rd u) (s, m) = Some (set_reg rd (uimm u) (advance (a_pc s + 4) s), m)"
  "asm_exec bytes code (AUIPC rd u) (s, m) = Some (set_reg rd (a_pc s + uimm u) (advance (a_pc s + 4) s), m)"
  "asm_exec bytes code (OPIMM f rd rs v) (s, m) =
     Some (set_reg rd (rop_value (iop_rop f) (get_reg s rs) (simm v)) (advance (a_pc s + 4) s), m)"
  "asm_exec bytes code (SHIFT h rd rs k) (s, m) =
     Some (set_reg rd (rop_value (shop_rop h) (get_reg s rs) (ucast k)) (advance (a_pc s + 4) s), m)"
  "asm_exec bytes code (OP g rd rs rt) (s, m) =
     Some (set_reg rd (rop_value g (get_reg s rs) (get_reg s rt)) (advance (a_pc s + 4) s), m)"
  "asm_exec bytes code MRET (s, m) = Some ((advance (m_epc (a_m s)) s)\<lparr>a_m := leave_trap (retire (a_m s))\<rparr>, m)"
  by (simp_all add: asm_exec_def exec_def operand_def)

lemma asm_exec_jumps [asm_insn]:
  "unat (a_pc s + offset d) mod 4 = 0 \<Longrightarrow>
     asm_exec bytes code (JAL rd d) (s, m) = Some (set_reg rd (a_pc s + 4) (advance (a_pc s + offset d) s), m)"
  "unat (get_reg s rs + simm v) mod 4 = 0 \<Longrightarrow>
     asm_exec bytes code (JALR rd rs v) (s, m) = Some (set_reg rd (a_pc s + 4) (advance (get_reg s rs + simm v) s), m)"
  "unat (a_pc s + offset b) mod 4 = 0 \<Longrightarrow>
     asm_exec bytes code (BRANCH c rs rt b) (s, m) =
       Some (advance (if bcond_holds c (get_reg s rs) (get_reg s rt) then a_pc s + offset b else a_pc s + 4) s, m)"
  by (simp_all add: asm_exec_def exec_def operand_def go_to_def)

lemma asm_exec_store [asm_insn]:
  assumes "unat (get_reg s rs + simm v) < bytes" "unat (get_reg s rs + simm v) mod 4 = 0" "code (get_reg s rs + simm v) = None"
  shows "asm_exec bytes code (STORE Sw rt rs v) (s, m) =
    Some (advance (a_pc s + 4) s, store32 (get_reg s rs + simm v) (get_reg s rt) m)"
proof -
  have "req_write (store_request Sw a w)" "req_addr (store_request Sw a w) = word_aligned a" for a w
    by (simp_all add: store_request_def)
  then show ?thesis using assms
    by (simp add: asm_exec_def exec_def operand_def tcm_data_def tcm_port_def aligned_same word_store ok_response_def)
qed

lemma asm_exec_load [asm_insn]:
  assumes "unat (get_reg s rs + simm v) < bytes" "unat (get_reg s rs + simm v) mod 4 = 0"
  shows "asm_exec bytes code (LOAD Lw rd rs v) (s, m) =
    Some (set_reg rd (load32 m (get_reg s rs + simm v)) (advance (a_pc s + 4) s), m)"
  using assms by (simp add: asm_exec_def exec_def operand_def tcm_data_def tcm_port_def aligned_same load_request_def ok_response_def loaded_def)

text \<open>A register of the machine-mode state that is read, and one that is written; not the count of instructions.\<close>

lemma asm_exec_csr [asm_insn]:
  assumes "read_csr (\<lambda>_. 0) (a_m s) c = Some old" "\<not> (csr_writes f x \<and> read_only_csr c)" "c \<notin> {CSR_MINSTRET, CSR_MINSTRETH}"
  shows "asm_exec bytes code (CSR f rd x c) (s, m) = Some ((set_reg rd old (advance (a_pc s + 4) s))
    \<lparr>a_m := if csr_writes f x then write_csr c (csr_new f old (if f \<in> {Csrrw, Csrrs, Csrrc} then get_reg s x else ucast x)) (retire (a_m s))
       else retire (a_m s)\<rparr>, m)"
  using assms by (auto simp: asm_exec_def exec_def exec_csr_def operand_def set_reg_def advance_def Let_def)

text \<open>The processor takes no interrupt.\<close>

definition calm :: "arch \<Rightarrow> bool" where
  "calm s \<longleftrightarrow> \<not> (m_ie (a_m s) \<and> m_tie (a_m s))"

lemma asm_step_calm [asm_insn]:
  "calm s \<Longrightarrow> asm_step bytes code (s, m) =
     (case code (a_pc s) of None \<Rightarrow> None | Some i \<Rightarrow> if timeless i then asm_exec bytes code i (s, m) else None)"
  by (cases "code (a_pc s)") (auto simp: asm_step_def calm_def)

lemma calm_keep [simp]: "calm (set_reg r v s) \<longleftrightarrow> calm s" "calm (advance pc s) \<longleftrightarrow> calm s"
  by (simp_all add: calm_def)

lemma simm_numeral [asm_insn]:
  "simm (numeral k) = of_int (sint (numeral k :: 12 word))" "simm (- numeral k) = of_int (sint (- numeral k :: 12 word))" "simm 0 = 0" "simm 1 = 1"
  by (simp_all add: simm_def)

lemma with_mstate [simp]:
  "get_reg (s\<lparr>a_m := x\<rparr>) r = get_reg s r" "calm (s\<lparr>a_m := x\<rparr>) \<longleftrightarrow> \<not> (m_ie x \<and> m_tie x)"
  by (simp_all add: get_reg_def calm_def)

lemma calmD [simp]: "calm s \<Longrightarrow> m_ie (a_m s) \<longrightarrow> \<not> m_tie (a_m s)"
  by (simp add: calm_def)

lemmas csr_facts = read_csr_def volatile_csr_def read_only_csr_def csr_writes_def write_csr_def csr_addr_defs

lemma asm_run_numeral [asm_insn]:
  "asm_run bytes code (numeral k) x =
     (case asm_step bytes code x of None \<Rightarrow> None | Some y \<Rightarrow> asm_run bytes code (pred_numeral k) y)"
  by (simp add: numeral_eq_Suc)

lemma timeless_insn [asm_insn]:
  "timeless (LUI rd u)" "timeless (AUIPC rd u)" "timeless (JAL rd off)" "timeless (JALR rd rs v)" "timeless (BRANCH c rs rt d)"
  "timeless (LOAD w rd rs v)" "timeless (STORE z rt rs v)" "timeless (OPIMM f rd rs v)" "timeless (SHIFT h rd rs k)"
  "timeless (OP g rd rs rt)" "timeless MRET" "timeless (CSR x rd rs n) \<longleftrightarrow> \<not> volatile_csr n"
  by (simp_all add: timeless_def)

section \<open>Runs\<close>

definition reach :: "nat \<Rightarrow> code \<Rightarrow> machine \<Rightarrow> machine \<Rightarrow> bool" where
  "reach bytes code x y \<longleftrightarrow> (\<exists>n. asm_run bytes code n x = Some y)"

lemma asm_run_add: "asm_run bytes code (k + n) x = Option.bind (asm_run bytes code k x) (asm_run bytes code n)"
  by (induction k arbitrary: x) (simp_all split: option.split)

lemma reach_refl [simp]: "reach bytes code x x"
  unfolding reach_def by (rule exI [of _ 0]) simp

lemma reach_trans: "reach bytes code x y \<Longrightarrow> reach bytes code y z \<Longrightarrow> reach bytes code x z"
  unfolding reach_def by (metis asm_run_add bind.bind_lunit)

lemma reach_run: "asm_run bytes code n x = Some y \<Longrightarrow> reach bytes code x y"
  by (auto simp: reach_def)

lemma reach_ex: "\<exists>y. asm_run bytes code n x = Some (y, m) \<and> P y \<Longrightarrow> \<exists>y. reach bytes code x (y, m) \<and> P y"
  by (auto dest: reach_run)

lemma reach_step: "asm_step bytes code x = Some y \<Longrightarrow> reach bytes code y z \<Longrightarrow> reach bytes code x z"
  by (rule reach_trans [of _ _ _ y]) (auto simp: reach_def intro: exI [of _ "Suc 0"])

end
