(* ===== verification/Asm_Sound.thy ===== *)
theory Asm_Sound
  imports Asm
begin

text \<open>
  The function \<open>asm_run\<close> gives all the runs of the machine: where it has a result, the architecture with the memory that holds
  the program has no other.
\<close>


lemma exec_timeless:
  assumes "timeless i"
  shows "exec env i rsp s = exec (\<lambda>_. 0) i rsp s"
proof -
  have "read_csr env (a_m s) c = read_csr (\<lambda>_. 0) (a_m s) c" if "outcome i pc a b = CsrAccess f rd c x v" for pc a b f rd c x v
  proof -
    have "\<not> volatile_csr c" using assms that by (cases i) (auto simp: go_to_def timeless_def split: if_splits)
    then show ?thesis by (simp add: read_csr_def)
  qed
  then show ?thesis
    by (cases "outcome i (a_pc s) (operand (source1 i) s) (operand (source2 i) s)") (simp_all add: exec_def exec_csr_def)
qed

lemma exec_request: "fst (exec env i rsp s) = fst (exec env i rsp' s)"
  by (simp add: exec_def split: effect.split option.split)

lemma exec_no_request: "fst (exec env i rsp s) = None \<Longrightarrow> exec env i rsp s = exec env i rsp' s"
  by (auto simp: exec_def split: effect.splits option.splits if_splits)

lemma tcm_write_other: "\<forall>k < 4. b \<noteq> req_addr q + of_nat k \<Longrightarrow> tcm_write q m b = m b"
  by (auto simp: tcm_write_def numeral_eq_Suc All_less_Suc)

lemma unat_in_word:
  fixes a :: u32
  assumes "unat a mod 4 = 0" "k < 4"
  shows "unat (a + of_nat k) = unat a + k"
proof -
  have "unat a < 2 ^ LENGTH(32)" by (rule unsigned_less)
  then have "unat a + k < 2 ^ 32" using assms by simp presburger
  then show ?thesis using assms(2) by (simp add: unat_word_ariths unat_of_nat)
qed

lemma tcm_write_apart:
  assumes "unat a mod 4 = 0" "unat (req_addr q) mod 4 = 0" "a \<noteq> req_addr q"
  shows "load32 (tcm_write q m) a = load32 m a"
proof -
  have "tcm_write q m (a + of_nat k) = m (a + of_nat k)" if k: "k < 4" for k
  proof (rule tcm_write_other, intro allI impI notI)
    fix j :: nat assume j: "j < 4" and eq: "a + of_nat k = req_addr q + of_nat j"
    have "unat a + k = unat (req_addr q) + j"
      using unat_in_word [OF assms(1) k] unat_in_word [OF assms(2) j] eq by simp
    then have "unat a = unat (req_addr q)" using assms(1,2) k j by presburger
    then show False using assms(3) by (simp add: word_unat_eq_iff)
  qed
  from this [of 0] this [of 1] this [of 2] this [of 3] show ?thesis by (simp add: load32_def)
qed

lemma asm_step_sound:
  assumes "holds_code bytes code (snd x)" "asm_step bytes code x = Some y"
  shows "holds_code bytes code (snd y)" "mach_step bytes x z \<longleftrightarrow> z = y"
proof -
  obtain s m where x: "x = (s, m)" by (cases x)
  obtain i where i: "code (a_pc s) = Some i" "\<not> (m_ie (a_m s) \<and> m_tie (a_m s))" "timeless i" "asm_exec bytes code i (s, m) = Some y"
    using assms(2) by (auto simp: asm_step_def x split: option.splits if_splits)
  have f: "tcm_fetch bytes m (a_pc s) = Some (encode i)" using assms(1) i(1) by (simp add: holds_code_def x)
  have arch: "arch_step (tcm_fetch bytes m) s l t \<longleftrightarrow>
      (\<exists>rsp. l = map_option (\<lambda>q. (q, rsp)) (fst (exec (\<lambda>_. 0) i rsp s)) \<and> t = snd (exec (\<lambda>_. 0) i rsp s))" for l t
  proof
    assume "arch_step (tcm_fetch bytes m) s l t"
    then show "\<exists>rsp. l = map_option (\<lambda>q. (q, rsp)) (fst (exec (\<lambda>_. 0) i rsp s)) \<and> t = snd (exec (\<lambda>_. 0) i rsp s)"
    proof cases
      case (step_exec j env rsp q)
      then have "j = i" using f encode_inject [of j i] by simp
      then have "exec (\<lambda>_. 0) i rsp s = (q, t)" using step_exec(3) exec_timeless [OF i(3), of env rsp s] by simp
      then show ?thesis using step_exec(1) by (intro exI [of _ rsp]) simp
    qed (use f i(2) in auto)
  next
    assume "\<exists>rsp. l = map_option (\<lambda>q. (q, rsp)) (fst (exec (\<lambda>_. 0) i rsp s)) \<and> t = snd (exec (\<lambda>_. 0) i rsp s)"
    then show "arch_step (tcm_fetch bytes m) s l t" using step_exec [where im = "tcm_fetch bytes m" and env = "\<lambda>_. 0", OF f] by (metis prod.collapse)
  qed
  have mach: "mach_step bytes x z \<longleftrightarrow> (\<exists>l t m'. arch_step (tcm_fetch bytes m) s l t \<and> z = (t, m') \<and>
      (case l of None \<Rightarrow> m' = m | Some (q, rsp) \<Rightarrow> tcm_data bytes q m = Some (rsp, m')))"
    unfolding x mach_step.simps [of bytes "(s, m)" z] by (auto split: option.splits prod.splits) (metis option.exhaust surj_pair)
  show "mach_step bytes x z \<longleftrightarrow> z = y"
  proof (cases "fst (exec (\<lambda>_. 0) i err_response s)")
    case None
    define t where "t = snd (exec (\<lambda>_. 0) i err_response s)"
    have all: "exec (\<lambda>_. 0) i rsp s = (None, t)" for rsp
      using exec_no_request [of "\<lambda>_. 0" i err_response s rsp] None by (simp add: t_def prod_eq_iff)
    have "y = (t, m)" using i(4) by (simp add: asm_exec_def all)
    then show ?thesis unfolding mach arch all by simp
  next
    case (Some q)
    then have all: "fst (exec (\<lambda>_. 0) i rsp s) = Some q" for rsp using exec_request [of "\<lambda>_. 0" i rsp s err_response] by simp
    obtain rsp m' where "tcm_data bytes q m = Some (rsp, m')" "y = (snd (exec (\<lambda>_. 0) i rsp s), m')"
      using i(4) Some by (auto simp: asm_exec_def split: prod.splits option.splits if_splits)
    then show ?thesis unfolding mach arch all by (auto intro!: exI [of _ "Some (q, rsp)"])
  qed
  show "holds_code bytes code (snd y)"
  proof (cases "fst (exec (\<lambda>_. 0) i err_response s)")
    case None
    then have "snd y = m" using i(4) by (auto simp: asm_exec_def split: prod.splits)
    then show ?thesis using assms(1) by (simp add: x)
  next
    case (Some q)
    then obtain rsp where rsp: "tcm_data bytes q m = Some (rsp, snd y)" "req_write q \<longrightarrow> code (req_addr q) = None"
      using i(4) by (auto simp: asm_exec_def split: prod.splits option.splits if_splits)
    have "snd y = m \<or> req_write q \<and> unat (req_addr q) mod 4 = 0 \<and> snd y = tcm_write q m"
      using rsp(1) by (auto simp: tcm_data_def tcm_port_def split: if_splits)
    moreover have "load32 (tcm_write q m) a = load32 m a"
      if "req_write q" "unat (req_addr q) mod 4 = 0" "code a = Some j" for a j
    proof (rule tcm_write_apart [OF _ that(2)])
      have "tcm_fetch bytes m a = Some (encode j)" using assms(1) that(3) by (simp add: holds_code_def x)
      then show "unat a mod 4 = 0" by (simp add: tcm_fetch_def split: if_splits)
      show "a \<noteq> req_addr q" using rsp(2) that(1,3) by auto
    qed
    ultimately have "load32 (snd y) a = load32 m a" if "code a = Some j" for a j using that by metis
    then have "tcm_fetch bytes (snd y) a = tcm_fetch bytes m a" if "code a = Some j" for a j
      using that by (simp add: tcm_fetch_def)
    then show ?thesis using assms(1) by (simp add: holds_code_def x)
  qed
qed

text \<open>C26. A program does what its run in the model says. If the memory holds the code, every run of as many steps of the architecture,
  with that memory behind both of its ports, ends in the state and the memory that \<open>asm_run\<close> computes, and there is such a run; the instruction set has no other behaviour.\<close>

theorem asm_runs_are_machine_runs:
  assumes "holds_code bytes code (snd x)" "asm_run bytes code n x = Some y"
  shows "(mach_step bytes ^^ n) x z \<longleftrightarrow> z = y"
  using assms
proof (induction n arbitrary: x)
  case (Suc n)
  then obtain w where w: "asm_step bytes code x = Some w" "asm_run bytes code n w = Some y" by (auto split: option.splits)
  have "(mach_step bytes ^^ Suc n) x z \<longleftrightarrow> (\<exists>u. mach_step bytes x u \<and> (mach_step bytes ^^ n) u z)"
    by (blast intro: relpowp_Suc_I2 dest: relpowp_Suc_D2)
  then show ?case using Suc.IH [OF _ w(2)] asm_step_sound [OF Suc.prems(1) w(1)] by simp
qed auto

text \<open>One instruction, \<^verbatim>\<open>li a0, 7\<close>, at address 0.\<close>

theorem asm_runs_are_machine_runs_witness:
  "let m = store32 0 (encode (li a0 7)) (\<lambda>_. 0); s = arch_reset 0 0x100 (\<lambda>_. 0)
   in \<forall>z. (mach_step 64 ^^ 1) (s, m) z \<longrightarrow> get_reg (fst z) a0 = 7"
proof -
  let ?m = "store32 0 (encode (li a0 7)) (\<lambda>_. 0)" and ?s = "arch_reset 0 0x100 (\<lambda>_. 0)"
  let ?y = "(set_reg a0 7 (advance 4 ?s), ?m)"
  have "holds_code 64 (placed 0 [li a0 7]) (snd (?s, ?m))" by (simp add: holds_code_def tcm_fetch_def load32_store32)
  moreover have "asm_run 64 (placed 0 [li a0 7]) 1 (?s, ?m) = Some ?y" by (simp add: asm_insn calm_def arch_reset_def li_def)
  ultimately have "(mach_step 64 ^^ 1) (?s, ?m) z \<longleftrightarrow> z = ?y" for z by (rule asm_runs_are_machine_runs)
  then show ?thesis unfolding Let_def by simp
qed

end
