(* ===== verification/Asm_Start.thy ===== *)
theory Asm_Start
  imports Asm
begin

text \<open>
  The start-up and trap assembly: \<^verbatim>\<open>sw/runtime/crt0.S\<close>, \<^verbatim>\<open>sw/freertos/startup.S\<close> and
  \<^verbatim>\<open>sw/runtime/trap.S\<close>, at the addresses of the linker scripts. The functions in C they call and the symbols of the
  linker are parameters.
\<close>

section \<open>Start-up\<close>

record symbols =
  global_pointer :: u32
  stack_top :: u32
  bss_start :: u32
  bss_end :: u32
  trap_vector :: u32
  main_entry :: u32
  exit_entry :: u32

text \<open>\<^verbatim>\<open>Lclear_bss\<close>: words from \<^verbatim>\<open>t0\<close> up to \<^verbatim>\<open>t1\<close>.\<close>

definition clear_bss :: "instr list" where
  "clear_bss = [BRANCH Bgeu t0 t1 8, STORE Sw 0 t0 0, OPIMM Addi t0 t0 4, j_insn (- 6)]"

definition crt0 :: "symbols \<Rightarrow> instr list" where
  "crt0 y = la 0 gp (global_pointer y) @ la 8 sp (stack_top y) @ la 16 t0 (bss_start y) @ la 24 t1 (bss_end y) @
     clear_bss @ la 48 t0 (trap_vector y) @ [csrw CSR_MTVEC t0] @ call 60 (main_entry y) @ tail 68 (exit_entry y)"

definition freertos_startup :: "symbols \<Rightarrow> instr list" where
  "freertos_startup y = la 0 gp (global_pointer y) @ la 8 sp (stack_top y) @
     [csrci CSR_MSTATUS 8, csrw CSR_MIE 0, csrw CSR_MSCRATCH 0] @
     la 28 t0 (bss_start y) @ la 36 t1 (bss_end y) @ clear_bss @ la 60 t0 (trap_vector y) @ [csrw CSR_MTVEC t0] @
     call 72 (main_entry y) @ [li a0 0x11] @ tail 84 (exit_entry y)"

section \<open>The trap entry\<close>

text \<open>Every integer register but \<^verbatim>\<open>x0\<close> and \<^verbatim>\<open>sp\<close>, in the order of their places in the frame.\<close>

definition saved_regs :: "reg_addr_t list" where
  "saved_regs = [1, 3, 4, 5, 6, 7, 8, 9, 10, 11, 12, 13, 14, 15, 16, 17, 18, 19, 20, 21, 22, 23, 24, 25, 26, 27, 28, 29, 30, 31]"

definition trap_entry :: "u32 \<Rightarrow> instr list" where
  "trap_entry handler =
     [OPIMM Addi sp sp (- 128)] @ map (\<lambda>(k, r). STORE Sw r sp (of_nat (4 * k))) (enumerate 0 saved_regs) @
     [csrr a0 CSR_MCAUSE, csrr a1 CSR_MEPC, csrr a2 CSR_MTVAL] @ call 0x188 handler @
     map (\<lambda>(k, r). LOAD Lw r sp (of_nat (4 * k))) (enumerate 0 saved_regs) @ [OPIMM Addi sp sp 128, MRET]"

section \<open>Clearing the uninitialised data\<close>

definition cleared :: "u32 \<Rightarrow> nat \<Rightarrow> mem \<Rightarrow> mem" where
  "cleared a n m b = (if unat (b - a) < 4 * n then 0 else m b)"

lemma cleared_Suc:
  assumes "4 * Suc n < 2 ^ 32"
  shows "cleared (a + 4) n (store32 a 0 m) = cleared a (Suc n) m"
proof
  fix b
  have low: "b = a + of_nat (unat (b - a))" by simp
  consider "unat (b - a) = 0" | "unat (b - a) = 1" | "unat (b - a) = 2" | "unat (b - a) = 3" | "4 \<le> unat (b - a)" by linarith
  then show "cleared (a + 4) n (store32 a 0 m) b = cleared a (Suc n) m b"
  proof cases
    case 5
    then have "b \<noteq> a" "b \<noteq> a + 1" "b \<noteq> a + 2" "b \<noteq> a + 3" by auto
    then show ?thesis using beyond [OF 5] by (simp add: cleared_def store32_def)
  qed (use low in \<open>auto simp: cleared_def store32_def\<close>)
qed

lemma clear_loop:
  assumes "code_at code p clear_bss" "unat p mod 4 = 0" "unat e \<le> bytes" "bytes mod 4 = 0" "bytes < 2 ^ 32"
    and "a_pc s = p" "calm s" "get_reg s t0 = a" "get_reg s t1 = e" "unat e \<le> unat a + 4 * n" "unat a + 4 * n < unat e + 4 \<or> n = 0"
    "unat a mod 4 = 0" "\<And>b. unat a \<le> unat b \<Longrightarrow> unat b < unat a + 4 * n \<Longrightarrow> code b = None"
  shows "\<exists>s'. reach bytes code (s, m) (s', cleared a n m) \<and> a_pc s' = p + 16 \<and>
    m_ie (a_m s') = m_ie (a_m s) \<and> m_tie (a_m s') = m_tie (a_m s) \<and> (\<forall>r. r \<noteq> t0 \<longrightarrow> get_reg s' r = get_reg s r)"
  using assms(6-)
proof (induction n arbitrary: s m a)
  case 0
  have "code p = Some (BRANCH Bgeu t0 t1 8)" using assms(1) by (simp add: clear_bss_def)
  moreover have "unat (p + 16) mod 4 = 0" using assms(2) by (simp add: aligned_add)
  ultimately have "asm_step bytes code (s, m) = Some (advance (p + 16) s, m)"
    using 0 by (simp add: asm_insn offset_def)
  moreover have "cleared a 0 m = m" by (simp add: cleared_def fun_eq_iff)
  ultimately show ?case by (auto intro!: exI [of _ "advance (p + 16) s"] intro: reach_step)
next
  case (Suc n)
  have c: "code p = Some (BRANCH Bgeu t0 t1 8)" "code (p + 4) = Some (STORE Sw 0 t0 0)" "code (8 + p) = Some (OPIMM Addi t0 t0 4)"
    "code (12 + p) = Some (JAL 0 (- 6))" using assms(1) by (simp_all add: clear_bss_def j_insn_def add.commute [of p] add.assoc)
  have less: "unat a < unat e" "unat a < bytes" using Suc.prems(6) assms(3) by auto
  have a4: "unat (a + 4) = unat a + 4"
  proof -
    have "unat a + 4 \<le> bytes" using less(2) Suc.prems(7) assms(4) by presburger
    then show ?thesis using assms(5) less by (simp add: unat_word_ariths)
  qed
  have "unat (p + 16) mod 4 = 0" using assms(2) by (simp add: aligned_add)
  then have "\<exists>y. asm_run bytes code 4 (s, m) = Some (y, store32 a 0 m) \<and> a_pc y = p \<and> get_reg y t0 = a + 4 \<and>
      (\<forall>r. r \<noteq> t0 \<longrightarrow> get_reg y r = get_reg s r) \<and> m_ie (a_m y) = m_ie (a_m s) \<and> m_tie (a_m y) = m_tie (a_m s)"
    using Suc.prems c less assms(2) by (simp add: asm_insn offset_def)
  then obtain y where y: "reach bytes code (s, m) (y, store32 a 0 m)" "a_pc y = p" "get_reg y t0 = a + 4"
    "\<forall>r. r \<noteq> t0 \<longrightarrow> get_reg y r = get_reg s r" "m_ie (a_m y) = m_ie (a_m s)" "m_tie (a_m y) = m_tie (a_m s)"
    by (auto dest: reach_run)
  let ?m = "store32 a 0 m"
  have "\<exists>s'. reach bytes code (y, ?m) (s', cleared (a + 4) n ?m) \<and> a_pc s' = p + 16 \<and>
    m_ie (a_m s') = m_ie (a_m y) \<and> m_tie (a_m s') = m_tie (a_m y) \<and> (\<forall>r. r \<noteq> t0 \<longrightarrow> get_reg s' r = get_reg y r)"
  proof (rule Suc.IH)
    show "code b = None" if "unat (a + 4) \<le> unat b" "unat b < unat (a + 4) + 4 * n" for b
      using Suc.prems(8) [of b] that a4 by simp
    show "unat (a + 4) mod 4 = 0" using Suc.prems(7) by (rule aligned_add) simp
  qed (use Suc.prems a4 y in \<open>auto simp: calm_def\<close>)
  moreover have "cleared (a + 4) n ?m = cleared a (Suc n) m"
  proof (rule cleared_Suc)
    have "bytes + 4 \<le> 2 ^ 32" using assms(4,5) by simp presburger
    then show "4 * Suc n < 2 ^ 32" using Suc.prems(6) assms(3) by auto
  qed
  ultimately show ?case using y by (auto intro: reach_trans)
qed

text \<open>
  The image of a program in memory: the uninitialised data are whole in the memory and away from the program.
\<close>

definition words_to :: "u32 \<Rightarrow> u32 \<Rightarrow> nat" where
  "words_to a e = (unat e - unat a + 3) div 4"

definition bss_ok :: "nat \<Rightarrow> code \<Rightarrow> symbols \<Rightarrow> bool" where
  "bss_ok bytes code y \<longleftrightarrow> unat (bss_start y) mod 4 = 0 \<and> unat (bss_end y) \<le> bytes \<and>
     (\<forall>b. unat (bss_start y) \<le> unat b \<and> unat b < unat (bss_start y) + 4 * words_to (bss_start y) (bss_end y) \<longrightarrow> code b = None)"

definition entries_ok :: "symbols \<Rightarrow> bool" where
  "entries_ok y \<longleftrightarrow> unat (main_entry y) mod 4 = 0 \<and> unat (exit_entry y) mod 4 = 0 \<and> unat (trap_vector y) mod 4 = 0"

definition memory_ok :: "nat \<Rightarrow> bool" where
  "memory_ok bytes \<longleftrightarrow> bytes mod 4 = 0 \<and> bytes < 2 ^ 32"

lemma clear_run:
  assumes "code_at code p clear_bss" "unat p mod 4 = 0" "bss_ok bytes code y" "memory_ok bytes" "a_pc s = p" "calm s"
    "get_reg s t0 = bss_start y" "get_reg s t1 = bss_end y"
  shows "\<exists>s'. reach bytes code (s, m) (s', cleared (bss_start y) (words_to (bss_start y) (bss_end y)) m) \<and> a_pc s' = p + 16 \<and>
    m_ie (a_m s') = m_ie (a_m s) \<and> m_tie (a_m s') = m_tie (a_m s) \<and> (\<forall>r. r \<noteq> t0 \<longrightarrow> get_reg s' r = get_reg s r)"
  using assms
  by (intro clear_loop [where e = "bss_end y"]) (auto simp: bss_ok_def memory_ok_def words_to_def; linarith)+

lemma crt0_head:
  assumes "code_at code 0 (crt0 y)" "a_pc s = 0" "calm s"
  shows "\<exists>s'. asm_run bytes code 8 (s, m) = Some (s', m) \<and> a_pc s' = 32 \<and> get_reg s' gp = global_pointer y \<and>
    get_reg s' sp = stack_top y \<and> get_reg s' t0 = bss_start y \<and> get_reg s' t1 = bss_end y \<and>
    m_ie (a_m s') = m_ie (a_m s) \<and> m_tie (a_m s') = m_tie (a_m s)"
  using assms by (simp add: crt0_def la_def asm_insn)

lemma crt0_tail:
  assumes "code_at code 0 (crt0 y)" "a_pc s = 48" "calm s" "entries_ok y"
  shows "\<exists>s'. asm_run bytes code 5 (s, m) = Some (s', m) \<and> a_pc s' = main_entry y \<and> get_reg s' ra = 68 \<and>
    get_reg s' gp = get_reg s gp \<and> get_reg s' sp = get_reg s sp \<and> m_tvec (a_m s') = trap_vector y \<and>
    m_ie (a_m s') = m_ie (a_m s) \<and> m_tie (a_m s') = m_tie (a_m s)"
  using assms by (simp add: crt0_def la_def clear_bss_def csrw_def call_def asm_insn csr_facts entries_ok_def aligned_same)

lemma interrupts_off [simp]: "\<not> bit (w AND - 9 :: u32) 3"
  by (simp add: bit_simps)

lemma freertos_head:
  assumes "code_at code 0 (freertos_startup y)" "a_pc s = 0" "calm s"
  shows "\<exists>s'. asm_run bytes code 11 (s, m) = Some (s', m) \<and> a_pc s' = 44 \<and> get_reg s' gp = global_pointer y \<and>
    get_reg s' sp = stack_top y \<and> get_reg s' t0 = bss_start y \<and> get_reg s' t1 = bss_end y \<and>
    \<not> m_ie (a_m s') \<and> \<not> m_tie (a_m s') \<and> m_scratch (a_m s') = 0"
  using assms by (simp add: freertos_startup_def la_def csrci_def csrw_def asm_insn csr_facts)

lemma freertos_tail:
  assumes "code_at code 0 (freertos_startup y)" "a_pc s = 60" "calm s" "entries_ok y"
  shows "\<exists>s'. asm_run bytes code 5 (s, m) = Some (s', m) \<and> a_pc s' = main_entry y \<and> get_reg s' ra = 80 \<and>
    get_reg s' gp = get_reg s gp \<and> get_reg s' sp = get_reg s sp \<and> m_tvec (a_m s') = trap_vector y \<and>
    m_ie (a_m s') = m_ie (a_m s) \<and> m_tie (a_m s') = m_tie (a_m s)"
  using assms by (simp add: freertos_startup_def la_def clear_bss_def csrw_def csrci_def call_def asm_insn csr_facts entries_ok_def aligned_same)

lemma freertos_exit:
  assumes "code_at code 0 (freertos_startup y)" "a_pc s = 80" "calm s" "entries_ok y"
  shows "\<exists>t. reach bytes code (s, m) (t, m) \<and> a_pc t = exit_entry y \<and> get_reg t a0 = 0x11 \<and> get_reg t sp = get_reg s sp"
  using assms by (intro reach_ex [of _ _ 3]) (simp add: freertos_startup_def la_def clear_bss_def csrw_def csrci_def call_def tail_def li_def asm_insn entries_ok_def)

lemma crt0_exit:
  assumes "code_at code 0 (crt0 y)" "a_pc s = 68" "calm s" "entries_ok y"
  shows "\<exists>t. reach bytes code (s, m) (t, m) \<and> a_pc t = exit_entry y \<and> get_reg t a0 = get_reg s a0 \<and> get_reg t sp = get_reg s sp"
  using assms by (intro reach_ex [of _ _ 2]) (simp add: crt0_def la_def clear_bss_def csrw_def call_def tail_def asm_insn entries_ok_def)

section \<open>Saving and restoring the registers\<close>

primrec frame_store :: "u32 \<Rightarrow> u32 list \<Rightarrow> mem \<Rightarrow> mem" where
  "frame_store b [] m = m"
| "frame_store b (v # vs) m = frame_store (b + 4) vs (store32 b v m)"

lemma store32_beyond:
  assumes "4 \<le> unat (a - b)"
  shows "store32 b v m a = m a"
proof -
  have "a \<noteq> b" "a \<noteq> b + 1" "a \<noteq> b + 2" "a \<noteq> b + 3" using assms by auto
  then show ?thesis by (simp add: store32_def)
qed

lemma frame_store_beyond: "4 * length vs \<le> unat (a - b) \<Longrightarrow> frame_store b vs m a = m a"
proof (induction vs arbitrary: b m)
  case (Cons v vs)
  then have "frame_store (b + 4) vs (store32 b v m) a = store32 b v m a"
    using beyond [of a b] by (intro Cons.IH) simp
  then show ?case using Cons.prems store32_beyond by simp
qed simp

lemma load32_eq:
  assumes "\<And>k. k < 4 \<Longrightarrow> m (a + of_nat k) = m' (a + of_nat k)"
  shows "load32 m a = load32 m' a"
  using assms [of 0] assms [of 1] assms [of 2] assms [of 3] by (simp add: load32_def)

lemma frame_store_at:
  "j < length vs \<Longrightarrow> 4 * length vs < 2 ^ 31 \<Longrightarrow> load32 (frame_store b vs m) (b + of_nat (4 * j)) = vs ! j"
proof (induction vs arbitrary: b m j)
  case (Cons v vs)
  show ?case
  proof (cases j)
    case 0
    have "load32 (frame_store (b + 4) vs (store32 b v m)) b = load32 (store32 b v m) b"
    proof (rule load32_eq)
      fix k :: nat assume k: "k < 4"
      have "b + of_nat k - (b + 4) = of_nat k - 4" by simp
      moreover have "k = 0 \<or> k = 1 \<or> k = 2 \<or> k = 3" using k by arith
      ultimately have "4 * length vs \<le> unat (b + of_nat k - (b + 4))" using Cons.prems(2) by (auto simp: unsigned_minus_1_eq_mask mask_eq_exp_minus_1)
      then show "frame_store (b + 4) vs (store32 b v m) (b + of_nat k) = store32 b v m (b + of_nat k)"
        by (rule frame_store_beyond)
    qed
    then show ?thesis using 0 by (simp add: load32_store32)
  next
    case (Suc i)
    then have "load32 (frame_store (b + 4) vs (store32 b v m)) (b + 4 + of_nat (4 * i)) = vs ! i"
      using Cons.prems by (intro Cons.IH) auto
    then show ?thesis using Suc by (simp add: add.assoc)
  qed
qed simp

definition same_mstate :: "arch \<Rightarrow> arch \<Rightarrow> bool" where
  "same_mstate s t \<longleftrightarrow> (a_m t)\<lparr>m_instret := 0\<rparr> = (a_m s)\<lparr>m_instret := 0\<rparr>"

lemma same_mstate_refl [simp]: "same_mstate s s"
  by (simp add: same_mstate_def)

lemma same_mstate_trans: "same_mstate s t \<Longrightarrow> same_mstate t u \<Longrightarrow> same_mstate s u"
  by (simp add: same_mstate_def)

lemma same_mstate_advance [simp]: "same_mstate (advance pc s) t \<longleftrightarrow> same_mstate s t" "same_mstate s (advance pc t) \<longleftrightarrow> same_mstate s t"
    "same_mstate (set_reg r v s) t \<longleftrightarrow> same_mstate s t"
    "same_mstate s (set_reg r v t) \<longleftrightarrow> same_mstate s t"
  by (simp_all add: same_mstate_def retire_def)

lemma same_mstateD:
  "same_mstate s t \<Longrightarrow> m_ie (a_m t) = m_ie (a_m s) \<and> m_pie (a_m t) = m_pie (a_m s) \<and> m_tie (a_m t) = m_tie (a_m s) \<and>
     m_tvec (a_m t) = m_tvec (a_m s) \<and> m_epc (a_m t) = m_epc (a_m s) \<and> m_cause (a_m t) = m_cause (a_m s) \<and>
     m_tval (a_m t) = m_tval (a_m s)"
  by (cases "a_m s"; cases "a_m t") (simp add: same_mstate_def)

lemma simm_place:
  assumes "k < 512"
  shows "simm (4 * of_nat k) = 4 * of_nat k"
proof -
  have small: "sint (of_nat n :: 12 word) = int n" if "n < 2048" for n
    using that by (simp add: signed_of_nat signed_take_bit_int_eq_self)
  have "sint (of_nat (4 * k) :: 12 word) = int (4 * k)" by (rule small) (use assms in simp)
  then have "simm (of_nat (4 * k)) = of_nat (4 * k)" by (simp only: simm_def of_int_of_nat_eq)
  then show ?thesis by simp
qed

definition frame_ok :: "nat \<Rightarrow> code \<Rightarrow> u32 \<Rightarrow> bool" where
  "frame_ok bytes code b \<longleftrightarrow> unat b mod 4 = 0 \<and> unat b + 128 \<le> bytes \<and> bytes < 2 ^ 32 \<and> (\<forall>k < 32. code (b + of_nat (4 * k)) = None)"

lemma frame_place:
  assumes "frame_ok bytes code b" "k < 30"
  shows "unat (b + of_nat (4 * k)) < bytes" "unat (b + of_nat (4 * k)) mod 4 = 0" "code (b + of_nat (4 * k)) = None"
proof -
  have "unat (b + of_nat (4 * k)) = unat b + 4 * k" using assms by (simp add: frame_ok_def unat_word_ariths unat_of_nat)
  then show "unat (b + of_nat (4 * k)) < bytes" "unat (b + of_nat (4 * k)) mod 4 = 0" "code (b + of_nat (4 * k)) = None"
    using assms by (auto simp: frame_ok_def)
qed

lemma run_saves:
  assumes "code_at code p (map (\<lambda>(k, r). STORE Sw r sp (of_nat (4 * k))) (enumerate k rs))" "a_pc s = p" "calm s" "get_reg s sp = b"
    "frame_ok bytes code b" "k + length rs \<le> 30"
  shows "\<exists>t. asm_run bytes code (length rs) (s, m) = Some (t, frame_store (b + of_nat (4 * k)) (map (get_reg s) rs) m) \<and>
    a_pc t = p + 4 * of_nat (length rs) \<and> get_reg t = get_reg s \<and> same_mstate s t"
  using assms
proof (induction rs arbitrary: k s m p)
  case Nil
  then show ?case by simp
next
  case (Cons r rs)
  let ?s = "advance (p + 4) s" and ?m = "store32 (b + of_nat (4 * k)) (get_reg s r) m"
  have "asm_step bytes code (s, m) = Some (?s, ?m)"
    using Cons.prems frame_place [OF Cons.prems(5), of k] by (simp add: asm_insn simm_place)
  moreover have "\<exists>t. asm_run bytes code (length rs) (?s, ?m) =
      Some (t, frame_store (b + of_nat (4 * Suc k)) (map (get_reg ?s) rs) ?m) \<and>
    a_pc t = p + 4 + 4 * of_nat (length rs) \<and> get_reg t = get_reg ?s \<and> same_mstate ?s t"
    by (rule Cons.IH) (use Cons.prems in \<open>auto\<close>)
  ultimately show ?case by (auto intro: same_mstate_trans [of _ ?s] simp: algebra_simps)
qed

lemma run_restores:
  assumes "code_at code p (map (\<lambda>(k, r). LOAD Lw r sp (of_nat (4 * k))) (enumerate k rs))" "a_pc s = p" "calm s" "get_reg s sp = b"
    "frame_ok bytes code b" "k + length rs \<le> 30" "sp \<notin> set rs" "0 \<notin> set rs"
    "\<And>j. j < length rs \<Longrightarrow> load32 m (b + of_nat (4 * (k + j))) = v (rs ! j)"
  shows "\<exists>t. asm_run bytes code (length rs) (s, m) = Some (t, m) \<and> a_pc t = p + 4 * of_nat (length rs) \<and>
    get_reg t = (\<lambda>r. if r \<in> set rs then v r else get_reg s r) \<and> same_mstate s t"
  using assms
proof (induction rs arbitrary: k s p)
  case Nil
  then show ?case by simp
next
  case (Cons r rs)
  let ?s = "set_reg r (v r) (advance (p + 4) s)"
  have "load32 m (b + 4 * of_nat k) = v r" using Cons.prems(9) [of 0] by simp
  then have "asm_step bytes code (s, m) = Some (?s, m)"
    using Cons.prems(1-6) frame_place [OF Cons.prems(5), of k] by (simp add: asm_insn simm_place)
  moreover have "\<exists>t. asm_run bytes code (length rs) (?s, m) = Some (t, m) \<and> a_pc t = p + 4 + 4 * of_nat (length rs) \<and>
    get_reg t = (\<lambda>x. if x \<in> set rs then v x else get_reg ?s x) \<and> same_mstate ?s t"
  proof (rule Cons.IH)
    show "load32 m (b + of_nat (4 * (Suc k + j))) = v (rs ! j)" if "j < length rs" for j
      using Cons.prems(9) [of "Suc j"] that by simp
  qed (use Cons.prems in auto)
  ultimately show ?case using Cons.prems(8) by (auto intro: same_mstate_trans [of _ ?s] simp: add.assoc fun_eq_iff)
qed

lemma saved_regs_facts [simp]: "length saved_regs = 30" "sp \<notin> set saved_regs" "0 \<notin> set saved_regs"
  by (simp_all add: saved_regs_def)

lemma saved_regs_all: "r \<noteq> 0 \<Longrightarrow> r \<noteq> sp \<Longrightarrow> r \<in> set saved_regs"
proof -
  assume "r \<noteq> 0" "r \<noteq> sp"
  moreover have "unat r < 2 ^ LENGTH(5)" by (rule unsigned_less)
  ultimately show ?thesis unfolding saved_regs_def by (simp add: word_unat_eq_iff) arith
qed

lemma trap_entry_code:
  assumes "code_at code 0x100 (trap_entry h)"
  shows "code 0x100 = Some (OPIMM Addi sp sp (- 128))"
    "code_at code 0x104 (map (\<lambda>(k, r). STORE Sw r sp (of_nat (4 * k))) (enumerate 0 saved_regs))"
    "code 0x17c = Some (csrr a0 CSR_MCAUSE)" "code 0x180 = Some (csrr a1 CSR_MEPC)" "code 0x184 = Some (csrr a2 CSR_MTVAL)"
    "code 0x188 = Some (AUIPC ra (hi20 (h - 0x188)))" "code 0x18c = Some (JALR ra ra (lo12 (h - 0x188)))"
    "code_at code 0x190 (map (\<lambda>(k, r). LOAD Lw r sp (of_nat (4 * k))) (enumerate 0 saved_regs))"
    "code 0x208 = Some (OPIMM Addi sp sp 128)" "code 0x20c = Some MRET"
  using assms by (simp_all add: trap_entry_def code_at_append call_def)

lemma trap_saves:
  assumes "code_at code 0x100 (trap_entry h)" "a_pc s = 0x100" "calm s" "frame_ok bytes code b" "get_reg s sp = b + 128"
  shows "\<exists>t. reach bytes code (s, m) (t, frame_store b (map (get_reg s) saved_regs) m) \<and> a_pc t = 0x17c \<and> get_reg t sp = b \<and>
    same_mstate s t"
proof -
  let ?s = "set_reg sp b (advance 0x104 s)"
  note code = trap_entry_code [OF assms(1)]
  have first: "asm_step bytes code (s, m) = Some (?s, m)" using code(1) assms by (simp add: asm_insn)
  have regs: "map (get_reg ?s) saved_regs = map (get_reg s) saved_regs"
    by (rule map_cong [OF refl]) (use saved_regs_facts(2) in auto)
  have "\<exists>t. asm_run bytes code (length saved_regs) (?s, m) = Some (t, frame_store (b + of_nat (4 * 0)) (map (get_reg ?s) saved_regs) m) \<and>
    a_pc t = 0x104 + 4 * of_nat (length saved_regs) \<and> get_reg t = get_reg ?s \<and> same_mstate ?s t"
    by (rule run_saves [OF code(2)]) (use assms in auto)
  from this [unfolded regs] have "\<exists>t. asm_run bytes code 30 (?s, m) = Some (t, frame_store b (map (get_reg s) saved_regs) m) \<and>
      a_pc t = 0x17c \<and> get_reg t = get_reg ?s \<and> same_mstate s t" by simp
  then show ?thesis using first by (auto dest!: reach_run intro: reach_step)
qed

lemma trap_calls:
  assumes "code_at code 0x100 (trap_entry h)" "a_pc s = 0x17c" "calm s" "unat h mod 4 = 0"
  shows "\<exists>t. asm_run bytes code 5 (s, m) = Some (t, m) \<and> a_pc t = h \<and> get_reg t ra = 0x190 \<and> get_reg t a0 = m_cause (a_m s) \<and>
    get_reg t a1 = m_epc (a_m s) \<and> get_reg t a2 = m_tval (a_m s) \<and> get_reg t sp = get_reg s sp \<and> same_mstate s t"
  using trap_entry_code(3-7) [OF assms(1)] assms(2-)
  by (simp add: asm_insn csrr_def csr_facts same_mstate_def retire_def)

lemma trap_returns:
  assumes "code_at code 0x100 (trap_entry h)" "a_pc s = 0x190" "calm s" "frame_ok bytes code b" "get_reg s sp = b"
    "\<And>k. k < 30 \<Longrightarrow> load32 m (b + of_nat (4 * k)) = v (saved_regs ! k)"
  shows "\<exists>t. reach bytes code (s, m) (t, m) \<and> a_pc t = m_epc (a_m s) \<and> m_ie (a_m t) = m_pie (a_m s) \<and>
    get_reg t = (\<lambda>r. if r = 0 then 0 else if r = sp then b + 128 else v r)"
proof -
  note code = trap_entry_code [OF assms(1)]
  have "\<exists>t. asm_run bytes code (length saved_regs) (s, m) = Some (t, m) \<and> a_pc t = 0x190 + 4 * of_nat (length saved_regs) \<and>
    get_reg t = (\<lambda>r. if r \<in> set saved_regs then v r else get_reg s r) \<and> same_mstate s t"
    by (rule run_restores [OF code(8)]) (use assms in auto)
  then obtain t where t: "reach bytes code (s, m) (t, m)" "a_pc t = 0x208" "get_reg t = (\<lambda>r. if r \<in> set saved_regs then v r else get_reg s r)"
    "same_mstate s t" by (auto dest!: reach_run)
  have "calm t" using assms(3) same_mstateD [OF t(4)] by (simp add: calm_def)
  moreover have "get_reg t sp = b" by (simp add: t(3) assms(5))
  ultimately have "\<exists>u. asm_run bytes code 2 (t, m) = Some (u, m) \<and> a_pc u = m_epc (a_m t) \<and> m_ie (a_m u) = m_pie (a_m t) \<and>
    get_reg u = get_reg (set_reg sp (b + 128) t)"
    using code(9,10) t(2) by (simp add: asm_insn leave_trap_def fun_eq_iff)
  then obtain u where "reach bytes code (t, m) (u, m)" "a_pc u = m_epc (a_m t)" "m_ie (a_m u) = m_pie (a_m t)"
    "get_reg u = get_reg (set_reg sp (b + 128) t)" by (auto dest!: reach_run)
  then show ?thesis using t(1,3) same_mstateD [OF t(4)] saved_regs_all by (intro exI [of _ u]) (auto intro: reach_trans)
qed

section \<open>Properties\<close>

text \<open>
  The start of a C program: its stack, the global pointer, the trap vector, and the uninitialised data cleared, to the end of the
  last word; it was called, and a return from it goes on to \<open>exit\<close> with the status it is to have.
\<close>

definition program_started :: "nat \<Rightarrow> code \<Rightarrow> symbols \<Rightarrow> mem \<Rightarrow> (arch \<Rightarrow> u32) \<Rightarrow> machine \<Rightarrow> bool" where
  "program_started bytes code y m status x \<longleftrightarrow>
     a_pc (fst x) = main_entry y \<and> get_reg (fst x) sp = stack_top y \<and> get_reg (fst x) gp = global_pointer y \<and>
     m_tvec (a_m (fst x)) = trap_vector y \<and> calm (fst x) \<and>
     snd x = cleared (bss_start y) (words_to (bss_start y) (bss_end y)) m \<and>
     (\<forall>s n. a_pc s = get_reg (fst x) ra \<and> calm s \<longrightarrow>
        (\<exists>t. reach bytes code (s, n) (t, n) \<and> a_pc t = exit_entry y \<and> get_reg t a0 = status s \<and> get_reg t sp = get_reg s sp))"

text \<open>C12. The start-up code brings every C program to its \<^verbatim>\<open>main\<close>. From the reset address, with any register and memory contents, it
  sets the global and the stack pointer and the trap vector, clears the uninitialised data whole and nothing else of the memory, and calls
  \<^verbatim>\<open>main\<close>; whatever the program has done, when it returns the code goes to \<^verbatim>\<open>bm_exit\<close> with its result.\<close>

theorem crt0_starts_main:
  assumes "code_at code 0 (crt0 y)" "bss_ok bytes code y" "memory_ok bytes" "entries_ok y" "a_pc s = 0" "calm s"
  shows "\<exists>x. reach bytes code (s, m) x \<and> program_started bytes code y m (\<lambda>u. get_reg u a0) x"
proof -
  obtain t where t: "asm_run bytes code 8 (s, m) = Some (t, m)" "a_pc t = 32" "get_reg t gp = global_pointer y" "get_reg t sp = stack_top y"
    "get_reg t t0 = bss_start y" "get_reg t t1 = bss_end y" "calm t"
    using crt0_head [OF assms(1,5,6), of bytes m] assms(6) by (auto simp: calm_def)
  have "code_at code 32 clear_bss" using assms(1) by (simp add: crt0_def la_def code_at_append)
  then obtain u where u: "reach bytes code (t, m) (u, cleared (bss_start y) (words_to (bss_start y) (bss_end y)) m)" (is "reach _ _ _ (u, ?m)")
    "a_pc u = 48" "calm u" "\<forall>r. r \<noteq> t0 \<longrightarrow> get_reg u r = get_reg t r"
    using clear_run [OF _ _ assms(2,3) t(2,7,5,6), of m] t(7) by (auto simp: calm_def)
  obtain v where v: "asm_run bytes code 5 (u, ?m) = Some (v, ?m)" "a_pc v = main_entry y" "get_reg v ra = 68" "get_reg v gp = get_reg u gp"
    "get_reg v sp = get_reg u sp" "m_tvec (a_m v) = trap_vector y" "calm v"
    using crt0_tail [OF assms(1) u(2,3) assms(4), of bytes ?m] u(3) by (auto simp: calm_def)
  have "reach bytes code (s, m) (v, ?m)" by (rule reach_trans [OF reach_run [OF t(1)] reach_trans [OF u(1) reach_run [OF v(1)]]])
  then show ?thesis
    using v(2-) u(4) t(3,4) crt0_exit [OF assms(1) _ _ assms(4)] by (intro exI [of _ "(v, ?m)"]) (simp add: program_started_def)
qed

text \<open>Uninitialised data of six bytes, from 0x2000: the loop clears eight.\<close>

definition witness_symbols :: symbols where
  "witness_symbols = \<lparr>global_pointer = 0x1800, stack_top = 0xff00, bss_start = 0x2000, bss_end = 0x2006, trap_vector = 0x100,
     main_entry = 0x400, exit_entry = 0x500\<rparr>"

theorem crt0_starts_main_witness:
  "\<exists>x. reach 0x10000 (placed 0 (crt0 witness_symbols)) (arch_reset 0 0x100 (\<lambda>_. 7), \<lambda>_. 0xff) x \<and> a_pc (fst x) = 0x400 \<and>
     get_reg (fst x) sp = 0xff00 \<and> snd x 0x2007 = 0 \<and> snd x 0x2008 = 0xff"
proof -
  let ?y = witness_symbols and ?c = "placed 0 (crt0 witness_symbols)"
  have len: "length (crt0 ?y) = 19" by (simp add: crt0_def la_def clear_bss_def call_def tail_def)
  have "bss_ok 0x10000 ?c ?y"
    using placed_beyond [of "crt0 ?y" _ 0] len by (simp add: bss_ok_def witness_symbols_def words_to_def)
  moreover have "code_at ?c 0 (crt0 ?y)" by (rule code_at_placed) (simp add: len)
  ultimately obtain x where x: "reach 0x10000 ?c (arch_reset 0 0x100 (\<lambda>_. 7), \<lambda>_. 0xff) x"
    "program_started 0x10000 ?c ?y (\<lambda>_. 0xff) (\<lambda>u. get_reg u a0) x"
    using crt0_starts_main [where code = ?c and y = ?y and bytes = "0x10000" and s = "arch_reset 0 0x100 (\<lambda>_. 7)" and m = "\<lambda>_. 0xff"]
    by (auto simp: memory_ok_def entries_ok_def witness_symbols_def arch_reset_def calm_def)
  then show ?thesis
    by (intro exI [of _ x]) (simp add: program_started_def witness_symbols_def cleared_def words_to_def)
qed

lemma freertos_starts_main:
  assumes "code_at code 0 (freertos_startup y)" "bss_ok bytes code y" "memory_ok bytes" "entries_ok y" "a_pc s = 0" "calm s"
  shows "\<exists>x. reach bytes code (s, m) x \<and> program_started bytes code y m (\<lambda>u. 0x11) x \<and> \<not> m_ie (a_m (fst x)) \<and> \<not> m_tie (a_m (fst x))"
proof -
  obtain t where t: "asm_run bytes code 11 (s, m) = Some (t, m)" "a_pc t = 44" "get_reg t gp = global_pointer y" "get_reg t sp = stack_top y"
    "get_reg t t0 = bss_start y" "get_reg t t1 = bss_end y" "calm t" "\<not> m_ie (a_m t)" "\<not> m_tie (a_m t)"
    using freertos_head [OF assms(1,5,6), of bytes m] by (auto simp: calm_def)
  have "code_at code 44 clear_bss" using assms(1) by (simp add: freertos_startup_def la_def code_at_append)
  then obtain u where u: "reach bytes code (t, m) (u, cleared (bss_start y) (words_to (bss_start y) (bss_end y)) m)" (is "reach _ _ _ (u, ?m)")
    "a_pc u = 60" "calm u" "\<not> m_ie (a_m u)" "\<not> m_tie (a_m u)" "\<forall>r. r \<noteq> t0 \<longrightarrow> get_reg u r = get_reg t r"
    using clear_run [OF _ _ assms(2,3) t(2,7,5,6), of m] t(8,9) by (auto simp: calm_def)
  obtain v where v: "asm_run bytes code 5 (u, ?m) = Some (v, ?m)" "a_pc v = main_entry y" "get_reg v ra = 80" "get_reg v gp = get_reg u gp"
    "get_reg v sp = get_reg u sp" "m_tvec (a_m v) = trap_vector y" "\<not> m_ie (a_m v)" "\<not> m_tie (a_m v)"
    using freertos_tail [OF assms(1) u(2,3) assms(4), of bytes ?m] u(4,5) by auto
  have "reach bytes code (s, m) (v, ?m)" by (rule reach_trans [OF reach_run [OF t(1)] reach_trans [OF u(1) reach_run [OF v(1)]]])
  then show ?thesis
    using v(2-) u(6) t(3,4) freertos_exit [OF assms(1) _ _ assms(4)]
    by (intro exI [of _ "(v, ?m)"]) (simp add: program_started_def calm_def)
qed

text \<open>
  A call of C returns: to the return address, with the stack pointer as it was and the stack above it untouched, and with interrupts still off.
\<close>

definition handler_returned :: "machine \<Rightarrow> machine \<Rightarrow> bool" where
  "handler_returned x y \<longleftrightarrow> a_pc (fst y) = get_reg (fst x) ra \<and> get_reg (fst y) sp = get_reg (fst x) sp \<and>
     \<not> m_ie (a_m (fst y)) \<and> (\<forall>a. unat (a - get_reg (fst x) sp) < 120 \<longrightarrow> snd y a = snd x a)"

text \<open>C11. The trap entry hides itself from the interrupted program. It calls the handler with the cause, the address and the value of the
  trap and changes memory only in the 128 bytes below the stack; when the handler returns by the rules of C,
  with its frame untouched, every register has the value it had at the trap, the memory is the handler's, and execution goes on at the address
  the handler left in \<^verbatim>\<open>mepc\<close> with interrupts enabled as they were.\<close>

theorem trap_entry_is_transparent:
  assumes "code_at code 0x100 (trap_entry h)" "unat h mod 4 = 0" "frame_ok bytes code (get_reg s sp - 128)"
    and "a_pc s = 0x100" "\<not> m_ie (a_m s)"
  shows "\<exists>x. reach bytes code (s, m) x \<and> a_pc (fst x) = h \<and> get_reg (fst x) a0 = m_cause (a_m s) \<and> get_reg (fst x) a1 = m_epc (a_m s) \<and>
    get_reg (fst x) a2 = m_tval (a_m s) \<and> same_mstate s (fst x) \<and> (\<forall>a. 128 \<le> unat (a - (get_reg s sp - 128)) \<longrightarrow> snd x a = m a) \<and>
    (\<forall>y. handler_returned x y \<longrightarrow>
       (\<exists>z. reach bytes code y z \<and> a_pc (fst z) = m_epc (a_m (fst y)) \<and> m_ie (a_m (fst z)) = m_pie (a_m (fst y)) \<and>
          get_reg (fst z) = get_reg s \<and> snd z = snd y))"
proof -
  let ?b = "get_reg s sp - 128" and ?m = "frame_store (get_reg s sp - 128) (map (get_reg s) saved_regs) m"
  obtain t where t: "reach bytes code (s, m) (t, ?m)" "a_pc t = 0x17c" "get_reg t sp = ?b" "same_mstate s t"
    using trap_saves [OF assms(1,4) _ assms(3)] assms(5) by (auto simp: calm_def)
  obtain u where u: "asm_run bytes code 5 (t, ?m) = Some (u, ?m)" "a_pc u = h" "get_reg u ra = 0x190" "get_reg u a0 = m_cause (a_m s)"
    "get_reg u a1 = m_epc (a_m s)" "get_reg u a2 = m_tval (a_m s)" "get_reg u sp = ?b" "same_mstate s u"
    using trap_calls [OF assms(1) t(2) _ assms(2), of bytes ?m] same_mstateD [OF t(4)] assms(5) t(3) by (auto simp: calm_def intro: same_mstate_trans [OF t(4)])
  have "?m a = m a" if "128 \<le> unat (a - ?b)" for a using that by (intro frame_store_beyond) simp
  moreover have "\<exists>z. reach bytes code y z \<and> a_pc (fst z) = m_epc (a_m (fst y)) \<and> m_ie (a_m (fst z)) = m_pie (a_m (fst y)) \<and>
          get_reg (fst z) = get_reg s \<and> snd z = snd y" if ret: "handler_returned (u, ?m) y" for y
  proof -
    obtain v n where y: "y = (v, n)" by (cases y)
    have "load32 n (?b + of_nat (4 * k)) = get_reg s (saved_regs ! k)" if k: "k < 30" for k
    proof -
      have "load32 n (?b + of_nat (4 * k)) = load32 ?m (?b + of_nat (4 * k))"
      proof (rule load32_eq)
        fix i :: nat assume "i < 4"
        then have "unat (of_nat (4 * k + i) :: u32) < 120" using k by (simp only: unat_of_nat) simp
        then show "n (?b + of_nat (4 * k) + of_nat i) = ?m (?b + of_nat (4 * k) + of_nat i)"
          using ret u(7) by (simp add: handler_returned_def y add.assoc)
      qed
      also have "\<dots> = map (get_reg s) saved_regs ! k" by (rule frame_store_at) (use k in simp_all)
      finally show ?thesis using k by simp
    qed
    then obtain w where "reach bytes code (v, n) (w, n)" "a_pc w = m_epc (a_m v)" "m_ie (a_m w) = m_pie (a_m v)"
      "get_reg w = (\<lambda>r. if r = 0 then 0 else if r = sp then ?b + 128 else get_reg s r)"
      using trap_returns [OF assms(1) _ _ assms(3), of v n "get_reg s"] ret u(3,7) by (auto simp: handler_returned_def y calm_def)
    moreover from this(4) have "get_reg w = get_reg s" by (auto simp: fun_eq_iff)
    ultimately show ?thesis by (intro exI [of _ "(w, n)"]) (simp add: y)
  qed
  ultimately show ?thesis using t(1) u by (intro exI [of _ "(u, ?m)"]) (auto intro: reach_trans reach_run)
qed

text \<open>A trap at 0x44 with the stack at 0x8000; the handler returns at once.\<close>

definition witness_trapped :: arch where
  "witness_trapped = (trap False EXC_ECALL_M 0 (set_reg sp 0x8000 (arch_reset 0x44 0x100 (\<lambda>r. ucast r))))"

theorem trap_entry_is_transparent_witness:
  "\<exists>x z. reach 0x10000 (placed 0x100 (trap_entry 0x400)) (witness_trapped, \<lambda>_. 0) x \<and> get_reg (fst x) a0 = 11 \<and>
     reach 0x10000 (placed 0x100 (trap_entry 0x400)) ((fst x)\<lparr>a_pc := get_reg (fst x) ra\<rparr>, snd x) z \<and>
     a_pc (fst z) = 0x44 \<and> get_reg (fst z) t6 = 31"
proof -
  let ?c = "placed 0x100 (trap_entry 0x400)" and ?s = witness_trapped
  have len: "length (trap_entry 0x400) = 68" by (simp add: trap_entry_def call_def)
  have s: "get_reg ?s sp = 0x8000" "a_pc ?s = 0x100" "\<not> m_ie (a_m ?s)" "m_cause (a_m ?s) = 11" "get_reg ?s t6 = 31"
    by (simp_all add: witness_trapped_def trap_def arch_reset_def enter_trap_def get_reg_def set_reg_def word_aligned_def EXC_ECALL_M_def)
  have "?c (0x7f80 + of_nat (4 * k)) = None" if "k < 32" for k
  proof (rule placed_beyond)
    have "unat (0x7e80 + of_nat (4 * k) :: u32) = 0x7e80 + 4 * k" using that by (simp add: unat_word_ariths unat_of_nat)
    then show "4 * length (trap_entry 0x400) \<le> unat (0x7f80 + of_nat (4 * k) - 0x100 :: u32)" by (simp add: len algebra_simps)
  qed
  then have frame: "frame_ok 0x10000 ?c (get_reg ?s sp - 128)" by (simp add: s frame_ok_def)
  have code: "code_at ?c 0x100 (trap_entry 0x400)" by (rule code_at_placed) (simp add: len)
  from trap_entry_is_transparent [OF code _ frame s(2,3), of "\<lambda>_. 0"] obtain x where x: "reach 0x10000 ?c (?s, \<lambda>_. 0) x" "get_reg (fst x) a0 = m_cause (a_m ?s)" "same_mstate ?s (fst x)" and
    ret: "\<And>y. handler_returned x y \<Longrightarrow> \<exists>z. reach 0x10000 ?c y z \<and> a_pc (fst z) = m_epc (a_m (fst y)) \<and> get_reg (fst z) = get_reg ?s" by fastforce
  let ?y = "((fst x)\<lparr>a_pc := get_reg (fst x) ra\<rparr>, snd x)"
  have "handler_returned x ?y" using same_mstateD [OF x(3)] s(3) by (simp add: handler_returned_def get_reg_def)
  moreover have "m_epc (a_m (fst ?y)) = 0x44"
    using same_mstateD [OF x(3)] by (simp add: witness_trapped_def trap_def enter_trap_def arch_reset_def word_aligned_def set_reg_def)
  ultimately show ?thesis using ret [of ?y] x s by fastforce
qed

end
