(* ===== verification/Asm_Tests.thy ===== *)
theory Asm_Tests
  imports Asm
begin

text \<open>
  The assembly of the test environments, \<^verbatim>\<open>sw/isa/env/riscv_test.h\<close> and \<^verbatim>\<open>verification/act4/config/rvmodel_macros.h\<close>, and
  the helpers of \<^verbatim>\<open>sw/include/baremetal.h\<close>. A test reports by a store to a word the test bench watches, and stays in a loop.
\<close>

section \<open>Helpers of the bare-metal tests\<close>

definition bm_csr_read_misa :: "reg_addr_t \<Rightarrow> instr" where "bm_csr_read_misa rd = csrr rd CSR_MISA"
definition bm_csr_read_mhartid :: "reg_addr_t \<Rightarrow> instr" where "bm_csr_read_mhartid rd = csrr rd CSR_MHARTID"
definition bm_csr_write_mepc :: "reg_addr_t \<Rightarrow> instr" where "bm_csr_write_mepc rs = csrw CSR_MEPC rs"

text \<open>\<open>Inl\<close> is the memory in which a failed check leaves the processor spinning.\<close>

definition BM_CHECK :: "bool \<Rightarrow> u32 \<Rightarrow> mem \<Rightarrow> mem + mem" where
  "BM_CHECK cond code m = (if \<not> cond then Inl (bm_fail code m) else Inr m)"

section \<open>The environment of the ISA tests\<close>

definition isa_tohost :: u32 where "isa_tohost = 0x0000fffc"

text \<open>The store that is repeated for ever.\<close>

definition mailbox :: "u32 \<Rightarrow> instr list" where
  "mailbox pc = la pc t5 isa_tohost @ [STORE Sw gp t5 0, j_insn (- 6)]"

text \<open>The code at the reset address: the unexpected trap is at 20, the test follows at 56.\<close>

definition RVTEST_CODE_BEGIN :: "instr list" where
  "RVTEST_CODE_BEGIN = [li gp 0] @ la 4 t0 20 @ [csrw CSR_MTVEC t0, j_insn 20] @
     [li gp 256, csrr t6 CSR_MCAUSE, OP Add gp gp t6, SHIFT Slli gp gp 1, OPIMM Ori gp gp 1] @ mailbox 40"

definition RVTEST_CODE_END :: "instr list" where "RVTEST_CODE_END = [unimp]"

definition RVTEST_PASS :: "u32 \<Rightarrow> instr list" where
  "RVTEST_PASS pc = [li gp 1] @ mailbox (pc + 4)"

definition RVTEST_FAIL :: "u32 \<Rightarrow> instr list" where
  "RVTEST_FAIL pc = [BRANCH Beq gp 0 0, SHIFT Slli gp gp 1, OPIMM Ori gp gp 1] @ mailbox (pc + 12)"

section \<open>The environment of the architecture tests\<close>

definition RV32IM_ACT4_TOHOST :: u32 where "RV32IM_ACT4_TOHOST = 0x000ffffc"

definition halt_with :: "12 word \<Rightarrow> instr list" where
  "halt_with v = [LUI t0 (hi20 RV32IM_ACT4_TOHOST), OPIMM Addi t0 t0 (lo12 RV32IM_ACT4_TOHOST), li t1 v, STORE Sw t1 t0 0, j_insn 0]"

definition RVMODEL_HALT_PASS :: "instr list" where "RVMODEL_HALT_PASS = halt_with 1"
definition RVMODEL_HALT_FAIL :: "instr list" where "RVMODEL_HALT_FAIL = halt_with 3"

section \<open>Reports\<close>

text \<open>The machine never stops; the one change of its memory is the status in the word at \<open>a\<close>, from some step on.\<close>

definition reports :: "nat \<Rightarrow> code \<Rightarrow> u32 \<Rightarrow> u32 \<Rightarrow> machine \<Rightarrow> bool" where
  "reports bytes code a v x \<longleftrightarrow>
     (\<exists>n. \<forall>k. \<exists>y. asm_run bytes code k x = Some y \<and> snd y = (if k < n then snd x else store32 a v (snd x)))"

definition silent :: "nat \<Rightarrow> code \<Rightarrow> machine \<Rightarrow> bool" where
  "silent bytes code x \<longleftrightarrow> (\<forall>k. \<exists>y. asm_run bytes code k x = Some y \<and> snd y = snd x)"

lemma runs_on:
  assumes "P 0 x" and "\<And>k y. P k y \<Longrightarrow> \<exists>z. asm_step bytes code y = Some z \<and> P (Suc k) z"
  shows "\<exists>y. asm_run bytes code k x = Some y \<and> P k y"
proof (induction k)
  case 0
  then show ?case using assms(1) by simp
next
  case (Suc k)
  then obtain y where y: "asm_run bytes code k x = Some y" "P k y" by blast
  obtain z where z: "asm_step bytes code y = Some z" "P (Suc k) z" using assms(2) [OF y(2)] by blast
  have "asm_run bytes code (k + Suc 0) x = Some z" using y(1) z(1) by (simp only: asm_run_add) simp
  then show ?case using z(2) by simp
qed

lemma reports_step:
  assumes "asm_step bytes code x = Some y" "snd y = snd x" "reports bytes code a v y"
  shows "reports bytes code a v x"
proof -
  obtain n where n: "\<And>k. \<exists>z. asm_run bytes code k y = Some z \<and> snd z = (if k < n then snd y else store32 a v (snd y))"
    using assms(3) by (auto simp: reports_def)
  have "\<exists>z. asm_run bytes code k x = Some z \<and> snd z = (if k < Suc n then snd x else store32 a v (snd x))" for k
  proof (cases k)
    case 0
    then show ?thesis by (cases x) simp
  next
    case (Suc j)
    then show ?thesis using n [of j] assms(1,2) by (cases "j < n") auto
  qed
  then show ?thesis unfolding reports_def by blast
qed

text \<open>A run that leaves the memory alone.\<close>

primrec quiet_run :: "nat \<Rightarrow> code \<Rightarrow> nat \<Rightarrow> machine \<Rightarrow> machine option" where
  "quiet_run bytes code 0 x = Some x"
| "quiet_run bytes code (Suc n) x =
     (case asm_step bytes code x of None \<Rightarrow> None | Some y \<Rightarrow> if snd y = snd x then quiet_run bytes code n y else None)"

lemma quiet_run_numeral [asm_insn]:
  "quiet_run bytes code (numeral k) x =
     (case asm_step bytes code x of
        None \<Rightarrow> None | Some y \<Rightarrow> if snd y = snd x then quiet_run bytes code (pred_numeral k) y else None)"
  by (simp add: numeral_eq_Suc)

lemma reports_quiet: "quiet_run bytes code n x = Some y \<Longrightarrow> reports bytes code a v y \<Longrightarrow> reports bytes code a v x"
  by (induction n arbitrary: x) (auto split: option.splits if_splits intro: reports_step)

lemma quiet_run_run: "quiet_run bytes code n x = Some y \<Longrightarrow> asm_run bytes code n x = Some y"
  by (induction n arbitrary: x) (auto split: option.splits if_splits)

lemma store32_twice [simp]: "store32 a v (store32 a v m) = store32 a v m"
  by (auto simp: store32_def fun_eq_iff)

text \<open>The four instructions of the loop.\<close>

definition in_mailbox :: "u32 \<Rightarrow> u32 \<Rightarrow> mem \<Rightarrow> nat \<Rightarrow> machine \<Rightarrow> bool" where
  "in_mailbox p v m k x \<longleftrightarrow> a_pc (fst x) = p + of_nat (4 * (k mod 4)) \<and> calm (fst x) \<and> get_reg (fst x) gp = v \<and>
     (k mod 4 = 1 \<longrightarrow> get_reg (fst x) t5 = p + uimm (hi20 (isa_tohost - p))) \<and> (k mod 4 = 2 \<longrightarrow> get_reg (fst x) t5 = isa_tohost) \<and>
     snd x = (if k < 3 then m else store32 isa_tohost v m)"

definition mailbox_free :: "nat \<Rightarrow> code \<Rightarrow> u32 \<Rightarrow> bool" where
  "mailbox_free bytes code a \<longleftrightarrow> unat a < bytes \<and> unat a mod 4 = 0 \<and> code a = None"

lemma mailbox_step:
  assumes "code_at code p (mailbox p)" "unat p mod 4 = 0" "mailbox_free bytes code isa_tohost" "in_mailbox p v m k x"
  shows "\<exists>y. asm_step bytes code x = Some y \<and> in_mailbox p v m (Suc k) y"
proof -
  obtain s n where x: "x = (s, n)" by (cases x)
  have c: "code p = Some (AUIPC t5 (hi20 (isa_tohost - p)))" "code (p + 4) = Some (OPIMM Addi t5 t5 (lo12 (isa_tohost - p)))"
    "code (p + 8) = Some (STORE Sw gp t5 0)" "code (p + 12) = Some (JAL 0 (- 6))"
    using assms(1) by (simp_all add: mailbox_def la_def j_insn_def add.assoc)
  have "k mod 4 = 0 \<or> k mod 4 = 1 \<or> k mod 4 = 2 \<or> k mod 4 = 3" by arith
  then show ?thesis
  proof (elim disjE)
    assume k: "k mod 4 = 0"
    then have "Suc k mod 4 = 1" "k < 3 \<longleftrightarrow> Suc k < 3" by presburger+
    then show ?thesis using assms(2-4) c k by (simp add: in_mailbox_def x asm_insn)
  next
    assume k: "k mod 4 = 1"
    then have "Suc k mod 4 = 2" "k < 3 \<longleftrightarrow> Suc k < 3" by presburger+
    then show ?thesis using assms(2-4) c k by (simp add: in_mailbox_def x asm_insn)
  next
    assume k: "k mod 4 = 2"
    then have "Suc k mod 4 = 3" "\<not> Suc k < 3" by presburger+
    then show ?thesis using assms(2-4) c k by (simp add: in_mailbox_def x asm_insn mailbox_free_def)
  next
    assume k: "k mod 4 = 3"
    then have "Suc k mod 4 = 0" "\<not> Suc k < 3" "\<not> k < 3" by presburger+
    then show ?thesis using assms(2-4) c k by (simp add: in_mailbox_def x asm_insn offset_def)
  qed
qed

lemma mailbox_reports:
  assumes "code_at code p (mailbox p)" "unat p mod 4 = 0" "mailbox_free bytes code isa_tohost" "a_pc s = p" "calm s"
  shows "reports bytes code isa_tohost (get_reg s gp) (s, m)"
proof -
  have "\<exists>y. asm_run bytes code k (s, m) = Some y \<and> in_mailbox p (get_reg s gp) m k y" for k
    by (rule runs_on [where P = "in_mailbox p (get_reg s gp) m", OF _ mailbox_step [OF assms(1-3)]]) (use assms(4,5) in \<open>simp_all add: in_mailbox_def\<close>)
  then have "\<exists>y. asm_run bytes code k (s, m) = Some y \<and> snd y = (if k < 3 then m else store32 isa_tohost (get_reg s gp) m)" for k
    unfolding in_mailbox_def by blast
  then show ?thesis unfolding reports_def snd_conv by blast
qed

section \<open>What the tests report\<close>

definition isa_status :: "u32 \<Rightarrow> u32" where
  "isa_status n = push_bit 1 n OR 1"

lemma status_value: "rop_value Or (rop_value Sll n 1) 1 = isa_status n"
  by (simp add: isa_status_def amount_def push_bit_eq_mult)

lemma isa_status_passes: "isa_status n = 1 \<longleftrightarrow> n AND mask 31 = 0"
proof
  assume "isa_status n = 1"
  then have "drop_bit 1 (isa_status n) = drop_bit 1 1" by simp
  then show "n AND mask 31 = 0" using push_bit_1_or_1 [of n] by (simp add: isa_status_def)
next
  assume n: "n AND mask 31 = 0"
  have "\<not> bit n k" if "k < 31" for k
  proof -
    have "bit (n AND mask 31) k \<longleftrightarrow> bit n k" using that by (simp add: bit_simps)
    then show ?thesis using n by simp
  qed
  then have "push_bit 1 n = 0" by (intro bit_word_eqI) (auto simp: bit_simps bit_double_iff mult.commute [of n 2])
  then show "isa_status n = 1" by (simp add: isa_status_def)
qed

lemma pass_reports:
  assumes "code_at code p (RVTEST_PASS p)" "unat p mod 4 = 0" "mailbox_free bytes code isa_tohost" "a_pc s = p" "calm s"
  shows "reports bytes code isa_tohost 1 (s, m)"
proof -
  let ?t = "set_reg gp 1 (advance (p + 4) s)"
  have "asm_step bytes code (s, m) = Some (?t, m)" using assms by (simp add: RVTEST_PASS_def li_def asm_insn)
  moreover have "reports bytes code isa_tohost (get_reg ?t gp) (?t, m)"
    by (rule mailbox_reports [where p = "p + 4"]) (use assms in \<open>simp_all add: RVTEST_PASS_def aligned_add\<close>)
  ultimately show ?thesis by (auto intro: reports_step)
qed

lemma fail_reports:
  assumes "code_at code p (RVTEST_FAIL p)" "unat p mod 4 = 0" "mailbox_free bytes code isa_tohost" "a_pc s = p" "calm s"
  shows "if get_reg s gp = 0 then silent bytes code (s, m) else reports bytes code isa_tohost (isa_status (get_reg s gp)) (s, m)"
proof (cases "get_reg s gp = 0")
  case True
  have c: "code p = Some (BRANCH Beq gp 0 0)" using assms(1) by (simp add: RVTEST_FAIL_def)
  have "\<exists>y. asm_run bytes code k (s, m) = Some y \<and> a_pc (fst y) = p \<and> calm (fst y) \<and> get_reg (fst y) gp = 0 \<and> snd y = m" for k
  proof (rule runs_on [where P = "\<lambda>_ y. a_pc (fst y) = p \<and> calm (fst y) \<and> get_reg (fst y) gp = 0 \<and> snd y = m"])
    fix y :: machine
    assume "a_pc (fst y) = p \<and> calm (fst y) \<and> get_reg (fst y) gp = 0 \<and> snd y = m"
    then show "\<exists>z. asm_step bytes code y = Some z \<and> a_pc (fst z) = p \<and> calm (fst z) \<and> get_reg (fst z) gp = 0 \<and> snd z = m"
      using c assms(2) by (cases y) (simp add: asm_insn offset_def)
  qed (use assms True in simp)
  then show ?thesis using True unfolding silent_def by auto
next
  case False
  have "\<exists>t. quiet_run bytes code 3 (s, m) = Some (t, m) \<and> a_pc t = p + 12 \<and> calm t \<and> get_reg t gp = isa_status (get_reg s gp)"
    using assms False by (simp add: RVTEST_FAIL_def asm_insn offset_def status_value add.assoc del: rop_value.simps)
  then obtain t where t: "quiet_run bytes code 3 (s, m) = Some (t, m)" "a_pc t = p + 12" "calm t" "get_reg t gp = isa_status (get_reg s gp)"
    by blast
  have "code_at code (p + 12) (mailbox (p + 12))" using assms(1) by (simp add: RVTEST_FAIL_def add.assoc)
  then have "reports bytes code isa_tohost (get_reg t gp) (t, m)"
    using assms(2,3) t(2,3) by (intro mailbox_reports) (simp_all add: aligned_add)
  then show ?thesis using reports_quiet [OF t(1)] t(4) False by simp
qed

text \<open>The handler of the traps the tests do not expect.\<close>

lemma trap_reports:
  assumes "code_at code 0 RVTEST_CODE_BEGIN" "mailbox_free bytes code isa_tohost" "a_pc s = 20" "calm s"
  shows "reports bytes code isa_tohost (isa_status (256 + m_cause (a_m s))) (s, m)"
proof -
  have "\<exists>t. quiet_run bytes code 5 (s, m) = Some (t, m) \<and> a_pc t = 40 \<and> calm t \<and> get_reg t gp = isa_status (256 + m_cause (a_m s))"
    using assms(1,3,4)
    by (simp add: RVTEST_CODE_BEGIN_def la_def li_def csrr_def csrw_def j_insn_def asm_insn csr_facts status_value calm_def
        del: rop_value.simps(3,9))
  then obtain t where t: "quiet_run bytes code 5 (s, m) = Some (t, m)" "a_pc t = 40" "calm t"
    "get_reg t gp = isa_status (256 + m_cause (a_m s))" by blast
  have "code_at code 40 (mailbox 40)" using assms(1) by (simp add: RVTEST_CODE_BEGIN_def la_def li_def)
  then have "reports bytes code isa_tohost (get_reg t gp) (t, m)" using assms(2) t by (intro mailbox_reports) simp_all
  then show ?thesis using reports_quiet [OF t(1)] t(4) by simp
qed

lemma test_entry:
  assumes "code_at code 0 RVTEST_CODE_BEGIN" "a_pc s = 0" "calm s"
  shows "\<exists>t. reach bytes code (s, m) (t, m) \<and> a_pc t = 56 \<and> get_reg t gp = 0 \<and> m_tvec (a_m t) = 20"
  using assms by (intro reach_ex [of _ _ 5])
    (simp add: RVTEST_CODE_BEGIN_def la_def li_def csrr_def csrw_def j_insn_def asm_insn csr_facts offset_def aligned_same add.assoc)

lemma code_end_traps:
  assumes "code_at code p RVTEST_CODE_END" "a_pc s = p" "calm s"
  shows "asm_step bytes code (s, m) = Some (trap False EXC_ILLEGAL_INSN (encode unimp) s, m)"
  using assms by (simp add: RVTEST_CODE_END_def unimp_def asm_step_def calm_def timeless_def asm_exec_def exec_def exec_csr_def csr_facts)

lemma spin_silent:
  assumes "code p = Some (j_insn 0)" "unat p mod 4 = 0" "a_pc s = p" "calm s"
  shows "silent bytes code (s, m)"
proof -
  have "\<exists>y. asm_run bytes code k (s, m) = Some y \<and> a_pc (fst y) = p \<and> calm (fst y) \<and> snd y = m" for k
  proof (rule runs_on [where P = "\<lambda>_ y. a_pc (fst y) = p \<and> calm (fst y) \<and> snd y = m"])
    fix y :: machine
    assume "a_pc (fst y) = p \<and> calm (fst y) \<and> snd y = m"
    then show "\<exists>z. asm_step bytes code y = Some z \<and> a_pc (fst z) = p \<and> calm (fst z) \<and> snd z = m"
      using assms(1,2) by (cases y) (simp add: j_insn_def asm_insn offset_def)
  qed (use assms in simp)
  then show ?thesis unfolding silent_def by auto
qed

lemma reports_store:
  assumes "asm_step bytes code x = Some y" "snd y = store32 a v (snd x)" "silent bytes code y"
  shows "reports bytes code a v x"
proof -
  have "\<exists>z. asm_run bytes code k x = Some z \<and> snd z = (if k < 1 then snd x else store32 a v (snd x))" for k
    using assms by (cases k) (auto simp: silent_def)
  then show ?thesis unfolding reports_def by blast
qed

lemma halt_reports:
  assumes "code_at code p (halt_with v)" "unat p mod 4 = 0" "mailbox_free bytes code RV32IM_ACT4_TOHOST" "a_pc s = p" "calm s"
  shows "reports bytes code RV32IM_ACT4_TOHOST (simm v) (s, m)"
proof -
  have c: "code (12 + p) = Some (STORE Sw t1 t0 0)" "code (p + 16) = Some (j_insn 0)"
    using assms(1) by (simp_all add: halt_with_def add.assoc add.commute [of p])
  have "\<exists>t. quiet_run bytes code 3 (s, m) = Some (t, m) \<and> a_pc t = p + 12 \<and> calm t \<and> get_reg t t0 = RV32IM_ACT4_TOHOST \<and> get_reg t t1 = simm v"
    using assms by (simp add: halt_with_def li_def asm_insn add.assoc)
  then obtain t where t: "quiet_run bytes code 3 (s, m) = Some (t, m)" "a_pc t = p + 12" "calm t" "get_reg t t0 = RV32IM_ACT4_TOHOST"
    "get_reg t t1 = simm v" by blast
  have "asm_step bytes code (t, m) = Some (advance (p + 16) t, store32 RV32IM_ACT4_TOHOST (simm v) m)"
    using c t assms(3) by (simp add: asm_insn mailbox_free_def add.commute [of p])
  moreover have "silent bytes code (advance (p + 16) t, store32 RV32IM_ACT4_TOHOST (simm v) m)"
    by (rule spin_silent [where code = code and p = "p + 16", OF c(2)]) (use assms(2) t in \<open>simp_all add: aligned_add\<close>)
  ultimately show ?thesis by (intro reports_quiet [OF t(1)] reports_store) simp_all
qed

lemma code_end_reports:
  assumes "code_at code 0 RVTEST_CODE_BEGIN" "mailbox_free bytes code isa_tohost" "code_at code e RVTEST_CODE_END"
    and "a_pc s = e" "calm s" "m_tvec (a_m s) = 20"
  shows "reports bytes code isa_tohost (isa_status (256 + 2)) (s, m)"
proof -
  let ?t = "trap False EXC_ILLEGAL_INSN (encode unimp) s"
  have t: "a_pc ?t = 20" "calm ?t" "m_cause (a_m ?t) = 2"
    using assms(6) by (simp_all add: trap_def enter_trap_def calm_def EXC_ILLEGAL_INSN_def)
  have "reports bytes code isa_tohost (isa_status (256 + m_cause (a_m ?t))) (?t, m)" by (rule trap_reports [OF assms(1,2) t(1,2)])
  then show ?thesis using reports_step [OF code_end_traps [OF assms(3-5)]] unfolding t(3) by simp
qed

section \<open>Properties\<close>

text \<open>C27. An ISA test reports what it found, once and for all. After \<^verbatim>\<open>RVTEST_PASS\<close> the mailbox gets 1; after \<^verbatim>\<open>RVTEST_FAIL\<close> it gets
  twice the number of the test plus one, and nothing if there is no number; after a trap, and at the end of the code, it gets that value for 256 plus
  the cause. The program goes on for ever and its memory changes in nothing else. A status is a pass only for a number whose 31 low bits are zero.\<close>

theorem isa_tests_report:
  assumes "code_at code 0 RVTEST_CODE_BEGIN" "code_at code p (RVTEST_PASS p)" "code_at code f (RVTEST_FAIL f)" "code_at code e RVTEST_CODE_END"
    and "unat p mod 4 = 0" "unat f mod 4 = 0" "mailbox_free bytes code isa_tohost" "calm s"
  shows "(a_pc s = p \<longrightarrow> reports bytes code isa_tohost 1 (s, m)) \<and>
    (a_pc s = f \<longrightarrow> (if get_reg s gp = 0 then silent bytes code (s, m)
                      else reports bytes code isa_tohost (isa_status (get_reg s gp)) (s, m))) \<and>
    (a_pc s = 20 \<longrightarrow> reports bytes code isa_tohost (isa_status (256 + m_cause (a_m s))) (s, m)) \<and>
    (a_pc s = e \<and> m_tvec (a_m s) = 20 \<longrightarrow> reports bytes code isa_tohost (isa_status 258) (s, m)) \<and>
    (isa_status n = 1 \<longleftrightarrow> n AND mask 31 = 0)"
  using pass_reports [OF assms(2,5,7) _ assms(8)] fail_reports [OF assms(3,6,7) _ assms(8)] trap_reports [OF assms(1,7) _ assms(8)]
    code_end_reports [OF assms(1,7,4) _ assms(8)] isa_status_passes [of n] by simp

text \<open>Test 5 fails.\<close>

definition witness_test :: code where
  "witness_test = placed 0 RVTEST_CODE_BEGIN ++ placed 0x100 (RVTEST_PASS 0x100) ++ placed 0x200 (RVTEST_FAIL 0x200) ++ placed 0x300 RVTEST_CODE_END"

theorem isa_tests_report_witness:
  "reports 0x10000 witness_test isa_tohost 11 (set_reg gp 5 (arch_reset 0x200 20 (\<lambda>_. 0)), \<lambda>_. 0)"
proof -
  let ?s = "set_reg gp 5 (arch_reset 0x200 20 (\<lambda>_. 0))"
  have "code_at witness_test 0 RVTEST_CODE_BEGIN" "code_at witness_test 0x100 (RVTEST_PASS 0x100)"
    "code_at witness_test 0x200 (RVTEST_FAIL 0x200)" "code_at witness_test 0x300 RVTEST_CODE_END"
    by (simp_all add: witness_test_def RVTEST_CODE_BEGIN_def RVTEST_PASS_def RVTEST_FAIL_def RVTEST_CODE_END_def mailbox_def la_def map_add_def)
  moreover have "mailbox_free 0x10000 witness_test isa_tohost"
    by (simp add: mailbox_free_def isa_tohost_def witness_test_def RVTEST_CODE_BEGIN_def RVTEST_PASS_def RVTEST_FAIL_def RVTEST_CODE_END_def
        mailbox_def la_def map_add_def)
  moreover have "calm ?s" "a_pc ?s = 0x200" "get_reg ?s gp = 5" by (simp_all add: calm_def arch_reset_def)
  ultimately have "reports 0x10000 witness_test isa_tohost (isa_status 5) (?s, \<lambda>_. 0)"
    using isa_tests_report [where code = witness_test and p = "0x100" and f = "0x200" and e = "0x300" and bytes = "0x10000" and s = ?s and m = "\<lambda>_. 0"]
    by simp
  then show ?thesis by (simp add: isa_status_def)
qed

text \<open>The macros of the architecture tests, on a memory of 1 MiB.\<close>

lemma act4_reports:
  assumes "mailbox_free bytes code RV32IM_ACT4_TOHOST" "unat p mod 4 = 0" "a_pc s = p" "calm s"
  shows "(code_at code p RVMODEL_HALT_PASS \<longrightarrow> reports bytes code RV32IM_ACT4_TOHOST 1 (s, m)) \<and>
    (code_at code p RVMODEL_HALT_FAIL \<longrightarrow> reports bytes code RV32IM_ACT4_TOHOST 3 (s, m))"
  using halt_reports [OF _ assms(2,1,3,4), of 1] halt_reports [OF _ assms(2,1,3,4), of 3]
  by (simp add: RVMODEL_HALT_PASS_def RVMODEL_HALT_FAIL_def asm_insn)

text \<open>A check that fails reports its code, never a pass.\<close>

lemma BM_CHECK_reports:
  "BM_CHECK c code m = (if c then Inr m else Inl (bm_fail code m)) \<and> load32 (bm_fail code m) BM_TOHOST_ADDR \<noteq> BM_PASS_STATUS"
  using bm_fail_status_not_pass [of code] by (simp add: BM_CHECK_def bm_fail_def load32_store32)

text \<open>The word the assembler gives for \<^verbatim>\<open>unimp\<close>.\<close>

lemma encode_unimp: "encode unimp = 0xc0001073"
  by (simp add: unimp_def i_word_def insn_word_def field_def push_bit_eq_mult)

text \<open>The helpers read the constants of the core and set the address to return to.\<close>

lemma bm_csr_helpers:
  assumes "a_pc s = p" "calm s"
  shows "code p = Some (bm_csr_read_misa rd) \<Longrightarrow> asm_step bytes code (s, m) = Some (set_reg rd MISA_RV32IM (advance (p + 4) s), m)"
    "code p = Some (bm_csr_read_mhartid rd) \<Longrightarrow> asm_step bytes code (s, m) = Some (set_reg rd 0 (advance (p + 4) s), m)"
    "code p = Some (bm_csr_write_mepc rs) \<Longrightarrow> \<exists>t. asm_step bytes code (s, m) = Some (t, m) \<and> a_pc t = p + 4 \<and> get_reg t = get_reg s \<and>
       m_epc (a_m t) = word_aligned (get_reg s rs)"
  using assms
  by (simp_all add: bm_csr_read_misa_def bm_csr_read_mhartid_def bm_csr_write_mepc_def csrr_def csrw_def asm_insn csr_facts fun_eq_iff)

end
