(* ===== verification/Spec2Isabelle.thy ===== *)
theory Spec2Isabelle
  imports Kernel_Claims Kernel_Time Kernel_Frame Soc_Claims Cm_Claims Runtime_Claims Port_Claims Demo_Claims Demo_Whole
    Core_Claims Core_Perf Asm_Sound Asm_Start Asm_Tests
begin

text \<open>
  A verification library for the RV32IM core and its C software: the pipelined processor against its instruction set, the board
  support package, the C runtime, the FreeRTOS image with the kernel functions it links, and the CoreMark port.

  \<^bold>\<open>The program and how its parts interact.\<close> The FreeRTOS image is \<^verbatim>\<open>sw/freertos/demo.c\<close> (three tasks and \<^verbatim>\<open>main\<close>)
  and \<^verbatim>\<open>sw/freertos/platform.c\<close> (hooks, the failure report, memory functions) on the kernel
  in \<^verbatim>\<open>third_party/freertos-kernel\<close>: \<^verbatim>\<open>tasks.c\<close> keeps tasks in the lists of \<^verbatim>\<open>list.c\<close>, and the RISC-V port
  (\<^verbatim>\<open>port.c\<close>, \<^verbatim>\<open>portASM.S\<close>) programs the machine timer, turns its interrupts into ticks and the
  \<^verbatim>\<open>ecall\<close> of a yield into a context switch. Tasks and port reach the devices (timer, UART, GPIO) through
  \<^verbatim>\<open>sw/bsp/rv32_soc.c\<close> or with word accesses of the same shape. A bare-metal image has \<^verbatim>\<open>sw/runtime/runtime.c\<close>
  instead of a kernel; CoreMark runs on it with the port \<^verbatim>\<open>sw/coremark/core_portme.c\<close>. A program ends
  with one store to the mailbox \<^verbatim>\<open>tohost\<close>, which the host reads. All of it runs on the processor \<^verbatim>\<open>rtl/core\<close>, a pipeline of
  five stages (fetch, decode, execute, memory, write-back) with two buses and the timer interrupt as its only input.

  \<^bold>\<open>Conventions\<close> (theory Prelude). C integers and pointers are words of the RV32 widths (\<open>u8\<close>, \<open>u32\<close>, \<open>u64\<close>), so all
  arithmetic wraps as in C. A function that may not return normally returns a sum, \<open>Inl\<close> being the
  fault; \<open>bindE\<close> is sequencing. A loop is a total recursive function where it always ends, a
  \<open>partial_function (option)\<close> where it may not, with \<open>None\<close> for a loop that does not end; there is no fuel.

  \<^bold>\<open>Theories and code.\<close>

  \<^item> Kernel\_List models \<^verbatim>\<open>list.c\<close> and the macros of \<^verbatim>\<open>list.h\<close>: \<open>list_store\<close> is the store of list cells with the C fields,
    and each function updates it, following NULL being a fault. Kernel\_Ring gives the lists their meaning
    (\<open>ring h l xs\<close>: the list \<open>l\<close> holds the items \<open>xs\<close>) and proves each operation against it once; the locale
    \<open>task_lists\<close> is what the scheduler uses of this, interpreted on the model.
  \<^item> Kernel\_Tasks and Kernel\_Create model \<^verbatim>\<open>tasks.c\<close> as \<^verbatim>\<open>FreeRTOSConfig.h\<close> compiles it: the record \<open>kernel\<close> holds the
    static variables, the control blocks (\<open>tcb_t\<close>), the list store and the stacks, and each C function is one definition
    with its assertions as faults \<open>AssertFail\<close> carrying the source line.
  \<^item> Kernel\_Inv, Kernel\_Tick, Kernel\_Sched, Kernel\_Delay and Kernel\_Resume state the invariant \<open>kernel_ok\<close> and prove that every operation keeps
    it and what it does to \<open>abs_state\<close>, the abstract specification: each task is ready at a priority,
    blocked for a number of ticks, or absent. Kernel\_Boot is the construction of a system.
  \<^item> Kernel\_Steps is the scheduler as a transition system: \<open>step\<close> with the calls of the running task, taken apart
    where an interrupt can come in, and the tick; \<open>sys_ok\<close> is its invariant. Kernel\_Demo is a concrete system
    for the witnesses. Kernel\_Claims, Kernel\_Time and Kernel\_Frame hold the properties.
  \<^item> Soc\_Devices and Soc\_Bus model the devices and the data bus clock by clock from \<^verbatim>\<open>rtl/soc\<close>; a \<open>machine\<close> is
    the state of the system with the environment (input pins per clock, idle clocks before each access) and a
    trace of its clocks. Soc\_Bsp models every function of \<^verbatim>\<open>rv32_soc.c\<close> over it. Soc\_Quiet and Soc\_Access say what one
    access does, Soc\_Uart what the serial line carries; Soc\_Claims holds the properties.
  \<^item> Split\_Counter is the loop that reads a 64-bit counter in two halves, which occurs three times in the code.
    Its locale \<open>split_counter\<close> asks that the two reads return halves of a counter that does not run faster than
    \<open>2 ^ 29\<close> per read; it is interpreted for \<open>mtime\<close> (Soc\_Bsp, Port\_Time) and for \<open>mcycle\<close> and \<open>minstret\<close> (Cm\_Text).
  \<^item> Runtime models \<^verbatim>\<open>runtime.c\<close> and \<open>strlen\<close>, with byte-addressed memory; Platform models \<^verbatim>\<open>platform.c\<close> on a \<open>board\<close>, which is a
    kernel and a machine side by side; Port models \<^verbatim>\<open>port.c\<close> and the trap handler of \<^verbatim>\<open>portASM.S\<close>; Demo models \<^verbatim>\<open>demo.c\<close>, a task
    being the code before its endless loop and one round of it. Port\_Time, Port\_Start and Demo\_Runs run their functions;
    Runtime\_Claims, Port\_Claims and Demo\_Claims hold the properties.
  \<^item> Demo\_System is the running demo as a transition system: a task takes one visible access per step (\<open>blink_step\<close>,
    \<open>echo_step\<close>, \<open>check_step\<close>, proved to compose to the rounds of Demo), its kernel calls are the steps of Kernel\_Steps, and
    the timer interrupt comes in between any two. Demo\_Inv is its invariant \<open>demo_inv\<close>, Demo\_Whole holds the properties.
  \<^item> Cm\_Port models \<^verbatim>\<open>core_portme.c\<close>; Cm\_Report models the half of CoreMark's \<^verbatim>\<open>main\<close> that reports through it, and the CRC of
    \<^verbatim>\<open>core_util.c\<close>. Cm\_Text and Cm\_Lines are their lemmas, Cm\_Claims the properties.

  \<^item> Core\_Isa and Core\_Arch are the specification of the processor: the instructions of RV32IM with the machine-mode
    instructions as a datatype (\<open>instr\<close>, \<open>encode\<close>), their complete effect on registers, program counter and machine-mode
    state (\<open>exec\<close>), and \<open>arch_step\<close>, a step of the architecture labelled with the data access it makes.
  \<^item> Core\_Pkg holds the types of \<^verbatim>\<open>rv32_pkg.sv\<close>; Core\_Decode models \<^verbatim>\<open>decoder.sv\<close>, \<^verbatim>\<open>imm_gen.sv\<close>, \<^verbatim>\<open>alu.sv\<close> and \<^verbatim>\<open>branch_unit.sv\<close>,
    Core\_Muldiv \<^verbatim>\<open>mul_unit.sv\<close> and \<^verbatim>\<open>div_unit.sv\<close>, Core\_Csr \<^verbatim>\<open>csr_file.sv\<close>, Core\_Stages \<^verbatim>\<open>regfile.sv\<close>, \<^verbatim>\<open>id_stage.sv\<close>,
    \<^verbatim>\<open>forwarding_unit.sv\<close>, \<^verbatim>\<open>hazard_unit.sv\<close> and the datapath of \<^verbatim>\<open>ex_stage.sv\<close>, Core\_Lsu \<^verbatim>\<open>lsu.sv\<close>, Core\_Fetch \<^verbatim>\<open>if_stage.sv\<close>, and
    Core\_Pipe \<^verbatim>\<open>pipeline_ctrl.sv\<close> and \<^verbatim>\<open>rv32_core.sv\<close>. A module with registers is a record of them and a function from the
    inputs of a clock and the state to the next state (\<open>if_clock\<close>, \<open>lsu_clock\<close>, \<open>core_clock\<close>, ...); a combinational
    output is a function of inputs and state.
  \<^item> Core\_Decode\_Proofs, Core\_Muldiv\_Proofs, Core\_Datapath (one instruction without time), Core\_Fetch\_Proofs and Core\_Units (the
    multiplier and the divider as instances of the locale \<open>blocking_unit\<close>, the load/store unit) treat the modules.
    Core\_Refine states the relation \<open>pipe_ok\<close> of the pipeline to the architecture, which stands where the packet in write-back has been committed;
    Core\_Clock, Core\_Execute and Core\_Step prove that each action of the controller keeps it; Core\_Run puts the clocks together
    (locale \<open>stuttering_machine\<close>), Core\_Live proves that the pipeline cannot stop on a fair bus, and Core\_Claims holds the
    properties. Core\_Perf models the performance counters and the trace outputs, which only read the pipeline.
  \<^item> Asm runs assembly on the instruction set: a program (\<open>code\<close>) is a function from addresses to instructions, and \<open>asm_run\<close>
    executes it with \<open>exec\<close> on the tightly coupled memory; Asm\_Sound proves that the architecture has no other run. Asm\_Start models
    \<^verbatim>\<open>crt0.S\<close>, \<^verbatim>\<open>startup.S\<close> and \<^verbatim>\<open>trap.S\<close> as instruction lists, Asm\_Tests the macros of \<^verbatim>\<open>riscv_test.h\<close> and
    \<^verbatim>\<open>rvmodel_macros.h\<close> and the helpers of \<^verbatim>\<open>baremetal.h\<close>. A symbol is a field of \<open>symbols\<close> or an address of the linker script;
    \<open>la\<close>, \<open>li\<close>, \<open>call\<close> and \<open>tail\<close> expand as the linker leaves them under \<^verbatim>\<open>-mno-relax\<close>.

  \<^bold>\<open>What the properties show.\<close> Processor: from reset on, every run of the pipeline makes the accesses and passes the
  addresses of a run of the instruction set and has its registers and machine-mode state, whatever the timing of the buses and of
  the interrupt, so that forwarding, stalls, redirects, traps and interrupts are invisible; on fair buses it never stops; the decoder accepts exactly the
  encodings of the instruction set; the datapath, the register file of machine-mode state, the multiplier and the divider are right by
  themselves. Scheduler: in every reachable state the running task is a ready task of the highest
  priority; a sleep of \<open>n\<close> ticks ends with the \<open>n\<close>-th tick in every interleaving and across a wrap of the tick count;
  no kernel call of a reachable state faults, except that the stack check stops a task whose stack has overflowed; the tick, resuming and
  the delay functions refine the abstract specification; equal priorities take turns. The overflow is stated apart from the
  check in the code: \<open>healthy\<close> (Kernel\_Sched) says that the stack pointer to be saved is above the base of the stack and that the
  sixteen bytes at the base hold the fill byte. The check stops a switch exactly when this fails (\<open>stack_overflowed_iff\<close>),
  every call of a healthy task returns, and a new task starts healthy (\<open>new_stack_intact\<close> in Kernel\_Boot). Lists: stable insertion, removal,
  order of turns, termination on well-formed lists. Port: the trap handler implements the steps of the transition system,
  ticks do not drift and the update of the timer causes no spurious interrupt, other traps are
  reported, an exception with the address of the next instruction. Board support: 64-bit reads and writes of the timer are atomic in effect, received bytes are taken once and none is returned twice (\<open>delivered\<close> and
  \<open>held\<close> in Soc\_Access account for every byte), sent
  bytes appear on the line and a receiver gets them back. Demo: \<^verbatim>\<open>main\<close> reaches a state of the transition system; each task's
  round; the exact condition of a pass; from there on, in every interleaving, the echo is faithful, a pass means
  progress and the program never gets stuck. Runtime: the memory functions. Assembly: the start-up code
  reaches \<^verbatim>\<open>main\<close> with its stack, its cleared data and its trap vector, the trap entry gives every register its value back, and the ISA
  tests report their status once and for all. CoreMark: the verdict is
  right for every outcome of the benchmark, and the time reported is the time measured.

  \<^bold>\<open>Bounds and hypotheses.\<close> \<open>gap m < 2 ^ 28\<close> in \<open>mt_ok\<close> and \<open>2 ^ 29\<close> counts per CSR read in \<open>hart_ok\<close> say that the processor is not
  kept from its next access for seconds; with them the low half of a counter wraps at most once in two rounds, which is
  what makes the reading loop end. \<open>linked\<close> and \<open>fresh\<close> describe the static memory the linker provides (aligned, apart, zeroed).
  \<open>pc\<close> in \<open>step\<close> is where a task stands in a kernel call, so a task may do anything else in between. The compiler's order of the two word
  stores of a 64-bit value is a parameter. \<open>gap\<close>, the pins and the counts per access are parameters of the environment.
  For the processor, \<open>good_clock\<close> says that it is out of reset and that the instruction bus answers a fetch with the
  contents of memory (\<open>im\<close>, an error where there is none), which are constant: code does not modify itself. A bus answers a request in the clock it takes it
  or later, and a response without a request is ignored. The data bus is free in its answers. \<open>fair_bus\<close> says that a bus
  takes requests again and again and answers those it took; only the liveness of the processor needs it. The timer interrupt may rise and fall at any
  clock; the instruction set allows it at every step at which it is enabled. What \<^verbatim>\<open>mcycle\<close> and \<^verbatim>\<open>mip\<close> read is
  left to the environment of a step. Programs in assembly run with interrupts off, read no register that changes with time, do not store into
  themselves and stay in the memory; elsewhere \<open>asm_step\<close> has no value. A function in C they call is a hypothesis on the state it returns with
  (\<open>handler_returned\<close>, the second half of \<open>program_started\<close>).

  \<^bold>\<open>Not modelled.\<close> The latency of the instruction port of the memory and pipelined or interrupted bus requests; the compilation of the C code
  to the instructions of the processor; the linker scripts, but for the addresses they fix; the registers of a context
  other than the words the port writes and reads; the stacks share no bytes with the report and the mailbox, which live in the machine's memory.
  In the FreeRTOS kernel, queues, timers and everything \<^verbatim>\<open>FreeRTOSConfig.h\<close> switches off. A call of a driver by a task of the demo
  makes its device accesses without a tick in between, but for the two of \<^verbatim>\<open>try_getc\<close>. The three workloads of CoreMark
  are vendored and appear as the results they hand to the report. Directed tests, testbenches, scripts and
  build files.
\<close>

end
